(* ===== verification/MyLite_Prelude.thy ===== *)
theory MyLite_Prelude
  imports Main "HOL-Library.Word"
begin

text \<open>
  Shared vocabulary of the development: bytes and byte buffers, the status codes of
  \<^verbatim>\<open>mylite.h\<close> and \<^verbatim>\<open>sqlite3.h\<close> the components return, the limits of the
  C integer types, the allocator as an environment choice, and the generic lemmas on
  lists and words that the component theories use through the collections
  \<open>buffer_simps\<close> and \<open>limit_simps\<close>.
\<close>

unbundle bit_operations_syntax

named_theorems buffer_simps \<open>reads and writes of byte buffers\<close>
named_theorems limit_simps \<open>the limits of the C integer types\<close>

section \<open>Bytes and buffers\<close>

type_synonym byte = "8 word"
type_synonym bytes = "byte list"
type_synonym u16 = "16 word"
type_synonym u64 = "64 word"

text \<open>A C string literal as the bytes of its characters, without the terminating NUL.\<close>

definition text_bytes :: "string \<Rightarrow> bytes" where
  "text_bytes s = map of_char s"

lemma length_text_bytes [simp]: "length (text_bytes s) = length s"
  by (simp add: text_bytes_def)

text \<open>
  \<open>memcpy_at dst off src\<close> is the buffer after \<^verbatim>\<open>memcpy(dst + off, src, n)\<close>, where the
  source fits; \<open>mem_equal\<close> is \<^verbatim>\<open>memcmp(a, b, n) == 0\<close>.
\<close>

definition memcpy_at :: "'a list \<Rightarrow> nat \<Rightarrow> 'a list \<Rightarrow> 'a list" where
  "memcpy_at dst off src = take off dst @ src @ drop (off + length src) dst"

definition mem_equal :: "'a list \<Rightarrow> 'a list \<Rightarrow> nat \<Rightarrow> bool" where
  "mem_equal a b n \<longleftrightarrow> take n a = take n b"

lemma length_memcpy_at [buffer_simps]:
  "off + length src \<le> length dst \<Longrightarrow> length (memcpy_at dst off src) = length dst"
  by (simp add: memcpy_at_def)

lemma nth_memcpy_at [buffer_simps]:
  "off + length src \<le> length dst \<Longrightarrow> i < length dst \<Longrightarrow>
    memcpy_at dst off src ! i =
      (if off \<le> i \<and> i < off + length src then src ! (i - off) else dst ! i)"
  by (auto simp: memcpy_at_def nth_append min_def)

lemma take_memcpy_at_0 [buffer_simps]: "take (length src) (memcpy_at dst 0 src) = src"
  by (simp add: memcpy_at_def)

lemma nth_eq_take_eq:
  assumes "n \<le> length xs" "n \<le> length ys" "\<And>i. i < n \<Longrightarrow> xs ! i = ys ! i"
  shows "take n xs = take n ys"
  using assms by (intro nth_equalityI) auto

lemma drop_replicate_iff:
  "drop k xs = replicate (length xs - k) z \<longleftrightarrow> (\<forall>i. k \<le> i \<and> i < length xs \<longrightarrow> xs ! i = z)"
proof
  assume eq: "drop k xs = replicate (length xs - k) z"
  show "\<forall>i. k \<le> i \<and> i < length xs \<longrightarrow> xs ! i = z"
  proof (intro allI impI)
    fix i assume i: "k \<le> i \<and> i < length xs"
    then have "drop k xs ! (i - k) = z" by (simp add: eq nth_replicate diff_less_mono)
    with i show "xs ! i = z" by simp
  qed
next
  assume "\<forall>i. k \<le> i \<and> i < length xs \<longrightarrow> xs ! i = z"
  then show "drop k xs = replicate (length xs - k) z"
    by (intro nth_equalityI) auto
qed

section \<open>Limits of the C integer types\<close>

text \<open>
  The library is built for targets with a 64-bit \<^verbatim>\<open>size_t\<close>; \<open>SIZE_MAX\<close> and
  \<open>UINT64_MAX\<close> are then equal. A count modelled as \<open>nat\<close> and a signed value modelled as
  \<open>int\<close> are shown to stay within these limits wherever the C code would otherwise wrap.
\<close>

definition SIZE_MAX :: nat where [limit_simps]: "SIZE_MAX = 18446744073709551615"
definition INT32_MAX :: int where [limit_simps]: "INT32_MAX = 2147483647"
definition INT64_MAX :: int where [limit_simps]: "INT64_MAX = 9223372036854775807"
definition UINT64_MAX :: u64 where [limit_simps]: "UINT64_MAX = -1"

section \<open>Status codes\<close>

abbreviation (input) MYLITE_OK :: int where "MYLITE_OK \<equiv> 0"
abbreviation (input) MYLITE_ERROR :: int where "MYLITE_ERROR \<equiv> 1"
abbreviation (input) MYLITE_NOMEM :: int where "MYLITE_NOMEM \<equiv> 7"
abbreviation (input) MYLITE_MISUSE :: int where "MYLITE_MISUSE \<equiv> 21"

abbreviation (input) SQLITE_OK :: int where "SQLITE_OK \<equiv> 0"
abbreviation (input) SQLITE_NOMEM :: int where "SQLITE_NOMEM \<equiv> 7"
abbreviation (input) SQLITE_IOERR :: int where "SQLITE_IOERR \<equiv> 10"
abbreviation (input) SQLITE_NOTFOUND :: int where "SQLITE_NOTFOUND \<equiv> 12"
abbreviation (input) SQLITE_FULL :: int where "SQLITE_FULL \<equiv> 13"
abbreviation (input) SQLITE_CANTOPEN :: int where "SQLITE_CANTOPEN \<equiv> 14"
abbreviation (input) SQLITE_MISUSE :: int where "SQLITE_MISUSE \<equiv> 21"
abbreviation (input) SQLITE_NOTADB :: int where "SQLITE_NOTADB \<equiv> 26"
abbreviation (input) SQLITE_IOERR_READ :: int where "SQLITE_IOERR_READ \<equiv> 266"
abbreviation (input) SQLITE_IOERR_SHORT_READ :: int where "SQLITE_IOERR_SHORT_READ \<equiv> 522"
abbreviation (input) SQLITE_IOERR_WRITE :: int where "SQLITE_IOERR_WRITE \<equiv> 778"
abbreviation (input) SQLITE_IOERR_FSYNC :: int where "SQLITE_IOERR_FSYNC \<equiv> 1034"
abbreviation (input) SQLITE_IOERR_TRUNCATE :: int where "SQLITE_IOERR_TRUNCATE \<equiv> 1546"
abbreviation (input) SQLITE_IOERR_FSTAT :: int where "SQLITE_IOERR_FSTAT \<equiv> 1802"
abbreviation (input) SQLITE_IOERR_DELETE :: int where "SQLITE_IOERR_DELETE \<equiv> 2570"
abbreviation (input) SQLITE_IOERR_CLOSE :: int where "SQLITE_IOERR_CLOSE \<equiv> 4106"

section \<open>The allocator\<close>

text \<open>
  Whether \<^verbatim>\<open>malloc\<close>, \<^verbatim>\<open>calloc\<close> or \<^verbatim>\<open>realloc\<close> succeeds is the environment's
  choice. An operation that allocates takes the answers to its requests in order; when the
  list is exhausted every further request succeeds.
\<close>

type_synonym allocator = "bool list"

fun next_alloc :: "allocator \<Rightarrow> bool \<times> allocator" where
  "next_alloc [] = (True, [])"
| "next_alloc (b # bs) = (b, bs)"

text \<open>
  The growth loop shared by the diagnostics area, the named-lock registry and the dynamic
  string: double the capacity until it covers the request, and give up when doubling would
  wrap around. A loop that starts at capacity zero would not terminate; every caller
  replaces zero by its initial capacity first.
\<close>

function grow_capacity :: "nat \<Rightarrow> nat \<Rightarrow> nat option" where
  "grow_capacity capacity required =
     (if capacity < required \<and> capacity \<noteq> 0 then
        if capacity > SIZE_MAX div 2 then None
        else grow_capacity (capacity * 2) required
      else Some capacity)"
  by pat_completeness auto
termination
  by (relation "measure (\<lambda>(capacity, required). required - capacity)") auto

declare grow_capacity.simps [simp del]

lemma grow_capacity_Some:
  assumes "grow_capacity capacity required = Some c" "capacity \<noteq> 0" "capacity \<le> SIZE_MAX"
  shows "required \<le> c \<and> capacity \<le> c \<and> c \<le> SIZE_MAX"
  using assms
proof (induction capacity required rule: grow_capacity.induct)
  case (1 capacity required)
  show ?case
  proof (cases "capacity < required")
    case True
    with "1.prems" have small: "\<not> capacity > SIZE_MAX div 2"
      and rec: "grow_capacity (capacity * 2) required = Some c"
      by (auto simp: grow_capacity.simps [of capacity required] split: if_splits)
    from small have "capacity * 2 \<le> SIZE_MAX" by (simp add: limit_simps)
    with "1.IH" True small rec "1.prems" show ?thesis by auto
  next
    case False
    with "1.prems" show ?thesis by (simp add: grow_capacity.simps [of capacity required])
  qed
qed

lemma grow_capacity_bound:
  "grow_capacity capacity required = Some c \<Longrightarrow> c \<le> max capacity (2 * required)"
proof (induction capacity required rule: grow_capacity.induct)
  case (1 capacity required)
  then show ?case
    by (subst (asm) (2) grow_capacity.simps) (fastforce split: if_splits)
qed

lemma grow_capacity_succeeds:
  assumes "0 < capacity" "required \<le> SIZE_MAX div 2"
  shows "\<exists>c. grow_capacity capacity required = Some c"
  using assms
proof (induction capacity required rule: grow_capacity.induct)
  case (1 capacity required)
  show ?case
  proof (cases "capacity < required")
    case True
    with "1.prems" have "\<not> capacity > SIZE_MAX div 2" by simp
    with "1.IH" True "1.prems" show ?thesis
      by (simp add: grow_capacity.simps [of capacity required])
  next
    case False
    then show ?thesis by (simp add: grow_capacity.simps [of capacity required])
  qed
qed

end
