(* ===== verification/File_Format.thy ===== *)
theory File_Format
  imports MyLite_Prelude
begin

text \<open>
  The preamble of a \<^verbatim>\<open>.mylite\<close> file: \<^verbatim>\<open>storage/mylite_file_format.c\<close> and its header.
  The first 4096 bytes of a database hold a magic string, a big-endian format version, the
  lifecycle state of the file and reserved zero bytes; the SQLite payload follows.
\<close>

section \<open>Layout\<close>

abbreviation (input) MYLITE_FILE_MAGIC_SIZE :: nat where "MYLITE_FILE_MAGIC_SIZE \<equiv> 16"
abbreviation (input) MYLITE_FILE_FORMAT_VERSION_OFFSET :: nat
  where "MYLITE_FILE_FORMAT_VERSION_OFFSET \<equiv> 16"
abbreviation (input) MYLITE_FILE_LIFECYCLE_STATE_OFFSET :: nat
  where "MYLITE_FILE_LIFECYCLE_STATE_OFFSET \<equiv> 18"
abbreviation (input) MYLITE_FILE_RESERVED_OFFSET :: nat where "MYLITE_FILE_RESERVED_OFFSET \<equiv> 19"
abbreviation (input) MYLITE_FILE_LEGACY_FORMAT_VERSION :: u16
  where "MYLITE_FILE_LEGACY_FORMAT_VERSION \<equiv> 1"
abbreviation (input) MYLITE_FILE_LIFECYCLE_FORMAT_VERSION :: u16
  where "MYLITE_FILE_LIFECYCLE_FORMAT_VERSION \<equiv> 2"
abbreviation (input) MYLITE_FILE_FORMAT_VERSION :: u16 where "MYLITE_FILE_FORMAT_VERSION \<equiv> 3"
abbreviation (input) MYLITE_FILE_PREAMBLE_SIZE :: nat where "MYLITE_FILE_PREAMBLE_SIZE \<equiv> 4096"

definition MYLITE_FILE_MAGIC_TEXT :: bytes where
  "MYLITE_FILE_MAGIC_TEXT = text_bytes ''MyLite format 1'' @ [0]"

datatype mylite_file_lifecycle_state =
    MYLITE_FILE_LIFECYCLE_INVALID
  | MYLITE_FILE_LIFECYCLE_INITIALIZING
  | MYLITE_FILE_LIFECYCLE_COMMITTED
  | MYLITE_FILE_LIFECYCLE_RECOVERY_REQUIRED

text \<open>The numeric value of the enumerator, which \<^verbatim>\<open>(unsigned char)state\<close> stores.\<close>

fun lifecycle_byte :: "mylite_file_lifecycle_state \<Rightarrow> byte" where
  "lifecycle_byte MYLITE_FILE_LIFECYCLE_INVALID = 0"
| "lifecycle_byte MYLITE_FILE_LIFECYCLE_INITIALIZING = 1"
| "lifecycle_byte MYLITE_FILE_LIFECYCLE_COMMITTED = 2"
| "lifecycle_byte MYLITE_FILE_LIFECYCLE_RECOVERY_REQUIRED = 3"

section \<open>Operations\<close>

definition set_u16 :: "bytes \<Rightarrow> nat \<Rightarrow> u16 \<Rightarrow> bytes" where
  "set_u16 preamble offset value =
     (preamble[offset := ucast (drop_bit 8 value AND 0xff)])[offset + 1 := ucast (value AND 0xff)]"

definition mylite_file_preamble_get_u16 :: "bytes \<Rightarrow> nat \<Rightarrow> u16" where
  "mylite_file_preamble_get_u16 preamble offset =
     push_bit 8 (ucast (preamble ! offset)) OR ucast (preamble ! (offset + 1))"

definition reserved_bytes_are_zero :: "bytes \<Rightarrow> nat \<Rightarrow> bool" where
  "reserved_bytes_are_zero preamble offset =
     mem_equal (drop offset preamble) (replicate MYLITE_FILE_PREAMBLE_SIZE 0)
       (MYLITE_FILE_PREAMBLE_SIZE - offset)"

definition mylite_file_preamble_init_with_state ::
    "bytes \<Rightarrow> mylite_file_lifecycle_state \<Rightarrow> bytes" where
  "mylite_file_preamble_init_with_state preamble state =
     (let p0 = memcpy_at preamble 0 (replicate MYLITE_FILE_PREAMBLE_SIZE 0);
          p1 = memcpy_at p0 0 MYLITE_FILE_MAGIC_TEXT;
          p2 = set_u16 p1 MYLITE_FILE_FORMAT_VERSION_OFFSET MYLITE_FILE_FORMAT_VERSION
      in p2[MYLITE_FILE_LIFECYCLE_STATE_OFFSET := lifecycle_byte state])"

definition mylite_file_preamble_init :: "bytes \<Rightarrow> bytes" where
  "mylite_file_preamble_init preamble =
     mylite_file_preamble_init_with_state preamble MYLITE_FILE_LIFECYCLE_COMMITTED"

definition mylite_file_preamble_lifecycle_state :: "bytes \<Rightarrow> mylite_file_lifecycle_state" where
  "mylite_file_preamble_lifecycle_state preamble =
     (if \<not> mem_equal preamble MYLITE_FILE_MAGIC_TEXT MYLITE_FILE_MAGIC_SIZE
      then MYLITE_FILE_LIFECYCLE_INVALID
      else let version = mylite_file_preamble_get_u16 preamble MYLITE_FILE_FORMAT_VERSION_OFFSET
      in if version = MYLITE_FILE_LEGACY_FORMAT_VERSION
         then if reserved_bytes_are_zero preamble MYLITE_FILE_LIFECYCLE_STATE_OFFSET
              then MYLITE_FILE_LIFECYCLE_COMMITTED
              else MYLITE_FILE_LIFECYCLE_INVALID
         else if (version < MYLITE_FILE_LIFECYCLE_FORMAT_VERSION \<or>
                  version > MYLITE_FILE_FORMAT_VERSION) \<or>
                 \<not> reserved_bytes_are_zero preamble MYLITE_FILE_RESERVED_OFFSET
         then MYLITE_FILE_LIFECYCLE_INVALID
         else let stored = preamble ! MYLITE_FILE_LIFECYCLE_STATE_OFFSET
         in if stored = 1 then MYLITE_FILE_LIFECYCLE_INITIALIZING
            else if stored = 2 then MYLITE_FILE_LIFECYCLE_COMMITTED
            else if stored = 3 then MYLITE_FILE_LIFECYCLE_RECOVERY_REQUIRED
            else MYLITE_FILE_LIFECYCLE_INVALID)"

definition mylite_file_preamble_validate :: "bytes \<Rightarrow> bool" where
  "mylite_file_preamble_validate preamble \<longleftrightarrow>
     mylite_file_preamble_lifecycle_state preamble = MYLITE_FILE_LIFECYCLE_COMMITTED"

definition mylite_file_preamble_format_version :: "bytes \<Rightarrow> u16" where
  "mylite_file_preamble_format_version preamble =
     (if mylite_file_preamble_lifecycle_state preamble = MYLITE_FILE_LIFECYCLE_INVALID then 0
      else mylite_file_preamble_get_u16 preamble MYLITE_FILE_FORMAT_VERSION_OFFSET)"

section \<open>Lemmas\<close>

lemma length_magic [simp]: "length MYLITE_FILE_MAGIC_TEXT = 16"
  by (simp add: MYLITE_FILE_MAGIC_TEXT_def)

lemma length_set_u16 [simp]: "length (set_u16 p off v) = length p"
  by (simp add: set_u16_def)

lemma bit_255_int: "bit (255 :: int) n \<longleftrightarrow> n < 8"
  using bit_mask_iff [of 8 n, where ?'a = int] by (simp add: mask_eq_exp_minus_1)

lemma u16_bytes_roundtrip:
  "push_bit 8 (ucast (ucast (drop_bit 8 v AND 0xff) :: byte) :: u16) OR
     ucast (ucast (v AND 0xff) :: byte) = v"
  by (rule bit_word_eqI)
    (auto simp: bit_or_iff bit_push_bit_iff bit_ucast_iff bit_and_iff bit_drop_bit_eq bit_255_int)

lemma get_set_u16:
  "off + 1 < length p \<Longrightarrow> mylite_file_preamble_get_u16 (set_u16 p off v) off = v"
  by (simp add: mylite_file_preamble_get_u16_def set_u16_def u16_bytes_roundtrip)

lemma set_get_u16_bytes:
  "(ucast (drop_bit 8 (push_bit 8 (ucast (a :: byte) :: u16) OR ucast (b :: byte)) AND 0xff) :: byte) = a"
  "(ucast ((push_bit 8 (ucast (a :: byte) :: u16) OR ucast (b :: byte)) AND 0xff) :: byte) = b"
  by (rule bit_word_eqI; auto simp: bit_or_iff bit_push_bit_iff bit_ucast_iff bit_and_iff
      bit_drop_bit_eq bit_255_int dest: bit_imp_le_length)+

lemma append_u16_bytes:
  "xs = take 16 p @ [p ! 16, p ! 17] @ ys \<Longrightarrow>
    xs = take 16 p @ [ucast (drop_bit 8 (mylite_file_preamble_get_u16 p 16) AND 0xff),
        ucast (mylite_file_preamble_get_u16 p 16 AND 0xff)] @ ys"
  unfolding mylite_file_preamble_get_u16_def set_get_u16_bytes by simp

text \<open>
  The canonical preamble of a version and a lifecycle byte, the specification the operations
  above are measured against: magic, version, state and zeros, 4096 bytes in all.
\<close>

definition preamble_image :: "u16 \<Rightarrow> byte \<Rightarrow> bytes" where
  "preamble_image version state =
     MYLITE_FILE_MAGIC_TEXT @
     [ucast (drop_bit 8 version AND 0xff), ucast (version AND 0xff)] @
     [state] @ replicate (MYLITE_FILE_PREAMBLE_SIZE - MYLITE_FILE_RESERVED_OFFSET) 0"

lemma length_preamble_image [simp]: "length (preamble_image v b) = 4096"
  by (simp add: preamble_image_def)

lemma preamble_image_fields:
  "take 16 (preamble_image v b) = MYLITE_FILE_MAGIC_TEXT"
  "mylite_file_preamble_get_u16 (preamble_image v b) 16 = v"
  "preamble_image v b ! 18 = b"
  "drop 19 (preamble_image v b) = replicate 4077 0"
  "drop 18 (preamble_image v b) = b # replicate 4077 0"
  by (simp_all add: preamble_image_def mylite_file_preamble_get_u16_def nth_append
      u16_bytes_roundtrip)

lemma preamble_image_update: "(preamble_image v b)[18 := c] = preamble_image v c"
  by (simp add: preamble_image_def list_update_append)

lemma reserved_zero_iff:
  "length p = 4096 \<Longrightarrow> off \<le> 4096 \<Longrightarrow>
    reserved_bytes_are_zero p off \<longleftrightarrow> drop off p = replicate (4096 - off) 0"
  by (simp add: reserved_bytes_are_zero_def mem_equal_def min_def)

lemma zeros_4078: "(b # replicate 4077 0 = replicate 4078 0) \<longleftrightarrow> b = (0 :: byte)"
proof -
  have "replicate 4078 (0 :: byte) = 0 # replicate 4077 0"
    by (simp flip: replicate_Suc)
  then show ?thesis by simp
qed

lemma magic_equal_iff:
  "mem_equal p MYLITE_FILE_MAGIC_TEXT 16 \<longleftrightarrow> take 16 p = MYLITE_FILE_MAGIC_TEXT"
  by (simp add: mem_equal_def)

lemma split_preamble:
  assumes "length p = 4096"
  shows "p = take 16 p @ [p ! 16, p ! 17] @ [p ! 18] @ drop 19 p"
proof -
  have "drop 16 p = p ! 16 # p ! 17 # p ! 18 # drop 19 p"
    using assms by (simp add: Cons_nth_drop_Suc numeral_eq_Suc)
  then show ?thesis using append_take_drop_id [of 16 p] by simp
qed

lemma preamble_imageI:
  assumes "length p = 4096" "take 16 p = MYLITE_FILE_MAGIC_TEXT" "drop 19 p = replicate 4077 0"
  shows "p = preamble_image (mylite_file_preamble_get_u16 p 16) (p ! 18)"
  using append_u16_bytes [OF split_preamble [OF assms(1)]] assms(2,3)
  by (simp add: preamble_image_def)

lemma lifecycle_state_preamble_image:
  "mylite_file_preamble_lifecycle_state (preamble_image v b) =
     (if v = 1 then if b = 0 then MYLITE_FILE_LIFECYCLE_COMMITTED else MYLITE_FILE_LIFECYCLE_INVALID
      else if v = 2 \<or> v = 3 then
        if b = 1 then MYLITE_FILE_LIFECYCLE_INITIALIZING
        else if b = 2 then MYLITE_FILE_LIFECYCLE_COMMITTED
        else if b = 3 then MYLITE_FILE_LIFECYCLE_RECOVERY_REQUIRED
        else MYLITE_FILE_LIFECYCLE_INVALID
      else MYLITE_FILE_LIFECYCLE_INVALID)"
proof -
  have range: "\<not> (v < 2 \<or> v > 3) \<longleftrightarrow> v = 2 \<or> v = 3" for v :: u16
    by unat_arith
  show ?thesis
    using range [of v]
    by (auto simp: mylite_file_preamble_lifecycle_state_def magic_equal_iff preamble_image_fields
        reserved_zero_iff Let_def zeros_4078)
qed

lemma zeros_4080: "replicate 4080 (0 :: byte) = 0 # 0 # 0 # replicate 4077 0"
  by (simp flip: replicate_Suc)

lemma preamble_init_image:
  "length p = 4096 \<Longrightarrow>
    mylite_file_preamble_init_with_state p st = preamble_image 3 (lifecycle_byte st)"
  by (simp add: mylite_file_preamble_init_with_state_def preamble_image_def memcpy_at_def
      set_u16_def list_update_append Let_def zeros_4080)

lemma lifecycle_byte_decode:
  "v = 2 \<or> v = 3 \<Longrightarrow>
    mylite_file_preamble_lifecycle_state (preamble_image v (lifecycle_byte st)) = st"
  by (cases st) (auto simp: lifecycle_state_preamble_image)

lemma valid_image_cases:
  "mylite_file_preamble_lifecycle_state (preamble_image v b) \<noteq> MYLITE_FILE_LIFECYCLE_INVALID \<longleftrightarrow>
    v = 1 \<and> b = 0 \<or> v \<in> {2, 3} \<and> b \<in> {1, 2, 3}"
  by (auto simp: lifecycle_state_preamble_image)

lemma valid_preamble_image:
  assumes len: "length p = 4096"
    and valid: "mylite_file_preamble_lifecycle_state p \<noteq> MYLITE_FILE_LIFECYCLE_INVALID"
  shows "p = preamble_image (mylite_file_preamble_get_u16 p 16) (p ! 18)"
proof -
  have magic: "take 16 p = MYLITE_FILE_MAGIC_TEXT"
    using valid
    by (auto simp: mylite_file_preamble_lifecycle_state_def magic_equal_iff split: if_splits)
  have "reserved_bytes_are_zero p 18 \<or> reserved_bytes_are_zero p 19"
    using valid by (auto simp: mylite_file_preamble_lifecycle_state_def Let_def split: if_splits)
  moreover have "drop 19 p = replicate 4077 0" if "drop 18 p = replicate 4078 0"
  proof -
    have "drop 19 p = tl (drop 18 p)" by (simp add: drop_Suc tl_drop numeral_eq_Suc)
    then show ?thesis by (simp add: that)
  qed
  ultimately have "drop 19 p = replicate 4077 0"
    using len by (auto simp: reserved_zero_iff)
  with len magic show ?thesis by (rule preamble_imageI)
qed

lemma lifecycle_field_image:
  assumes "length p = 4096" "mylite_file_preamble_format_version p \<ge> 2"
  obtains v b where "p = preamble_image v b" "v = 2 \<or> v = 3"
    "mylite_file_preamble_lifecycle_state p \<noteq> MYLITE_FILE_LIFECYCLE_INVALID"
proof -
  have valid: "mylite_file_preamble_lifecycle_state p \<noteq> MYLITE_FILE_LIFECYCLE_INVALID"
    using assms(2) by (auto simp: mylite_file_preamble_format_version_def split: if_splits)
  then obtain v b where image: "p = preamble_image v b"
    using valid_preamble_image [OF assms(1)] by blast
  have "v \<ge> 2"
    using assms(2) valid
    by (simp add: mylite_file_preamble_format_version_def image preamble_image_fields)
  then have "v \<noteq> 1" by (auto simp: word_le_nat_alt)
  with valid have "v = 2 \<or> v = 3" unfolding image valid_image_cases by blast
  with image valid that show thesis by blast
qed

lemma lifecycle_byte_update:
  assumes "length p = 4096" "mylite_file_preamble_format_version p \<ge> 2"
  shows "mylite_file_preamble_lifecycle_state (p[18 := lifecycle_byte st]) = st"
  using assms
  by (rule lifecycle_field_image) (simp add: preamble_image_update lifecycle_byte_decode)

section \<open>Properties\<close>

text \<open>
  Initialising a preamble buffer with a lifecycle state and decoding it again
  returns that state, whatever the buffer held before; the buffer keeps its size, and a
  state other than the invalid one is stored with the current format version.
\<close>
theorem preamble_init_roundtrip:
  assumes "length preamble = MYLITE_FILE_PREAMBLE_SIZE"
  shows "mylite_file_preamble_lifecycle_state
           (mylite_file_preamble_init_with_state preamble state) = state \<and>
         mylite_file_preamble_format_version
           (mylite_file_preamble_init_with_state preamble state) =
             (if state = MYLITE_FILE_LIFECYCLE_INVALID then 0 else MYLITE_FILE_FORMAT_VERSION) \<and>
         length (mylite_file_preamble_init_with_state preamble state) = MYLITE_FILE_PREAMBLE_SIZE"
  using assms
  by (simp add: preamble_init_image lifecycle_byte_decode mylite_file_preamble_format_version_def
      preamble_image_fields)

theorem preamble_init_roundtrip_witness:
  "mylite_file_preamble_lifecycle_state
     (mylite_file_preamble_init_with_state (replicate 4096 7) MYLITE_FILE_LIFECYCLE_COMMITTED) =
   MYLITE_FILE_LIFECYCLE_COMMITTED"
  using preamble_init_roundtrip [of "replicate 4096 7" MYLITE_FILE_LIFECYCLE_COMMITTED] by simp

text \<open>
  Property C37. The decoder accepts exactly the canonical preambles: a buffer decodes to a
  valid lifecycle state if and only if it is the image of version 1 with a zero state byte,
  or of version 2 or 3 with one of the three lifecycle bytes. Nothing else, in particular no
  preamble with a damaged magic, an unknown version or a non-zero reserved byte, is accepted.
\<close>
theorem preamble_decode_exact:
  assumes "length preamble = MYLITE_FILE_PREAMBLE_SIZE"
  shows "mylite_file_preamble_lifecycle_state preamble \<noteq> MYLITE_FILE_LIFECYCLE_INVALID \<longleftrightarrow>
    (\<exists>version state. preamble = preamble_image version state \<and>
       (version = 1 \<and> state = 0 \<or> version \<in> {2, 3} \<and> state \<in> {1, 2, 3}))"
  (is "?valid \<longleftrightarrow> ?canonical")
proof
  assume ?valid
  then obtain v b where p: "preamble = preamble_image v b"
    using valid_preamble_image [OF assms] by blast
  from \<open>?valid\<close> show ?canonical unfolding p valid_image_cases by blast
next
  assume ?canonical
  then obtain v b where "preamble = preamble_image v b"
    "v = 1 \<and> b = 0 \<or> v \<in> {2, 3} \<and> b \<in> {1, 2, 3}" by blast
  then show ?valid by (simp only: valid_image_cases)
qed

theorem preamble_decode_exact_witness:
  "mylite_file_preamble_lifecycle_state (preamble_image 2 3) \<noteq> MYLITE_FILE_LIFECYCLE_INVALID"
  using preamble_decode_exact [of "preamble_image 2 3"] by (simp, blast)

text \<open>
  Overwriting the single state byte at offset 18 of a valid preamble that has a
  lifecycle field moves the file to exactly the written lifecycle state and leaves its format
  version as it was. This is why a one-byte write is enough to commit a file.
\<close>
theorem preamble_state_byte_transition:
  assumes "length preamble = MYLITE_FILE_PREAMBLE_SIZE"
    and "mylite_file_preamble_format_version preamble \<ge> MYLITE_FILE_LIFECYCLE_FORMAT_VERSION"
  shows "mylite_file_preamble_lifecycle_state
           (preamble[MYLITE_FILE_LIFECYCLE_STATE_OFFSET := lifecycle_byte state]) = state \<and>
         (state \<noteq> MYLITE_FILE_LIFECYCLE_INVALID \<longrightarrow>
          mylite_file_preamble_format_version
            (preamble[MYLITE_FILE_LIFECYCLE_STATE_OFFSET := lifecycle_byte state]) =
          mylite_file_preamble_format_version preamble)"
proof -
  obtain v b where image: "preamble = preamble_image v b" and v: "v = 2 \<or> v = 3"
    and valid: "mylite_file_preamble_lifecycle_state preamble \<noteq> MYLITE_FILE_LIFECYCLE_INVALID"
    using assms by (rule lifecycle_field_image)
  then show ?thesis
    by (simp add: preamble_image_update lifecycle_byte_decode
        mylite_file_preamble_format_version_def preamble_image_fields)
qed

theorem preamble_state_byte_transition_witness:
  "mylite_file_preamble_lifecycle_state
     ((preamble_image 3 1)[18 := lifecycle_byte MYLITE_FILE_LIFECYCLE_COMMITTED]) =
   MYLITE_FILE_LIFECYCLE_COMMITTED"
proof -
  have "mylite_file_preamble_format_version (preamble_image 3 1) = 3"
    by (simp add: mylite_file_preamble_format_version_def preamble_image_fields
        lifecycle_state_preamble_image)
  then show ?thesis
    using preamble_state_byte_transition
      [of "preamble_image 3 1" MYLITE_FILE_LIFECYCLE_COMMITTED]
    by simp
qed

end
