(* ===== verification/Offset_Vfs.thy ===== *)
theory Offset_Vfs
  imports File_Format "HOL-Library.Monad_Syntax"
begin

text \<open>
  The offset VFS of \<^verbatim>\<open>storage/mylite_offset_vfs.c\<close>. SQLite reads and writes a database at
  logical offsets; this layer shifts them past the preamble, keeps the page of SQLite's lock
  byte free in format 3, translates sizes, and owns the lifecycle state of a file that is
  being initialised.

  The wrapped file is code of the base VFS. It is a parameter: a method table
  \<^verbatim>\<open>io_methods\<close>, as in the C code, over an arbitrary state type \<open>'f\<close> of the wrapped file.
  The fault-injection hooks of the tests are part of every operation and are modelled; an
  operation that reaches an armed process-death point returns \<open>None\<close>, since
  \<^verbatim>\<open>_Exit\<close> does not return.
\<close>

section \<open>The wrapped file\<close>

text \<open>
  The method table of an \<^verbatim>\<open>sqlite3_file\<close>. A buffer argument is a pointer that may be NULL
  (\<open>None\<close>); a read returns the contents of the buffer afterwards. The argument of a file
  control is the 64-bit integer behind the pointer.
\<close>

record 'f io_methods =
  xClose :: "'f \<Rightarrow> int \<times> 'f"
  xRead :: "'f \<Rightarrow> bytes option \<Rightarrow> int \<Rightarrow> int \<Rightarrow> int \<times> bytes option \<times> 'f"
  xWrite :: "'f \<Rightarrow> bytes option \<Rightarrow> int \<Rightarrow> int \<Rightarrow> int \<times> 'f"
  xTruncate :: "'f \<Rightarrow> int \<Rightarrow> int \<times> 'f"
  xSync :: "'f \<Rightarrow> int \<Rightarrow> int \<times> 'f"
  xFileSize :: "'f \<Rightarrow> int \<times> int \<times> 'f"
  xLock :: "'f \<Rightarrow> int \<Rightarrow> int \<times> 'f"
  xUnlock :: "'f \<Rightarrow> int \<Rightarrow> int \<times> 'f"
  xCheckReservedLock :: "'f \<Rightarrow> int \<times> int \<times> 'f"
  xFileControl :: "'f \<Rightarrow> int \<Rightarrow> int option \<Rightarrow> int \<times> int option \<times> 'f"
  xSectorSize :: "('f \<Rightarrow> int) option"
  xDeviceCharacteristics :: "'f \<Rightarrow> 32 word"

abbreviation (input) SQLITE_LOCK_NONE :: int where "SQLITE_LOCK_NONE \<equiv> 0"
abbreviation (input) SQLITE_LOCK_SHARED :: int where "SQLITE_LOCK_SHARED \<equiv> 1"
abbreviation (input) SQLITE_LOCK_EXCLUSIVE :: int where "SQLITE_LOCK_EXCLUSIVE \<equiv> 4"
abbreviation (input) SQLITE_SYNC_FULL :: int where "SQLITE_SYNC_FULL \<equiv> 3"
abbreviation (input) SQLITE_FCNTL_SIZE_HINT :: int where "SQLITE_FCNTL_SIZE_HINT \<equiv> 5"
abbreviation (input) SQLITE_FCNTL_CHUNK_SIZE :: int where "SQLITE_FCNTL_CHUNK_SIZE \<equiv> 6"
abbreviation (input) SQLITE_FCNTL_MMAP_SIZE :: int where "SQLITE_FCNTL_MMAP_SIZE \<equiv> 18"
abbreviation (input) SQLITE_FCNTL_BEGIN_ATOMIC_WRITE :: int
  where "SQLITE_FCNTL_BEGIN_ATOMIC_WRITE \<equiv> 31"
abbreviation (input) SQLITE_FCNTL_COMMIT_ATOMIC_WRITE :: int
  where "SQLITE_FCNTL_COMMIT_ATOMIC_WRITE \<equiv> 32"
abbreviation (input) SQLITE_FCNTL_ROLLBACK_ATOMIC_WRITE :: int
  where "SQLITE_FCNTL_ROLLBACK_ATOMIC_WRITE \<equiv> 33"
abbreviation (input) SQLITE_FCNTL_SIZE_LIMIT :: int where "SQLITE_FCNTL_SIZE_LIMIT \<equiv> 36"
abbreviation (input) SQLITE_OPEN_READONLY :: "32 word" where "SQLITE_OPEN_READONLY \<equiv> 0x01"
abbreviation (input) SQLITE_OPEN_EXCLUSIVE :: "32 word" where "SQLITE_OPEN_EXCLUSIVE \<equiv> 0x10"
abbreviation (input) SQLITE_OPEN_MAIN_DB :: "32 word" where "SQLITE_OPEN_MAIN_DB \<equiv> 0x100"

section \<open>State\<close>

datatype vfs_fault_operation =
    MYLITE_STORAGE_VFS_FAULT_NONE
  | MYLITE_STORAGE_VFS_FAULT_CREATE
  | MYLITE_STORAGE_VFS_FAULT_OPEN
  | MYLITE_STORAGE_VFS_FAULT_WRITE
  | MYLITE_STORAGE_VFS_FAULT_SYNC
  | MYLITE_STORAGE_VFS_FAULT_TRUNCATE
  | MYLITE_STORAGE_VFS_FAULT_DELETE
  | MYLITE_STORAGE_VFS_FAULT_CLOSE

record vfs_fault =
  fault_operation :: vfs_fault_operation
  calls_until_failure :: u64
  matching_call_count :: u64
  triggered :: bool
  process_death :: bool

text \<open>
  One open file of the layer. \<open>inner_file\<close> is the state of the wrapped file (its contents on
  disk included, which outlive the handle); \<open>inner_present\<close> says that the pointer to it is
  not NULL, \<open>inner_methods\<close> that its method table is set, \<open>base_methods\<close> that the handle
  itself carries \<^verbatim>\<open>offset_io_methods\<close>. The last two fields are the thread-local variables.
\<close>

record 'f offset_file =
  inner_file :: 'f
  inner_present :: bool
  inner_methods :: bool
  base_methods :: bool
  format_version :: u16
  shifts_offsets :: bool
  initialization_owner :: bool
  initialization_lock_held :: bool
  initialization_preamble_written :: bool
  injected_fault :: vfs_fault
  exclusive_create_enabled :: bool

abbreviation (input) PAYLOAD_OFFSET :: int where "PAYLOAD_OFFSET \<equiv> 4096"
abbreviation (input) SQLITE_MINIMUM_DATABASE_SIZE :: int where "SQLITE_MINIMUM_DATABASE_SIZE \<equiv> 512"
abbreviation (input) PHYSICAL_LOCK_BYTE :: int where "PHYSICAL_LOCK_BYTE \<equiv> 1073741824"
abbreviation (input) LOCK_GAP_LOGICAL_OFFSET :: int where "LOCK_GAP_LOGICAL_OFFSET \<equiv> 1073737728"
abbreviation (input) LEGACY_MAX_LOGICAL_SIZE :: int where "LEGACY_MAX_LOGICAL_SIZE \<equiv> 1073737728"

section \<open>Fault injection\<close>

definition mylite_storage_vfs_test_set_fault ::
    "vfs_fault_operation \<Rightarrow> u64 \<Rightarrow> 'f offset_file \<Rightarrow> 'f offset_file" where
  "mylite_storage_vfs_test_set_fault operation fail_on_call s =
     s\<lparr>injected_fault :=
        \<lparr>fault_operation = operation,
         calls_until_failure = (if fail_on_call = 0 then 1 else fail_on_call),
         matching_call_count = 0, triggered = False, process_death = False\<rparr>\<rparr>"

definition mylite_storage_vfs_test_set_process_death ::
    "vfs_fault_operation \<Rightarrow> u64 \<Rightarrow> 'f offset_file \<Rightarrow> 'f offset_file" where
  "mylite_storage_vfs_test_set_process_death operation exit_on_call s =
     (let s = mylite_storage_vfs_test_set_fault operation exit_on_call s
      in s\<lparr>injected_fault := (injected_fault s)\<lparr>process_death := True\<rparr>\<rparr>)"

definition no_fault :: vfs_fault where
  "no_fault = \<lparr>fault_operation = MYLITE_STORAGE_VFS_FAULT_NONE, calls_until_failure = 0,
     matching_call_count = 0, triggered = False, process_death = False\<rparr>"

definition mylite_storage_vfs_test_clear_fault :: "'f offset_file \<Rightarrow> 'f offset_file" where
  "mylite_storage_vfs_test_clear_fault s = s\<lparr>injected_fault := no_fault\<rparr>"

definition mylite_storage_vfs_set_exclusive_create :: "bool \<Rightarrow> 'f offset_file \<Rightarrow> 'f offset_file" where
  "mylite_storage_vfs_set_exclusive_create enabled s = s\<lparr>exclusive_create_enabled := enabled\<rparr>"

text \<open>\<open>None\<close>: the process exits inside the call.\<close>

definition inject_fault ::
    "vfs_fault_operation \<Rightarrow> 'f offset_file \<Rightarrow> (bool \<times> 'f offset_file) option" where
  "inject_fault operation s =
     (let fault = injected_fault s
      in if fault_operation fault \<noteq> operation then Some (False, s)
         else let fault = fault\<lparr>matching_call_count := matching_call_count fault + 1\<rparr>
         in if triggered fault then Some (False, s\<lparr>injected_fault := fault\<rparr>)
            else if calls_until_failure fault > 1
            then Some (False,
              s\<lparr>injected_fault := fault\<lparr>calls_until_failure := calls_until_failure fault - 1\<rparr>\<rparr>)
            else let fault = fault\<lparr>calls_until_failure := 0, triggered := True\<rparr>
            in if process_death fault then None
               else Some (True, s\<lparr>injected_fault := fault\<rparr>))"

section \<open>Offset and size translation\<close>

definition format_uses_lock_gap :: "'f offset_file \<Rightarrow> bool" where
  "format_uses_lock_gap file \<longleftrightarrow> format_version file \<ge> MYLITE_FILE_FORMAT_VERSION"

definition logical_range_end :: "int \<Rightarrow> int \<Rightarrow> int option" where
  "logical_range_end offset amount =
     (if offset < 0 \<or> amount < 0 \<or> offset > INT64_MAX - amount then None
      else Some (offset + amount))"

definition logical_offset_to_physical :: "'f offset_file \<Rightarrow> int \<Rightarrow> int option" where
  "logical_offset_to_physical file logical =
     (let physical_offset =
        (if format_uses_lock_gap file \<and> logical \<ge> LOCK_GAP_LOGICAL_OFFSET
         then PAYLOAD_OFFSET + PAYLOAD_OFFSET else PAYLOAD_OFFSET)
      in if logical < 0 \<or> logical > INT64_MAX - physical_offset then None
         else Some (logical + physical_offset))"

definition logical_size_to_physical :: "'f offset_file \<Rightarrow> int \<Rightarrow> int option" where
  "logical_size_to_physical file logical =
     (let physical_offset =
        (if format_uses_lock_gap file \<and> logical > LOCK_GAP_LOGICAL_OFFSET
         then PAYLOAD_OFFSET + PAYLOAD_OFFSET else PAYLOAD_OFFSET)
      in if logical < 0 \<or> logical > INT64_MAX - physical_offset then None
         else Some (logical + physical_offset))"

definition logical_size_from_physical :: "'f offset_file \<Rightarrow> int \<Rightarrow> int option" where
  "logical_size_from_physical file physical =
     (if physical < 0 then None
      else if physical \<le> PAYLOAD_OFFSET then Some 0
      else if \<not> format_uses_lock_gap file \<or> physical \<le> PHYSICAL_LOCK_BYTE
      then Some (physical - PAYLOAD_OFFSET)
      else if physical \<le> PHYSICAL_LOCK_BYTE + PAYLOAD_OFFSET then None
      else Some (physical - 2 * PAYLOAD_OFFSET))"

section \<open>Reading and writing\<close>

text \<open>The contents of the buffer after a call on \<^verbatim>\<open>buffer + n\<close>.\<close>

definition splice_buffer :: "nat \<Rightarrow> bytes option \<Rightarrow> bytes option \<Rightarrow> bytes option" where
  "splice_buffer n buffer tail = (case buffer of None \<Rightarrow> None
     | Some b \<Rightarrow> (case tail of None \<Rightarrow> Some b | Some t \<Rightarrow> Some (take n b @ t)))"

definition read_shifted ::
    "'f io_methods \<Rightarrow> 'f offset_file \<Rightarrow> bytes option \<Rightarrow> int \<Rightarrow> int \<Rightarrow>
     int \<times> bytes option \<times> 'f offset_file" where
  "read_shifted m file buffer amount logical_offset =
     (case (buffer, logical_range_end logical_offset amount) of
        (None, _) \<Rightarrow> (SQLITE_IOERR_READ, buffer, file)
      | (_, None) \<Rightarrow> (SQLITE_IOERR_READ, buffer, file)
      | (Some b, Some logical_end) \<Rightarrow>
        if \<not> format_uses_lock_gap file \<and> logical_end > LEGACY_MAX_LOGICAL_SIZE
        then (SQLITE_IOERR_SHORT_READ, Some (memcpy_at b 0 (replicate (nat amount) 0)), file)
        else (case logical_offset_to_physical file logical_offset of
          None \<Rightarrow> (SQLITE_IOERR_READ, buffer, file)
        | Some physical_offset \<Rightarrow>
          if \<not> format_uses_lock_gap file \<or> logical_offset \<ge> LOCK_GAP_LOGICAL_OFFSET \<or>
             logical_end \<le> LOCK_GAP_LOGICAL_OFFSET
          then (let (rc, buffer, inner) = xRead m (inner_file file) buffer amount physical_offset
                in (rc, buffer, file\<lparr>inner_file := inner\<rparr>))
          else (let first_amount = LOCK_GAP_LOGICAL_OFFSET - logical_offset;
                    (rc, buffer, inner) =
                      xRead m (inner_file file) buffer first_amount physical_offset;
                    file = file\<lparr>inner_file := inner\<rparr>
                in if rc \<noteq> SQLITE_OK then (rc, buffer, file)
                   else (case logical_offset_to_physical file LOCK_GAP_LOGICAL_OFFSET of
                     None \<Rightarrow> (SQLITE_IOERR_READ, buffer, file)
                   | Some physical_offset \<Rightarrow>
                     (let (rc, tail, inner) =
                        xRead m (inner_file file)
                          (map_option (drop (nat first_amount)) buffer)
                          (amount - first_amount) physical_offset
                      in (rc, splice_buffer (nat first_amount) buffer tail,
                          file\<lparr>inner_file := inner\<rparr>))))))"

definition write_shifted ::
    "'f io_methods \<Rightarrow> 'f offset_file \<Rightarrow> bytes option \<Rightarrow> int \<Rightarrow> int \<Rightarrow> int \<times> 'f offset_file" where
  "write_shifted m file buffer amount logical_offset =
     (case (buffer, logical_range_end logical_offset amount) of
        (None, _) \<Rightarrow> (SQLITE_IOERR_WRITE, file)
      | (_, None) \<Rightarrow> (SQLITE_IOERR_WRITE, file)
      | (Some b, Some logical_end) \<Rightarrow>
        if \<not> format_uses_lock_gap file \<and> logical_end > LEGACY_MAX_LOGICAL_SIZE
        then (SQLITE_FULL, file)
        else (case logical_offset_to_physical file logical_offset of
          None \<Rightarrow> (SQLITE_IOERR_WRITE, file)
        | Some physical_offset \<Rightarrow>
          if \<not> format_uses_lock_gap file \<or> logical_offset \<ge> LOCK_GAP_LOGICAL_OFFSET \<or>
             logical_end \<le> LOCK_GAP_LOGICAL_OFFSET
          then (let (rc, inner) = xWrite m (inner_file file) buffer amount physical_offset
                in (rc, file\<lparr>inner_file := inner\<rparr>))
          else (let first_amount = LOCK_GAP_LOGICAL_OFFSET - logical_offset;
                    (rc, inner) = xWrite m (inner_file file) buffer first_amount physical_offset;
                    file = file\<lparr>inner_file := inner\<rparr>
                in if rc \<noteq> SQLITE_OK then (rc, file)
                   else (case logical_offset_to_physical file LOCK_GAP_LOGICAL_OFFSET of
                     None \<Rightarrow> (SQLITE_IOERR_WRITE, file)
                   | Some physical_offset \<Rightarrow>
                     (let (rc, inner) =
                        xWrite m (inner_file file) (Some (drop (nat first_amount) b))
                          (amount - first_amount) physical_offset
                      in (rc, file\<lparr>inner_file := inner\<rparr>))))))"

definition offset_read ::
    "'f io_methods \<Rightarrow> 'f offset_file \<Rightarrow> bytes option \<Rightarrow> int \<Rightarrow> int \<Rightarrow>
     int \<times> bytes option \<times> 'f offset_file" where
  "offset_read m file buffer amount offset =
     (if shifts_offsets file then read_shifted m file buffer amount offset
      else (let (rc, buffer, inner) = xRead m (inner_file file) buffer amount offset
            in (rc, buffer, file\<lparr>inner_file := inner\<rparr>)))"

definition offset_write ::
    "'f io_methods \<Rightarrow> 'f offset_file \<Rightarrow> bytes option \<Rightarrow> int \<Rightarrow> int \<Rightarrow>
     (int \<times> 'f offset_file) option" where
  "offset_write m file buffer amount offset = do {
     (fail, file) \<leftarrow> inject_fault MYLITE_STORAGE_VFS_FAULT_WRITE file;
     if fail then Some (SQLITE_IOERR_WRITE, file)
     else if shifts_offsets file then Some (write_shifted m file buffer amount offset)
     else (let (rc, inner) = xWrite m (inner_file file) buffer amount offset
           in Some (rc, file\<lparr>inner_file := inner\<rparr>))
   }"

definition offset_truncate ::
    "'f io_methods \<Rightarrow> 'f offset_file \<Rightarrow> int \<Rightarrow> (int \<times> 'f offset_file) option" where
  "offset_truncate m file new_size = do {
     (fail, file) \<leftarrow> inject_fault MYLITE_STORAGE_VFS_FAULT_TRUNCATE file;
     if fail then Some (SQLITE_IOERR_TRUNCATE, file)
     else if shifts_offsets file \<and> \<not> format_uses_lock_gap file \<and> new_size > LEGACY_MAX_LOGICAL_SIZE
     then Some (SQLITE_FULL, file)
     else (case (if shifts_offsets file then logical_size_to_physical file new_size else Some new_size) of
        None \<Rightarrow> Some (SQLITE_IOERR_TRUNCATE, file)
      | Some physical_size \<Rightarrow>
        (let (rc, inner) = xTruncate m (inner_file file) physical_size
         in Some (rc, file\<lparr>inner_file := inner\<rparr>)))
   }"

definition offset_sync ::
    "'f io_methods \<Rightarrow> 'f offset_file \<Rightarrow> int \<Rightarrow> (int \<times> 'f offset_file) option" where
  "offset_sync m file flags = do {
     (fail, file) \<leftarrow> inject_fault MYLITE_STORAGE_VFS_FAULT_SYNC file;
     if fail then Some (SQLITE_IOERR_FSYNC, file)
     else (let (rc, inner) = xSync m (inner_file file) flags
           in Some (rc, file\<lparr>inner_file := inner\<rparr>))
   }"

text \<open>The size is stored through the out-pointer only on success.\<close>

definition offset_file_size ::
    "'f io_methods \<Rightarrow> 'f offset_file \<Rightarrow> int \<times> int option \<times> 'f offset_file" where
  "offset_file_size m file =
     (let (rc, physical_size, inner) = xFileSize m (inner_file file);
          file = file\<lparr>inner_file := inner\<rparr>
      in if rc \<noteq> SQLITE_OK then (rc, None, file)
         else if shifts_offsets file then
           (case logical_size_from_physical file physical_size of
              None \<Rightarrow> (SQLITE_IOERR_FSTAT, None, file)
            | Some logical_size \<Rightarrow> (SQLITE_OK, Some logical_size, file))
         else (SQLITE_OK, Some physical_size, file))"

definition offset_lock ::
    "'f io_methods \<Rightarrow> 'f offset_file \<Rightarrow> int \<Rightarrow> int \<times> 'f offset_file" where
  "offset_lock m file lock_kind =
     (if initialization_lock_held file then (SQLITE_OK, file)
      else (let (rc, inner) = xLock m (inner_file file) lock_kind
            in (rc, file\<lparr>inner_file := inner\<rparr>)))"

definition offset_unlock ::
    "'f io_methods \<Rightarrow> 'f offset_file \<Rightarrow> int \<Rightarrow> int \<times> 'f offset_file" where
  "offset_unlock m file lock_kind =
     (if initialization_lock_held file then (SQLITE_OK, file)
      else (let (rc, inner) = xUnlock m (inner_file file) lock_kind
            in (rc, file\<lparr>inner_file := inner\<rparr>)))"

definition offset_check_reserved_lock ::
    "'f io_methods \<Rightarrow> 'f offset_file \<Rightarrow> int \<times> int \<times> 'f offset_file" where
  "offset_check_reserved_lock m file =
     (if initialization_lock_held file then (SQLITE_OK, 0, file)
      else (let (rc, reserved, inner) = xCheckReservedLock m (inner_file file)
            in (rc, reserved, file\<lparr>inner_file := inner\<rparr>)))"

definition translate_size_file_control ::
    "'f io_methods \<Rightarrow> 'f offset_file \<Rightarrow> int \<Rightarrow> int option \<Rightarrow> int \<times> int option \<times> 'f offset_file" where
  "translate_size_file_control m file operation argument =
     (case argument of
        None \<Rightarrow> (let (rc, argument, inner) = xFileControl m (inner_file file) operation argument
                 in (rc, argument, file\<lparr>inner_file := inner\<rparr>))
      | Some original_size \<Rightarrow>
        if \<not> format_uses_lock_gap file \<and> original_size > LEGACY_MAX_LOGICAL_SIZE
        then (SQLITE_FULL, argument, file)
        else if original_size \<ge> 0 \<and> logical_size_to_physical file original_size = None
        then (SQLITE_IOERR, argument, file)
        else (let sent_size = (if original_size \<ge> 0
                          then the (logical_size_to_physical file original_size)
                          else original_size);
                  (rc, result, inner) = xFileControl m (inner_file file) operation (Some sent_size);
                  file = file\<lparr>inner_file := inner\<rparr>
              in if rc \<noteq> SQLITE_OK then (rc, Some original_size, file)
                 else (case logical_size_from_physical file (the result) of
                   None \<Rightarrow> (SQLITE_IOERR, Some original_size, file)
                 | Some new_size \<Rightarrow>
                   (SQLITE_OK,
                    Some (if \<not> format_uses_lock_gap file \<and> new_size > LEGACY_MAX_LOGICAL_SIZE
                          then LEGACY_MAX_LOGICAL_SIZE else new_size),
                    file))))"

definition offset_file_control ::
    "'f io_methods \<Rightarrow> 'f offset_file \<Rightarrow> int \<Rightarrow> int option \<Rightarrow> int \<times> int option \<times> 'f offset_file" where
  "offset_file_control m file operation argument =
     (if shifts_offsets file \<and> operation = SQLITE_FCNTL_CHUNK_SIZE then
        (let (rc, _, inner) = xFileControl m (inner_file file) operation (Some 0)
         in (rc, argument, file\<lparr>inner_file := inner\<rparr>))
      else if shifts_offsets file \<and> operation = SQLITE_FCNTL_MMAP_SIZE then
        (let (rc, _, inner) = xFileControl m (inner_file file) operation (Some 0)
         in (if rc = SQLITE_NOTFOUND then SQLITE_OK else rc,
             map_option (\<lambda>_. 0) argument, file\<lparr>inner_file := inner\<rparr>))
      else if shifts_offsets file \<and>
        (operation = SQLITE_FCNTL_BEGIN_ATOMIC_WRITE \<or>
         operation = SQLITE_FCNTL_COMMIT_ATOMIC_WRITE \<or>
         operation = SQLITE_FCNTL_ROLLBACK_ATOMIC_WRITE)
      then (SQLITE_NOTFOUND, argument, file)
      else if shifts_offsets file \<and>
        (operation = SQLITE_FCNTL_SIZE_HINT \<or> operation = SQLITE_FCNTL_SIZE_LIMIT)
      then translate_size_file_control m file operation argument
      else (let (rc, argument, inner) = xFileControl m (inner_file file) operation argument
            in (rc, argument, file\<lparr>inner_file := inner\<rparr>)))"

definition offset_sector_size :: "'f io_methods \<Rightarrow> 'f offset_file \<Rightarrow> int" where
  "offset_sector_size m file =
     (case xSectorSize m of None \<Rightarrow> PAYLOAD_OFFSET | Some sector \<Rightarrow> sector (inner_file file))"

definition atomic_write_capability_mask :: "32 word" where
  "atomic_write_capability_mask =
     0x1 OR 0x2 OR 0x4 OR 0x8 OR 0x10 OR 0x20 OR 0x40 OR 0x80 OR 0x100 OR 0x4000"

definition offset_device_characteristics :: "'f io_methods \<Rightarrow> 'f offset_file \<Rightarrow> 32 word" where
  "offset_device_characteristics m file =
     (let characteristics = xDeviceCharacteristics m (inner_file file)
      in if shifts_offsets file then characteristics AND NOT atomic_write_capability_mask
         else characteristics)"

section \<open>Lemmas on the translation\<close>

lemma logical_range_end_Some:
  "logical_range_end off n = Some e \<longleftrightarrow> 0 \<le> off \<and> 0 \<le> n \<and> e = off + n \<and> e \<le> INT64_MAX"
  by (auto simp: logical_range_end_def)

lemma logical_offset_to_physical_Some:
  "logical_offset_to_physical f l = Some p \<longleftrightarrow>
    0 \<le> l \<and> p \<le> INT64_MAX \<and>
    p = (if format_uses_lock_gap f \<and> l \<ge> LOCK_GAP_LOGICAL_OFFSET then l + 8192 else l + 4096)"
  by (auto simp: logical_offset_to_physical_def Let_def)

lemma logical_size_to_physical_Some:
  "logical_size_to_physical f l = Some p \<longleftrightarrow>
    0 \<le> l \<and> p \<le> INT64_MAX \<and>
    p = (if format_uses_lock_gap f \<and> l > LOCK_GAP_LOGICAL_OFFSET then l + 8192 else l + 4096)"
  by (auto simp: logical_size_to_physical_def Let_def)

lemma format_uses_lock_gap_inner [simp]:
  "format_uses_lock_gap (f\<lparr>inner_file := g\<rparr>) = format_uses_lock_gap f"
  by (simp add: format_uses_lock_gap_def)

lemma inject_fault_none:
  "injected_fault s = no_fault \<Longrightarrow> op \<noteq> MYLITE_STORAGE_VFS_FAULT_NONE \<Longrightarrow>
    inject_fault op s = Some (False, s)"
  by (simp add: inject_fault_def no_fault_def)

text \<open>An injected fault changes the fault bookkeeping only.\<close>

lemma injected_fault_self: "\<exists>fault. s = s\<lparr>injected_fault := fault\<rparr>"
  by (rule exI [of _ "injected_fault s"]) simp

lemma inject_fault_frame:
  "inject_fault op s = Some (b, t) \<Longrightarrow> \<exists>fault. t = s\<lparr>injected_fault := fault\<rparr>"
  using injected_fault_self [of s] by (auto simp: inject_fault_def Let_def split: if_splits)

section \<open>Properties\<close>

text \<open>
  Property C36. The offset translation is an order embedding whose image is exactly the set of
  physical offsets the payload may use: everything from the end of the preamble to the
  largest 64-bit offset, except, in format 3, the 4096-byte page of SQLite's lock byte. So no
  payload access can reach the preamble or the lock page, no two logical offsets share a
  physical one, no usable physical offset is lost, and the 64-bit addition never overflows.
\<close>
theorem offset_translation_exact:
  "((\<exists>l. logical_offset_to_physical f l = Some p) \<longleftrightarrow>
     PAYLOAD_OFFSET \<le> p \<and> p \<le> INT64_MAX \<and>
     \<not> (format_uses_lock_gap f \<and> PHYSICAL_LOCK_BYTE \<le> p \<and>
        p < PHYSICAL_LOCK_BYTE + PAYLOAD_OFFSET)) \<and>
   (\<forall>l1 l2 p1 p2. logical_offset_to_physical f l1 = Some p1 \<longrightarrow>
      logical_offset_to_physical f l2 = Some p2 \<longrightarrow> (p1 < p2 \<longleftrightarrow> l1 < l2))"
  (is "(?image \<longleftrightarrow> ?usable) \<and> ?mono")
proof (intro conjI)
  show "?image \<longleftrightarrow> ?usable"
  proof
    assume ?usable
    then have "logical_offset_to_physical f
      (if format_uses_lock_gap f \<and> p \<ge> PHYSICAL_LOCK_BYTE then p - 8192 else p - 4096) = Some p"
      by (auto simp: logical_offset_to_physical_Some)
    then show ?image by blast
  qed (auto simp: logical_offset_to_physical_Some split: if_splits)
  show ?mono by (auto simp: logical_offset_to_physical_Some)
qed

text \<open>A handle of the current format on an arbitrary wrapped file, for closed examples.\<close>

definition example_handle :: "'f \<Rightarrow> 'f offset_file" where
  "example_handle inner =
     \<lparr>inner_file = inner, inner_present = True, inner_methods = True, base_methods = True,
      format_version = 3, shifts_offsets = True, initialization_owner = False,
      initialization_lock_held = False, initialization_preamble_written = False,
      injected_fault = no_fault, exclusive_create_enabled = False\<rparr>"

theorem offset_translation_exact_witness:
  "logical_offset_to_physical (example_handle ()) 0 = Some 4096 \<and>
   logical_offset_to_physical (example_handle ()) 1073737728 = Some 1073745920 \<and>
   (\<exists>l. logical_offset_to_physical (example_handle ()) l = Some 5000) \<and>
   \<not> (\<exists>l. logical_offset_to_physical (example_handle ()) l = Some 1073741824)"
  using offset_translation_exact [of "example_handle ()" 5000]
    offset_translation_exact [of "example_handle ()" 1073741824]
  by (simp add: example_handle_def format_uses_lock_gap_def logical_offset_to_physical_Some
      limit_simps)

text \<open>
  Size translation round-trips: the physical size computed for a logical size is
  read back as that logical size, it never ends inside the lock page of format 3, and every
  physical size the layer accepts is the translation of the logical size it reports.
\<close>
theorem size_translation_roundtrip:
  "(\<forall>p. logical_size_to_physical f n = Some p \<longrightarrow>
      logical_size_from_physical f p = Some n \<and>
      \<not> (format_uses_lock_gap f \<and> PHYSICAL_LOCK_BYTE < p \<and>
         p \<le> PHYSICAL_LOCK_BYTE + PAYLOAD_OFFSET)) \<and>
   (\<forall>p. logical_size_from_physical f p = Some n \<longrightarrow> PAYLOAD_OFFSET \<le> p \<longrightarrow> p \<le> INT64_MAX \<longrightarrow>
      logical_size_to_physical f n = Some p)"
  by (auto simp: logical_size_to_physical_Some logical_size_from_physical_def split: if_splits)

theorem size_translation_roundtrip_witness:
  "logical_size_from_physical (example_handle ()) 1073745921 = Some 1073737729 \<and>
   logical_size_to_physical (example_handle ()) 1073737729 = Some 1073745921"
  using size_translation_roundtrip [of "example_handle ()" 1073737729]
  by (simp add: example_handle_def format_uses_lock_gap_def logical_size_to_physical_Some
      limit_simps)

end
