(* ===== verification/Vfs_Lifecycle.thy ===== *)
theory Vfs_Lifecycle
  imports Offset_Vfs
begin

text \<open>
  Opening, initialising, committing and closing a database file through the offset VFS: the
  second half of \<^verbatim>\<open>storage/mylite_offset_vfs.c\<close>. A new file is created with the
  initializing state under an exclusive lock; the handle that holds that lock is the owner of
  the initialisation until it moves the file to the committed or to the recovery state.
\<close>

section \<open>The initialisation lock\<close>

definition acquire_initialization_lock ::
    "'f io_methods \<Rightarrow> 'f offset_file \<Rightarrow> int \<times> 'f offset_file" where
  "acquire_initialization_lock m file =
     (if initialization_lock_held file then (SQLITE_OK, file)
      else (let (rc, inner) = xLock m (inner_file file) SQLITE_LOCK_SHARED;
                file = file\<lparr>inner_file := inner\<rparr>
            in if rc \<noteq> SQLITE_OK then (rc, file)
               else (let (rc, inner) = xLock m (inner_file file) SQLITE_LOCK_EXCLUSIVE;
                         file = file\<lparr>inner_file := inner\<rparr>
                     in if rc \<noteq> SQLITE_OK
                        then (let (unlock_rc, inner) = xUnlock m (inner_file file) SQLITE_LOCK_NONE
                              in (if unlock_rc = SQLITE_OK then rc else unlock_rc,
                                  file\<lparr>inner_file := inner\<rparr>))
                        else (SQLITE_OK,
                              file\<lparr>initialization_owner := True,
                                   initialization_lock_held := True\<rparr>))))"

definition release_initialization_lock ::
    "'f io_methods \<Rightarrow> 'f offset_file \<Rightarrow> int \<times> 'f offset_file" where
  "release_initialization_lock m file =
     (if \<not> initialization_lock_held file then (SQLITE_OK, file)
      else (let (rc, inner) = xUnlock m (inner_file file) SQLITE_LOCK_NONE;
                file = file\<lparr>inner_file := inner\<rparr>
            in (rc, if rc = SQLITE_OK
                    then file\<lparr>initialization_owner := False, initialization_lock_held := False\<rparr>
                    else file)))"

section \<open>Validation\<close>

definition sqlite_header :: bytes where
  "sqlite_header = text_bytes ''SQLite format 3'' @ [0]"

definition validate_sector_alignment :: "'f io_methods \<Rightarrow> 'f offset_file \<Rightarrow> int" where
  "validate_sector_alignment m file =
     (let sector_size = (case xSectorSize m of
            None \<Rightarrow> PAYLOAD_OFFSET | Some sector \<Rightarrow> sector (inner_file file))
      in if sector_size \<le> 0 \<or> PAYLOAD_OFFSET mod sector_size \<noteq> 0 then SQLITE_CANTOPEN
         else SQLITE_OK)"

text \<open>The contents of a buffer that was passed as a non-NULL pointer.\<close>

definition buffer_bytes :: "bytes option \<Rightarrow> bytes" where
  "buffer_bytes buffer = (case buffer of None \<Rightarrow> [] | Some b \<Rightarrow> b)"

definition validate_sqlite_payload_header ::
    "'f io_methods \<Rightarrow> 'f offset_file \<Rightarrow> int \<times> 'f offset_file" where
  "validate_sqlite_payload_header m file =
     (let (rc, physical_size, inner) = xFileSize m (inner_file file);
          file = file\<lparr>inner_file := inner\<rparr>
      in if rc \<noteq> SQLITE_OK then (rc, file)
         else if physical_size < PAYLOAD_OFFSET + SQLITE_MINIMUM_DATABASE_SIZE
         then (SQLITE_NOTADB, file)
         else (let (rc, actual_header, inner) =
                     xRead m (inner_file file) (Some (replicate 16 0)) 16 PAYLOAD_OFFSET;
                   file = file\<lparr>inner_file := inner\<rparr>
               in if rc \<noteq> SQLITE_OK \<or> \<not> mem_equal (buffer_bytes actual_header) sqlite_header 16
                  then (SQLITE_NOTADB, file)
                  else (SQLITE_OK, file)))"

section \<open>Lifecycle transitions\<close>

definition transition_initialization_state ::
    "'f io_methods \<Rightarrow> 'f offset_file \<Rightarrow> mylite_file_lifecycle_state \<Rightarrow>
     (int \<times> 'f offset_file) option" where
  "transition_initialization_state m file state =
     (if \<not> initialization_owner file then Some (SQLITE_OK, file)
      else (let (rc, file) = (if state = MYLITE_FILE_LIFECYCLE_COMMITTED
                              then validate_sqlite_payload_header m file
                              else (SQLITE_OK, file))
      in if rc \<noteq> SQLITE_OK then Some (rc, file) else do {
        (fail, file) \<leftarrow> inject_fault MYLITE_STORAGE_VFS_FAULT_WRITE file;
        if fail then Some (SQLITE_IOERR_WRITE, file)
        else (let (rc, file) =
            (if initialization_preamble_written file
             then (let (rc, inner) = xWrite m (inner_file file) (Some [lifecycle_byte state]) 1
                         (int MYLITE_FILE_LIFECYCLE_STATE_OFFSET)
                   in (rc, file\<lparr>inner_file := inner\<rparr>))
             else (let recovery_preamble =
                         mylite_file_preamble_init_with_state
                           (replicate MYLITE_FILE_PREAMBLE_SIZE 0) state;
                       (rc, inner) = xWrite m (inner_file file) (Some recovery_preamble)
                         (int MYLITE_FILE_PREAMBLE_SIZE) 0
                   in (rc, file\<lparr>inner_file := inner,
                               initialization_preamble_written :=
                                 (initialization_preamble_written file \<or> rc = SQLITE_OK)\<rparr>)))
          in if rc \<noteq> SQLITE_OK then Some (rc, file) else do {
            (fail, file) \<leftarrow> inject_fault MYLITE_STORAGE_VFS_FAULT_SYNC file;
            if fail then Some (SQLITE_IOERR_FSYNC, file)
            else (let (rc, inner) = xSync m (inner_file file) SQLITE_SYNC_FULL;
                      file = file\<lparr>inner_file := inner\<rparr>
                  in if rc = SQLITE_OK then Some (release_initialization_lock m file)
                     else Some (rc, file))
          })
      }))"

text \<open>A handle that is NULL or of another VFS is refused.\<close>

definition mylite_storage_vfs_transition_initialization ::
    "'f io_methods \<Rightarrow> 'f offset_file option \<Rightarrow> bool \<Rightarrow> (int \<times> 'f offset_file option) option" where
  "mylite_storage_vfs_transition_initialization m file commit =
     (case file of None \<Rightarrow> Some (SQLITE_NOTFOUND, None)
      | Some f \<Rightarrow>
        if \<not> base_methods f then Some (SQLITE_NOTFOUND, Some f)
        else map_option (\<lambda>(rc, f). (rc, Some f))
          (transition_initialization_state m f
            (if commit then MYLITE_FILE_LIFECYCLE_COMMITTED
             else MYLITE_FILE_LIFECYCLE_RECOVERY_REQUIRED)))"

section \<open>Opening\<close>

definition file_shifts_offsets :: "32 word \<Rightarrow> bool" where
  "file_shifts_offsets flags \<longleftrightarrow> flags AND SQLITE_OPEN_MAIN_DB \<noteq> 0"

definition initialize_new_main_database_file ::
    "'f io_methods \<Rightarrow> 'f offset_file \<Rightarrow> (int \<times> 'f offset_file) option" where
  "initialize_new_main_database_file m file =
     (let (rc, physical_size, inner) = xFileSize m (inner_file file);
          file = file\<lparr>inner_file := inner\<rparr>
      in if rc \<noteq> SQLITE_OK then Some (rc, file)
         else if physical_size \<noteq> 0 then Some (SQLITE_CANTOPEN, file)
         else (let file = file\<lparr>format_version := MYLITE_FILE_FORMAT_VERSION\<rparr>;
                   (rc, file) = acquire_initialization_lock m file
         in if rc \<noteq> SQLITE_OK then Some (rc, file) else do {
           let preamble = mylite_file_preamble_init_with_state
                 (replicate MYLITE_FILE_PREAMBLE_SIZE 0) MYLITE_FILE_LIFECYCLE_INITIALIZING;
           (fail, file) \<leftarrow> inject_fault MYLITE_STORAGE_VFS_FAULT_WRITE file;
           if fail then Some (SQLITE_IOERR_WRITE, file)
           else (let (rc, inner) = xWrite m (inner_file file) (Some preamble)
                       (int MYLITE_FILE_PREAMBLE_SIZE) 0;
                     file = file\<lparr>inner_file := inner\<rparr>
           in if rc \<noteq> SQLITE_OK then Some (rc, file) else do {
             let file = file\<lparr>initialization_preamble_written := True\<rparr>;
             (fail, file) \<leftarrow> inject_fault MYLITE_STORAGE_VFS_FAULT_SYNC file;
             if fail then Some (SQLITE_IOERR_FSYNC, file)
             else (let (rc, inner) = xSync m (inner_file file) SQLITE_SYNC_FULL
                   in Some (rc, file\<lparr>inner_file := inner\<rparr>))
           })
         }))"

definition validate_existing_main_database_file ::
    "'f io_methods \<Rightarrow> 'f offset_file \<Rightarrow> int \<times> 'f offset_file" where
  "validate_existing_main_database_file m file =
     (let (rc, physical_size, inner) = xFileSize m (inner_file file);
          file = file\<lparr>inner_file := inner\<rparr>
      in if rc \<noteq> SQLITE_OK then (rc, file)
         else if physical_size < int MYLITE_FILE_PREAMBLE_SIZE then (SQLITE_NOTADB, file)
         else (let (rc, preamble, inner) = xRead m (inner_file file)
                     (Some (replicate MYLITE_FILE_PREAMBLE_SIZE 0))
                     (int MYLITE_FILE_PREAMBLE_SIZE) 0;
                   file = file\<lparr>inner_file := inner\<rparr>
         in if rc \<noteq> SQLITE_OK then (rc, file)
         else (let lifecycle_state = mylite_file_preamble_lifecycle_state (buffer_bytes preamble)
         in if lifecycle_state = MYLITE_FILE_LIFECYCLE_INVALID then (SQLITE_NOTADB, file)
         else (let file = file\<lparr>format_version :=
                             mylite_file_preamble_format_version (buffer_bytes preamble)\<rparr>
         in if \<not> format_uses_lock_gap file \<and> physical_size > PHYSICAL_LOCK_BYTE
         then (SQLITE_NOTADB, file)
         else if lifecycle_state = MYLITE_FILE_LIFECYCLE_COMMITTED
         then validate_sqlite_payload_header m file
         else (let (rc, file) = acquire_initialization_lock m file
         in if rc \<noteq> SQLITE_OK then (rc, file)
         else (let file = file\<lparr>initialization_preamble_written := True\<rparr>
         in if physical_size = int MYLITE_FILE_PREAMBLE_SIZE then (SQLITE_OK, file)
            else validate_sqlite_payload_header m file))))))"

definition prepare_main_database_file ::
    "'f io_methods \<Rightarrow> 'f offset_file \<Rightarrow> bool \<Rightarrow> (int \<times> 'f offset_file) option" where
  "prepare_main_database_file m file exclusive_create =
     (if exclusive_create then initialize_new_main_database_file m file
      else Some (validate_existing_main_database_file m file))"

text \<open>\<^verbatim>\<open>memset(offset_file, 0, sizeof(*offset_file))\<close>: the handle, not the file behind it.\<close>

definition zero_offset_file :: "'f offset_file \<Rightarrow> 'f offset_file" where
  "zero_offset_file file =
     file\<lparr>inner_present := False, inner_methods := False, base_methods := False,
          format_version := 0, shifts_offsets := False, initialization_owner := False,
          initialization_lock_held := False, initialization_preamble_written := False\<rparr>"

definition close_failed_inner_file ::
    "'f io_methods \<Rightarrow> 'f offset_file \<Rightarrow> 'f offset_file option" where
  "close_failed_inner_file m file =
     (if \<not> inner_present file then Some file
      else do {
        file \<leftarrow> (if initialization_owner file \<and> inner_methods file
                then map_option snd (transition_initialization_state m file
                       MYLITE_FILE_LIFECYCLE_RECOVERY_REQUIRED)
                else Some file);
        let file = (if inner_methods file
                    then file\<lparr>inner_file := snd (xClose m (inner_file file))\<rparr> else file);
        Some (file\<lparr>inner_present := False, inner_methods := False,
                   initialization_owner := False, base_methods := False\<rparr>)
      })"

text \<open>
  \<open>base_open\<close> is the base VFS's \<^verbatim>\<open>xOpen\<close>: the status, whether it set the method table,
  the flags it reports and the new state of the wrapped file. \<open>alloc\<close> answers the
  allocation of the inner handle.
\<close>

type_synonym 'f base_open = "'f \<Rightarrow> 32 word \<Rightarrow> int \<times> bool \<times> 32 word \<times> 'f"

definition open_inner_file ::
    "'f base_open \<Rightarrow> bool \<Rightarrow> 'f offset_file \<Rightarrow> 32 word \<Rightarrow> int \<times> 32 word \<times> 'f offset_file" where
  "open_inner_file base_open alloc file flags =
     (if \<not> alloc then (SQLITE_NOMEM, 0, file)
      else (let (rc, methods, out_flags, inner) = base_open (inner_file file) flags
            in (rc, out_flags,
                file\<lparr>inner_file := inner, inner_present := True, inner_methods := methods\<rparr>)))"

definition offset_vfs_open ::
    "'f io_methods \<Rightarrow> 'f base_open \<Rightarrow> bool \<Rightarrow> bool \<Rightarrow> 'f offset_file \<Rightarrow> 32 word \<Rightarrow>
     (int \<times> 'f offset_file) option" where
  "offset_vfs_open m base_open alloc wants_out_flags file flags = do {
     let exclusive_create = (exclusive_create_enabled file \<and> file_shifts_offsets flags);
     let inner_flags = (if exclusive_create then flags OR SQLITE_OPEN_EXCLUSIVE else flags);
     let file = zero_offset_file file;
     (fail, file) \<leftarrow> (if file_shifts_offsets flags
        then inject_fault (if exclusive_create then MYLITE_STORAGE_VFS_FAULT_CREATE
                           else MYLITE_STORAGE_VFS_FAULT_OPEN) file
        else Some (False, file));
     if fail then Some (SQLITE_CANTOPEN, file)
     else (let (rc, out_flags, file) = open_inner_file base_open alloc file inner_flags
     in if rc \<noteq> SQLITE_OK
     then map_option (\<lambda>file. (rc, file)) (close_failed_inner_file m file)
     else if exclusive_create \<and> wants_out_flags \<and> out_flags AND SQLITE_OPEN_READONLY \<noteq> 0
     then map_option (\<lambda>file. (SQLITE_CANTOPEN, file)) (close_failed_inner_file m file)
     else (let file = file\<lparr>shifts_offsets := file_shifts_offsets flags\<rparr>
     in if shifts_offsets file then do {
          (rc, file) \<leftarrow> prepare_main_database_file m file exclusive_create;
          let rc = (if rc = SQLITE_OK then validate_sector_alignment m file else rc);
          if rc \<noteq> SQLITE_OK
          then map_option (\<lambda>file. (rc, file)) (close_failed_inner_file m file)
          else Some (SQLITE_OK, file\<lparr>base_methods := True\<rparr>)
        }
        else Some (SQLITE_OK, file\<lparr>base_methods := True\<rparr>)))
   }"

section \<open>Closing and deleting\<close>

definition offset_close ::
    "'f io_methods \<Rightarrow> 'f offset_file \<Rightarrow> (int \<times> 'f offset_file) option" where
  "offset_close m file = do {
     (fail_close, file) \<leftarrow> inject_fault MYLITE_STORAGE_VFS_FAULT_CLOSE file;
     (rc, file) \<leftarrow> (if inner_present file then do {
         file \<leftarrow> (if initialization_owner file
                 then map_option snd (transition_initialization_state m file
                        MYLITE_FILE_LIFECYCLE_RECOVERY_REQUIRED)
                 else Some file);
         if inner_methods file
         then (let (rc, inner) = xClose m (inner_file file)
               in Some (rc, file\<lparr>inner_file := inner\<rparr>))
         else Some (SQLITE_OK, file)
       }
       else Some (SQLITE_OK, file));
     Some (if fail_close \<and> rc = SQLITE_OK then SQLITE_IOERR_CLOSE else rc, zero_offset_file file)
   }"

definition offset_vfs_delete ::
    "('w \<Rightarrow> string \<Rightarrow> int \<Rightarrow> int \<times> 'w) \<Rightarrow> 'w \<Rightarrow> 'f offset_file \<Rightarrow> string \<Rightarrow> int \<Rightarrow>
     (int \<times> 'w \<times> 'f offset_file) option" where
  "offset_vfs_delete base_delete w file filename sync_directory = do {
     (fail, file) \<leftarrow> inject_fault MYLITE_STORAGE_VFS_FAULT_DELETE file;
     if fail then Some (SQLITE_IOERR_DELETE, w, file)
     else (let (rc, w) = base_delete w filename sync_directory in Some (rc, w, file))
   }"

end
