(* ===== verification/Byte_File.thy ===== *)
theory Byte_File
  imports Vfs_Lifecycle
begin

text \<open>
  What a file is to its client, as an interface: an array of bytes that is read, overwritten
  and extended, cut and measured. The locale \<open>byte_file\<close> states the contract of a method
  table towards the layer above it. The base VFS is assumed to satisfy it, and the offset VFS
  is shown to satisfy it again over the logical contents, for every base that does. The
  locale \<open>framed_file\<close> adds what a base VFS keeps even when a call fails.
\<close>

section \<open>Byte arrays\<close>

text \<open>Writing past the end extends the file with zeros, as a POSIX write does.\<close>

definition write_at :: "bytes \<Rightarrow> nat \<Rightarrow> bytes \<Rightarrow> bytes" where
  "write_at c off d =
     (if d = [] then c
      else take off (c @ replicate (off - length c) 0) @ d @ drop (off + length d) c)"

lemma write_at_Nil [simp]: "write_at c off [] = c"
  by (simp add: write_at_def)

lemma length_write_at [buffer_simps]:
  "length (write_at c off d) = (if d = [] then length c else max (length c) (off + length d))"
  by (auto simp: write_at_def)

lemma nth_write_at [buffer_simps]:
  "i < length (write_at c off d) \<Longrightarrow>
    write_at c off d ! i =
      (if off \<le> i \<and> i < off + length d then d ! (i - off)
       else if i < length c then c ! i else 0)"
  by (auto simp: write_at_def nth_append min_def)

lemma write_at_append:
  "write_at (write_at c off d) (off + length d) e = write_at c off (d @ e)"
proof (cases "d = [] \<or> e = []")
  case False
  then have pos: "0 < length d" "0 < length e" "d \<noteq> []" "e \<noteq> []" by auto
  show ?thesis
  proof (rule nth_equalityI)
    show len: "length (write_at (write_at c off d) (off + length d) e) = length (write_at c off (d @ e))"
      using pos by (auto simp: length_write_at)
    fix i assume i: "i < length (write_at (write_at c off d) (off + length d) e)"
    with len have i': "i < length (write_at c off (d @ e))" by simp
    show "write_at (write_at c off d) (off + length d) e ! i = write_at c off (d @ e) ! i"
      unfolding nth_write_at [OF i] nth_write_at [OF i']
      using pos i by (auto simp: nth_write_at length_write_at nth_append)
  qed
qed auto

section \<open>The contract\<close>

locale byte_file =
  fixes m :: "'f io_methods"
    and content :: "'f \<Rightarrow> bytes"
    and invar :: "'f \<Rightarrow> bool"
  assumes read_ok:
    "invar f \<Longrightarrow> xRead m f (Some b) n off = (SQLITE_OK, b', f') \<Longrightarrow>
     0 \<le> n \<Longrightarrow> n \<le> int (length b) \<Longrightarrow> 0 \<le> off \<Longrightarrow>
     (n = 0 \<or> nat off + nat n \<le> length (content f)) \<and>
     b' = Some (take (nat n) (drop (nat off) (content f)) @ drop (nat n) b) \<and>
     content f' = content f \<and> invar f'"
    and write_ok:
    "invar f \<Longrightarrow> xWrite m f (Some b) n off = (SQLITE_OK, f') \<Longrightarrow>
     0 \<le> n \<Longrightarrow> n \<le> int (length b) \<Longrightarrow> 0 \<le> off \<Longrightarrow>
     content f' = write_at (content f) (nat off) (take (nat n) b) \<and> invar f'"
    and truncate_ok:
    "invar f \<Longrightarrow> xTruncate m f sz = (SQLITE_OK, f') \<Longrightarrow>
     0 \<le> sz \<Longrightarrow> sz \<le> int (length (content f)) \<Longrightarrow>
     content f' = take (nat sz) (content f) \<and> invar f'"
    and size_ok:
    "invar f \<Longrightarrow> xFileSize m f = (SQLITE_OK, sz, f') \<Longrightarrow>
     sz = int (length (content f)) \<and> content f' = content f \<and> invar f'"
    and sync_ok:
    "invar f \<Longrightarrow> xSync m f flags = (SQLITE_OK, f') \<Longrightarrow> content f' = content f \<and> invar f'"
    and lock_ok:
    "invar f \<Longrightarrow> xLock m f kind = (SQLITE_OK, f') \<Longrightarrow> content f' = content f \<and> invar f'"
    and unlock_ok:
    "invar f \<Longrightarrow> xUnlock m f kind = (SQLITE_OK, f') \<Longrightarrow> content f' = content f \<and> invar f'"
begin

text \<open>A client's view: what was written is read back, and nothing else changed.\<close>

lemma read_after_write:
  assumes "invar f"
    and "xWrite m f (Some d) (int (length d)) off = (SQLITE_OK, f1)"
    and "xRead m f1 (Some b) (int (length d)) off = (SQLITE_OK, b', f2)"
    and "0 \<le> off" "length b = length d"
  shows "b' = Some d"
proof -
  from write_ok [OF assms(1,2)] assms(4)
  have c1: "content f1 = write_at (content f) (nat off) d" and i1: "invar f1" by auto
  from read_ok [OF i1 assms(3)] assms(4,5)
  have "b' = Some (take (length d) (drop (nat off) (content f1)))" by auto
  moreover have "take (length d) (drop (nat off) (write_at (content f) (nat off) d)) = d"
    by (rule nth_equalityI) (auto simp: buffer_simps)
  ultimately show ?thesis by (simp add: c1)
qed

lemma size_after_write:
  assumes "invar f" "d \<noteq> []" "0 \<le> off"
    and "xWrite m f (Some d) (int (length d)) off = (SQLITE_OK, f1)"
    and "xFileSize m f1 = (SQLITE_OK, sz, f2)"
  shows "sz = max (int (length (content f))) (off + int (length d))"
proof -
  from write_ok [OF assms(1,4)] assms(3)
  have c1: "content f1 = write_at (content f) (nat off) d" and i1: "invar f1" by auto
  from size_ok [OF i1 assms(5)] have "sz = int (length (content f1))" by simp
  with assms(2,3) show ?thesis by (auto simp: c1 buffer_simps)
qed

end

section \<open>Logical contents\<close>

text \<open>
  The bytes SQLite sees of a physical file: everything after the preamble and, where the
  format keeps the lock page free, without that page.
\<close>

definition logical_content :: "bool \<Rightarrow> bytes \<Rightarrow> bytes" where
  "logical_content gap c =
     (if gap then take 1073737728 (drop 4096 c) @ drop 1073745920 c else drop 4096 c)"

definition physical_ok :: "bool \<Rightarrow> bytes \<Rightarrow> bool" where
  "physical_ok gap c \<longleftrightarrow> 4096 \<le> length c \<and>
     (if gap then length c \<le> 1073741824 \<or> 1073745920 < length c else length c \<le> 1073741824)"

definition physical_index :: "bool \<Rightarrow> nat \<Rightarrow> nat" where
  "physical_index gap i = (if gap \<and> 1073737728 \<le> i then i + 8192 else i + 4096)"

lemma length_logical_content:
  "physical_ok gap c \<Longrightarrow>
    length (logical_content gap c) =
      (if gap \<and> 1073741824 < length c then length c - 8192 else length c - 4096)"
  by (auto simp: logical_content_def physical_ok_def)

lemma nth_logical_content:
  "physical_ok gap c \<Longrightarrow> i < length (logical_content gap c) \<Longrightarrow>
    logical_content gap c ! i = c ! physical_index gap i"
  by (auto simp: logical_content_def physical_ok_def physical_index_def nth_append min_def add.commute)

lemma physical_index_less:
  "physical_ok gap c \<Longrightarrow> i < length (logical_content gap c) \<Longrightarrow> physical_index gap i < length c"
  by (auto simp: length_logical_content physical_index_def physical_ok_def split: if_splits)

text \<open>A run of logical bytes that does not straddle the lock page is contiguous on disk.\<close>

definition contiguous :: "bool \<Rightarrow> nat \<Rightarrow> nat \<Rightarrow> bool" where
  "contiguous gap off n \<longleftrightarrow> (if gap then off + n \<le> 1073737728 \<or> 1073737728 \<le> off
     else off + n \<le> 1073737728)"

lemma physical_index_run:
  assumes "contiguous gap off n" "0 < n"
  shows "physical_index gap off \<le> physical_index gap i \<and>
         physical_index gap i < physical_index gap off + n \<longleftrightarrow> off \<le> i \<and> i < off + n"
    and "off \<le> i \<Longrightarrow> i < off + n \<Longrightarrow> physical_index gap i - physical_index gap off = i - off"
  using assms by (cases gap; auto simp: contiguous_def physical_index_def)+

lemma physical_index_less_iff:
  "physical_ok gap c \<Longrightarrow> physical_index gap i < length c \<longleftrightarrow> i < length (logical_content gap c)"
  by (cases gap) (auto simp: length_logical_content physical_index_def physical_ok_def)

lemma physical_ok_write:
  assumes "physical_ok gap c" "contiguous gap off (length d)"
  shows "physical_ok gap (write_at c (physical_index gap off) d)"
proof (cases "d = []")
  case False
  then obtain k where "length d = Suc k" by (cases d) auto
  with assms False show ?thesis
    by (cases gap) (auto simp: physical_ok_def contiguous_def physical_index_def length_write_at)
qed (use assms in simp)

lemma logical_content_write:
  assumes ok: "physical_ok gap c" and cont: "contiguous gap off (length d)"
  shows "logical_content gap (write_at c (physical_index gap off) d) =
         write_at (logical_content gap c) off d"
proof (cases "d = []")
  case False
  let ?c' = "write_at c (physical_index gap off) d"
  note ok' = physical_ok_write [OF ok cont]
  from False have pos: "0 < length d" by simp
  note run = physical_index_run [OF cont pos]
  show ?thesis
  proof (rule nth_equalityI)
    show len: "length (logical_content gap ?c') = length (write_at (logical_content gap c) off d)"
      unfolding length_logical_content [OF ok'] length_write_at length_logical_content [OF ok]
      using ok cont False pos
      by (cases gap) (auto simp: physical_ok_def contiguous_def physical_index_def)
    fix i assume i: "i < length (logical_content gap ?c')"
    with len have i': "i < length (write_at (logical_content gap c) off d)" by simp
    have "logical_content gap ?c' ! i = ?c' ! physical_index gap i"
      by (rule nth_logical_content [OF ok' i])
    also have "\<dots> = write_at (logical_content gap c) off d ! i"
      unfolding nth_write_at [OF physical_index_less [OF ok' i]] nth_write_at [OF i']
        run(1) physical_index_less_iff [OF ok]
      by (simp add: run(2) nth_logical_content [OF ok])
    finally show "logical_content gap ?c' ! i = write_at (logical_content gap c) off d ! i" .
  qed
qed simp

lemma logical_content_read:
  assumes "physical_ok gap c" "contiguous gap off n" "physical_index gap off + n \<le> length c"
  shows "take n (drop off (logical_content gap c)) = take n (drop (physical_index gap off) c)"
proof (rule nth_equalityI)
  show len: "length (take n (drop off (logical_content gap c))) =
      length (take n (drop (physical_index gap off) c))"
    using assms
    by (cases gap; cases "1073737728 \<le> off")
      (auto simp: length_logical_content contiguous_def physical_index_def physical_ok_def)
  fix i assume "i < length (take n (drop off (logical_content gap c)))"
  then have i: "i < n" "off + i < length (logical_content gap c)" by auto
  then have "logical_content gap c ! (off + i) = c ! physical_index gap (off + i)"
    using assms(1) by (simp add: nth_logical_content)
  moreover have "physical_index gap (off + i) = physical_index gap off + i"
    using assms(2) i by (cases gap) (auto simp: contiguous_def physical_index_def)
  ultimately show "take n (drop off (logical_content gap c)) ! i =
      take n (drop (physical_index gap off) c) ! i"
    using i assms(3) by simp
qed

lemma logical_content_take:
  assumes ok: "physical_ok gap c" and n: "n \<le> length (logical_content gap c)"
  shows "logical_content gap (take (if gap \<and> 1073737728 < n then n + 8192 else n + 4096) c) =
         take n (logical_content gap c)"
    and "physical_ok gap (take (if gap \<and> 1073737728 < n then n + 8192 else n + 4096) c)"
proof -
  let ?p = "if gap \<and> 1073737728 < n then n + 8192 else n + 4096"
  note n' = n [unfolded length_logical_content [OF ok]]
  show ok': "physical_ok gap (take ?p c)"
    using ok n' by (cases gap) (auto simp: physical_ok_def)
  show "logical_content gap (take ?p c) = take n (logical_content gap c)"
  proof (rule nth_equalityI)
    show len: "length (logical_content gap (take ?p c)) = length (take n (logical_content gap c))"
      unfolding length_logical_content [OF ok'] length_take length_logical_content [OF ok]
      using ok n' by (cases gap) (auto simp: physical_ok_def)
    fix i assume i: "i < length (logical_content gap (take ?p c))"
    then have "i < n" "i < length (logical_content gap c)" unfolding len by auto
    moreover from this have "physical_index gap i < ?p"
      by (cases gap) (auto simp: physical_index_def)
    ultimately show "logical_content gap (take ?p c) ! i = take n (logical_content gap c) ! i"
      by (simp add: nth_logical_content [OF ok' i] nth_logical_content [OF ok])
  qed
qed

section \<open>The offset VFS as a byte file\<close>

text \<open>
  The method table \<^verbatim>\<open>offset_io_methods\<close>. The contract below requires that no fault is armed,
  so that the operations return.
\<close>

definition offset_io_methods :: "'f io_methods \<Rightarrow> 'f offset_file io_methods" where
  "offset_io_methods m =
     \<lparr>xClose = (\<lambda>f. the (offset_close m f)),
      xRead = offset_read m,
      xWrite = (\<lambda>f b n off. the (offset_write m f b n off)),
      xTruncate = (\<lambda>f sz. the (offset_truncate m f sz)),
      xSync = (\<lambda>f flags. the (offset_sync m f flags)),
      xFileSize = (\<lambda>f. let (rc, sz, f) = offset_file_size m f
                       in (rc, case sz of None \<Rightarrow> 0 | Some n \<Rightarrow> n, f)),
      xLock = offset_lock m,
      xUnlock = offset_unlock m,
      xCheckReservedLock = offset_check_reserved_lock m,
      xFileControl = offset_file_control m,
      xSectorSize = Some (offset_sector_size m),
      xDeviceCharacteristics = offset_device_characteristics m\<rparr>"

definition offset_content :: "('f \<Rightarrow> bytes) \<Rightarrow> 'f offset_file \<Rightarrow> bytes" where
  "offset_content content s = logical_content (format_uses_lock_gap s) (content (inner_file s))"

definition offset_invar :: "('f \<Rightarrow> bytes) \<Rightarrow> ('f \<Rightarrow> bool) \<Rightarrow> 'f offset_file \<Rightarrow> bool" where
  "offset_invar content invar s \<longleftrightarrow>
     shifts_offsets s \<and> injected_fault s = no_fault \<and> invar (inner_file s) \<and>
     physical_ok (format_uses_lock_gap s) (content (inner_file s))"

lemma offset_content_inner [simp]:
  "offset_content content (s\<lparr>inner_file := g\<rparr>) =
     logical_content (format_uses_lock_gap s) (content g)"
  by (simp add: offset_content_def)

lemma offset_invar_inner [simp]:
  "offset_invar content invar (s\<lparr>inner_file := g\<rparr>) \<longleftrightarrow>
     shifts_offsets s \<and> injected_fault s = no_fault \<and> invar g \<and>
     physical_ok (format_uses_lock_gap s) (content g)"
  by (simp add: offset_invar_def)

lemma to_physical_index:
  "logical_offset_to_physical s off = Some p \<Longrightarrow>
    0 \<le> off \<and> p = int (physical_index (format_uses_lock_gap s) (nat off))"
  by (auto simp: logical_offset_to_physical_Some physical_index_def)

lemma lock_gap_offset:
  "format_uses_lock_gap s \<Longrightarrow> logical_offset_to_physical s 1073737728 = Some 1073745920"
  by (simp add: logical_offset_to_physical_Some limit_simps)

text \<open>
  The two ways a read or a write of the payload succeeds: one contiguous access, or, across
  the lock page, one access on each side of it.
\<close>

lemma write_shifted_cases:
  assumes "write_shifted m s (Some b) n off = (SQLITE_OK, s')"
  obtains (once) p g where
      "0 \<le> n" "0 \<le> off" "contiguous (format_uses_lock_gap s) (nat off) (nat n)"
      "p = int (physical_index (format_uses_lock_gap s) (nat off))"
      "xWrite m (inner_file s) (Some b) n p = (SQLITE_OK, g)" "s' = s\<lparr>inner_file := g\<rparr>"
  | (split) k g1 g2 where
      "format_uses_lock_gap s" "0 \<le> off" "k = 1073737728 - off" "0 < k" "k < n"
      "xWrite m (inner_file s) (Some b) k (off + 4096) = (SQLITE_OK, g1)"
      "xWrite m g1 (Some (drop (nat k) b)) (n - k) 1073745920 = (SQLITE_OK, g2)"
      "s' = s\<lparr>inner_file := g2\<rparr>"
proof -
  from assms obtain e p where e: "logical_range_end off n = Some e"
    and legacy: "\<not> (\<not> format_uses_lock_gap s \<and> e > 1073737728)"
    and p: "logical_offset_to_physical s off = Some p"
    by (auto simp: write_shifted_def split: option.splits if_splits)
  note n = e [unfolded logical_range_end_Some] and idx = to_physical_index [OF p]
  show thesis
  proof (cases "\<not> format_uses_lock_gap s \<or> off \<ge> 1073737728 \<or> e \<le> 1073737728")
    case True
    with assms e p legacy obtain g where
      "xWrite m (inner_file s) (Some b) n p = (SQLITE_OK, g)" "s' = s\<lparr>inner_file := g\<rparr>"
      by (auto simp: write_shifted_def split: prod.splits)
    moreover have "contiguous (format_uses_lock_gap s) (nat off) (nat n)"
      using True legacy n by (auto simp: contiguous_def)
    ultimately show thesis using once n idx by blast
  next
    case False
    with assms e p legacy obtain g1 g2 where
      "xWrite m (inner_file s) (Some b) (1073737728 - off) p = (SQLITE_OK, g1)"
      "xWrite m g1 (Some (drop (nat (1073737728 - off)) b)) (n - (1073737728 - off)) 1073745920 =
         (SQLITE_OK, g2)"
      "s' = s\<lparr>inner_file := g2\<rparr>"
      by (auto simp: write_shifted_def Let_def lock_gap_offset split: prod.splits if_splits)
    moreover have "p = off + 4096"
      using False p by (auto simp: logical_offset_to_physical_Some)
    ultimately show thesis using split [of "1073737728 - off"] False n by auto
  qed
qed

lemma read_shifted_cases:
  assumes "read_shifted m s (Some b) n off = (SQLITE_OK, b', s')"
  obtains (once) p g where
      "0 \<le> n" "0 \<le> off" "contiguous (format_uses_lock_gap s) (nat off) (nat n)"
      "p = int (physical_index (format_uses_lock_gap s) (nat off))"
      "xRead m (inner_file s) (Some b) n p = (SQLITE_OK, b', g)" "s' = s\<lparr>inner_file := g\<rparr>"
  | (split) k b1 g1 b2 g2 where
      "format_uses_lock_gap s" "0 \<le> off" "k = 1073737728 - off" "0 < k" "k < n"
      "xRead m (inner_file s) (Some b) k (off + 4096) = (SQLITE_OK, b1, g1)"
      "xRead m g1 (map_option (drop (nat k)) b1) (n - k) 1073745920 = (SQLITE_OK, b2, g2)"
      "b' = splice_buffer (nat k) b1 b2" "s' = s\<lparr>inner_file := g2\<rparr>"
proof -
  from assms obtain e p where e: "logical_range_end off n = Some e"
    and legacy: "\<not> (\<not> format_uses_lock_gap s \<and> e > 1073737728)"
    and p: "logical_offset_to_physical s off = Some p"
    by (auto simp: read_shifted_def split: option.splits if_splits)
  note n = e [unfolded logical_range_end_Some] and idx = to_physical_index [OF p]
  show thesis
  proof (cases "\<not> format_uses_lock_gap s \<or> off \<ge> 1073737728 \<or> e \<le> 1073737728")
    case True
    with assms e p legacy obtain g where
      "xRead m (inner_file s) (Some b) n p = (SQLITE_OK, b', g)" "s' = s\<lparr>inner_file := g\<rparr>"
      by (auto simp: read_shifted_def split: prod.splits)
    moreover have "contiguous (format_uses_lock_gap s) (nat off) (nat n)"
      using True legacy n by (auto simp: contiguous_def)
    ultimately show thesis using once n idx by blast
  next
    case False
    with assms e p legacy obtain b1 g1 b2 g2 where
      "xRead m (inner_file s) (Some b) (1073737728 - off) p = (SQLITE_OK, b1, g1)"
      "xRead m g1 (map_option (drop (nat (1073737728 - off))) b1) (n - (1073737728 - off))
         1073745920 = (SQLITE_OK, b2, g2)"
      "b' = splice_buffer (nat (1073737728 - off)) b1 b2" "s' = s\<lparr>inner_file := g2\<rparr>"
      by (auto simp: read_shifted_def Let_def lock_gap_offset split: prod.splits if_splits)
    moreover have "p = off + 4096"
      using False p by (auto simp: logical_offset_to_physical_Some)
    ultimately show thesis using split [of "1073737728 - off"] False n by auto
  qed
qed

context byte_file
begin

lemma write_shifted_content:
  assumes inv: "invar (inner_file s)"
    and ok: "physical_ok (format_uses_lock_gap s) (content (inner_file s))"
    and w: "write_shifted m s (Some b) n off = (SQLITE_OK, s')" and n: "n \<le> int (length b)"
  shows "offset_content content s' = write_at (offset_content content s) (nat off) (take (nat n) b)"
    and "physical_ok (format_uses_lock_gap s) (content (inner_file s'))"
    and "invar (inner_file s')" and "s' = s\<lparr>inner_file := inner_file s'\<rparr>"
proof -
  let ?gap = "format_uses_lock_gap s"
  from w have "offset_content content s' = write_at (offset_content content s) (nat off) (take (nat n) b) \<and>
    physical_ok ?gap (content (inner_file s')) \<and> invar (inner_file s') \<and>
    s' = s\<lparr>inner_file := inner_file s'\<rparr>"
  proof (cases rule: write_shifted_cases)
    case (once p g)
    from write_ok [OF inv once(5)] once n
    have c: "content g = write_at (content (inner_file s)) (physical_index ?gap (nat off))
        (take (nat n) b)" and "invar g" by auto
    moreover have cont: "contiguous ?gap (nat off) (length (take (nat n) b))"
    proof -
      have "length (take (nat n) b) = nat n" using n by simp
      with once show ?thesis by simp
    qed
    ultimately show ?thesis
      using logical_content_write [OF ok cont] physical_ok_write [OF ok cont] once(6)
      by (simp add: offset_content_def)
  next
    case (split k g1 g2)
    let ?d1 = "take (nat k) b" and ?d2 = "take (nat (n - k)) (drop (nat k) b)"
    let ?o = "nat off"
    from write_ok [OF inv split(6)] split n
    have c1: "content g1 = write_at (content (inner_file s)) (?o + 4096) ?d1" and i1: "invar g1"
      by (auto simp: nat_add_distrib)
    from write_ok [OF i1 split(7)] split n
    have c2: "content g2 = write_at (content g1) 1073745920 ?d2" and i2: "invar g2" by auto
    have len1: "length ?d1 = nat k" using split n by simp
    have cont1: "contiguous ?gap ?o (length ?d1)" and idx1: "physical_index ?gap ?o = ?o + 4096"
      using split len1 by (auto simp: contiguous_def physical_index_def)
    have cont2: "contiguous ?gap 1073737728 (length ?d2)"
      and idx2: "physical_index ?gap 1073737728 = 1073745920"
      using split by (auto simp: contiguous_def physical_index_def)
    note ok1 = physical_ok_write [OF ok cont1, unfolded idx1, folded c1]
    have "logical_content ?gap (content g2) =
        write_at (write_at (logical_content ?gap (content (inner_file s))) ?o ?d1) 1073737728 ?d2"
      using logical_content_write [OF ok1 cont2] logical_content_write [OF ok cont1]
      by (simp add: c2 c1 idx1 idx2)
    moreover have "1073737728 = ?o + length ?d1" using split len1 by simp
    moreover have "?d1 @ ?d2 = take (nat n) b"
      using split by (simp flip: take_add add: nat_add_distrib [symmetric])
    ultimately have "logical_content ?gap (content g2) =
        write_at (logical_content ?gap (content (inner_file s))) ?o (take (nat n) b)"
      using write_at_append [of "logical_content ?gap (content (inner_file s))" ?o ?d1 ?d2] by simp
    then show ?thesis
      using physical_ok_write [OF ok1 cont2] split(8) i2
      by (simp add: offset_content_def c2 idx2)
  qed
  then show "offset_content content s' = write_at (offset_content content s) (nat off) (take (nat n) b)"
    "physical_ok ?gap (content (inner_file s'))" "invar (inner_file s')"
    "s' = s\<lparr>inner_file := inner_file s'\<rparr>" by blast+
qed

lemma read_shifted_content:
  assumes inv: "invar (inner_file s)"
    and ok: "physical_ok (format_uses_lock_gap s) (content (inner_file s))"
    and r: "read_shifted m s (Some b) n off = (SQLITE_OK, b', s')" and n: "n \<le> int (length b)"
  shows "(n = 0 \<or> nat off + nat n \<le> length (offset_content content s)) \<and>
    b' = Some (take (nat n) (drop (nat off) (offset_content content s)) @ drop (nat n) b) \<and>
    content (inner_file s') = content (inner_file s) \<and> invar (inner_file s') \<and>
    s' = s\<lparr>inner_file := inner_file s'\<rparr>"
proof -
  let ?gap = "format_uses_lock_gap s" and ?c = "content (inner_file s)"
  from r show ?thesis
  proof (cases rule: read_shifted_cases)
    case (once p g)
    from read_ok [OF inv once(5)] once n
    have r: "n = 0 \<or> physical_index ?gap (nat off) + nat n \<le> length ?c"
      "b' = Some (take (nat n) (drop (physical_index ?gap (nat off)) ?c) @ drop (nat n) b)"
      "content g = ?c" "invar g" by auto
    show ?thesis
    proof (cases "n = 0")
      case False
      with r have bound: "physical_index ?gap (nat off) + nat n \<le> length ?c" by simp
      have "physical_index ?gap (nat off + nat n - 1) < length ?c"
        using bound False physical_index_run(1) [OF once(3), of "nat off + nat n - 1"] once(1)
        by auto
      then have "nat off + nat n - 1 < length (logical_content ?gap ?c)"
        using physical_index_less_iff [OF ok] by simp
      with False once r logical_content_read [OF ok once(3) bound]
      show ?thesis by (auto simp: offset_content_def)
    qed (use r once in auto)
  next
    case (split k b1 g1 b2 g2)
    let ?o = "nat off"
    from read_ok [OF inv split(6)] split n
    have r1: "?o + 4096 + nat k \<le> length ?c"
      "b1 = Some (take (nat k) (drop (?o + 4096) ?c) @ drop (nat k) b)"
      "content g1 = ?c" "invar g1" by (auto simp: nat_add_distrib)
    have b1: "map_option (drop (nat k)) b1 = Some (drop (nat k) b)"
      using r1 by simp
    from read_ok [OF r1(4) split(7) [unfolded b1]] split n
    have r2: "1073745920 + nat (n - k) \<le> length ?c"
      "b2 = Some (take (nat (n - k)) (drop 1073745920 ?c) @ drop (nat (n - k)) (drop (nat k) b))"
      "content g2 = ?c" "invar g2" by (auto simp: r1)
    have cont: "contiguous ?gap ?o (nat k)" "contiguous ?gap 1073737728 (nat (n - k))"
      and idx: "physical_index ?gap ?o = ?o + 4096" "physical_index ?gap 1073737728 = 1073745920"
      using split by (auto simp: contiguous_def physical_index_def)
    have nk: "nat n = nat k + nat (n - k)" using split by simp
    have edge: "?o + nat k = 1073737728" using split by simp
    have "1073741824 < length ?c" using r2(1) by linarith
    then have "length (logical_content ?gap ?c) = length ?c - 8192"
      unfolding length_logical_content [OF ok] using split(1) by simp
    then have "?o + nat n \<le> length (logical_content ?gap ?c)"
      using r2(1) nk edge by linarith
    moreover have "take (nat n) (drop ?o (logical_content ?gap ?c)) =
        take (nat k) (drop (?o + 4096) ?c) @ take (nat (n - k)) (drop 1073745920 ?c)"
    proof -
      have "drop (nat k) (drop ?o (logical_content ?gap ?c)) = drop 1073737728 (logical_content ?gap ?c)"
        using edge by (simp add: add.commute)
      then show ?thesis
        using logical_content_read [OF ok cont(1)] logical_content_read [OF ok cont(2)] r1(1) r2(1)
        by (simp add: nk take_add idx)
    qed
    moreover have "b' = Some (take (nat k) (drop (?o + 4096) ?c) @
        take (nat (n - k)) (drop 1073745920 ?c) @ drop (nat n) b)"
      using split(8) r1(1) nk by (simp add: splice_buffer_def r1(2) r2(2) add.commute)
    ultimately show ?thesis
      using r2 split(9) by (auto simp: offset_content_def)
  qed
qed

lemma offset_truncate_content:
  assumes inv: "offset_invar content invar s"
    and t: "offset_truncate m s sz = Some (SQLITE_OK, s')"
    and sz: "0 \<le> sz" "sz \<le> int (length (offset_content content s))"
  shows "offset_content content s' = take (nat sz) (offset_content content s) \<and>
         offset_invar content invar s'"
proof -
  let ?gap = "format_uses_lock_gap s" and ?c = "content (inner_file s)"
  from inv have ok: "physical_ok ?gap ?c" and i: "invar (inner_file s)" and sh: "shifts_offsets s"
    and nf: "injected_fault s = no_fault" by (auto simp: offset_invar_def)
  let ?p = "if ?gap \<and> 1073737728 < nat sz then nat sz + 8192 else nat sz + 4096"
  from t sh nf obtain p g where p: "logical_size_to_physical s sz = Some p"
    and g: "xTruncate m (inner_file s) p = (SQLITE_OK, g)" and s': "s' = s\<lparr>inner_file := g\<rparr>"
    by (auto simp: offset_truncate_def inject_fault_none split: option.splits if_splits prod.splits)
  have n: "nat sz \<le> length (logical_content ?gap ?c)" using sz by (simp add: offset_content_def)
  have pp: "p = int ?p" using p sz by (auto simp: logical_size_to_physical_Some)
  have "?p \<le> length ?c"
    using n ok by (cases ?gap) (auto simp: length_logical_content physical_ok_def split: if_splits)
  with truncate_ok [OF i g] have "content g = take ?p ?c" "invar g" by (auto simp: pp)
  with logical_content_take [OF ok n] sh nf show ?thesis
    by (simp add: s' offset_content_def offset_invar_def)
qed

lemma offset_file_size_content:
  assumes inv: "offset_invar content invar s"
    and t: "offset_file_size m s = (SQLITE_OK, sz, s')"
  shows "sz = Some (int (length (offset_content content s))) \<and>
         offset_content content s' = offset_content content s \<and> offset_invar content invar s'"
proof -
  let ?gap = "format_uses_lock_gap s" and ?c = "content (inner_file s)"
  from inv have ok: "physical_ok ?gap ?c" and i: "invar (inner_file s)" and sh: "shifts_offsets s"
    by (auto simp: offset_invar_def)
  from t sh obtain p g n where g: "xFileSize m (inner_file s) = (SQLITE_OK, p, g)"
    and s': "s' = s\<lparr>inner_file := g\<rparr>" and n: "logical_size_from_physical s' p = Some n" "sz = Some n"
    by (auto simp: offset_file_size_def Let_def split: option.splits if_splits prod.splits)
  from size_ok [OF i g] have c: "p = int (length ?c)" "content g = ?c" "invar g" by auto
  have "n = int (length (logical_content ?gap ?c))"
    using n c ok
    by (cases ?gap)
      (auto simp: s' length_logical_content physical_ok_def logical_size_from_physical_def
        split: if_splits)
  with c n inv show ?thesis by (simp add: s' offset_content_def offset_invar_def)
qed

theorem offset_byte_file:
  "byte_file (offset_io_methods m) (offset_content content) (offset_invar content invar)"
proof
  fix f b n off b' f'
  assume inv: "offset_invar content invar f"
    and r: "xRead (offset_io_methods m) f (Some b) n off = (SQLITE_OK, b', f')"
    and n: "n \<le> int (length b)"
  from inv r have "read_shifted m f (Some b) n off = (SQLITE_OK, b', f')"
    by (simp add: offset_io_methods_def offset_read_def offset_invar_def)
  from read_shifted_content [OF _ _ this n] inv
  have "(n = 0 \<or> nat off + nat n \<le> length (offset_content content f)) \<and>
    b' = Some (take (nat n) (drop (nat off) (offset_content content f)) @ drop (nat n) b) \<and>
    content (inner_file f') = content (inner_file f) \<and> invar (inner_file f') \<and>
    f' = f\<lparr>inner_file := inner_file f'\<rparr>"
    by (simp add: offset_invar_def)
  moreover from this obtain g where "f' = f\<lparr>inner_file := g\<rparr>" by blast
  ultimately show "(n = 0 \<or> nat off + nat n \<le> length (offset_content content f)) \<and>
    b' = Some (take (nat n) (drop (nat off) (offset_content content f)) @ drop (nat n) b) \<and>
    offset_content content f' = offset_content content f \<and> offset_invar content invar f'"
    using inv by (simp add: offset_invar_def offset_content_def)
next
  fix f b n off f'
  assume inv: "offset_invar content invar f"
    and w: "xWrite (offset_io_methods m) f (Some b) n off = (SQLITE_OK, f')"
    and n: "n \<le> int (length b)"
  from inv w have "write_shifted m f (Some b) n off = (SQLITE_OK, f')"
    by (simp add: offset_io_methods_def offset_write_def offset_invar_def inject_fault_none)
  note r = write_shifted_content [OF _ _ this n]
  from r(4) inv obtain g where "f' = f\<lparr>inner_file := g\<rparr>" by (auto simp: offset_invar_def)
  with r(1-3) inv show "offset_content content f' = write_at (offset_content content f) (nat off) (take (nat n) b) \<and>
    offset_invar content invar f'"
    by (simp add: offset_invar_def)
next
  fix f sz f'
  assume inv: "offset_invar content invar f"
    and t: "xTruncate (offset_io_methods m) f sz = (SQLITE_OK, f')"
    and sz: "0 \<le> sz" "sz \<le> int (length (offset_content content f))"
  have "offset_truncate m f sz \<noteq> None"
    using inv by (auto simp: offset_invar_def offset_truncate_def inject_fault_none
        split: option.splits prod.splits)
  with t have "offset_truncate m f sz = Some (SQLITE_OK, f')"
    by (auto simp: offset_io_methods_def)
  then show "offset_content content f' = take (nat sz) (offset_content content f) \<and>
    offset_invar content invar f'"
    using offset_truncate_content [OF inv _ sz] by simp
next
  fix f sz f'
  assume inv: "offset_invar content invar f"
    and t: "xFileSize (offset_io_methods m) f = (SQLITE_OK, sz, f')"
  then obtain sz' where "offset_file_size m f = (SQLITE_OK, sz', f')"
    "sz = (case sz' of None \<Rightarrow> 0 | Some n \<Rightarrow> n)"
    by (auto simp: offset_io_methods_def split: prod.splits)
  with offset_file_size_content [OF inv]
  show "sz = int (length (offset_content content f)) \<and>
    offset_content content f' = offset_content content f \<and> offset_invar content invar f'"
    by fastforce
next
  fix f flags f'
  assume inv: "offset_invar content invar f"
    and t: "xSync (offset_io_methods m) f flags = (SQLITE_OK, f')"
  then obtain g where "xSync m (inner_file f) flags = (SQLITE_OK, g)" "f' = f\<lparr>inner_file := g\<rparr>"
    by (auto simp: offset_io_methods_def offset_sync_def offset_invar_def inject_fault_none
        split: prod.splits)
  with inv show "offset_content content f' = offset_content content f \<and>
    offset_invar content invar f'"
    using sync_ok [of "inner_file f" flags g] by (simp add: offset_invar_def offset_content_def)
next
  fix f kind f'
  assume inv: "offset_invar content invar f"
    and t: "xLock (offset_io_methods m) f kind = (SQLITE_OK, f')"
  with lock_ok show "offset_content content f' = offset_content content f \<and>
    offset_invar content invar f'"
    by (auto simp: offset_io_methods_def offset_lock_def offset_invar_def offset_content_def
        split: prod.splits if_splits)
next
  fix f kind f'
  assume inv: "offset_invar content invar f"
    and t: "xUnlock (offset_io_methods m) f kind = (SQLITE_OK, f')"
  with unlock_ok show "offset_content content f' = offset_content content f \<and>
    offset_invar content invar f'"
    by (auto simp: offset_io_methods_def offset_unlock_def offset_invar_def offset_content_def
        split: prod.splits if_splits)
qed

end

end
