(* ===== verification/Framed_File.thy ===== *)
theory Framed_File
  imports Byte_File
begin

text \<open>
  What the offset VFS keeps of a file whatever happens, errors and short writes included: the
  preamble in front of the payload and the lifecycle state in it.
\<close>

section \<open>What survives a failing call\<close>

text \<open>
  A base VFS call that fails may have done part of its work. It changes at most the bytes it
  was asked to change: a write the bytes of its range, a truncation the bytes past the new
  end; a file control may preallocate space at the end.
\<close>

definition byte_at :: "bytes \<Rightarrow> nat \<Rightarrow> byte" where
  "byte_at c i = (if i < length c then c ! i else 0)"

locale framed_file = byte_file +
  assumes read_frame: "xRead m f b n off = (rc, b', f') \<Longrightarrow> content f' = content f"
    and write_frame:
    "xWrite m f b n off = (rc, f') \<Longrightarrow> 0 \<le> n \<Longrightarrow> 0 \<le> off \<Longrightarrow>
     length (content f) \<le> length (content f') \<and>
     (\<forall>i. i < nat off \<or> nat off + nat n \<le> i \<longrightarrow> byte_at (content f') i = byte_at (content f) i)"
    and truncate_frame:
    "xTruncate m f sz = (rc, f') \<Longrightarrow> 0 \<le> sz \<Longrightarrow>
     min (nat sz) (length (content f)) \<le> length (content f') \<and>
     (\<forall>i < length (content f'). content f' ! i = byte_at (content f) i)"
    and size_frame: "xFileSize m f = (rc, sz, f') \<Longrightarrow> content f' = content f"
    and sync_frame: "xSync m f flags = (rc, f') \<Longrightarrow> content f' = content f"
    and lock_frame: "xLock m f kind = (rc, f') \<Longrightarrow> content f' = content f"
    and unlock_frame: "xUnlock m f kind = (rc, f') \<Longrightarrow> content f' = content f"
    and reserved_frame: "xCheckReservedLock m f = (rc, r, f') \<Longrightarrow> content f' = content f"
    and control_frame:
    "xFileControl m f op arg = (rc, arg', f') \<Longrightarrow>
     length (content f) \<le> length (content f') \<and>
     (\<forall>i. byte_at (content f') i = byte_at (content f) i)"

section \<open>Operations on an open file\<close>

text \<open>The operations SQLite can perform on an open database file, and sequences of them.\<close>

datatype io_op =
    IoRead "bytes option" int int
  | IoWrite "bytes option" int int
  | IoTruncate int
  | IoSync int
  | IoFileSize
  | IoLock int
  | IoUnlock int
  | IoCheckReservedLock
  | IoFileControl int "int option"

fun io_step :: "'f io_methods \<Rightarrow> 'f offset_file \<Rightarrow> io_op \<Rightarrow> 'f offset_file option" where
  "io_step m s (IoRead b n off) = Some (snd (snd (offset_read m s b n off)))"
| "io_step m s (IoWrite b n off) = map_option snd (offset_write m s b n off)"
| "io_step m s (IoTruncate sz) = map_option snd (offset_truncate m s sz)"
| "io_step m s (IoSync flags) = map_option snd (offset_sync m s flags)"
| "io_step m s IoFileSize = Some (snd (snd (offset_file_size m s)))"
| "io_step m s (IoLock k) = Some (snd (offset_lock m s k))"
| "io_step m s (IoUnlock k) = Some (snd (offset_unlock m s k))"
| "io_step m s IoCheckReservedLock = Some (snd (snd (offset_check_reserved_lock m s)))"
| "io_step m s (IoFileControl op arg) = Some (snd (snd (offset_file_control m s op arg)))"

fun io_run :: "'f io_methods \<Rightarrow> 'f offset_file \<Rightarrow> io_op list \<Rightarrow> 'f offset_file option" where
  "io_run m s [] = Some s"
| "io_run m s (op # ops) = (case io_step m s op of None \<Rightarrow> None | Some s' \<Rightarrow> io_run m s' ops)"

text \<open>
  What an operation of the offset VFS does to the wrapped file, as calls of the base VFS: none
  of them writes or cuts below the payload offset.
\<close>

inductive payload_step :: "'f io_methods \<Rightarrow> 'f \<Rightarrow> 'f \<Rightarrow> bool" for m where
  ps_read: "xRead m f b n off = (rc, b', f') \<Longrightarrow> payload_step m f f'"
| ps_write: "xWrite m f b n off = (rc, f') \<Longrightarrow> 0 \<le> n \<Longrightarrow> 4096 \<le> off \<Longrightarrow> payload_step m f f'"
| ps_truncate: "xTruncate m f sz = (rc, f') \<Longrightarrow> 4096 \<le> sz \<Longrightarrow> payload_step m f f'"
| ps_size: "xFileSize m f = (rc, sz, f') \<Longrightarrow> payload_step m f f'"
| ps_sync: "xSync m f flags = (rc, f') \<Longrightarrow> payload_step m f f'"
| ps_lock: "xLock m f kind = (rc, f') \<Longrightarrow> payload_step m f f'"
| ps_unlock: "xUnlock m f kind = (rc, f') \<Longrightarrow> payload_step m f f'"
| ps_reserved: "xCheckReservedLock m f = (rc, r, f') \<Longrightarrow> payload_step m f f'"
| ps_control: "xFileControl m f op arg = (rc, arg', f') \<Longrightarrow> payload_step m f f'"

abbreviation payload_steps :: "'f io_methods \<Rightarrow> 'f \<Rightarrow> 'f \<Rightarrow> bool" where
  "payload_steps m \<equiv> (payload_step m)\<^sup>*\<^sup>*"

text \<open>A handle that differs from another at most in the wrapped file and the fault bookkeeping.\<close>

definition same_handle :: "'f offset_file \<Rightarrow> 'f offset_file \<Rightarrow> bool" where
  "same_handle s t \<longleftrightarrow>
     t = s\<lparr>inner_file := inner_file t, injected_fault := injected_fault t\<rparr>"

lemma same_handle_refl [simp]: "same_handle s s"
  by (simp add: same_handle_def)

lemma same_handle_trans: "same_handle s t \<Longrightarrow> same_handle t u \<Longrightarrow> same_handle s u"
  by (cases s; cases t; cases u) (simp add: same_handle_def)

lemma same_handle_inner [simp]: "same_handle s (t\<lparr>inner_file := g\<rparr>) = same_handle s t"
  by (cases s; cases t) (simp add: same_handle_def)

lemma same_handle_fault [simp]: "same_handle s (t\<lparr>injected_fault := x\<rparr>) = same_handle s t"
  by (cases s; cases t) (simp add: same_handle_def)

lemma inject_fault_same:
  "inject_fault op s = Some (fail, t) \<Longrightarrow> same_handle s t \<and> inner_file t = inner_file s"
  using inject_fault_frame [of op s fail t] by auto

lemma same_handle_shifts: "same_handle s t \<Longrightarrow> shifts_offsets t = shifts_offsets s"
  by (cases s; cases t) (simp add: same_handle_def)

lemma same_handle_gap: "same_handle s t \<Longrightarrow> format_uses_lock_gap t = format_uses_lock_gap s"
  by (cases s; cases t) (simp add: same_handle_def format_uses_lock_gap_def)

lemma read_shifted_steps:
  "read_shifted m s b n off = (rc, b', s') \<Longrightarrow>
    payload_steps m (inner_file s) (inner_file s') \<and> same_handle s s'"
  by (auto simp: read_shifted_def Let_def split: option.splits if_splits prod.splits
      dest!: ps_read intro: rtranclp_trans [OF r_into_rtranclp r_into_rtranclp])

lemma write_shifted_steps:
  "write_shifted m s b n off = (rc, s') \<Longrightarrow>
    payload_steps m (inner_file s) (inner_file s') \<and> same_handle s s'"
  by (auto simp: write_shifted_def Let_def logical_range_end_Some logical_offset_to_physical_Some
      split: option.splits if_splits prod.splits
      dest!: ps_write intro: rtranclp_trans [OF r_into_rtranclp r_into_rtranclp])

lemma offset_write_steps:
  assumes "offset_write m s b n off = Some (rc, s')" "shifts_offsets s"
  shows "payload_steps m (inner_file s) (inner_file s') \<and> same_handle s s'"
proof -
  from assms(1) obtain fail t where t: "inject_fault MYLITE_STORAGE_VFS_FAULT_WRITE s = Some (fail, t)"
    by (cases "inject_fault MYLITE_STORAGE_VFS_FAULT_WRITE s") (auto simp: offset_write_def)
  from inject_fault_same [OF t] have st: "same_handle s t" "inner_file t = inner_file s" by auto
  show ?thesis
  proof (cases fail)
    case True
    with assms t st show ?thesis by (simp add: offset_write_def)
  next
    case False
    with assms t st have "write_shifted m t b n off = (rc, s')"
      by (simp add: offset_write_def same_handle_shifts)
    from write_shifted_steps [OF this] st show ?thesis by (auto intro: same_handle_trans)
  qed
qed

lemma offset_truncate_steps:
  assumes "offset_truncate m s sz = Some (rc, s')" "shifts_offsets s"
  shows "payload_steps m (inner_file s) (inner_file s') \<and> same_handle s s'"
proof -
  from assms(1) obtain fail t where t: "inject_fault MYLITE_STORAGE_VFS_FAULT_TRUNCATE s = Some (fail, t)"
    by (cases "inject_fault MYLITE_STORAGE_VFS_FAULT_TRUNCATE s") (auto simp: offset_truncate_def)
  from inject_fault_same [OF t] assms(2)
  have st: "same_handle s t" "inner_file t = inner_file s" "shifts_offsets t"
    by (auto simp: same_handle_shifts)
  with assms t show ?thesis
    by (auto simp: offset_truncate_def logical_size_to_physical_Some
        split: if_splits option.splits prod.splits dest!: ps_truncate)
qed

lemma offset_sync_steps:
  assumes "offset_sync m s flags = Some (rc, s')"
  shows "payload_steps m (inner_file s) (inner_file s') \<and> same_handle s s'"
proof -
  from assms(1) obtain fail t where t: "inject_fault MYLITE_STORAGE_VFS_FAULT_SYNC s = Some (fail, t)"
    by (cases "inject_fault MYLITE_STORAGE_VFS_FAULT_SYNC s") (auto simp: offset_sync_def)
  with inject_fault_same [OF t] assms show ?thesis
    by (auto simp: offset_sync_def split: if_splits prod.splits dest!: ps_sync)
qed

lemma offset_file_control_steps:
  "offset_file_control m s op arg = (rc, r, s') \<Longrightarrow>
    payload_steps m (inner_file s) (inner_file s') \<and> same_handle s s'"
  by (auto simp: offset_file_control_def translate_size_file_control_def Let_def
      split: if_splits prod.splits option.splits dest!: ps_control)

lemma io_step_payload:
  assumes "io_step m s op = Some s'" "shifts_offsets s"
  shows "payload_steps m (inner_file s) (inner_file s') \<and> same_handle s s'"
proof (cases op)
  case (IoRead b n off)
  with assms read_shifted_steps [of m s b n off] show ?thesis
    by (cases "read_shifted m s b n off") (auto simp: offset_read_def)
next
  case IoFileSize
  with assms show ?thesis
    by (auto simp: offset_file_size_def Let_def split: prod.splits option.splits if_splits
        dest!: ps_size)
next
  case (IoLock k)
  with assms show ?thesis
    by (auto simp: offset_lock_def split: prod.splits if_splits dest!: ps_lock)
next
  case (IoUnlock k)
  with assms show ?thesis
    by (auto simp: offset_unlock_def split: prod.splits if_splits dest!: ps_unlock)
next
  case IoCheckReservedLock
  with assms show ?thesis
    by (auto simp: offset_check_reserved_lock_def split: prod.splits if_splits dest!: ps_reserved)
next
  case (IoFileControl cop arg)
  with assms offset_file_control_steps [of m s cop arg] show ?thesis
    by (cases "offset_file_control m s cop arg") auto
next
  case (IoWrite b n off)
  with assms show ?thesis by (auto dest!: offset_write_steps)
next
  case (IoTruncate sz)
  with assms show ?thesis by (auto dest!: offset_truncate_steps)
next
  case (IoSync flags)
  with assms show ?thesis by (auto dest!: offset_sync_steps)
qed

lemma io_run_payload:
  "io_run m s ops = Some s' \<Longrightarrow> shifts_offsets s \<Longrightarrow>
    payload_steps m (inner_file s) (inner_file s') \<and> same_handle s s'"
proof (induction ops arbitrary: s)
  case (Cons op ops)
  from Cons.prems(1) obtain t where t: "io_step m s op = Some t" "io_run m t ops = Some s'"
    by (auto split: option.splits)
  with io_step_payload [OF t(1) Cons.prems(2)] Cons.IH [OF t(2)] Cons.prems(2) show ?case
    by (auto simp: same_handle_shifts intro: rtranclp_trans same_handle_trans)
qed simp

section \<open>The preamble\<close>

text \<open>The first 4096 bytes are there and equal.\<close>

definition same_preamble :: "bytes \<Rightarrow> bytes \<Rightarrow> bool" where
  "same_preamble c c' \<longleftrightarrow> 4096 \<le> length c \<longrightarrow> 4096 \<le> length c' \<and> take 4096 c' = take 4096 c"

lemma same_preamble_refl [simp]: "same_preamble c c"
  by (simp add: same_preamble_def)

lemma same_preamble_trans: "same_preamble a b \<Longrightarrow> same_preamble b c \<Longrightarrow> same_preamble a c"
  by (simp add: same_preamble_def)

lemma same_preambleI:
  assumes "4096 \<le> length c \<Longrightarrow> 4096 \<le> length c'"
    and "\<And>i. i < 4096 \<Longrightarrow> 4096 \<le> length c \<Longrightarrow> byte_at c' i = byte_at c i"
  shows "same_preamble c c'"
  unfolding same_preamble_def
proof
  assume len: "4096 \<le> length c"
  with assms(1) have len': "4096 \<le> length c'" .
  have "c' ! i = c ! i" if "i < 4096" for i
    using assms(2) [OF that len] that len len' by (simp add: byte_at_def)
  with len len' show "4096 \<le> length c' \<and> take 4096 c' = take 4096 c"
    by (auto intro!: nth_eq_take_eq)
qed

context framed_file
begin

lemma payload_step_preamble:
  "payload_step m f f' \<Longrightarrow> same_preamble (content f) (content f')"
proof (induction rule: payload_step.cases)
  case (ps_write f b n off rc f')
  with write_frame [OF ps_write(3)] show ?case by (intro same_preambleI) auto
next
  case (ps_truncate f sz rc f')
  with truncate_frame [OF ps_truncate(3)] show ?case
    by (intro same_preambleI) (auto simp: byte_at_def)
next
  case (ps_control f op arg rc arg' f')
  with control_frame [OF ps_control(3)] show ?case by (intro same_preambleI) auto
qed (auto dest: read_frame size_frame sync_frame lock_frame unlock_frame reserved_frame)

lemma payload_steps_preamble:
  "payload_steps m f f' \<Longrightarrow> same_preamble (content f) (content f')"
  by (induction rule: rtranclp_induct) (auto intro: same_preamble_trans payload_step_preamble)

text \<open>A byte of the preamble can only be lost to zero, where the file was shorter.\<close>

lemma payload_step_byte:
  "payload_step m f f' \<Longrightarrow> i < 4096 \<Longrightarrow>
    byte_at (content f') i = byte_at (content f) i \<or> byte_at (content f') i = 0"
proof (induction rule: payload_step.cases)
  case (ps_write f b n off rc f')
  with write_frame [OF ps_write(3)] show ?case by auto
next
  case (ps_truncate f sz rc f')
  with truncate_frame [OF ps_truncate(3)] show ?case by (auto simp: byte_at_def)
next
  case (ps_control f op arg rc arg' f')
  with control_frame [OF ps_control(3)] show ?case by auto
qed (auto dest: read_frame size_frame sync_frame lock_frame unlock_frame reserved_frame)

lemma payload_steps_byte:
  "payload_steps m f f' \<Longrightarrow> i < 4096 \<Longrightarrow>
    byte_at (content f') i = byte_at (content f) i \<or> byte_at (content f') i = 0"
  by (induction rule: rtranclp_induct) (auto dest: payload_step_byte)

end

section \<open>A base file in memory\<close>

text \<open>
  A base VFS that satisfies the contract: the bytes of the file are its state, reads past the
  end are filled with zeros and reported as short, and locks are granted.
\<close>

definition mem_read ::
    "bytes \<Rightarrow> bytes option \<Rightarrow> int \<Rightarrow> int \<Rightarrow> int \<times> bytes option \<times> bytes" where
  "mem_read c buffer n off = (case buffer of
     None \<Rightarrow> (SQLITE_IOERR_READ, None, c)
   | Some b \<Rightarrow>
     if n < 0 \<or> off < 0 then (SQLITE_IOERR_READ, buffer, c)
     else (let d = take (nat n) (drop (nat off) c)
           in (if length d = nat n then SQLITE_OK else SQLITE_IOERR_SHORT_READ,
               Some (d @ replicate (nat n - length d) 0 @ drop (nat n) b), c)))"

definition mem_write :: "bytes \<Rightarrow> bytes option \<Rightarrow> int \<Rightarrow> int \<Rightarrow> int \<times> bytes" where
  "mem_write c buffer n off = (case buffer of
     None \<Rightarrow> (SQLITE_IOERR_WRITE, c)
   | Some b \<Rightarrow>
     if n < 0 \<or> off < 0 \<or> int (length b) < n then (SQLITE_IOERR_WRITE, c)
     else (SQLITE_OK, write_at c (nat off) (take (nat n) b)))"

definition mem_methods :: "bytes io_methods" where
  "mem_methods =
     \<lparr>xClose = (\<lambda>c. (SQLITE_OK, c)),
      xRead = mem_read,
      xWrite = mem_write,
      xTruncate = (\<lambda>c sz. if sz < 0 then (SQLITE_IOERR_TRUNCATE, c)
                          else (SQLITE_OK, take (nat sz) c)),
      xSync = (\<lambda>c flags. (SQLITE_OK, c)),
      xFileSize = (\<lambda>c. (SQLITE_OK, int (length c), c)),
      xLock = (\<lambda>c kind. (SQLITE_OK, c)),
      xUnlock = (\<lambda>c kind. (SQLITE_OK, c)),
      xCheckReservedLock = (\<lambda>c. (SQLITE_OK, 0, c)),
      xFileControl = (\<lambda>c op arg. (SQLITE_NOTFOUND, arg, c)),
      xSectorSize = None,
      xDeviceCharacteristics = (\<lambda>c. 0)\<rparr>"

lemma mem_methods_simps [simp]:
  "xRead mem_methods = mem_read"
  "xWrite mem_methods = mem_write"
  "xTruncate mem_methods c sz = (if sz < 0 then (SQLITE_IOERR_TRUNCATE, c)
     else (SQLITE_OK, take (nat sz) c))"
  "xSync mem_methods c flags = (SQLITE_OK, c)"
  "xFileSize mem_methods c = (SQLITE_OK, int (length c), c)"
  "xLock mem_methods c kind = (SQLITE_OK, c)"
  "xUnlock mem_methods c kind = (SQLITE_OK, c)"
  "xCheckReservedLock mem_methods c = (SQLITE_OK, 0, c)"
  "xFileControl mem_methods c op arg = (SQLITE_NOTFOUND, arg, c)"
  "xClose mem_methods c = (SQLITE_OK, c)"
  "xSectorSize mem_methods = None"
  by (simp_all add: mem_methods_def)

interpretation mem: framed_file mem_methods "\<lambda>c. c" "\<lambda>c. True"
proof
  fix f b n off b' f'
  assume "xRead mem_methods f (Some b) n off = (SQLITE_OK, b', f')" "0 \<le> n"
    "n \<le> int (length b)" "0 \<le> off"
  then show "(n = 0 \<or> nat off + nat n \<le> length f) \<and>
    b' = Some (take (nat n) (drop (nat off) f) @ drop (nat n) b) \<and> f' = f \<and> True"
    by (cases "n = 0") (auto simp: mem_read_def Let_def split: if_splits)
qed (auto simp: mem_read_def mem_write_def Let_def buffer_simps byte_at_def split: option.splits if_splits)

interpretation offset_mem: byte_file "offset_io_methods mem_methods"
    "offset_content (\<lambda>c. c)" "offset_invar (\<lambda>c. c) (\<lambda>c. True)"
  by (rule mem.offset_byte_file)

section \<open>Properties\<close>

text \<open>
  Property C2. The offset VFS implements the contract it relies on: whenever the wrapped file
  behaves as an array of bytes under read, write, truncate, size, sync and lock, so does the
  offset file, over the logical contents, which are the physical ones without the preamble and
  without the page of SQLite's lock byte. This holds at every offset, accesses that straddle
  the lock page included.
\<close>
theorem offset_vfs_refines_byte_file:
  assumes "byte_file m content invar"
  shows "byte_file (offset_io_methods m) (offset_content content) (offset_invar content invar)"
  using assms by (rule byte_file.offset_byte_file)

theorem offset_vfs_refines_byte_file_witness:
  "byte_file (offset_io_methods mem_methods) (offset_content (\<lambda>c. c))
     (offset_invar (\<lambda>c. c) (\<lambda>c. True))"
  by (rule offset_vfs_refines_byte_file [OF mem.byte_file_axioms])

text \<open>
  Property C15. No operation SQLite can perform on an open database file touches the preamble:
  after any sequence of reads, writes, truncations, syncs, size queries, locks and file
  controls, failed and injected-fault calls included, the first 4096 bytes of the physical file
  are what they were, and so is the lifecycle state they encode.
\<close>
theorem preamble_untouched_by_io:
  assumes "framed_file m content invar" "shifts_offsets s"
    and "4096 \<le> length (content (inner_file s))"
    and "io_run m s ops = Some s'"
  shows "take 4096 (content (inner_file s')) = take 4096 (content (inner_file s)) \<and>
         mylite_file_preamble_lifecycle_state (take 4096 (content (inner_file s'))) =
         mylite_file_preamble_lifecycle_state (take 4096 (content (inner_file s)))"
  using io_run_payload [OF assms(4,2)] framed_file.payload_steps_preamble [OF assms(1)] assms(3)
  by (metis same_preamble_def)

theorem preamble_untouched_by_io_witness:
  "take 4096 (inner_file (the (io_run mem_methods (example_handle (preamble_image 3 1))
      [IoWrite (Some [9]) 1 0, IoTruncate 0]))) = take 4096 (preamble_image 3 1)"
proof -
  have run: "io_run mem_methods (example_handle (preamble_image 3 1))
      [IoWrite (Some [9]) 1 0, IoTruncate 0] =
    Some (example_handle (take 4096 (write_at (preamble_image 3 1) 4096 [9])))"
    by (simp add: example_handle_def offset_write_def offset_truncate_def inject_fault_none
        no_fault_def inject_fault_def write_shifted_def mem_write_def logical_range_end_def
        logical_offset_to_physical_def logical_size_to_physical_def format_uses_lock_gap_def
        limit_simps)
  show ?thesis
    using preamble_untouched_by_io [OF mem.framed_file_axioms _ _ run]
    unfolding run by (simp add: example_handle_def)
qed

text \<open>
  Property C39. A read across the lock page whose first part is short reports a short read but
  leaves the second part of the caller's buffer as it was, where SQLite requires the unread
  portion of the buffer to be filled with zeros.
\<close>
theorem straddling_short_read_keeps_stale_bytes:
  assumes "format_uses_lock_gap s" "inner_file s = c"
    and "length c < 1073741824" "4096 \<le> length c"
    and "0 \<le> off" "off < 1073737728" "1073737728 < off + int (length b)"
    and "off + int (length b) \<le> INT64_MAX"
  shows "\<exists>b'. read_shifted mem_methods s (Some b) (int (length b)) off =
           (SQLITE_IOERR_SHORT_READ, Some b', s) \<and>
         drop (nat (1073737728 - off)) b' = drop (nat (1073737728 - off)) b"
proof -
  have p: "logical_offset_to_physical s off = Some (off + 4096)"
    using assms by (simp add: logical_offset_to_physical_Some limit_simps)
  have r: "logical_range_end off (int (length b)) = Some (off + int (length b))"
    using assms by (simp add: logical_range_end_Some)
  have s: "s\<lparr>inner_file := c\<rparr> = s" using assms(2) by auto
  show ?thesis
    using assms
    by (auto simp: read_shifted_def p r Let_def mem_read_def s nat_add_distrib)
qed

theorem straddling_short_read_witness:
  "\<exists>b'. read_shifted mem_methods (example_handle (preamble_image 3 2)) (Some [7, 7]) 2 1073737727 =
      (SQLITE_IOERR_SHORT_READ, Some b', example_handle (preamble_image 3 2)) \<and> drop 1 b' = [7]"
  using straddling_short_read_keeps_stale_bytes
    [of "example_handle (preamble_image 3 2)" "preamble_image 3 2" 1073737727 "[7, 7]"]
  by (simp add: example_handle_def format_uses_lock_gap_def limit_simps)

end
