(* ===== verification/File_Commit.thy ===== *)
theory File_Commit
  imports Framed_File
begin

text \<open>
  The lifecycle of a database file across opening, initialising, committing, aborting and
  closing: what a successful transition writes, what an open handle may rely on, and that a
  file is never seen as committed unless its owner committed it.
\<close>

section \<open>Steps of a transition\<close>

text \<open>The write of a transition: the state byte, or the whole preamble where none is there yet.\<close>

definition store_state ::
    "'f io_methods \<Rightarrow> 'f offset_file \<Rightarrow> mylite_file_lifecycle_state \<Rightarrow> int \<times> 'f offset_file" where
  "store_state m s st =
     (if initialization_preamble_written s
      then (let (rc, g) = xWrite m (inner_file s) (Some [lifecycle_byte st]) 1 18
            in (rc, s\<lparr>inner_file := g\<rparr>))
      else (let (rc, g) = xWrite m (inner_file s)
                  (Some (mylite_file_preamble_init_with_state (replicate 4096 0) st)) 4096 0
            in (rc, s\<lparr>inner_file := g, initialization_preamble_written := rc = SQLITE_OK\<rparr>)))"

definition checked_payload ::
    "'f io_methods \<Rightarrow> 'f offset_file \<Rightarrow> mylite_file_lifecycle_state \<Rightarrow> int \<times> 'f offset_file" where
  "checked_payload m s st =
     (if st = MYLITE_FILE_LIFECYCLE_COMMITTED then validate_sqlite_payload_header m s
      else (SQLITE_OK, s))"

lemma transition_unfold:
  "transition_initialization_state m s st =
     (if \<not> initialization_owner s then Some (SQLITE_OK, s)
      else (case checked_payload m s st of (rc, s1) \<Rightarrow>
        if rc \<noteq> SQLITE_OK then Some (rc, s1)
        else (case inject_fault MYLITE_STORAGE_VFS_FAULT_WRITE s1 of
          None \<Rightarrow> None
        | Some (fail, s2) \<Rightarrow>
          if fail then Some (SQLITE_IOERR_WRITE, s2)
          else (case store_state m s2 st of (rc, s3) \<Rightarrow>
            if rc \<noteq> SQLITE_OK then Some (rc, s3)
            else (case inject_fault MYLITE_STORAGE_VFS_FAULT_SYNC s3 of
              None \<Rightarrow> None
            | Some (fail, s4) \<Rightarrow>
              if fail then Some (SQLITE_IOERR_FSYNC, s4)
              else (case xSync m (inner_file s4) SQLITE_SYNC_FULL of (rc, g) \<Rightarrow>
                if rc = SQLITE_OK then Some (release_initialization_lock m (s4\<lparr>inner_file := g\<rparr>))
                else Some (rc, s4\<lparr>inner_file := g\<rparr>)))))))"
  by (simp add: transition_initialization_state_def checked_payload_def store_state_def Let_def
      Option.bind_def cong: if_cong split del: if_split split: prod.split option.split)

lemma transition_elim:
  assumes "transition_initialization_state m s st = Some (rc, s')"
  obtains (no_owner) "\<not> initialization_owner s" "rc = SQLITE_OK" "s' = s"
  | (invalid) "initialization_owner s" "rc \<noteq> SQLITE_OK" "checked_payload m s st = (rc, s')"
  | (wfault) s1 where "initialization_owner s" "rc = SQLITE_IOERR_WRITE"
      "checked_payload m s st = (SQLITE_OK, s1)"
      "inject_fault MYLITE_STORAGE_VFS_FAULT_WRITE s1 = Some (True, s')"
  | (wfail) s1 s2 where "initialization_owner s" "rc \<noteq> SQLITE_OK"
      "checked_payload m s st = (SQLITE_OK, s1)"
      "inject_fault MYLITE_STORAGE_VFS_FAULT_WRITE s1 = Some (False, s2)"
      "store_state m s2 st = (rc, s')"
  | (sfault) s1 s2 s3 where "initialization_owner s" "rc = SQLITE_IOERR_FSYNC"
      "checked_payload m s st = (SQLITE_OK, s1)"
      "inject_fault MYLITE_STORAGE_VFS_FAULT_WRITE s1 = Some (False, s2)"
      "store_state m s2 st = (SQLITE_OK, s3)"
      "inject_fault MYLITE_STORAGE_VFS_FAULT_SYNC s3 = Some (True, s')"
  | (sfail) s1 s2 s3 s4 g where "initialization_owner s" "rc \<noteq> SQLITE_OK"
      "checked_payload m s st = (SQLITE_OK, s1)"
      "inject_fault MYLITE_STORAGE_VFS_FAULT_WRITE s1 = Some (False, s2)"
      "store_state m s2 st = (SQLITE_OK, s3)"
      "inject_fault MYLITE_STORAGE_VFS_FAULT_SYNC s3 = Some (False, s4)"
      "xSync m (inner_file s4) SQLITE_SYNC_FULL = (rc, g)" "s' = s4\<lparr>inner_file := g\<rparr>"
  | (finished) s1 s2 s3 s4 g where "initialization_owner s"
      "checked_payload m s st = (SQLITE_OK, s1)"
      "inject_fault MYLITE_STORAGE_VFS_FAULT_WRITE s1 = Some (False, s2)"
      "store_state m s2 st = (SQLITE_OK, s3)"
      "inject_fault MYLITE_STORAGE_VFS_FAULT_SYNC s3 = Some (False, s4)"
      "xSync m (inner_file s4) SQLITE_SYNC_FULL = (SQLITE_OK, g)"
      "release_initialization_lock m (s4\<lparr>inner_file := g\<rparr>) = (rc, s')"
  using assms unfolding transition_unfold
  by (simp split: if_splits prod.splits option.splits; blast)

section \<open>Torn writes\<close>

text \<open>
  The base VFS as the lifecycle relies on it: a write, successful or not, leaves each byte of
  its range either as it was (zero, where the file was extended) or as it should be written,
  and closing a file does not change it.
\<close>

locale torn_file = framed_file +
  assumes write_torn:
    "xWrite m f (Some b) n off = (rc, f') \<Longrightarrow> 0 \<le> n \<Longrightarrow> n \<le> int (length b) \<Longrightarrow> 0 \<le> off \<Longrightarrow>
     nat off \<le> i \<Longrightarrow> i < nat off + nat n \<Longrightarrow>
     byte_at (content f') i \<in> {byte_at (content f) i, b ! (i - nat off)}"
    and close_frame: "xClose m f = (rc, f') \<Longrightarrow> content f' = content f"

text \<open>Opening a file through the base VFS does not change its bytes.\<close>

locale opened_file = torn_file +
  fixes base_open :: "'a base_open"
  assumes open_frame: "base_open f flags = (rc, methods, out, f') \<Longrightarrow> content f' = content f"

section \<open>Files that do not decode as committed\<close>

definition disk_committed :: "bytes \<Rightarrow> bool" where
  "disk_committed c \<longleftrightarrow> 4096 \<le> length c \<and>
     mylite_file_preamble_lifecycle_state (take 4096 c) = MYLITE_FILE_LIFECYCLE_COMMITTED"

text \<open>
  The version and state bytes of a file that was never committed, torn writes of a preamble
  included: no version 1, and no committed state byte.
\<close>

definition uncommitted :: "bytes \<Rightarrow> bool" where
  "uncommitted c \<longleftrightarrow>
     byte_at c 16 = 0 \<and> byte_at c 17 \<in> {0, 2, 3} \<and> byte_at c 18 \<in> {0, 1, 3}"

lemma uncommitted_not_committed:
  assumes "uncommitted c"
  shows "\<not> disk_committed c"
proof
  assume c: "disk_committed c"
  let ?p = "take 4096 c"
  from c have len: "length ?p = 4096" and st: "mylite_file_preamble_lifecycle_state ?p =
      MYLITE_FILE_LIFECYCLE_COMMITTED"
    by (auto simp: disk_committed_def)
  let ?v = "mylite_file_preamble_get_u16 ?p 16"
  from len have p: "?p = preamble_image ?v (?p ! 18)"
    by (rule valid_preamble_image) (simp add: st)
  from c have "4096 \<le> length c" by (simp add: disk_committed_def)
  with assms have bytes: "?p ! 16 = 0" "?p ! 17 \<in> {0, 2, 3}" "?p ! 18 \<in> {0, 1, 3}"
    by (simp_all add: uncommitted_def byte_at_def)
  have v: "?v \<in> {0, 2, 3}"
    using bytes(1,2) by (auto simp: mylite_file_preamble_get_u16_def)
  have "mylite_file_preamble_lifecycle_state (preamble_image ?v (?p ! 18)) \<noteq>
      MYLITE_FILE_LIFECYCLE_COMMITTED"
    using v bytes(3) unfolding lifecycle_state_preamble_image by auto
  with st p show False by metis
qed

lemma image_uncommitted:
  "length p = 4096 \<Longrightarrow> st \<noteq> MYLITE_FILE_LIFECYCLE_COMMITTED \<Longrightarrow>
    uncommitted (mylite_file_preamble_init_with_state p st)"
  by (cases st)
    (simp_all add: preamble_init_image uncommitted_def preamble_image_def byte_at_def nth_append)

context torn_file
begin

lemmas content_frames =
  read_frame size_frame sync_frame lock_frame unlock_frame reserved_frame close_frame

lemma payload_steps_uncommitted:
  "payload_steps m f f' \<Longrightarrow> uncommitted (content f) \<Longrightarrow> uncommitted (content f')"
  using payload_steps_byte [of f f' 16] payload_steps_byte [of f f' 17]
    payload_steps_byte [of f f' 18]
  by (auto simp: uncommitted_def)

text \<open>Writing a preamble, or the state byte, of a state that is not the committed one.\<close>

lemma write_byte_cases:
  assumes "xWrite m f (Some b) n off = (rc, f')" "0 \<le> n" "n \<le> int (length b)" "0 \<le> off"
  shows "byte_at (content f') i = byte_at (content f) i \<or>
    nat off \<le> i \<and> i < nat off + nat n \<and> byte_at (content f') i = b ! (i - nat off)"
  using write_frame [OF assms(1,2,4)] write_torn [OF assms(1,2,3,4), of i]
  by (cases "nat off \<le> i \<and> i < nat off + nat n") auto

lemma write_uncommitted:
  assumes w: "xWrite m f (Some p) (int (length p)) (int off) = (rc, f')"
    and u: "uncommitted (content f)"
    and p: "\<And>i. i < length p \<Longrightarrow> off + i = 16 \<Longrightarrow> p ! i = 0"
      "\<And>i. i < length p \<Longrightarrow> off + i = 17 \<Longrightarrow> p ! i \<in> {0, 2, 3}"
      "\<And>i. i < length p \<Longrightarrow> off + i = 18 \<Longrightarrow> p ! i \<in> {0, 1, 3}"
  shows "uncommitted (content f')"
proof -
  have bytes: "byte_at (content f') i = byte_at (content f) i \<or>
      i - off < length p \<and> off + (i - off) = i \<and> byte_at (content f') i = p ! (i - off)" for i
    using write_byte_cases [OF w, of i] by auto
  have "byte_at (content f') 16 = 0" using bytes [of 16] p(1) [of "16 - off"] u
    unfolding uncommitted_def by metis
  moreover have "byte_at (content f') 17 \<in> {0, 2, 3}" using bytes [of 17] p(2) [of "17 - off"] u
    unfolding uncommitted_def by metis
  moreover have "byte_at (content f') 18 \<in> {0, 1, 3}" using bytes [of 18] p(3) [of "18 - off"] u
    unfolding uncommitted_def by metis
  ultimately show ?thesis unfolding uncommitted_def by blast
qed

lemma write_state_uncommitted:
  assumes "xWrite m f (Some [lifecycle_byte st]) 1 18 = (rc, f')"
    and "st \<noteq> MYLITE_FILE_LIFECYCLE_COMMITTED" "uncommitted (content f)"
  shows "uncommitted (content f')"
  by (rule write_uncommitted [where p = "[lifecycle_byte st]" and off = 18 and f = f and rc = rc])
    (use assms in \<open>cases st; simp\<close>)+

lemma write_preamble_uncommitted:
  assumes "xWrite m f (Some (mylite_file_preamble_init_with_state (replicate 4096 0) st)) 4096 0 =
      (rc, f')"
    and st: "st \<noteq> MYLITE_FILE_LIFECYCLE_COMMITTED" and u: "uncommitted (content f)"
  shows "uncommitted (content f')"
proof -
  define p where "p = mylite_file_preamble_init_with_state (replicate 4096 0) st"
  have len: "length p = 4096" by (simp add: p_def preamble_init_image)
  have "uncommitted p" unfolding p_def by (rule image_uncommitted) (use st in auto)
  then have p: "p ! 16 = 0" "p ! 17 \<in> {0, 2, 3}" "p ! 18 \<in> {0, 1, 3}"
    by (simp_all add: uncommitted_def byte_at_def len)
  have w: "xWrite m f (Some p) (int (length p)) (int 0) = (rc, f')"
    using assms(1) unfolding p_def [symmetric] len by simp
  show ?thesis by (rule write_uncommitted [OF w u]) (use p in simp_all)
qed

lemma acquire_content:
  "acquire_initialization_lock m s = (rc, s') \<Longrightarrow> content (inner_file s') = content (inner_file s)"
  by (auto simp: acquire_initialization_lock_def Let_def split: prod.splits if_splits
      dest!: lock_frame unlock_frame)

lemma release_content:
  "release_initialization_lock m s = (rc, s') \<Longrightarrow> content (inner_file s') = content (inner_file s)"
  by (auto simp: release_initialization_lock_def Let_def split: prod.splits if_splits
      dest!: unlock_frame)

lemma validate_header_content:
  "validate_sqlite_payload_header m s = (rc, s') \<Longrightarrow>
    content (inner_file s') = content (inner_file s) \<and> same_handle s s'"
  by (auto simp: validate_sqlite_payload_header_def Let_def split: prod.splits if_splits
      dest!: read_frame size_frame)

lemma validate_existing_content:
  "validate_existing_main_database_file m s = (rc, s') \<Longrightarrow>
    content (inner_file s') = content (inner_file s)"
  by (auto simp: validate_existing_main_database_file_def Let_def split: prod.splits if_splits
      dest!: read_frame size_frame acquire_content validate_header_content)

text \<open>
  The transition to another state than the committed one, and the operations that use it.
\<close>

lemma store_state_uncommitted:
  "store_state m s st = (rc, s') \<Longrightarrow> st \<noteq> MYLITE_FILE_LIFECYCLE_COMMITTED \<Longrightarrow>
    uncommitted (content (inner_file s)) \<Longrightarrow> uncommitted (content (inner_file s'))"
  by (auto simp: store_state_def split: if_splits prod.splits
      dest: write_state_uncommitted write_preamble_uncommitted)

lemma transition_uncommitted:
  assumes t: "transition_initialization_state m s st = Some (rc, s')"
    and st: "st \<noteq> MYLITE_FILE_LIFECYCLE_COMMITTED" and u: "uncommitted (content (inner_file s))"
  shows "uncommitted (content (inner_file s'))"
  using t
proof (cases rule: transition_elim)
  case (wfault s1)
  with st u show ?thesis by (auto simp: checked_payload_def dest!: inject_fault_same)
next
  case (wfail s1 s2)
  with st u show ?thesis by (auto simp: checked_payload_def dest!: inject_fault_same store_state_uncommitted)
next
  case (sfault s1 s2 s3)
  with st u have "uncommitted (content (inner_file s3))"
    by (auto simp: checked_payload_def dest!: inject_fault_same store_state_uncommitted)
  with sfault show ?thesis by (auto dest!: inject_fault_same)
next
  case (sfail s1 s2 s3 s4 g)
  with st u have "uncommitted (content (inner_file s3))"
    by (auto simp: checked_payload_def dest!: inject_fault_same store_state_uncommitted)
  with sfail show ?thesis by (auto dest!: inject_fault_same sync_frame)
next
  case (finished s1 s2 s3 s4 g)
  with st u have "uncommitted (content (inner_file s3))"
    by (auto simp: checked_payload_def dest!: inject_fault_same store_state_uncommitted)
  with finished show ?thesis by (auto dest!: inject_fault_same sync_frame release_content)
qed (use st u in \<open>auto simp: checked_payload_def\<close>)

lemma initialize_new_uncommitted:
  assumes i: "initialize_new_main_database_file m s = Some (rc, s')"
    and u: "uncommitted (content (inner_file s))"
  shows "uncommitted (content (inner_file s'))"
proof -
  obtain rc0 sz g where sz: "xFileSize m (inner_file s) = (rc0, sz, g)" by (metis prod_cases3)
  let ?s1 = "s\<lparr>inner_file := g, format_version := MYLITE_FILE_FORMAT_VERSION\<rparr>"
  obtain rc1 s2 where lock: "acquire_initialization_lock m ?s1 = (rc1, s2)" by fastforce
  from size_frame [OF sz] acquire_content [OF lock] u
  have u2: "uncommitted (content g)" "uncommitted (content (inner_file s2))" by simp_all
  show ?thesis
    using i u2
    by (auto simp: initialize_new_main_database_file_def sz lock Let_def
        split: if_splits prod.splits Option.bind_splits
        dest!: inject_fault_same sync_frame write_preamble_uncommitted)
qed

lemma close_failed_uncommitted:
  assumes c: "close_failed_inner_file m s = Some s'" and u: "uncommitted (content (inner_file s))"
  shows "uncommitted (content (inner_file s')) \<and> (base_methods s' \<longrightarrow> base_methods s)"
proof (cases "inner_present s")
  case True
  then obtain t where t: "(if initialization_owner s \<and> inner_methods s
      then map_option snd (transition_initialization_state m s MYLITE_FILE_LIFECYCLE_RECOVERY_REQUIRED)
      else Some s) = Some t"
    using c by (auto simp: close_failed_inner_file_def split: Option.bind_splits)
  have "uncommitted (content (inner_file t))"
    using t u by (auto split: if_splits dest: transition_uncommitted)
  moreover have "content (snd (xClose m (inner_file t))) = content (inner_file t)"
    by (rule close_frame [OF surjective_pairing])
  ultimately show ?thesis
    using c t True by (cases "inner_methods t") (auto simp: close_failed_inner_file_def)
qed (use c u in \<open>auto simp: close_failed_inner_file_def\<close>)

lemma offset_close_uncommitted:
  assumes c: "offset_close m s = Some (rc, s')" and u: "uncommitted (content (inner_file s))"
  shows "uncommitted (content (inner_file s')) \<and> \<not> base_methods s'"
proof -
  from c obtain fail t where t: "inject_fault MYLITE_STORAGE_VFS_FAULT_CLOSE s = Some (fail, t)"
    by (cases "inject_fault MYLITE_STORAGE_VFS_FAULT_CLOSE s") (auto simp: offset_close_def)
  with inject_fault_same [OF t] u have u': "uncommitted (content (inner_file t))" by simp
  show ?thesis
    using c t u'
    by (auto simp: offset_close_def zero_offset_file_def
        split: if_splits prod.splits Option.bind_splits
        dest!: transition_uncommitted close_frame)
qed

end

text \<open>The preparation of a main database file does not touch the rest of the handle.\<close>

definition same_mode :: "'f offset_file \<Rightarrow> 'f offset_file \<Rightarrow> bool" where
  "same_mode s t \<longleftrightarrow> shifts_offsets t = shifts_offsets s \<and> base_methods t = base_methods s"

lemma same_handle_mode: "same_handle s t \<Longrightarrow> same_mode s t"
  by (cases s; cases t) (simp add: same_handle_def same_mode_def)

lemma same_mode_inject: "inject_fault op s = Some (fail, t) \<Longrightarrow> same_mode s t"
  by (auto dest: inject_fault_same same_handle_mode)

lemma acquire_mode: "acquire_initialization_lock m s = (rc, t) \<Longrightarrow> same_mode s t"
  by (auto simp: acquire_initialization_lock_def same_mode_def Let_def split: prod.splits if_splits)

lemma validate_header_mode: "validate_sqlite_payload_header m s = (rc, t) \<Longrightarrow> same_mode s t"
  by (auto simp: validate_sqlite_payload_header_def same_mode_def Let_def
      split: prod.splits if_splits)

lemma validate_existing_mode:
  "validate_existing_main_database_file m s = (rc, t) \<Longrightarrow> same_mode s t"
  by (auto simp: validate_existing_main_database_file_def same_mode_def Let_def
      split: prod.splits if_splits dest!: acquire_mode validate_header_mode)

lemma initialize_new_mode:
  "initialize_new_main_database_file m s = Some (rc, t) \<Longrightarrow> same_mode s t"
  by (auto simp: initialize_new_main_database_file_def same_mode_def Let_def
      split: prod.splits if_splits Option.bind_splits dest!: acquire_mode same_mode_inject)

lemma prepare_mode: "prepare_main_database_file m s e = Some (rc, t) \<Longrightarrow> same_mode s t"
  by (auto simp: prepare_main_database_file_def split: if_splits
      dest: initialize_new_mode validate_existing_mode)

context opened_file
begin

lemma prepare_uncommitted:
  "prepare_main_database_file m s e = Some (rc, s') \<Longrightarrow> uncommitted (content (inner_file s)) \<Longrightarrow>
    uncommitted (content (inner_file s'))"
  by (auto simp: prepare_main_database_file_def split: if_splits
      dest: initialize_new_uncommitted validate_existing_content)

lemma offset_vfs_open_uncommitted:
  assumes o: "offset_vfs_open m base_open alloc wants s flags = Some (rc, s')"
    and main: "file_shifts_offsets flags" and u: "uncommitted (content (inner_file s))"
  shows "uncommitted (content (inner_file s')) \<and> (base_methods s' \<longrightarrow> shifts_offsets s')"
proof -
  let ?ex = "exclusive_create_enabled s"
  let ?fl = "if ?ex then flags OR SQLITE_OPEN_EXCLUSIVE else flags"
  let ?f = "if ?ex then MYLITE_STORAGE_VFS_FAULT_CREATE else MYLITE_STORAGE_VFS_FAULT_OPEN"
  from o main obtain fail t where t: "inject_fault ?f (zero_offset_file s) = Some (fail, t)"
    by (cases "inject_fault ?f (zero_offset_file s)") (auto simp: offset_vfs_open_def Let_def)
  have t': "\<not> base_methods t" "uncommitted (content (inner_file t))"
    using inject_fault_same [OF t] same_mode_inject [OF t] u
    by (auto simp: zero_offset_file_def same_mode_def)
  obtain rc1 out t1 where t1: "open_inner_file base_open alloc t ?fl = (rc1, out, t1)"
    by (metis prod_cases3)
  have t1': "\<not> base_methods t1" "uncommitted (content (inner_file t1))"
    using t1 t' by (auto simp: open_inner_file_def split: if_splits prod.splits dest!: open_frame)
  let ?t2 = "t1\<lparr>shifts_offsets := True\<rparr>"
  note unfolded = offset_vfs_open_def main t t1 Let_def
  show ?thesis
  proof (cases "fail \<or> rc1 \<noteq> SQLITE_OK \<or> ?ex \<and> wants \<and> out AND SQLITE_OPEN_READONLY \<noteq> 0")
    case True
    with o t' t1' show ?thesis
      by (auto simp: unfolded split: if_splits dest!: close_failed_uncommitted)
  next
    case False
    with o obtain rc2 t3 where prep: "prepare_main_database_file m ?t2 ?ex = Some (rc2, t3)"
      by (cases "prepare_main_database_file m ?t2 ?ex") (auto simp: unfolded split: if_splits)
    have "uncommitted (content (inner_file t3))" "\<not> base_methods t3" "shifts_offsets t3"
      using prepare_uncommitted [OF prep] prepare_mode [OF prep] t1' by (auto simp: same_mode_def)
    with False o prep show ?thesis
      by (auto simp: unfolded split: if_splits dest!: close_failed_uncommitted)
  qed
qed

end

section \<open>The lifecycle as a transition system\<close>

lemma release_mode: "release_initialization_lock m s = (rc, t) \<Longrightarrow> same_mode s t"
  by (auto simp: release_initialization_lock_def same_mode_def Let_def split: prod.splits if_splits)

lemma checked_payload_mode: "checked_payload m s st = (rc, t) \<Longrightarrow> same_mode s t"
  by (auto simp: checked_payload_def same_mode_def split: if_splits dest!: validate_header_mode)

lemma store_state_mode: "store_state m s st = (rc, t) \<Longrightarrow> same_mode s t"
  by (auto simp: store_state_def same_mode_def split: prod.splits if_splits)

lemma same_mode_trans: "same_mode s t \<Longrightarrow> same_mode t u \<Longrightarrow> same_mode s u"
  by (simp add: same_mode_def)

lemma same_mode_inner [simp]: "same_mode s (t\<lparr>inner_file := g\<rparr>) = same_mode s t"
  "same_mode (s\<lparr>inner_file := g\<rparr>) t = same_mode s t" "same_mode s s"
  by (simp_all add: same_mode_def)

lemma transition_mode:
  "transition_initialization_state m s st = Some (rc, s') \<Longrightarrow> same_mode s s'"
  by (erule transition_elim)
    (auto simp: same_mode_def
      dest!: checked_payload_mode same_mode_inject store_state_mode release_mode)

text \<open>
  Everything that can happen to a database file short of committing it: operations on the open
  handle, aborting the initialisation, closing, opening again (creating or not), and arming
  or disarming the test faults.
\<close>

inductive lifecycle_step :: "'f io_methods \<Rightarrow> 'f base_open \<Rightarrow> 'f offset_file \<Rightarrow> 'f offset_file \<Rightarrow> bool"
  for m base_open where
  l_io: "base_methods s \<Longrightarrow> io_step m s op = Some s' \<Longrightarrow> lifecycle_step m base_open s s'"
| l_abort: "mylite_storage_vfs_transition_initialization m (Some s) False = Some (rc, Some s') \<Longrightarrow>
    lifecycle_step m base_open s s'"
| l_close: "base_methods s \<Longrightarrow> offset_close m s = Some (rc, s') \<Longrightarrow> lifecycle_step m base_open s s'"
| l_open: "\<not> base_methods s \<Longrightarrow> file_shifts_offsets flags \<Longrightarrow>
    offset_vfs_open m base_open alloc wants s flags = Some (rc, s') \<Longrightarrow>
    lifecycle_step m base_open s s'"
| l_exclusive: "lifecycle_step m base_open s (mylite_storage_vfs_set_exclusive_create e s)"
| l_fault: "lifecycle_step m base_open s (mylite_storage_vfs_test_set_fault op n s)"
| l_clear: "lifecycle_step m base_open s (mylite_storage_vfs_test_clear_fault s)"

context opened_file
begin

lemma lifecycle_step_uncommitted:
  assumes "lifecycle_step m base_open s s'"
    and "uncommitted (content (inner_file s))" "base_methods s \<longrightarrow> shifts_offsets s"
  shows "uncommitted (content (inner_file s')) \<and> (base_methods s' \<longrightarrow> shifts_offsets s')"
  using assms(1)
proof cases
  case (l_io op)
  with io_step_payload [of m s op s'] assms(2,3) show ?thesis
    by (auto simp: same_handle_shifts dest: payload_steps_uncommitted)
next
  case (l_abort rc)
  then have "transition_initialization_state m s MYLITE_FILE_LIFECYCLE_RECOVERY_REQUIRED = Some (rc, s')
      \<or> s' = s"
    by (auto simp: mylite_storage_vfs_transition_initialization_def split: if_splits)
  then show ?thesis
  proof
    assume t: "transition_initialization_state m s MYLITE_FILE_LIFECYCLE_RECOVERY_REQUIRED =
      Some (rc, s')"
    with transition_uncommitted [OF t] transition_mode [OF t] assms(2,3) show ?thesis
      by (simp add: same_mode_def)
  qed (use assms in simp)
next
  case (l_close rc)
  then show ?thesis using assms(2) by (auto dest!: offset_close_uncommitted)
next
  case (l_open flags alloc wants rc)
  then show ?thesis using assms(2) by (auto dest: offset_vfs_open_uncommitted)
qed (use assms in \<open>auto simp: mylite_storage_vfs_set_exclusive_create_def
    mylite_storage_vfs_test_set_fault_def mylite_storage_vfs_test_clear_fault_def\<close>)

lemma lifecycle_steps_uncommitted:
  assumes "(lifecycle_step m base_open)\<^sup>*\<^sup>* s s'"
    and "uncommitted (content (inner_file s))" "base_methods s \<longrightarrow> shifts_offsets s"
  shows "uncommitted (content (inner_file s'))"
proof -
  from assms have "uncommitted (content (inner_file s')) \<and> (base_methods s' \<longrightarrow> shifts_offsets s')"
    by (induction rule: rtranclp_induct) (auto dest: lifecycle_step_uncommitted)
  then show ?thesis ..
qed

end

text \<open>A file that is empty, or whose preamble says that its initialisation is not finished.\<close>

definition unfinished :: "bytes \<Rightarrow> bool" where
  "unfinished c \<longleftrightarrow> c = [] \<or> 4096 \<le> length c \<and>
     mylite_file_preamble_lifecycle_state (take 4096 c) \<in>
       {MYLITE_FILE_LIFECYCLE_INITIALIZING, MYLITE_FILE_LIFECYCLE_RECOVERY_REQUIRED}"

lemma byte_at_take: "i < n \<Longrightarrow> byte_at (take n c) i = byte_at c i"
  by (simp add: byte_at_def)

lemma image_byte_16_17:
  "byte_at (preamble_image v b) 16 = ucast (drop_bit 8 v AND 0xff)"
  "byte_at (preamble_image v b) 17 = ucast (v AND 0xff)"
  "byte_at (preamble_image v b) 18 = b"
  by (simp_all add: byte_at_def preamble_image_def nth_append)

lemma unfinished_uncommitted:
  assumes "unfinished c"
  shows "uncommitted c"
proof (cases "c = []")
  case False
  with assms have len: "length (take 4096 c) = 4096"
    and st: "mylite_file_preamble_lifecycle_state (take 4096 c) \<in>
       {MYLITE_FILE_LIFECYCLE_INITIALIZING, MYLITE_FILE_LIFECYCLE_RECOVERY_REQUIRED}"
    by (auto simp: unfinished_def)
  from len obtain v b where p: "take 4096 c = preamble_image v b"
    by (rule valid_preamble_image [THEN that]) (use st in auto)
  from st [unfolded p] have "v = 2 \<or> v = 3" "b \<in> {1, 3}"
    by (auto simp: lifecycle_state_preamble_image split: if_splits)
  then have "uncommitted (take 4096 c)"
    unfolding p uncommitted_def image_byte_16_17 by auto
  then show ?thesis by (simp add: uncommitted_def byte_at_take)
qed (simp add: uncommitted_def byte_at_def)

section \<open>What a successful call establishes\<close>

text \<open>The payload starts with SQLite's header and has at least its smallest page.\<close>

definition payload_valid :: "bytes \<Rightarrow> bool" where
  "payload_valid c \<longleftrightarrow> 4608 \<le> length c \<and> take 16 (drop 4096 c) = sqlite_header"

lemma length_sqlite_header [simp]: "length sqlite_header = 16"
  by (simp add: sqlite_header_def text_bytes_def)

lemma write_at_state_byte:
  "18 < length c \<Longrightarrow> write_at c 18 [b] = c[18 := b]"
  by (rule nth_equalityI) (auto simp: buffer_simps nth_list_update)

lemma payload_valid_update: "i < 4096 \<Longrightarrow> payload_valid (c[i := b]) = payload_valid c"
  by (simp add: payload_valid_def drop_update_cancel)

lemma release_owner:
  "release_initialization_lock m s = (SQLITE_OK, s') \<Longrightarrow> initialization_lock_held s \<Longrightarrow>
    \<not> initialization_owner s' \<and> \<not> initialization_lock_held s'"
  by (auto simp: release_initialization_lock_def Let_def split: prod.splits if_splits)

text \<open>The fields that record the ownership of an initialisation.\<close>

definition same_owner :: "'f offset_file \<Rightarrow> 'f offset_file \<Rightarrow> bool" where
  "same_owner s t \<longleftrightarrow> initialization_owner t = initialization_owner s \<and>
     initialization_lock_held t = initialization_lock_held s"

lemma same_handle_owner: "same_handle s t \<Longrightarrow> same_owner s t"
  by (cases s; cases t) (simp add: same_handle_def same_owner_def)

lemma same_handle_written:
  "same_handle s t \<Longrightarrow> initialization_preamble_written t = initialization_preamble_written s"
  by (cases s; cases t) (simp add: same_handle_def)

lemma same_handle_version: "same_handle s t \<Longrightarrow> format_version t = format_version s"
  by (cases s; cases t) (simp add: same_handle_def)

lemma inject_owner: "inject_fault op s = Some (fail, t) \<Longrightarrow> same_owner s t"
  by (auto dest: inject_fault_same same_handle_owner)

lemma checked_payload_same: "checked_payload m s st = (rc, t) \<Longrightarrow> same_handle s t"
  by (auto simp: checked_payload_def validate_sqlite_payload_header_def Let_def
      split: if_splits prod.splits)

lemma store_state_owner: "store_state m s st = (rc, t) \<Longrightarrow> same_owner s t"
  by (auto simp: store_state_def same_owner_def split: prod.splits if_splits)

lemma release_failed_owner:
  "release_initialization_lock m s = (rc, t) \<Longrightarrow> rc \<noteq> SQLITE_OK \<Longrightarrow> same_owner s t"
  by (auto simp: release_initialization_lock_def same_owner_def Let_def
      split: prod.splits if_splits)

lemma transition_failed_owner:
  assumes "transition_initialization_state m s st = Some (rc, s')" "rc \<noteq> SQLITE_OK"
  shows "same_owner s s'"
  using assms(1)
  by (rule transition_elim)
    (use assms(2) in \<open>auto simp: same_owner_def dest!: checked_payload_same inject_owner
      store_state_owner release_failed_owner same_handle_owner\<close>)

context byte_file
begin

lemma validate_header_ok:
  assumes v: "validate_sqlite_payload_header m s = (SQLITE_OK, s')" and inv: "invar (inner_file s)"
  shows "payload_valid (content (inner_file s)) \<and> invar (inner_file s') \<and>
    content (inner_file s') = content (inner_file s) \<and> same_handle s s'"
proof -
  from v obtain sz g b g' where sz: "xFileSize m (inner_file s) = (SQLITE_OK, sz, g)"
    and big: "4608 \<le> sz"
    and rd: "xRead m g (Some (replicate 16 0)) 16 4096 = (SQLITE_OK, b, g')"
    and eq: "mem_equal (buffer_bytes b) sqlite_header 16" and s': "s' = s\<lparr>inner_file := g'\<rparr>"
    by (auto simp: validate_sqlite_payload_header_def Let_def split: prod.splits if_splits)
  from size_ok [OF inv sz] have g: "sz = int (length (content (inner_file s)))" "invar g"
    "content g = content (inner_file s)" by auto
  from read_ok [OF g(2) rd] have "b = Some (take 16 (drop 4096 (content g)))" "invar g'"
    "content g' = content g" by auto
  with g big eq show ?thesis
    by (auto simp: payload_valid_def buffer_bytes_def mem_equal_def s')
qed

lemma store_state_ok:
  assumes st: "store_state m s st = (SQLITE_OK, s')" and inv: "invar (inner_file s)"
    and written: "initialization_preamble_written s" and len: "4096 \<le> length (content (inner_file s))"
  shows "content (inner_file s') = (content (inner_file s))[18 := lifecycle_byte st] \<and>
    invar (inner_file s')"
proof -
  from st written obtain g where g: "xWrite m (inner_file s) (Some [lifecycle_byte st]) 1 18 =
      (SQLITE_OK, g)" "s' = s\<lparr>inner_file := g\<rparr>"
    by (auto simp: store_state_def split: prod.splits)
  from write_ok [OF inv g(1)] g(2) len show ?thesis by (simp add: write_at_state_byte)
qed

lemma transition_ok:
  assumes t: "transition_initialization_state m s st = Some (SQLITE_OK, s')"
    and own: "initialization_owner s" "initialization_lock_held s"
      "initialization_preamble_written s"
    and inv: "invar (inner_file s)" and len: "4096 \<le> length (content (inner_file s))"
  shows "content (inner_file s') = (content (inner_file s))[18 := lifecycle_byte st] \<and>
    (st = MYLITE_FILE_LIFECYCLE_COMMITTED \<longrightarrow> payload_valid (content (inner_file s'))) \<and>
    \<not> initialization_owner s' \<and> \<not> initialization_lock_held s' \<and> invar (inner_file s')"
  using t
proof (cases rule: transition_elim)
  case (finished s1 s2 s3 s4 g)
  let ?c = "content (inner_file s)"
  have s1: "content (inner_file s1) = ?c" "invar (inner_file s1)"
    "st = MYLITE_FILE_LIFECYCLE_COMMITTED \<Longrightarrow> payload_valid ?c"
    using finished(2) inv by (auto simp: checked_payload_def split: if_splits
        dest: validate_header_ok)
  have h: "same_handle s s1" "same_handle s1 s2" "inner_file s2 = inner_file s1"
    "inner_file s4 = inner_file s3" "same_owner s s4"
    using finished checked_payload_same [OF finished(2)] inject_fault_same [OF finished(3)]
      inject_fault_same [OF finished(5)] store_state_owner [OF finished(4)]
    by (auto simp: same_owner_def dest!: same_handle_owner)
  have "initialization_preamble_written s2"
    using h own by (simp add: same_handle_written)
  from store_state_ok [OF finished(4) _ this] h s1 len
  have s3: "content (inner_file s3) = ?c[18 := lifecycle_byte st]" "invar (inner_file s3)" by auto
  from sync_ok [OF _ finished(6)] h s3
  have g: "content g = ?c[18 := lifecycle_byte st]" "invar g" by auto
  have r: "content (inner_file s') = content g" "invar (inner_file s')"
    using finished(7) g(2)
    by (auto simp: release_initialization_lock_def Let_def split: prod.splits if_splits
        dest!: unlock_ok [rotated])
  show ?thesis
    using r g s1(3) release_owner [OF finished(7)] h own
    by (auto simp: payload_valid_update same_owner_def)
qed (use own in auto)

end

text \<open>Opening.\<close>

lemma acquire_owner:
  "acquire_initialization_lock m s = (SQLITE_OK, s') \<Longrightarrow>
    initialization_owner s = initialization_lock_held s \<Longrightarrow>
    initialization_owner s' \<and> initialization_lock_held s'"
  by (auto simp: acquire_initialization_lock_def Let_def split: prod.splits if_splits)

context byte_file
begin

lemma acquire_ok:
  "acquire_initialization_lock m s = (SQLITE_OK, s') \<Longrightarrow> invar (inner_file s) \<Longrightarrow>
    content (inner_file s') = content (inner_file s) \<and> invar (inner_file s') \<and>
    format_version s' = format_version s"
  by (auto simp: acquire_initialization_lock_def Let_def split: prod.splits if_splits
      dest!: lock_ok [rotated])

lemma validate_existing_ok:
  assumes v: "validate_existing_main_database_file m s = (SQLITE_OK, s')"
    and inv: "invar (inner_file s)"
    and fresh: "\<not> initialization_owner s" "\<not> initialization_lock_held s"
  shows "let c = content (inner_file s); st = mylite_file_preamble_lifecycle_state (take 4096 c)
    in 4096 \<le> length c \<and> st \<noteq> MYLITE_FILE_LIFECYCLE_INVALID \<and>
       content (inner_file s') = c \<and> invar (inner_file s') \<and>
       format_version s' = mylite_file_preamble_format_version (take 4096 c) \<and>
       (initialization_owner s' \<longleftrightarrow> st \<noteq> MYLITE_FILE_LIFECYCLE_COMMITTED) \<and>
       initialization_lock_held s' = initialization_owner s' \<and>
       (payload_valid c \<or> length c = 4096 \<and> st \<noteq> MYLITE_FILE_LIFECYCLE_COMMITTED)"
proof -
  let ?c = "content (inner_file s)"
  let ?st = "mylite_file_preamble_lifecycle_state (take 4096 ?c)"
  from v obtain sz g b g' where sz: "xFileSize m (inner_file s) = (SQLITE_OK, sz, g)"
    and big: "4096 \<le> sz"
    and rd: "xRead m g (Some (replicate 4096 0)) 4096 0 = (SQLITE_OK, b, g')"
    by (auto simp: validate_existing_main_database_file_def Let_def split: prod.splits if_splits)
  from size_ok [OF inv sz] have g: "sz = int (length ?c)" "invar g" "content g = ?c" by auto
  from read_ok [OF g(2) rd] g have b: "b = Some (take 4096 ?c)" "invar g'" "content g' = ?c" by auto
  define s1 where "s1 = s\<lparr>inner_file := g',
    format_version := mylite_file_preamble_format_version (take 4096 ?c)\<rparr>"
  have s1: "inner_file s1 = g'" "initialization_owner s1 = False"
    "initialization_lock_held s1 = False"
    "format_version s1 = mylite_file_preamble_format_version (take 4096 ?c)"
    using fresh by (auto simp: s1_def)
  have v': "(if ?st = MYLITE_FILE_LIFECYCLE_COMMITTED then validate_sqlite_payload_header m s1
      else (case acquire_initialization_lock m s1 of (rc, t) \<Rightarrow>
        if rc \<noteq> SQLITE_OK then (rc, t)
        else if sz = 4096 then (SQLITE_OK, t\<lparr>initialization_preamble_written := True\<rparr>)
        else validate_sqlite_payload_header m (t\<lparr>initialization_preamble_written := True\<rparr>))) =
      (SQLITE_OK, s') \<and> ?st \<noteq> MYLITE_FILE_LIFECYCLE_INVALID"
    using v by (auto simp: validate_existing_main_database_file_def Let_def sz rd b buffer_bytes_def
        s1_def split: prod.splits if_splits)
  have len: "4096 \<le> length ?c" using big g by simp
  show ?thesis
  proof (cases "?st = MYLITE_FILE_LIFECYCLE_COMMITTED")
    case True
    with v' have "validate_sqlite_payload_header m s1 = (SQLITE_OK, s')" by simp
    from validate_header_ok [OF this] s1 b have r: "payload_valid ?c" "invar (inner_file s')"
      "content (inner_file s') = ?c" "same_handle s1 s'" by auto
    from r(4) have "same_owner s1 s'" "format_version s' = format_version s1"
      by (auto simp: same_handle_owner same_handle_version)
    with r s1 True len show ?thesis by (simp add: Let_def same_owner_def)
  next
    case False
    with v' obtain t where t: "acquire_initialization_lock m s1 = (SQLITE_OK, t)"
      by (auto split: prod.splits if_splits)
    let ?t = "t\<lparr>initialization_preamble_written := True\<rparr>"
    have own: "initialization_owner t" "initialization_lock_held t"
      using acquire_owner [OF t] s1 by auto
    have ct: "content (inner_file ?t) = ?c" "invar (inner_file ?t)" "format_version ?t = format_version s1"
      using acquire_ok [OF t] s1 b by auto
    show ?thesis
    proof (cases "sz = 4096")
      case True
      with v' t False have "s' = ?t" by (auto split: if_splits)
      with own ct s1 v' False len True g show ?thesis by (simp add: Let_def)
    next
      case nf: False
      with v' t False have "validate_sqlite_payload_header m ?t = (SQLITE_OK, s')"
        by (auto split: if_splits)
      from validate_header_ok [OF this ct(2)] ct have r: "payload_valid ?c" "invar (inner_file s')"
        "content (inner_file s') = ?c" "same_handle ?t s'" by auto
      from r(4) have "same_owner ?t s'" "format_version s' = format_version ?t"
        by (auto simp: same_handle_owner dest: same_handle_version)
      with r own s1 ct v' False len show ?thesis by (simp add: Let_def same_owner_def)
    qed
  qed
qed

end

definition mem_open :: "bytes base_open" where
  "mem_open c flags = (SQLITE_OK, True, flags, c)"

lemma mem_write_byte:
  assumes "mem_write f (Some b) n off = (rc, f')" "0 \<le> n" "n \<le> int (length b)" "0 \<le> off"
    "nat off \<le> i" "i < nat off + nat n"
  shows "byte_at f' i \<in> {byte_at f i, b ! (i - nat off)}"
proof -
  from assms have f': "f' = write_at f (nat off) (take (nat n) b)" by (simp add: mem_write_def)
  have "i < length f'" using assms by (auto simp: f' buffer_simps)
  then have "byte_at f' i = b ! (i - nat off)"
    using assms nth_write_at [of i f "nat off" "take (nat n) b"] by (simp add: byte_at_def f')
  then show ?thesis by simp
qed

interpretation mem_opened: opened_file mem_methods "\<lambda>c. c" "\<lambda>c. True" mem_open
  by unfold_locales (auto simp: mem_open_def dest: mem_write_byte)

text \<open>
  A successful open: through the base VFS first, then the preparation of the file and the
  check of the sector size.
\<close>

lemma open_main_elim:
  assumes o: "offset_vfs_open m base_open alloc wants s flags = Some (SQLITE_OK, s')"
    and main: "file_shifts_offsets flags"
  obtains t g out t' where "base_open (inner_file s)
      (if exclusive_create_enabled s then flags OR SQLITE_OPEN_EXCLUSIVE else flags) =
      (SQLITE_OK, inner_methods t, out, g)"
    and "inner_file t = g" "shifts_offsets t" "\<not> initialization_owner t"
      "\<not> initialization_lock_held t"
    and "prepare_main_database_file m t (exclusive_create_enabled s) = Some (SQLITE_OK, t')"
    and "s' = t'\<lparr>base_methods := True\<rparr>"
proof -
  let ?ex = "exclusive_create_enabled s"
  let ?f = "if ?ex then MYLITE_STORAGE_VFS_FAULT_CREATE else MYLITE_STORAGE_VFS_FAULT_OPEN"
  let ?fl = "if ?ex then flags OR SQLITE_OPEN_EXCLUSIVE else flags"
  from o main obtain t0 where t0: "inject_fault ?f (zero_offset_file s) = Some (False, t0)"
    by (cases "inject_fault ?f (zero_offset_file s)")
      (auto simp: offset_vfs_open_def Let_def split: if_splits)
  have same: "same_handle (zero_offset_file s) t0" "inner_file t0 = inner_file s"
    using inject_fault_same [OF t0] by (auto simp: zero_offset_file_def)
  obtain rc1 out t1 where t1: "open_inner_file base_open alloc t0 ?fl = (rc1, out, t1)"
    by (metis prod_cases3)
  note unfolded = offset_vfs_open_def main t0 t1 Let_def
  have ok: "rc1 = SQLITE_OK" using o by (auto simp: unfolded split: if_splits)
  with t1 have alloc: "alloc" by (cases alloc) (auto simp: open_inner_file_def)
  then obtain meth g where g: "base_open (inner_file s) ?fl = (SQLITE_OK, meth, out, g)"
    and t1': "t1 = t0\<lparr>inner_file := g, inner_present := True, inner_methods := meth\<rparr>"
    using t1 ok same by (auto simp: open_inner_file_def split: prod.splits)
  let ?t = "t1\<lparr>shifts_offsets := True\<rparr>"
  from o ok obtain t2 where prep: "prepare_main_database_file m ?t ?ex = Some (SQLITE_OK, t2)"
    "s' = t2\<lparr>base_methods := True\<rparr>"
    by (cases "prepare_main_database_file m ?t ?ex") (auto simp: unfolded split: if_splits)
  show thesis
    by (rule that [of ?t out g t2])
      (use g t1' prep same_handle_owner [OF same(1)] in
        \<open>auto simp: same_owner_def zero_offset_file_def\<close>)
qed

context byte_file
begin

lemma initialize_new_ok:
  assumes i: "initialize_new_main_database_file m s = Some (SQLITE_OK, s')"
    and inv: "invar (inner_file s)"
    and fresh: "\<not> initialization_owner s" "\<not> initialization_lock_held s"
  shows "content (inner_file s) = [] \<and> content (inner_file s') = preamble_image 3 1 \<and>
    invar (inner_file s') \<and> initialization_owner s' \<and> initialization_lock_held s' \<and>
    initialization_preamble_written s' \<and> format_version s' = 3"
proof -
  from i obtain g where sz: "xFileSize m (inner_file s) = (SQLITE_OK, 0, g)"
    by (auto simp: initialize_new_main_database_file_def Let_def split: prod.splits if_splits)
  let ?s1 = "s\<lparr>inner_file := g, format_version := MYLITE_FILE_FORMAT_VERSION\<rparr>"
  from i sz obtain s2 where lock: "acquire_initialization_lock m ?s1 = (SQLITE_OK, s2)"
    by (auto simp: initialize_new_main_database_file_def Let_def split: prod.splits if_splits)
  from i sz lock obtain s3 where f: "inject_fault MYLITE_STORAGE_VFS_FAULT_WRITE s2 = Some (False, s3)"
    by (cases "inject_fault MYLITE_STORAGE_VFS_FAULT_WRITE s2")
      (auto simp: initialize_new_main_database_file_def Let_def split: if_splits)
  from i sz lock f obtain g3 where w: "xWrite m (inner_file s3)
      (Some (preamble_image 3 1)) 4096 0 = (SQLITE_OK, g3)"
    by (auto simp: initialize_new_main_database_file_def Let_def preamble_init_image
        split: prod.splits if_splits)
  let ?s4 = "s3\<lparr>inner_file := g3, initialization_preamble_written := True\<rparr>"
  from i sz lock f w obtain s5 g5 where f2: "inject_fault MYLITE_STORAGE_VFS_FAULT_SYNC ?s4 = Some (False, s5)"
    and sy: "xSync m (inner_file s5) SQLITE_SYNC_FULL = (SQLITE_OK, g5)" and s': "s' = s5\<lparr>inner_file := g5\<rparr>"
    by (cases "inject_fault MYLITE_STORAGE_VFS_FAULT_SYNC ?s4")
      (auto simp: initialize_new_main_database_file_def Let_def preamble_init_image
        split: prod.splits if_splits)
  from size_ok [OF inv sz] have g: "content (inner_file s) = []" "invar g" "content g = []" by auto
  from acquire_ok [OF lock] g have s2: "content (inner_file s2) = []" "invar (inner_file s2)"
    "format_version s2 = 3" by auto
  have own: "initialization_owner s2" "initialization_lock_held s2"
    using acquire_owner [OF lock] fresh by auto
  from inject_fault_same [OF f] have h3: "same_handle s2 s3" "inner_file s3 = inner_file s2" by auto
  from write_ok [OF _ w] s2 h3 have g3: "content g3 = write_at [] 0 (preamble_image 3 1)" "invar g3"
    by auto
  have img: "write_at [] 0 (preamble_image 3 1) = preamble_image 3 1" by (simp add: write_at_def)
  from inject_fault_same [OF f2] have h5: "same_handle ?s4 s5" "inner_file s5 = g3" by auto
  from sync_ok [OF _ sy] h5 g3 img have g5: "content g5 = preamble_image 3 1" "invar g5" by auto
  show ?thesis
    using same_handle_version [OF h3(1)] same_handle_version [OF h5(1)] g(1) g5 s2(3) own same_handle_owner [OF h3(1)] same_handle_owner [OF h5(1)]
      same_handle_written [OF h5(1)]
    by (simp add: s' same_owner_def)
qed

end

section \<open>Properties\<close>

text \<open>
  Property C22. The outcome of an owner's transition. If committing or aborting an initialisation
  returns success, the physical file differs from before in the state byte alone, its preamble
  decodes to exactly the requested state, a commit was only possible on a payload that begins
  with SQLite's header, and the exclusive lock and the ownership are given up. If it returns an
  error, the handle still owns the initialisation and holds the lock.
\<close>
theorem lifecycle_transition_outcome:
  assumes "byte_file m content invar" "invar (inner_file s)" "base_methods s"
    and "initialization_owner s" "initialization_lock_held s" "initialization_preamble_written s"
    and "4096 \<le> length (content (inner_file s))"
    and "mylite_file_preamble_format_version (take 4096 (content (inner_file s))) \<ge>
      MYLITE_FILE_LIFECYCLE_FORMAT_VERSION"
    and "mylite_storage_vfs_transition_initialization m (Some s) commit = Some (rc, Some s')"
  shows "if rc = SQLITE_OK
    then content (inner_file s') = (content (inner_file s))[18 := if commit then 2 else 3] \<and>
      mylite_file_preamble_lifecycle_state (take 4096 (content (inner_file s'))) =
        (if commit then MYLITE_FILE_LIFECYCLE_COMMITTED
         else MYLITE_FILE_LIFECYCLE_RECOVERY_REQUIRED) \<and>
      (commit \<longrightarrow> payload_valid (content (inner_file s'))) \<and>
      \<not> initialization_owner s' \<and> \<not> initialization_lock_held s'
    else initialization_owner s' \<and> initialization_lock_held s'"
proof -
  let ?st = "if commit then MYLITE_FILE_LIFECYCLE_COMMITTED
    else MYLITE_FILE_LIFECYCLE_RECOVERY_REQUIRED"
  from assms(3,9) have t: "transition_initialization_state m s ?st = Some (rc, s')"
    by (simp add: mylite_storage_vfs_transition_initialization_def)
  show ?thesis
  proof (cases "rc = SQLITE_OK")
    case True
    have "(take 4096 (content (inner_file s)))[18 := lifecycle_byte ?st] =
        take 4096 ((content (inner_file s))[18 := lifecycle_byte ?st])"
      by (simp add: take_update_swap)
    moreover have "mylite_file_preamble_lifecycle_state
        ((take 4096 (content (inner_file s)))[18 := lifecycle_byte ?st]) = ?st"
      by (rule lifecycle_byte_update) (use assms(7,8) in auto)
    ultimately show ?thesis
      using byte_file.transition_ok [OF assms(1) t [unfolded True] assms(4-6) assms(2,7)] True
      by (cases commit) auto
  next
    case False
    with transition_failed_owner [OF t] assms(4,5) show ?thesis by (simp add: same_owner_def)
  qed
qed

text \<open>An owner's handle on a file that is being initialised and has its first payload page.\<close>

definition example_new_file :: bytes where
  "example_new_file = preamble_image 3 1 @ sqlite_header @ replicate 496 0"

definition example_owner :: "bytes offset_file" where
  "example_owner = (example_handle example_new_file)
     \<lparr>initialization_owner := True, initialization_lock_held := True,
      initialization_preamble_written := True\<rparr>"

lemma example_new_file_simps:
  "length example_new_file = 4608"
  "take 4096 example_new_file = preamble_image 3 1"
  "take 16 (drop 4096 example_new_file) = sqlite_header"
  by (simp_all add: example_new_file_def)

lemma example_commit:
  "mylite_storage_vfs_transition_initialization mem_methods (Some example_owner) True =
     Some (SQLITE_OK, Some ((example_handle (example_new_file[18 := 2]))
       \<lparr>initialization_preamble_written := True\<rparr>))"
  by (simp add: mylite_storage_vfs_transition_initialization_def transition_unfold checked_payload_def
      validate_sqlite_payload_header_def store_state_def example_owner_def example_handle_def
      example_new_file_simps mem_read_def mem_write_def inject_fault_def no_fault_def Let_def
      buffer_bytes_def mem_equal_def write_at_state_byte release_initialization_lock_def)

theorem lifecycle_transition_outcome_witness:
  "mylite_file_preamble_lifecycle_state (take 4096 (example_new_file[18 := 2])) =
     MYLITE_FILE_LIFECYCLE_COMMITTED \<and> payload_valid (example_new_file[18 := 2])"
  using lifecycle_transition_outcome
    [OF mem.byte_file_axioms, where s = example_owner and commit = True and rc = SQLITE_OK
      and s' = "(example_handle (example_new_file[18 := 2]))\<lparr>initialization_preamble_written := True\<rparr>"]
    example_commit
  by (simp add: example_owner_def example_handle_def example_new_file_simps
      mylite_file_preamble_format_version_def preamble_image_fields lifecycle_state_preamble_image)

text \<open>
  Property C1. A file is never seen as committed unless its owner committed it. Starting from an
  empty file, or from one whose initialisation was interrupted, no sequence of I/O operations,
  aborts, closes, opens and re-creations leads to a file whose preamble decodes as committed;
  this holds with failing and torn writes and with injected faults at any point.
\<close>
theorem never_committed_without_commit:
  assumes "opened_file m content invar base_open"
    and "\<not> base_methods s" "unfinished (content (inner_file s))"
    and "(lifecycle_step m base_open)\<^sup>*\<^sup>* s s'"
  shows "\<not> disk_committed (content (inner_file s'))"
proof (rule uncommitted_not_committed)
  show "uncommitted (content (inner_file s'))"
    by (rule opened_file.lifecycle_steps_uncommitted [OF assms(1,4)])
      (use assms(2,3) unfinished_uncommitted in auto)
qed

lemma example_open:
  "offset_vfs_open mem_methods mem_open True False (zero_offset_file (example_handle
      (preamble_image 3 3))) SQLITE_OPEN_MAIN_DB =
   Some (SQLITE_OK, (example_handle (preamble_image 3 3))
     \<lparr>initialization_owner := True, initialization_lock_held := True,
      initialization_preamble_written := True\<rparr>)"
  by (simp add: offset_vfs_open_def open_inner_file_def mem_open_def file_shifts_offsets_def
      zero_offset_file_def example_handle_def inject_fault_def no_fault_def Let_def
      prepare_main_database_file_def validate_existing_main_database_file_def mem_read_def
      buffer_bytes_def lifecycle_state_preamble_image mylite_file_preamble_format_version_def
      preamble_image_fields format_uses_lock_gap_def acquire_initialization_lock_def
      validate_sector_alignment_def)

theorem never_committed_witness:
  "\<not> disk_committed (inner_file ((example_handle (preamble_image 3 3))
     \<lparr>initialization_owner := True, initialization_lock_held := True,
      initialization_preamble_written := True\<rparr>))"
proof -
  have "(lifecycle_step mem_methods mem_open)\<^sup>*\<^sup>* (zero_offset_file (example_handle (preamble_image 3 3)))
    ((example_handle (preamble_image 3 3))\<lparr>initialization_owner := True,
      initialization_lock_held := True, initialization_preamble_written := True\<rparr>)"
    by (rule r_into_rtranclp, rule l_open [OF _ _ example_open]) (simp_all add: zero_offset_file_def file_shifts_offsets_def)
  from never_committed_without_commit [OF mem_opened.opened_file_axioms _ _ this]
  show ?thesis
    by (simp add: zero_offset_file_def example_handle_def unfinished_def
        lifecycle_state_preamble_image)
qed

text \<open>
  Property C23. What opening an existing database file establishes. On success the file is
  unchanged, its preamble is valid and its format version is in the handle; a committed file has
  SQLite's header and is opened without the initialisation lock; a file whose initialisation was
  interrupted is opened by an owner that holds the exclusive lock, and its payload is either
  absent or begins with SQLite's header.
\<close>
theorem open_existing_outcome:
  assumes "byte_file m content invar"
    and "\<And>f fl meth out g. base_open f fl = (SQLITE_OK, meth, out, g) \<Longrightarrow>
      content g = content f \<and> invar g"
    and "\<not> exclusive_create_enabled s" "file_shifts_offsets flags"
    and "offset_vfs_open m base_open alloc wants s flags = Some (SQLITE_OK, s')"
  shows "let c = content (inner_file s); st = mylite_file_preamble_lifecycle_state (take 4096 c)
    in 4096 \<le> length c \<and> content (inner_file s') = c \<and>
       base_methods s' \<and> shifts_offsets s' \<and>
       format_version s' = mylite_file_preamble_format_version (take 4096 c) \<and>
       st \<noteq> MYLITE_FILE_LIFECYCLE_INVALID \<and>
       (initialization_owner s' \<longleftrightarrow> st \<noteq> MYLITE_FILE_LIFECYCLE_COMMITTED) \<and>
       initialization_lock_held s' = initialization_owner s' \<and>
       (payload_valid c \<or> length c = 4096 \<and> st \<noteq> MYLITE_FILE_LIFECYCLE_COMMITTED)"
  using assms(5,4)
proof (rule open_main_elim)
  fix t g out t'
  assume b: "base_open (inner_file s) (if exclusive_create_enabled s
        then flags OR SQLITE_OPEN_EXCLUSIVE else flags) = (SQLITE_OK, inner_methods t, out, g)"
    and t: "inner_file t = g" "shifts_offsets t" "\<not> initialization_owner t"
      "\<not> initialization_lock_held t"
    and p: "prepare_main_database_file m t (exclusive_create_enabled s) = Some (SQLITE_OK, t')"
    and s': "s' = t'\<lparr>base_methods := True\<rparr>"
  from p assms(3) have v: "validate_existing_main_database_file m t = (SQLITE_OK, t')"
    by (simp add: prepare_main_database_file_def)
  from assms(2) [OF b] have g: "content g = content (inner_file s)" "invar g" by auto
  show ?thesis
    using byte_file.validate_existing_ok [OF assms(1) v] validate_existing_mode [OF v] t g
    by (simp add: Let_def s' same_mode_def)
qed

theorem open_existing_outcome_witness:
  "mylite_file_preamble_lifecycle_state (take 4096 (preamble_image 3 3)) \<noteq>
     MYLITE_FILE_LIFECYCLE_INVALID"
  using open_existing_outcome [OF mem.byte_file_axioms _ _ _ example_open]
  by (simp add: mem_open_def zero_offset_file_def example_handle_def file_shifts_offsets_def Let_def)

text \<open>
  Property C24. Creating a database file succeeds only on an empty file, and then the physical
  file consists of exactly the preamble of the current format in the initializing state, and the
  handle owns the initialisation and holds the exclusive lock.
\<close>
theorem create_outcome:
  assumes "byte_file m content invar"
    and "\<And>f fl meth out g. base_open f fl = (SQLITE_OK, meth, out, g) \<Longrightarrow>
      content g = content f \<and> invar g"
    and "exclusive_create_enabled s" "file_shifts_offsets flags"
    and "offset_vfs_open m base_open alloc wants s flags = Some (SQLITE_OK, s')"
  shows "content (inner_file s) = [] \<and>
    content (inner_file s') = preamble_image MYLITE_FILE_FORMAT_VERSION
      (lifecycle_byte MYLITE_FILE_LIFECYCLE_INITIALIZING) \<and>
    base_methods s' \<and> shifts_offsets s' \<and> format_version s' = MYLITE_FILE_FORMAT_VERSION \<and>
    initialization_owner s' \<and> initialization_lock_held s' \<and> initialization_preamble_written s'"
  using assms(5,4)
proof (rule open_main_elim)
  fix t g out t'
  assume b: "base_open (inner_file s) (if exclusive_create_enabled s
        then flags OR SQLITE_OPEN_EXCLUSIVE else flags) = (SQLITE_OK, inner_methods t, out, g)"
    and t: "inner_file t = g" "shifts_offsets t" "\<not> initialization_owner t"
      "\<not> initialization_lock_held t"
    and p: "prepare_main_database_file m t (exclusive_create_enabled s) = Some (SQLITE_OK, t')"
    and s': "s' = t'\<lparr>base_methods := True\<rparr>"
  from p assms(3) have v: "initialize_new_main_database_file m t = Some (SQLITE_OK, t')"
    by (simp add: prepare_main_database_file_def)
  from assms(2) [OF b] have g: "content g = content (inner_file s)" "invar g" by auto
  show ?thesis
    using byte_file.initialize_new_ok [OF assms(1) v] initialize_new_mode [OF v] t g
    by (simp add: s' same_mode_def)
qed

lemma example_create:
  "offset_vfs_open mem_methods mem_open True False (mylite_storage_vfs_set_exclusive_create True
      (zero_offset_file (example_handle []))) SQLITE_OPEN_MAIN_DB =
   Some (SQLITE_OK, (example_handle (preamble_image 3 1))
     \<lparr>initialization_owner := True, initialization_lock_held := True,
      initialization_preamble_written := True, exclusive_create_enabled := True\<rparr>)"
  by (simp add: offset_vfs_open_def open_inner_file_def mem_open_def file_shifts_offsets_def
      zero_offset_file_def example_handle_def inject_fault_def no_fault_def Let_def
      prepare_main_database_file_def initialize_new_main_database_file_def mem_write_def
      preamble_init_image acquire_initialization_lock_def write_at_def
      mylite_storage_vfs_set_exclusive_create_def validate_sector_alignment_def)

theorem create_outcome_witness:
  "map_option (\<lambda>(rc, s). inner_file s)
     (offset_vfs_open mem_methods mem_open True False (mylite_storage_vfs_set_exclusive_create True
       (zero_offset_file (example_handle []))) SQLITE_OPEN_MAIN_DB) =
   Some (preamble_image 3 (lifecycle_byte MYLITE_FILE_LIFECYCLE_INITIALIZING))"
  using create_outcome [OF mem.byte_file_axioms _ _ _ example_create] example_create
  by (simp add: mem_open_def zero_offset_file_def example_handle_def file_shifts_offsets_def
      mylite_storage_vfs_set_exclusive_create_def)

end
