(* ===== verification/File_Open.thy ===== *)
theory File_Open
  imports Vfs_Lifecycle
begin

text \<open>
  Opening the SQLite database behind a MyLite file: \<^verbatim>\<open>storage/mylite_file_open.c\<close> and the
  registration part of \<^verbatim>\<open>storage/mylite_offset_vfs.c\<close>. SQLite itself is a parameter: a table
  of the calls the code makes, over an arbitrary state \<open>'w\<close> of the library and its handles
  \<open>'h\<close>.
\<close>

section \<open>Registering the VFS\<close>

text \<open>
  A registered VFS: its name, the size of its file structure, the longest path, and whether it
  is the static object \<^verbatim>\<open>mylite_offset_vfs\<close>.
\<close>

record vfs =
  zName :: string
  szOsFile :: int
  mxPathname :: int
  is_offset_vfs :: bool

record 'w vfs_api =
  sq_initialize :: "'w \<Rightarrow> int \<times> 'w"
  vfs_find :: "'w \<Rightarrow> string option \<Rightarrow> vfs option"
  vfs_register :: "'w \<Rightarrow> vfs \<Rightarrow> int \<times> 'w"

definition sqlite_status_to_mylite :: "int \<Rightarrow> int" where
  "sqlite_status_to_mylite sqlite_status =
     (if sqlite_status = SQLITE_OK then MYLITE_OK
      else if sqlite_status = SQLITE_NOMEM then MYLITE_NOMEM
      else if sqlite_status = SQLITE_MISUSE then MYLITE_MISUSE
      else MYLITE_ERROR)"

definition mylite_storage_vfs_name :: string where
  "mylite_storage_vfs_name = ''mylite-offset-vfs''"

text \<open>\<open>file_size\<close> is \<^verbatim>\<open>sizeof(struct mylite_offset_file)\<close>.\<close>

definition register_offset_vfs :: "'w vfs_api \<Rightarrow> int \<Rightarrow> 'w \<Rightarrow> vfs \<Rightarrow> int \<times> 'w" where
  "register_offset_vfs api file_size w base_vfs =
     (let (rc, w) = vfs_register api w
            \<lparr>zName = mylite_storage_vfs_name, szOsFile = file_size,
             mxPathname = mxPathname base_vfs, is_offset_vfs = True\<rparr>
      in (sqlite_status_to_mylite rc, w))"

definition ensure_vfs_registered_locked :: "'w vfs_api \<Rightarrow> int \<Rightarrow> 'w \<Rightarrow> int \<times> 'w" where
  "ensure_vfs_registered_locked api file_size w =
     (case vfs_find api w (Some mylite_storage_vfs_name) of
        Some registered_vfs \<Rightarrow> (if is_offset_vfs registered_vfs then MYLITE_OK else MYLITE_ERROR, w)
      | None \<Rightarrow>
        (case vfs_find api w None of
           None \<Rightarrow> (MYLITE_ERROR, w)
         | Some base_vfs \<Rightarrow>
           if szOsFile base_vfs \<le> 0 then (MYLITE_ERROR, w)
           else register_offset_vfs api file_size w base_vfs))"

definition mylite_storage_vfs_ensure_registered :: "'w vfs_api \<Rightarrow> int \<Rightarrow> 'w \<Rightarrow> int \<times> 'w" where
  "mylite_storage_vfs_ensure_registered api file_size w =
     (let (rc, w) = sq_initialize api w
      in if rc \<noteq> SQLITE_OK then (sqlite_status_to_mylite rc, w)
         else ensure_vfs_registered_locked api file_size w)"

section \<open>Opening and configuring the payload\<close>

text \<open>
  The calls on connections. \<open>sq_open\<close> is told whether the thread-local exclusive-create flag
  is set, which \<^verbatim>\<open>offset_vfs_open\<close> reads. \<open>sq_file_pointer\<close> answers the file control that
  looks up the file of the main database, a pointer into SQLite's state; \<open>sq_store_file\<close> is
  that state after the file behind the pointer changed.
\<close>

record ('w, 'h, 'f) sqlite_api =
  sq_vfs :: "'w vfs_api"
  sq_open :: "'w \<Rightarrow> string \<Rightarrow> 32 word \<Rightarrow> bool \<Rightarrow> int \<times> 'h option \<times> 'w"
  sq_close :: "'w \<Rightarrow> 'h \<Rightarrow> int \<times> 'w"
  sq_exec :: "'w \<Rightarrow> 'h \<Rightarrow> string \<Rightarrow> int \<times> 'w"
  sq_file_pointer :: "'w \<Rightarrow> 'h \<Rightarrow> int \<times> 'f offset_file option \<times> 'w"
  sq_store_file :: "'w \<Rightarrow> 'h \<Rightarrow> 'f offset_file option \<Rightarrow> 'w"

abbreviation (input) SQLITE_BUSY :: int where "SQLITE_BUSY \<equiv> 5"
abbreviation (input) SQLITE_OPEN_READWRITE :: "32 word" where "SQLITE_OPEN_READWRITE \<equiv> 0x02"
abbreviation (input) SQLITE_OPEN_CREATE :: "32 word" where "SQLITE_OPEN_CREATE \<equiv> 0x04"

text \<open>The thread-local variables next to the state of SQLite.\<close>

record 'w storage =
  world :: 'w
  exclusive_create :: bool
  test_truncate_journal :: bool

definition open_sqlite ::
    "('w, 'h, 'f) sqlite_api \<Rightarrow> 'w storage \<Rightarrow> string \<Rightarrow> 32 word \<Rightarrow> bool \<Rightarrow> int \<times> 'h option \<times> 'w storage" where
  "open_sqlite api s path flags exclusive_create_arg =
     (let s = s\<lparr>exclusive_create := exclusive_create_arg\<rparr>;
          (sqlite_rc, out_sqlite, w) = sq_open api (world s) path flags (exclusive_create s);
          s = s\<lparr>world := w\<rparr>;
          s = s\<lparr>exclusive_create := False\<rparr>
      in (sqlite_status_to_mylite sqlite_rc, out_sqlite, s))"

definition close_handle :: "('w, 'h, 'f) sqlite_api \<Rightarrow> 'w storage \<Rightarrow> 'h option \<Rightarrow> 'w storage" where
  "close_handle api s sqlite = (case sqlite of
     None \<Rightarrow> s | Some h \<Rightarrow> s\<lparr>world := snd (sq_close api (world s) h)\<rparr>)"

text \<open>A path that is NULL is \<open>None\<close>; \<open>wants_handle\<close> says that the out-pointer is not NULL.\<close>

definition mylite_storage_open_sqlite_payload ::
    "('w, 'h, 'f) sqlite_api \<Rightarrow> int \<Rightarrow> 'w storage \<Rightarrow> string option \<Rightarrow> bool \<Rightarrow>
     int \<times> 'h option \<times> 'w storage" where
  "mylite_storage_open_sqlite_payload api file_size s path wants_handle =
     (case path of
        None \<Rightarrow> (MYLITE_MISUSE, None, s)
      | Some p \<Rightarrow>
        if p = [] \<or> \<not> wants_handle then (MYLITE_MISUSE, None, s)
        else (let (rc, w) = mylite_storage_vfs_ensure_registered (sq_vfs api) file_size (world s);
                  s = s\<lparr>world := w\<rparr>
              in if rc \<noteq> MYLITE_OK then (rc, None, s)
                 else (let (rc, sqlite, s) =
                             open_sqlite api s p (SQLITE_OPEN_READWRITE OR SQLITE_OPEN_CREATE) True;
                           (rc, sqlite, s) =
                             (if rc = MYLITE_ERROR
                              then open_sqlite api (close_handle api s sqlite) p
                                     SQLITE_OPEN_READWRITE False
                              else (rc, sqlite, s))
                       in if rc \<noteq> MYLITE_OK then (rc, None, close_handle api s sqlite)
                          else (MYLITE_OK, sqlite, s))))"

definition control_sqlite_initialization ::
    "'f io_methods \<Rightarrow> ('w, 'h, 'f) sqlite_api \<Rightarrow> 'w storage \<Rightarrow> 'h \<Rightarrow> bool \<Rightarrow>
     (int \<times> 'w storage) option" where
  "control_sqlite_initialization m api s sqlite commit =
     (let (rc, file, w) = sq_file_pointer api (world s) sqlite;
          s = s\<lparr>world := w\<rparr>
      in if rc \<noteq> SQLITE_OK then Some (rc, s)
         else (case mylite_storage_vfs_transition_initialization m file commit of
                 None \<Rightarrow> None
               | Some (rc, file) \<Rightarrow> Some (rc, s\<lparr>world := sq_store_file api (world s) sqlite file\<rparr>)))"

definition mylite_storage_commit_sqlite_initialization ::
    "'f io_methods \<Rightarrow> ('w, 'h, 'f) sqlite_api \<Rightarrow> 'w storage \<Rightarrow> 'h option \<Rightarrow>
     (int \<times> 'w storage) option" where
  "mylite_storage_commit_sqlite_initialization m api s sqlite =
     (case sqlite of
        None \<Rightarrow> Some (MYLITE_MISUSE, s)
      | Some h \<Rightarrow> map_option (\<lambda>(rc, s). (sqlite_status_to_mylite rc, s))
          (control_sqlite_initialization m api s h True))"

definition mylite_storage_abort_sqlite_initialization ::
    "'f io_methods \<Rightarrow> ('w, 'h, 'f) sqlite_api \<Rightarrow> 'w storage \<Rightarrow> 'h option \<Rightarrow> 'w storage option" where
  "mylite_storage_abort_sqlite_initialization m api s sqlite =
     (case sqlite of
        None \<Rightarrow> Some s
      | Some h \<Rightarrow> map_option snd (control_sqlite_initialization m api s h False))"

definition mylite_storage_configure_sqlite_payload ::
    "('w, 'h, 'f) sqlite_api \<Rightarrow> 'w storage \<Rightarrow> 'h option \<Rightarrow> int \<times> 'w storage" where
  "mylite_storage_configure_sqlite_payload api s sqlite =
     (case sqlite of
        None \<Rightarrow> (MYLITE_MISUSE, s)
      | Some h \<Rightarrow>
        (let (rc, w) = sq_exec api (world s) h
               (if test_truncate_journal s then ''PRAGMA journal_mode=TRUNCATE''
                else ''PRAGMA journal_mode=DELETE'');
             s = s\<lparr>world := w\<rparr>
         in if rc \<noteq> SQLITE_OK then (sqlite_status_to_mylite rc, s)
            else (let (rc, w) = sq_exec api (world s) h ''PRAGMA synchronous=EXTRA'';
                      s = s\<lparr>world := w\<rparr>
                  in if rc \<noteq> SQLITE_OK then (sqlite_status_to_mylite rc, s)
                     else (let (rc, w) = sq_exec api (world s) h ''PRAGMA mmap_size=0'';
                               s = s\<lparr>world := w\<rparr>
                           in if rc \<noteq> SQLITE_OK then (sqlite_status_to_mylite rc, s)
                              else (MYLITE_OK, s)))))"

definition mylite_storage_test_set_truncate_journal :: "'w storage \<Rightarrow> bool \<Rightarrow> 'w storage" where
  "mylite_storage_test_set_truncate_journal s enabled = s\<lparr>test_truncate_journal := enabled\<rparr>"

section \<open>The interface to SQLite's handles\<close>

text \<open>
  What SQLite documents of its connection handles, where \<open>unfinished w x\<close> counts the unfinalised
  prepared statements, open BLOB handles and unfinished backups of the connection \<open>x\<close>. Opening may
  return a handle even when it fails; the handle is new, has nothing unfinished and is open until
  it is closed. Closing an open connection succeeds, and the connection is gone, when it has
  nothing unfinished; otherwise \<^verbatim>\<open>sqlite3_close\<close> returns SQLITE_BUSY and leaves the connection open.
  Neither affects another connection, and registering VFSs leaves them all alone.
\<close>

locale sqlite_handles =
  fixes api :: "('w, 'h, 'f) sqlite_api" and handles :: "'w \<Rightarrow> 'h set" and unfinished :: "'w \<Rightarrow> 'h \<Rightarrow> nat"
  assumes open_handles:
    "sq_open api w path flags e = (rc, h, w') \<Longrightarrow>
     handles w' = handles w \<union> set_option h \<and> set_option h \<inter> handles w = {}"
    and open_unfinished:
    "sq_open api w path flags e = (rc, h, w') \<Longrightarrow>
     unfinished w' x = (if h = Some x then 0 else unfinished w x)"
    and open_success: "sq_open api w path flags e = (SQLITE_OK, h, w') \<Longrightarrow> h \<noteq> None"
    and close_finished:
    "sq_close api w x = (rc, w') \<Longrightarrow> x \<in> handles w \<Longrightarrow> unfinished w x = 0 \<Longrightarrow>
     rc = SQLITE_OK \<and> handles w' = handles w - {x} \<and> unfinished w' = unfinished w"
    and close_busy:
    "sq_close api w x = (rc, w') \<Longrightarrow> x \<in> handles w \<Longrightarrow> 0 < unfinished w x \<Longrightarrow>
     rc = SQLITE_BUSY \<and> handles w' = handles w \<and> unfinished w' = unfinished w"
    and initialize_handles:
    "sq_initialize (sq_vfs api) w = (rc, w') \<Longrightarrow> handles w' = handles w \<and> unfinished w' = unfinished w"
    and register_handles:
    "vfs_register (sq_vfs api) w v = (rc, w') \<Longrightarrow> handles w' = handles w \<and> unfinished w' = unfinished w"
begin

lemma ensure_registered_handles:
  "mylite_storage_vfs_ensure_registered (sq_vfs api) n w = (rc, w') \<Longrightarrow>
   handles w' = handles w \<and> unfinished w' = unfinished w"
  by (auto simp: mylite_storage_vfs_ensure_registered_def ensure_vfs_registered_locked_def
      register_offset_vfs_def split: prod.splits if_splits option.splits
      dest!: initialize_handles register_handles)

lemma status_ok_iff: "sqlite_status_to_mylite rc = MYLITE_OK \<longleftrightarrow> rc = SQLITE_OK"
  by (simp add: sqlite_status_to_mylite_def)

lemma open_sqlite_handles:
  assumes "open_sqlite api s path flags e = (rc, h, s')"
  shows "handles (world s') = handles (world s) \<union> set_option h \<and>
    set_option h \<inter> handles (world s) = {} \<and> \<not> exclusive_create s' \<and>
    (\<forall>x. unfinished (world s') x = (if h = Some x then 0 else unfinished (world s) x)) \<and>
    (rc = MYLITE_OK \<longrightarrow> h \<noteq> None)"
proof -
  obtain r k w where o: "sq_open api (world s) path flags e = (r, k, w)" by (metis prod_cases3)
  have "open_sqlite api s path flags e =
      (sqlite_status_to_mylite r, k, s\<lparr>world := w, exclusive_create := False\<rparr>)"
    by (simp add: open_sqlite_def Let_def o)
  with assms have "rc = sqlite_status_to_mylite r" "h = k"
    "s' = s\<lparr>world := w, exclusive_create := False\<rparr>" by auto
  with open_handles [OF o] open_unfinished [OF o] open_success [of "world s" path flags e k w] o show ?thesis
    by (auto simp: status_ok_iff)
qed

text \<open>Closing a connection that was just opened: it has nothing unfinished, so that it goes.\<close>

lemma close_handle_handles:
  assumes "open_sqlite api s path flags e = (rc, h, s1)" "s' = close_handle api s1 h"
  shows "handles (world s') = handles (world s)" "exclusive_create s' = exclusive_create s1"
    "x \<in> handles (world s) \<Longrightarrow> unfinished (world s') x = unfinished (world s) x"
proof -
  note o = open_sqlite_handles [OF assms(1)]
  have "handles (world s') = handles (world s) \<and> exclusive_create s' = exclusive_create s1 \<and>
    (x \<in> handles (world s) \<longrightarrow> unfinished (world s') x = unfinished (world s) x)"
  proof (cases h)
    case None
    with o assms(2) show ?thesis by (simp add: close_handle_def)
  next
    case (Some k)
    obtain r w where c: "sq_close api (world s1) k = (r, w)" by fastforce
    with Some assms(2) have "s' = s1\<lparr>world := w\<rparr>" by (simp add: close_handle_def)
    moreover have "k \<in> handles (world s1)" "unfinished (world s1) k = 0" using o Some by simp_all
    ultimately show ?thesis using close_finished [OF c] o Some by auto
  qed
  then show "handles (world s') = handles (world s)" "exclusive_create s' = exclusive_create s1"
    "x \<in> handles (world s) \<Longrightarrow> unfinished (world s') x = unfinished (world s) x" by auto
qed

lemma open_payload_handles:
  assumes o: "mylite_storage_open_sqlite_payload api n s path wants = (rc, h, s')"
    and "\<not> exclusive_create s"
  shows "\<not> exclusive_create s' \<and> (\<forall>y\<in>handles (world s). unfinished (world s') y = unfinished (world s) y) \<and>
    (if rc = MYLITE_OK
     then \<exists>x. h = Some x \<and> x \<notin> handles (world s) \<and> handles (world s') = insert x (handles (world s)) \<and>
       unfinished (world s') x = 0
     else h = None \<and> handles (world s') = handles (world s))"
proof (cases "path = None \<or> path = Some [] \<or> \<not> wants")
  case True
  with assms show ?thesis
    by (auto simp: mylite_storage_open_sqlite_payload_def split: option.splits if_splits)
next
  case False
  then obtain p where p: "path = Some p" "p \<noteq> []" "wants" by auto
  obtain rc0 w where reg: "mylite_storage_vfs_ensure_registered (sq_vfs api) n (world s) = (rc0, w)"
    by fastforce
  note hs = ensure_registered_handles [OF reg]
  show ?thesis
  proof (cases "rc0 = MYLITE_OK")
    case False
    then have "mylite_storage_open_sqlite_payload api n s path wants = (rc0, None, s\<lparr>world := w\<rparr>)"
      using p reg by (simp add: mylite_storage_open_sqlite_payload_def Let_def)
    with o have "rc = rc0" "h = None" "s' = s\<lparr>world := w\<rparr>" by simp_all
    with False hs assms(2) show ?thesis by simp
  next
    case ok: True
    obtain rc1 h1 s1 where o1: "open_sqlite api (s\<lparr>world := w\<rparr>) p
        (SQLITE_OPEN_READWRITE OR SQLITE_OPEN_CREATE) True = (rc1, h1, s1)" by (metis prod_cases3)
    obtain rc2 h2 s2 where o2: "open_sqlite api (close_handle api s1 h1) p SQLITE_OPEN_READWRITE
        False = (rc2, h2, s2)" by (metis prod_cases3)
    note h1 = open_sqlite_handles [OF o1] and h2 = open_sqlite_handles [OF o2]
    note c1 = close_handle_handles [OF o1 refl] and c2 = close_handle_handles [OF o2 refl]
    show ?thesis
    proof (cases "rc1 = MYLITE_ERROR")
      case True
      then have "mylite_storage_open_sqlite_payload api n s path wants =
          (if rc2 \<noteq> MYLITE_OK then (rc2, None, close_handle api s2 h2) else (MYLITE_OK, h2, s2))"
        using p reg ok o1 o2 by (simp add: mylite_storage_open_sqlite_payload_def Let_def)
      with o have "(rc, h, s') =
          (if rc2 \<noteq> MYLITE_OK then (rc2, None, close_handle api s2 h2) else (MYLITE_OK, h2, s2))"
        by simp
      with h2 hs c1 c2 show ?thesis by (auto split: if_splits)
    next
      case False
      then have "mylite_storage_open_sqlite_payload api n s path wants =
          (if rc1 \<noteq> MYLITE_OK then (rc1, None, close_handle api s1 h1) else (MYLITE_OK, h1, s1))"
        using p reg ok o1 by (simp add: mylite_storage_open_sqlite_payload_def Let_def)
      with o have "(rc, h, s') =
          (if rc1 \<noteq> MYLITE_OK then (rc1, None, close_handle api s1 h1) else (MYLITE_OK, h1, s1))"
        by simp
      with h1 hs c1 show ?thesis by (auto split: if_splits)
    qed
  qed
qed

end

text \<open>
  A connection table: the open handles are numbers, opening a path that exists with the
  exclusive flag set fails and still returns a handle, and a connection with statements stays open
  when it is closed, as SQLite does.
\<close>

record connections =
  open_ids :: "nat list"
  statement_owners :: "nat list"
  next_id :: nat
  files :: "string list"
  vfs_list :: "vfs list"

definition table_api :: "(connections, nat, bytes) sqlite_api" where
  "table_api =
     \<lparr>sq_vfs =
        \<lparr>sq_initialize = (\<lambda>w. (SQLITE_OK, w)),
         vfs_find = (\<lambda>w n. case n of
             None \<Rightarrow> List.find (\<lambda>v. \<not> is_offset_vfs v) (vfs_list w)
           | Some name \<Rightarrow> List.find (\<lambda>v. zName v = name) (vfs_list w)),
         vfs_register = (\<lambda>w v. (SQLITE_OK, w\<lparr>vfs_list := v # vfs_list w\<rparr>))\<rparr>,
      sq_open = (\<lambda>w path flags e.
        (if e \<and> path \<in> set (files w) then SQLITE_CANTOPEN else SQLITE_OK, Some (next_id w),
         w\<lparr>open_ids := next_id w # open_ids w, next_id := Suc (next_id w),
           statement_owners := filter (\<lambda>x. x \<noteq> next_id w) (statement_owners w),
           files := List.insert path (files w)\<rparr>)),
      sq_close = (\<lambda>w h. if h \<in> set (statement_owners w) then (SQLITE_BUSY, w)
         else (SQLITE_OK, w\<lparr>open_ids := filter (\<lambda>x. x \<noteq> h) (open_ids w)\<rparr>)),
      sq_exec = (\<lambda>w h sql. (SQLITE_OK, w)),
      sq_file_pointer = (\<lambda>w h. (SQLITE_OK, None, w)),
      sq_store_file = (\<lambda>w h file. w)\<rparr>"

definition table_handles :: "connections \<Rightarrow> nat set" where
  "table_handles w = set (open_ids w) \<inter> {..<next_id w}"

definition table_unfinished :: "connections \<Rightarrow> nat \<Rightarrow> nat" where
  "table_unfinished w h = length (filter (\<lambda>x. x = h) (statement_owners w))"

interpretation table: sqlite_handles table_api table_handles table_unfinished
  by unfold_locales
    (auto simp: table_api_def table_handles_def table_unfinished_def filter_empty_conv fun_eq_iff
      intro!: arg_cong [of _ _ length] filter_cong split: if_splits)

section \<open>Properties\<close>

text \<open>
  Property C35. Opening a payload neither leaks a connection nor leaves the thread in
  exclusive-create mode: on success exactly one new handle is open and returned, on any failure,
  including a failed exclusive create followed by a failed retry on the existing file, the open
  handles are the ones before the call and none is returned. The results of \<^verbatim>\<open>sqlite3_close\<close>, which
  leaves a connection open while it has unfinished statements, BLOBs or backups, may be ignored
  here: only connections that were just opened are closed. The connections that were open before
  keep what they have unfinished.
\<close>
theorem open_payload_no_leak:
  assumes "sqlite_handles api handles unfinished" "\<not> exclusive_create s"
    and "mylite_storage_open_sqlite_payload api n s path wants = (rc, h, s')"
  shows "\<not> exclusive_create s' \<and> (\<forall>y\<in>handles (world s). unfinished (world s') y = unfinished (world s) y) \<and>
    (if rc = MYLITE_OK
     then \<exists>x. h = Some x \<and> x \<notin> handles (world s) \<and> handles (world s') = insert x (handles (world s)) \<and>
       unfinished (world s') x = 0
     else h = None \<and> handles (world s') = handles (world s))"
  using sqlite_handles.open_payload_handles [OF assms(1,3,2)] .

definition example_storage :: "connections storage" where
  "example_storage =
     \<lparr>world = \<lparr>open_ids = [0], statement_owners = [0, 0], next_id = 1, files = [''a.mylite''],
        vfs_list = [\<lparr>zName = ''unix'', szOsFile = 8, mxPathname = 512, is_offset_vfs = False\<rparr>]\<rparr>,
      exclusive_create = False, test_truncate_journal = False\<rparr>"

lemma example_open_existing:
  "fst (mylite_storage_open_sqlite_payload table_api 40 example_storage (Some ''a.mylite'') True) =
     MYLITE_OK \<and>
   fst (snd (mylite_storage_open_sqlite_payload table_api 40 example_storage (Some ''a.mylite'') True)) =
     Some 2"
  by (simp add: mylite_storage_open_sqlite_payload_def example_storage_def table_api_def
      mylite_storage_vfs_ensure_registered_def ensure_vfs_registered_locked_def
      register_offset_vfs_def mylite_storage_vfs_name_def sqlite_status_to_mylite_def
      open_sqlite_def close_handle_def Let_def)

theorem open_payload_no_leak_witness:
  "table_handles (world (snd (snd (mylite_storage_open_sqlite_payload table_api 40 example_storage
     (Some ''a.mylite'') True)))) = {0, 2} \<and>
   table_unfinished (world (snd (snd (mylite_storage_open_sqlite_payload table_api 40 example_storage
     (Some ''a.mylite'') True)))) 0 = 2"
  using open_payload_no_leak [OF table.sqlite_handles_axioms _ surjective_pairing
      [THEN trans, OF arg_cong2 [OF refl surjective_pairing, of Pair]],
      of example_storage 40 "Some ''a.mylite''" True]
    example_open_existing
  by (auto simp: example_storage_def table_handles_def table_unfinished_def)

end
