(* ===== verification/Diagnostics.thy ===== *)
theory Diagnostics
  imports MyLite_Prelude
begin

text \<open>
  The diagnostics area of a connection, \<^verbatim>\<open>runtime/mylite_diagnostics.c\<close>: the current
  condition, and the warnings kept up to a maximum while their totals go on counting. A C
  string is a \<open>string\<close> without its NUL; a pointer that may be NULL is an option. The array
  of warnings is the list of the slots written so far; the first \<open>warning_count\<close> of them are
  in use.
\<close>

section \<open>Data\<close>

abbreviation (input) MYLITE_SQLSTATE_LENGTH :: nat where "MYLITE_SQLSTATE_LENGTH \<equiv> 5"
abbreviation (input) MYLITE_DIAGNOSTIC_LEVEL_CAPACITY :: nat
  where "MYLITE_DIAGNOSTIC_LEVEL_CAPACITY \<equiv> 8"
abbreviation (input) MYLITE_DIAGNOSTIC_MESSAGE_CAPACITY :: nat
  where "MYLITE_DIAGNOSTIC_MESSAGE_CAPACITY \<equiv> 256"
abbreviation (input) initial_warning_capacity :: nat where "initial_warning_capacity \<equiv> 4"
abbreviation (input) sizeof_diagnostic_record :: nat where "sizeof_diagnostic_record \<equiv> 276"

record diagnostic_record =
  level :: string
  code :: int
  sqlstate :: string
  message :: string

record mylite_diagnostics =
  condition :: diagnostic_record
  warnings :: "diagnostic_record list"
  warning_count :: nat
  warning_total_count :: nat
  count_only_warning_total_count :: nat
  error_warning_total_count :: nat
  warning_capacity :: nat
  max_warning_count :: nat
  notes_enabled :: bool

section \<open>Records\<close>

definition mylite_diagnostics_misuse_sqlstate :: string where
  "mylite_diagnostics_misuse_sqlstate = ''HY000''"

definition mylite_diagnostics_misuse_message :: string where
  "mylite_diagnostics_misuse_message = ''bad parameter or other API misuse''"

definition mylite_diagnostics_ok_sqlstate :: string where
  "mylite_diagnostics_ok_sqlstate = ''00000''"

definition mylite_diagnostics_ok_message :: string where
  "mylite_diagnostics_ok_message = ''not an error''"

text \<open>
  \<^verbatim>\<open>snprintf("%s")\<close> into a buffer truncates; it reports a negative value when the length does
  not fit an \<^verbatim>\<open>int\<close>.
\<close>

definition copy_text :: "nat \<Rightarrow> string option \<Rightarrow> string" where
  "copy_text destination_size source =
     (let text = (case source of None \<Rightarrow> [] | Some s \<Rightarrow> s)
      in if int (length text) > INT32_MAX then [] else take (destination_size - 1) text)"

definition sqlstate_is_valid :: "string option \<Rightarrow> bool" where
  "sqlstate_is_valid s = (case s of None \<Rightarrow> False | Some t \<Rightarrow> length t = MYLITE_SQLSTATE_LENGTH)"

definition set_sqlstate :: "diagnostic_record \<Rightarrow> string option \<Rightarrow> diagnostic_record" where
  "set_sqlstate r s =
     r\<lparr>sqlstate := take MYLITE_SQLSTATE_LENGTH
        (if sqlstate_is_valid s then the s else mylite_diagnostics_misuse_sqlstate)\<rparr>"

definition set_record ::
    "diagnostic_record \<Rightarrow> string \<Rightarrow> int \<Rightarrow> string option \<Rightarrow> string option \<Rightarrow> diagnostic_record" where
  "set_record r lv c st msg =
     (let r = r\<lparr>level := copy_text MYLITE_DIAGNOSTIC_LEVEL_CAPACITY (Some lv)\<rparr>;
          r = r\<lparr>code := c\<rparr>;
          r = set_sqlstate r st
      in r\<lparr>message := copy_text MYLITE_DIAGNOSTIC_MESSAGE_CAPACITY msg\<rparr>)"

definition blank_record :: diagnostic_record where
  "blank_record = \<lparr>level = [], code = 0, sqlstate = [], message = []\<rparr>"

section \<open>Operations\<close>

definition clear_condition :: "mylite_diagnostics \<Rightarrow> mylite_diagnostics" where
  "clear_condition d =
     d\<lparr>condition := set_record (condition d) ''Error'' MYLITE_OK
        (Some mylite_diagnostics_ok_sqlstate) (Some mylite_diagnostics_ok_message)\<rparr>"

definition mylite_diagnostics_clear_condition ::
    "mylite_diagnostics option \<Rightarrow> mylite_diagnostics option" where
  "mylite_diagnostics_clear_condition p = map_option clear_condition p"

definition reset_area :: "mylite_diagnostics \<Rightarrow> mylite_diagnostics" where
  "reset_area d =
     (clear_condition d)\<lparr>warning_count := 0, warning_total_count := 0,
        count_only_warning_total_count := 0, error_warning_total_count := 0\<rparr>"

definition mylite_diagnostics_reset :: "mylite_diagnostics option \<Rightarrow> mylite_diagnostics option" where
  "mylite_diagnostics_reset p = map_option reset_area p"

definition init_area :: "mylite_diagnostics \<Rightarrow> mylite_diagnostics" where
  "init_area d =
     reset_area (d\<lparr>warnings := [], warning_count := 0, warning_total_count := 0,
        count_only_warning_total_count := 0, error_warning_total_count := 0,
        warning_capacity := 0, max_warning_count := SIZE_MAX, notes_enabled := True\<rparr>)"

definition mylite_diagnostics_init :: "mylite_diagnostics option \<Rightarrow> mylite_diagnostics option" where
  "mylite_diagnostics_init p = map_option init_area p"

definition deinit_area :: "mylite_diagnostics \<Rightarrow> mylite_diagnostics" where
  "deinit_area d =
     reset_area (d\<lparr>warnings := [], warning_count := 0, warning_total_count := 0,
        count_only_warning_total_count := 0, error_warning_total_count := 0,
        warning_capacity := 0\<rparr>)"

definition mylite_diagnostics_deinit :: "mylite_diagnostics option \<Rightarrow> mylite_diagnostics option" where
  "mylite_diagnostics_deinit p = map_option deinit_area p"

definition mylite_diagnostics_set_max_warning_count ::
    "mylite_diagnostics option \<Rightarrow> nat \<Rightarrow> mylite_diagnostics option" where
  "mylite_diagnostics_set_max_warning_count p n = map_option (\<lambda>d. d\<lparr>max_warning_count := n\<rparr>) p"

definition mylite_diagnostics_set_notes_enabled ::
    "mylite_diagnostics option \<Rightarrow> bool \<Rightarrow> mylite_diagnostics option" where
  "mylite_diagnostics_set_notes_enabled p b = map_option (\<lambda>d. d\<lparr>notes_enabled := b\<rparr>) p"

definition set_error ::
    "mylite_diagnostics \<Rightarrow> int \<Rightarrow> string option \<Rightarrow> string option \<Rightarrow> mylite_diagnostics" where
  "set_error d c st msg = d\<lparr>condition := set_record (condition d) ''Error'' c st msg\<rparr>"

definition mylite_diagnostics_set_error ::
    "mylite_diagnostics option \<Rightarrow> int \<Rightarrow> string option \<Rightarrow> string option \<Rightarrow> mylite_diagnostics option" where
  "mylite_diagnostics_set_error p c st msg = map_option (\<lambda>d. set_error d c st msg) p"

definition reserve_warnings ::
    "allocator \<Rightarrow> mylite_diagnostics \<Rightarrow> nat \<Rightarrow> int \<times> mylite_diagnostics \<times> allocator" where
  "reserve_warnings al d required_capacity =
     (if required_capacity \<le> warning_capacity d then (MYLITE_OK, d, al)
      else (case grow_capacity (if warning_capacity d = 0 then initial_warning_capacity
                                else warning_capacity d) required_capacity of
         None \<Rightarrow> (MYLITE_NOMEM, d, al)
       | Some capacity \<Rightarrow>
         if capacity > SIZE_MAX div sizeof_diagnostic_record then (MYLITE_NOMEM, d, al)
         else (let (ok, al) = next_alloc al
               in if \<not> ok then (MYLITE_NOMEM, d, al)
                  else (MYLITE_OK, d\<lparr>warning_capacity := capacity\<rparr>, al))))"

text \<open>Writing slot \<open>i\<close> of the array, which may be the first one not written yet.\<close>

definition store_slot :: "'a list \<Rightarrow> nat \<Rightarrow> 'a \<Rightarrow> 'a list" where
  "store_slot xs i x = (if i < length xs then xs[i := x] else xs @ [x])"

definition slot :: "diagnostic_record list \<Rightarrow> nat \<Rightarrow> diagnostic_record" where
  "slot xs i = (if i < length xs then xs ! i else blank_record)"

definition append_warning_with_level ::
    "allocator \<Rightarrow> mylite_diagnostics option \<Rightarrow> string \<Rightarrow> int \<Rightarrow> string option \<Rightarrow> string option \<Rightarrow>
     int \<times> mylite_diagnostics option \<times> allocator" where
  "append_warning_with_level al p lv c st msg =
     (case p of None \<Rightarrow> (MYLITE_MISUSE, None, al) | Some d \<Rightarrow>
      if warning_total_count d = SIZE_MAX
      then (MYLITE_NOMEM, Some (set_error d MYLITE_NOMEM (Some ''HY001'') (Some ''too many warnings'')), al)
      else (let d = d\<lparr>warning_total_count := warning_total_count d + 1\<rparr>
      in if lv = ''Error'' \<and> error_warning_total_count d = SIZE_MAX
      then (MYLITE_NOMEM, Some (set_error d MYLITE_NOMEM (Some ''HY001'') (Some ''too many warnings'')), al)
      else (let d = (if lv = ''Error''
                     then d\<lparr>error_warning_total_count := error_warning_total_count d + 1\<rparr> else d)
      in if warning_count d = SIZE_MAX
      then (MYLITE_NOMEM, Some (set_error d MYLITE_NOMEM (Some ''HY001'') (Some ''too many warnings'')), al)
      else if warning_count d \<ge> max_warning_count d then (MYLITE_OK, Some d, al)
      else (let (rc, d, al) = reserve_warnings al d (warning_count d + 1)
      in if rc \<noteq> MYLITE_OK
      then (rc, Some (set_error d MYLITE_NOMEM (Some ''HY001'')
                (Some ''out of memory while recording warning'')), al)
      else (MYLITE_OK,
            Some (d\<lparr>warnings := store_slot (warnings d) (warning_count d)
                      (set_record (slot (warnings d) (warning_count d)) lv c st msg),
                    warning_count := warning_count d + 1\<rparr>), al)))))"

definition mylite_diagnostics_append_warning ::
    "allocator \<Rightarrow> mylite_diagnostics option \<Rightarrow> int \<Rightarrow> string option \<Rightarrow> string option \<Rightarrow>
     int \<times> mylite_diagnostics option \<times> allocator" where
  "mylite_diagnostics_append_warning al p c st msg =
     append_warning_with_level al p ''Warning'' c st msg"

definition mylite_diagnostics_append_error ::
    "allocator \<Rightarrow> mylite_diagnostics option \<Rightarrow> int \<Rightarrow> string option \<Rightarrow> string option \<Rightarrow>
     int \<times> mylite_diagnostics option \<times> allocator" where
  "mylite_diagnostics_append_error al p c st msg =
     append_warning_with_level al p ''Error'' c st msg"

definition mylite_diagnostics_append_note ::
    "allocator \<Rightarrow> mylite_diagnostics option \<Rightarrow> int \<Rightarrow> string option \<Rightarrow> string option \<Rightarrow>
     int \<times> mylite_diagnostics option \<times> allocator" where
  "mylite_diagnostics_append_note al p c st msg =
     (case p of
        Some d \<Rightarrow> if \<not> notes_enabled d then (MYLITE_OK, p, al)
                  else append_warning_with_level al p ''Note'' c st msg
      | None \<Rightarrow> append_warning_with_level al p ''Note'' c st msg)"

definition mylite_diagnostics_increment_count_only_warning_total_count ::
    "mylite_diagnostics option \<Rightarrow> nat \<Rightarrow> int \<times> mylite_diagnostics option" where
  "mylite_diagnostics_increment_count_only_warning_total_count p count =
     (case p of None \<Rightarrow> (MYLITE_MISUSE, None) | Some d \<Rightarrow>
      if count > SIZE_MAX - warning_total_count d \<or>
         count > SIZE_MAX - count_only_warning_total_count d
      then (MYLITE_NOMEM, Some (set_error d MYLITE_NOMEM (Some ''HY001'') (Some ''too many warnings'')))
      else (MYLITE_OK,
            Some (d\<lparr>warning_total_count := warning_total_count d + count,
                    count_only_warning_total_count := count_only_warning_total_count d + count\<rparr>)))"

definition mylite_diagnostics_reserve_warning_capacity ::
    "allocator \<Rightarrow> mylite_diagnostics option \<Rightarrow> nat \<Rightarrow> int \<times> mylite_diagnostics option \<times> allocator" where
  "mylite_diagnostics_reserve_warning_capacity al p required_capacity =
     (case p of None \<Rightarrow> (MYLITE_MISUSE, None, al) | Some d \<Rightarrow>
      (let (rc, d, al) = reserve_warnings al d required_capacity
       in (rc, Some (if rc \<noteq> MYLITE_OK
                     then set_error d MYLITE_NOMEM (Some ''HY001'')
                            (Some ''out of memory while recording warning'')
                     else d), al)))"

text \<open>The loop of \<^verbatim>\<open>mylite_diagnostics_replace\<close> that copies the warnings one by one.\<close>

fun copy_warnings ::
    "allocator \<Rightarrow> mylite_diagnostics \<Rightarrow> diagnostic_record list \<Rightarrow>
     int \<times> mylite_diagnostics \<times> allocator" where
  "copy_warnings al copy [] = (MYLITE_OK, copy, al)"
| "copy_warnings al copy (w # ws) =
     (let (rc, copy', al) = append_warning_with_level al (Some copy) (level w) (code w)
            (Some (sqlstate w)) (Some (message w))
      in if rc \<noteq> MYLITE_OK then (rc, the copy', al) else copy_warnings al (the copy') ws)"

text \<open>
  \<open>same\<close> says that the two pointers are equal. \<open>garbage\<close> is the uninitialised local
  \<^verbatim>\<open>copy\<close>.
\<close>

definition mylite_diagnostics_replace ::
    "allocator \<Rightarrow> mylite_diagnostics \<Rightarrow> bool \<Rightarrow> mylite_diagnostics option \<Rightarrow> mylite_diagnostics option \<Rightarrow>
     int \<times> mylite_diagnostics option \<times> allocator" where
  "mylite_diagnostics_replace al garbage same destination source =
     (case (destination, source) of
        (Some dst, Some src) \<Rightarrow>
          if same then (MYLITE_OK, destination, al)
          else (let copy = (init_area garbage)\<lparr>condition := condition src\<rparr>;
                    (rc, copy, al) = copy_warnings al copy (take (warning_count src) (warnings src))
                in if rc \<noteq> MYLITE_OK then (rc, destination, al)
                   else (let copy = copy\<lparr>condition := condition src\<rparr>;
                             copy = (if max_warning_count src = 0 then clear_condition copy else copy)
                         in (MYLITE_OK,
                             Some (copy\<lparr>warning_total_count := warning_total_count src,
                               count_only_warning_total_count := count_only_warning_total_count src,
                               error_warning_total_count := error_warning_total_count src,
                               max_warning_count := max_warning_count src,
                               notes_enabled := notes_enabled src\<rparr>), al)))
      | _ \<Rightarrow> (MYLITE_MISUSE, destination, al))"

section \<open>Reading the area\<close>

definition mylite_diagnostics_errcode :: "mylite_diagnostics option \<Rightarrow> int" where
  "mylite_diagnostics_errcode p = (case p of None \<Rightarrow> MYLITE_MISUSE | Some d \<Rightarrow> code (condition d))"

definition mylite_diagnostics_sqlstate :: "mylite_diagnostics option \<Rightarrow> string" where
  "mylite_diagnostics_sqlstate p = (case p of
     None \<Rightarrow> mylite_diagnostics_misuse_sqlstate
   | Some d \<Rightarrow> if sqlstate (condition d) = [] then mylite_diagnostics_ok_sqlstate
               else sqlstate (condition d))"

definition mylite_diagnostics_errmsg :: "mylite_diagnostics option \<Rightarrow> string" where
  "mylite_diagnostics_errmsg p = (case p of
     None \<Rightarrow> mylite_diagnostics_misuse_message
   | Some d \<Rightarrow> if message (condition d) = [] then mylite_diagnostics_ok_message
               else message (condition d))"

definition mylite_diagnostics_warning_count :: "mylite_diagnostics option \<Rightarrow> nat" where
  "mylite_diagnostics_warning_count p = (case p of None \<Rightarrow> 0 | Some d \<Rightarrow> warning_count d)"

definition mylite_diagnostics_warning_total_count :: "mylite_diagnostics option \<Rightarrow> nat" where
  "mylite_diagnostics_warning_total_count p =
     (case p of None \<Rightarrow> 0 | Some d \<Rightarrow> warning_total_count d)"

definition mylite_diagnostics_show_warning_total_count :: "mylite_diagnostics option \<Rightarrow> nat" where
  "mylite_diagnostics_show_warning_total_count p = (case p of None \<Rightarrow> 0 | Some d \<Rightarrow>
     if warning_total_count d < count_only_warning_total_count d then 0
     else warning_total_count d - count_only_warning_total_count d)"

definition mylite_diagnostics_error_warning_total_count :: "mylite_diagnostics option \<Rightarrow> nat" where
  "mylite_diagnostics_error_warning_total_count p =
     (case p of None \<Rightarrow> 0 | Some d \<Rightarrow> error_warning_total_count d)"

definition mylite_diagnostics_warning_at ::
    "mylite_diagnostics option \<Rightarrow> nat \<Rightarrow> diagnostic_record option" where
  "mylite_diagnostics_warning_at p index = (case p of None \<Rightarrow> None | Some d \<Rightarrow>
     if index \<ge> warning_count d then None else Some (warnings d ! index))"

text \<open>The public copy of a warning: error code, SQLSTATE and message.\<close>

definition mylite_diagnostics_copy_warning_at ::
    "mylite_diagnostics option \<Rightarrow> nat \<Rightarrow> bool \<Rightarrow> int \<times> (int \<times> string \<times> string) option" where
  "mylite_diagnostics_copy_warning_at p index wants =
     (case mylite_diagnostics_warning_at p index of
        None \<Rightarrow> (MYLITE_MISUSE, if wants then Some (0, [], []) else None)
      | Some w \<Rightarrow> if \<not> wants then (MYLITE_MISUSE, None)
                  else (MYLITE_OK, Some (code w, sqlstate w, message w)))"

section \<open>Invariant\<close>

definition record_ok :: "diagnostic_record \<Rightarrow> bool" where
  "record_ok r \<longleftrightarrow> length (level r) < MYLITE_DIAGNOSTIC_LEVEL_CAPACITY \<and>
     length (sqlstate r) = MYLITE_SQLSTATE_LENGTH \<and>
     length (message r) < MYLITE_DIAGNOSTIC_MESSAGE_CAPACITY"

definition stored_warnings :: "mylite_diagnostics \<Rightarrow> diagnostic_record list" where
  "stored_warnings d = take (warning_count d) (warnings d)"

definition diagnostics_ok :: "mylite_diagnostics \<Rightarrow> bool" where
  "diagnostics_ok d \<longleftrightarrow>
     warning_count d \<le> length (warnings d) \<and> length (warnings d) \<le> warning_capacity d \<and>
     warning_capacity d \<le> SIZE_MAX div sizeof_diagnostic_record \<and>
     warning_count d + count_only_warning_total_count d \<le> warning_total_count d \<and>
     error_warning_total_count d + count_only_warning_total_count d \<le> warning_total_count d \<and>
     warning_total_count d \<le> SIZE_MAX \<and>
     record_ok (condition d) \<and> list_all record_ok (stored_warnings d)"

lemma length_stored: "diagnostics_ok d \<Longrightarrow> length (stored_warnings d) = warning_count d"
  by (simp add: stored_warnings_def diagnostics_ok_def)

lemma copy_text_length: "0 < n \<Longrightarrow> length (copy_text n t) < n"
  by (auto simp: copy_text_def Let_def)

lemma copy_text_id: "length t < n \<Longrightarrow> n \<le> 256 \<Longrightarrow> copy_text n (Some t) = t"
  by (simp add: copy_text_def limit_simps)

lemma set_sqlstate_length: "length (sqlstate (set_sqlstate r s)) = 5"
  by (auto simp: set_sqlstate_def sqlstate_is_valid_def mylite_diagnostics_misuse_sqlstate_def
      split: option.splits)

lemma set_record_ok [simp]: "record_ok (set_record r lv c st msg)"
  by (auto simp: record_ok_def set_record_def Let_def copy_text_length set_sqlstate_length)
    (simp_all add: set_sqlstate_def copy_text_length)

lemma set_record_copy:
  "record_ok w \<Longrightarrow> set_record r (level w) (code w) (Some (sqlstate w)) (Some (message w)) = w"
  by (cases w) (simp add: record_ok_def set_record_def set_sqlstate_def sqlstate_is_valid_def
      copy_text_id Let_def)

lemma set_record_fields:
  "code (set_record r lv c st msg) = c"
  "level (set_record r lv c st msg) = copy_text 8 (Some lv)"
  "message (set_record r lv c st msg) = copy_text 256 msg"
  by (simp_all add: set_record_def Let_def set_sqlstate_def)

lemma reserve_warnings_cases:
  assumes "reserve_warnings al d n = (rc, d', al')" "warning_capacity d \<le> SIZE_MAX div 276"
  shows "rc = MYLITE_OK \<and> (\<exists>c. d' = d\<lparr>warning_capacity := c\<rparr> \<and> n \<le> c \<and> warning_capacity d \<le> c \<and>
      c \<le> SIZE_MAX div 276) \<or> rc = MYLITE_NOMEM \<and> d' = d"
proof (cases "n \<le> warning_capacity d")
  case True
  with assms have "rc = MYLITE_OK" "d' = d\<lparr>warning_capacity := warning_capacity d\<rparr>"
    by (auto simp: reserve_warnings_def)
  with True assms(2) show ?thesis by blast
next
  case False
  let ?c0 = "if warning_capacity d = 0 then 4 else warning_capacity d"
  have c0: "?c0 \<noteq> 0" "?c0 \<le> SIZE_MAX" using assms(2) by (auto simp: limit_simps)
  show ?thesis
  proof (cases "grow_capacity ?c0 n")
    case None
    with False assms(1) show ?thesis by (simp add: reserve_warnings_def)
  next
    case (Some c)
    from grow_capacity_Some [OF Some c0]
    have c: "n \<le> c" "warning_capacity d \<le> c" by (auto split: if_splits)
    obtain ok al1 where al: "next_alloc al = (ok, al1)" by fastforce
    show ?thesis
      using assms(1) False Some c al by (auto simp: reserve_warnings_def split: if_splits)
  qed
qed

lemma store_slot_simps [simp]:
  "n \<le> length xs \<Longrightarrow> take (Suc n) (store_slot xs n x) = take n xs @ [x]"
  "length (store_slot xs n x) = max (length xs) (if n < length xs then 0 else Suc (length xs))"
  by (auto simp: store_slot_def take_Suc_conv_app_nth)

text \<open>
  The outcomes of recording a warning: the slot is stored, or only the totals move because the
  maximum is reached, or the area is full or out of memory and the condition says so.
\<close>

definition bump_totals :: "mylite_diagnostics \<Rightarrow> string \<Rightarrow> mylite_diagnostics" where
  "bump_totals d lv =
     d\<lparr>warning_total_count := warning_total_count d + 1,
       error_warning_total_count := error_warning_total_count d + (if lv = ''Error'' then 1 else 0)\<rparr>"

lemma bump_totals_simps [simp]:
  "warning_count (bump_totals d lv) = warning_count d"
  "warnings (bump_totals d lv) = warnings d"
  "max_warning_count (bump_totals d lv) = max_warning_count d"
  "warning_capacity (bump_totals d lv) = warning_capacity d"
  "condition (bump_totals d lv) = condition d"
  "count_only_warning_total_count (bump_totals d lv) = count_only_warning_total_count d"
  "warning_total_count (bump_totals d lv) = warning_total_count d + 1"
  "error_warning_total_count (bump_totals d lv) =
     error_warning_total_count d + (if lv = ''Error'' then 1 else 0)"
  "notes_enabled (bump_totals d lv) = notes_enabled d"
  by (simp_all add: bump_totals_def)

lemma append_warning_unfold:
  assumes "warning_total_count d < SIZE_MAX" "error_warning_total_count d < SIZE_MAX"
    "warning_count d < SIZE_MAX"
  shows "append_warning_with_level al (Some d) lv c st msg =
    (if warning_count d \<ge> max_warning_count d then (MYLITE_OK, Some (bump_totals d lv), al)
     else (let (rc, d, al) = reserve_warnings al (bump_totals d lv) (warning_count d + 1)
      in if rc \<noteq> MYLITE_OK
      then (rc, Some (set_error d MYLITE_NOMEM (Some ''HY001'')
                (Some ''out of memory while recording warning'')), al)
      else (MYLITE_OK,
            Some (d\<lparr>warnings := store_slot (warnings d) (warning_count d)
                      (set_record (slot (warnings d) (warning_count d)) lv c st msg),
                    warning_count := warning_count d + 1\<rparr>), al)))"
  using assms by (simp add: append_warning_with_level_def bump_totals_def Let_def)

lemma append_warning_cases:
  assumes a: "append_warning_with_level al (Some d) lv c st msg = (rc, p, al')"
    and ok: "diagnostics_ok d"
  obtains (full) "rc = MYLITE_NOMEM" "warning_total_count d = SIZE_MAX"
      "p = Some (set_error d MYLITE_NOMEM (Some ''HY001'') (Some ''too many warnings''))"
  | (counted) "rc = MYLITE_OK" "max_warning_count d \<le> warning_count d" "warning_total_count d < SIZE_MAX"
      "p = Some (bump_totals d lv)"
  | (nomem) "rc = MYLITE_NOMEM" "warning_count d < max_warning_count d" "warning_total_count d < SIZE_MAX"
      "p = Some (set_error (bump_totals d lv) MYLITE_NOMEM (Some ''HY001'')
         (Some ''out of memory while recording warning''))"
      "\<exists>d'. reserve_warnings al (bump_totals d lv) (warning_count d + 1) = (MYLITE_NOMEM, d', al')"
  | (stored) cap r where "rc = MYLITE_OK" "warning_count d < max_warning_count d"
      "warning_total_count d < SIZE_MAX" "warning_count d < cap" "warning_capacity d \<le> cap"
      "cap \<le> SIZE_MAX div 276"
      "p = Some ((bump_totals d lv)\<lparr>warning_capacity := cap,
         warnings := store_slot (warnings d) (warning_count d) (set_record r lv c st msg),
         warning_count := warning_count d + 1\<rparr>)"
proof (cases "warning_total_count d = SIZE_MAX")
  case True
  with a full show thesis by (simp add: append_warning_with_level_def)
next
  case False
  from ok False have lt: "warning_total_count d < SIZE_MAX" "error_warning_total_count d < SIZE_MAX"
    "warning_count d < SIZE_MAX"
    by (auto simp: diagnostics_ok_def)
  define b where "b = bump_totals d lv"
  note app = append_warning_unfold [OF lt, folded b_def]
  show thesis
  proof (cases "warning_count d \<ge> max_warning_count d")
    case True
    with app a lt show thesis by (intro counted) (simp_all add: b_def)
  next
    case lim: False
    obtain rc1 d1 al1 where r: "reserve_warnings al b (warning_count d + 1) = (rc1, d1, al1)"
      by (metis prod_cases3)
    have "warning_capacity b \<le> SIZE_MAX div 276" using ok by (simp add: b_def diagnostics_ok_def)
    from reserve_warnings_cases [OF r this] show thesis
    proof
      assume "rc1 = MYLITE_OK \<and> (\<exists>c. d1 = b\<lparr>warning_capacity := c\<rparr> \<and> warning_count d + 1 \<le> c \<and>
        warning_capacity b \<le> c \<and> c \<le> SIZE_MAX div 276)"
      then obtain cap where "rc1 = MYLITE_OK" "d1 = b\<lparr>warning_capacity := cap\<rparr>"
        "warning_count d + 1 \<le> cap" "warning_capacity d \<le> cap" "cap \<le> SIZE_MAX div 276"
        by (auto simp: b_def)
      with app a r lim lt show thesis
        by (intro stored [of cap "slot (warnings d) (warning_count d)"]) (simp_all add: b_def)
    next
      assume "rc1 = MYLITE_NOMEM \<and> d1 = b"
      with app a r lim lt show thesis by (intro nomem) (simp_all add: b_def)
    qed
  qed
qed

lemma diagnostics_ok_bump:
  "diagnostics_ok d \<Longrightarrow> warning_total_count d < SIZE_MAX \<Longrightarrow> diagnostics_ok (bump_totals d lv)"
  by (auto simp: diagnostics_ok_def stored_warnings_def)

lemma diagnostics_ok_set_error [simp]:
  "diagnostics_ok d \<Longrightarrow> diagnostics_ok (set_error d c st msg)"
  by (simp add: diagnostics_ok_def set_error_def stored_warnings_def)

lemma stored_after_store:
  "diagnostics_ok d \<Longrightarrow>
    stored_warnings ((bump_totals d lv)\<lparr>warning_capacity := cap,
      warnings := store_slot (warnings d) (warning_count d) r,
      warning_count := warning_count d + 1\<rparr>) = stored_warnings d @ [r]"
  by (simp add: stored_warnings_def diagnostics_ok_def)

lemma append_warning_ok:
  assumes a: "append_warning_with_level al (Some d) lv c st msg = (rc, p, al')"
    and ok: "diagnostics_ok d"
  shows "\<exists>d'. p = Some d' \<and> diagnostics_ok d'"
  using a ok
proof (cases rule: append_warning_cases)
  case (stored cap r)
  let ?d = "(bump_totals d lv)\<lparr>warning_capacity := cap,
    warnings := store_slot (warnings d) (warning_count d) (set_record r lv c st msg),
    warning_count := warning_count d + 1\<rparr>"
  have "diagnostics_ok ?d"
    using stored ok stored_after_store [OF ok, where lv = lv and cap = cap
        and r = "set_record r lv c st msg"]
    by (auto simp: diagnostics_ok_def)
  with stored show ?thesis by blast
qed (use ok diagnostics_ok_bump in auto)

text \<open>The area after any sequence of its operations, whatever the allocator answers.\<close>

datatype diagnostics_op =
    OpReset
  | OpClearCondition
  | OpDeinit
  | OpSetMax nat
  | OpSetNotes bool
  | OpSetError int "string option" "string option"
  | OpWarning int "string option" "string option"
  | OpError int "string option" "string option"
  | OpNote int "string option" "string option"
  | OpCountOnly nat
  | OpReserve nat

fun diagnostics_step ::
    "mylite_diagnostics option \<times> allocator \<Rightarrow> diagnostics_op \<Rightarrow> mylite_diagnostics option \<times> allocator" where
  "diagnostics_step (p, al) OpReset = (mylite_diagnostics_reset p, al)"
| "diagnostics_step (p, al) OpClearCondition = (mylite_diagnostics_clear_condition p, al)"
| "diagnostics_step (p, al) OpDeinit = (mylite_diagnostics_deinit p, al)"
| "diagnostics_step (p, al) (OpSetMax n) = (mylite_diagnostics_set_max_warning_count p n, al)"
| "diagnostics_step (p, al) (OpSetNotes b) = (mylite_diagnostics_set_notes_enabled p b, al)"
| "diagnostics_step (p, al) (OpSetError c st msg) = (mylite_diagnostics_set_error p c st msg, al)"
| "diagnostics_step (p, al) (OpWarning c st msg) = snd (mylite_diagnostics_append_warning al p c st msg)"
| "diagnostics_step (p, al) (OpError c st msg) = snd (mylite_diagnostics_append_error al p c st msg)"
| "diagnostics_step (p, al) (OpNote c st msg) = snd (mylite_diagnostics_append_note al p c st msg)"
| "diagnostics_step (p, al) (OpCountOnly n) =
     (snd (mylite_diagnostics_increment_count_only_warning_total_count p n), al)"
| "diagnostics_step (p, al) (OpReserve n) = snd (mylite_diagnostics_reserve_warning_capacity al p n)"

lemma clear_condition_ok: "diagnostics_ok d \<Longrightarrow> diagnostics_ok (clear_condition d)"
  by (simp add: diagnostics_ok_def clear_condition_def stored_warnings_def)

lemma reset_area_ok:
  "warning_count d \<le> length (warnings d) \<Longrightarrow> length (warnings d) \<le> warning_capacity d \<Longrightarrow>
    warning_capacity d \<le> SIZE_MAX div 276 \<Longrightarrow> diagnostics_ok (reset_area d)"
  by (simp add: diagnostics_ok_def reset_area_def clear_condition_def stored_warnings_def)

lemma init_area_ok: "diagnostics_ok (init_area d)"
  by (simp add: init_area_def reset_area_ok)

lemma deinit_area_ok: "diagnostics_ok (deinit_area d)"
  by (simp add: deinit_area_def reset_area_ok)

lemma count_only_ok:
  assumes "diagnostics_ok d"
  shows "\<exists>d'. snd (mylite_diagnostics_increment_count_only_warning_total_count (Some d) n) = Some d' \<and>
    diagnostics_ok d'"
  using assms
  by (auto simp: mylite_diagnostics_increment_count_only_warning_total_count_def diagnostics_ok_def
      set_error_def stored_warnings_def)

lemma reserve_ok:
  assumes "diagnostics_ok d"
  shows "\<exists>d'. fst (snd (mylite_diagnostics_reserve_warning_capacity al (Some d) n)) = Some d' \<and>
    diagnostics_ok d'"
proof -
  obtain rc d' al' where r: "reserve_warnings al d n = (rc, d', al')" by (metis prod_cases3)
  have "warning_capacity d \<le> SIZE_MAX div 276" using assms by (simp add: diagnostics_ok_def)
  from reserve_warnings_cases [OF r this] assms show ?thesis
    by (auto simp: mylite_diagnostics_reserve_warning_capacity_def r diagnostics_ok_def
        stored_warnings_def set_error_def)
qed

lemma append_warning_fst:
  assumes "diagnostics_ok d"
  shows "\<exists>d'. fst (snd (append_warning_with_level al (Some d) lv c st msg)) = Some d' \<and>
    diagnostics_ok d'"
  using append_warning_ok [OF _ assms, of al lv c st msg] by (metis fst_conv prod_cases3 snd_conv)

lemma diagnostics_step_ok:
  assumes "p = Some d" "diagnostics_ok d"
  shows "\<exists>d'. fst (diagnostics_step (p, al) op) = Some d' \<and> diagnostics_ok d'"
proof (cases op)
  case OpReset
  moreover have "diagnostics_ok (reset_area d)"
    by (rule reset_area_ok) (use assms(2) in \<open>simp_all add: diagnostics_ok_def\<close>)
  ultimately show ?thesis using assms(1) by (simp add: mylite_diagnostics_reset_def)
next
  case (OpSetMax n)
  with assms show ?thesis
    by (auto simp: mylite_diagnostics_set_max_warning_count_def diagnostics_ok_def stored_warnings_def)
next
  case (OpSetNotes b)
  with assms show ?thesis
    by (auto simp: mylite_diagnostics_set_notes_enabled_def diagnostics_ok_def stored_warnings_def)
qed (use assms in \<open>auto simp: mylite_diagnostics_clear_condition_def mylite_diagnostics_deinit_def
    clear_condition_ok deinit_area_ok mylite_diagnostics_set_error_def count_only_ok reserve_ok
    mylite_diagnostics_append_warning_def mylite_diagnostics_append_error_def
    mylite_diagnostics_append_note_def append_warning_fst\<close>)

section \<open>Copying\<close>

lemma append_copy:
  assumes a: "append_warning_with_level al (Some d) (level w) (code w) (Some (sqlstate w))
      (Some (message w)) = (rc, p, al')"
    and ok: "diagnostics_ok d" "record_ok w" "max_warning_count d = SIZE_MAX"
    and rc: "rc = MYLITE_OK"
  shows "\<exists>d'. p = Some d' \<and> diagnostics_ok d' \<and> max_warning_count d' = SIZE_MAX \<and>
    stored_warnings d' = stored_warnings d @ [w]"
proof -
  from append_warning_ok [OF a ok(1)] obtain d' where d': "p = Some d'" "diagnostics_ok d'" by blast
  have "max_warning_count d' = SIZE_MAX \<and> stored_warnings d' = stored_warnings d @ [w]"
    using a ok(1)
  proof (cases rule: append_warning_cases)
    case counted
    with ok(1,3) show ?thesis by (auto simp: diagnostics_ok_def)
  next
    case (stored cap r)
    with d' have d: "d' = (bump_totals d (level w))\<lparr>warning_capacity := cap,
        warnings := store_slot (warnings d) (warning_count d) w,
        warning_count := warning_count d + 1\<rparr>"
      by (simp add: set_record_copy [OF ok(2)])
    show ?thesis unfolding d stored_after_store [OF ok(1)] using ok(3) by simp
  qed (use rc in auto)
  with d' show ?thesis by blast
qed

lemma copy_warnings_stored:
  assumes "copy_warnings al d ws = (MYLITE_OK, d', al')"
    and "diagnostics_ok d" "list_all record_ok ws" "max_warning_count d = SIZE_MAX"
  shows "diagnostics_ok d' \<and> stored_warnings d' = stored_warnings d @ ws"
  using assms
proof (induction al d ws rule: copy_warnings.induct)
  case (2 al copy w ws)
  obtain rc p al1 where a: "append_warning_with_level al (Some copy) (level w) (code w)
      (Some (sqlstate w)) (Some (message w)) = (rc, p, al1)" by (metis prod_cases3)
  from "2.prems"(1) a have rc: "rc = MYLITE_OK"
    and rest: "copy_warnings al1 (the p) ws = (MYLITE_OK, d', al')"
    by (auto split: if_splits)
  from append_copy [OF a "2.prems"(2) _ "2.prems"(4) rc] "2.prems"(3)
  obtain d1 where d1: "p = Some d1" "diagnostics_ok d1" "max_warning_count d1 = SIZE_MAX"
    "stored_warnings d1 = stored_warnings copy @ [w]" by auto
  from "2.IH" [OF a [symmetric] refl refl] rc rest d1 "2.prems"(3)
  show ?case by auto
qed simp

text \<open>With memory available, copying never fails: up to 2 to the 54 warnings fit.\<close>

lemma reserve_succeeds:
  assumes "warning_capacity d \<le> 2 ^ 55" "n \<le> 2 ^ 54"
  shows "\<exists>c. reserve_warnings [] d n = (MYLITE_OK, d\<lparr>warning_capacity := c\<rparr>, []) \<and> c \<le> 2 ^ 55"
proof (cases "n \<le> warning_capacity d")
  case True
  then have "reserve_warnings [] d n = (MYLITE_OK, d\<lparr>warning_capacity := warning_capacity d\<rparr>, [])"
    by (simp add: reserve_warnings_def)
  with assms(1) show ?thesis by blast
next
  case False
  let ?c0 = "if warning_capacity d = 0 then 4 else warning_capacity d"
  have "\<exists>c. grow_capacity ?c0 n = Some c"
    by (rule grow_capacity_succeeds) (use assms(2) in \<open>auto simp: limit_simps\<close>)
  then obtain c where c: "grow_capacity ?c0 n = Some c" by blast
  have "c \<le> max ?c0 (2 * n)" by (rule grow_capacity_bound [OF c])
  also have "\<dots> \<le> 2 ^ 55" using assms by auto
  finally have "c \<le> 2 ^ 55" .
  moreover from this have "c \<le> SIZE_MAX div 276" by (simp add: limit_simps)
  ultimately have "reserve_warnings [] d n = (MYLITE_OK, d\<lparr>warning_capacity := c\<rparr>, [])"
    using False c by (simp add: reserve_warnings_def)
  with \<open>c \<le> 2 ^ 55\<close> show ?thesis by blast
qed

lemma append_copy_succeeds:
  assumes "diagnostics_ok d" "max_warning_count d = SIZE_MAX" "warning_capacity d \<le> 2 ^ 55"
    and "warning_total_count d \<le> n" "n < 2 ^ 54"
  shows "\<exists>d'. append_warning_with_level [] (Some d) lv c st msg = (MYLITE_OK, Some d', []) \<and>
    diagnostics_ok d' \<and> max_warning_count d' = SIZE_MAX \<and> warning_capacity d' \<le> 2 ^ 55 \<and>
    warning_total_count d' \<le> n + 1"
proof -
  have count: "warning_count d \<le> n" "error_warning_total_count d \<le> n"
    using assms(1,4) by (auto simp: diagnostics_ok_def)
  with assms(4,5) have lt: "warning_total_count d < SIZE_MAX" "error_warning_total_count d < SIZE_MAX"
    "warning_count d < SIZE_MAX" by (auto simp: limit_simps)
  have "\<exists>cap. reserve_warnings [] (bump_totals d lv) (warning_count d + 1) =
      (MYLITE_OK, (bump_totals d lv)\<lparr>warning_capacity := cap\<rparr>, []) \<and> cap \<le> 2 ^ 55"
    by (rule reserve_succeeds) (use assms count in auto)
  then obtain cap where cap: "reserve_warnings [] (bump_totals d lv) (warning_count d + 1) =
      (MYLITE_OK, (bump_totals d lv)\<lparr>warning_capacity := cap\<rparr>, [])" "cap \<le> 2 ^ 55" by blast
  have "\<exists>d'. append_warning_with_level [] (Some d) lv c st msg = (MYLITE_OK, Some d', []) \<and>
      max_warning_count d' = SIZE_MAX \<and> warning_capacity d' = cap \<and>
      warning_total_count d' = warning_total_count d + 1"
    using lt assms(2) cap(1) by (simp add: append_warning_unfold)
  then obtain d' where d': "append_warning_with_level [] (Some d) lv c st msg = (MYLITE_OK, Some d', [])"
    "max_warning_count d' = SIZE_MAX" "warning_capacity d' = cap"
    "warning_total_count d' = warning_total_count d + 1" by blast
  with append_warning_ok [OF d'(1) assms(1)] cap(2) assms(4) show ?thesis by auto
qed

lemma copy_warnings_succeeds:
  assumes "diagnostics_ok d" "max_warning_count d = SIZE_MAX" "warning_capacity d \<le> 2 ^ 55"
    and "warning_total_count d + length ws \<le> 2 ^ 54"
  shows "\<exists>d'. copy_warnings [] d ws = (MYLITE_OK, d', [])"
  using assms
proof (induction ws arbitrary: d)
  case (Cons w ws)
  obtain d1 where d1: "append_warning_with_level [] (Some d) (level w) (code w) (Some (sqlstate w))
      (Some (message w)) = (MYLITE_OK, Some d1, [])" "diagnostics_ok d1"
    "max_warning_count d1 = SIZE_MAX" "warning_capacity d1 \<le> 2 ^ 55"
    "warning_total_count d1 \<le> warning_total_count d + 1"
    using append_copy_succeeds [OF Cons.prems(1-3) order_refl] Cons.prems(4) by fastforce
  with Cons.IH [OF d1(2-4)] Cons.prems(4) show ?case by simp
qed simp

section \<open>Properties\<close>

text \<open>
  Property C29. The diagnostics area is well formed after initialisation and after every sequence
  of its operations, whatever the allocator answers: the stored warnings fit the allocated
  array and the array fits the address space, no total ever exceeds the size type and the totals
  cover the stored and the count-only warnings, and every stored record and the condition are
  bounded texts with a five-character SQLSTATE.
\<close>
theorem diagnostics_area_invariant:
  "\<exists>d'. fst (foldl diagnostics_step (mylite_diagnostics_init (Some garbage), al) ops) = Some d' \<and>
    diagnostics_ok d'"
proof -
  have "\<exists>d'. fst (foldl diagnostics_step (p, al) ops) = Some d' \<and> diagnostics_ok d'"
    if "p = Some d" "diagnostics_ok d" for p d al
    using that
  proof (induction ops arbitrary: p d al)
    case (Cons op ops)
    obtain p1 al1 where s: "diagnostics_step (p, al) op = (p1, al1)" by fastforce
    with diagnostics_step_ok [OF Cons.prems, of al op] obtain d1 where "p1 = Some d1" "diagnostics_ok d1"
      by auto
    from Cons.IH [OF this] show ?case by (simp add: s)
  qed simp
  then show ?thesis by (simp add: mylite_diagnostics_init_def init_area_ok)
qed

text \<open>
  Recording a warning, note or error on a well-formed area: the totals count it and
  nothing else happens when the maximum is reached; below the maximum it is appended after the
  stored ones, with its texts truncated to their capacities; when the totals are exhausted or
  memory is, the stored warnings stay as they are and the condition reports the failure.
\<close>
theorem append_warning_outcome:
  assumes "diagnostics_ok d"
    and "append_warning_with_level al (Some d) lv c st msg = (rc, p, al')"
  shows "\<exists>d'. p = Some d' \<and>
    (if rc = MYLITE_OK
     then warning_total_count d' = warning_total_count d + 1 \<and>
       error_warning_total_count d' = error_warning_total_count d + (if lv = ''Error'' then 1 else 0) \<and>
       condition d' = condition d \<and>
       (if max_warning_count d \<le> warning_count d then stored_warnings d' = stored_warnings d
        else \<exists>w. stored_warnings d' = stored_warnings d @ [w] \<and> record_ok w \<and> code w = c \<and>
          level w = copy_text 8 (Some lv) \<and> message w = copy_text 256 msg)
     else rc = MYLITE_NOMEM \<and> stored_warnings d' = stored_warnings d \<and>
       code (condition d') = MYLITE_NOMEM)"
  using assms(2,1)
proof (cases rule: append_warning_cases)
  case (stored cap r)
  let ?w = "set_record r lv c st msg"
  let ?d = "(bump_totals d lv)\<lparr>warning_capacity := cap,
    warnings := store_slot (warnings d) (warning_count d) ?w, warning_count := warning_count d + 1\<rparr>"
  have "stored_warnings ?d = stored_warnings d @ [?w]"
    by (rule stored_after_store [OF assms(1)])
  with stored show ?thesis by (auto simp: set_record_fields)
qed (auto simp: set_error_def set_record_fields stored_warnings_def)

definition example_area :: mylite_diagnostics where
  "example_area = init_area
     \<lparr>condition = blank_record, warnings = [], warning_count = 0, warning_total_count = 0,
      count_only_warning_total_count = 0, error_warning_total_count = 0, warning_capacity = 0,
      max_warning_count = 0, notes_enabled = False\<rparr>"

theorem append_warning_outcome_witness:
  "\<exists>d' w. append_warning_with_level [] (Some example_area) ''Note'' 1051 None (Some ''Unknown table'') =
      (MYLITE_OK, Some d', []) \<and> stored_warnings d' = [w] \<and> code w = 1051"
proof -
  have "diagnostics_ok example_area" unfolding example_area_def by (rule init_area_ok)
  moreover have e: "warning_count example_area = 0" "max_warning_count example_area = SIZE_MAX"
    "stored_warnings example_area = []" "warning_total_count example_area = 0"
    "warning_capacity example_area = 0"
    by (simp_all add: example_area_def init_area_def reset_area_def clear_condition_def
        stored_warnings_def)
  moreover obtain d' where d': "append_warning_with_level [] (Some example_area) ''Note'' 1051 None
      (Some ''Unknown table'') = (MYLITE_OK, Some d', [])"
    using append_copy_succeeds [of example_area 0] e calculation(1) by fastforce
  ultimately show ?thesis
    using append_warning_outcome [of example_area "[]" "''Note''" 1051 None "Some ''Unknown table''"
        MYLITE_OK "Some d'" "[]"] by (auto simp: limit_simps)
qed

text \<open>
  Property C30. Replacing one diagnostics area by another is all or nothing. On success the
  destination has the source's warnings, totals, limits and note setting, and its condition,
  except that a source that keeps no warnings hands over a cleared condition. On failure the
  destination is unchanged. It does succeed when memory is available.
\<close>
theorem diagnostics_replace_roundtrip:
  assumes "diagnostics_ok src"
    and "mylite_diagnostics_replace al garbage False (Some dst) (Some src) = (rc, p, al')"
  shows "\<exists>d. p = Some d \<and>
    (if rc = MYLITE_OK
     then diagnostics_ok d \<and> stored_warnings d = stored_warnings src \<and>
       warning_total_count d = warning_total_count src \<and>
       count_only_warning_total_count d = count_only_warning_total_count src \<and>
       error_warning_total_count d = error_warning_total_count src \<and>
       max_warning_count d = max_warning_count src \<and> notes_enabled d = notes_enabled src \<and>
       condition d = (if max_warning_count src = 0 then condition (clear_condition src)
         else condition src)
     else d = dst) \<and>
    (al = [] \<and> warning_count src \<le> 2 ^ 54 \<longrightarrow> rc = MYLITE_OK)"
proof -
  define copy0 where "copy0 = (init_area garbage)\<lparr>condition := condition src\<rparr>"
  have c0: "diagnostics_ok copy0" "max_warning_count copy0 = SIZE_MAX" "stored_warnings copy0 = []"
    "warning_capacity copy0 = 0" "warning_total_count copy0 = 0"
    using init_area_ok [of garbage] assms(1)
    by (auto simp: copy0_def diagnostics_ok_def stored_warnings_def init_area_def reset_area_def
        clear_condition_def)
  obtain rc1 copy1 al1 where cp: "copy_warnings al copy0 (stored_warnings src) = (rc1, copy1, al1)"
    by (metis prod_cases3)
  have unfolded: "mylite_diagnostics_replace al garbage False (Some dst) (Some src) =
    (if rc1 \<noteq> MYLITE_OK then (rc1, Some dst, al1)
     else (MYLITE_OK, Some ((if max_warning_count src = 0
         then clear_condition (copy1\<lparr>condition := condition src\<rparr>)
         else copy1\<lparr>condition := condition src\<rparr>)
        \<lparr>warning_total_count := warning_total_count src,
         count_only_warning_total_count := count_only_warning_total_count src,
         error_warning_total_count := error_warning_total_count src,
         max_warning_count := max_warning_count src, notes_enabled := notes_enabled src\<rparr>), al1))"
    using cp by (simp add: mylite_diagnostics_replace_def Let_def copy0_def stored_warnings_def)
  have live: "rc1 = MYLITE_OK" if "al = []" "warning_count src \<le> 2 ^ 54"
    using copy_warnings_succeeds [OF c0(1,2), of "stored_warnings src"] c0 that cp
    by (simp add: stored_warnings_def)
  show ?thesis
  proof (cases "rc1 = MYLITE_OK")
    case False
    with assms(2) unfolded live show ?thesis by auto
  next
    case True
    note len = length_stored [OF assms(1)]
    from copy_warnings_stored [OF cp [unfolded True] c0(1) _ c0(2)] assms(1) c0(3)
    have c1: "diagnostics_ok copy1" "stored_warnings copy1 = stored_warnings src"
      by (auto simp: diagnostics_ok_def)
    then have "warning_count copy1 = warning_count src"
      using length_stored [OF c1(1)] len by simp
    with c1 True assms unfolded show ?thesis
      by (auto simp: clear_condition_def diagnostics_ok_def stored_warnings_def)
  qed
qed

theorem diagnostics_replace_roundtrip_witness:
  "fst (mylite_diagnostics_replace [] example_area False (Some example_area) (Some example_area)) =
     MYLITE_OK"
proof -
  have ok: "diagnostics_ok example_area" unfolding example_area_def by (rule init_area_ok)
  have "warning_count example_area = 0"
    by (simp add: example_area_def init_area_def reset_area_def)
  with diagnostics_replace_roundtrip [OF ok] show ?thesis
    by (cases "mylite_diagnostics_replace [] example_area False (Some example_area)
        (Some example_area)") fastforce
qed

end
