(* ===== verification/Named_Locks.thy ===== *)
theory Named_Locks
  imports Diagnostics "HOL-Library.Multiset"
begin

text \<open>
  User-level locks, \<^verbatim>\<open>runtime/mylite_named_locks.c\<close>: the process-wide registry behind
  GET_LOCK, IS_FREE_LOCK, IS_USED_LOCK, RELEASE_LOCK and RELEASE_ALL_LOCKS. Every operation
  runs under one mutex and is atomic; a waiting GET_LOCK gives the mutex up only while it
  sleeps, so a history of the registry is a sequence of the operations below.
\<close>

section \<open>Data\<close>

abbreviation (input) named_lock_name_max_bytes :: nat where "named_lock_name_max_bytes \<equiv> 64"
abbreviation (input) named_lock_initial_entry_capacity :: nat
  where "named_lock_initial_entry_capacity \<equiv> 8"
abbreviation (input) named_lock_wait_milliseconds_per_second :: int
  where "named_lock_wait_milliseconds_per_second \<equiv> 1000"
abbreviation (input) named_lock_wait_slice_milliseconds :: int
  where "named_lock_wait_slice_milliseconds \<equiv> 10"
abbreviation (input) named_lock_uint64_text_capacity :: nat
  where "named_lock_uint64_text_capacity \<equiv> 32"
abbreviation (input) mysql_error_user_lock_wrong_name :: int
  where "mysql_error_user_lock_wrong_name \<equiv> 3057"
abbreviation (input) mysql_error_user_lock_name_too_long :: int
  where "mysql_error_user_lock_name_too_long \<equiv> 4163"
abbreviation (input) mysql_warning_incorrect_count :: int
  where "mysql_warning_incorrect_count \<equiv> 1411"

text \<open>
  The name of an entry is the first \<^verbatim>\<open>name_size\<close> bytes of its array. A name given by a caller
  is a pointer, \<open>None\<close> when it is NULL, with its size.
\<close>

record named_lock_entry =
  lock_name :: bytes
  owner_connection_id :: u64
  hold_count :: u64

record named_lock_registry =
  named_lock_entries :: "named_lock_entry list"
  named_lock_entry_capacity :: nat

record lock_connection =
  connection_id :: u64
  diagnostics :: mylite_diagnostics

definition report ::
    "lock_connection \<Rightarrow> int \<Rightarrow> string \<Rightarrow> string \<Rightarrow> lock_connection" where
  "report db c st msg = db\<lparr>diagnostics := set_error (diagnostics db) c (Some st) (Some msg)\<rparr>"

definition set_wrong_name_error :: "lock_connection \<Rightarrow> lock_connection" where
  "set_wrong_name_error db = report db mysql_error_user_lock_wrong_name ''42000''
     ''Incorrect user-level lock name. The name is empty or NULL''"

definition set_name_too_long_error :: "lock_connection \<Rightarrow> lock_connection" where
  "set_name_too_long_error db = report db mysql_error_user_lock_name_too_long ''42000''
     ''User-level lock name is too long''"

definition named_lock_validate ::
    "lock_connection option \<Rightarrow> bytes option \<Rightarrow> int \<times> lock_connection option" where
  "named_lock_validate database name =
     (case database of None \<Rightarrow> (MYLITE_MISUSE, None) | Some db \<Rightarrow>
      (case name of
         None \<Rightarrow> (MYLITE_ERROR, Some (set_wrong_name_error db))
       | Some n \<Rightarrow>
         if n = [] then (MYLITE_ERROR, Some (set_wrong_name_error db))
         else if length n > named_lock_name_max_bytes
         then (MYLITE_ERROR, Some (set_name_too_long_error db))
         else (MYLITE_OK, Some db)))"

section \<open>The registry\<close>

text \<open>The index of the first entry with the name.\<close>

fun find_named_lock_entry :: "named_lock_entry list \<Rightarrow> bytes \<Rightarrow> nat option" where
  "find_named_lock_entry [] name = None"
| "find_named_lock_entry (e # es) name =
     (if length (lock_name e) = length name \<and> mem_equal (lock_name e) name (length name) then Some 0
      else map_option Suc (find_named_lock_entry es name))"

text \<open>
  Growing the array asks the environment, which may refuse; the size in bytes of an array that
  could be allocated is taken to be representable.
\<close>

definition ensure_named_lock_entry_capacity ::
    "allocator \<Rightarrow> lock_connection \<Rightarrow> named_lock_registry \<Rightarrow> nat \<Rightarrow>
     int \<times> lock_connection \<times> named_lock_registry \<times> allocator" where
  "ensure_named_lock_entry_capacity al db reg required_capacity =
     (if required_capacity \<le> named_lock_entry_capacity reg then (MYLITE_OK, db, reg, al)
      else (case grow_capacity
              (if named_lock_entry_capacity reg = 0 then named_lock_initial_entry_capacity
               else named_lock_entry_capacity reg) required_capacity of
         None \<Rightarrow> (MYLITE_NOMEM, report db MYLITE_NOMEM ''HY001'' ''too many named locks'', reg, al)
       | Some capacity \<Rightarrow>
         (let (ok, al) = next_alloc al
          in if \<not> ok
             then (MYLITE_NOMEM,
                   report db MYLITE_NOMEM ''HY001'' ''out of memory while recording named lock'',
                   reg, al)
             else (MYLITE_OK, db, reg\<lparr>named_lock_entry_capacity := capacity\<rparr>, al))))"

definition append_named_lock_entry ::
    "allocator \<Rightarrow> lock_connection \<Rightarrow> named_lock_registry \<Rightarrow> bytes \<Rightarrow> u64 \<Rightarrow>
     bool \<times> lock_connection \<times> named_lock_registry \<times> allocator" where
  "append_named_lock_entry al db reg name owner =
     (let (rc, db, reg, al) =
            ensure_named_lock_entry_capacity al db reg (length (named_lock_entries reg) + 1)
      in if rc \<noteq> MYLITE_OK then (False, db, reg, al)
         else (True, db,
               reg\<lparr>named_lock_entries := named_lock_entries reg @
                 [\<lparr>lock_name = name, owner_connection_id = owner, hold_count = 1\<rparr>]\<rparr>, al))"

text \<open>The last entry takes the place of the removed one.\<close>

definition remove_named_lock_entry :: "named_lock_entry list \<Rightarrow> nat \<Rightarrow> named_lock_entry list" where
  "remove_named_lock_entry es index =
     (if index \<ge> length es then es
      else (let count = length es - 1
            in take count (if index \<noteq> count then es[index := es ! count] else es)))"

definition try_get_named_lock ::
    "allocator \<Rightarrow> lock_connection \<Rightarrow> named_lock_registry \<Rightarrow> bytes \<Rightarrow> u64 \<Rightarrow>
     int \<times> int \<times> lock_connection \<times> named_lock_registry \<times> allocator" where
  "try_get_named_lock al db reg name cid =
     (case find_named_lock_entry (named_lock_entries reg) name of
        None \<Rightarrow>
          (let (ok, db, reg, al) = append_named_lock_entry al db reg name cid
           in if \<not> ok then (MYLITE_NOMEM, 0, db, reg, al) else (MYLITE_OK, 1, db, reg, al))
      | Some i \<Rightarrow>
          (let entry = named_lock_entries reg ! i
           in if owner_connection_id entry \<noteq> cid then (MYLITE_OK, 0, db, reg, al)
              else if hold_count entry = UINT64_MAX
              then (MYLITE_NOMEM, 0,
                    report db MYLITE_NOMEM ''HY001'' ''too many recursive named lock holds'', reg, al)
              else (MYLITE_OK, 1, db,
                    reg\<lparr>named_lock_entries := (named_lock_entries reg)
                      [i := entry\<lparr>hold_count := hold_count entry + 1\<rparr>]\<rparr>, al)))"

section \<open>Waiting\<close>

definition named_lock_timeout_milliseconds :: "int \<Rightarrow> int" where
  "named_lock_timeout_milliseconds timeout =
     (if timeout < 0 then INT32_MAX
      else if timeout > INT32_MAX div named_lock_wait_milliseconds_per_second then INT32_MAX
      else timeout * named_lock_wait_milliseconds_per_second)"

definition named_lock_sleep_milliseconds :: "int \<Rightarrow> int \<Rightarrow> int" where
  "named_lock_sleep_milliseconds waited_milliseconds timeout_seconds =
     (let timeout_milliseconds = named_lock_timeout_milliseconds timeout_seconds;
          remaining_milliseconds = timeout_milliseconds - waited_milliseconds
      in if timeout_seconds < 0 then named_lock_wait_slice_milliseconds
         else if remaining_milliseconds \<le> 0 then 0
         else if remaining_milliseconds < named_lock_wait_slice_milliseconds
         then remaining_milliseconds
         else named_lock_wait_slice_milliseconds)"

text \<open>
  What happens while the mutex is released: \<^verbatim>\<open>sqlite3_sleep\<close> reports the time it slept, and
  other connections may have changed the registry.
\<close>

type_synonym lock_environment = "named_lock_registry \<Rightarrow> int \<Rightarrow> int \<times> named_lock_registry"

text \<open>The loop, with the attempts numbered for the environment; \<open>None\<close> when \<open>fuel\<close> runs out.\<close>

fun named_lock_get_loop ::
    "(nat \<Rightarrow> lock_environment) \<Rightarrow> nat \<Rightarrow> nat \<Rightarrow> allocator \<Rightarrow> lock_connection \<Rightarrow> named_lock_registry \<Rightarrow>
     bytes \<Rightarrow> int \<Rightarrow> int \<Rightarrow> (int \<times> int \<times> lock_connection \<times> named_lock_registry \<times> allocator) option" where
  "named_lock_get_loop env 0 attempt al db reg name timeout waited = None"
| "named_lock_get_loop env (Suc fuel) attempt al db reg name timeout waited =
     (let (rc, value, db, reg, al) = try_get_named_lock al db reg name (connection_id db)
      in if rc \<noteq> MYLITE_OK \<or> value \<noteq> 0 \<or> timeout = 0 then Some (rc, value, db, reg, al)
         else (let sleep_milliseconds = named_lock_sleep_milliseconds waited timeout
               in if sleep_milliseconds \<le> 0 then Some (rc, value, db, reg, al)
                  else (let (slept, reg) = env attempt reg sleep_milliseconds
                        in named_lock_get_loop env fuel (Suc attempt) al db reg name timeout
                             (waited + (if slept > 0 then slept else sleep_milliseconds)))))"

definition mylite_named_lock_get ::
    "(nat \<Rightarrow> lock_environment) \<Rightarrow> nat \<Rightarrow> allocator \<Rightarrow> lock_connection option \<Rightarrow> named_lock_registry \<Rightarrow>
     bytes option \<Rightarrow> int \<Rightarrow>
     (int \<times> int \<times> lock_connection option \<times> named_lock_registry \<times> allocator) option" where
  "mylite_named_lock_get env fuel al database reg name timeout =
     (case database of None \<Rightarrow> Some (MYLITE_MISUSE, 0, None, reg, al) | Some _ \<Rightarrow>
      (let (rc, database) = named_lock_validate database name
       in if rc \<noteq> MYLITE_OK then Some (rc, 0, database, reg, al)
          else map_option (\<lambda>(rc, value, db, reg, al). (rc, value, Some db, reg, al))
            (named_lock_get_loop env fuel 0 al (the database) reg (the name) timeout 0)))"

section \<open>The other operations\<close>

definition mylite_named_lock_is_free ::
    "lock_connection option \<Rightarrow> named_lock_registry \<Rightarrow> bytes option \<Rightarrow>
     int \<times> int \<times> lock_connection option" where
  "mylite_named_lock_is_free database reg name =
     (case database of None \<Rightarrow> (MYLITE_MISUSE, 0, None) | Some _ \<Rightarrow>
      (let (rc, database) = named_lock_validate database name
       in if rc \<noteq> MYLITE_OK then (rc, 0, database)
          else (MYLITE_OK,
                if find_named_lock_entry (named_lock_entries reg) (the name) = None then 1 else 0,
                database)))"

text \<open>The connection id and the null flag.\<close>

definition mylite_named_lock_is_used ::
    "lock_connection option \<Rightarrow> named_lock_registry \<Rightarrow> bytes option \<Rightarrow>
     int \<times> u64 \<times> bool \<times> lock_connection option" where
  "mylite_named_lock_is_used database reg name =
     (case database of None \<Rightarrow> (MYLITE_MISUSE, 0, True, None) | Some _ \<Rightarrow>
      (let (rc, database) = named_lock_validate database name
       in if rc \<noteq> MYLITE_OK then (rc, 0, True, database)
          else (case find_named_lock_entry (named_lock_entries reg) (the name) of
                  None \<Rightarrow> (MYLITE_OK, 0, True, database)
                | Some i \<Rightarrow> (MYLITE_OK, owner_connection_id (named_lock_entries reg ! i), False,
                            database))))"

definition mylite_named_lock_release ::
    "lock_connection option \<Rightarrow> named_lock_registry \<Rightarrow> bytes option \<Rightarrow>
     int \<times> int \<times> bool \<times> lock_connection option \<times> named_lock_registry" where
  "mylite_named_lock_release database reg name =
     (case database of None \<Rightarrow> (MYLITE_MISUSE, 0, True, None, reg) | Some _ \<Rightarrow>
      (let (rc, database) = named_lock_validate database name
       in if rc \<noteq> MYLITE_OK then (rc, 0, True, database, reg)
          else (case find_named_lock_entry (named_lock_entries reg) (the name) of
                  None \<Rightarrow> (MYLITE_OK, 0, True, database, reg)
                | Some i \<Rightarrow>
                  (let entry = named_lock_entries reg ! i
                   in if owner_connection_id entry \<noteq> connection_id (the database)
                      then (MYLITE_OK, 0, False, database, reg)
                      else (let entry = entry\<lparr>hold_count := hold_count entry - 1\<rparr>;
                                es = (named_lock_entries reg)[i := entry]
                            in (MYLITE_OK, 1, False, database,
                                reg\<lparr>named_lock_entries :=
                                  if hold_count entry = 0 then remove_named_lock_entry es i
                                  else es\<rparr>))))))"

lemma remove_length:
  "index < length es \<Longrightarrow> length (remove_named_lock_entry es index) = length es - 1"
  by (simp add: remove_named_lock_entry_def Let_def)

text \<open>The loops that drop every entry of a connection; the first also adds up the holds.\<close>

function release_all_loop ::
    "u64 \<Rightarrow> nat \<Rightarrow> u64 \<Rightarrow> named_lock_entry list \<Rightarrow> u64 \<times> named_lock_entry list" where
  "release_all_loop cid index out_count es =
     (if index < length es then
        if owner_connection_id (es ! index) = cid
        then release_all_loop cid index
               (if out_count > UINT64_MAX - hold_count (es ! index) then UINT64_MAX
                else out_count + hold_count (es ! index))
               (remove_named_lock_entry es index)
        else release_all_loop cid (index + 1) out_count es
      else (out_count, es))"
  by pat_completeness auto
termination
  by (relation "measure (\<lambda>(cid, index, out_count, es). length es - index)") (auto simp: remove_length)

declare release_all_loop.simps [simp del]

definition mylite_named_lock_release_all ::
    "lock_connection option \<Rightarrow> named_lock_registry \<Rightarrow> int \<times> u64 \<times> named_lock_registry" where
  "mylite_named_lock_release_all database reg =
     (case database of None \<Rightarrow> (MYLITE_MISUSE, 0, reg) | Some db \<Rightarrow>
      (let (out_count, es) = release_all_loop (connection_id db) 0 0 (named_lock_entries reg)
       in (MYLITE_OK, out_count, reg\<lparr>named_lock_entries := es\<rparr>)))"

function release_connection_loop ::
    "u64 \<Rightarrow> nat \<Rightarrow> named_lock_entry list \<Rightarrow> named_lock_entry list" where
  "release_connection_loop cid index es =
     (if index < length es then
        if owner_connection_id (es ! index) = cid
        then release_connection_loop cid index (remove_named_lock_entry es index)
        else release_connection_loop cid (index + 1) es
      else es)"
  by pat_completeness auto
termination
  by (relation "measure (\<lambda>(cid, index, es). length es - index)") (auto simp: remove_length)

declare release_connection_loop.simps [simp del]

definition mylite_named_lock_release_all_for_connection ::
    "u64 \<Rightarrow> named_lock_registry \<Rightarrow> named_lock_registry" where
  "mylite_named_lock_release_all_for_connection cid reg =
     reg\<lparr>named_lock_entries := release_connection_loop cid 0 (named_lock_entries reg)\<rparr>"

section \<open>The registry as a map from names to holders\<close>

definition registry_ok :: "named_lock_registry \<Rightarrow> bool" where
  "registry_ok reg \<longleftrightarrow>
     distinct (map lock_name (named_lock_entries reg)) \<and>
     (\<forall>e \<in> set (named_lock_entries reg). hold_count e \<noteq> 0 \<and>
        lock_name e \<noteq> [] \<and> length (lock_name e) \<le> named_lock_name_max_bytes) \<and>
     length (named_lock_entries reg) \<le> named_lock_entry_capacity reg \<and>
     named_lock_entry_capacity reg \<le> SIZE_MAX"

definition lock_holder :: "named_lock_registry \<Rightarrow> bytes \<Rightarrow> (u64 \<times> nat) option" where
  "lock_holder reg =
     map_of (map (\<lambda>e. (lock_name e, (owner_connection_id e, unat (hold_count e))))
       (named_lock_entries reg))"

lemma find_None_iff: "find_named_lock_entry es name = None \<longleftrightarrow> name \<notin> lock_name ` set es"
  by (induction es) (auto simp: mem_equal_def)

lemma find_SomeD:
  "find_named_lock_entry es name = Some i \<Longrightarrow> i < length es \<and> lock_name (es ! i) = name"
  by (induction es arbitrary: i) (auto simp: mem_equal_def split: if_splits)

lemma holder_alt:
  "lock_holder reg name =
     map_option (\<lambda>i. (owner_connection_id (named_lock_entries reg ! i),
        unat (hold_count (named_lock_entries reg ! i))))
       (find_named_lock_entry (named_lock_entries reg) name)"
proof -
  have "map_of (map (\<lambda>e. (lock_name e, (owner_connection_id e, unat (hold_count e)))) es) name =
     map_option (\<lambda>i. (owner_connection_id (es ! i), unat (hold_count (es ! i))))
       (find_named_lock_entry es name)" for es
    by (induction es) (auto simp: mem_equal_def option.map_comp o_def)
  then show ?thesis by (simp add: lock_holder_def)
qed

text \<open>With distinct names, the map depends on the set of entries only.\<close>

lemma holder_Some_iff:
  assumes "distinct (map lock_name (named_lock_entries reg))"
  shows "lock_holder reg name = Some (c, k) \<longleftrightarrow>
    (\<exists>e \<in> set (named_lock_entries reg). lock_name e = name \<and> owner_connection_id e = c \<and>
       unat (hold_count e) = k)"
proof -
  have "distinct (map fst (map (\<lambda>e. (lock_name e, (owner_connection_id e, unat (hold_count e))))
      (named_lock_entries reg)))"
    using assms by (simp add: o_def)
  from map_of_eq_Some_iff [OF this] show ?thesis
    by (auto simp: lock_holder_def image_iff)
qed

lemma holder_None_iff:
  "lock_holder reg name = None \<longleftrightarrow> name \<notin> lock_name ` set (named_lock_entries reg)"
  by (simp add: holder_alt find_None_iff)

lemma remove_append:
  "i \<le> length es \<Longrightarrow> remove_named_lock_entry (es @ [e]) i = (if i = length es then es else es[i := e])"
  by (simp add: remove_named_lock_entry_def Let_def nth_append list_update_append)

lemma remove_mset:
  assumes "i < length es"
  shows "mset (remove_named_lock_entry es i) = mset es - {# es ! i #}"
proof -
  from assms obtain xs x where es: "es = xs @ [x]" by (cases es rule: rev_cases) auto
  with assms show ?thesis by (auto simp: remove_append nth_append mset_update)
qed

lemma mset_names:
  assumes "mset es' = mset es - {# es ! i #}" "i < length es" "distinct (map lock_name es)"
  shows "distinct (map lock_name es') \<and> set es' = set es - {es ! i}"
proof -
  have m: "mset es = add_mset (es ! i) (mset es')" using assms(1,2) by simp
  then have "mset (map lock_name es) = add_mset (lock_name (es ! i)) (mset (map lock_name es'))"
    by simp
  then have "distinct (lock_name (es ! i) # map lock_name es')"
    using assms(3) by (metis mset.simps(2) mset_eq_imp_distinct_iff)
  moreover have "set es = insert (es ! i) (set es')"
    by (metis m mset.simps(2) set_mset_mset list.simps(15))
  ultimately show ?thesis by auto
qed

lemmas remove_set = mset_names [OF remove_mset]

lemma update_set:
  assumes "i < length es" "distinct (map lock_name es)" "lock_name e = lock_name (es ! i)"
  shows "distinct (map lock_name (es[i := e])) \<and> set (es[i := e]) = insert e (set es - {es ! i})"
proof -
  have "map lock_name (es[i := e]) = map lock_name es"
    using assms(1,3) by (simp add: map_update list_update_same_conv)
  moreover have "set (es[i := e]) = insert e (set es - {es ! i})"
    using assms(1) distinct_map assms(2) by (metis set_update_distinct)
  ultimately show ?thesis using assms(2) by simp
qed

text \<open>Dropping the entries of a connection.\<close>

definition without :: "u64 \<Rightarrow> named_lock_entry set \<Rightarrow> named_lock_entry set" where
  "without cid E = {e \<in> E. owner_connection_id e \<noteq> cid}"

lemma release_connection_loop_set:
  assumes "distinct (map lock_name es)"
    and "\<And>j. j < index \<Longrightarrow> j < length es \<Longrightarrow> owner_connection_id (es ! j) \<noteq> cid"
  shows "distinct (map lock_name (release_connection_loop cid index es)) \<and>
    set (release_connection_loop cid index es) = without cid (set es) \<and>
    length (release_connection_loop cid index es) \<le> length es"
  using assms
proof (induction cid index es rule: release_connection_loop.induct)
  case (1 cid index es)
  consider (drop) "index < length es" "owner_connection_id (es ! index) = cid"
    | (keep) "index < length es" "owner_connection_id (es ! index) \<noteq> cid" | (stop) "length es \<le> index"
    by linarith
  then show ?case
  proof cases
    case drop
    let ?r = "remove_named_lock_entry es index"
    have r: "distinct (map lock_name ?r)" "set ?r = set es - {es ! index}" "length ?r = length es - 1"
      using remove_set [OF drop(1) drop(1) "1.prems"(1)] remove_length [OF drop(1)] by auto
    have prefix: "owner_connection_id (?r ! j) \<noteq> cid" if "j < index" "j < length ?r" for j
    proof -
      have "?r ! j = es ! j"
        using that drop(1) by (simp add: remove_named_lock_entry_def Let_def)
      with that "1.prems"(2) r(3) show ?thesis by simp
    qed
    have "without cid (set ?r) = without cid (set es)" using r(2) drop(2) by (auto simp: without_def)
    with "1.IH"(1) [OF drop r(1) prefix] drop r(3) show ?thesis
      by (auto simp: release_connection_loop.simps [of cid index es])
  next
    case keep
    have "owner_connection_id (es ! j) \<noteq> cid" if "j < index + 1" "j < length es" for j
      using that "1.prems"(2) keep(2) by (cases "j = index") auto
    with "1.IH"(2) [OF keep "1.prems"(1)] keep show ?thesis
      by (simp add: release_connection_loop.simps [of cid index es])
  next
    case stop
    with "1.prems"(2) have "\<forall>e \<in> set es. owner_connection_id e \<noteq> cid"
      by (metis in_set_conv_nth less_le_trans)
    then have "without cid (set es) = set es" by (auto simp: without_def)
    with stop "1.prems"(1) show ?thesis by (simp add: release_connection_loop.simps [of cid index es])
  qed
qed

text \<open>Both loops drop the same entries.\<close>

lemma release_all_loop_entries:
  "snd (release_all_loop cid index out_count es) = release_connection_loop cid index es"
  by (induction cid index out_count es rule: release_all_loop.induct)
    (subst release_all_loop.simps, subst release_connection_loop.simps, simp)

text \<open>The count, saturated at the largest 64-bit value.\<close>

definition held_by :: "u64 \<Rightarrow> named_lock_entry list \<Rightarrow> nat" where
  "held_by cid es = (\<Sum>e \<leftarrow> es. if owner_connection_id e = cid then unat (hold_count e) else 0)"

lemma unat64_less: "unat (w :: u64) < 2 ^ 64"
  using unsigned_less [of w, where ?'a = nat] by simp

lemma saturating_add:
  "unat (if c > UINT64_MAX - h then UINT64_MAX else c + h) =
     min (unat c + unat h) (2 ^ 64 - 1)" for c h :: u64
proof -
  have max: "unat UINT64_MAX = 2 ^ 64 - 1" by (simp add: UINT64_MAX_def unsigned_minus_1_eq_mask mask_eq_exp_minus_1)
  have h: "unat h \<le> 2 ^ 64 - 1" "unat c \<le> 2 ^ 64 - 1"
    using unat64_less [of h] unat64_less [of c] by simp_all
  have le: "h \<le> UINT64_MAX" by (simp add: UINT64_MAX_def)
  have sub: "unat (UINT64_MAX - h) = 2 ^ 64 - 1 - unat h"
    by (simp only: unat_sub [OF le] max)
  show ?thesis
  proof (cases "c > UINT64_MAX - h")
    case True
    then have "2 ^ 64 - 1 - unat h < unat c" by (simp add: word_less_nat_alt sub)
    with True max show ?thesis by simp
  next
    case False
    then have "unat c + unat h \<le> 2 ^ 64 - 1"
      using h by (simp add: word_less_nat_alt sub not_less)
    then have "unat (c + h) = unat c + unat h"
      by (simp add: unat_word_ariths)
    with False \<open>unat c + unat h \<le> 2 ^ 64 - 1\<close> show ?thesis by simp
  qed
qed

lemma held_by_remove:
  assumes "i < length es"
  shows "held_by cid es = (if owner_connection_id (es ! i) = cid then unat (hold_count (es ! i)) else 0) +
    held_by cid (remove_named_lock_entry es i)"
proof -
  let ?f = "\<lambda>e. if owner_connection_id e = cid then unat (hold_count e) else 0"
  have "held_by cid xs = (\<Sum>e \<in># mset xs. ?f e)" for xs
    by (induction xs) (auto simp: held_by_def)
  moreover have "mset es = add_mset (es ! i) (mset (remove_named_lock_entry es i))"
    using assms by (simp add: remove_mset)
  ultimately show ?thesis by simp
qed

lemma release_all_loop_count:
  assumes "\<And>j. j < index \<Longrightarrow> j < length es \<Longrightarrow> owner_connection_id (es ! j) \<noteq> cid"
  shows "unat (fst (release_all_loop cid index out_count es)) =
    min (unat out_count + held_by cid es) (2 ^ 64 - 1)"
  using assms
proof (induction cid index out_count es rule: release_all_loop.induct)
  case (1 cid index out_count es)
  consider (drop) "index < length es" "owner_connection_id (es ! index) = cid"
    | (keep) "index < length es" "owner_connection_id (es ! index) \<noteq> cid" | (stop) "length es \<le> index"
    by linarith
  then show ?case
  proof cases
    case drop
    let ?r = "remove_named_lock_entry es index"
    have prefix: "owner_connection_id (?r ! j) \<noteq> cid" if "j < index" "j < length ?r" for j
    proof -
      have "?r ! j = es ! j"
        using that drop(1) by (simp add: remove_named_lock_entry_def Let_def)
      with that "1.prems" drop(1) show ?thesis by (simp add: remove_length)
    qed
    let ?c = "if out_count > UINT64_MAX - hold_count (es ! index) then UINT64_MAX
      else out_count + hold_count (es ! index)"
    have "release_all_loop cid index out_count es = release_all_loop cid index ?c ?r"
      using drop by (subst release_all_loop.simps) (simp only: if_True simp_thms)
    moreover have "unat (fst (release_all_loop cid index ?c ?r)) =
        min (unat ?c + held_by cid ?r) (2 ^ 64 - 1)"
      by (rule "1.IH"(1) [OF drop prefix])
    moreover have "unat ?c = min (unat out_count + unat (hold_count (es ! index))) (2 ^ 64 - 1)"
      by (rule saturating_add)
    moreover have "held_by cid es = unat (hold_count (es ! index)) + held_by cid ?r"
      using held_by_remove [OF drop(1), of cid] drop(2) by simp
    ultimately show ?thesis by (simp only:) (simp add: min_def)
  next
    case keep
    have "owner_connection_id (es ! j) \<noteq> cid" if "j < index + 1" "j < length es" for j
      using that "1.prems" keep(2) by (cases "j = index") auto
    with "1.IH"(2) [OF keep] keep show ?thesis by (subst release_all_loop.simps) simp
  next
    case stop
    with "1.prems" have "\<forall>e \<in> set es. owner_connection_id e \<noteq> cid"
      by (metis in_set_conv_nth less_le_trans)
    then have "held_by cid es = 0" by (simp add: held_by_def)
    with stop show ?thesis
      using unat64_less [of out_count] by (subst release_all_loop.simps) simp
  qed
qed

end
