(* ===== verification/Lock_Service.thy ===== *)
theory Lock_Service
  imports Named_Locks
begin

text \<open>
  What the named-lock registry promises its connections. The locale \<open>lock_service\<close> is the
  contract: a lock has at most one holder with a hold count, and each operation moves one
  entry of that map. Mutual exclusion and the balance of acquisitions and releases over any
  interleaving follow inside the locale; the interpretation shows that the registry of
  \<^verbatim>\<open>mylite_named_locks.c\<close> satisfies it.
\<close>

section \<open>The contract\<close>

datatype ('a, 'c, 'n) lock_event =
    Acquire 'a 'c 'n
  | Release 'c 'n
  | ReleaseAll 'c

text \<open>
  A history: the state, and for each connection and name the acquisitions granted to it and
  not yet released.
\<close>

fun history_step ::
    "('a \<Rightarrow> 'c \<Rightarrow> 'n \<Rightarrow> 's \<Rightarrow> bool \<times> 's) \<Rightarrow> ('c \<Rightarrow> 'n \<Rightarrow> 's \<Rightarrow> bool \<times> 's) \<Rightarrow> ('c \<Rightarrow> 's \<Rightarrow> 's) \<Rightarrow>
     's \<times> ('c \<Rightarrow> 'n \<Rightarrow> nat) \<Rightarrow> ('a, 'c, 'n) lock_event \<Rightarrow> 's \<times> ('c \<Rightarrow> 'n \<Rightarrow> nat)" where
  "history_step acq rel rel_all (s, bal) (Acquire a c n) =
     (case acq a c n s of
        (True, s') \<Rightarrow> (s', \<lambda>c' n'. if c' = c \<and> n' = n then bal c n + 1 else bal c' n')
      | (False, s') \<Rightarrow> (s', bal))"
| "history_step acq rel rel_all (s, bal) (Release c n) =
     (case rel c n s of
        (True, s') \<Rightarrow> (s', \<lambda>c' n'. if c' = c \<and> n' = n then bal c n - 1 else bal c' n')
      | (False, s') \<Rightarrow> (s', bal))"
| "history_step acq rel rel_all (s, bal) (ReleaseAll c) =
     (rel_all c s, \<lambda>c' n'. if c' = c then 0 else bal c' n')"

definition balanced :: "('n \<Rightarrow> ('c \<times> nat) option) \<Rightarrow> ('c \<Rightarrow> 'n \<Rightarrow> nat) \<Rightarrow> bool" where
  "balanced held bal \<longleftrightarrow> (\<forall>c n. bal c n =
     (case held n of None \<Rightarrow> 0 | Some (c', k) \<Rightarrow> if c' = c then k else 0))"

lemma balanced_exclusive:
  "balanced held bal \<Longrightarrow> 0 < bal c n \<Longrightarrow> 0 < bal c' n \<Longrightarrow> c = c'"
  by (auto simp: balanced_def split: option.splits if_splits)

locale lock_service =
  fixes invar :: "'s \<Rightarrow> bool"
    and holder :: "'s \<Rightarrow> 'n \<Rightarrow> ('c \<times> nat) option"
    and acquire :: "'a \<Rightarrow> 'c \<Rightarrow> 'n \<Rightarrow> 's \<Rightarrow> bool \<times> 's"
    and release :: "'c \<Rightarrow> 'n \<Rightarrow> 's \<Rightarrow> bool \<times> 's"
    and release_all :: "'c \<Rightarrow> 's \<Rightarrow> 's"
  assumes acquire_granted:
    "invar s \<Longrightarrow> acquire a c n s = (True, s') \<Longrightarrow>
     invar s' \<and> (\<exists>k. (holder s n = (if k = 0 then None else Some (c, k))) \<and>
       holder s' = (holder s)(n \<mapsto> (c, Suc k)))"
    and acquire_refused:
    "invar s \<Longrightarrow> acquire a c n s = (False, s') \<Longrightarrow> invar s' \<and> holder s' = holder s"
    and release_granted:
    "invar s \<Longrightarrow> release c n s = (True, s') \<Longrightarrow>
     invar s' \<and> (\<exists>k. holder s n = Some (c, Suc k) \<and>
       holder s' = (holder s)(n := if k = 0 then None else Some (c, k)))"
    and release_refused:
    "invar s \<Longrightarrow> release c n s = (False, s') \<Longrightarrow> invar s' \<and> holder s' = holder s"
    and release_all_effect:
    "invar s \<Longrightarrow> invar (release_all c s) \<and>
     holder (release_all c s) n =
       (case holder s n of None \<Rightarrow> None | Some (c', k) \<Rightarrow> if c' = c then None else Some (c', k))"
begin

abbreviation step :: "'s \<times> ('c \<Rightarrow> 'n \<Rightarrow> nat) \<Rightarrow> ('a, 'c, 'n) lock_event \<Rightarrow> 's \<times> ('c \<Rightarrow> 'n \<Rightarrow> nat)" where
  "step \<equiv> history_step acquire release release_all"

lemma history_step_balanced:
  assumes "invar s" "balanced (holder s) bal" "step (s, bal) e = (s', bal')"
  shows "invar s' \<and> balanced (holder s') bal'"
proof (cases e)
  case (Acquire a c n)
  show ?thesis
  proof (cases "acquire a c n s")
    case (Pair granted t)
    show ?thesis
    proof (cases granted)
      case True
      with Pair have "acquire a c n s = (True, t)" by simp
      from acquire_granted [OF assms(1) this] obtain k where k: "invar t"
        "holder s n = (if k = 0 then None else Some (c, k))" "holder t = (holder s)(n \<mapsto> (c, Suc k))"
        by blast
      have "bal c' n = (if c' = c then k else 0)" for c'
        using assms(2) k(2) by (auto simp: balanced_def split: if_splits)
      with True Pair Acquire assms k show ?thesis by (auto simp: balanced_def)
    next
      case False
      with Pair acquire_refused [OF assms(1)] assms Acquire show ?thesis
        by (auto simp: balanced_def)
    qed
  qed
next
  case (Release c n)
  show ?thesis
  proof (cases "release c n s")
    case (Pair granted t)
    show ?thesis
    proof (cases granted)
      case True
      with Pair have "release c n s = (True, t)" by simp
      from release_granted [OF assms(1) this] obtain k where k: "invar t"
        "holder s n = Some (c, Suc k)"
        "holder t = (holder s)(n := if k = 0 then None else Some (c, k))"
        by blast
      have "bal c' n = (if c' = c then Suc k else 0)" for c'
        using assms(2) k(2) by (auto simp: balanced_def)
      with True Pair Release assms k show ?thesis by (auto simp: balanced_def)
    next
      case False
      with Pair release_refused [OF assms(1)] assms Release show ?thesis
        by (auto simp: balanced_def)
    qed
  qed
next
  case (ReleaseAll c)
  with assms have s': "s' = release_all c s" "bal' = (\<lambda>c' n'. if c' = c then 0 else bal c' n')"
    by auto
  have b: "bal c' n = (case holder s n of None \<Rightarrow> 0 | Some (c'', k) \<Rightarrow> if c'' = c' then k else 0)" for c' n
    using assms(2) unfolding balanced_def by blast
  have "balanced (holder s') bal'"
    unfolding balanced_def s' b conjunct2 [OF release_all_effect [OF assms(1)]]
    by (auto split: option.split)
  with release_all_effect [OF assms(1)] s' show ?thesis by blast
qed

lemma history_balanced:
  "invar s \<Longrightarrow> balanced (holder s) bal \<Longrightarrow> foldl step (s, bal) es = (s', bal') \<Longrightarrow>
    invar s' \<and> balanced (holder s') bal'"
proof (induction es arbitrary: s bal)
  case (Cons e es)
  obtain t tbal where t: "step (s, bal) e = (t, tbal)" by fastforce
  from history_step_balanced [OF Cons.prems(1,2) t] have "invar t" "balanced (holder t) tbal" by auto
  from Cons.IH [OF this] Cons.prems(3) t show ?case by simp
qed simp

end

section \<open>The operations on the registry\<close>

lemma registry_okD:
  "registry_ok reg \<Longrightarrow> distinct (map lock_name (named_lock_entries reg))"
  "registry_ok reg \<Longrightarrow> e \<in> set (named_lock_entries reg) \<Longrightarrow> hold_count e \<noteq> 0"
  by (auto simp: registry_ok_def)

lemma u64_eq_iff: "(a :: u64) = b \<longleftrightarrow> unat a = unat b"
  by (simp add: word_eq_iff_unsigned)

lemma unat64_Suc:
  assumes "h \<noteq> UINT64_MAX"
  shows "unat (h + 1 :: u64) = Suc (unat h)"
proof -
  have "unat h \<noteq> 2 ^ 64 - 1"
    using assms by (auto simp: u64_eq_iff UINT64_MAX_def unsigned_minus_1_eq_mask mask_eq_exp_minus_1)
  with unat64_less [of h] have "unat h + 1 < 2 ^ 64" by simp
  then show ?thesis by (simp add: unat_word_ariths)
qed

lemma unat64_pred:
  assumes "h \<noteq> 0"
  shows "unat (h :: u64) = Suc (unat (h - 1))"
proof -
  have pos: "0 < unat h" using assms by (simp add: unat_gt_0)
  then have "1 \<le> h" by (simp add: word_le_nat_alt Suc_le_eq)
  then have "unat (h - 1) = unat h - 1" by (simp add: unat_sub)
  with pos show ?thesis by simp
qed

lemma ensure_capacity_cases:
  assumes "ensure_named_lock_entry_capacity al db reg n = (rc, db', reg', al')"
    and "named_lock_entry_capacity reg \<le> SIZE_MAX"
  shows "named_lock_entries reg' = named_lock_entries reg \<and>
    (rc = MYLITE_OK \<and> db' = db \<and> n \<le> named_lock_entry_capacity reg' \<and>
       named_lock_entry_capacity reg \<le> named_lock_entry_capacity reg' \<and>
       named_lock_entry_capacity reg' \<le> SIZE_MAX
     \<or> rc = MYLITE_NOMEM \<and> reg' = reg \<and> connection_id db' = connection_id db)"
proof (cases "n \<le> named_lock_entry_capacity reg")
  case True
  with assms show ?thesis by (simp add: ensure_named_lock_entry_capacity_def)
next
  case False
  let ?c0 = "if named_lock_entry_capacity reg = 0 then 8 else named_lock_entry_capacity reg"
  show ?thesis
  proof (cases "grow_capacity ?c0 n")
    case None
    with False assms(1) show ?thesis
      by (auto simp: ensure_named_lock_entry_capacity_def report_def)
  next
    case (Some c)
    have c0: "?c0 \<noteq> 0" "?c0 \<le> SIZE_MAX" using assms(2) by (auto simp: limit_simps)
    from grow_capacity_Some [OF Some c0]
    have c: "n \<le> c" "named_lock_entry_capacity reg \<le> c" "c \<le> SIZE_MAX" by (auto split: if_splits)
    obtain ok al1 where al: "next_alloc al = (ok, al1)" by fastforce
    have "ensure_named_lock_entry_capacity al db reg n =
      (if \<not> ok then (MYLITE_NOMEM,
         report db MYLITE_NOMEM ''HY001'' ''out of memory while recording named lock'', reg, al1)
       else (MYLITE_OK, db, reg\<lparr>named_lock_entry_capacity := c\<rparr>, al1))"
      using False Some al by (simp add: ensure_named_lock_entry_capacity_def)
    with assms(1) c show ?thesis by (cases ok) (auto simp: report_def)
  qed
qed

text \<open>The map after one entry was added, changed or removed.\<close>

lemma holder_eqI:
  assumes "distinct (map lock_name (named_lock_entries reg'))"
    and "\<And>m c k. (\<exists>e \<in> set (named_lock_entries reg'). lock_name e = m \<and> owner_connection_id e = c \<and>
       unat (hold_count e) = k) \<longleftrightarrow> f m = Some (c, k)"
  shows "lock_holder reg' = f"
proof
  fix m
  have "lock_holder reg' m = Some (c, k) \<longleftrightarrow> f m = Some (c, k)" for c k
    using holder_Some_iff [OF assms(1)] assms(2) by blast
  then show "lock_holder reg' m = f m"
    by (metis not_None_eq surj_pair)
qed

lemma holder_insert:
  assumes reg: "distinct (map lock_name (named_lock_entries reg))"
    and reg': "distinct (map lock_name (named_lock_entries reg'))"
    and E: "set (named_lock_entries reg') = insert e' (set (named_lock_entries reg) - E)"
    and names: "\<And>x. x \<in> set (named_lock_entries reg) \<Longrightarrow> lock_name x = lock_name e' \<longleftrightarrow> x \<in> E"
  shows "lock_holder reg' =
    (lock_holder reg)(lock_name e' \<mapsto> (owner_connection_id e', unat (hold_count e')))"
  by (rule holder_eqI [OF reg']) (auto simp: E holder_Some_iff [OF reg] names split: if_splits)

lemma holder_remove:
  assumes reg: "distinct (map lock_name (named_lock_entries reg))"
    and reg': "distinct (map lock_name (named_lock_entries reg'))"
    and E: "set (named_lock_entries reg') = set (named_lock_entries reg) - {e}"
    and e: "e \<in> set (named_lock_entries reg)"
  shows "lock_holder reg' = (lock_holder reg)(lock_name e := None)"
proof (rule holder_eqI [OF reg'])
  have "x = e" if "x \<in> set (named_lock_entries reg)" "lock_name x = lock_name e" for x
    using reg e that by (auto simp: distinct_map inj_on_def)
  then show "(\<exists>x \<in> set (named_lock_entries reg'). lock_name x = m \<and> owner_connection_id x = c \<and>
      unat (hold_count x) = k) \<longleftrightarrow> ((lock_holder reg)(lock_name e := None)) m = Some (c, k)" for m c k
    using holder_Some_iff [OF reg, of m c k] by (auto simp: E)
qed

lemma entry_unique:
  assumes "registry_ok reg" "find_named_lock_entry (named_lock_entries reg) n = Some i"
    and "x \<in> set (named_lock_entries reg)"
  shows "lock_name x = n \<longleftrightarrow> x = named_lock_entries reg ! i"
proof -
  from find_SomeD [OF assms(2)] have "named_lock_entries reg ! i \<in> set (named_lock_entries reg)"
    "lock_name (named_lock_entries reg ! i) = n" by auto
  moreover have "inj_on lock_name (set (named_lock_entries reg))"
    using registry_okD(1) [OF assms(1)] by (simp add: distinct_map)
  ultimately show ?thesis using assms(3) by (metis inj_onD)
qed

lemma try_get_cases:
  assumes ok: "registry_ok reg" and valid: "n \<noteq> []" "length n \<le> 64"
    and t: "try_get_named_lock al db reg n c = (rc, v, db', reg', al')"
  shows "registry_ok reg' \<and>
    (v = 1 \<and> rc = MYLITE_OK \<and> db' = db \<and>
       (\<exists>k. lock_holder reg n = (if k = 0 then None else Some (c, k)) \<and>
         lock_holder reg' = (lock_holder reg)(n \<mapsto> (c, Suc k)))
     \<or> v = 0 \<and> rc = MYLITE_OK \<and> reg' = reg \<and> db' = db \<and>
       (\<exists>c' k. c' \<noteq> c \<and> lock_holder reg n = Some (c', k))
     \<or> v = 0 \<and> rc = MYLITE_NOMEM \<and> reg' = reg \<and> connection_id db' = connection_id db \<and>
       (lock_holder reg n = None \<or> lock_holder reg n = Some (c, 2 ^ 64 - 1)))"
proof (cases "find_named_lock_entry (named_lock_entries reg) n")
  case None
  let ?new = "\<lparr>lock_name = n, owner_connection_id = c, hold_count = 1\<rparr>"
  obtain rc1 db1 reg1 al1 where e: "ensure_named_lock_entry_capacity al db reg
      (length (named_lock_entries reg) + 1) = (rc1, db1, reg1, al1)" by (metis prod_cases4)
  have "named_lock_entry_capacity reg \<le> SIZE_MAX" using ok by (simp add: registry_ok_def)
  note cases1 = ensure_capacity_cases [OF e this]
  have free: "lock_holder reg n = None" using None by (simp add: holder_alt)
  show ?thesis
  proof (cases "rc1 = MYLITE_OK")
    case True
    let ?reg = "reg1\<lparr>named_lock_entries := named_lock_entries reg1 @ [?new]\<rparr>"
    from True cases1 have r1: "named_lock_entries reg1 = named_lock_entries reg" "db1 = db"
      "length (named_lock_entries reg) + 1 \<le> named_lock_entry_capacity reg1"
      "named_lock_entry_capacity reg1 \<le> SIZE_MAX" by auto
    have out: "rc = MYLITE_OK" "v = 1" "db' = db" "reg' = ?reg"
      using t None True e r1(2)
      by (auto simp: try_get_named_lock_def append_named_lock_entry_def Let_def)
    have fresh: "n \<notin> lock_name ` set (named_lock_entries reg)" using None by (simp add: find_None_iff)
    have ok': "registry_ok ?reg"
      using ok r1 valid fresh by (auto simp: registry_ok_def)
    have "lock_holder ?reg = (lock_holder reg)(lock_name ?new \<mapsto>
        (owner_connection_id ?new, unat (hold_count ?new)))"
      by (rule holder_insert [where E = "{}", OF registry_okD(1) [OF ok] registry_okD(1) [OF ok']])
        (use fresh r1 in auto)
    with ok' out free show ?thesis by simp
  next
    case False
    with cases1 have r1: "rc1 = MYLITE_NOMEM" "reg1 = reg" "connection_id db1 = connection_id db"
      by auto
    have "rc = MYLITE_NOMEM" "v = 0" "db' = db1" "reg' = reg"
      using t None False e r1(2)
      by (auto simp: try_get_named_lock_def append_named_lock_entry_def Let_def)
    with r1 ok free show ?thesis by simp
  qed
next
  case (Some i)
  let ?e = "named_lock_entries reg ! i"
  from find_SomeD [OF Some] have i: "i < length (named_lock_entries reg)" "lock_name ?e = n" by auto
  have h: "lock_holder reg n = Some (owner_connection_id ?e, unat (hold_count ?e))"
    using Some by (simp add: holder_alt)
  have uniq: "lock_name x = lock_name ?e \<longleftrightarrow> x = ?e" if "x \<in> set (named_lock_entries reg)" for x
    using entry_unique [OF ok Some that] i(2) by simp
  consider (other) "owner_connection_id ?e \<noteq> c"
    | (limit) "owner_connection_id ?e = c" "hold_count ?e = UINT64_MAX"
    | (again) "owner_connection_id ?e = c" "hold_count ?e \<noteq> UINT64_MAX" by blast
  then show ?thesis
  proof cases
    case other
    with t Some ok h show ?thesis by (auto simp: try_get_named_lock_def Let_def)
  next
    case limit
    with t Some ok h show ?thesis
      by (auto simp: try_get_named_lock_def Let_def report_def UINT64_MAX_def
          unsigned_minus_1_eq_mask mask_eq_exp_minus_1)
  next
    case again
    let ?e' = "?e\<lparr>hold_count := hold_count ?e + 1\<rparr>"
    let ?reg = "reg\<lparr>named_lock_entries := (named_lock_entries reg)[i := ?e']\<rparr>"
    have out: "rc = MYLITE_OK" "v = 1" "db' = db" "reg' = ?reg"
      using t Some again by (auto simp: try_get_named_lock_def Let_def)
    note upd = update_set [OF i(1) registry_okD(1) [OF ok], of ?e']
    have count: "unat (hold_count ?e') = Suc (unat (hold_count ?e))"
      using again by (simp add: unat64_Suc)
    then have ok': "registry_ok ?reg"
      using ok upd i by (auto simp: registry_ok_def)
    have "lock_holder ?reg = (lock_holder reg)(lock_name ?e' \<mapsto>
        (owner_connection_id ?e', unat (hold_count ?e')))"
      by (rule holder_insert [where E = "{?e}", OF registry_okD(1) [OF ok] registry_okD(1) [OF ok']])
        (use upd uniq in simp_all)
    moreover have "unat (hold_count ?e) \<noteq> 0"
      using registry_okD(2) [OF ok, of ?e] i by (simp add: unat_eq_zero)
    ultimately show ?thesis using out ok' h count again i by auto
  qed
qed

lemma release_entry:
  assumes ok: "registry_ok reg" and found: "find_named_lock_entry (named_lock_entries reg) n = Some i"
    and own: "owner_connection_id (named_lock_entries reg ! i) = c"
  defines "e \<equiv> named_lock_entries reg ! i"
  defines "e' \<equiv> e\<lparr>hold_count := hold_count e - 1\<rparr>"
  defines "es \<equiv> (named_lock_entries reg)[i := e']"
  defines "reg' \<equiv> reg\<lparr>named_lock_entries := if hold_count e' = 0
    then remove_named_lock_entry es i else es\<rparr>"
  shows "registry_ok reg' \<and> lock_holder reg' = (lock_holder reg)
    (n := if unat (hold_count e) = 1 then None else Some (c, unat (hold_count e) - 1))"
proof -
  from find_SomeD [OF found] have i: "i < length (named_lock_entries reg)" "lock_name e = n"
    by (auto simp: e_def)
  have e: "e \<in> set (named_lock_entries reg)" using i by (simp add: e_def)
  have uniq: "lock_name x = lock_name e \<longleftrightarrow> x = e" if "x \<in> set (named_lock_entries reg)" for x
    using entry_unique [OF ok found that] i(2) by (simp add: e_def)
  have pos: "hold_count e \<noteq> 0" using registry_okD(2) [OF ok e] .
  note k = unat64_pred [OF pos]
  note upd = update_set [OF i(1) registry_okD(1) [OF ok], of e', folded e_def es_def]
  have es: "distinct (map lock_name es)" "set es = insert e' (set (named_lock_entries reg) - {e})"
    using upd by (auto simp: e'_def e_def)
  have nth: "es ! i = e'" "length es = length (named_lock_entries reg)" using i by (simp_all add: es_def)
  show ?thesis
  proof (cases "hold_count e' = 0")
    case True
    then have one: "unat (hold_count e) = 1" using k by (simp add: e'_def unat_eq_zero)
    have reg': "named_lock_entries reg' = remove_named_lock_entry es i"
      "named_lock_entry_capacity reg' = named_lock_entry_capacity reg"
      by (simp_all add: reg'_def True)
    note rem = remove_set [of i es, unfolded nth(2), OF i(1) i(1) es(1), unfolded nth(1)]
    have "e' \<notin> set (named_lock_entries reg)"
      using registry_okD(2) [OF ok, of e'] True by blast
    then have set': "set (named_lock_entries reg') = set (named_lock_entries reg) - {e}"
      using rem es(2) by (auto simp: reg')
    have ok': "registry_ok reg'"
      using ok rem set' remove_length [of i es] i nth(2) by (auto simp: registry_ok_def reg')
    have "lock_holder reg' = (lock_holder reg)(lock_name e := None)"
      by (rule holder_remove [OF registry_okD(1) [OF ok] registry_okD(1) [OF ok'] set' e])
    with ok' one i show ?thesis by simp
  next
    case False
    then have reg': "named_lock_entries reg' = es"
      "named_lock_entry_capacity reg' = named_lock_entry_capacity reg"
      by (simp_all add: reg'_def)
    have k': "unat (hold_count e') = unat (hold_count e) - 1" "unat (hold_count e) \<noteq> 1"
      using k False by (auto simp: e'_def unat_eq_zero)
    have ok': "registry_ok reg'"
      using ok es i e False nth(2) by (auto simp: registry_ok_def reg' e'_def)
    have "lock_holder reg' = (lock_holder reg)(lock_name e' \<mapsto> (owner_connection_id e', unat (hold_count e')))"
      by (rule holder_insert [where E = "{e}", OF registry_okD(1) [OF ok] registry_okD(1) [OF ok']])
        (use es uniq in \<open>simp_all add: reg' e'_def\<close>)
    with ok' k' i own show ?thesis by (simp add: e'_def e_def)
  qed
qed

lemma release_cases:
  assumes ok: "registry_ok reg"
    and r: "mylite_named_lock_release (Some db) reg name = (rc, v, null, db', reg')"
  shows "registry_ok reg' \<and>
    (case name of
       None \<Rightarrow> rc = MYLITE_ERROR \<and> v = 0 \<and> null \<and> reg' = reg
     | Some n \<Rightarrow>
       if n = [] \<or> length n > 64 then rc = MYLITE_ERROR \<and> v = 0 \<and> null \<and> reg' = reg
       else rc = MYLITE_OK \<and> db' = Some db \<and>
        (case lock_holder reg n of
           None \<Rightarrow> v = 0 \<and> null \<and> reg' = reg
         | Some (c, k) \<Rightarrow> \<not> null \<and>
           (if c \<noteq> connection_id db then v = 0 \<and> reg' = reg
            else v = 1 \<and> 0 < k \<and>
              lock_holder reg' = (lock_holder reg)(n := if k = 1 then None else Some (c, k - 1)))))"
proof (cases name)
  case None
  with ok r show ?thesis
    by (auto simp: mylite_named_lock_release_def named_lock_validate_def)
next
  case (Some n)
  show ?thesis
  proof (cases "n = [] \<or> length n > 64")
    case True
    with ok r Some show ?thesis
      by (auto simp: mylite_named_lock_release_def named_lock_validate_def split: if_splits)
  next
    case False
    then have valid: "named_lock_validate (Some db) name = (MYLITE_OK, Some db)"
      by (simp add: named_lock_validate_def Some)
    show ?thesis
    proof (cases "find_named_lock_entry (named_lock_entries reg) n")
      case None
      with valid False r ok Some show ?thesis
        by (auto simp: mylite_named_lock_release_def holder_alt)
    next
      case found: (Some i)
      let ?e = "named_lock_entries reg ! i"
      from find_SomeD [OF found] have i: "i < length (named_lock_entries reg)" "lock_name ?e = n" by auto
      have h: "lock_holder reg n = Some (owner_connection_id ?e, unat (hold_count ?e))"
        using found by (simp add: holder_alt)
      show ?thesis
      proof (cases "owner_connection_id ?e = connection_id db")
        case False
        with \<open>\<not> (n = [] \<or> length n > 64)\<close> valid found r ok h Some show ?thesis
          by (auto simp: mylite_named_lock_release_def Let_def)
      next
        case own: True
        let ?e' = "?e\<lparr>hold_count := hold_count ?e - 1\<rparr>"
        let ?es = "(named_lock_entries reg)[i := ?e']"
        let ?reg = "reg\<lparr>named_lock_entries := if hold_count ?e' = 0
          then remove_named_lock_entry ?es i else ?es\<rparr>"
        have out: "rc = MYLITE_OK" "v = 1" "\<not> null" "db' = Some db" "reg' = ?reg"
          using r valid found own Some by (auto simp: mylite_named_lock_release_def Let_def)
        have pos: "hold_count ?e \<noteq> 0" using registry_okD(2) [OF ok] i by simp
        note k = unat64_pred [OF pos]
        have "registry_ok ?reg \<and> lock_holder ?reg = (lock_holder reg)
          (n := if unat (hold_count ?e) = 1 then None
            else Some (connection_id db, unat (hold_count ?e) - 1))"
          by (rule release_entry [OF ok found own])
        with out h own k False Some show ?thesis by simp
      qed
    qed
  qed
qed

lemma release_loop_registry:
  fixes c :: u64
  assumes ok: "registry_ok reg"
  defines "reg' \<equiv> reg\<lparr>named_lock_entries := release_connection_loop c 0 (named_lock_entries reg)\<rparr>"
  shows "registry_ok reg' \<and> lock_holder reg' n =
    (case lock_holder reg n of None \<Rightarrow> None | Some (c', k) \<Rightarrow> if c' = c then None else Some (c', k))"
proof -
  have l: "distinct (map lock_name (named_lock_entries reg'))"
    "set (named_lock_entries reg') = without c (set (named_lock_entries reg))"
    "length (named_lock_entries reg') \<le> length (named_lock_entries reg)"
    using release_connection_loop_set [OF registry_okD(1) [OF ok], of 0 c] by (auto simp: reg'_def)
  have ok': "registry_ok reg'"
    using ok l by (auto simp: registry_ok_def reg'_def without_def)
  have eq: "lock_holder reg' n = Some (c', k) \<longleftrightarrow> lock_holder reg n = Some (c', k) \<and> c' \<noteq> c" for c' k
    unfolding holder_Some_iff [OF l(1)] holder_Some_iff [OF registry_okD(1) [OF ok]] l(2)
    by (auto simp: without_def)
  let ?r = "case lock_holder reg n of None \<Rightarrow> None | Some (c', k) \<Rightarrow> if c' = c then None else Some (c', k)"
  have "lock_holder reg' n = ?r"
  proof (cases "lock_holder reg n")
    case None
    with eq show ?thesis by (cases "lock_holder reg' n") auto
  next
    case (Some x)
    then obtain c' k where x: "lock_holder reg n = Some (c', k)" by (cases x) auto
    show ?thesis
    proof (cases "c' = c")
      case True
      with eq x have "lock_holder reg' n \<noteq> Some y" for y by (cases y) auto
      with x True show ?thesis by (cases "lock_holder reg' n") auto
    qed (use eq [of c' k] x in simp)
  qed
  with ok' show ?thesis by blast
qed

lemma release_all_registry:
  "mylite_named_lock_release_all (Some db) reg =
     (MYLITE_OK, fst (release_all_loop (connection_id db) 0 0 (named_lock_entries reg)),
      mylite_named_lock_release_all_for_connection (connection_id db) reg)"
  by (simp add: mylite_named_lock_release_all_def mylite_named_lock_release_all_for_connection_def
      release_all_loop_entries case_prod_beta)

section \<open>The registry implements the contract\<close>

text \<open>
  The atomic steps of a connection: one validated attempt of GET_LOCK, with the allocator's
  answers, RELEASE_LOCK, and RELEASE_ALL_LOCKS, which is also what closing a connection does.
\<close>

definition registry_acquire ::
    "allocator \<times> mylite_diagnostics \<Rightarrow> u64 \<Rightarrow> bytes \<Rightarrow> named_lock_registry \<Rightarrow> bool \<times> named_lock_registry" where
  "registry_acquire a c n reg =
     (let db = \<lparr>connection_id = c, diagnostics = snd a\<rparr>
      in if fst (named_lock_validate (Some db) (Some n)) \<noteq> MYLITE_OK then (False, reg)
         else (let (rc, v, db, reg, al) = try_get_named_lock (fst a) db reg n c in (v = 1, reg)))"

definition registry_release ::
    "u64 \<Rightarrow> bytes \<Rightarrow> named_lock_registry \<Rightarrow> bool \<times> named_lock_registry" where
  "registry_release c n reg =
     (let (rc, v, null, db, reg) = mylite_named_lock_release
        (Some \<lparr>connection_id = c, diagnostics = example_area\<rparr>) reg (Some n)
      in (v = 1, reg))"

interpretation registry: lock_service registry_ok lock_holder registry_acquire registry_release
    mylite_named_lock_release_all_for_connection
proof
  fix s and a :: "allocator \<times> mylite_diagnostics" and c n s'
  assume ok: "registry_ok s"
  let ?db = "\<lparr>connection_id = c, diagnostics = snd a\<rparr>"
  obtain rc v db r al where t: "try_get_named_lock (fst a) ?db s n c = (rc, v, db, r, al)"
    by (metis prod_cases5)
  have acq: "registry_acquire a c n s =
      (if n = [] \<or> length n > 64 then (False, s) else (v = 1, r))"
    using t by (auto simp: registry_acquire_def named_lock_validate_def Let_def)
  have cases: "n \<noteq> [] \<Longrightarrow> length n \<le> 64 \<Longrightarrow> registry_ok r \<and>
    (if v = 1 then \<exists>k. lock_holder s n = (if k = 0 then None else Some (c, k)) \<and>
      lock_holder r = (lock_holder s)(n \<mapsto> (c, Suc k)) else r = s)"
    by (drule (1) try_get_cases [OF ok _ _ t]) (elim conjE disjE; simp)
  show "registry_ok s' \<and> (\<exists>k. lock_holder s n = (if k = 0 then None else Some (c, k)) \<and>
      lock_holder s' = (lock_holder s)(n \<mapsto> (c, Suc k)))" if "registry_acquire a c n s = (True, s')"
  proof -
    have "n \<noteq> []" "length n \<le> 64" "v = 1" "s' = r" using that acq by (auto split: if_splits)
    with cases show ?thesis by simp
  qed
  show "registry_ok s' \<and> lock_holder s' = lock_holder s" if "registry_acquire a c n s = (False, s')"
    using that cases ok unfolding acq by (simp split: if_splits)
next
  fix s c n s'
  assume ok: "registry_ok s"
  let ?db = "\<lparr>connection_id = c, diagnostics = example_area\<rparr>"
  obtain rc v null db r where t: "mylite_named_lock_release (Some ?db) s (Some n) =
      (rc, v, null, db, r)" by (metis prod_cases5)
  have rel: "registry_release c n s = (v = 1, r)"
    using t by (simp add: registry_release_def)
  note cases = release_cases [OF ok t]
  show "registry_ok s' \<and> (\<exists>k. lock_holder s n = Some (c, Suc k) \<and>
      lock_holder s' = (lock_holder s)(n := if k = 0 then None else Some (c, k)))"
    if "registry_release c n s = (True, s')"
  proof -
    from that rel have "v = 1" "s' = r" by auto
    with cases obtain k where "0 < k" "lock_holder s n = Some (c, k)" "registry_ok s'"
      "lock_holder s' = (lock_holder s)(n := if k = 1 then None else Some (c, k - 1))"
      by (auto split: if_splits option.splits)
    then show ?thesis by (intro conjI exI [of _ "k - 1"]) auto
  qed
  show "registry_ok s' \<and> lock_holder s' = lock_holder s" if "registry_release c n s = (False, s')"
    using that rel cases by (auto split: if_splits option.splits)
next
  fix s c n
  assume "registry_ok s"
  from release_loop_registry [OF this]
  show "registry_ok (mylite_named_lock_release_all_for_connection c s) \<and>
    lock_holder (mylite_named_lock_release_all_for_connection c s) n =
      (case lock_holder s n of None \<Rightarrow> None | Some (c', k) \<Rightarrow> if c' = c then None else Some (c', k))"
    by (simp add: mylite_named_lock_release_all_for_connection_def)
qed

section \<open>Waiting\<close>

lemma timeout_milliseconds_bounds:
  "0 \<le> timeout \<Longrightarrow> 0 \<le> named_lock_timeout_milliseconds timeout \<and>
    named_lock_timeout_milliseconds timeout \<le> INT32_MAX"
  by (auto simp: named_lock_timeout_milliseconds_def limit_simps)

lemma sleep_progress:
  assumes "0 \<le> timeout" "0 < named_lock_sleep_milliseconds waited timeout"
  shows "waited < named_lock_timeout_milliseconds timeout \<and>
    named_lock_sleep_milliseconds waited timeout \<le> named_lock_timeout_milliseconds timeout - waited"
  using assms by (auto simp: named_lock_sleep_milliseconds_def Let_def split: if_splits)

text \<open>The outcomes of one attempt, in terms of the registry it leaves.\<close>

definition get_result ::
    "lock_connection \<Rightarrow> bytes \<Rightarrow> int \<times> int \<times> lock_connection \<times> named_lock_registry \<times> allocator \<Rightarrow> bool" where
  "get_result db name result = (case result of (rc, value, db', reg, al) \<Rightarrow>
     registry_ok reg \<and>
     (rc = MYLITE_OK \<and> value = 1 \<and> (\<exists>k. lock_holder reg name = Some (connection_id db, Suc k))
      \<or> rc = MYLITE_OK \<and> value = 0 \<and>
        (\<exists>c k. c \<noteq> connection_id db \<and> lock_holder reg name = Some (c, k))
      \<or> rc = MYLITE_NOMEM \<and> value = 0 \<and>
        (lock_holder reg name = None \<or>
         lock_holder reg name = Some (connection_id db, 2 ^ 64 - 1))))"

lemma try_get_result:
  assumes "registry_ok reg" "name \<noteq> []" "length name \<le> 64"
    and "try_get_named_lock al db reg name (connection_id db) = r"
  shows "get_result db name r \<and> connection_id (fst (snd (snd r))) = connection_id db \<and>
    (fst r = MYLITE_OK \<longrightarrow> fst (snd (snd r)) = db)"
proof -
  obtain rc v db' reg' al' where r: "r = (rc, v, db', reg', al')" by (metis prod_cases5)
  from try_get_cases [OF assms(1-3) assms(4) [unfolded r]] show ?thesis
    by (elim conjE disjE exE) (auto simp: r get_result_def)
qed

lemma get_loop_returns:
  assumes "registry_ok reg" "name \<noteq> []" "length name \<le> 64" "0 \<le> timeout" "0 \<le> waited"
    and env: "\<And>i reg sleep. registry_ok reg \<Longrightarrow> registry_ok (snd (env i reg sleep))"
    and "named_lock_timeout_milliseconds timeout - waited < int fuel"
    and "connection_id db = c" "0 < fuel"
  shows "\<exists>r. named_lock_get_loop env fuel i al db reg name timeout waited = Some r \<and>
    get_result db name r"
  using assms
proof (induction fuel arbitrary: i al db reg waited)
  case (Suc fuel)
  obtain rc v db' reg' al' where t: "try_get_named_lock al db reg name (connection_id db) =
      (rc, v, db', reg', al')" by (metis prod_cases5)
  note res = try_get_result [OF Suc.prems(1-3) t]
  let ?sleep = "named_lock_sleep_milliseconds waited timeout"
  show ?case
  proof (cases "rc \<noteq> MYLITE_OK \<or> v \<noteq> 0 \<or> timeout = 0 \<or> ?sleep \<le> 0")
    case True
    with t res show ?thesis by (auto simp: Let_def)
  next
    case False
    obtain slept reg2 where e: "env i reg' ?sleep = (slept, reg2)" by fastforce
    let ?w = "waited + (if slept > 0 then slept else ?sleep)"
    have loop: "named_lock_get_loop env (Suc fuel) i al db reg name timeout waited =
        named_lock_get_loop env fuel (Suc i) al' db' reg2 name timeout ?w"
      using False t e by (simp add: Let_def)
    from sleep_progress [OF Suc.prems(4), of waited] False
    have more: "waited < named_lock_timeout_milliseconds timeout" by auto
    have ok2: "registry_ok reg2"
      using Suc.prems(6) [of reg' i ?sleep] res e by (auto simp: get_result_def)
    have "db' = db" using res False by simp
    have "\<exists>r. named_lock_get_loop env fuel (Suc i) al' db reg2 name timeout ?w = Some r \<and>
      get_result db name r"
      by (rule Suc.IH [OF ok2 Suc.prems(2,3,4)]) (use Suc.prems more False in auto)
    with loop \<open>db' = db\<close> show ?thesis by simp
  qed
qed simp

section \<open>Properties\<close>

definition empty_registry :: named_lock_registry where
  "empty_registry = \<lparr>named_lock_entries = [], named_lock_entry_capacity = 0\<rparr>"

lemma empty_registry_ok [simp]: "registry_ok empty_registry"
  by (simp add: empty_registry_def registry_ok_def)

lemma empty_holder [simp]: "lock_holder empty_registry n = None"
  by (simp add: lock_holder_def empty_registry_def)

text \<open>
  Property C3. Named locks exclude each other and are balanced, over every interleaving of
  acquisition attempts, releases and connection closes, allocation failures included: the
  registry stays well formed, a connection holds a lock exactly as often as it was granted it
  minus its releases, and no two connections hold the same lock.
\<close>
theorem named_locks_mutual_exclusion:
  assumes "foldl (history_step registry_acquire registry_release
      mylite_named_lock_release_all_for_connection) (empty_registry, \<lambda>c n. 0) events = (reg, bal)"
  shows "registry_ok reg \<and>
    (\<forall>c n. bal c n = (case lock_holder reg n of None \<Rightarrow> 0 | Some (c', k) \<Rightarrow> if c' = c then k else 0)) \<and>
    (\<forall>c c' n. 0 < bal c n \<and> 0 < bal c' n \<longrightarrow> c = c')"
proof -
  have "balanced (lock_holder empty_registry) (\<lambda>c n. 0)" by (simp add: balanced_def)
  from registry.history_balanced [OF empty_registry_ok this assms]
  have ok: "registry_ok reg" and bal: "balanced (lock_holder reg) bal" by auto
  have "\<forall>c c' n. 0 < bal c n \<and> 0 < bal c' n \<longrightarrow> c = c'"
    using balanced_exclusive [OF bal] by blast
  with ok bal [unfolded balanced_def] show ?thesis by (intro conjI)
qed

theorem named_locks_mutual_exclusion_witness:
  "\<exists>reg bal. foldl (history_step registry_acquire registry_release
      mylite_named_lock_release_all_for_connection) (empty_registry, \<lambda>c n. 0)
      [Acquire ([], example_area) 1 [97], Acquire ([], example_area) 2 [97],
       Acquire ([], example_area) 1 [97], Release 1 [97]] = (reg, bal) \<and>
    registry_ok reg \<and> bal 1 [97] = 1 \<and> bal 2 [97] = 0"
proof -
  let ?es = "[Acquire ([], example_area) 1 [97], Acquire ([], example_area) 2 [97],
       Acquire ([], example_area) 1 [97], Release 1 [97]]"
  let ?r = "foldl (history_step registry_acquire registry_release
      mylite_named_lock_release_all_for_connection) (empty_registry, \<lambda>c n. 0) ?es"
  have grow: "grow_capacity 8 (Suc 0) = Some 8" by (simp add: grow_capacity.simps)
  define R where "R h = \<lparr>named_lock_entries =
      [\<lparr>lock_name = [97], owner_connection_id = 1, hold_count = h\<rparr>],
    named_lock_entry_capacity = 8\<rparr>" for h
  have "registry_acquire ([], example_area) 1 [97] empty_registry = (True, R 1)"
    by (simp add: registry_acquire_def named_lock_validate_def empty_registry_def
        try_get_named_lock_def append_named_lock_entry_def ensure_named_lock_entry_capacity_def grow
        R_def)
  moreover have "registry_acquire ([], example_area) 2 [97] (R 1) = (False, R 1)"
    "registry_acquire ([], example_area) 1 [97] (R 1) = (True, R 2)"
    by (simp_all add: registry_acquire_def named_lock_validate_def try_get_named_lock_def R_def
        mem_equal_def UINT64_MAX_def)
  moreover have "registry_release 1 [97] (R 2) = (True, R 1)"
    by (simp add: registry_release_def mylite_named_lock_release_def named_lock_validate_def R_def
        mem_equal_def)
  ultimately have "snd ?r 1 [97] = 1 \<and> snd ?r 2 [97] = 0" by simp
  moreover obtain reg bal where "?r = (reg, bal)" by fastforce
  ultimately show ?thesis using named_locks_mutual_exclusion [of ?es reg bal] by auto
qed

text \<open>
  Property C25. GET_LOCK with a timeout of zero or more seconds always returns, whatever other
  connections do to the registry while it sleeps: after at most one attempt per millisecond of
  the timeout, and one more. It returns 1 only when this connection now holds the lock and 0
  only when another connection holds it; the one remaining outcome reports exhausted memory or
  an exhausted hold count.
\<close>
theorem get_lock_returns:
  assumes "registry_ok reg" "name \<noteq> []" "length name \<le> named_lock_name_max_bytes" "0 \<le> timeout"
    and "\<And>i reg sleep. registry_ok reg \<Longrightarrow> registry_ok (snd (env i reg sleep))"
    and "fuel = nat (named_lock_timeout_milliseconds timeout) + 1"
  shows "\<exists>rc value db' reg' al'.
    mylite_named_lock_get env fuel al (Some db) reg (Some name) timeout =
      Some (rc, value, Some db', reg', al') \<and> registry_ok reg' \<and>
    (rc = MYLITE_OK \<and> value = 1 \<and> (\<exists>k. lock_holder reg' name = Some (connection_id db, Suc k))
     \<or> rc = MYLITE_OK \<and> value = 0 \<and>
       (\<exists>c k. c \<noteq> connection_id db \<and> lock_holder reg' name = Some (c, k))
     \<or> rc = MYLITE_NOMEM \<and> value = 0 \<and>
       (lock_holder reg' name = None \<or>
        lock_holder reg' name = Some (connection_id db, 2 ^ 64 - 1)))"
proof -
  have "\<exists>r. named_lock_get_loop env fuel 0 al db reg name timeout 0 = Some r \<and> get_result db name r"
    by (rule get_loop_returns [OF assms(1-4) _ assms(5)])
      (use assms(6) timeout_milliseconds_bounds [OF assms(4)] in auto)
  then obtain r where "named_lock_get_loop env fuel 0 al db reg name timeout 0 = Some r"
    "get_result db name r" by blast
  moreover have "named_lock_validate (Some db) (Some name) = (MYLITE_OK, Some db)"
    using assms(2,3) by (simp add: named_lock_validate_def)
  ultimately show ?thesis
    by (cases r) (auto simp: mylite_named_lock_get_def get_result_def)
qed

theorem get_lock_returns_witness:
  "\<exists>rc value db' reg' al'.
    mylite_named_lock_get (\<lambda>i reg sleep. (0, reg)) 1001 [] (Some \<lparr>connection_id = 7,
      diagnostics = example_area\<rparr>) empty_registry (Some [97]) 1 = Some (rc, value, Some db', reg', al')"
  using get_lock_returns [of empty_registry "[97]" 1 "\<lambda>i reg sleep. (0, reg)" 1001 "[]"
      "\<lparr>connection_id = 7, diagnostics = example_area\<rparr>"]
  by (auto simp: named_lock_timeout_milliseconds_def limit_simps)

text \<open>
  RELEASE_LOCK on every input: it is NULL for a lock nobody holds, 0 for a lock of
  another connection, and 1 for an own lock, which then loses exactly one hold and disappears
  with its last; no other lock changes, and an empty, missing or too long name is an error that
  changes nothing.
\<close>
theorem release_lock_outcome:
  assumes "registry_ok reg"
    and "mylite_named_lock_release (Some db) reg name = (rc, value, is_null, db', reg')"
  shows "registry_ok reg' \<and>
    (case name of
       None \<Rightarrow> rc = MYLITE_ERROR \<and> value = 0 \<and> is_null \<and> reg' = reg
     | Some n \<Rightarrow>
       if n = [] \<or> length n > named_lock_name_max_bytes
       then rc = MYLITE_ERROR \<and> value = 0 \<and> is_null \<and> reg' = reg
       else rc = MYLITE_OK \<and> db' = Some db \<and>
        (case lock_holder reg n of
           None \<Rightarrow> value = 0 \<and> is_null \<and> reg' = reg
         | Some (c, k) \<Rightarrow> \<not> is_null \<and>
           (if c \<noteq> connection_id db then value = 0 \<and> reg' = reg
            else value = 1 \<and> 0 < k \<and>
              lock_holder reg' = (lock_holder reg)(n := if k = 1 then None else Some (c, k - 1)))))"
  using release_cases [OF assms] .

theorem release_lock_outcome_witness:
  "\<exists>db' reg'. mylite_named_lock_release (Some \<lparr>connection_id = 7, diagnostics = example_area\<rparr>)
      empty_registry (Some [97]) = (MYLITE_OK, 0, True, db', reg') \<and> registry_ok reg'"
proof -
  obtain rc v null db' reg' where r: "mylite_named_lock_release (Some \<lparr>connection_id = 7,
      diagnostics = example_area\<rparr>) empty_registry (Some [97]) = (rc, v, null, db', reg')"
    by (metis prod_cases5)
  from release_lock_outcome [OF empty_registry_ok r] r show ?thesis by simp
qed

text \<open>
  RELEASE_ALL_LOCKS drops exactly the locks of its connection, leaves every other
  lock as it is, and returns the number of holds it dropped, saturated at the largest 64-bit
  value instead of wrapping around.
\<close>
theorem release_all_locks_outcome:
  assumes "registry_ok reg"
    and "mylite_named_lock_release_all (Some db) reg = (rc, released, reg')"
  shows "rc = MYLITE_OK \<and> registry_ok reg' \<and>
    (\<forall>n. lock_holder reg' n = (case lock_holder reg n of
       None \<Rightarrow> None
     | Some (c, k) \<Rightarrow> if c = connection_id db then None else Some (c, k))) \<and>
    unat released = min (held_by (connection_id db) (named_lock_entries reg)) (2 ^ 64 - 1)"
  using assms(2) registry.release_all_effect [OF assms(1), of "connection_id db"]
    release_all_loop_count [of 0 "named_lock_entries reg" "connection_id db" 0]
  by (auto simp: release_all_registry)

definition example_registry :: named_lock_registry where
  "example_registry =
     \<lparr>named_lock_entries =
        [\<lparr>lock_name = [97], owner_connection_id = 1, hold_count = -1\<rparr>,
         \<lparr>lock_name = [98], owner_connection_id = 2, hold_count = 1\<rparr>,
         \<lparr>lock_name = [99], owner_connection_id = 1, hold_count = 5\<rparr>],
      named_lock_entry_capacity = 8\<rparr>"

lemma example_registry_ok: "registry_ok example_registry"
  by (simp add: example_registry_def registry_ok_def limit_simps)

theorem release_all_locks_outcome_witness:
  "\<exists>released reg'. mylite_named_lock_release_all (Some \<lparr>connection_id = 1, diagnostics = example_area\<rparr>)
      example_registry = (MYLITE_OK, released, reg') \<and> unat released = 2 ^ 64 - 1 \<and>
    lock_holder reg' [97] = None"
proof -
  obtain rc rel reg' where r: "mylite_named_lock_release_all (Some \<lparr>connection_id = 1,
      diagnostics = example_area\<rparr>) example_registry = (rc, rel, reg')" by (metis prod_cases3)
  from release_all_locks_outcome [OF example_registry_ok r] r show ?thesis
    by (auto simp: example_registry_def held_by_def lock_holder_def unsigned_minus_1_eq_mask
        mask_eq_exp_minus_1)
qed

end
