(* ===== verification/Registration.thy ===== *)
theory Registration
  imports MyLite_Prelude
begin

text \<open>
  Registering SQL functions and collations with SQLite, \<^verbatim>\<open>runtime/mylite_sqlite_registration.c\<close>
  (the build without profiling). A whole table is validated before the first entry is handed
  to SQLite. The callbacks are opaque values \<open>'cb\<close>, NULL being \<open>None\<close>; SQLite's three
  create calls are a parameter.
\<close>

section \<open>Data\<close>

abbreviation (input) SQLITE_UTF8 :: "32 word" where "SQLITE_UTF8 \<equiv> 1"
abbreviation (input) SQLITE_UTF16LE :: "32 word" where "SQLITE_UTF16LE \<equiv> 2"
abbreviation (input) SQLITE_UTF16BE :: "32 word" where "SQLITE_UTF16BE \<equiv> 3"
abbreviation (input) SQLITE_UTF16 :: "32 word" where "SQLITE_UTF16 \<equiv> 4"
abbreviation (input) SQLITE_UTF16_ALIGNED :: "32 word" where "SQLITE_UTF16_ALIGNED \<equiv> 8"
abbreviation (input) SQLITE_DETERMINISTIC :: "32 word" where "SQLITE_DETERMINISTIC \<equiv> 0x800"
abbreviation (input) SQLITE_DIRECTONLY :: "32 word" where "SQLITE_DIRECTONLY \<equiv> 0x80000"
abbreviation (input) SQLITE_SUBTYPE :: "32 word" where "SQLITE_SUBTYPE \<equiv> 0x100000"
abbreviation (input) SQLITE_INNOCUOUS :: "32 word" where "SQLITE_INNOCUOUS \<equiv> 0x200000"
abbreviation (input) SQLITE_RESULT_SUBTYPE :: "32 word" where "SQLITE_RESULT_SUBTYPE \<equiv> 0x1000000"
abbreviation (input) SQLITE_SELFORDER1 :: "32 word" where "SQLITE_SELFORDER1 \<equiv> 0x2000000"

datatype sqlite_function_kind =
    MYLITE_SQLITE_FUNCTION_SCALAR
  | MYLITE_SQLITE_FUNCTION_AGGREGATE
  | MYLITE_SQLITE_FUNCTION_WINDOW

record 'cb function_registration =
  kind :: sqlite_function_kind
  fname :: "string option"
  argument_count :: int
  text_representation :: "32 word"
  application_data :: "'cb option"
  scalar_callback :: "'cb option"
  step_callback :: "'cb option"
  final_callback :: "'cb option"
  value_callback :: "'cb option"
  inverse_callback :: "'cb option"
  destroy_callback :: "'cb option"

record 'cb collation_registration =
  cname :: "string option"
  collation_representation :: "32 word"
  collation_data :: "'cb option"
  compare_callback :: "'cb option"
  collation_destroy :: "'cb option"

text \<open>The calls of SQLite, with all their arguments.\<close>

datatype 'cb sqlite_call =
    CreateFunction "string option" int "32 word" "'cb option" "'cb option" "'cb option" "'cb option"
      "'cb option"
  | CreateWindowFunction "string option" int "32 word" "'cb option" "'cb option" "'cb option"
      "'cb option" "'cb option" "'cb option"
  | CreateCollation "string option" "32 word" "'cb option" "'cb option" "'cb option"

type_synonym ('w, 'cb) sqlite_create = "'w \<Rightarrow> 'cb sqlite_call \<Rightarrow> int \<times> 'w"

definition mylite_sqlite_status_to_mylite :: "int \<Rightarrow> int" where
  "mylite_sqlite_status_to_mylite sqlite_status =
     (if sqlite_status = SQLITE_OK then MYLITE_OK
      else if sqlite_status = SQLITE_NOMEM then MYLITE_NOMEM
      else if sqlite_status = SQLITE_MISUSE then MYLITE_MISUSE
      else MYLITE_ERROR)"

section \<open>Validation\<close>

definition registration_name_is_valid :: "string option \<Rightarrow> bool" where
  "registration_name_is_valid name = (case name of None \<Rightarrow> False | Some n \<Rightarrow> n \<noteq> [])"

definition argument_count_is_valid :: "int \<Rightarrow> bool" where
  "argument_count_is_valid n \<longleftrightarrow> n \<ge> -1"

definition text_representation_is_valid :: "32 word \<Rightarrow> bool" where
  "text_representation_is_valid r \<longleftrightarrow>
     r = SQLITE_UTF8 \<or> r = SQLITE_UTF16LE \<or> r = SQLITE_UTF16BE \<or> r = SQLITE_UTF16"

definition function_text_representation_is_valid :: "32 word \<Rightarrow> bool" where
  "function_text_representation_is_valid r =
     (let allowed_flags = SQLITE_DETERMINISTIC OR SQLITE_DIRECTONLY OR SQLITE_SUBTYPE OR
            SQLITE_INNOCUOUS OR SQLITE_RESULT_SUBTYPE OR SQLITE_SELFORDER1;
          base = r AND 0xff;
          flags = r AND NOT 0xff
      in if \<not> text_representation_is_valid base then False
         else flags AND NOT allowed_flags = 0)"

definition collation_text_representation_is_valid :: "32 word \<Rightarrow> bool" where
  "collation_text_representation_is_valid r =
     (if r = SQLITE_UTF16_ALIGNED then True else text_representation_is_valid r)"

definition scalar_function_registration_is_valid :: "'cb function_registration \<Rightarrow> bool" where
  "scalar_function_registration_is_valid r \<longleftrightarrow>
     \<not> (scalar_callback r = None \<or> step_callback r \<noteq> None \<or> final_callback r \<noteq> None \<or>
        value_callback r \<noteq> None \<or> inverse_callback r \<noteq> None)"

definition aggregate_function_registration_is_valid :: "'cb function_registration \<Rightarrow> bool" where
  "aggregate_function_registration_is_valid r \<longleftrightarrow>
     \<not> (scalar_callback r \<noteq> None \<or> step_callback r = None \<or> final_callback r = None \<or>
        value_callback r \<noteq> None \<or> inverse_callback r \<noteq> None)"

definition window_function_registration_is_valid :: "'cb function_registration \<Rightarrow> bool" where
  "window_function_registration_is_valid r \<longleftrightarrow>
     \<not> (scalar_callback r \<noteq> None \<or> step_callback r = None \<or> final_callback r = None \<or>
        value_callback r = None \<or> inverse_callback r = None)"

definition function_registration_is_valid :: "'cb function_registration \<Rightarrow> bool" where
  "function_registration_is_valid r =
     (if \<not> registration_name_is_valid (fname r) \<or> \<not> argument_count_is_valid (argument_count r) \<or>
         \<not> function_text_representation_is_valid (text_representation r) then False
      else (case kind r of
              MYLITE_SQLITE_FUNCTION_SCALAR \<Rightarrow> scalar_function_registration_is_valid r
            | MYLITE_SQLITE_FUNCTION_AGGREGATE \<Rightarrow> aggregate_function_registration_is_valid r
            | MYLITE_SQLITE_FUNCTION_WINDOW \<Rightarrow> window_function_registration_is_valid r))"

fun function_registrations_are_valid :: "'cb function_registration list \<Rightarrow> bool" where
  "function_registrations_are_valid [] = True"
| "function_registrations_are_valid (r # rs) =
     (if \<not> function_registration_is_valid r then False else function_registrations_are_valid rs)"

definition collation_registration_is_valid :: "'cb collation_registration \<Rightarrow> bool" where
  "collation_registration_is_valid r \<longleftrightarrow>
     \<not> (\<not> registration_name_is_valid (cname r) \<or>
        \<not> collation_text_representation_is_valid (collation_representation r) \<or>
        compare_callback r = None)"

fun collation_registrations_are_valid :: "'cb collation_registration list \<Rightarrow> bool" where
  "collation_registrations_are_valid [] = True"
| "collation_registrations_are_valid (r # rs) =
     (if \<not> collation_registration_is_valid r then False else collation_registrations_are_valid rs)"

section \<open>Registration\<close>

definition register_scalar_function ::
    "('w, 'cb) sqlite_create \<Rightarrow> 'w \<Rightarrow> 'cb function_registration \<Rightarrow> int \<times> 'w" where
  "register_scalar_function create w r =
     (let (rc, w) = create w (CreateFunction (fname r) (argument_count r) (text_representation r)
            (application_data r) (scalar_callback r) None None (destroy_callback r))
      in (mylite_sqlite_status_to_mylite rc, w))"

definition register_aggregate_function ::
    "('w, 'cb) sqlite_create \<Rightarrow> 'w \<Rightarrow> 'cb function_registration \<Rightarrow> int \<times> 'w" where
  "register_aggregate_function create w r =
     (let (rc, w) = create w (CreateFunction (fname r) (argument_count r) (text_representation r)
            (application_data r) None (step_callback r) (final_callback r) (destroy_callback r))
      in (mylite_sqlite_status_to_mylite rc, w))"

definition register_window_function ::
    "('w, 'cb) sqlite_create \<Rightarrow> 'w \<Rightarrow> 'cb function_registration \<Rightarrow> int \<times> 'w" where
  "register_window_function create w r =
     (let (rc, w) = create w (CreateWindowFunction (fname r) (argument_count r)
            (text_representation r) (application_data r) (step_callback r) (final_callback r)
            (value_callback r) (inverse_callback r) (destroy_callback r))
      in (mylite_sqlite_status_to_mylite rc, w))"

definition register_function ::
    "('w, 'cb) sqlite_create \<Rightarrow> 'w \<Rightarrow> 'cb function_registration \<Rightarrow> int \<times> 'w" where
  "register_function create w r =
     (if \<not> function_registration_is_valid r then (MYLITE_MISUSE, w)
      else (case kind r of
              MYLITE_SQLITE_FUNCTION_SCALAR \<Rightarrow> register_scalar_function create w r
            | MYLITE_SQLITE_FUNCTION_AGGREGATE \<Rightarrow> register_aggregate_function create w r
            | MYLITE_SQLITE_FUNCTION_WINDOW \<Rightarrow> register_window_function create w r))"

definition register_collation ::
    "('w, 'cb) sqlite_create \<Rightarrow> 'w \<Rightarrow> 'cb collation_registration \<Rightarrow> int \<times> 'w" where
  "register_collation create w r =
     (if \<not> collation_registration_is_valid r then (MYLITE_MISUSE, w)
      else (let (rc, w) = create w (CreateCollation (cname r) (collation_representation r)
                  (collation_data r) (compare_callback r) (collation_destroy r))
            in (mylite_sqlite_status_to_mylite rc, w)))"

text \<open>The loop of both: stop at the first failure.\<close>

fun register_each :: "('w \<Rightarrow> 'r \<Rightarrow> int \<times> 'w) \<Rightarrow> 'w \<Rightarrow> 'r list \<Rightarrow> int \<times> 'w" where
  "register_each register w [] = (MYLITE_OK, w)"
| "register_each register w (r # rs) =
     (let (rc, w) = register w r
      in if rc \<noteq> MYLITE_OK then (rc, w) else register_each register w rs)"

text \<open>\<open>sqlite\<close> says that the connection is not NULL; a NULL table is \<open>None\<close>.\<close>

definition mylite_sqlite_register_functions ::
    "('w, 'cb) sqlite_create \<Rightarrow> bool \<Rightarrow> 'w \<Rightarrow> 'cb function_registration list option \<Rightarrow> nat \<Rightarrow>
     int \<times> 'w" where
  "mylite_sqlite_register_functions create sqlite w registrations registration_count =
     (if \<not> sqlite \<or> registrations = None \<and> registration_count \<noteq> 0 then (MYLITE_MISUSE, w)
      else (let rs = (case registrations of None \<Rightarrow> [] | Some rs \<Rightarrow> take registration_count rs)
            in if \<not> function_registrations_are_valid rs then (MYLITE_MISUSE, w)
               else register_each (register_function create) w rs))"

definition mylite_sqlite_register_collations ::
    "('w, 'cb) sqlite_create \<Rightarrow> bool \<Rightarrow> 'w \<Rightarrow> 'cb collation_registration list option \<Rightarrow> nat \<Rightarrow>
     int \<times> 'w" where
  "mylite_sqlite_register_collations create sqlite w registrations registration_count =
     (if \<not> sqlite \<or> registrations = None \<and> registration_count \<noteq> 0 then (MYLITE_MISUSE, w)
      else (let rs = (case registrations of None \<Rightarrow> [] | Some rs \<Rightarrow> take registration_count rs)
            in if \<not> collation_registrations_are_valid rs then (MYLITE_MISUSE, w)
               else register_each (register_collation create) w rs))"

section \<open>Lemmas\<close>

lemma function_registrations_valid_iff:
  "function_registrations_are_valid rs \<longleftrightarrow> list_all function_registration_is_valid rs"
  by (induction rs) auto

lemma register_function_misuse:
  "register_function create w r = (rc, w') \<Longrightarrow> \<not> function_registration_is_valid r \<Longrightarrow> w' = w"
  by (simp add: register_function_def)

text \<open>The call that a valid registration amounts to.\<close>

definition call_of :: "'cb function_registration \<Rightarrow> 'cb sqlite_call" where
  "call_of r = (case kind r of
     MYLITE_SQLITE_FUNCTION_WINDOW \<Rightarrow>
       CreateWindowFunction (fname r) (argument_count r) (text_representation r)
         (application_data r) (step_callback r) (final_callback r) (value_callback r)
         (inverse_callback r) (destroy_callback r)
   | _ \<Rightarrow>
       CreateFunction (fname r) (argument_count r) (text_representation r) (application_data r)
         (scalar_callback r) (step_callback r) (final_callback r) (destroy_callback r))"

lemma register_function_call:
  "function_registration_is_valid r \<Longrightarrow>
    register_function create w r =
      (mylite_sqlite_status_to_mylite (fst (create w (call_of r))), snd (create w (call_of r)))"
  by (cases "kind r")
    (auto simp: register_function_def function_registration_is_valid_def call_of_def
      register_scalar_function_def register_aggregate_function_def register_window_function_def
      scalar_function_registration_is_valid_def aggregate_function_registration_is_valid_def
      case_prod_beta split: if_splits)

text \<open>A recording SQLite: it logs the calls it gets and fails from a given call on.\<close>

definition recorder :: "(nat \<Rightarrow> int) \<Rightarrow> ('cb sqlite_call list, 'cb) sqlite_create" where
  "recorder answer log call = (answer (length log), log @ [call])"

lemma register_each_log:
  assumes "list_all function_registration_is_valid rs"
    and "register_each (register_function (recorder answer)) log rs = (rc, log')"
  shows "\<exists>n \<le> length rs. log' = log @ map call_of (take n rs) \<and>
    (\<forall>i. i + 1 < n \<longrightarrow> answer (length log + i) = SQLITE_OK) \<and>
    (if rc = MYLITE_OK then n = length rs \<and> (n = 0 \<or> answer (length log + n - 1) = SQLITE_OK)
     else 0 < n \<and> answer (length log + n - 1) \<noteq> SQLITE_OK)"
  using assms
proof (induction rs arbitrary: log)
  case (Cons r rs)
  let ?a = "answer (length log)"
  have st: "mylite_sqlite_status_to_mylite ?a = MYLITE_OK \<longleftrightarrow> ?a = SQLITE_OK"
    by (simp add: mylite_sqlite_status_to_mylite_def)
  from Cons.prems(1) have r: "function_registration_is_valid r" and rs: "list_all function_registration_is_valid rs"
    by auto
  have step: "register_function (recorder answer) log r =
      (mylite_sqlite_status_to_mylite ?a, log @ [call_of r])"
    by (simp add: register_function_call [OF r] recorder_def)
  show ?case
  proof (cases "?a = SQLITE_OK")
    case False
    with Cons.prems(2) step st show ?thesis
      by (intro exI [of _ 1]) auto
  next
    case True
    with Cons.prems(2) step st
    have rest: "register_each (register_function (recorder answer)) (log @ [call_of r]) rs = (rc, log')"
      by simp
    from Cons.IH [OF rs rest] obtain n where n: "n \<le> length rs"
      "log' = (log @ [call_of r]) @ map call_of (take n rs)"
      "\<forall>i. i + 1 < n \<longrightarrow> answer (length (log @ [call_of r]) + i) = SQLITE_OK"
      "if rc = MYLITE_OK
       then n = length rs \<and> (n = 0 \<or> answer (length (log @ [call_of r]) + n - 1) = SQLITE_OK)
       else 0 < n \<and> answer (length (log @ [call_of r]) + n - 1) \<noteq> SQLITE_OK"
      by blast
    have "answer (length log + i) = SQLITE_OK" if "i + 1 < Suc n" for i
      using that True n(3) by (cases i) auto
    with n True show ?thesis by (intro exI [of _ "Suc n"]) (auto split: if_splits)
  qed
qed simp

section \<open>Properties\<close>

text \<open>
  Registering a table of functions is validated as a whole: with any invalid entry
  the result is a misuse and SQLite is not called at all; with a valid table SQLite receives the
  entries in order, each with exactly its own arguments and callbacks, up to the first one it
  refuses, and the result is success only when it accepted all of them.
\<close>
theorem register_functions_outcome:
  assumes "mylite_sqlite_register_functions (recorder answer) True [] (Some rs) (length rs) = (rc, log)"
  shows "if list_all function_registration_is_valid rs
    then \<exists>n \<le> length rs. log = map call_of (take n rs) \<and>
      (\<forall>i. i + 1 < n \<longrightarrow> answer i = SQLITE_OK) \<and>
      (if rc = MYLITE_OK then n = length rs \<and> (n = 0 \<or> answer (n - 1) = SQLITE_OK)
       else 0 < n \<and> answer (n - 1) \<noteq> SQLITE_OK)
    else rc = MYLITE_MISUSE \<and> log = []"
proof (cases "list_all function_registration_is_valid rs")
  case True
  with assms have "register_each (register_function (recorder answer)) [] rs = (rc, log)"
    by (simp add: mylite_sqlite_register_functions_def function_registrations_valid_iff)
  from register_each_log [OF True this] True show ?thesis by auto
next
  case False
  with assms show ?thesis
    by (auto simp: mylite_sqlite_register_functions_def function_registrations_valid_iff)
qed

definition example_scalar :: "string \<Rightarrow> nat function_registration" where
  "example_scalar name =
     \<lparr>kind = MYLITE_SQLITE_FUNCTION_SCALAR, fname = Some name, argument_count = 1,
      text_representation = SQLITE_UTF8 OR SQLITE_DIRECTONLY, application_data = None,
      scalar_callback = Some 0, step_callback = None, final_callback = None,
      value_callback = None, inverse_callback = None, destroy_callback = None\<rparr>"

theorem register_functions_outcome_witness:
  "mylite_sqlite_register_functions (recorder (\<lambda>i. SQLITE_OK)) True []
     (Some [example_scalar ''f'', example_scalar []]) 2 = (MYLITE_MISUSE, [])"
proof -
  obtain rc log where r: "mylite_sqlite_register_functions (recorder (\<lambda>i. SQLITE_OK)) True []
     (Some [example_scalar ''f'', example_scalar []])
     (length [example_scalar ''f'', example_scalar []]) = (rc, log)" by fastforce
  from register_functions_outcome [OF r] r show ?thesis
    by (simp add: function_registration_is_valid_def example_scalar_def
        registration_name_is_valid_def numeral_2_eq_2)
qed

end
