(* ===== verification/Sqlite_Values.thy ===== *)
theory Sqlite_Values
  imports Registration
begin

text \<open>
  What passes between SQLite and a callback of an SQL function, shared by the theories on such
  functions: argument values, results, the decimal notation of integers, and the entry of a
  registration table for a scalar function.
\<close>

section \<open>Values and results\<close>

text \<open>
  An argument: whether it is SQL NULL, its text and byte count (no text when SQLite runs out of
  memory converting it), and its value as a 64-bit integer.
\<close>

record sqlite_value =
  value_null :: bool
  value_text :: "bytes option"
  value_bytes :: int
  value_int64 :: int

datatype sqlite_result =
    ResultInt64 int
  | ResultNull
  | ResultText string
  | ResultError string
  | ResultNomem

text \<open>Decimal notation, as \<^verbatim>\<open>printf\<close> writes it for \<^verbatim>\<open>PRIu64\<close> and \<^verbatim>\<open>PRId64\<close>.\<close>

fun decimal :: "nat \<Rightarrow> string" where
  "decimal n = (if n < 10 then [char_of (48 + n)] else decimal (n div 10) @ [char_of (48 + n mod 10)])"

declare decimal.simps [simp del]

definition decimal_int :: "int \<Rightarrow> string" where
  "decimal_int n = (if n < 0 then ''-'' @ decimal (nat (- n)) else decimal (nat n))"

section \<open>Registration entries\<close>

definition scalar_registration ::
    "string \<Rightarrow> int \<Rightarrow> 32 word \<Rightarrow> 'cb \<Rightarrow> 'cb function_registration" where
  "scalar_registration name argc flags callback =
     \<lparr>kind = MYLITE_SQLITE_FUNCTION_SCALAR, fname = Some name, argument_count = argc,
      text_representation = flags, application_data = None, scalar_callback = Some callback,
      step_callback = None, final_callback = None, value_callback = None,
      inverse_callback = None, destroy_callback = None\<rparr>"

section \<open>Decimal notation\<close>

definition digit_value :: "char \<Rightarrow> nat" where
  "digit_value c = of_char c - 48"

definition decimal_value :: "string \<Rightarrow> nat" where
  "decimal_value s = foldl (\<lambda>v c. 10 * v + digit_value c) 0 s"

lemma digit_value_char: "n < 10 \<Longrightarrow> digit_value (char_of (48 + n)) = n"
  by (simp add: digit_value_def)

lemma decimal_value_decimal: "decimal_value (decimal n) = n"
proof (induction n rule: decimal.induct)
  case (1 n)
  show ?case
  proof (cases "n < 10")
    case True
    then show ?thesis by (subst decimal.simps) (simp add: decimal_value_def digit_value_char)
  next
    case False
    have "decimal_value (decimal n) = 10 * decimal_value (decimal (n div 10)) + n mod 10"
      using False by (subst decimal.simps) (simp add: decimal_value_def digit_value_char)
    also have "\<dots> = n" using 1 False by simp
    finally show ?thesis .
  qed
qed

lemma decimal_length: "0 < k \<Longrightarrow> n < 10 ^ k \<Longrightarrow> length (decimal n) \<le> k"
proof (induction n arbitrary: k rule: decimal.induct)
  case (1 n)
  show ?case
  proof (cases "n < 10")
    case True
    with "1.prems" show ?thesis by (subst decimal.simps) simp
  next
    case False
    with "1.prems" obtain j where k: "k = Suc j" "0 < j" by (cases k; cases "k - 1") auto
    have "n div 10 < 10 ^ j" using "1.prems" k by (simp add: less_mult_imp_div_less mult.commute)
    with "1.IH" [OF False, of j] k False show ?thesis by (subst decimal.simps) simp
  qed
qed

end
