(* ===== verification/Lock_Functions.thy ===== *)
theory Lock_Functions
  imports Lock_Service Sqlite_Values
begin

text \<open>
  The SQL functions over the named locks: the callbacks of \<^verbatim>\<open>runtime/mylite_named_locks.c\<close>
  that SQLite calls, and the table that registers them. SQLite passes a non-NULL context and
  an array of values; the value a callback leaves in the context is its result.
\<close>

section \<open>Arguments and results\<close>

definition result_uint64 :: "u64 \<Rightarrow> sqlite_result" where
  "result_uint64 value =
     (if int (unat value) \<le> INT64_MAX then ResultInt64 (int (unat value))
      else (let text = decimal (unat value)
            in if length text \<ge> named_lock_uint64_text_capacity
               then ResultError ''failed to format MyLite unsigned integer''
               else ResultText text))"

definition sqlite_named_lock_argument :: "sqlite_value \<Rightarrow> int \<times> bytes option" where
  "sqlite_named_lock_argument v =
     (if value_null v then (MYLITE_OK, None)
      else (case value_text v of
              None \<Rightarrow> (MYLITE_NOMEM, None)
            | Some text \<Rightarrow>
              if value_bytes v < 0 then (MYLITE_NOMEM, None)
              else (MYLITE_OK, Some (take (nat (value_bytes v)) text))))"

definition sqlite_named_lock_error :: "int \<Rightarrow> lock_connection option \<Rightarrow> sqlite_result" where
  "sqlite_named_lock_error rc database =
     (let message = (case database of
            None \<Rightarrow> ''MyLite named-lock function failed''
          | Some db \<Rightarrow> mylite_diagnostics_errmsg (Some (diagnostics db)))
      in if rc = MYLITE_NOMEM then ResultNomem else ResultError message)"

section \<open>The callbacks\<close>

definition get_lock_sqlite_callback ::
    "(nat \<Rightarrow> lock_environment) \<Rightarrow> nat \<Rightarrow> allocator \<Rightarrow> lock_connection option \<Rightarrow> named_lock_registry \<Rightarrow>
     sqlite_value list \<Rightarrow> (sqlite_result \<times> lock_connection option \<times> named_lock_registry) option" where
  "get_lock_sqlite_callback env fuel al database reg argv =
     (case argv of
        [v0, v1] \<Rightarrow>
          (let (rc, name) = sqlite_named_lock_argument v0
           in if rc \<noteq> MYLITE_OK then Some (sqlite_named_lock_error rc database, database, reg)
              else map_option (\<lambda>(rc, value, database, reg, al).
                (if rc \<noteq> MYLITE_OK then sqlite_named_lock_error rc database else ResultInt64 value,
                 database, reg))
                (mylite_named_lock_get env fuel al database reg name
                  (if value_null v1 then 0 else value_int64 v1)))
      | _ \<Rightarrow> Some (ResultError ''invalid MyLite GET_LOCK callback'', database, reg))"

definition is_free_lock_sqlite_callback ::
    "lock_connection option \<Rightarrow> named_lock_registry \<Rightarrow> sqlite_value list \<Rightarrow>
     sqlite_result \<times> lock_connection option" where
  "is_free_lock_sqlite_callback database reg argv =
     (case argv of
        [v0] \<Rightarrow>
          (let (rc, name) = sqlite_named_lock_argument v0
           in if rc \<noteq> MYLITE_OK then (sqlite_named_lock_error rc database, database)
              else (let (rc, value, database) = mylite_named_lock_is_free database reg name
                    in (if rc \<noteq> MYLITE_OK then sqlite_named_lock_error rc database
                        else ResultInt64 value, database)))
      | _ \<Rightarrow> (ResultError ''invalid MyLite IS_FREE_LOCK callback'', database))"

definition is_used_lock_sqlite_callback ::
    "lock_connection option \<Rightarrow> named_lock_registry \<Rightarrow> sqlite_value list \<Rightarrow>
     sqlite_result \<times> lock_connection option" where
  "is_used_lock_sqlite_callback database reg argv =
     (case argv of
        [v0] \<Rightarrow>
          (let (rc, name) = sqlite_named_lock_argument v0
           in if rc \<noteq> MYLITE_OK then (sqlite_named_lock_error rc database, database)
              else (let (rc, cid, is_null, database) = mylite_named_lock_is_used database reg name
                    in (if rc \<noteq> MYLITE_OK then sqlite_named_lock_error rc database
                        else if is_null then ResultNull else result_uint64 cid, database)))
      | _ \<Rightarrow> (ResultError ''invalid MyLite IS_USED_LOCK callback'', database))"

definition release_lock_sqlite_callback ::
    "lock_connection option \<Rightarrow> named_lock_registry \<Rightarrow> sqlite_value list \<Rightarrow>
     sqlite_result \<times> lock_connection option \<times> named_lock_registry" where
  "release_lock_sqlite_callback database reg argv =
     (case argv of
        [v0] \<Rightarrow>
          (let (rc, name) = sqlite_named_lock_argument v0
           in if rc \<noteq> MYLITE_OK then (sqlite_named_lock_error rc database, database, reg)
              else (let (rc, value, is_null, database, reg) =
                          mylite_named_lock_release database reg name
                    in (if rc \<noteq> MYLITE_OK then sqlite_named_lock_error rc database
                        else if is_null then ResultNull else ResultInt64 value, database, reg)))
      | _ \<Rightarrow> (ResultError ''invalid MyLite RELEASE_LOCK callback'', database, reg))"

definition release_all_locks_sqlite_callback ::
    "lock_connection option \<Rightarrow> named_lock_registry \<Rightarrow> sqlite_value list \<Rightarrow>
     sqlite_result \<times> named_lock_registry" where
  "release_all_locks_sqlite_callback database reg argv =
     (case argv of
        [] \<Rightarrow>
          (let (rc, released, reg) = mylite_named_lock_release_all database reg
           in (if rc \<noteq> MYLITE_OK then sqlite_named_lock_error rc database
               else result_uint64 released, reg))
      | _ \<Rightarrow> (ResultError ''invalid MyLite RELEASE_ALL_LOCKS callback'', reg))"

definition icu_version_sqlite_callback :: "sqlite_value list \<Rightarrow> sqlite_result" where
  "icu_version_sqlite_callback argv =
     (if argv \<noteq> [] then ResultError ''invalid MyLite ICU_VERSION callback'' else ResultText ''77.1'')"

definition append_benchmark_negative_warning ::
    "allocator \<Rightarrow> lock_connection option \<Rightarrow> int \<Rightarrow> int \<times> lock_connection option" where
  "append_benchmark_negative_warning al database benchmark_count =
     (case database of None \<Rightarrow> (MYLITE_MISUSE, None) | Some db \<Rightarrow>
      (let text = ''Incorrect count value: '' @ [CHR 0x27] @ decimal_int benchmark_count @
             [CHR 0x27] @ '' for function benchmark''
       in if length text \<ge> MYLITE_DIAGNOSTIC_MESSAGE_CAPACITY
          then (MYLITE_NOMEM,
                Some (report db MYLITE_NOMEM ''HY001'' ''failed to format BENCHMARK() warning''))
          else (let (rc, d, al) = mylite_diagnostics_append_warning al (Some (diagnostics db))
                      mysql_warning_incorrect_count (Some ''HY000'') (Some text)
                in (rc, Some (db\<lparr>diagnostics := the d\<rparr>)))))"

definition benchmark_sqlite_callback ::
    "allocator \<Rightarrow> lock_connection option \<Rightarrow> sqlite_value list \<Rightarrow>
     sqlite_result \<times> lock_connection option" where
  "benchmark_sqlite_callback al database argv =
     (case argv of
        [v0, v1] \<Rightarrow>
          if value_null v0 then (ResultNull, database)
          else if value_int64 v0 < 0
          then (let (rc, database) = append_benchmark_negative_warning al database (value_int64 v0)
                in (if rc \<noteq> MYLITE_OK then sqlite_named_lock_error rc database else ResultNull,
                    database))
          else (ResultInt64 0, database)
      | _ \<Rightarrow> (ResultError ''invalid MyLite BENCHMARK callback'', database))"

section \<open>Registration\<close>

datatype lock_callback =
    GetLock
  | IsFreeLock
  | IsUsedLock
  | ReleaseLock
  | ReleaseAllLocks
  | IcuVersion
  | Benchmark

definition named_lock_registrations :: "lock_callback function_registration list" where
  "named_lock_registrations =
     [scalar_registration ''_mylite_get_lock'' 2 (SQLITE_UTF8 OR SQLITE_DIRECTONLY) GetLock,
      scalar_registration ''_mylite_is_free_lock'' 1 (SQLITE_UTF8 OR SQLITE_DIRECTONLY) IsFreeLock,
      scalar_registration ''_mylite_is_used_lock'' 1 (SQLITE_UTF8 OR SQLITE_DIRECTONLY) IsUsedLock,
      scalar_registration ''_mylite_release_lock'' 1 (SQLITE_UTF8 OR SQLITE_DIRECTONLY) ReleaseLock,
      scalar_registration ''_mylite_release_all_locks'' 0 (SQLITE_UTF8 OR SQLITE_DIRECTONLY)
        ReleaseAllLocks,
      scalar_registration ''_mylite_icu_version'' 0
        (SQLITE_UTF8 OR SQLITE_DIRECTONLY OR SQLITE_DETERMINISTIC) IcuVersion,
      scalar_registration ''_mylite_benchmark'' 2 (SQLITE_UTF8 OR SQLITE_DIRECTONLY) Benchmark]"

definition mylite_sqlite_register_named_lock_functions ::
    "('w, lock_callback) sqlite_create \<Rightarrow> bool \<Rightarrow> 'w \<Rightarrow> int \<times> 'w" where
  "mylite_sqlite_register_named_lock_functions create sqlite w =
     mylite_sqlite_register_functions create sqlite w (Some named_lock_registrations)
       (length named_lock_registrations)"

section \<open>Lemmas\<close>

lemma decimal_u64_length: "length (decimal (unat (w :: u64))) \<le> 20"
  by (rule decimal_length) (use unat64_less [of w] in \<open>auto intro: less_trans\<close>)

section \<open>Properties\<close>

text \<open>
  An unsigned 64-bit result reaches SQL unchanged: as an integer when it fits the
  signed 64-bit range, and otherwise as its decimal text; the formatting error is unreachable.
\<close>
theorem result_uint64_exact:
  "if int (unat w) \<le> INT64_MAX then result_uint64 w = ResultInt64 (int (unat w))
   else \<exists>text. result_uint64 w = ResultText text \<and> decimal_value text = unat w \<and>
     length text \<le> 20"
  using decimal_u64_length [of w]
  by (auto simp: result_uint64_def decimal_value_decimal Let_def)

text \<open>
  The SQL functions agree with the registry and with each other: for a valid name,
  IS_FREE_LOCK is 1 and IS_USED_LOCK is NULL exactly when nobody holds the lock, and otherwise
  IS_FREE_LOCK is 0 and IS_USED_LOCK is the identifier of the holder.
\<close>
theorem lock_functions_agree:
  assumes "\<not> value_null v" "value_text v = Some n" "value_bytes v = int (length n)"
    and "n \<noteq> []" "length n \<le> named_lock_name_max_bytes"
  shows "case lock_holder reg n of
      None \<Rightarrow> is_free_lock_sqlite_callback (Some db) reg [v] = (ResultInt64 1, Some db) \<and>
        is_used_lock_sqlite_callback (Some db) reg [v] = (ResultNull, Some db)
    | Some (c, k) \<Rightarrow> is_free_lock_sqlite_callback (Some db) reg [v] = (ResultInt64 0, Some db) \<and>
        is_used_lock_sqlite_callback (Some db) reg [v] = (result_uint64 c, Some db)"
proof -
  have "sqlite_named_lock_argument v = (MYLITE_OK, Some n)"
    using assms by (simp add: sqlite_named_lock_argument_def)
  moreover have "named_lock_validate (Some db) (Some n) = (MYLITE_OK, Some db)"
    using assms by (simp add: named_lock_validate_def)
  ultimately show ?thesis
    by (cases "find_named_lock_entry (named_lock_entries reg) n")
      (simp_all add: holder_alt is_free_lock_sqlite_callback_def is_used_lock_sqlite_callback_def
        mylite_named_lock_is_free_def mylite_named_lock_is_used_def)
qed

definition example_text :: "bytes \<Rightarrow> sqlite_value" where
  "example_text b = \<lparr>value_null = False, value_text = Some b, value_bytes = int (length b),
     value_int64 = 0\<rparr>"

theorem lock_functions_agree_witness:
  "is_used_lock_sqlite_callback (Some \<lparr>connection_id = 9, diagnostics = example_area\<rparr>)
     example_registry [example_text [98]] =
     (result_uint64 2, Some \<lparr>connection_id = 9, diagnostics = example_area\<rparr>)"
  using lock_functions_agree [where v = "example_text [98]" and n = "[98]" and reg = example_registry
      and db = "\<lparr>connection_id = 9, diagnostics = example_area\<rparr>"]
  by (simp add: example_text_def example_registry_def lock_holder_def)

text \<open>
  The lock functions are registered together and with the argument counts their
  callbacks accept: the table passes the validation, so SQLite receives all seven functions
  under distinct names, each callable from SQL directly only.
\<close>
theorem lock_functions_registered:
  "list_all function_registration_is_valid named_lock_registrations \<and>
   distinct (map fname named_lock_registrations) \<and>
   mylite_sqlite_register_named_lock_functions (recorder (\<lambda>i. SQLITE_OK)) True [] =
     (MYLITE_OK, map call_of named_lock_registrations) \<and>
   list_all (\<lambda>r. text_representation r AND SQLITE_DIRECTONLY \<noteq> 0) named_lock_registrations"
proof -
  have valid: "list_all function_registration_is_valid named_lock_registrations"
    by (simp add: named_lock_registrations_def scalar_registration_def function_registration_is_valid_def
        registration_name_is_valid_def argument_count_is_valid_def text_representation_is_valid_def
        function_text_representation_is_valid_def scalar_function_registration_is_valid_def Let_def)
  obtain rc log where r: "register_each (register_function (recorder (\<lambda>i. SQLITE_OK))) []
      named_lock_registrations = (rc, log)" by fastforce
  from register_each_log [OF valid r] have "rc = MYLITE_OK"
    "log = map call_of named_lock_registrations" by (auto split: if_splits)
  moreover have "distinct (map fname named_lock_registrations)"
    "list_all (\<lambda>r. text_representation r AND SQLITE_DIRECTONLY \<noteq> 0) named_lock_registrations"
    by (simp_all add: named_lock_registrations_def scalar_registration_def)
  ultimately show ?thesis
    using valid r
    by (simp add: mylite_sqlite_register_named_lock_functions_def
        mylite_sqlite_register_functions_def function_registrations_valid_iff)
qed

end
