(* ===== verification/Like_Match.thy ===== *)
theory Like_Match
  imports Lock_Functions
begin

text \<open>
  The binary LIKE operator, \<^verbatim>\<open>runtime/mylite_like.c\<close>: a matcher with one retry point instead
  of backtracking. It is compared with a recursive definition of LIKE over the tokens of the
  pattern. Patterns and values are byte lists.
\<close>

section \<open>The matcher\<close>

abbreviation (input) BYTE_PERCENT :: byte where "BYTE_PERCENT \<equiv> 37"
abbreviation (input) BYTE_UNDERSCORE :: byte where "BYTE_UNDERSCORE \<equiv> 95"
abbreviation (input) BYTE_A :: byte where "BYTE_A \<equiv> 65"
abbreviation (input) BYTE_Z :: byte where "BYTE_Z \<equiv> 90"
abbreviation (input) BYTE_a :: byte where "BYTE_a \<equiv> 97"

definition like_ascii_lower :: "byte \<Rightarrow> byte" where
  "like_ascii_lower b = (if b \<ge> BYTE_A \<and> b \<le> BYTE_Z then b - BYTE_A + BYTE_a else b)"

definition like_bytes_equal :: "byte \<Rightarrow> byte \<Rightarrow> bool \<Rightarrow> bool" where
  "like_bytes_equal left right case_sensitive =
     (if case_sensitive then left = right else like_ascii_lower left = like_ascii_lower right)"

text \<open>The next pattern index, when the item at the index matches the byte.\<close>

definition like_pattern_item_matches ::
    "bytes \<Rightarrow> nat \<Rightarrow> byte \<Rightarrow> bool \<Rightarrow> byte \<Rightarrow> nat option" where
  "like_pattern_item_matches pattern pattern_index value_byte case_sensitive escape_character =
     (if pattern_index \<ge> length pattern then None
      else (let pattern_byte = pattern ! pattern_index
            in if pattern_byte = BYTE_UNDERSCORE then Some (pattern_index + 1)
               else (let escaped = (escape_character \<noteq> 0 \<and> pattern_byte = escape_character \<and>
                            pattern_index + 1 < length pattern);
                         next_pattern_index = (if escaped then pattern_index + 1 else pattern_index);
                         pattern_byte = (if escaped then pattern ! next_pattern_index else pattern_byte);
                         next_pattern_index = next_pattern_index + 1
                     in if \<not> like_bytes_equal pattern_byte value_byte case_sensitive then None
                        else Some next_pattern_index)))"

function like_skip_percent_run :: "bytes \<Rightarrow> nat \<Rightarrow> nat" where
  "like_skip_percent_run pattern pattern_index =
     (if pattern_index < length pattern \<and> pattern ! pattern_index = BYTE_PERCENT
      then like_skip_percent_run pattern (pattern_index + 1)
      else pattern_index)"
  by pat_completeness auto
termination
  by (relation "measure (\<lambda>(pattern, pattern_index). length pattern - pattern_index)") auto

declare like_skip_percent_run.simps [simp del]

text \<open>
  The loop. The retry point is \<open>None\<close> before the first percent sign; \<open>None\<close> as a result
  means that \<open>fuel\<close> ran out.
\<close>

fun like_loop ::
    "nat \<Rightarrow> bytes \<Rightarrow> bytes \<Rightarrow> bool \<Rightarrow> byte \<Rightarrow> nat \<Rightarrow> nat \<Rightarrow> nat option \<Rightarrow> nat \<Rightarrow> bool option" where
  "like_loop 0 pattern v cs esc pi vi rp rv = None"
| "like_loop (Suc fuel) pattern v cs esc pi vi rp rv =
     (if vi < length v then
        if pi < length pattern \<and> pattern ! pi = BYTE_PERCENT then
          (let pi = like_skip_percent_run pattern pi
           in if pi = length pattern then Some True
              else like_loop fuel pattern v cs esc pi vi (Some pi) vi)
        else (case like_pattern_item_matches pattern pi (v ! vi) cs esc of
                Some next_pi \<Rightarrow> like_loop fuel pattern v cs esc next_pi (vi + 1) rp rv
              | None \<Rightarrow>
                (case rp of
                   None \<Rightarrow> Some False
                 | Some r \<Rightarrow>
                   if rv \<ge> length v then Some False
                   else like_loop fuel pattern v cs esc r (rv + 1) rp (rv + 1)))
      else Some (like_skip_percent_run pattern pi = length pattern))"

text \<open>The bound that is always enough.\<close>

definition like_fuel :: "bytes \<Rightarrow> bytes \<Rightarrow> nat" where
  "like_fuel pattern v = (length pattern + 2) * ((length v + 2) * (length v + 2)) + 1"

definition like_pattern_matches :: "bytes \<Rightarrow> bytes \<Rightarrow> bool \<Rightarrow> byte \<Rightarrow> bool option" where
  "like_pattern_matches pattern v case_sensitive escape_character =
     like_loop (like_fuel pattern v) pattern v case_sensitive escape_character 0 0 None 0"

text \<open>
  The SQL function. A value and a pattern without text have byte count zero, or SQLite ran out
  of memory; the third argument is cast to an unsigned char.
\<close>

definition like_binary_sqlite_callback :: "sqlite_value list \<Rightarrow> sqlite_result" where
  "like_binary_sqlite_callback argv = (case argv of
     [v0, v1, v2] \<Rightarrow>
       if value_null v0 \<or> value_null v1 then ResultNull
       else if value_text v0 = None \<and> value_bytes v0 \<noteq> 0 \<or> value_text v1 = None \<and> value_bytes v1 \<noteq> 0
       then ResultNomem
       else (let pattern = (case value_text v1 of None \<Rightarrow> [] | Some p \<Rightarrow> take (nat (value_bytes v1)) p);
                 text = (case value_text v0 of None \<Rightarrow> [] | Some t \<Rightarrow> take (nat (value_bytes v0)) t);
                 escape_character = word_of_int (value_int64 v2)
             in ResultInt64 (if like_pattern_matches pattern text True escape_character = Some True
                  then 1 else 0))
   | _ \<Rightarrow> ResultError ''invalid _mylite_like_binary call'')"

definition mylite_sqlite_register_like_functions ::
    "'cb \<Rightarrow> ('w, 'cb) sqlite_create \<Rightarrow> bool \<Rightarrow> 'w \<Rightarrow> int \<times> 'w" where
  "mylite_sqlite_register_like_functions callback create sqlite w =
     mylite_sqlite_register_functions create sqlite w
       (Some [\<lparr>kind = MYLITE_SQLITE_FUNCTION_SCALAR, fname = Some ''_mylite_like_binary'',
         argument_count = 3,
         text_representation = SQLITE_UTF8 OR SQLITE_DIRECTONLY OR SQLITE_INNOCUOUS,
         application_data = None, scalar_callback = Some callback, step_callback = None,
         final_callback = None, value_callback = None, inverse_callback = None,
         destroy_callback = None\<rparr>]) 1"

section \<open>The meaning of a pattern\<close>

datatype like_token =
    AnyString
  | AnyByte
  | Literal byte

text \<open>
  The tokens from an index on; an escape character at the very end stands for itself. As in the
  code, the wildcards are recognised first, so that a wildcard chosen as the escape character
  escapes nothing.
\<close>

function like_tokens :: "bytes \<Rightarrow> byte \<Rightarrow> nat \<Rightarrow> like_token list" where
  "like_tokens p esc i =
     (if i \<ge> length p then []
      else if p ! i = BYTE_PERCENT then AnyString # like_tokens p esc (i + 1)
      else if p ! i = BYTE_UNDERSCORE then AnyByte # like_tokens p esc (i + 1)
      else if esc \<noteq> 0 \<and> p ! i = esc \<and> i + 1 < length p
      then Literal (p ! (i + 1)) # like_tokens p esc (i + 2)
      else Literal (p ! i) # like_tokens p esc (i + 1))"
  by pat_completeness auto
termination by (relation "measure (\<lambda>(p, esc, i). length p - i)") auto

declare like_tokens.simps [simp del]

text \<open>A token that stands for exactly one byte.\<close>

fun token_byte :: "bool \<Rightarrow> like_token \<Rightarrow> byte \<Rightarrow> bool" where
  "token_byte cs AnyString b = False"
| "token_byte cs AnyByte b = True"
| "token_byte cs (Literal l) b = like_bytes_equal l b cs"

fun like_spec :: "bool \<Rightarrow> like_token list \<Rightarrow> bytes \<Rightarrow> bool" where
  "like_spec cs [] v \<longleftrightarrow> v = []"
| "like_spec cs (AnyString # ts) [] \<longleftrightarrow> like_spec cs ts []"
| "like_spec cs (AnyString # ts) (b # v) \<longleftrightarrow> like_spec cs ts (b # v) \<or> like_spec cs (AnyString # ts) v"
| "like_spec cs (t # ts) [] \<longleftrightarrow> False"
| "like_spec cs (t # ts) (b # v) \<longleftrightarrow> token_byte cs t b \<and> like_spec cs ts v"

section \<open>Lemmas\<close>

lemma like_spec_any: "like_spec cs (AnyString # ts) v \<longleftrightarrow> (\<exists>k \<le> length v. like_spec cs ts (drop k v))"
proof (induction v)
  case (Cons b v)
  have "(\<exists>k \<le> length (b # v). like_spec cs ts (drop k (b # v))) \<longleftrightarrow>
    like_spec cs ts (b # v) \<or> (\<exists>k \<le> length v. like_spec cs ts (drop k v))"
    by (rule iffI; elim exE disjE; clarsimp) (metis One_nat_def drop_Cons' Suc_le_mono diff_Suc_1
        not0_implies_Suc drop0 drop_Suc_Cons le0)+
  with Cons show ?case by simp
qed simp

lemma like_spec_any_drop:
  "like_spec cs (AnyString # ts) (drop k v) \<Longrightarrow> like_spec cs (AnyString # ts) v"
proof (cases "k \<le> length v")
  case True
  assume "like_spec cs (AnyString # ts) (drop k v)"
  then obtain j where "j \<le> length (drop k v)" "like_spec cs ts (drop j (drop k v))"
    unfolding like_spec_any by blast
  with True have "k + j \<le> length v" "like_spec cs ts (drop (k + j) v)" by (simp_all add: add.commute)
  then show ?thesis unfolding like_spec_any by blast
next
  case False
  assume "like_spec cs (AnyString # ts) (drop k v)"
  with False have "like_spec cs ts (drop (length v) v)" by simp
  then show ?thesis unfolding like_spec_any by blast
qed

lemma like_spec_any_step:
  "k < length v \<Longrightarrow> \<not> like_spec cs ts (drop k v) \<Longrightarrow>
    like_spec cs (AnyString # ts) (drop k v) \<longleftrightarrow> like_spec cs (AnyString # ts) (drop (Suc k) v)"
  by (metis Cons_nth_drop_Suc like_spec.simps(3))

lemma like_spec_any_any:
  "like_spec cs (AnyString # AnyString # ts) v \<longleftrightarrow> like_spec cs (AnyString # ts) v"
  by (induction v) auto

text \<open>A run of tokens that stand for one byte each.\<close>

definition fixed :: "like_token list \<Rightarrow> bool" where
  "fixed S \<longleftrightarrow> AnyString \<notin> set S"

lemma like_spec_fixed:
  "fixed S \<Longrightarrow> like_spec cs (S @ T) v \<longleftrightarrow>
    length S \<le> length v \<and> list_all2 (token_byte cs) S (take (length S) v) \<and>
    like_spec cs T (drop (length S) v)"
proof (induction S arbitrary: v)
  case (Cons t S)
  then have "t \<noteq> AnyString" "fixed S" by (auto simp: fixed_def)
  with Cons.IH show ?case by (cases v; cases t) auto
qed simp

section \<open>Tokens and the steps of the matcher\<close>

lemma tokens_end: "length p \<le> i \<Longrightarrow> like_tokens p esc i = []"
  by (simp add: like_tokens.simps)

lemma tokens_percent:
  "i < length p \<Longrightarrow> p ! i = BYTE_PERCENT \<Longrightarrow>
    like_tokens p esc i = AnyString # like_tokens p esc (i + 1)"
  by (simp add: like_tokens.simps [of p esc i])

lemma skip_step:
  "i < length p \<Longrightarrow> p ! i = BYTE_PERCENT \<Longrightarrow>
    like_skip_percent_run p i = like_skip_percent_run p (i + 1)"
  by (simp add: like_skip_percent_run.simps [of p i])

lemma skip_stop:
  "\<not> (i < length p \<and> p ! i = BYTE_PERCENT) \<Longrightarrow> like_skip_percent_run p i = i"
  by (subst like_skip_percent_run.simps) auto

lemma skip_bounds:
  "i \<le> length p \<Longrightarrow> i \<le> like_skip_percent_run p i \<and> like_skip_percent_run p i \<le> length p"
proof (induction p i rule: like_skip_percent_run.induct)
  case (1 p i)
  show ?case
  proof (cases "i < length p \<and> p ! i = BYTE_PERCENT")
    case True
    with "1.IH" [OF True] show ?thesis by (simp add: skip_step)
  next
    case False
    with "1.prems" show ?thesis by (simp add: skip_stop)
  qed
qed

lemma skip_spec:
  "i < length p \<Longrightarrow> p ! i = BYTE_PERCENT \<Longrightarrow>
    like_spec cs (like_tokens p esc i) v \<longleftrightarrow>
    like_spec cs (AnyString # like_tokens p esc (like_skip_percent_run p i)) v"
proof (induction p i arbitrary: v rule: like_skip_percent_run.induct)
  case (1 p i)
  show ?case
  proof (cases "i + 1 < length p \<and> p ! (i + 1) = BYTE_PERCENT")
    case True
    have "like_spec cs (like_tokens p esc i) v \<longleftrightarrow> like_spec cs (AnyString # like_tokens p esc (i + 1)) v"
      using "1.prems" by (simp add: tokens_percent)
    also have "\<dots> \<longleftrightarrow> like_spec cs (AnyString # AnyString # like_tokens p esc (i + 1 + 1)) v"
      using True tokens_percent [of "i + 1" p esc] by simp
    also have "\<dots> \<longleftrightarrow> like_spec cs (like_tokens p esc (i + 1)) v"
      unfolding like_spec_any_any using True tokens_percent [of "i + 1" p esc] by simp
    also have "\<dots> \<longleftrightarrow> like_spec cs (AnyString # like_tokens p esc (like_skip_percent_run p (i + 1))) v"
      using "1.IH" "1.prems" True by blast
    finally show ?thesis using "1.prems" by (simp add: skip_step)
  next
    case False
    with "1.prems" show ?thesis
      by (simp add: skip_step skip_stop tokens_percent)
  qed
qed

lemma tokens_not_percent:
  assumes "i < length p" "p ! i \<noteq> BYTE_PERCENT"
  obtains t n where "like_tokens p esc i = t # like_tokens p esc n" "t \<noteq> AnyString"
    "i < n" "n \<le> length p"
    "\<And>b cs. like_pattern_item_matches p i b cs esc = (if token_byte cs t b then Some n else None)"
proof -
  consider (one) "p ! i = BYTE_UNDERSCORE"
    | (esc) "p ! i \<noteq> BYTE_UNDERSCORE" "esc \<noteq> 0 \<and> p ! i = esc \<and> i + 1 < length p"
    | (lit) "p ! i \<noteq> BYTE_UNDERSCORE" "\<not> (esc \<noteq> 0 \<and> p ! i = esc \<and> i + 1 < length p)" by blast
  then show thesis
  proof cases
    case one
    with assms show thesis
      by (intro that [of AnyByte "i + 1"])
        (auto simp: like_tokens.simps [of p esc i] like_pattern_item_matches_def)
  next
    case esc
    with assms show thesis
      by (intro that [of "Literal (p ! (i + 1))" "i + 2"])
        (auto simp: like_tokens.simps [of p esc i] like_pattern_item_matches_def Let_def)
  next
    case lit
    with assms show thesis
      by (intro that [of "Literal (p ! i)" "i + 1"])
        (auto simp: like_tokens.simps [of p esc i] like_pattern_item_matches_def Let_def)
  qed
qed

lemma skip_end:
  assumes "i \<le> length p"
  shows "like_skip_percent_run p i = length p \<longleftrightarrow> like_spec cs (like_tokens p esc i) []"
  using assms
proof (induction p i rule: like_skip_percent_run.induct)
  case (1 p i)
  show ?case
  proof (cases "i < length p")
    case False
    with "1.prems" show ?thesis by (simp add: skip_stop tokens_end)
  next
    case i: True
    show ?thesis
    proof (cases "p ! i = BYTE_PERCENT")
      case True
      have "like_skip_percent_run p (i + 1) = length p \<longleftrightarrow> like_spec cs (like_tokens p esc (i + 1)) []"
        using "1.IH" i True by simp
      then show ?thesis using i True by (simp add: skip_step tokens_percent)
    next
      case False
      obtain t n where "like_tokens p esc i = t # like_tokens p esc n" "t \<noteq> AnyString"
        by (rule tokens_not_percent [OF i False, of esc]) (rule that)
      with i False show ?thesis by (cases t) (simp_all add: skip_stop)
    qed
  qed
qed

section \<open>The matcher decides LIKE\<close>

text \<open>
  Before the first percent sign the rest of the pattern faces the rest of the value. After it,
  the tokens since the retry point have matched the bytes since the retry point one by one, and
  the answer is that of the last percent sign at the retry point.
\<close>

definition like_inv ::
    "bool \<Rightarrow> byte \<Rightarrow> bytes \<Rightarrow> bytes \<Rightarrow> bool \<Rightarrow> nat \<Rightarrow> nat \<Rightarrow> nat option \<Rightarrow> nat \<Rightarrow> bool" where
  "like_inv cs esc p v G pi vi rp rv \<longleftrightarrow> pi \<le> length p \<and> vi \<le> length v \<and> rv \<le> vi \<and>
     (case rp of
        None \<Rightarrow> G = like_spec cs (like_tokens p esc pi) (drop vi v)
      | Some r \<Rightarrow> r \<le> pi \<and> G = like_spec cs (AnyString # like_tokens p esc r) (drop rv v) \<and>
          (\<exists>S. fixed S \<and> like_tokens p esc r = S @ like_tokens p esc pi \<and> length S = vi - rv \<and>
            list_all2 (token_byte cs) S (take (vi - rv) (drop rv v))))"

lemma inv_here:
  assumes "like_inv cs esc p v G pi vi (Some r) rv"
  shows "like_spec cs (like_tokens p esc r) (drop rv v) \<longleftrightarrow> like_spec cs (like_tokens p esc pi) (drop vi v)"
proof -
  from assms obtain S where S: "fixed S" "like_tokens p esc r = S @ like_tokens p esc pi"
    "length S = vi - rv" "list_all2 (token_byte cs) S (take (vi - rv) (drop rv v))"
    and "vi \<le> length v" "rv \<le> vi" by (auto simp: like_inv_def)
  then have "vi - rv \<le> length v - rv" by simp
  with S \<open>rv \<le> vi\<close> show ?thesis using like_spec_fixed [OF S(1)] by simp
qed

lemma inv_percent:
  assumes inv: "like_inv cs esc p v G pi vi rp rv" and pi: "pi < length p" "p ! pi = BYTE_PERCENT"
  shows "G = like_spec cs (AnyString # like_tokens p esc (like_skip_percent_run p pi)) (drop vi v)"
    and "like_inv cs esc p v G (like_skip_percent_run p pi) vi (Some (like_skip_percent_run p pi)) vi"
proof -
  let ?T = "like_tokens p esc (like_skip_percent_run p pi)"
  have spec: "like_spec cs (like_tokens p esc pi) w \<longleftrightarrow> like_spec cs (AnyString # ?T) w" for w
    using skip_spec [OF pi] .
  show G: "G = like_spec cs (AnyString # ?T) (drop vi v)"
  proof (cases rp)
    case None
    with inv spec show ?thesis by (simp add: like_inv_def)
  next
    case (Some r)
    with inv obtain S where S: "fixed S" "like_tokens p esc r = S @ like_tokens p esc pi"
      "length S = vi - rv" and le: "rv \<le> vi"
      and eq: "G = like_spec cs (AnyString # like_tokens p esc r) (drop rv v)" by (auto simp: like_inv_def)
    show ?thesis
    proof
      assume G
      with eq obtain k where "like_spec cs (S @ like_tokens p esc pi) (drop k (drop rv v))"
        unfolding like_spec_any S(2) by blast
      with like_spec_fixed [OF S(1)] have "like_spec cs (like_tokens p esc pi) (drop (vi - rv) (drop k (drop rv v)))"
        using S(3) by simp
      also have "drop (vi - rv) (drop k (drop rv v)) = drop k (drop vi v)" using le by (simp add: add.commute add.left_commute)
      finally show "like_spec cs (AnyString # ?T) (drop vi v)" unfolding spec by (rule like_spec_any_drop)
    next
      assume "like_spec cs (AnyString # ?T) (drop vi v)"
      with spec inv_here inv Some have "like_spec cs (like_tokens p esc r) (drop 0 (drop rv v))" by simp
      then show G unfolding eq like_spec_any by blast
    qed
  qed
  from inv pi skip_bounds [of pi p] show
    "like_inv cs esc p v G (like_skip_percent_run p pi) vi (Some (like_skip_percent_run p pi)) vi"
    using G by (auto simp: like_inv_def fixed_def)
qed

lemma inv_match:
  assumes inv: "like_inv cs esc p v G pi vi rp rv" and vi: "vi < length v"
    and np: "\<not> (pi < length p \<and> p ! pi = BYTE_PERCENT)"
    and match: "like_pattern_item_matches p pi (v ! vi) cs esc = Some n"
  shows "like_inv cs esc p v G n (vi + 1) rp rv"
proof -
  from match have pi: "pi < length p" by (auto simp: like_pattern_item_matches_def split: if_splits)
  with np have npi: "p ! pi \<noteq> BYTE_PERCENT" by simp
  obtain t n' where t: "like_tokens p esc pi = t # like_tokens p esc n'" "t \<noteq> AnyString"
    "pi < n'" "n' \<le> length p"
    "\<And>b cs. like_pattern_item_matches p pi b cs esc = (if token_byte cs t b then Some n' else None)"
    by (rule tokens_not_percent [OF pi npi, of esc]) (rule that)
  with match have n: "n' = n" "token_byte cs t (v ! vi)" by (auto split: if_splits)
  have v: "drop vi v = v ! vi # drop (vi + 1) v" using vi by (simp add: Cons_nth_drop_Suc)
  show ?thesis
  proof (cases rp)
    case None
    with inv t n v vi show ?thesis by (cases t) (auto simp: like_inv_def)
  next
    case (Some r)
    with inv obtain S where S: "fixed S" "like_tokens p esc r = S @ like_tokens p esc pi"
      "length S = vi - rv" "list_all2 (token_byte cs) S (take (vi - rv) (drop rv v))"
      and le: "rv \<le> vi" "r \<le> pi"
      and eq: "G = like_spec cs (AnyString # like_tokens p esc r) (drop rv v)" by (auto simp: like_inv_def)
    from le vi have take: "take (vi + 1 - rv) (drop rv v) = take (vi - rv) (drop rv v) @ [v ! vi]"
      by (simp add: Suc_diff_le take_Suc_conv_app_nth)
    have "fixed (S @ [t])" "like_tokens p esc r = (S @ [t]) @ like_tokens p esc n"
      "length (S @ [t]) = vi + 1 - rv"
      using S t n le by (auto simp: fixed_def)
    moreover have "list_all2 (token_byte cs) (S @ [t]) (take (vi + 1 - rv) (drop rv v))"
      unfolding take using S(4) n(2) by (auto intro: list_all2_appendI)
    ultimately show ?thesis using Some le eq t n vi unfolding like_inv_def by auto
  qed
qed

lemma mismatch_here:
  assumes vi: "vi < length v" and np: "\<not> (pi < length p \<and> p ! pi = BYTE_PERCENT)"
    and nomatch: "like_pattern_item_matches p pi (v ! vi) cs esc = None"
  shows "\<not> like_spec cs (like_tokens p esc pi) (drop vi v)"
proof (cases "pi < length p")
  case False
  with vi show ?thesis by (simp add: tokens_end)
next
  case pi: True
  with np have npi: "p ! pi \<noteq> BYTE_PERCENT" by simp
  obtain t n where t: "like_tokens p esc pi = t # like_tokens p esc n" "t \<noteq> AnyString"
    "\<And>b cs. like_pattern_item_matches p pi b cs esc = (if token_byte cs t b then Some n else None)"
    by (rule tokens_not_percent [OF pi npi, of esc]) (rule that)
  with nomatch have "\<not> token_byte cs t (v ! vi)" by (auto split: if_splits)
  then show ?thesis using t vi by (cases t) (simp_all flip: Cons_nth_drop_Suc)
qed

lemma inv_retry:
  assumes inv: "like_inv cs esc p v G pi vi (Some r) rv" and vi: "vi < length v"
    and np: "\<not> (pi < length p \<and> p ! pi = BYTE_PERCENT)"
    and nomatch: "like_pattern_item_matches p pi (v ! vi) cs esc = None"
  shows "like_inv cs esc p v G r (rv + 1) (Some r) (rv + 1)"
proof -
  from mismatch_here [OF vi np nomatch] inv_here [OF inv]
  have no: "\<not> like_spec cs (like_tokens p esc r) (drop rv v)" by simp
  from inv vi have "rv < length v" by (simp add: like_inv_def)
  from like_spec_any_step [OF this no] inv this show ?thesis
    by (auto simp: like_inv_def fixed_def)
qed

lemma inv_end:
  assumes inv: "like_inv cs esc p v G pi vi rp rv" and vi: "\<not> vi < length v"
  shows "like_skip_percent_run p pi = length p \<longleftrightarrow> G"
proof -
  have end_spec: "like_skip_percent_run p pi = length p \<longleftrightarrow> like_spec cs (like_tokens p esc pi) []"
    using inv by (intro skip_end) (simp add: like_inv_def)
  show ?thesis
  proof (cases rp)
    case None
    with inv vi end_spec show ?thesis by (simp add: like_inv_def)
  next
    case (Some r)
    with inv obtain S where S: "fixed S" "like_tokens p esc r = S @ like_tokens p esc pi"
      "length S = vi - rv" and le: "rv \<le> vi" "vi = length v"
      and eq: "G = like_spec cs (AnyString # like_tokens p esc r) (drop rv v)"
      using vi by (auto simp: like_inv_def)
    have "k = 0" if "k \<le> length (drop rv v)" "like_spec cs (like_tokens p esc r) (drop k (drop rv v))" for k
      using that like_spec_fixed [OF S(1)] S(2,3) le by auto
    then have "G \<longleftrightarrow> like_spec cs (like_tokens p esc r) (drop rv v)"
      unfolding eq like_spec_any by (metis drop0 le0)
    also have "\<dots> \<longleftrightarrow> like_spec cs (like_tokens p esc pi) []"
      using inv_here inv Some le by simp
    finally show ?thesis using end_spec by simp
  qed
qed

text \<open>The steps left: retry points to come, retry positions of this one, bytes of this attempt.\<close>

definition like_measure :: "bytes \<Rightarrow> bytes \<Rightarrow> nat option \<Rightarrow> nat \<Rightarrow> nat \<Rightarrow> nat" where
  "like_measure p v rp rv vi =
     (length p + 1 - (case rp of None \<Rightarrow> 0 | Some r \<Rightarrow> r)) * ((length v + 2) * (length v + 2)) +
     (length v - rv) * (length v + 2) + (length v - vi)"

lemma below_square: "a \<le> n \<Longrightarrow> b \<le> n \<Longrightarrow> a * (n + 2) + b < (n + 2) * (n + 2)" for a b n :: nat
proof -
  assume "a \<le> n" "b \<le> n"
  then have "a * (n + 2) + b \<le> n * (n + 2) + n" by (intro add_mono mult_right_mono) auto
  then show ?thesis by (simp add: algebra_simps)
qed

lemma measure_percent:
  assumes "case rp of None \<Rightarrow> 0 < r | Some q \<Rightarrow> q < r" "r \<le> length p"
  shows "like_measure p v (Some r) vi vi < like_measure p v rp rv vi"
proof -
  define B where "B = (length v + 2) * (length v + 2)"
  define X where "X = length p + 1 - (case rp of None \<Rightarrow> 0 | Some q \<Rightarrow> q)"
  have "length p + 1 - r + 1 \<le> X" using assms by (auto simp: X_def split: option.splits)
  then have "(length p + 1 - r + 1) * B \<le> X * B" by (rule mult_right_mono) simp
  moreover have "(length v - vi) * (length v + 2) + (length v - vi) < B"
    unfolding B_def by (rule below_square) auto
  ultimately show ?thesis unfolding like_measure_def B_def [symmetric] X_def [symmetric] by simp
qed

lemma measure_match: "vi < length v \<Longrightarrow> like_measure p v rp rv (vi + 1) < like_measure p v rp rv vi"
  unfolding like_measure_def by (intro add_strict_left_mono) simp

lemma measure_retry:
  assumes "rv < length v" shows "like_measure p v rp (rv + 1) (rv + 1) < like_measure p v rp rv vi"
proof -
  from assms have "length v - rv = Suc (length v - (rv + 1))" by simp
  then have "(length v - rv) * (length v + 2) = (length v - (rv + 1)) * (length v + 2) + (length v + 2)"
    by (simp only: mult_Suc add.commute)
  then have "(length v - (rv + 1)) * (length v + 2) + (length v - (rv + 1)) <
    (length v - rv) * (length v + 2) + (length v - vi)" using assms by linarith
  then show ?thesis unfolding like_measure_def add.assoc by (rule add_strict_left_mono)
qed

lemma like_loop_correct:
  "like_inv cs esc p v G pi vi rp rv \<Longrightarrow> like_measure p v rp rv vi < fuel \<Longrightarrow>
    like_loop fuel p v cs esc pi vi rp rv = Some G"
proof (induction fuel arbitrary: pi vi rp rv)
  case (Suc fuel)
  note inv = Suc.prems(1) and M = Suc.prems(2)
  show ?case
  proof (cases "vi < length v")
    case False
    with inv_end [OF inv] show ?thesis by simp
  next
    case vi: True
    show ?thesis
    proof (cases "pi < length p \<and> p ! pi = BYTE_PERCENT")
      case percent: True
      then have pi: "pi < length p" "p ! pi = BYTE_PERCENT" by auto
      let ?n = "like_skip_percent_run p pi"
      show ?thesis
      proof (cases "?n = length p")
        case True
        have "like_spec cs [AnyString] (drop (length v - vi) (drop vi v))" by simp
        then have "like_spec cs [AnyString] (drop vi v)" by (rule like_spec_any_drop)
        then have G using inv_percent(1) [OF inv pi] True by (simp add: tokens_end)
        then show ?thesis using vi percent True by simp
      next
        case False
        have "pi < ?n" "?n \<le> length p"
          using skip_bounds [of "pi + 1" p] pi by (auto simp: skip_step)
        moreover have "case rp of None \<Rightarrow> True | Some q \<Rightarrow> q \<le> pi"
          using inv by (auto simp: like_inv_def split: option.splits)
        ultimately have "like_measure p v (Some ?n) vi vi < fuel"
          using measure_percent [where rp = rp and r = ?n and p = p and v = v and vi = vi and rv = rv] M by (cases rp) auto
        then have "like_loop fuel p v cs esc ?n vi (Some ?n) vi = Some G"
          by (intro Suc.IH inv_percent(2) [OF inv pi])
        then show ?thesis using vi percent False by (simp add: Let_def)
      qed
    next
      case np: False
      show ?thesis
      proof (cases "like_pattern_item_matches p pi (v ! vi) cs esc")
        case (Some n)
        have "like_loop fuel p v cs esc n (vi + 1) rp rv = Some G"
          using measure_match [OF vi, where rp = rp and p = p and rv = rv] M
          by (intro Suc.IH inv_match [OF inv vi np Some]) simp
        then show ?thesis using vi np Some by auto
      next
        case nomatch: None
        show ?thesis
        proof (cases rp)
          case None
          with inv mismatch_here [OF vi np nomatch] have "\<not> G" by (simp add: like_inv_def)
          then show ?thesis using vi np nomatch None by auto
        next
          case (Some r)
          from inv vi have rv: "rv < length v" by (simp add: like_inv_def)
          have "like_loop fuel p v cs esc r (rv + 1) (Some r) (rv + 1) = Some G"
            using measure_retry [OF rv, where rp = rp and p = p and vi = vi] M Some
            by (intro Suc.IH inv_retry [OF inv [unfolded Some] vi np nomatch]) simp
          then show ?thesis using vi np nomatch Some rv by auto
        qed
      qed
    qed
  qed
qed simp

lemma fuel_enough: "like_measure p v None 0 0 < like_fuel p v"
  using below_square [of "length v" "length v" "length v"]
  by (simp add: like_measure_def like_fuel_def)

section \<open>Properties\<close>

text \<open>
  Property C19. The LIKE matcher always stops and decides LIKE: its answer is that of the
  recursive meaning of the pattern, in which a percent sign stands for any string, an underscore
  for any byte, and an escaped byte for itself, for every pattern, value, escape character and
  case rule.
\<close>

theorem like_pattern_matches_decides_like:
  "like_pattern_matches p v cs esc = Some (like_spec cs (like_tokens p esc 0) v)"
  unfolding like_pattern_matches_def
  by (rule like_loop_correct [OF _ fuel_enough]) (simp add: like_inv_def)

end
