(* ===== verification/String_Table.thy ===== *)
theory String_Table
  imports MyLite_Prelude
begin

text \<open>
  The hash table of one generation of the catalog string pool,
  \<^verbatim>\<open>runtime/mylite_catalog_string_pool.c\<close>: an array of pointers to entries with linear
  probing. A slot is \<open>None\<close> where the C code has a null pointer; an entry carries the address
  it was allocated at, because the pool hands out pointers into entries. The two probing loops
  are partial functions: \<open>None\<close> is a loop that does not end. They are compared with lookup and
  insertion in the set of stored entries.
\<close>

section \<open>Entries and hashes\<close>

record pool_entry =
  entry_address :: nat
  hash :: u64
  elength :: nat
  etext :: bytes

type_synonym slots = "pool_entry option list"

fun hash_loop :: "u64 \<Rightarrow> bytes \<Rightarrow> u64" where
  "hash_loop h [] = h"
| "hash_loop h (b # bs) = hash_loop ((h XOR ucast b) * 1099511628211) bs"

definition catalog_string_hash :: "bytes \<Rightarrow> nat \<Rightarrow> u64" where
  "catalog_string_hash text len = hash_loop 14695981039346656037 (take len text)"

section \<open>Probing\<close>

partial_function (option) find_loop ::
    "slots \<Rightarrow> bytes \<Rightarrow> nat \<Rightarrow> u64 \<Rightarrow> nat \<Rightarrow> pool_entry option option" where
  "find_loop slots text len h index =
     (case slots ! index of
        None \<Rightarrow> Some None
      | Some e \<Rightarrow>
        if hash e = h \<and> elength e = len \<and> mem_equal (etext e) text len then Some (Some e)
        else find_loop slots text len h ((index + 1) mod length slots))"

definition find_catalog_string ::
    "slots \<Rightarrow> bytes \<Rightarrow> nat \<Rightarrow> u64 \<Rightarrow> pool_entry option option" where
  "find_catalog_string slots text len h =
     (if length slots = 0 then Some None
      else find_loop slots text len h (unat h mod length slots))"

partial_function (option) insert_loop :: "slots \<Rightarrow> pool_entry \<Rightarrow> nat \<Rightarrow> slots option" where
  "insert_loop slots e index =
     (if slots ! index \<noteq> None then insert_loop slots e ((index + 1) mod length slots)
      else Some (slots[index := Some e]))"

definition insert_catalog_string_entry :: "slots \<Rightarrow> pool_entry \<Rightarrow> slots option" where
  "insert_catalog_string_entry slots e = insert_loop slots e (unat (hash e) mod length slots)"

definition catalog_string_pool_load_limit :: "nat \<Rightarrow> nat" where
  "catalog_string_pool_load_limit capacity =
     (capacity div 10) * 7 + ((capacity mod 10) * 7) div 10"

text \<open>The loop of \<^verbatim>\<open>reserve_catalog_string_pool\<close> that moves the entries to the new array.\<close>

fun rehash_loop :: "slots \<Rightarrow> slots \<Rightarrow> slots option" where
  "rehash_loop [] new = Some new"
| "rehash_loop (None # old) new = rehash_loop old new"
| "rehash_loop (Some e # old) new =
     (case insert_catalog_string_entry new e of
        None \<Rightarrow> None
      | Some new' \<Rightarrow> rehash_loop old new')"

section \<open>The table as a set of entries\<close>

definition entries :: "slots \<Rightarrow> pool_entry set" where
  "entries slots = {e. Some e \<in> set slots}"

definition slot_sum :: "(pool_entry \<Rightarrow> nat) \<Rightarrow> slots \<Rightarrow> nat" where
  "slot_sum f slots = sum_list (map (\<lambda>s. case s of None \<Rightarrow> 0 | Some e \<Rightarrow> f e) slots)"

abbreviation occupied :: "slots \<Rightarrow> nat" where
  "occupied \<equiv> slot_sum (\<lambda>_. 1)"

definition probe :: "slots \<Rightarrow> nat \<Rightarrow> nat \<Rightarrow> nat" where
  "probe slots start d = (start + d) mod length slots"

definition entry_ok :: "pool_entry \<Rightarrow> bool" where
  "entry_ok e \<longleftrightarrow> length (etext e) = elength e \<and> hash e = catalog_string_hash (etext e) (elength e)"

text \<open>An entry is reached from its home slot through occupied slots only.\<close>

definition reached :: "slots \<Rightarrow> pool_entry \<Rightarrow> bool" where
  "reached slots e \<longleftrightarrow> (\<exists>D. slots ! probe slots (unat (hash e)) D = Some e \<and>
     (\<forall>d < D. slots ! probe slots (unat (hash e)) d \<noteq> None))"

definition table_ok :: "slots \<Rightarrow> bool" where
  "table_ok slots \<longleftrightarrow>
     (\<forall>e \<in> entries slots. entry_ok e \<and> reached slots e) \<and>
     inj_on etext (entries slots) \<and> card (entries slots) = occupied slots \<and>
     (slots \<noteq> [] \<longrightarrow> occupied slots < length slots)"

lemma entries_simps [simp]:
  "entries [] = {}" "entries (None # s) = entries s" "entries (Some e # s) = insert e (entries s)"
  "entries (replicate n None) = {}"
  by (auto simp: entries_def)

lemma slot_sum_simps [simp]:
  "slot_sum f [] = 0" "slot_sum f (None # s) = slot_sum f s"
  "slot_sum f (Some e # s) = f e + slot_sum f s" "slot_sum f (replicate n None) = 0"
  by (simp_all add: slot_sum_def)

lemma slot_sum_cong: "(\<And>e. e \<in> entries s \<Longrightarrow> f e = g e) \<Longrightarrow> slot_sum f s = slot_sum g s"
  unfolding slot_sum_def entries_def by (intro arg_cong [of _ _ sum_list] map_cong) (auto split: option.splits)

lemma slot_sum_update:
  "i < length s \<Longrightarrow> s ! i = None \<Longrightarrow> slot_sum f (s[i := Some e]) = slot_sum f s + f e"
proof (induction s arbitrary: i)
  case (Cons x s)
  then show ?case by (cases i; cases x) auto
qed simp

lemma entries_update:
  "i < length s \<Longrightarrow> s ! i = None \<Longrightarrow> entries (s[i := Some e]) = insert e (entries s)"
  by (auto simp: entries_def in_set_conv_nth nth_list_update) (metis option.distinct(1))

lemma finite_entries [simp]: "finite (entries s)"
proof (induction s)
  case (Cons x s)
  then show ?case by (cases x) auto
qed simp

lemma card_entries_le: "card (entries s) \<le> occupied s"
proof (induction s)
  case (Cons x s)
  then show ?case by (cases x) (auto simp: card_insert_if)
qed simp

lemma free_slot:
  assumes "occupied s < length s" shows "\<exists>i < length s. s ! i = None"
proof (rule ccontr)
  assume "\<not> ?thesis"
  then have "\<forall>x \<in> set s. x \<noteq> None" by (auto simp: in_set_conv_nth)
  then have "occupied s = length s" by (induction s) auto
  with assms show False by simp
qed

lemma probe_less [simp]: "s \<noteq> [] \<Longrightarrow> probe s h d < length s"
  by (simp add: probe_def)

lemma probe_Suc: "Suc (probe s h d) mod length s = probe s h (Suc d)"
  by (simp add: probe_def mod_Suc_eq)

lemma probe_update [simp]: "probe (s[i := x]) h d = probe s h d"
  by (simp add: probe_def)

lemma probe_0 [simp]: "probe s h 0 = h mod length s"
  by (simp add: probe_def)

text \<open>Probing from any start meets a free slot after occupied ones only.\<close>

lemma probe_free:
  assumes "occupied s < length s"
  obtains D where "s ! probe s h D = None" "\<forall>d < D. s ! probe s h d \<noteq> None"
proof -
  from free_slot [OF assms] obtain i where i: "i < length s" "s ! i = None" by blast
  have "probe s h (i + length s - h mod length s) = i"
  proof -
    have "h mod length s < length s" using i by (intro mod_less_divisor) auto
    then have "(h mod length s + (i + length s - h mod length s)) mod length s = i" using i by simp
    then show ?thesis by (simp add: probe_def mod_add_left_eq)
  qed
  with i have ex: "\<exists>D. s ! probe s h D = None" by metis
  show thesis
  proof (rule that)
    show "s ! probe s h (LEAST D. s ! probe s h D = None) = None" using LeastI_ex [OF ex] .
    show "\<forall>d < LEAST D. s ! probe s h D = None. s ! probe s h d \<noteq> None" using not_less_Least by blast
  qed
qed

section \<open>Lookup\<close>

abbreviation entry_matches :: "bytes \<Rightarrow> nat \<Rightarrow> u64 \<Rightarrow> pool_entry \<Rightarrow> bool" where
  "entry_matches text len h e \<equiv> hash e = h \<and> elength e = len \<and> mem_equal (etext e) text len"

lemma find_loop_stops:
  assumes "s ! probe s h (d + n) = None" "\<forall>i < n. s ! probe s h (d + i) \<noteq> None"
  shows "\<exists>r. find_loop s text len w (probe s h d) = Some r \<and>
    (case r of None \<Rightarrow> \<forall>i < n. \<not> entry_matches text len w (the (s ! probe s h (d + i)))
     | Some e \<Rightarrow> entry_matches text len w e \<and> (\<exists>i < n. s ! probe s h (d + i) = Some e))"
  using assms
proof (induction n arbitrary: d)
  case 0
  then show ?case by (subst find_loop.simps) simp
next
  case (Suc n)
  from Suc.prems(2) obtain e where e: "s ! probe s h d = Some e" by fastforce
  show ?case
  proof (cases "entry_matches text len w e")
    case True
    then have "find_loop s text len w (probe s h d) = Some (Some e)"
      by (subst find_loop.simps) (simp add: e)
    with True e show ?thesis by (intro exI [of _ "Some e"]) (auto intro!: exI [of _ 0])
  next
    case False
    then have step: "find_loop s text len w (probe s h d) = find_loop s text len w (probe s h (Suc d))"
      by (subst find_loop.simps) (auto simp: e probe_Suc)
    have "\<forall>i < n. s ! probe s h (Suc d + i) \<noteq> None"
      using Suc.prems(2) by (metis Suc_mono add_Suc_shift)
    then obtain r where r: "find_loop s text len w (probe s h (Suc d)) = Some r"
      "case r of None \<Rightarrow> \<forall>i < n. \<not> entry_matches text len w (the (s ! probe s h (Suc d + i)))
       | Some e \<Rightarrow> entry_matches text len w e \<and> (\<exists>i < n. s ! probe s h (Suc d + i) = Some e)"
      using Suc.IH [of "Suc d"] Suc.prems(1) by auto
    show ?thesis
    proof (cases r)
      case None
      have "\<not> entry_matches text len w (the (s ! probe s h (d + i)))" if "i < Suc n" for i
        using that r(2) None False e by (cases i) auto
      with None r(1) step show ?thesis by auto
    next
      case (Some x)
      with r(2) obtain i where i: "i < n" "s ! probe s h (d + Suc i) = Some x" and "entry_matches text len w x"
        by auto
      moreover have "Suc i < Suc n" using i(1) by simp
      ultimately show ?thesis using Some r(1) step by (metis (mono_tags, lifting) option.simps(5))
    qed
  qed
qed

text \<open>Every path to a stored entry ends before the first free slot.\<close>

lemma reached_before_free:
  assumes "reached s e" "s ! probe s (unat (hash e)) D = None"
  shows "\<exists>d < D. s ! probe s (unat (hash e)) d = Some e"
  using assms unfolding reached_def by (metis linorder_neqE_nat option.distinct(1))

lemma entry_matches_iff:
  assumes "entry_ok e" "len \<le> length text" "h = catalog_string_hash text len"
  shows "entry_matches text len h e \<longleftrightarrow> etext e = take len text"
  using assms by (auto simp: entry_ok_def mem_equal_def catalog_string_hash_def)

lemma find_exact:
  assumes ok: "table_ok s" and len: "len \<le> length text"
  shows "\<exists>r. find_catalog_string s text len (catalog_string_hash text len) = Some r \<and>
    (case r of None \<Rightarrow> take len text \<notin> etext ` entries s
     | Some e \<Rightarrow> e \<in> entries s \<and> etext e = take len text)"
proof (cases "s = []")
  case True
  then show ?thesis by (simp add: find_catalog_string_def)
next
  case False
  let ?h = "catalog_string_hash text len"
  from ok False have "occupied s < length s" by (simp add: table_ok_def)
  then obtain D where D: "s ! probe s (unat ?h) D = None" "\<forall>d < D. s ! probe s (unat ?h) d \<noteq> None"
    by (rule probe_free)
  from D have stops: "s ! probe s (unat ?h) (0 + D) = None" "\<forall>i < D. s ! probe s (unat ?h) (0 + i) \<noteq> None"
    by simp_all
  from find_loop_stops [OF stops, of "text" len ?h, unfolded add_0] obtain r where
    r: "find_catalog_string s text len ?h = Some r"
    and res: "case r of None \<Rightarrow> \<forall>i < D. \<not> entry_matches text len ?h (the (s ! probe s (unat ?h) i))
       | Some e \<Rightarrow> entry_matches text len ?h e \<and> (\<exists>i < D. s ! probe s (unat ?h) i = Some e)"
    using False by (auto simp: find_catalog_string_def)
  have mem: "e \<in> entries s" if "s ! probe s (unat ?h) i = Some e" for e i
    using that False probe_less [OF False, of "unat ?h" i] unfolding entries_def
    by (metis (mono_tags) mem_Collect_eq nth_mem)
  show ?thesis
  proof (cases r)
    case (Some e)
    with res mem have "e \<in> entries s" "entry_matches text len ?h e" by auto
    with ok len have "etext e = take len text"
      using entry_matches_iff [of e len "text" ?h] by (auto simp: table_ok_def)
    with r Some \<open>e \<in> entries s\<close> show ?thesis by auto
  next
    case None
    have "take len text \<noteq> etext e" if e: "e \<in> entries s" for e
    proof
      assume eq: "take len text = etext e"
      from e ok have eok: "entry_ok e" "reached s e" by (auto simp: table_ok_def)
      with eq len have m: "entry_matches text len ?h e" using entry_matches_iff [of e len "text" ?h] by simp
      with reached_before_free [OF eok(2)] D(1) obtain d where "d < D" "s ! probe s (unat ?h) d = Some e"
        by auto
      with res None m show False by auto
    qed
    with None r show ?thesis by auto
  qed
qed

section \<open>Insertion and growth\<close>

lemma insert_loop_stops:
  assumes "s ! probe s h (d + n) = None" "\<forall>i < n. s ! probe s h (d + i) \<noteq> None"
  shows "insert_loop s e (probe s h d) = Some (s[probe s h (d + n) := Some e])"
  using assms
proof (induction n arbitrary: d)
  case 0
  then show ?case by (subst insert_loop.simps) simp
next
  case (Suc n)
  from Suc.prems(2) have "s ! probe s h d \<noteq> None" by fastforce
  then have "insert_loop s e (probe s h d) = insert_loop s e (probe s h (Suc d))"
    by (subst insert_loop.simps) (simp add: probe_Suc)
  also have "\<dots> = Some (s[probe s h (Suc d + n) := Some e])"
    using Suc.prems by (intro Suc.IH) (auto simp: add_Suc_shift [symmetric] simp del: add_Suc add_Suc_right)
  finally show ?case by simp
qed

lemma reached_update:
  assumes "reached s e" "s ! i = None" shows "reached (s[i := Some x]) e"
  using assms unfolding reached_def
  by (metis list_update_beyond not_le_imp_less nth_list_update option.distinct(1) probe_update)

lemma insert_exact:
  assumes ok: "table_ok s" and room: "occupied s + 1 < length s"
    and e: "entry_ok e" "etext e \<notin> etext ` entries s"
  shows "\<exists>s'. insert_catalog_string_entry s e = Some s' \<and> table_ok s' \<and> length s' = length s \<and>
    entries s' = insert e (entries s) \<and> (\<forall>f. slot_sum f s' = slot_sum f s + f e)"
proof -
  from room have ne: "s \<noteq> []" by auto
  from room have "occupied s < length s" by simp
  then obtain D where D: "s ! probe s (unat (hash e)) D = None"
    "\<forall>d < D. s ! probe s (unat (hash e)) d \<noteq> None" by (rule probe_free)
  let ?i = "probe s (unat (hash e)) D" and ?s = "s[probe s (unat (hash e)) D := Some e]"
  from D have "s ! probe s (unat (hash e)) (0 + D) = None"
    "\<forall>i < D. s ! probe s (unat (hash e)) (0 + i) \<noteq> None" by simp_all
  from insert_loop_stops [OF this, of e] have ins: "insert_catalog_string_entry s e = Some ?s"
    by (simp add: insert_catalog_string_entry_def)
  from ne have i: "?i < length s" by simp
  have "reached ?s e" unfolding reached_def
    using D i by (intro exI [of _ D]) (auto simp: nth_list_update)
  moreover have "reached ?s x" if "x \<in> entries s" for x
    using ok that D(1) by (auto simp: table_ok_def intro: reached_update)
  moreover have e_new: "e \<notin> entries s" using e(2) by auto
  ultimately have "table_ok ?s"
    using ok e i D(1) room e_new slot_sum_update [OF i D(1), of "\<lambda>_. 1" e] entries_update [OF i D(1), of e]
    by (auto simp: table_ok_def)
  with ins show ?thesis
    using slot_sum_update [OF i D(1)] entries_update [OF i D(1)] by auto
qed

lemma load_limit_eq: "catalog_string_pool_load_limit capacity = 7 * capacity div 10"
proof -
  have "7 * capacity div 10 = 7 * (10 * (capacity div 10) + capacity mod 10) div 10" by simp
  also have "\<dots> = (7 * (capacity mod 10) + 10 * (7 * (capacity div 10))) div 10"
    by (simp only: distrib_left ac_simps)
  also have "\<dots> = 7 * (capacity div 10) + 7 * (capacity mod 10) div 10" by simp
  finally show ?thesis by (simp add: catalog_string_pool_load_limit_def mult.commute)
qed

lemma load_limit_less: "0 < capacity \<Longrightarrow> catalog_string_pool_load_limit capacity < capacity"
  unfolding load_limit_eq by linarith

lemma load_limit_le: "catalog_string_pool_load_limit capacity \<le> capacity"
  unfolding load_limit_eq by linarith

lemma load_limit_double:
  "0 < capacity \<Longrightarrow> catalog_string_pool_load_limit capacity < catalog_string_pool_load_limit (capacity * 2)"
  unfolding load_limit_eq by (cases "capacity = 1") (simp, linarith)

lemma rehash_exact:
  assumes "table_ok new" "occupied new + occupied old < length new"
    and "\<forall>e \<in> entries old. entry_ok e" "inj_on etext (entries old \<union> entries new)"
    and "card (entries old) = occupied old" "entries old \<inter> entries new = {}"
  shows "\<exists>s'. rehash_loop old new = Some s' \<and> table_ok s' \<and> length s' = length new \<and>
    entries s' = entries old \<union> entries new \<and> (\<forall>f. slot_sum f s' = slot_sum f old + slot_sum f new)"
  using assms
proof (induction old new rule: rehash_loop.induct)
  case (3 e old new)
  have "etext e \<notin> etext ` entries new"
  proof
    assume "etext e \<in> etext ` entries new"
    then obtain x where "x \<in> entries new" "etext e = etext x" by auto
    with "3.prems"(4,6) show False by (auto simp: inj_on_def)
  qed
  with insert_exact [of new e] "3.prems" obtain new' where
    new': "insert_catalog_string_entry new e = Some new'" "table_ok new'" "length new' = length new"
    "entries new' = insert e (entries new)" "\<forall>f. slot_sum f new' = slot_sum f new + f e"
    by auto
  from "3.prems"(5) card_entries_le [of old] have "e \<notin> entries old" "card (entries old) = occupied old"
    by (auto simp: card_insert_if split: if_splits)
  then have "\<exists>s'. rehash_loop old new' = Some s' \<and> table_ok s' \<and> length s' = length new' \<and>
    entries s' = entries old \<union> entries new' \<and> (\<forall>f. slot_sum f s' = slot_sum f old + slot_sum f new')"
    using "3.prems" new' by (intro "3.IH" [OF new'(1)]) (auto simp: inj_on_def)
  with new' show ?case by auto
qed (auto simp: table_ok_def)

end
