(* ===== verification/String_Pool.thy ===== *)
theory String_Pool
  imports String_Table
begin

text \<open>
  The catalog string pool, \<^verbatim>\<open>runtime/mylite_catalog_string_pool.c\<close>: generations of
  interned strings, references that pin a generation, and the accounting of counts and bytes.
  Generations and entries carry the address they were allocated at; a reference is the address
  of its generation, and the text pointer handed out is the address of its entry. The pool
  pointer itself is never null here: with a null pool every operation returns at once.
\<close>

section \<open>State\<close>

record generation =
  gaddress :: nat
  gslots :: slots
  generation_id :: u64
  gcount :: nat
  capacity :: nat
  gbyte_count :: nat
  reference_count :: nat

record string_pool =
  generations :: "generation list"
  current_generation :: "nat option"
  current_generation_id :: u64
  pcount :: nat
  pbyte_count :: nat
  generation_count :: nat
  has_current_generation :: bool

text \<open>
  The memory: the answers of the allocator, and the next address never handed out yet. Freed
  addresses are not handed out again, so that a pointer kept too long could not come to denote
  another string; none is kept, as the invariant shows.
\<close>

record pool_heap =
  answers :: allocator
  fresh :: nat

definition allocate :: "pool_heap \<Rightarrow> nat option \<times> pool_heap" where
  "allocate H =
     (let (ok, rest) = next_alloc (answers H)
      in if ok then (Some (fresh H), H\<lparr>answers := rest, fresh := fresh H + 1\<rparr>)
         else (None, H\<lparr>answers := rest\<rparr>))"

abbreviation (input) sizeof_entry :: nat where "sizeof_entry \<equiv> 16"
abbreviation (input) sizeof_generation :: nat where "sizeof_generation \<equiv> 56"
abbreviation (input) sizeof_pointer :: nat where "sizeof_pointer \<equiv> 8"

definition mylite_catalog_string_pool_init :: string_pool where
  "mylite_catalog_string_pool_init =
     \<lparr>generations = [], current_generation = None, current_generation_id = 0, pcount = 0,
      pbyte_count = 0, generation_count = 0, has_current_generation = False\<rparr>"

definition mylite_catalog_string_pool_deinit :: "string_pool \<Rightarrow> string_pool" where
  "mylite_catalog_string_pool_deinit pool = mylite_catalog_string_pool_init"

section \<open>Generations\<close>

definition find_generation :: "string_pool \<Rightarrow> u64 \<Rightarrow> generation option" where
  "find_generation pool gid = List.find (\<lambda>g. generation_id g = gid) (generations pool)"

text \<open>The generation a pointer points to; \<open>None\<close> for memory that has been freed.\<close>

definition generation_at :: "string_pool \<Rightarrow> nat \<Rightarrow> generation option" where
  "generation_at pool a = List.find (\<lambda>g. gaddress g = a) (generations pool)"

definition put_generation :: "generation \<Rightarrow> string_pool \<Rightarrow> string_pool" where
  "put_generation g pool = pool\<lparr>generations :=
     map (\<lambda>x. if gaddress x = gaddress g then g else x) (generations pool)\<rparr>"

fun unlink :: "nat \<Rightarrow> generation list \<Rightarrow> generation list" where
  "unlink a [] = []"
| "unlink a (g # gs) = (if gaddress g = a then gs else g # unlink a gs)"

definition remove_generation :: "string_pool \<Rightarrow> nat \<Rightarrow> string_pool" where
  "remove_generation pool a =
     (case generation_at pool a of
        None \<Rightarrow> pool
      | Some g \<Rightarrow> pool\<lparr>generations := unlink a (generations pool),
          pcount := pcount pool - gcount g, pbyte_count := pbyte_count pool - gbyte_count g,
          generation_count := generation_count pool - 1\<rparr>)"

fun collect_loop :: "generation list \<Rightarrow> string_pool \<Rightarrow> string_pool" where
  "collect_loop [] pool = pool"
| "collect_loop (g # rest) pool =
     collect_loop rest
       (if Some (gaddress g) \<noteq> current_generation pool \<and> reference_count g = 0
        then remove_generation pool (gaddress g) else pool)"

definition collect_retired_generations :: "string_pool \<Rightarrow> string_pool" where
  "collect_retired_generations pool = collect_loop (generations pool) pool"

definition mylite_catalog_string_pool_set_generation :: "string_pool \<Rightarrow> u64 \<Rightarrow> string_pool" where
  "mylite_catalog_string_pool_set_generation pool gid =
     (if has_current_generation pool \<and> current_generation_id pool = gid then pool
      else collect_retired_generations
        (pool\<lparr>current_generation := map_option gaddress (find_generation pool gid),
          current_generation_id := gid, has_current_generation := True\<rparr>))"

definition ensure_current_generation :: "pool_heap \<Rightarrow> string_pool \<Rightarrow> int \<times> pool_heap \<times> string_pool" where
  "ensure_current_generation H pool =
     (if current_generation pool \<noteq> None then (MYLITE_OK, H, pool)
      else (case allocate H of
              (None, H) \<Rightarrow> (MYLITE_NOMEM, H, pool)
            | (Some a, H) \<Rightarrow>
              if sizeof_generation > SIZE_MAX - pbyte_count pool then (MYLITE_NOMEM, H, pool)
              else (MYLITE_OK, H, pool\<lparr>
                generations := \<lparr>gaddress = a, gslots = [], generation_id = current_generation_id pool,
                  gcount = 0, capacity = 0, gbyte_count = sizeof_generation, reference_count = 0\<rparr>
                  # generations pool,
                current_generation := Some a,
                pbyte_count := pbyte_count pool + sizeof_generation,
                generation_count := generation_count pool + 1\<rparr>)))"

section \<open>Interning\<close>

text \<open>
  Growing the table of a generation. \<open>None\<close> is a rehash that does not end; the generation is
  returned updated and written back to the pool.
\<close>

definition reserve_catalog_string_pool ::
    "pool_heap \<Rightarrow> string_pool \<Rightarrow> generation \<Rightarrow> nat \<Rightarrow> (int \<times> pool_heap \<times> string_pool \<times> generation) option" where
  "reserve_catalog_string_pool H pool g required_count =
     (let old_bytes = capacity g * sizeof_pointer
      in if required_count \<le> catalog_string_pool_load_limit (capacity g) then Some (MYLITE_OK, H, pool, g)
         else (let cap = (if capacity g = 0 then 64 else (capacity g * 2) mod (SIZE_MAX + 1))
               in if cap < capacity g \<or> cap > SIZE_MAX div sizeof_pointer then Some (MYLITE_NOMEM, H, pool, g)
                  else (let new_bytes = cap * sizeof_pointer
                        in if new_bytes - old_bytes > SIZE_MAX - gbyte_count g \<or>
                              new_bytes - old_bytes > SIZE_MAX - pbyte_count pool
                           then Some (MYLITE_NOMEM, H, pool, g)
                           else (case allocate H of
                                   (None, H) \<Rightarrow> Some (MYLITE_NOMEM, H, pool, g)
                                 | (Some _, H) \<Rightarrow>
                                   (case rehash_loop (gslots g) (replicate cap None) of
                                      None \<Rightarrow> None
                                    | Some new_slots \<Rightarrow>
                                      (let g = g\<lparr>gslots := new_slots, capacity := cap,
                                             gbyte_count := gbyte_count g + (new_bytes - old_bytes)\<rparr>
                                       in Some (MYLITE_OK, H,
                                            (put_generation g pool)\<lparr>pbyte_count :=
                                              pbyte_count pool + (new_bytes - old_bytes)\<rparr>, g)))))))"

text \<open>The part of interning after the text was not found in the current generation.\<close>

definition intern_new_entry ::
    "pool_heap \<Rightarrow> string_pool \<Rightarrow> generation \<Rightarrow> bytes \<Rightarrow> nat \<Rightarrow> u64 \<Rightarrow>
      (int \<times> nat option \<times> pool_heap \<times> string_pool) option" where
  "intern_new_entry H pool g text len h =
     (if gcount g = SIZE_MAX \<or> pcount pool = SIZE_MAX then Some (MYLITE_NOMEM, None, H, pool)
      else (case reserve_catalog_string_pool H pool g (gcount g + 1) of
              None \<Rightarrow> None
            | Some (rc, H, pool, g) \<Rightarrow>
              if rc \<noteq> MYLITE_OK then Some (rc, None, H, pool)
              else if len = SIZE_MAX \<or> sizeof_entry > SIZE_MAX - len - 1 then Some (MYLITE_NOMEM, None, H, pool)
              else (let allocation_size = sizeof_entry + len + 1
                    in if allocation_size > SIZE_MAX - gbyte_count g \<or>
                          allocation_size > SIZE_MAX - pbyte_count pool
                       then Some (MYLITE_NOMEM, None, H, pool)
                       else (case allocate H of
                               (None, H) \<Rightarrow> Some (MYLITE_NOMEM, None, H, pool)
                             | (Some a, H) \<Rightarrow>
                               (case insert_catalog_string_entry (gslots g)
                                       \<lparr>entry_address = a, hash = h, elength = len, etext = take len text\<rparr> of
                                  None \<Rightarrow> None
                                | Some new_slots \<Rightarrow>
                                  Some (MYLITE_OK, Some a, H,
                                    (put_generation (g\<lparr>gslots := new_slots, gcount := gcount g + 1,
                                        gbyte_count := gbyte_count g + allocation_size\<rparr>) pool)
                                    \<lparr>pcount := pcount pool + 1,
                                     pbyte_count := pbyte_count pool + allocation_size\<rparr>))))))"

definition mylite_catalog_string_pool_intern_for_generation ::
    "pool_heap \<Rightarrow> string_pool \<Rightarrow> u64 \<Rightarrow> bytes option \<Rightarrow> nat \<Rightarrow> bool \<Rightarrow>
      (int \<times> nat option \<times> pool_heap \<times> string_pool) option" where
  "mylite_catalog_string_pool_intern_for_generation H pool gid text_pointer len out_given =
     (case text_pointer of
        None \<Rightarrow> Some (MYLITE_MISUSE, None, H, pool)
      | Some text \<Rightarrow>
        if \<not> out_given then Some (MYLITE_MISUSE, None, H, pool)
        else (let pool = mylite_catalog_string_pool_set_generation pool gid;
                  (rc, H, pool) = ensure_current_generation H pool
              in if rc \<noteq> MYLITE_OK then Some (rc, None, H, pool)
                 else (case Option.bind (current_generation pool) (generation_at pool) of
                         None \<Rightarrow> None
                       | Some g \<Rightarrow>
                         (let h = catalog_string_hash text len
                          in case find_catalog_string (gslots g) text len h of
                               None \<Rightarrow> None
                             | Some (Some e) \<Rightarrow> Some (MYLITE_OK, Some (entry_address e), H, pool)
                             | Some None \<Rightarrow> intern_new_entry H pool g text len h))))"

definition mylite_catalog_string_pool_intern ::
    "pool_heap \<Rightarrow> string_pool \<Rightarrow> bytes option \<Rightarrow> nat \<Rightarrow> bool \<Rightarrow>
      (int \<times> nat option \<times> pool_heap \<times> string_pool) option" where
  "mylite_catalog_string_pool_intern H pool text_pointer len out_given =
     (if text_pointer = None \<or> \<not> out_given then Some (MYLITE_MISUSE, None, H, pool)
      else (let pool = (if \<not> has_current_generation pool
                        then mylite_catalog_string_pool_set_generation pool 0 else pool)
            in mylite_catalog_string_pool_intern_for_generation H pool (current_generation_id pool)
                 text_pointer len out_given))"

text \<open>The argument is the string up to its terminating NUL, or a null pointer.\<close>

definition mylite_catalog_string_pool_intern_c_string ::
    "pool_heap \<Rightarrow> string_pool \<Rightarrow> bytes option \<Rightarrow> bool \<Rightarrow>
      (int \<times> nat option \<times> pool_heap \<times> string_pool) option" where
  "mylite_catalog_string_pool_intern_c_string H pool text_pointer out_given =
     (let text = (case text_pointer of None \<Rightarrow> [] | Some text \<Rightarrow> text)
      in mylite_catalog_string_pool_intern H pool (Some text) (length text) out_given)"

section \<open>References\<close>

definition mylite_catalog_string_pool_reference_acquire ::
    "string_pool \<Rightarrow> u64 \<Rightarrow> bool \<Rightarrow> int \<times> nat option \<times> string_pool" where
  "mylite_catalog_string_pool_reference_acquire pool gid out_given =
     (if \<not> out_given then (MYLITE_MISUSE, None, pool)
      else (case find_generation pool gid of
              None \<Rightarrow> (MYLITE_MISUSE, None, pool)
            | Some g \<Rightarrow>
              if reference_count g = SIZE_MAX then (MYLITE_NOMEM, None, pool)
              else (MYLITE_OK, Some (gaddress g),
                    put_generation (g\<lparr>reference_count := reference_count g + 1\<rparr>) pool)))"

text \<open>
  Releasing a reference reads its generation; \<open>None\<close> is a read of freed memory. A reference
  that was never acquired or already released does nothing.
\<close>

definition mylite_catalog_string_pool_reference_release :: "string_pool \<Rightarrow> nat option \<Rightarrow> string_pool option" where
  "mylite_catalog_string_pool_reference_release pool reference =
     (case reference of
        None \<Rightarrow> Some pool
      | Some a \<Rightarrow>
        (case generation_at pool a of
           None \<Rightarrow> None
         | Some g \<Rightarrow>
           if reference_count g = 0 then Some pool
           else (let g = g\<lparr>reference_count := reference_count g - 1\<rparr>;
                     pool = put_generation g pool
                 in Some (if reference_count g = 0 \<and> current_generation pool \<noteq> Some a
                      then remove_generation pool a else pool))))"

definition mylite_catalog_string_pool_byte_count :: "string_pool \<Rightarrow> nat" where
  "mylite_catalog_string_pool_byte_count pool = pbyte_count pool"

definition mylite_catalog_string_pool_generation_count :: "string_pool \<Rightarrow> nat" where
  "mylite_catalog_string_pool_generation_count pool = generation_count pool"

section \<open>The invariant\<close>

abbreviation (input) entry_bytes :: "pool_entry \<Rightarrow> nat" where
  "entry_bytes e \<equiv> sizeof_entry + elength e + 1"

definition generation_ok :: "nat \<Rightarrow> generation \<Rightarrow> bool" where
  "generation_ok bound g \<longleftrightarrow>
     capacity g = length (gslots g) \<and> table_ok (gslots g) \<and>
     gcount g = occupied (gslots g) \<and> gcount g \<le> catalog_string_pool_load_limit (capacity g) \<and>
     gbyte_count g = sizeof_generation + sizeof_pointer * capacity g + slot_sum entry_bytes (gslots g) \<and>
     inj_on entry_address (entries (gslots g)) \<and>
     (\<forall>e \<in> entries (gslots g). entry_address e < bound) \<and> gaddress g < bound"

definition accounts_ok :: "pool_heap \<Rightarrow> string_pool \<Rightarrow> nat list \<Rightarrow> bool" where
  "accounts_ok H pool refs \<longleftrightarrow>
     (\<forall>g \<in> set (generations pool). generation_ok (fresh H) g \<and>
        reference_count g = count_list refs (gaddress g)) \<and>
     distinct (map gaddress (generations pool)) \<and> distinct (map generation_id (generations pool)) \<and>
     pcount pool = sum_list (map gcount (generations pool)) \<and>
     pbyte_count pool = sum_list (map gbyte_count (generations pool)) \<and> pbyte_count pool \<le> SIZE_MAX \<and>
     generation_count pool = length (generations pool) \<and>
     (\<forall>a. current_generation pool = Some a \<longleftrightarrow> has_current_generation pool \<and>
        (\<exists>g \<in> set (generations pool). gaddress g = a \<and> generation_id g = current_generation_id pool)) \<and>
     (\<not> has_current_generation pool \<longrightarrow> generations pool = []) \<and>
     set refs \<subseteq> gaddress ` set (generations pool)"

text \<open>No generation is kept that is neither current nor referenced.\<close>

definition no_garbage :: "string_pool \<Rightarrow> nat list \<Rightarrow> bool" where
  "no_garbage pool refs \<longleftrightarrow> (\<forall>g \<in> set (generations pool).
     current_generation pool = Some (gaddress g) \<or> gaddress g \<in> set refs)"

definition pool_ok :: "pool_heap \<Rightarrow> string_pool \<Rightarrow> nat list \<Rightarrow> bool" where
  "pool_ok H pool refs \<longleftrightarrow> accounts_ok H pool refs \<and> no_garbage pool refs"

text \<open>The entry is stored in the generation with this address and identifier.\<close>

definition stored :: "string_pool \<Rightarrow> nat \<Rightarrow> u64 \<Rightarrow> pool_entry \<Rightarrow> bool" where
  "stored pool a gid e \<longleftrightarrow> (\<exists>g \<in> set (generations pool).
     gaddress g = a \<and> generation_id g = gid \<and> e \<in> entries (gslots g))"

section \<open>Generations by address and by identifier\<close>

lemma find_key_Some:
  "distinct (map f xs) \<Longrightarrow> List.find (\<lambda>x. f x = k) xs = Some x \<longleftrightarrow> x \<in> set xs \<and> f x = k"
  by (induction xs) (auto simp: image_iff)

lemma find_key_None: "List.find (\<lambda>x. f x = k) xs = None \<longleftrightarrow> k \<notin> f ` set xs"
  by (induction xs) auto

lemma generation_at_iff:
  "accounts_ok H pool refs \<Longrightarrow>
    generation_at pool a = Some g \<longleftrightarrow> g \<in> set (generations pool) \<and> gaddress g = a"
  by (simp add: accounts_ok_def generation_at_def find_key_Some)

lemma find_generation_iff:
  "accounts_ok H pool refs \<Longrightarrow>
    find_generation pool gid = Some g \<longleftrightarrow> g \<in> set (generations pool) \<and> generation_id g = gid"
  by (simp add: accounts_ok_def find_generation_def find_key_Some)

lemma generation_ok_mono: "generation_ok n g \<Longrightarrow> n \<le> m \<Longrightarrow> generation_ok m g"
  by (force simp: generation_ok_def)

lemma generation_unique:
  "accounts_ok H pool refs \<Longrightarrow> g \<in> set (generations pool) \<Longrightarrow> g' \<in> set (generations pool) \<Longrightarrow>
    gaddress g = gaddress g' \<or> generation_id g = generation_id g' \<Longrightarrow> g = g'"
  by (auto simp: accounts_ok_def distinct_map inj_on_def)

lemma put_split:
  assumes "generations pool = xs @ g # ys" "distinct (map gaddress (generations pool))" "gaddress g' = gaddress g"
  shows "generations (put_generation g' pool) = xs @ g' # ys"
  using assms by (auto simp: put_generation_def image_iff intro!: map_idI)

lemma unlink_split:
  assumes "gs = xs @ g # ys" "distinct (map gaddress gs)" shows "unlink (gaddress g) gs = xs @ ys"
  using assms by (induction xs arbitrary: gs) auto

text \<open>Writing one generation back, with the totals adjusted by the difference.\<close>

lemma pool_put_ok:
  assumes ok: "accounts_ok H pool refs" and g: "g \<in> set (generations pool)"
    and g': "gaddress g' = gaddress g" "generation_id g' = generation_id g" "generation_ok (fresh H') g'"
      "reference_count g' = count_list refs' (gaddress g)"
    and H: "fresh H \<le> fresh H'"
    and totals: "c + gcount g = pcount pool + gcount g'" "b + gbyte_count g = pbyte_count pool + gbyte_count g'"
      "b \<le> SIZE_MAX"
    and refs: "\<And>a. a \<noteq> gaddress g \<Longrightarrow> count_list refs' a = count_list refs a"
      "set refs' \<subseteq> insert (gaddress g) (set refs)"
  shows "accounts_ok H' ((put_generation g' pool)\<lparr>pcount := c, pbyte_count := b\<rparr>) refs'"
proof -
  from g obtain xs ys where split: "generations pool = xs @ g # ys" by (auto dest: split_list)
  have gens: "generations (put_generation g' pool) = xs @ g' # ys"
    using put_split [OF split] ok g'(1) by (simp add: accounts_ok_def)
  have [simp]: "pcount (put_generation g' pool) = pcount pool"
    "generation_count (put_generation g' pool) = generation_count pool"
    "current_generation (put_generation g' pool) = current_generation pool"
    "current_generation_id (put_generation g' pool) = current_generation_id pool"
    "has_current_generation (put_generation g' pool) = has_current_generation pool"
    by (simp_all add: put_generation_def)
  have others: "generation_ok (fresh H') x \<and> reference_count x = count_list refs' (gaddress x)"
    if "x \<in> set (xs @ ys)" for x
  proof -
    from that split ok have "gaddress x \<noteq> gaddress g" by (auto simp: accounts_ok_def image_iff)
    then show ?thesis using that split ok refs(1) H
      by (auto simp: accounts_ok_def intro: generation_ok_mono)
  qed
  from ok split g'(1,2) totals refs(2) others g'(3,4) show ?thesis
    unfolding accounts_ok_def by (auto simp: gens)
qed

text \<open>Removing a generation that is neither current nor referenced.\<close>

lemma pool_remove_ok:
  assumes ok: "accounts_ok H pool refs" and g: "g \<in> set (generations pool)"
    and unused: "current_generation pool \<noteq> Some (gaddress g)" "gaddress g \<notin> set refs"
  shows "accounts_ok H (remove_generation pool (gaddress g)) refs"
    and "set (generations (remove_generation pool (gaddress g))) = set (generations pool) - {g}"
    and "current_generation (remove_generation pool (gaddress g)) = current_generation pool"
    and "current_generation_id (remove_generation pool (gaddress g)) = current_generation_id pool"
    and "has_current_generation (remove_generation pool (gaddress g)) = has_current_generation pool"
proof -
  from g obtain xs ys where split: "generations pool = xs @ g # ys" by (auto dest: split_list)
  from ok have d: "distinct (map gaddress (generations pool))" by (simp add: accounts_ok_def)
  have rem: "remove_generation pool (gaddress g) = pool\<lparr>generations := xs @ ys,
      pcount := pcount pool - gcount g, pbyte_count := pbyte_count pool - gbyte_count g,
      generation_count := generation_count pool - 1\<rparr>"
  proof -
    have "generation_at pool (gaddress g) = Some g" using g generation_at_iff [OF ok] by simp
    then show ?thesis by (simp add: remove_generation_def unlink_split [OF split d])
  qed
  from ok split unused show "accounts_ok H (remove_generation pool (gaddress g)) refs"
    unfolding rem accounts_ok_def by (auto simp: image_iff)
  from d split show "set (generations (remove_generation pool (gaddress g))) = set (generations pool) - {g}"
    unfolding rem by auto
qed (simp_all add: remove_generation_def split: option.splits)

lemma pool_collect_ok:
  assumes "accounts_ok H pool refs" "set gs \<subseteq> set (generations pool)" "distinct gs"
  shows "accounts_ok H (collect_loop gs pool) refs \<and>
    set (generations (collect_loop gs pool)) = set (generations pool) -
      {g \<in> set gs. current_generation pool \<noteq> Some (gaddress g) \<and> reference_count g = 0} \<and>
    current_generation (collect_loop gs pool) = current_generation pool \<and>
    current_generation_id (collect_loop gs pool) = current_generation_id pool \<and>
    has_current_generation (collect_loop gs pool) = has_current_generation pool"
  using assms
proof (induction gs arbitrary: pool)
  case (Cons g gs)
  show ?case
  proof (cases "Some (gaddress g) \<noteq> current_generation pool \<and> reference_count g = 0")
    case True
    let ?p = "remove_generation pool (gaddress g)"
    from Cons.prems have g: "g \<in> set (generations pool)" by simp
    with Cons.prems(1) True have "gaddress g \<notin> set refs"
      by (auto simp: accounts_ok_def count_list_0_iff)
    with True have "current_generation pool \<noteq> Some (gaddress g)" "gaddress g \<notin> set refs" by auto
    note r = pool_remove_ok [OF Cons.prems(1) g this]
    have "set gs \<subseteq> set (generations ?p)" using Cons.prems r(2) by auto
    have "distinct gs" "g \<notin> set gs" using Cons.prems(3) by auto
    have step: "collect_loop (g # gs) pool = collect_loop gs ?p" using True by simp
    note ih = Cons.IH [OF r(1) \<open>set gs \<subseteq> set (generations ?p)\<close> \<open>distinct gs\<close>]
    have "set (generations (collect_loop gs ?p)) = (set (generations pool) - {g}) -
      {x \<in> set gs. current_generation pool \<noteq> Some (gaddress x) \<and> reference_count x = 0}"
      using ih [THEN conjunct2, THEN conjunct1] by (simp only: r(2,3))
    also have "\<dots> = set (generations pool) -
      {x \<in> set (g # gs). current_generation pool \<noteq> Some (gaddress x) \<and> reference_count x = 0}"
      using True by (intro set_eqI iffI; elim DiffE; intro DiffI; clarsimp; metis)
    finally have "set (generations (collect_loop gs ?p)) = set (generations pool) -
      {x \<in> set (g # gs). current_generation pool \<noteq> Some (gaddress x) \<and> reference_count x = 0}" .
    then show ?thesis unfolding step using ih r(3-5) by simp
  next
    case False
    then have step: "collect_loop (g # gs) pool = collect_loop gs pool" by auto
    have "set gs \<subseteq> set (generations pool)" "distinct gs" using Cons.prems by auto
    note ih = Cons.IH [OF Cons.prems(1) this]
    have "set (generations (collect_loop gs pool)) = set (generations pool) -
      {x \<in> set (g # gs). current_generation pool \<noteq> Some (gaddress x) \<and> reference_count x = 0}"
      using ih False by auto
    then show ?thesis unfolding step using ih by simp
  qed
qed simp

section \<open>Operations preserve the invariant\<close>

lemma set_generation_ok:
  assumes "pool_ok H pool refs"
  shows "pool_ok H (mylite_catalog_string_pool_set_generation pool gid) refs"
    and "current_generation_id (mylite_catalog_string_pool_set_generation pool gid) = gid"
    and "has_current_generation (mylite_catalog_string_pool_set_generation pool gid)"
    and "stored pool a i e \<Longrightarrow> a \<in> set refs \<or> i = gid \<Longrightarrow>
      stored (mylite_catalog_string_pool_set_generation pool gid) a i e"
    and "set (generations (mylite_catalog_string_pool_set_generation pool gid)) \<subseteq> set (generations pool)"
proof -
  let ?q = "pool\<lparr>current_generation := map_option gaddress (find_generation pool gid),
    current_generation_id := gid, has_current_generation := True\<rparr>"
  let ?new = "mylite_catalog_string_pool_set_generation pool gid"
  from assms have acc: "accounts_ok H pool refs" and ng: "no_garbage pool refs"
    by (simp_all add: pool_ok_def)
  have cur: "map_option gaddress (find_generation pool gid) = Some a \<longleftrightarrow>
      (\<exists>g \<in> set (generations pool). gaddress g = a \<and> generation_id g = gid)" for a
    using find_generation_iff [OF acc, of gid] by (auto simp: map_option_eq_Some)
  have acc': "accounts_ok H ?q refs" using acc cur by (simp add: accounts_ok_def)
  have "distinct (generations ?q)" using acc by (simp add: accounts_ok_def distinct_map)
  note col = pool_collect_ok [OF acc' _ this, simplified]
  have all: "pool_ok H ?new refs \<and> current_generation_id ?new = gid \<and> has_current_generation ?new \<and>
    set (generations ?new) \<subseteq> set (generations pool) \<and>
    (\<forall>g \<in> set (generations pool). gaddress g \<in> set refs \<or> generation_id g = gid \<longrightarrow> g \<in> set (generations ?new))"
  proof (cases "has_current_generation pool \<and> current_generation_id pool = gid")
    case True
    with assms show ?thesis by (simp add: mylite_catalog_string_pool_set_generation_def)
  next
    case False
    then have new: "?new = collect_loop (generations pool) ?q"
      by (auto simp: mylite_catalog_string_pool_set_generation_def collect_retired_generations_def)
    have rc: "reference_count g = 0 \<longleftrightarrow> gaddress g \<notin> set refs" if "g \<in> set (generations pool)" for g
      using acc that by (simp add: accounts_ok_def count_list_0_iff)
    have ng': "no_garbage ?new refs"
      unfolding no_garbage_def new using col rc by auto
    have keep: "g \<in> set (generations ?new)"
      if "g \<in> set (generations pool)" "gaddress g \<in> set refs \<or> generation_id g = gid" for g
      using that rc [OF that(1)] cur [of "gaddress g"] unfolding new by (auto simp: col)
    show ?thesis using col ng' keep unfolding new pool_ok_def by auto
  qed
  then show "pool_ok H ?new refs" "current_generation_id ?new = gid" "has_current_generation ?new"
    "set (generations ?new) \<subseteq> set (generations pool)" by simp_all
  show "stored ?new a i e" if "stored pool a i e" "a \<in> set refs \<or> i = gid"
    using that all by (auto simp: stored_def)
qed

lemma allocate_fresh: "allocate H = (r, H') \<Longrightarrow> fresh H \<le> fresh H' \<and> (\<forall>a. r = Some a \<longrightarrow> a = fresh H \<and> fresh H < fresh H')"
  by (auto simp: allocate_def Let_def split: prod.splits if_splits)

lemma accounts_ok_heap: "accounts_ok H pool refs \<Longrightarrow> fresh H \<le> fresh H' \<Longrightarrow> accounts_ok H' pool refs"
  by (auto simp: accounts_ok_def intro: generation_ok_mono)

lemma pool_ok_heap: "pool_ok H pool refs \<Longrightarrow> fresh H \<le> fresh H' \<Longrightarrow> pool_ok H' pool refs"
  by (auto simp: pool_ok_def intro: accounts_ok_heap)

lemma pool_ensure_ok:
  assumes ok: "pool_ok H pool refs" and cur: "has_current_generation pool"
    and ens: "ensure_current_generation H pool = (rc, H', pool')"
  shows "pool_ok H' pool' refs" and "rc = MYLITE_OK \<or> rc = MYLITE_NOMEM \<and> pool' = pool"
    and "rc = MYLITE_OK \<Longrightarrow> current_generation pool' \<noteq> None"
    and "current_generation_id pool' = current_generation_id pool" "has_current_generation pool'"
    and "stored pool' b i e \<longleftrightarrow> stored pool b i e"
proof -
  consider (there) "current_generation pool \<noteq> None" "rc = MYLITE_OK" "H' = H" "pool' = pool"
    | (fail) "rc = MYLITE_NOMEM" "pool' = pool" "fresh H \<le> fresh H'"
    | (new) a where "current_generation pool = None" "rc = MYLITE_OK" "a = fresh H" "fresh H < fresh H'"
        "sizeof_generation \<le> SIZE_MAX - pbyte_count pool"
        "pool' = pool\<lparr>
                generations := \<lparr>gaddress = a, gslots = [], generation_id = current_generation_id pool,
                  gcount = 0, capacity = 0, gbyte_count = sizeof_generation, reference_count = 0\<rparr>
                  # generations pool,
                current_generation := Some a,
                pbyte_count := pbyte_count pool + sizeof_generation,
                generation_count := generation_count pool + 1\<rparr>"
  proof (cases "current_generation pool")
    case Some
    with ens show thesis by (intro there) (simp_all add: ensure_current_generation_def)
  next
    case None
    obtain r H1 where r: "allocate H = (r, H1)" by (cases "allocate H")
    show thesis
    proof (cases "r = None \<or> sizeof_generation > SIZE_MAX - pbyte_count pool")
      case True
      then have "ensure_current_generation H pool = (MYLITE_NOMEM, H1, pool)"
        using None r by (cases r) (simp_all add: ensure_current_generation_def)
      with ens have "rc = MYLITE_NOMEM" "H' = H1" "pool' = pool" by simp_all
      with allocate_fresh [OF r] show thesis by (intro fail) simp_all
    next
      case False
      then have some: "r = Some (fresh H)" "fresh H < fresh H1" using allocate_fresh [OF r] by auto
      then have "allocate H = (Some (fresh H), H1)" using r by simp
      note ens [unfolded ensure_current_generation_def this]
      with False None have "rc = MYLITE_OK" "H' = H1" "pool' = pool\<lparr>
                generations := \<lparr>gaddress = fresh H, gslots = [], generation_id = current_generation_id pool,
                  gcount = 0, capacity = 0, gbyte_count = sizeof_generation, reference_count = 0\<rparr>
                  # generations pool,
                current_generation := Some (fresh H),
                pbyte_count := pbyte_count pool + sizeof_generation,
                generation_count := generation_count pool + 1\<rparr>" by simp_all
      then show thesis using some(2) None False by (intro new [of "fresh H"]) simp_all
    qed
  qed
  then have "pool_ok H' pool' refs \<and> (rc = MYLITE_OK \<or> rc = MYLITE_NOMEM \<and> pool' = pool) \<and>
    (rc = MYLITE_OK \<longrightarrow> current_generation pool' \<noteq> None) \<and>
    current_generation_id pool' = current_generation_id pool \<and> has_current_generation pool' \<and>
    (stored pool' b i e \<longleftrightarrow> stored pool b i e)"
  proof cases
    case there
    with ok cur show ?thesis by auto
  next
    case fail
    with ok cur show ?thesis by (auto intro: pool_ok_heap)
  next
    case new
    from ok have acc: "accounts_ok H pool refs" by (simp add: pool_ok_def)
    have none: "generation_id g \<noteq> current_generation_id pool" if "g \<in> set (generations pool)" for g
      using acc new(1) cur that by (auto simp: accounts_ok_def)
    have below: "gaddress g < fresh H" if "g \<in> set (generations pool)" for g
      using acc that by (simp add: accounts_ok_def generation_ok_def)
    have "fresh H \<notin> set refs" using acc below by (fastforce simp: accounts_ok_def)
    then have refs0: "count_list refs (fresh H) = 0" by (simp add: count_list_0_iff)
    let ?g = "\<lparr>gaddress = fresh H, gslots = [], generation_id = current_generation_id pool,
                  gcount = 0, capacity = 0, gbyte_count = sizeof_generation, reference_count = 0\<rparr>"
    have g: "generation_ok (fresh H') ?g"
      using new(4) by (simp add: generation_ok_def table_ok_def catalog_string_pool_load_limit_def)
    have notin: "fresh H \<notin> gaddress ` set (generations pool)"
      "current_generation_id pool \<notin> generation_id ` set (generations pool)"
      using none below by fastforce+
    have only: "Some (fresh H) = Some a \<longleftrightarrow> (\<exists>g \<in> insert ?g (set (generations pool)).
        gaddress g = a \<and> generation_id g = current_generation_id pool)" for a
      using none by auto
    have acc': "accounts_ok H' pool refs" using accounts_ok_heap [OF acc, of H'] new(4) by simp
    have "accounts_ok H' pool' refs"
      unfolding accounts_ok_def new(6) new(3)
      using acc' [unfolded accounts_ok_def] g refs0 notin only cur new(5)
      by (simp add: subset_insertI2)
    moreover have "no_garbage pool' refs"
      using ok new by (auto simp: pool_ok_def no_garbage_def)
    moreover have "stored pool' b i e \<longleftrightarrow> stored pool b i e" using new by (auto simp: stored_def)
    ultimately show ?thesis using new cur by (simp add: pool_ok_def)
  qed
  then show "pool_ok H' pool' refs" "rc = MYLITE_OK \<or> rc = MYLITE_NOMEM \<and> pool' = pool"
    "rc = MYLITE_OK \<Longrightarrow> current_generation pool' \<noteq> None"
    "current_generation_id pool' = current_generation_id pool" "has_current_generation pool'"
    "stored pool' b i e \<longleftrightarrow> stored pool b i e" by auto
qed

lemma pool_put_simps [simp]:
  "pcount (put_generation g pool) = pcount pool"
  "pbyte_count (put_generation g pool) = pbyte_count pool"
  "generation_count (put_generation g pool) = generation_count pool"
  "current_generation (put_generation g pool) = current_generation pool"
  "current_generation_id (put_generation g pool) = current_generation_id pool"
  "has_current_generation (put_generation g pool) = has_current_generation pool"
  by (simp_all add: put_generation_def)

lemma pool_put_set:
  assumes ok: "accounts_ok H pool refs" and g: "g \<in> set (generations pool)" and a: "gaddress g' = gaddress g"
  shows "set (generations (put_generation g' pool)) = insert g' (set (generations pool) - {g})"
proof -
  from g obtain xs ys where split: "generations pool = xs @ g # ys" by (auto dest: split_list)
  from ok have d: "distinct (map gaddress (generations pool))" by (simp add: accounts_ok_def)
  with split have "g \<notin> set xs" "g \<notin> set ys" by auto
  then show ?thesis using put_split [OF split d a] split by auto
qed

lemma stored_at:
  assumes "accounts_ok H pool refs" "g \<in> set (generations pool)"
  shows "stored pool (gaddress g) i e \<longleftrightarrow> i = generation_id g \<and> e \<in> entries (gslots g)"
  using assms generation_unique [OF assms(1) _ assms(2)] unfolding stored_def by blast

lemma put_stored:
  assumes ok: "accounts_ok H pool refs" and g: "g \<in> set (generations pool)"
    and a: "gaddress g' = gaddress g" "generation_id g' = generation_id g"
  shows "stored ((put_generation g' pool)\<lparr>pcount := c, pbyte_count := b\<rparr>) a i e \<longleftrightarrow>
    (if a = gaddress g then i = generation_id g \<and> e \<in> entries (gslots g') else stored pool a i e)"
proof -
  have "x = g" if "x \<in> set (generations pool)" "gaddress x = gaddress g" for x
    using generation_unique [OF ok that(1) g] that(2) by simp
  then show ?thesis unfolding stored_def using pool_put_set [OF ok g a(1)] a g by auto
qed

lemma put_no_garbage:
  assumes "pool_ok H pool refs" "g \<in> set (generations pool)" "gaddress g' = gaddress g" "set refs \<subseteq> set refs'"
  shows "no_garbage ((put_generation g' pool)\<lparr>pcount := c, pbyte_count := b\<rparr>) refs'"
  using assms pool_put_set [of H pool refs g g'] by (auto simp: pool_ok_def no_garbage_def)

lemma generation_bytes_le:
  assumes "accounts_ok H pool refs" "g \<in> set (generations pool)"
  shows "gbyte_count g \<le> pbyte_count pool" "gcount g \<le> pcount pool"
    "pbyte_count pool \<le> SIZE_MAX" "8 * capacity g \<le> gbyte_count g" "gcount g \<le> capacity g"
proof -
  from assms show "gbyte_count g \<le> pbyte_count pool" "gcount g \<le> pcount pool" "pbyte_count pool \<le> SIZE_MAX"
    by (auto simp: accounts_ok_def intro: member_le_sum_list)
  from assms have "generation_ok (fresh H) g" by (simp add: accounts_ok_def)
  then show "8 * capacity g \<le> gbyte_count g" "gcount g \<le> capacity g"
    using load_limit_le [of "capacity g"] by (auto simp: generation_ok_def)
qed

text \<open>Growing the table of a generation keeps its entries and makes room for one more.\<close>

lemma pool_reserve_ok:
  assumes ok: "pool_ok H pool refs" and g: "g \<in> set (generations pool)"
  obtains rc H' pool' g' where
    "reserve_catalog_string_pool H pool g (gcount g + 1) = Some (rc, H', pool', g')"
    "pool_ok H' pool' refs" "fresh H \<le> fresh H'" "g' \<in> set (generations pool')"
    "gaddress g' = gaddress g" "generation_id g' = generation_id g" "gcount g' = gcount g"
    "reference_count g' = reference_count g" "entries (gslots g') = entries (gslots g)"
    "rc = MYLITE_OK \<and> gcount g' + 1 \<le> catalog_string_pool_load_limit (capacity g') \<or> rc = MYLITE_NOMEM"
    "\<And>a i e. stored pool' a i e \<longleftrightarrow> stored pool a i e" "pcount pool' = pcount pool"
    "current_generation pool' = current_generation pool"
    "current_generation_id pool' = current_generation_id pool"
proof -
  from ok have acc: "accounts_ok H pool refs" by (simp add: pool_ok_def)
  with g have gok: "generation_ok (fresh H) g" by (simp add: accounts_ok_def)
  define cap where "cap = (if capacity g = 0 then 64 else (capacity g * 2) mod (SIZE_MAX + 1))"
  define diff where "diff = cap * 8 - capacity g * 8"
  have cap_eq: "cap = (if capacity g = 0 then 64 else capacity g * 2)"
    using generation_bytes_le [OF acc g] by (auto simp: cap_def limit_simps)
  show thesis
  proof (cases "gcount g + 1 \<le> catalog_string_pool_load_limit (capacity g)")
    case True
    then show thesis using ok g by (intro that [of MYLITE_OK H pool g]) (auto simp: reserve_catalog_string_pool_def)
  next
    case grow: False
    obtain r H' where alloc: "allocate H = (r, H')" by (cases "allocate H")
    note H' = allocate_fresh [OF alloc]
    show thesis
    proof (cases "cap > SIZE_MAX div 8 \<or> diff > SIZE_MAX - gbyte_count g \<or> diff > SIZE_MAX - pbyte_count pool")
      case True
      then have "reserve_catalog_string_pool H pool g (gcount g + 1) = Some (MYLITE_NOMEM, H, pool, g)"
        unfolding reserve_catalog_string_pool_def cap_def [symmetric] Let_def diff_def using grow by auto
      with ok g show thesis by (intro that [of MYLITE_NOMEM H pool g]) auto
    next
      case fits: False
      have step: "reserve_catalog_string_pool H pool g (gcount g + 1) =
          (case r of None \<Rightarrow> Some (MYLITE_NOMEM, H', pool, g)
           | Some _ \<Rightarrow> (case rehash_loop (gslots g) (replicate cap None) of None \<Rightarrow> None
             | Some new_slots \<Rightarrow>
               (let g = g\<lparr>gslots := new_slots, capacity := cap, gbyte_count := gbyte_count g + diff\<rparr>
                in Some (MYLITE_OK, H', (put_generation g pool)\<lparr>pbyte_count := pbyte_count pool + diff\<rparr>, g))))"
        unfolding reserve_catalog_string_pool_def cap_def [symmetric] Let_def diff_def [symmetric] alloc
        using grow fits cap_eq by (auto simp: diff_def [symmetric] split: option.splits)
      show thesis
      proof (cases r)
        case None
        with step have "reserve_catalog_string_pool H pool g (gcount g + 1) = Some (MYLITE_NOMEM, H', pool, g)" by simp
        with ok g H' show thesis by (intro that [of MYLITE_NOMEM H' pool g]) (auto intro: pool_ok_heap)
      next
        case Some
        have limit: "gcount g + 1 \<le> catalog_string_pool_load_limit cap"
        proof (cases "capacity g = 0")
          case True
          with gok cap_eq show ?thesis by (simp add: generation_ok_def catalog_string_pool_load_limit_def)
        next
          case False
          with gok cap_eq load_limit_double [of "capacity g"] show ?thesis by (auto simp: generation_ok_def)
        qed
        with load_limit_less [of cap] have room: "gcount g < cap" by (cases "cap = 0") (auto simp: catalog_string_pool_load_limit_def)
        have tok: "table_ok (gslots g)" and cnt: "gcount g = occupied (gslots g)"
          using gok by (simp_all add: generation_ok_def)
        have "table_ok (replicate cap None)" using room by (auto simp: table_ok_def)
        from rehash_exact [OF this, of "gslots g"] tok cnt room obtain s' where
          s': "rehash_loop (gslots g) (replicate cap None) = Some s'" "table_ok s'" "length s' = cap"
          "entries s' = entries (gslots g)" "\<And>f. slot_sum f s' = slot_sum f (gslots g)"
          by (auto simp: table_ok_def)
        let ?g = "g\<lparr>gslots := s', capacity := cap, gbyte_count := gbyte_count g + diff\<rparr>"
        have "gbyte_count g + diff = 56 + 8 * cap + slot_sum entry_bytes (gslots g)"
          using gok cap_eq by (auto simp: generation_ok_def diff_def)
        then have gok': "generation_ok (fresh H') ?g"
          using generation_ok_mono [OF gok, of "fresh H'"] H' s' limit by (simp add: generation_ok_def)
        let ?p = "(put_generation ?g pool)\<lparr>pcount := pcount pool, pbyte_count := pbyte_count pool + diff\<rparr>"
        have acc': "accounts_ok H' ?p refs"
          using acc g fits H' by (intro pool_put_ok [OF acc g]) (auto simp: gok' accounts_ok_def)
        have ng': "no_garbage ?p refs" by (rule put_no_garbage [OF ok g]) simp_all
        have res: "reserve_catalog_string_pool H pool g (gcount g + 1) = Some (MYLITE_OK, H', ?p, ?g)"
          unfolding step using Some s'(1) by (simp add: Let_def put_generation_def)
        have stored: "stored ?p a i e \<longleftrightarrow> stored pool a i e" for a i e
          using put_stored [OF acc g, of ?g "pbyte_count pool + diff" "pcount pool" a i e] s'(4)
            stored_at [OF acc g] by simp
        have mem: "?g \<in> set (generations ?p)" using pool_put_set [OF acc g, of ?g] by simp
        show thesis
          by (rule that [OF res _ _ mem]) (use acc' ng' H' s' limit stored in \<open>simp_all add: pool_ok_def\<close>)
      qed
    qed
  qed
qed

lemma new_entry_ok:
  assumes ok: "pool_ok H pool refs" and g: "g \<in> set (generations pool)"
    and len: "len \<le> length text" and new: "take len text \<notin> etext ` entries (gslots g)"
  obtains rc out H' pool' where
    "intern_new_entry H pool g text len (catalog_string_hash text len) = Some (rc, out, H', pool')"
    "pool_ok H' pool' refs" "fresh H \<le> fresh H'"
    "current_generation pool' = current_generation pool"
    "current_generation_id pool' = current_generation_id pool"
    "rc = MYLITE_NOMEM \<and> out = None \<and> (\<forall>a i x. stored pool' a i x \<longleftrightarrow> stored pool a i x) \<or>
     rc = MYLITE_OK \<and> (\<exists>e. out = Some (entry_address e) \<and> etext e = take len text \<and>
       (\<forall>a i x. stored pool' a i x \<longleftrightarrow> stored pool a i x \<or> a = gaddress g \<and> i = generation_id g \<and> x = e))"
proof -
  let ?h = "catalog_string_hash text len"
  obtain rc H1 pool1 g1 where
    res: "reserve_catalog_string_pool H pool g (gcount g + 1) = Some (rc, H1, pool1, g1)"
    and ok1: "pool_ok H1 pool1 refs" and H1: "fresh H \<le> fresh H1" and g1: "g1 \<in> set (generations pool1)"
    and same: "gaddress g1 = gaddress g" "generation_id g1 = generation_id g"
      "entries (gslots g1) = entries (gslots g)"
    and rc: "rc = MYLITE_OK \<and> gcount g1 + 1 \<le> catalog_string_pool_load_limit (capacity g1) \<or> rc = MYLITE_NOMEM"
    and stored1: "\<And>a i e. stored pool1 a i e \<longleftrightarrow> stored pool a i e"
    and cur1: "current_generation pool1 = current_generation pool"
      "current_generation_id pool1 = current_generation_id pool"
    using pool_reserve_ok [OF ok g] by metis
  from ok1 have acc1: "accounts_ok H1 pool1 refs" by (simp add: pool_ok_def)
  with g1 have gok1: "generation_ok (fresh H1) g1" by (simp add: accounts_ok_def)
  obtain r H2 where alloc: "allocate H1 = (r, H2)" by (cases "allocate H1")
  note H2 = allocate_fresh [OF alloc]
  define n where "n = 16 + len + 1"
  note unfold = intern_new_entry_def res option.case prod.case alloc n_def [symmetric]
  consider (full) "gcount g = SIZE_MAX \<or> pcount pool = SIZE_MAX"
    | (nomem) "\<not> (gcount g = SIZE_MAX \<or> pcount pool = SIZE_MAX)"
        "rc \<noteq> MYLITE_OK \<or> len = SIZE_MAX \<or> 16 > SIZE_MAX - len - 1 \<or>
          n > SIZE_MAX - gbyte_count g1 \<or> n > SIZE_MAX - pbyte_count pool1"
    | (alloc) "\<not> (gcount g = SIZE_MAX \<or> pcount pool = SIZE_MAX)" "rc = MYLITE_OK"
        "\<not> (len = SIZE_MAX \<or> 16 > SIZE_MAX - len - 1)"
        "\<not> (n > SIZE_MAX - gbyte_count g1 \<or> n > SIZE_MAX - pbyte_count pool1)" by blast
  then show thesis
  proof cases
    case full
    then have "intern_new_entry H pool g text len ?h = Some (MYLITE_NOMEM, None, H, pool)"
      by (simp add: intern_new_entry_def)
    then show thesis using ok by (rule that) simp_all
  next
    case nomem
    then have "intern_new_entry H pool g text len ?h = Some (MYLITE_NOMEM, None, H1, pool1)"
      unfolding unfold Let_def using rc by (cases "rc = MYLITE_OK") auto
    then show thesis using ok1 H1 by (rule that) (simp_all add: cur1 stored1)
  next
    case fits: alloc
    show thesis
    proof (cases r)
      case None
      have "intern_new_entry H pool g text len ?h = Some (MYLITE_NOMEM, None, H2, pool1)"
        unfolding unfold Let_def using fits None by simp
      then show thesis using pool_ok_heap [OF ok1, of H2] H1 H2
        by (intro that [of MYLITE_NOMEM None H2 pool1]) (auto simp: cur1 stored1)
    next
      case (Some a)
      let ?e = "\<lparr>entry_address = a, hash = ?h, elength = len, etext = take len text\<rparr>"
      have e: "entry_ok ?e" using len by (simp add: entry_ok_def catalog_string_hash_def)
      from gok1 have tok: "table_ok (gslots g1)" and cnt: "gcount g1 = occupied (gslots g1)"
        and cap: "capacity g1 = length (gslots g1)" by (simp_all add: generation_ok_def)
      have limit: "gcount g1 + 1 \<le> catalog_string_pool_load_limit (capacity g1)" using rc fits(2) by simp
      then have "0 < capacity g1" by (cases "capacity g1 = 0") (auto simp: catalog_string_pool_load_limit_def)
      with limit load_limit_less [of "capacity g1"] cnt cap have "occupied (gslots g1) + 1 < length (gslots g1)"
        by simp
      from insert_exact [OF tok this e] new same(3) obtain s' where
        s': "insert_catalog_string_entry (gslots g1) ?e = Some s'" "table_ok s'" "length s' = length (gslots g1)"
        "entries s' = insert ?e (entries (gslots g1))" "\<And>f. slot_sum f s' = slot_sum f (gslots g1) + f ?e"
        by auto
      let ?g = "g1\<lparr>gslots := s', gcount := gcount g1 + 1, gbyte_count := gbyte_count g1 + n\<rparr>"
      let ?p = "(put_generation ?g pool1)\<lparr>pcount := pcount pool1 + 1, pbyte_count := pbyte_count pool1 + n\<rparr>"
      have int: "intern_new_entry H pool g text len ?h = Some (MYLITE_OK, Some a, H2, ?p)"
        unfolding unfold Let_def using fits Some s'(1) by simp
      have a: "a = fresh H1" "fresh H1 < fresh H2" using H2 Some by auto
      have "inj_on entry_address (entries s')"
        using gok1 a by (auto simp: s'(4) generation_ok_def)
      moreover have "\<forall>x \<in> entries s'. entry_address x < fresh H2"
        using gok1 a by (fastforce simp: s'(4) generation_ok_def)
      ultimately have gok': "generation_ok (fresh H2) ?g"
        using gok1 a s' limit by (simp add: generation_ok_def n_def)
      have acc': "accounts_ok H2 ?p refs"
        using gok' acc1 g1 fits(4) a by (intro pool_put_ok [OF acc1 g1]) (auto simp: accounts_ok_def)
      have ng': "no_garbage ?p refs" by (rule put_no_garbage [OF ok1 g1]) simp_all
      have stored': "stored ?p b i x \<longleftrightarrow> stored pool b i x \<or> b = gaddress g \<and> i = generation_id g \<and> x = ?e" for b i x
        using put_stored [OF acc1 g1, of ?g "pbyte_count pool1 + n" "pcount pool1 + 1" b i x] s'(4) same
          stored_at [OF acc1 g1, of i x] stored1 [of b i x] by auto
      have "\<exists>e. Some a = Some (entry_address e) \<and> etext e = take len text \<and>
         (\<forall>b i x. stored ?p b i x \<longleftrightarrow> stored pool b i x \<or> b = gaddress g \<and> i = generation_id g \<and> x = e)"
        by (rule exI [of _ ?e]) (simp only: stored' pool_entry.select_convs simp_thms)
      then show thesis
        by (intro that [OF int]) (use acc' ng' H1 a cur1 in \<open>simp_all add: pool_ok_def\<close>)
    qed
  qed
qed

lemma accounts_current:
  "accounts_ok H pool refs \<Longrightarrow> current_generation pool = Some a \<Longrightarrow>
    \<exists>g \<in> set (generations pool). gaddress g = a \<and> generation_id g = current_generation_id pool"
  unfolding accounts_ok_def by meson

lemma accounts_referenced:
  "accounts_ok H pool refs \<Longrightarrow> a \<in> set refs \<Longrightarrow> \<exists>g \<in> set (generations pool). gaddress g = a"
  unfolding accounts_ok_def by blast

lemma accounts_generation:
  "accounts_ok H pool refs \<Longrightarrow> g \<in> set (generations pool) \<Longrightarrow> generation_ok (fresh H) g"
  unfolding accounts_ok_def by blast

lemma generation_ok_references [simp]:
  "generation_ok n (g\<lparr>reference_count := r\<rparr>) \<longleftrightarrow> generation_ok n g"
  by (simp add: generation_ok_def)

lemma current_generation_found:
  assumes ok: "pool_ok H pool refs" and cur: "current_generation pool = Some a"
  obtains g where "g \<in> set (generations pool)" "gaddress g = a"
    "generation_id g = current_generation_id pool" "generation_at pool a = Some g"
proof -
  from ok have acc: "accounts_ok H pool refs" by (simp add: pool_ok_def)
  from accounts_current [OF acc cur] obtain g where "g \<in> set (generations pool)" "gaddress g = a"
    "generation_id g = current_generation_id pool" by blast
  with generation_at_iff [OF acc] show thesis by (intro that) auto
qed

lemma intern_for_generation_ok:
  assumes ok: "pool_ok H pool refs" and len: "len \<le> length text"
  obtains rc out H' pool' where
    "mylite_catalog_string_pool_intern_for_generation H pool gid (Some text) len True = Some (rc, out, H', pool')"
    "pool_ok H' pool' refs"
    "\<forall>a i e. stored pool a i e \<and> (a \<in> set refs \<or> i = gid) \<longrightarrow> stored pool' a i e"
    "rc = MYLITE_NOMEM \<and> out = None \<or>
     rc = MYLITE_OK \<and> (\<exists>a e. current_generation pool' = Some a \<and> stored pool' a gid e \<and>
       out = Some (entry_address e) \<and> etext e = take len text)"
proof -
  let ?p1 = "mylite_catalog_string_pool_set_generation pool gid"
  note set = set_generation_ok [OF ok, where gid = gid]
  obtain rc H2 p2 where ens: "ensure_current_generation H ?p1 = (rc, H2, p2)"
    by (cases "ensure_current_generation H ?p1") auto
  note ens' = pool_ensure_ok [OF set(1,3) ens]
  have keep: "stored p2 a i e" if "stored pool a i e" "a \<in> set refs \<or> i = gid" for a i e
    using set(4) [OF that] ens'(6) by simp
  note unfold = mylite_catalog_string_pool_intern_for_generation_def option.case Let_def ens prod.case
  show thesis
  proof (cases "rc = MYLITE_OK")
    case False
    then have "mylite_catalog_string_pool_intern_for_generation H pool gid (Some text) len True = Some (rc, None, H2, p2)"
      unfolding unfold by simp
    then show thesis using ens'(1,2) False keep by (intro that) auto
  next
    case True
    then obtain a where a: "current_generation p2 = Some a" using ens'(3) by auto
    obtain g where g: "g \<in> set (generations p2)" "gaddress g = a" "generation_id g = gid" "generation_at p2 a = Some g"
      using current_generation_found [OF ens'(1) a] ens'(4) set(2) by metis
    let ?h = "catalog_string_hash text len"
    have tok: "table_ok (gslots g)" using ens'(1) g(1) by (simp add: pool_ok_def accounts_ok_def generation_ok_def)
    obtain r where r: "find_catalog_string (gslots g) text len ?h = Some r"
      "case r of None \<Rightarrow> take len text \<notin> etext ` entries (gslots g)
       | Some e \<Rightarrow> e \<in> entries (gslots g) \<and> etext e = take len text"
      using find_exact [OF tok len] by blast
    have step: "mylite_catalog_string_pool_intern_for_generation H pool gid (Some text) len True =
        (case r of Some e \<Rightarrow> Some (MYLITE_OK, Some (entry_address e), H2, p2)
         | None \<Rightarrow> intern_new_entry H2 p2 g text len ?h)"
      unfolding unfold using True a g(4) r(1) by (simp split: option.splits)
    show thesis
    proof (cases r)
      case (Some e)
      with r(2) g have "stored p2 a gid e" by (auto simp: stored_def)
      with Some r(2) step a ens'(1) keep show thesis by (intro that [of MYLITE_OK "Some (entry_address e)" H2 p2]) auto
    next
      case None
      with r(2) have "take len text \<notin> etext ` entries (gslots g)" by simp
      from new_entry_ok [OF ens'(1) g(1) len this] obtain rc out H' pool' where
        int: "intern_new_entry H2 p2 g text len ?h = Some (rc, out, H', pool')"
        and ok': "pool_ok H' pool' refs" and cur: "current_generation pool' = current_generation p2"
        and res: "rc = MYLITE_NOMEM \<and> out = None \<and> (\<forall>a i x. stored pool' a i x \<longleftrightarrow> stored p2 a i x) \<or>
          rc = MYLITE_OK \<and> (\<exists>e. out = Some (entry_address e) \<and> etext e = take len text \<and>
            (\<forall>a i x. stored pool' a i x \<longleftrightarrow> stored p2 a i x \<or> a = gaddress g \<and> i = generation_id g \<and> x = e))"
        by metis
      have "\<forall>b i e. stored pool b i e \<and> (b \<in> set refs \<or> i = gid) \<longrightarrow> stored pool' b i e"
        using res keep by blast
      moreover have "rc = MYLITE_NOMEM \<and> out = None \<or>
         rc = MYLITE_OK \<and> (\<exists>a e. current_generation pool' = Some a \<and> stored pool' a gid e \<and>
           out = Some (entry_address e) \<and> etext e = take len text)"
        using res
      proof (elim disjE conjE exE)
        fix e
        assume e: "rc = MYLITE_OK" "out = Some (entry_address e)" "etext e = take len text"
          "\<forall>a i x. stored pool' a i x \<longleftrightarrow> stored p2 a i x \<or> a = gaddress g \<and> i = generation_id g \<and> x = e"
        then have "stored pool' a gid e" using g(2,3) by simp
        with e cur a show ?thesis by metis
      qed simp
      ultimately show thesis using None step int ok' by (intro that [of rc out H' pool']) auto
    qed
  qed
qed

lemma pool_acquire_ok:
  assumes ok: "pool_ok H pool refs"
    and acq: "mylite_catalog_string_pool_reference_acquire pool gid True = (rc, r, pool')"
  shows "pool_ok H pool' (case r of None \<Rightarrow> refs | Some a \<Rightarrow> a # refs)"
    and "stored pool' b i e \<longleftrightarrow> stored pool b i e"
proof -
  from ok have acc: "accounts_ok H pool refs" by (simp add: pool_ok_def)
  consider (no) "r = None" "pool' = pool"
    | (yes) g where "g \<in> set (generations pool)" "r = Some (gaddress g)"
        "pool' = put_generation (g\<lparr>reference_count := reference_count g + 1\<rparr>) pool"
  proof (cases "find_generation pool gid")
    case None
    with acq show thesis by (intro no) (simp_all add: mylite_catalog_string_pool_reference_acquire_def)
  next
    case (Some g)
    then have "g \<in> set (generations pool)" using find_generation_iff [OF acc] by simp
    with acq Some show thesis
      by (cases "reference_count g = SIZE_MAX") (auto intro: no yes simp: mylite_catalog_string_pool_reference_acquire_def)
  qed
  then have "pool_ok H pool' (case r of None \<Rightarrow> refs | Some a \<Rightarrow> a # refs) \<and> (stored pool' b i e \<longleftrightarrow> stored pool b i e)"
  proof cases
    case no
    with ok show ?thesis by simp
  next
    case yes
    let ?g = "g\<lparr>reference_count := reference_count g + 1\<rparr>"
    have p: "pool' = (put_generation ?g pool)\<lparr>pcount := pcount pool, pbyte_count := pbyte_count pool\<rparr>"
      using yes(3) by (simp add: put_generation_def)
    have "generation_ok (fresh H) ?g"
      using accounts_generation [OF acc yes(1)] by simp
    then have "accounts_ok H pool' (gaddress g # refs)"
      unfolding p using acc yes(1) by (intro pool_put_ok [OF acc yes(1)]) (auto simp: accounts_ok_def)
    moreover have "no_garbage pool' (gaddress g # refs)"
      unfolding p by (rule put_no_garbage [OF ok yes(1)]) auto
    moreover have "stored pool' b i e \<longleftrightarrow> stored pool b i e"
      unfolding p using put_stored [OF acc yes(1), of ?g] stored_at [OF acc yes(1)] by simp
    ultimately show ?thesis using yes(2) by (simp add: pool_ok_def)
  qed
  then show "pool_ok H pool' (case r of None \<Rightarrow> refs | Some a \<Rightarrow> a # refs)"
    "stored pool' b i e \<longleftrightarrow> stored pool b i e" by auto
qed

lemma pool_release_ok:
  assumes ok: "pool_ok H pool refs" and a: "a \<in> set refs"
  obtains pool' where "mylite_catalog_string_pool_reference_release pool (Some a) = Some pool'"
    "pool_ok H pool' (remove1 a refs)"
    "\<And>b i e. stored pool b i e \<Longrightarrow> b \<in> set (remove1 a refs) \<or> current_generation pool = Some b \<Longrightarrow> stored pool' b i e"
proof -
  from ok have acc: "accounts_ok H pool refs" by (simp add: pool_ok_def)
  from accounts_referenced [OF acc a] obtain g where g: "g \<in> set (generations pool)" "gaddress g = a" by blast
  with generation_at_iff [OF acc] have at: "generation_at pool a = Some g" by simp
  have cnt: "reference_count g = count_list refs a" using acc g by (simp add: accounts_ok_def)
  have cnt1: "count_list (remove1 a refs) b = (if b = a then count_list refs b - 1 else count_list refs b)" for b
    by (induction refs) auto
  from a cnt have pos: "reference_count g \<noteq> 0" by (simp add: count_list_0_iff)
  let ?g = "g\<lparr>reference_count := reference_count g - 1\<rparr>"
  define p where "p = (put_generation ?g pool)\<lparr>pcount := pcount pool, pbyte_count := pbyte_count pool\<rparr>"
  have p: "put_generation ?g pool = p" by (simp add: p_def put_generation_def)
  have "generation_ok (fresh H) ?g" using accounts_generation [OF acc g(1)] by simp
  then have acc': "accounts_ok H p (remove1 a refs)"
    unfolding p_def using acc g cnt cnt1
    by (intro pool_put_ok [OF acc g(1)]) (auto simp: accounts_ok_def dest: notin_set_remove1 [rotated] set_mp [OF set_remove1_subset])
  have mem: "?g \<in> set (generations p)" "current_generation p = current_generation pool"
    "set (generations p) = insert ?g (set (generations pool) - {g})"
    unfolding p_def using pool_put_set [OF acc g(1), of ?g] by simp_all
  have stored: "stored p b i e \<longleftrightarrow> stored pool b i e" for b i e
    unfolding p_def using put_stored [OF acc g(1), of ?g] stored_at [OF acc g(1)] by simp
  have others: "b \<in> set (remove1 a refs)" if "b \<in> set refs" "b \<noteq> a" for b
    using that by simp
  have ng: "current_generation pool = Some (gaddress x) \<or> gaddress x \<in> set (remove1 a refs)"
    if "x \<in> set (generations p)" "gaddress x \<noteq> a" for x
    using ok that others g(2) unfolding mem(3) by (auto simp: pool_ok_def no_garbage_def)
  show thesis
  proof (cases "reference_count ?g = 0 \<and> current_generation p \<noteq> Some a")
    case True
    then have unused: "current_generation p \<noteq> Some (gaddress ?g)" "gaddress ?g \<notin> set (remove1 a refs)"
      using g(2) cnt cnt1 [of a] by (simp_all add: count_list_0_iff [symmetric])
    note rem = pool_remove_ok [OF acc' mem(1) unused]
    have "no_garbage (remove_generation p a) (remove1 a refs)"
      unfolding no_garbage_def
    proof
      fix x assume "x \<in> set (generations (remove_generation p a))"
      then have x: "x \<in> set (generations p)" "x \<noteq> ?g" using rem(2) g(2) by simp_all
      then have "gaddress x \<noteq> a" using generation_unique [OF acc' x(1) mem(1)] g(2) by auto
      with ng [OF x(1)] show "current_generation (remove_generation p a) = Some (gaddress x) \<or>
          gaddress x \<in> set (remove1 a refs)"
        using rem(3) mem(2) g(2) by simp
    qed
    moreover have "stored (remove_generation p a) b i e"
      if "stored pool b i e" "b \<in> set (remove1 a refs) \<or> current_generation pool = Some b" for b i e
      using that stored [of b i e] rem(2) unused mem(2) g(2) by (auto simp: stored_def)
    moreover have "mylite_catalog_string_pool_reference_release pool (Some a) = Some (remove_generation p a)"
      unfolding mylite_catalog_string_pool_reference_release_def option.case at Let_def p
      using True pos by simp
    ultimately show thesis using rem(1) g(2)
      by (intro that [of "remove_generation p a"]) (auto simp: pool_ok_def)
  next
    case False
    have "gaddress g \<in> set (remove1 a refs)" if "reference_count ?g \<noteq> 0"
      using that cnt cnt1 [of a] g(2) count_list_0_iff [of "remove1 a refs" a] by auto
    then have "no_garbage p (remove1 a refs)"
      using False ng g(2) mem(2,3) unfolding no_garbage_def by (metis)
    moreover have "mylite_catalog_string_pool_reference_release pool (Some a) = Some p"
      unfolding mylite_catalog_string_pool_reference_release_def option.case at Let_def p
      using False pos by auto
    ultimately show thesis using acc' stored by (intro that [of p]) (auto simp: pool_ok_def)
  qed
qed

section \<open>Sequences of operations\<close>

text \<open>
  The state is the memory, the pool and the references its clients hold; a client releases
  only references it holds.
\<close>

type_synonym pool_state = "pool_heap \<times> string_pool \<times> nat list"

inductive pool_step :: "pool_state \<Rightarrow> pool_state \<Rightarrow> bool" where
  set_generation: "pool_step (H, pool, refs) (H, mylite_catalog_string_pool_set_generation pool gid, refs)"
| intern: "mylite_catalog_string_pool_intern H pool (Some text) len True = Some (rc, out, H', pool') \<Longrightarrow>
    len \<le> length text \<Longrightarrow> pool_step (H, pool, refs) (H', pool', refs)"
| intern_for: "mylite_catalog_string_pool_intern_for_generation H pool gid (Some text) len True = Some (rc, out, H', pool') \<Longrightarrow>
    len \<le> length text \<Longrightarrow> pool_step (H, pool, refs) (H', pool', refs)"
| acquire: "mylite_catalog_string_pool_reference_acquire pool gid True = (rc, r, pool') \<Longrightarrow>
    pool_step (H, pool, refs) (H, pool', case r of None \<Rightarrow> refs | Some a \<Rightarrow> a # refs)"
| release: "mylite_catalog_string_pool_reference_release pool (Some a) = Some pool' \<Longrightarrow> a \<in> set refs \<Longrightarrow>
    pool_step (H, pool, refs) (H, pool', remove1 a refs)"

lemma pool_intern_ok:
  assumes ok: "pool_ok H pool refs" and len: "len \<le> length text"
  obtains rc out H' pool' where
    "mylite_catalog_string_pool_intern H pool (Some text) len True = Some (rc, out, H', pool')"
    "pool_ok H' pool' refs"
    "\<forall>a i e. stored pool a i e \<and> a \<in> set refs \<longrightarrow> stored pool' a i e"
proof -
  define p where "p = (if \<not> has_current_generation pool
    then mylite_catalog_string_pool_set_generation pool 0 else pool)"
  have p: "pool_ok H p refs" "\<forall>a i e. stored pool a i e \<and> a \<in> set refs \<longrightarrow> stored p a i e"
    using set_generation_ok [OF ok] ok by (auto simp: p_def)
  obtain rc out H' pool' where
    "mylite_catalog_string_pool_intern_for_generation H p (current_generation_id p) (Some text) len True =
      Some (rc, out, H', pool')" "pool_ok H' pool' refs"
    "\<forall>a i e. stored p a i e \<and> (a \<in> set refs \<or> i = current_generation_id p) \<longrightarrow> stored pool' a i e"
    by (rule intern_for_generation_ok [OF p(1) len])
  with p(2) show thesis
    by (intro that [of rc out H' pool']) (auto simp: mylite_catalog_string_pool_intern_def p_def [symmetric] Let_def)
qed

text \<open>One step keeps the invariant, and every string of a generation that stays referenced.\<close>

lemma pool_step_ok:
  assumes "pool_step s s'" "pool_ok (fst s) (fst (snd s)) (snd (snd s))"
  shows "pool_ok (fst s') (fst (snd s')) (snd (snd s')) \<and>
    (\<forall>a i e. stored (fst (snd s)) a i e \<and> a \<in> set (snd (snd s)) \<and> a \<in> set (snd (snd s')) \<longrightarrow>
      stored (fst (snd s')) a i e)"
  using assms
proof (induction rule: pool_step.induct)
  case (set_generation H pool refs gid)
  then show ?case using set_generation_ok [where H = H and pool = pool and refs = refs and gid = gid] by auto
next
  case (intern H pool bs len rc out H' pool' refs)
  then have ok: "pool_ok H pool refs" by simp
  obtain rc1 out1 H1 p1 where
    "mylite_catalog_string_pool_intern H pool (Some bs) len True = Some (rc1, out1, H1, p1)"
    "pool_ok H1 p1 refs" "\<forall>a i e. stored pool a i e \<and> a \<in> set refs \<longrightarrow> stored p1 a i e"
    by (rule pool_intern_ok [OF ok intern(2)])
  with intern(1) show ?case by simp
next
  case (intern_for H pool gid bs len rc out H' pool' refs)
  then have ok: "pool_ok H pool refs" by simp
  obtain rc1 out1 H1 p1 where
    "mylite_catalog_string_pool_intern_for_generation H pool gid (Some bs) len True = Some (rc1, out1, H1, p1)"
    "pool_ok H1 p1 refs" "\<forall>a i e. stored pool a i e \<and> (a \<in> set refs \<or> i = gid) \<longrightarrow> stored p1 a i e"
    by (rule intern_for_generation_ok [OF ok intern_for(2)])
  with intern_for(1) show ?case by simp
next
  case (acquire pool gid rc r pool' H refs)
  then have ok: "pool_ok H pool refs" by simp
  show ?case using pool_acquire_ok [OF ok acquire(1)] by simp
next
  case (release pool a pool' refs H)
  then have ok: "pool_ok H pool refs" by simp
  obtain p where "mylite_catalog_string_pool_reference_release pool (Some a) = Some p"
    "pool_ok H p (remove1 a refs)"
    "\<And>b i e. stored pool b i e \<Longrightarrow> b \<in> set (remove1 a refs) \<or> current_generation pool = Some b \<Longrightarrow> stored p b i e"
    by (rule pool_release_ok [OF ok release(2)]) (rule that)
  with release(1) show ?case by simp
qed

lemma pool_steps_ok:
  "pool_step\<^sup>*\<^sup>* s s' \<Longrightarrow> pool_ok (fst s) (fst (snd s)) (snd (snd s)) \<Longrightarrow>
    pool_ok (fst s') (fst (snd s')) (snd (snd s'))"
  by (induction rule: rtranclp_induct) (auto dest: pool_step_ok)

lemma init_pool_ok: "pool_ok H mylite_catalog_string_pool_init []"
  by (simp add: pool_ok_def accounts_ok_def no_garbage_def mylite_catalog_string_pool_init_def)

lemma reachable_pool_ok:
  "pool_step\<^sup>*\<^sup>* (H0, mylite_catalog_string_pool_init, []) (H, pool, refs) \<Longrightarrow> pool_ok H pool refs"
  using pool_steps_ok [of "(H0, mylite_catalog_string_pool_init, [])" "(H, pool, refs)"] init_pool_ok by simp

lemma pinned_steps:
  "(\<lambda>s t. pool_step s t \<and> a \<in> set (snd (snd t)))\<^sup>*\<^sup>* s t \<Longrightarrow>
    pool_ok (fst s) (fst (snd s)) (snd (snd s)) \<Longrightarrow> a \<in> set (snd (snd s)) \<Longrightarrow>
    stored (fst (snd s)) a i e \<Longrightarrow>
    stored (fst (snd t)) a i e \<and> a \<in> set (snd (snd t)) \<and> pool_ok (fst t) (fst (snd t)) (snd (snd t))"
proof (induction rule: rtranclp_induct)
  case (step t u)
  then show ?case using pool_step_ok [of t u] by blast
qed simp

lemma pointer_unique:
  assumes ok: "pool_ok H pool refs" and "stored pool a i e" "stored pool b i e'"
  shows "entry_address e = entry_address e' \<longleftrightarrow> etext e = etext e'"
proof -
  from ok have acc: "accounts_ok H pool refs" by (simp add: pool_ok_def)
  from assms obtain g g' where g: "g \<in> set (generations pool)" "g' \<in> set (generations pool)"
    "generation_id g = i" "generation_id g' = i" "e \<in> entries (gslots g)" "e' \<in> entries (gslots g')"
    by (auto simp: stored_def)
  then have "g' = g" using generation_unique [OF acc g(2,1)] by simp
  then show ?thesis using accounts_generation [OF acc g(1)] g(5,6)
    by (auto simp: generation_ok_def table_ok_def inj_on_def)
qed

section \<open>Properties\<close>

definition empty_heap :: pool_heap where
  "empty_heap = \<lparr>answers = [], fresh = 100\<rparr>"

text \<open>The pool after interning the empty string in generation 5.\<close>

definition example_slots :: slots where
  "example_slots = (replicate 64 None)[37 := Some \<lparr>entry_address = 102, hash = 14695981039346656037, elength = 0, etext = []\<rparr>]"

definition example_pool :: string_pool where
  "example_pool =
     \<lparr>generations = [\<lparr>gaddress = 100, gslots = example_slots, generation_id = 5, gcount = 1, capacity = 64,
        gbyte_count = 585, reference_count = 0\<rparr>],
      current_generation = Some 100, current_generation_id = 5, pcount = 1, pbyte_count = 585,
      generation_count = 1, has_current_generation = True\<rparr>"

lemma example_hash: "unat (14695981039346656037 :: u64) mod 64 = 37"
  by simp

lemma example_insert:
  "insert_loop (replicate 64 None) \<lparr>entry_address = 102, hash = 14695981039346656037, elength = 0, etext = []\<rparr> 37
    = Some example_slots"
  by (subst insert_loop.simps) (simp add: example_slots_def)

lemma example_intern:
  "mylite_catalog_string_pool_intern_for_generation empty_heap mylite_catalog_string_pool_init 5 (Some []) 0 True =
    Some (MYLITE_OK, Some 102, \<lparr>answers = [], fresh = 103\<rparr>, example_pool)"
  by (simp add: mylite_catalog_string_pool_intern_for_generation_def mylite_catalog_string_pool_set_generation_def
      mylite_catalog_string_pool_init_def empty_heap_def collect_retired_generations_def find_generation_def
      ensure_current_generation_def allocate_def limit_simps generation_at_def find_catalog_string_def
      intern_new_entry_def reserve_catalog_string_pool_def catalog_string_pool_load_limit_def
      insert_catalog_string_entry_def catalog_string_hash_def example_insert put_generation_def Let_def
      example_pool_def)

lemma accounting_facts:
  assumes "pool_step\<^sup>*\<^sup>* (H0, mylite_catalog_string_pool_init, []) (H, pool, refs)"
  shows "mylite_catalog_string_pool_byte_count pool =
      (\<Sum>g \<leftarrow> generations pool. 56 + 8 * length (gslots g) + slot_sum (\<lambda>e. 16 + length (etext e) + 1) (gslots g))"
    and "mylite_catalog_string_pool_byte_count pool \<le> SIZE_MAX"
    and "mylite_catalog_string_pool_generation_count pool = length (generations pool)"
    and "pcount pool = (\<Sum>g \<leftarrow> generations pool. card (entries (gslots g)))"
    and "\<forall>g \<in> set (generations pool). 10 * card (entries (gslots g)) \<le> 7 * length (gslots g) \<and>
      reference_count g = count_list refs (gaddress g) \<and>
      (current_generation pool = Some (gaddress g) \<or> gaddress g \<in> set refs)"
    and "\<forall>a \<in> set refs. mylite_catalog_string_pool_reference_release pool (Some a) \<noteq> None"
proof -
  from reachable_pool_ok [OF assms] have ok: "pool_ok H pool refs" .
  then have acc: "accounts_ok H pool refs" and ng: "no_garbage pool refs" by (simp_all add: pool_ok_def)
  have each: "gbyte_count g = 56 + 8 * length (gslots g) + slot_sum (\<lambda>e. 16 + length (etext e) + 1) (gslots g)"
    "gcount g = card (entries (gslots g))" "10 * card (entries (gslots g)) \<le> 7 * length (gslots g)"
    if "g \<in> set (generations pool)" for g
  proof -
    note g = accounts_generation [OF acc that, unfolded generation_ok_def table_ok_def]
    have "slot_sum (\<lambda>e. 16 + length (etext e) + 1) (gslots g) = slot_sum entry_bytes (gslots g)"
      by (rule slot_sum_cong) (use g in \<open>auto simp: entry_ok_def\<close>)
    with g show "gbyte_count g = 56 + 8 * length (gslots g) + slot_sum (\<lambda>e. 16 + length (etext e) + 1) (gslots g)"
      by simp
    from g show "gcount g = card (entries (gslots g))" by simp
    from g have "card (entries (gslots g)) \<le> 7 * length (gslots g) div 10" by (auto simp: load_limit_eq)
    then show "10 * card (entries (gslots g)) \<le> 7 * length (gslots g)" by linarith
  qed
  show "mylite_catalog_string_pool_byte_count pool =
      (\<Sum>g \<leftarrow> generations pool. 56 + 8 * length (gslots g) + slot_sum (\<lambda>e. 16 + length (etext e) + 1) (gslots g))"
    using acc each(1) by (simp add: accounts_ok_def mylite_catalog_string_pool_byte_count_def cong: map_cong)
  show "pcount pool = (\<Sum>g \<leftarrow> generations pool. card (entries (gslots g)))"
    using acc each(2) by (simp add: accounts_ok_def cong: map_cong)
  show "mylite_catalog_string_pool_byte_count pool \<le> SIZE_MAX"
    "mylite_catalog_string_pool_generation_count pool = length (generations pool)"
    using acc by (simp_all add: accounts_ok_def mylite_catalog_string_pool_byte_count_def
        mylite_catalog_string_pool_generation_count_def)
  show "\<forall>g \<in> set (generations pool). 10 * card (entries (gslots g)) \<le> 7 * length (gslots g) \<and>
      reference_count g = count_list refs (gaddress g) \<and>
      (current_generation pool = Some (gaddress g) \<or> gaddress g \<in> set refs)"
    using acc ng each(3) unfolding accounts_ok_def no_garbage_def by blast
  show "\<forall>a \<in> set refs. mylite_catalog_string_pool_reference_release pool (Some a) \<noteq> None"
    using pool_release_ok [OF ok] by (metis option.distinct(1))
qed

text \<open>
  Property C21. In every state reachable from the empty pool, whatever allocations fail, the
  byte count is exactly the memory in use and fits in a size_t, the counts of strings and
  generations are exact, every table is at most seven tenths full, every reference held points
  to a live generation and is counted there, and every generation kept is current or referenced.
\<close>

theorem string_pool_accounting:
  assumes "pool_step\<^sup>*\<^sup>* (H0, mylite_catalog_string_pool_init, []) (H, pool, refs)"
  shows "mylite_catalog_string_pool_byte_count pool =
      (\<Sum>g \<leftarrow> generations pool. 56 + 8 * length (gslots g) + slot_sum (\<lambda>e. 16 + length (etext e) + 1) (gslots g)) \<and>
    mylite_catalog_string_pool_byte_count pool \<le> SIZE_MAX \<and>
    mylite_catalog_string_pool_generation_count pool = length (generations pool) \<and>
    pcount pool = (\<Sum>g \<leftarrow> generations pool. card (entries (gslots g))) \<and>
    (\<forall>g \<in> set (generations pool). 10 * card (entries (gslots g)) \<le> 7 * length (gslots g) \<and>
      reference_count g = count_list refs (gaddress g) \<and>
      (current_generation pool = Some (gaddress g) \<or> gaddress g \<in> set refs)) \<and>
    (\<forall>a \<in> set refs. mylite_catalog_string_pool_reference_release pool (Some a) \<noteq> None)"
  by (intro conjI accounting_facts [OF assms])

theorem string_pool_accounting_witness:
  "mylite_catalog_string_pool_byte_count example_pool = 585 \<and>
    (\<Sum>g \<leftarrow> generations example_pool. 56 + 8 * length (gslots g) +
      slot_sum (\<lambda>e. 16 + length (etext e) + 1) (gslots g)) = 585"
proof -
  have "pool_step\<^sup>*\<^sup>* (empty_heap, mylite_catalog_string_pool_init, []) (\<lparr>answers = [], fresh = 103\<rparr>, example_pool, [])"
    using pool_step.intern_for [OF example_intern, of "[]"] by simp
  from string_pool_accounting [OF this, THEN conjunct1] show ?thesis
    by (simp add: mylite_catalog_string_pool_byte_count_def example_pool_def)
qed

lemma intern_outcome:
  assumes reach: "pool_step\<^sup>*\<^sup>* (H0, mylite_catalog_string_pool_init, []) (H, pool, refs)"
    and len: "len \<le> length text"
  shows "\<exists>rc out H' pool'.
    mylite_catalog_string_pool_intern_for_generation H pool gid (Some text) len True = Some (rc, out, H', pool') \<and>
    (rc = MYLITE_NOMEM \<and> out = None \<or>
     rc = MYLITE_OK \<and> (\<exists>a e. current_generation pool' = Some a \<and> stored pool' a gid e \<and>
       out = Some (entry_address e) \<and> etext e = take len text \<and>
       (\<forall>b x. stored pool' b gid x \<longrightarrow> (entry_address x = entry_address e \<longleftrightarrow> etext x = take len text)) \<and>
       (\<forall>b x. stored pool b gid x \<and> etext x = take len text \<longrightarrow> out = Some (entry_address x)))) \<and>
    (\<forall>a i x. stored pool a i x \<and> (a \<in> set refs \<or> i = gid) \<longrightarrow> stored pool' a i x)"
proof -
  obtain rc out H' pool' where r:
    "mylite_catalog_string_pool_intern_for_generation H pool gid (Some text) len True = Some (rc, out, H', pool')"
    "pool_ok H' pool' refs"
    "\<forall>a i e. stored pool a i e \<and> (a \<in> set refs \<or> i = gid) \<longrightarrow> stored pool' a i e"
    "rc = MYLITE_NOMEM \<and> out = None \<or>
     rc = MYLITE_OK \<and> (\<exists>a e. current_generation pool' = Some a \<and> stored pool' a gid e \<and>
       out = Some (entry_address e) \<and> etext e = take len text)"
    by (rule intern_for_generation_ok [OF reachable_pool_ok [OF reach] len])
  have "rc = MYLITE_NOMEM \<and> out = None \<or>
     rc = MYLITE_OK \<and> (\<exists>a e. current_generation pool' = Some a \<and> stored pool' a gid e \<and>
       out = Some (entry_address e) \<and> etext e = take len text \<and>
       (\<forall>b x. stored pool' b gid x \<longrightarrow> (entry_address x = entry_address e \<longleftrightarrow> etext x = take len text)) \<and>
       (\<forall>b x. stored pool b gid x \<and> etext x = take len text \<longrightarrow> out = Some (entry_address x)))"
    using r(4)
  proof (elim disjE conjE exE)
    fix a e
    assume e: "rc = MYLITE_OK" "current_generation pool' = Some a" "stored pool' a gid e"
      "out = Some (entry_address e)" "etext e = take len text"
    have "entry_address x = entry_address e \<longleftrightarrow> etext x = take len text" if "stored pool' b gid x" for b x
      using pointer_unique [OF r(2) that e(3)] e(5) by simp
    with e r(3) show ?thesis by metis
  qed simp
  with r(1,3) show ?thesis
    by blast
qed

text \<open>
  Property C20. Interning a string always returns. With a null text or result pointer it is
  refused; otherwise it either reports that memory ran out, or returns the pointer of an entry
  of the requested generation that holds exactly that string; the pointers of that generation
  identify its strings. No string of the generation and no string of a referenced generation is
  lost, so that interning a stored string again returns its old pointer.
\<close>

theorem string_pool_intern_outcome:
  assumes reach: "pool_step\<^sup>*\<^sup>* (H0, mylite_catalog_string_pool_init, []) (H, pool, refs)"
    and len: "len \<le> length text"
  shows "(\<exists>rc out H' pool'.
    mylite_catalog_string_pool_intern_for_generation H pool gid (Some text) len True = Some (rc, out, H', pool') \<and>
    (rc = MYLITE_NOMEM \<and> out = None \<or>
     rc = MYLITE_OK \<and> (\<exists>a e. current_generation pool' = Some a \<and> stored pool' a gid e \<and>
       out = Some (entry_address e) \<and> etext e = take len text \<and>
       (\<forall>b x. stored pool' b gid x \<longrightarrow> (entry_address x = entry_address e \<longleftrightarrow> etext x = take len text)) \<and>
       (\<forall>b x. stored pool b gid x \<and> etext x = take len text \<longrightarrow> out = Some (entry_address x)))) \<and>
    (\<forall>a i x. stored pool a i x \<and> (a \<in> set refs \<or> i = gid) \<longrightarrow> stored pool' a i x)) \<and>
    mylite_catalog_string_pool_intern_for_generation H pool gid None len True = Some (MYLITE_MISUSE, None, H, pool) \<and>
    mylite_catalog_string_pool_intern_for_generation H pool gid (Some text) len False = Some (MYLITE_MISUSE, None, H, pool)"
  using intern_outcome [OF assms]
  by (intro conjI) (assumption | simp add: mylite_catalog_string_pool_intern_for_generation_def)+

theorem string_pool_intern_outcome_witness:
  "\<exists>out H' pool'. mylite_catalog_string_pool_intern_for_generation \<lparr>answers = [], fresh = 103\<rparr> example_pool 5
    (Some []) 0 True = Some (MYLITE_OK, out, H', pool') \<or>
    mylite_catalog_string_pool_intern_for_generation \<lparr>answers = [], fresh = 103\<rparr> example_pool 5
    (Some []) 0 True = Some (MYLITE_NOMEM, out, H', pool')"
proof -
  have "pool_step\<^sup>*\<^sup>* (empty_heap, mylite_catalog_string_pool_init, []) (\<lparr>answers = [], fresh = 103\<rparr>, example_pool, [])"
    using pool_step.intern_for [OF example_intern, of "[]"] by simp
  from string_pool_intern_outcome [OF this, of 0 "[]" 5, THEN conjunct1] show ?thesis by fastforce
qed

text \<open>
  Property C16. A reference keeps every string of its generation alive at its address: along
  every sequence of operations, by any client, during which the generation stays referenced.
\<close>

theorem string_pool_pinned_strings_stay:
  assumes "pool_step\<^sup>*\<^sup>* (H0, mylite_catalog_string_pool_init, []) (H, pool, refs)" "a \<in> set refs"
    and "(\<lambda>s t. pool_step s t \<and> a \<in> set (snd (snd t)))\<^sup>*\<^sup>* (H, pool, refs) (H', pool', refs')"
    and "stored pool a i e"
  shows "stored pool' a i e"
  using pinned_steps [OF assms(3)] reachable_pool_ok [OF assms(1)] assms(2,4) by simp

theorem string_pool_pinned_strings_stay_witness:
  "stored (mylite_catalog_string_pool_set_generation
     (put_generation (hd (generations example_pool)\<lparr>reference_count := 1\<rparr>) example_pool) 6) 100 5
   \<lparr>entry_address = 102, hash = 14695981039346656037, elength = 0, etext = []\<rparr>"
proof -
  let ?p = "put_generation (hd (generations example_pool)\<lparr>reference_count := 1\<rparr>) example_pool"
  have "pool_step (empty_heap, mylite_catalog_string_pool_init, []) (\<lparr>answers = [], fresh = 103\<rparr>, example_pool, [])"
    using pool_step.intern_for [OF example_intern, of "[]"] by simp
  moreover have "mylite_catalog_string_pool_reference_acquire example_pool 5 True = (MYLITE_OK, Some 100, ?p)"
    by (simp add: mylite_catalog_string_pool_reference_acquire_def example_pool_def find_generation_def limit_simps
        put_generation_def)
  from pool_step.acquire [OF this, of "\<lparr>answers = [], fresh = 103\<rparr>" "[]"]
  have "pool_step (\<lparr>answers = [], fresh = 103\<rparr>, example_pool, []) (\<lparr>answers = [], fresh = 103\<rparr>, ?p, [100])" by simp
  ultimately have reach: "pool_step\<^sup>*\<^sup>* (empty_heap, mylite_catalog_string_pool_init, [])
    (\<lparr>answers = [], fresh = 103\<rparr>, ?p, [100])" by (rule converse_rtranclp_into_rtranclp [OF _ r_into_rtranclp])
  have step: "(\<lambda>s t. pool_step s t \<and> 100 \<in> set (snd (snd t)))\<^sup>*\<^sup>* (\<lparr>answers = [], fresh = 103\<rparr>, ?p, [100])
    (\<lparr>answers = [], fresh = 103\<rparr>, mylite_catalog_string_pool_set_generation ?p 6, [100])"
    by (rule r_into_rtranclp) (simp add: pool_step.set_generation)
  have "stored ?p 100 5 \<lparr>entry_address = 102, hash = 14695981039346656037, elength = 0, etext = []\<rparr>"
    by (simp add: stored_def put_generation_def example_pool_def example_slots_def entries_def set_update_memI)
  from string_pool_pinned_strings_stay [OF reach _ step this] show ?thesis by simp
qed

end
