(* ===== verification/Statement_Cache.thy ===== *)
theory Statement_Cache
  imports Diagnostics "HOL-Library.Multiset"
begin

text \<open>
  The cache of prepared SQLite statements, \<^verbatim>\<open>runtime/mylite_execution_sqlite_internal.c\<close>:
  a bounded array of entries with the SQL text, the statement, the generations it was prepared
  under and whether a client uses it. SQLite's statement functions are a parameter; the locale
  \<open>sqlite_statements\<close> states what its documentation says of them: which statements exist, and
  the text each was prepared from. The array is the list of its used entries; the fields of the
  connection the cache reads are a record that later theories extend. The build without
  profiling is modelled.
\<close>

section \<open>State and parameters\<close>

abbreviation (input) SQLITE_DONE :: int where "SQLITE_DONE \<equiv> 101"
abbreviation (input) MYLITE_EXECUTION_STATEMENT_CACHE_LIMIT :: nat where
  "MYLITE_EXECUTION_STATEMENT_CACHE_LIMIT \<equiv> 64"
abbreviation (input) mysql_error_unknown :: int where "mysql_error_unknown \<equiv> 1105"

text \<open>Statements are identified by their addresses; \<open>None\<close> is a null pointer.\<close>

record 'w statement_api =
  api_prepare :: "string \<Rightarrow> 'w \<Rightarrow> int \<times> nat option \<times> 'w"
  api_finalize :: "nat option \<Rightarrow> 'w \<Rightarrow> int \<times> 'w"
  api_step :: "nat option \<Rightarrow> 'w \<Rightarrow> int \<times> 'w"
  api_reset :: "nat option \<Rightarrow> 'w \<Rightarrow> int \<times> 'w"
  api_clear_bindings :: "nat option \<Rightarrow> 'w \<Rightarrow> int \<times> 'w"
  api_exec :: "string \<Rightarrow> 'w \<Rightarrow> int \<times> 'w"
  api_get_autocommit :: "'w \<Rightarrow> int"
  api_errmsg :: "'w \<Rightarrow> string"

record cache_entry =
  entry_sql :: string
  entry_statement :: "nat option"
  entry_catalog_generation :: u64
  entry_sqlite_schema_generation :: u64
  in_use :: bool

record 'w cache_db =
  sqlite :: 'w
  statement_cache :: "cache_entry list"
  catalog_generation :: u64
  sqlite_schema_generation :: u64
  allocs :: allocator
  db_diagnostics :: mylite_diagnostics

definition mylite_execution_diagnostics_set_nomem_error ::
    "('w, 'z) cache_db_scheme \<Rightarrow> ('w, 'z) cache_db_scheme" where
  "mylite_execution_diagnostics_set_nomem_error db =
     db\<lparr>db_diagnostics := set_error (db_diagnostics db) MYLITE_NOMEM (Some ''HY001'') (Some ''out of memory'')\<rparr>"

definition mylite_execution_diagnostics_set_physical_sqlite_error ::
    "('w, 'z) cache_db_scheme \<Rightarrow> ('w, 'z) cache_db_scheme" where
  "mylite_execution_diagnostics_set_physical_sqlite_error db =
     db\<lparr>db_diagnostics := set_error (db_diagnostics db) mysql_error_unknown (Some ''HY000'')
       (Some ''internal SQLite schema operation failed'')\<rparr>"

definition mylite_sqlite_status_to_mylite :: "int \<Rightarrow> int" where
  "mylite_sqlite_status_to_mylite sqlite_status =
     (if sqlite_status = SQLITE_OK then MYLITE_OK
      else if sqlite_status = SQLITE_NOMEM then MYLITE_NOMEM
      else if sqlite_status = SQLITE_MISUSE then MYLITE_MISUSE
      else MYLITE_ERROR)"

section \<open>Entries\<close>

definition remove_cached_sqlite_statement ::
    "'w statement_api \<Rightarrow> ('w, 'z) cache_db_scheme \<Rightarrow> nat \<Rightarrow> ('w, 'z) cache_db_scheme" where
  "remove_cached_sqlite_statement api db index =
     (if index \<ge> length (statement_cache db) then db
      else (let entry = statement_cache db ! index;
                (_, w) = api_finalize api (entry_statement entry) (sqlite db);
                count = length (statement_cache db) - 1;
                entries = (if index \<noteq> count then (statement_cache db)[index := statement_cache db ! count]
                           else statement_cache db)
            in db\<lparr>sqlite := w, statement_cache := take count entries\<rparr>))"

lemma remove_cached_length [simp]:
  "index < length (statement_cache db) \<Longrightarrow>
    length (statement_cache (remove_cached_sqlite_statement api db index)) = length (statement_cache db) - 1"
  by (simp add: remove_cached_sqlite_statement_def Let_def split: prod.splits)

definition entry_fresh :: "('w, 'z) cache_db_scheme \<Rightarrow> cache_entry \<Rightarrow> bool" where
  "entry_fresh db entry \<longleftrightarrow> entry_catalog_generation entry = catalog_generation db \<and>
     entry_sqlite_schema_generation entry = sqlite_schema_generation db"

function prune_loop ::
    "'w statement_api \<Rightarrow> ('w, 'z) cache_db_scheme \<Rightarrow> nat \<Rightarrow> ('w, 'z) cache_db_scheme" where
  "prune_loop api db index =
     (if index < length (statement_cache db) then
        (let entry = statement_cache db ! index
         in if in_use entry \<or> entry_fresh db entry then prune_loop api db (index + 1)
            else prune_loop api (remove_cached_sqlite_statement api db index) index)
      else db)"
  by pat_completeness auto
termination
  by (relation "measure (\<lambda>(api, db, index). length (statement_cache db) - index)") auto

definition prune_stale_cached_sqlite_statements ::
    "'w statement_api \<Rightarrow> ('w, 'z) cache_db_scheme \<Rightarrow> ('w, 'z) cache_db_scheme" where
  "prune_stale_cached_sqlite_statements api db = prune_loop api db 0"

definition find_available_cached_sqlite_statement :: "('w, 'z) cache_db_scheme \<Rightarrow> string \<Rightarrow> nat option" where
  "find_available_cached_sqlite_statement db sql =
     List.find (\<lambda>index. \<not> in_use (statement_cache db ! index) \<and> entry_sql (statement_cache db ! index) = sql)
       [0..<length (statement_cache db)]"

definition find_cached_sqlite_statement_by_handle ::
    "('w, 'z) cache_db_scheme \<Rightarrow> nat option \<Rightarrow> nat option" where
  "find_cached_sqlite_statement_by_handle db statement =
     (if statement = None then None
      else List.find (\<lambda>index. entry_statement (statement_cache db ! index) = statement)
        [0..<length (statement_cache db)])"

definition evict_available_cached_sqlite_statement ::
    "'w statement_api \<Rightarrow> ('w, 'z) cache_db_scheme \<Rightarrow> ('w, 'z) cache_db_scheme" where
  "evict_available_cached_sqlite_statement api db =
     (case List.find (\<lambda>index. \<not> in_use (statement_cache db ! index)) [0..<length (statement_cache db)] of
        None \<Rightarrow> db
      | Some index \<Rightarrow> remove_cached_sqlite_statement api db index)"

function clear_loop ::
    "'w statement_api \<Rightarrow> bool \<Rightarrow> ('w, 'z) cache_db_scheme \<Rightarrow> nat \<Rightarrow> ('w, 'z) cache_db_scheme" where
  "clear_loop api include_in_use db index =
     (if index < length (statement_cache db) then
        if \<not> include_in_use \<and> in_use (statement_cache db ! index)
        then clear_loop api include_in_use db (index + 1)
        else clear_loop api include_in_use (remove_cached_sqlite_statement api db index) index
      else db)"
  by pat_completeness auto
termination
  by (relation "measure (\<lambda>(api, include_in_use, db, index). length (statement_cache db) - index)") auto

declare prune_loop.simps [simp del] clear_loop.simps [simp del]

definition clear_cached_sqlite_statements ::
    "'w statement_api \<Rightarrow> ('w, 'z) cache_db_scheme \<Rightarrow> bool \<Rightarrow> ('w, 'z) cache_db_scheme" where
  "clear_cached_sqlite_statements api db include_in_use = clear_loop api include_in_use db 0"

section \<open>Operations\<close>

definition prepare_uncached_sqlite_statement ::
    "'w statement_api \<Rightarrow> ('w, 'z) cache_db_scheme \<Rightarrow> string \<Rightarrow> int \<times> nat option \<times> ('w, 'z) cache_db_scheme" where
  "prepare_uncached_sqlite_statement api db sql =
     (let (sqlite_rc, statement, w) = api_prepare api sql (sqlite db); db = db\<lparr>sqlite := w\<rparr>
      in if sqlite_rc \<noteq> SQLITE_OK then (mylite_sqlite_status_to_mylite sqlite_rc, None, db)
         else (mylite_sqlite_status_to_mylite sqlite_rc, statement, db))"

definition append_cached_sqlite_statement ::
    "'w statement_api \<Rightarrow> ('w, 'z) cache_db_scheme \<Rightarrow> string \<Rightarrow> int \<times> nat option \<times> ('w, 'z) cache_db_scheme" where
  "append_cached_sqlite_statement api db sql =
     (let (rc, statement, db) = prepare_uncached_sqlite_statement api db sql
      in if rc \<noteq> MYLITE_OK then (rc, None, db)
         else (let (copied, rest) = next_alloc (allocs db); db = db\<lparr>allocs := rest\<rparr>
               in if \<not> copied
                  then (let (_, w) = api_finalize api statement (sqlite db)
                        in (MYLITE_NOMEM, None, db\<lparr>sqlite := w\<rparr>))
                  else (MYLITE_OK, statement, db\<lparr>statement_cache := statement_cache db @
                    [\<lparr>entry_sql = sql, entry_statement = statement,
                      entry_catalog_generation = catalog_generation db,
                      entry_sqlite_schema_generation = sqlite_schema_generation db, in_use = True\<rparr>]\<rparr>)))"

definition mylite_execution_prepare_cached_sqlite_statement ::
    "'w statement_api \<Rightarrow> ('w, 'z) cache_db_scheme \<Rightarrow> string \<Rightarrow> int \<times> nat option \<times> ('w, 'z) cache_db_scheme" where
  "mylite_execution_prepare_cached_sqlite_statement api db sql =
     (let db = prune_stale_cached_sqlite_statements api db
      in case find_available_cached_sqlite_statement db sql of
           Some index \<Rightarrow>
             (let entry = statement_cache db ! index
              in (MYLITE_OK, entry_statement entry,
                  db\<lparr>statement_cache := (statement_cache db)[index := entry\<lparr>in_use := True\<rparr>]\<rparr>))
         | None \<Rightarrow>
             (let db = (if length (statement_cache db) \<ge> MYLITE_EXECUTION_STATEMENT_CACHE_LIMIT
                        then evict_available_cached_sqlite_statement api db else db)
              in if length (statement_cache db) < MYLITE_EXECUTION_STATEMENT_CACHE_LIMIT
                 then append_cached_sqlite_statement api db sql
                 else prepare_uncached_sqlite_statement api db sql))"

definition mylite_execution_finalize_sqlite_statement ::
    "'w statement_api \<Rightarrow> ('w, 'z) cache_db_scheme \<Rightarrow> nat option \<Rightarrow> int \<Rightarrow> int \<times> ('w, 'z) cache_db_scheme" where
  "mylite_execution_finalize_sqlite_statement api db statement rc =
     (if statement = None then (rc, db)
      else (let (sqlite_rc, w) = api_finalize api statement (sqlite db); db = db\<lparr>sqlite := w\<rparr>
            in if rc \<noteq> MYLITE_OK then (rc, db) else (mylite_sqlite_status_to_mylite sqlite_rc, db)))"

definition mylite_execution_finish_cached_sqlite_statement ::
    "'w statement_api \<Rightarrow> ('w, 'z) cache_db_scheme \<Rightarrow> nat option \<Rightarrow> int \<Rightarrow> int \<times> ('w, 'z) cache_db_scheme" where
  "mylite_execution_finish_cached_sqlite_statement api db statement rc =
     (if statement = None then (rc, db)
      else (case find_cached_sqlite_statement_by_handle db statement of
              None \<Rightarrow> mylite_execution_finalize_sqlite_statement api db statement rc
            | Some index \<Rightarrow>
              if rc \<noteq> MYLITE_OK then (rc, remove_cached_sqlite_statement api db index)
              else (let (sqlite_rc, w) = api_reset api statement (sqlite db);
                        (sqlite_rc, w) = (if sqlite_rc = SQLITE_OK then api_clear_bindings api statement w
                                          else (sqlite_rc, w));
                        db = db\<lparr>sqlite := w\<rparr>
                    in if sqlite_rc \<noteq> SQLITE_OK
                       then (mylite_sqlite_status_to_mylite sqlite_rc, remove_cached_sqlite_statement api db index)
                       else (MYLITE_OK, db\<lparr>statement_cache :=
                         (statement_cache db)[index := (statement_cache db ! index)\<lparr>in_use := False\<rparr>]\<rparr>))))"

definition mylite_execution_statement_cache_deinit ::
    "'w statement_api \<Rightarrow> ('w, 'z) cache_db_scheme \<Rightarrow> ('w, 'z) cache_db_scheme" where
  "mylite_execution_statement_cache_deinit api db = clear_cached_sqlite_statements api db True"

definition mylite_execution_execute_cached_sqlite_control_sql ::
    "'w statement_api \<Rightarrow> ('w, 'z) cache_db_scheme \<Rightarrow> string \<Rightarrow> int \<times> ('w, 'z) cache_db_scheme" where
  "mylite_execution_execute_cached_sqlite_control_sql api db sql =
     (let (rc, statement, db) = mylite_execution_prepare_cached_sqlite_statement api db sql;
          (rc, db) = (if rc = MYLITE_OK
            then (let (sqlite_rc, w) = api_step api statement (sqlite db)
                  in (if sqlite_rc = SQLITE_DONE then MYLITE_OK else mylite_sqlite_status_to_mylite sqlite_rc,
                      db\<lparr>sqlite := w\<rparr>))
            else (rc, db))
      in mylite_execution_finish_cached_sqlite_statement api db statement rc)"

definition mylite_execution_execute_sqlite_control_sql ::
    "'w statement_api \<Rightarrow> ('w, 'z) cache_db_scheme \<Rightarrow> string \<Rightarrow> int \<times> ('w, 'z) cache_db_scheme" where
  "mylite_execution_execute_sqlite_control_sql api db sql =
     (let (sqlite_rc, w) = api_exec api sql (sqlite db)
      in (mylite_sqlite_status_to_mylite sqlite_rc, db\<lparr>sqlite := w\<rparr>))"

definition mylite_execution_execute_sqlite_schema_sql ::
    "'w statement_api \<Rightarrow> ('w, 'z) cache_db_scheme \<Rightarrow> string \<Rightarrow> int \<times> ('w, 'z) cache_db_scheme" where
  "mylite_execution_execute_sqlite_schema_sql api db sql =
     (let (sqlite_rc, w) = api_exec api sql (sqlite db); db = db\<lparr>sqlite := w\<rparr>;
          rc = mylite_sqlite_status_to_mylite sqlite_rc
      in if rc = MYLITE_NOMEM then (rc, mylite_execution_diagnostics_set_nomem_error db)
         else if rc \<noteq> MYLITE_OK then (MYLITE_ERROR, mylite_execution_diagnostics_set_physical_sqlite_error db)
         else (MYLITE_OK, clear_cached_sqlite_statements api db False))"

section \<open>Sequences of operations\<close>

text \<open>
  The clients of the cache prepare, step and finish statements, execute control and schema
  statements, and change the generations; a client finishes only statements it holds.
\<close>

inductive cache_step ::
    "'w statement_api \<Rightarrow> (string \<Rightarrow> bool) \<Rightarrow> 'w cache_db \<times> nat list \<Rightarrow> 'w cache_db \<times> nat list \<Rightarrow> bool"
  for api :: "'w statement_api" and has_statement :: "string \<Rightarrow> bool" where
  prepare: "has_statement sql \<Longrightarrow> mylite_execution_prepare_cached_sqlite_statement api db sql = (rc, h, db') \<Longrightarrow>
    cache_step api has_statement (db, out) (db', case h of None \<Rightarrow> out | Some x \<Rightarrow> x # out)"
| step: "x \<in> set out \<Longrightarrow>
    cache_step api has_statement (db, out) (db\<lparr>sqlite := snd (api_step api (Some x) (sqlite db))\<rparr>, out)"
| finish: "x \<in> set out \<Longrightarrow> mylite_execution_finish_cached_sqlite_statement api db (Some x) rc = (rc', db') \<Longrightarrow>
    cache_step api has_statement (db, out) (db', removeAll x out)"
| control: "has_statement sql \<Longrightarrow> cache_step api has_statement (db, out)
    (snd (mylite_execution_execute_cached_sqlite_control_sql api db sql), out)"
| schema: "cache_step api has_statement (db, out) (snd (mylite_execution_execute_sqlite_schema_sql api db sql), out)"
| generations: "cache_step api has_statement (db, out)
    (db\<lparr>catalog_generation := g, sqlite_schema_generation := s\<rparr>, out)"

section \<open>SQLite's statements\<close>

text \<open>
  The invariant, for statements \<open>other\<close> of other components and statements \<open>out\<close> handed to
  clients: every cached statement exists and was prepared from the text of its entry, is cached
  once, and is in use exactly when a client holds it; every other statement that exists is held
  by a client or belongs to another component.
\<close>

definition cache_ok :: "('w \<Rightarrow> nat \<rightharpoonup> string) \<Rightarrow> nat set \<Rightarrow> nat list \<Rightarrow> ('w, 'z) cache_db_scheme \<Rightarrow> bool" where
  "cache_ok prepared other out db \<longleftrightarrow>
     length (statement_cache db) \<le> MYLITE_EXECUTION_STATEMENT_CACHE_LIMIT \<and>
     distinct (map entry_statement (statement_cache db)) \<and> distinct out \<and>
     (\<forall>e \<in> set (statement_cache db). \<exists>x. entry_statement e = Some x \<and>
        prepared (sqlite db) x = Some (entry_sql e) \<and> x \<notin> other \<and> (in_use e \<longleftrightarrow> x \<in> set out)) \<and>
     set out \<inter> other = {} \<and>
     dom (prepared (sqlite db)) = other \<union> set out \<union> (the \<circ> entry_statement) ` set (statement_cache db)"

text \<open>
  What SQLite promises: \<open>prepared w\<close> maps the statements that exist to the text they were
  prepared from. Preparing text that holds a statement creates a new one; only finalizing
  destroys one.
\<close>

locale sqlite_statements =
  fixes api :: "'w statement_api" and prepared :: "'w \<Rightarrow> nat \<rightharpoonup> string" and has_statement :: "string \<Rightarrow> bool"
  assumes prepare_ok: "api_prepare api sql w = (SQLITE_OK, h, w') \<Longrightarrow> has_statement sql \<Longrightarrow>
      \<exists>x. h = Some x \<and> prepared w x = None \<and> prepared w' = (prepared w)(x \<mapsto> sql)"
    and prepare_fails: "api_prepare api sql w = (rc, h, w') \<Longrightarrow> rc \<noteq> SQLITE_OK \<Longrightarrow> prepared w' = prepared w"
    and finalize_removes: "prepared (snd (api_finalize api (Some x) w)) = (prepared w)(x := None)"
    and step_keeps: "prepared (snd (api_step api h w)) = prepared w"
    and reset_keeps: "prepared (snd (api_reset api h w)) = prepared w"
    and clear_bindings_keeps: "prepared (snd (api_clear_bindings api h w)) = prepared w"
    and exec_keeps: "prepared (snd (api_exec api sql w)) = prepared w"
begin

lemma cache_okI:
  assumes "length (statement_cache db) \<le> MYLITE_EXECUTION_STATEMENT_CACHE_LIMIT"
    "distinct (map entry_statement (statement_cache db))" "distinct out"
    "\<And>e. e \<in> set (statement_cache db) \<Longrightarrow> \<exists>x. entry_statement e = Some x \<and>
        prepared (sqlite db) x = Some (entry_sql e) \<and> x \<notin> other \<and> (in_use e \<longleftrightarrow> x \<in> set out)"
    "set out \<inter> other = {}"
    "dom (prepared (sqlite db)) = other \<union> set out \<union> (the \<circ> entry_statement) ` set (statement_cache db)"
  shows "cache_ok prepared other out db"
  using assms unfolding cache_ok_def by blast

lemma cache_ok_entry:
  assumes "cache_ok prepared other out db" "i < length (statement_cache db)"
  obtains x where "entry_statement (statement_cache db ! i) = Some x"
    "prepared (sqlite db) x = Some (entry_sql (statement_cache db ! i))" "x \<notin> other"
    "in_use (statement_cache db ! i) \<longleftrightarrow> x \<in> set out"
  using assms nth_mem [OF assms(2)] unfolding cache_ok_def by blast

lemma removed_entries:
  assumes "i < length (statement_cache db)" "distinct (map entry_statement (statement_cache db))"
  shows "set (statement_cache (remove_cached_sqlite_statement api db i)) =
      set (statement_cache db) - {statement_cache db ! i}"
    and "distinct (map entry_statement (statement_cache (remove_cached_sqlite_statement api db i)))"
proof -
  let ?es = "statement_cache db" and ?n = "length (statement_cache db) - 1"
  have new: "statement_cache (remove_cached_sqlite_statement api db i) =
      take ?n (if i \<noteq> ?n then ?es[i := ?es ! ?n] else ?es)"
    using assms(1) by (simp add: remove_cached_sqlite_statement_def Let_def split: prod.splits)
  from assms(1) obtain xs x where es: "?es = xs @ [x]" by (cases ?es rule: rev_cases) auto
  have "mset (statement_cache (remove_cached_sqlite_statement api db i)) = mset ?es - {# ?es ! i #}"
    using assms(1) unfolding new es by (auto simp: nth_append list_update_append mset_update)
  then have m: "mset ?es = add_mset (?es ! i) (mset (statement_cache (remove_cached_sqlite_statement api db i)))"
    using assms(1) by simp
  then have "mset (map entry_statement ?es) =
    mset (map entry_statement (?es ! i # statement_cache (remove_cached_sqlite_statement api db i)))" by simp
  with assms(2) have "distinct (map entry_statement (?es ! i # statement_cache (remove_cached_sqlite_statement api db i)))"
    using mset_eq_imp_distinct_iff by blast
  moreover have "set ?es = insert (?es ! i) (set (statement_cache (remove_cached_sqlite_statement api db i)))"
    using m by (metis set_mset_add_mset_insert set_mset_mset)
  ultimately show "set (statement_cache (remove_cached_sqlite_statement api db i)) = set ?es - {?es ! i}"
    "distinct (map entry_statement (statement_cache (remove_cached_sqlite_statement api db i)))" by auto
qed

lemma removed_sqlite:
  assumes "i < length (statement_cache db)" "entry_statement (statement_cache db ! i) = Some x"
  shows "prepared (sqlite (remove_cached_sqlite_statement api db i)) = (prepared (sqlite db))(x := None)"
  using assms finalize_removes [of x "sqlite db"]
  by (auto simp: remove_cached_sqlite_statement_def Let_def split: prod.splits)

text \<open>Removing an entry takes its statement from the client that holds it, if any.\<close>

lemma remove_cache_ok:
  assumes ok: "cache_ok prepared other out db" and i: "i < length (statement_cache db)"
    and x: "entry_statement (statement_cache db ! i) = Some x"
  shows "cache_ok prepared other (removeAll x out) (remove_cached_sqlite_statement api db i)"
proof -
  let ?es = "statement_cache db" and ?new = "remove_cached_sqlite_statement api db i"
  from ok have d: "distinct (map entry_statement ?es)" by (simp add: cache_ok_def)
  note rem = removed_entries [OF i d] and sql = removed_sqlite [OF i x]
  have other: "entry_statement e \<noteq> Some x" if "e \<in> set ?es - {?es ! i}" for e
    using that d x i by (auto simp: distinct_map inj_on_def)
  have xo: "x \<notin> other" using ok nth_mem [OF i] x unfolding cache_ok_def by fastforce
  have entries: "\<exists>y. entry_statement e = Some y \<and> prepared (sqlite ?new) y = Some (entry_sql e) \<and> y \<notin> other \<and>
      (in_use e \<longleftrightarrow> y \<in> set (removeAll x out))" if e: "e \<in> set (statement_cache ?new)" for e
  proof -
    from e rem(1) have "e \<in> set ?es" by simp
    with ok obtain y where y: "entry_statement e = Some y" "prepared (sqlite db) y = Some (entry_sql e)" "y \<notin> other"
      "in_use e \<longleftrightarrow> y \<in> set out" unfolding cache_ok_def by blast
    with other [of e] e rem(1) have "y \<noteq> x" by auto
    with y sql show ?thesis by simp
  qed
  have "dom (prepared (sqlite db)) = other \<union> set out \<union> (the \<circ> entry_statement) ` set ?es"
    using ok by (simp add: cache_ok_def)
  moreover have "(the \<circ> entry_statement) ` set ?es = insert x ((the \<circ> entry_statement) ` (set ?es - {?es ! i}))"
    using x nth_mem [OF i] by (auto simp: image_iff) force
  moreover have "x \<notin> (the \<circ> entry_statement) ` (set ?es - {?es ! i})"
  proof
    assume "x \<in> (the \<circ> entry_statement) ` (set ?es - {?es ! i})"
    then obtain e where e: "e \<in> set ?es - {?es ! i}" "x = the (entry_statement e)" by auto
    with ok have "entry_statement e = Some x" unfolding cache_ok_def by fastforce
    with other [OF e(1)] show False by simp
  qed
  ultimately have "dom (prepared (sqlite ?new)) =
      other \<union> set (removeAll x out) \<union> (the \<circ> entry_statement) ` set (statement_cache ?new)"
    unfolding sql rem(1) using xo by auto
  moreover have "length (statement_cache ?new) \<le> MYLITE_EXECUTION_STATEMENT_CACHE_LIMIT"
    using ok i by (auto simp: cache_ok_def)
  ultimately show ?thesis
    using entries rem(2) ok unfolding cache_ok_def by (auto simp: distinct_removeAll)
qed

lemma remove_unused_ok:
  assumes ok: "cache_ok prepared other out db" and i: "i < length (statement_cache db)"
    and unused: "\<not> in_use (statement_cache db ! i)"
  shows "cache_ok prepared other out (remove_cached_sqlite_statement api db i)"
proof -
  obtain x where "entry_statement (statement_cache db ! i) = Some x" "in_use (statement_cache db ! i) \<longleftrightarrow> x \<in> set out"
    using cache_ok_entry [OF ok i] by metis
  with remove_cache_ok [OF ok i] unused show ?thesis by (simp add: removeAll_id)
qed

lemma prune_ok:
  "cache_ok prepared other out db \<Longrightarrow> a = api \<Longrightarrow> cache_ok prepared other out (prune_loop a db index)"
proof (induction a db index rule: prune_loop.induct)
  case (1 a db index)
  show ?case
    by (subst prune_loop.simps) (use 1 in \<open>auto simp: Let_def intro: remove_unused_ok\<close>)
qed

lemma clear_unused_ok:
  "cache_ok prepared other out db \<Longrightarrow> a = api \<Longrightarrow> \<not> b \<Longrightarrow>
    cache_ok prepared other out (clear_loop a b db index)"
proof (induction a b db index rule: clear_loop.induct)
  case (1 a b db index)
  show ?case
    by (subst clear_loop.simps) (use 1 in \<open>auto intro: remove_unused_ok\<close>)
qed

lemma clear_all_ok:
  "cache_ok prepared other [] db \<Longrightarrow>
    cache_ok prepared other [] (clear_loop api True db 0) \<and> statement_cache (clear_loop api True db 0) = []"
proof (induction "length (statement_cache db)" arbitrary: db)
  case 0
  then show ?case by (simp add: clear_loop.simps [of api True db 0])
next
  case (Suc n)
  then have i: "0 < length (statement_cache db)" by auto
  obtain x where x: "entry_statement (statement_cache db ! 0) = Some x"
    using cache_ok_entry [OF Suc.prems i] by metis
  have "cache_ok prepared other [] (remove_cached_sqlite_statement api db 0)"
    using remove_cache_ok [OF Suc.prems i x] by simp
  with Suc.hyps(1) [of "remove_cached_sqlite_statement api db 0"] Suc.hyps(2) Suc.prems i show ?case
    by (simp add: clear_loop.simps [of api True db 0])
qed

lemma evict_ok:
  assumes "cache_ok prepared other out db"
  shows "cache_ok prepared other out (evict_available_cached_sqlite_statement api db)"
  using assms remove_unused_ok [OF assms]
  by (auto simp: evict_available_cached_sqlite_statement_def find_Some_iff split: option.splits)

text \<open>Marking an entry as used or unused moves its statement to or from the clients.\<close>

lemma mark_ok:
  assumes ok: "cache_ok prepared other out db" and i: "i < length (statement_cache db)"
    and x: "entry_statement (statement_cache db ! i) = Some x" and w: "prepared w = prepared (sqlite db)"
    and out': "set out' = (if b then insert x (set out) else set out - {x})" "distinct out'"
  shows "cache_ok prepared other out' (db\<lparr>sqlite := w,
    statement_cache := (statement_cache db)[i := (statement_cache db ! i)\<lparr>in_use := b\<rparr>]\<rparr>)"
proof -
  let ?es = "statement_cache db" and ?e = "(statement_cache db ! i)\<lparr>in_use := b\<rparr>"
  from ok have d: "distinct (map entry_statement ?es)" and d': "distinct ?es" by (auto simp: cache_ok_def distinct_map)
  have map: "map entry_statement (?es[i := ?e]) = map entry_statement ?es"
    using i by (simp add: map_update list_update_same_conv)
  have set: "set (?es[i := ?e]) = insert ?e (set ?es - {?es ! i})"
    by (rule set_update_distinct [OF d' i])
  have stm: "(the \<circ> entry_statement) ` set (?es[i := ?e]) = (the \<circ> entry_statement) ` set ?es"
    using map by (metis list.set_map image_comp)
  have old: "\<exists>y. entry_statement e = Some y \<and> prepared (sqlite db) y = Some (entry_sql e) \<and> y \<notin> other \<and>
      (in_use e \<longleftrightarrow> y \<in> set out)" if "e \<in> set ?es" for e
    using ok that unfolding cache_ok_def by blast
  obtain x' where x': "prepared (sqlite db) x = Some (entry_sql (?es ! i))" "x \<notin> other"
    using old [OF nth_mem [OF i]] x by auto
  have others: "\<exists>y. entry_statement e = Some y \<and> prepared w y = Some (entry_sql e) \<and> y \<notin> other \<and>
      (in_use e \<longleftrightarrow> y \<in> set out')" if e: "e \<in> set ?es - {?es ! i}" for e
  proof -
    from e old obtain y where y: "entry_statement e = Some y" "prepared (sqlite db) y = Some (entry_sql e)" "y \<notin> other"
      "in_use e \<longleftrightarrow> y \<in> set out" by blast
    moreover have "y \<noteq> x"
    proof
      assume "y = x"
      then have "e = ?es ! i" using inj_onD [of entry_statement "set ?es" e "?es ! i"] d x y(1) e nth_mem [OF i]
        by (simp add: distinct_map)
      with e show False by simp
    qed
    ultimately show ?thesis using out'(1) unfolding w by (cases b) simp_all
  qed
  have xc: "x \<in> (the \<circ> entry_statement) ` set ?es" using x nth_mem [OF i] by force
  have dom: "dom (prepared (sqlite db)) = other \<union> set out \<union> (the \<circ> entry_statement) ` set ?es"
    and len: "length ?es \<le> 64" and disj: "set out \<inter> other = {}"
    using ok by (simp_all add: cache_ok_def)
  from dom xc out'(1) have dom': "dom (prepared w) = other \<union> set out' \<union> (the \<circ> entry_statement) ` set ?es"
    unfolding w by auto
  have disj': "set out' \<inter> other = {}" using disj out'(1) x'(2) by auto
  have new: "\<exists>y. entry_statement ?e = Some y \<and> prepared w y = Some (entry_sql ?e) \<and> y \<notin> other \<and>
      (in_use ?e \<longleftrightarrow> y \<in> set out')" using x x' w out'(1) by simp
  have all: "\<exists>y. entry_statement e = Some y \<and> prepared w y = Some (entry_sql e) \<and> y \<notin> other \<and>
      (in_use e \<longleftrightarrow> y \<in> set out')" if "e \<in> set (?es[i := ?e])" for e
    using that [unfolded set] others [of e] new by (elim insertE) simp_all
  show ?thesis
    by (rule cache_okI) (use len d out'(2) disj' dom' all map stm in simp_all)
qed

lemma prepare_cached_ok:
  assumes ok: "cache_ok prepared other out db" and sql: "has_statement sql"
    and res: "mylite_execution_prepare_cached_sqlite_statement api db sql = (rc, h, db')"
  shows "if rc = MYLITE_OK then \<exists>x. h = Some x \<and> x \<notin> set out \<and> prepared (sqlite db') x = Some sql \<and>
      cache_ok prepared other (x # out) db' else h = None \<and> cache_ok prepared other out db'"
proof -
  define p where "p = prune_stale_cached_sqlite_statements api db"
  have okp: "cache_ok prepared other out p"
    unfolding p_def prune_stale_cached_sqlite_statements_def by (rule prune_ok [OF ok refl])
  show ?thesis
  proof (cases "find_available_cached_sqlite_statement p sql")
    case (Some i)
    then have i: "i < length (statement_cache p)" "\<not> in_use (statement_cache p ! i)"
      "entry_sql (statement_cache p ! i) = sql"
      by (auto simp: find_available_cached_sqlite_statement_def find_Some_iff)
    obtain x where x: "entry_statement (statement_cache p ! i) = Some x"
      "prepared (sqlite p) x = Some (entry_sql (statement_cache p ! i))" "in_use (statement_cache p ! i) \<longleftrightarrow> x \<in> set out"
      using cache_ok_entry [OF okp i(1)] by metis
    have "cache_ok prepared other (x # out) (p\<lparr>sqlite := sqlite p,
        statement_cache := (statement_cache p)[i := (statement_cache p ! i)\<lparr>in_use := True\<rparr>]\<rparr>)"
      using x(3) i(2) okp by (intro mark_ok [OF okp i(1) x(1) refl]) (auto simp: cache_ok_def)
    moreover have "db' = p\<lparr>sqlite := sqlite p,
        statement_cache := (statement_cache p)[i := (statement_cache p ! i)\<lparr>in_use := True\<rparr>]\<rparr>"
      "rc = MYLITE_OK" "h = Some x"
      using res Some x(1)
      by (simp_all add: mylite_execution_prepare_cached_sqlite_statement_def p_def [symmetric] Let_def)
    ultimately show ?thesis using x i(2,3) by simp
  next
    case None
    define q where "q = (if length (statement_cache p) \<ge> 64 then evict_available_cached_sqlite_statement api p else p)"
    have okq: "cache_ok prepared other out q" unfolding q_def using okp evict_ok [OF okp] by simp
    obtain src st w where prep: "api_prepare api sql (sqlite q) = (src, st, w)" by (cases "api_prepare api sql (sqlite q)") auto
    have res': "(if length (statement_cache q) < 64 then append_cached_sqlite_statement api q sql
        else prepare_uncached_sqlite_statement api q sql) = (rc, h, db')"
      by (rule res [unfolded mylite_execution_prepare_cached_sqlite_statement_def Let_def, folded p_def,
            unfolded None option.case, folded q_def])
    show ?thesis
    proof (cases "src = SQLITE_OK")
      case False
      with prepare_fails prep have "prepared w = prepared (sqlite q)" by blast
      moreover have "rc \<noteq> MYLITE_OK" "h = None" "db' = q\<lparr>sqlite := w\<rparr>"
        using res' False prep
        by (auto simp: append_cached_sqlite_statement_def prepare_uncached_sqlite_statement_def
            mylite_sqlite_status_to_mylite_def split: if_splits)
      ultimately show ?thesis using okq by (simp add: cache_ok_def)
    next
      case True
      with prepare_ok prep sql obtain x where x: "st = Some x" "prepared (sqlite q) x = None"
        "prepared w = (prepared (sqlite q))(x \<mapsto> sql)" by blast
      have dom: "dom (prepared (sqlite q)) = other \<union> set out \<union> (the \<circ> entry_statement) ` set (statement_cache q)"
        using okq by (simp add: cache_ok_def)
      then have fresh: "x \<notin> other" "x \<notin> set out" "x \<notin> (the \<circ> entry_statement) ` set (statement_cache q)"
        using x(2) by auto
      have disj: "set out \<inter> other = {}" "distinct out" using okq by (simp_all add: cache_ok_def)
      have old: "\<exists>y. entry_statement e = Some y \<and> prepared w y = Some (entry_sql e) \<and> y \<notin> other \<and> y \<noteq> x \<and>
          (in_use e \<longleftrightarrow> y \<in> set out)" if e: "e \<in> set (statement_cache q)" for e
      proof -
        from okq e obtain y where y: "entry_statement e = Some y" "prepared (sqlite q) y = Some (entry_sql e)"
          "y \<notin> other" "in_use e \<longleftrightarrow> y \<in> set out" unfolding cache_ok_def by blast
        with x(2,3) show ?thesis by auto
      qed
      have dist: "distinct (map entry_statement (statement_cache q))" and len: "length (statement_cache q) \<le> 64"
        using okq by (simp_all add: cache_ok_def)
      obtain copied rest where al: "next_alloc (allocs q) = (copied, rest)" by (cases "next_alloc (allocs q)")
      let ?e = "\<lparr>entry_sql = sql, entry_statement = Some x, entry_catalog_generation = catalog_generation q,
        entry_sqlite_schema_generation = sqlite_schema_generation q, in_use = True\<rparr>"
      consider (cached) "length (statement_cache q) < 64" copied
        | (nocopy) "length (statement_cache q) < 64" "\<not> copied" | (uncached) "\<not> length (statement_cache q) < 64" by blast
      then show ?thesis
      proof cases
        case cached
        have "rc = MYLITE_OK" "h = Some x"
          "db' = q\<lparr>sqlite := w, allocs := rest, statement_cache := statement_cache q @ [?e]\<rparr>"
          using res' cached True prep x(1) al
          by (auto simp: append_cached_sqlite_statement_def prepare_uncached_sqlite_statement_def
              mylite_sqlite_status_to_mylite_def Let_def)
        moreover have "Some x \<notin> entry_statement ` set (statement_cache q)" using old by fastforce
        ultimately show ?thesis
          using fresh disj dist cached dom x(3) old
          by (simp, intro conjI cache_okI) (auto dest!: old)
      next
        case nocopy
        have f: "prepared (snd (api_finalize api (Some x) w)) = prepared (sqlite q)"
          using finalize_removes [of x w] x(2,3) by (simp add: fun_upd_idem)
        have "rc = MYLITE_NOMEM" "h = None"
          "db' = q\<lparr>sqlite := snd (api_finalize api (Some x) w), allocs := rest\<rparr>"
          using res' nocopy True prep x(1) al
          by (auto simp: append_cached_sqlite_statement_def prepare_uncached_sqlite_statement_def
              mylite_sqlite_status_to_mylite_def Let_def split: prod.splits)
        then show ?thesis using okq f by (simp add: cache_ok_def)
      next
        case uncached
        have "rc = MYLITE_OK" "h = Some x" "db' = q\<lparr>sqlite := w\<rparr>"
          using res' uncached True prep x(1)
          by (auto simp: prepare_uncached_sqlite_statement_def mylite_sqlite_status_to_mylite_def)
        then show ?thesis using fresh disj dist len dom x(3)
          by (simp, intro conjI cache_okI) (auto dest!: old)
      qed
    qed
  qed
qed

lemma finish_cached_ok:
  assumes ok: "cache_ok prepared other out db" and x: "x \<in> set out"
    and res: "mylite_execution_finish_cached_sqlite_statement api db (Some x) rc = (rc', db')"
  shows "cache_ok prepared other (removeAll x out) db'"
proof (cases "find_cached_sqlite_statement_by_handle db (Some x)")
  case None
  then have notin: "entry_statement e \<noteq> Some x" if "e \<in> set (statement_cache db)" for e
    using that by (fastforce simp: find_cached_sqlite_statement_by_handle_def find_None_iff in_set_conv_nth)
  have db': "db' = db\<lparr>sqlite := snd (api_finalize api (Some x) (sqlite db))\<rparr>"
    using res None
    by (auto simp: mylite_execution_finish_cached_sqlite_statement_def mylite_execution_finalize_sqlite_statement_def
        Let_def split: prod.splits if_splits)
  have old: "\<exists>y. entry_statement e = Some y \<and> prepared (sqlite db) y = Some (entry_sql e) \<and> y \<notin> other \<and> y \<noteq> x \<and>
      (in_use e \<longleftrightarrow> y \<in> set out)" if "e \<in> set (statement_cache db)" for e
    using ok that notin [OF that] unfolding cache_ok_def by fastforce
  have "x \<notin> (the \<circ> entry_statement) ` set (statement_cache db)" "x \<notin> other"
    using old ok x by (fastforce simp: cache_ok_def)+
  moreover have "dom (prepared (sqlite db)) = other \<union> set out \<union> (the \<circ> entry_statement) ` set (statement_cache db)"
    "length (statement_cache db) \<le> 64" "distinct (map entry_statement (statement_cache db))" "distinct out"
    "set out \<inter> other = {}" using ok by (simp_all add: cache_ok_def)
  ultimately show ?thesis unfolding db'
    by (intro cache_okI) (auto simp: finalize_removes distinct_removeAll dest!: old)
next
  case (Some i)
  then have i: "i < length (statement_cache db)" "entry_statement (statement_cache db ! i) = Some x"
    by (auto simp: find_cached_sqlite_statement_by_handle_def find_Some_iff)
  obtain r1 w1 where reset: "api_reset api (Some x) (sqlite db) = (r1, w1)" by (cases "api_reset api (Some x) (sqlite db)")
  obtain r2 w2 where clear: "(if r1 = SQLITE_OK then api_clear_bindings api (Some x) w1 else (r1, w1)) = (r2, w2)"
    by (cases "if r1 = SQLITE_OK then api_clear_bindings api (Some x) w1 else (r1, w1)")
  have w2: "prepared w2 = prepared (sqlite db)"
    using reset clear reset_keeps [of "Some x" "sqlite db"] clear_bindings_keeps [of "Some x" w1]
    by (auto split: if_splits)
  have okw: "cache_ok prepared other out (db\<lparr>sqlite := w2\<rparr>)" using ok w2 by (simp add: cache_ok_def)
  consider (failed) "rc \<noteq> MYLITE_OK" "db' = remove_cached_sqlite_statement api db i"
    | (dropped) "db' = remove_cached_sqlite_statement api (db\<lparr>sqlite := w2\<rparr>) i"
    | (kept) "db' = db\<lparr>sqlite := w2, statement_cache :=
        (statement_cache db)[i := (statement_cache db ! i)\<lparr>in_use := False\<rparr>]\<rparr>"
  proof (cases "rc = MYLITE_OK")
    case False
    with res Some show thesis by (intro failed) (simp_all add: mylite_execution_finish_cached_sqlite_statement_def)
  next
    case True
    note r = res [unfolded mylite_execution_finish_cached_sqlite_statement_def Some option.case, simplified True,
        unfolded reset Let_def, simplified, unfolded reset prod.case, unfolded clear]
    show thesis
    proof (cases "r2 = SQLITE_OK")
      case True
      with r show thesis by (intro kept) simp
    next
      case False
      with r show thesis by (intro dropped) simp
    qed
  qed
  then show ?thesis
  proof cases
    case failed
    with remove_cache_ok [OF ok i] show ?thesis by simp
  next
    case dropped
    with remove_cache_ok [OF okw, of i x] i show ?thesis by simp
  next
    case kept
    show ?thesis unfolding kept
      using ok by (intro mark_ok [OF ok i w2]) (auto simp: cache_ok_def distinct_removeAll)
  qed
qed

lemma execute_control_ok:
  assumes ok: "cache_ok prepared other out db" and sql: "has_statement sql"
  shows "cache_ok prepared other out (snd (mylite_execution_execute_cached_sqlite_control_sql api db sql))"
proof -
  obtain rc h db1 where prep: "mylite_execution_prepare_cached_sqlite_statement api db sql = (rc, h, db1)"
    by (cases "mylite_execution_prepare_cached_sqlite_statement api db sql") auto
  note p = prepare_cached_ok [OF ok sql prep]
  show ?thesis
  proof (cases "rc = MYLITE_OK")
    case False
    with p prep show ?thesis
      by (simp add: mylite_execution_execute_cached_sqlite_control_sql_def
          mylite_execution_finish_cached_sqlite_statement_def)
  next
    case True
    with p obtain x where x: "h = Some x" "x \<notin> set out" "cache_ok prepared other (x # out) db1" by auto
    obtain rs w where step: "api_step api (Some x) (sqlite db1) = (rs, w)" by (cases "api_step api (Some x) (sqlite db1)")
    have "cache_ok prepared other (x # out) (db1\<lparr>sqlite := w\<rparr>)"
      using x(3) step step_keeps [of "Some x" "sqlite db1"] by (simp add: cache_ok_def)
    from finish_cached_ok [OF this, of x] x(2) have
      "cache_ok prepared other out (snd (mylite_execution_finish_cached_sqlite_statement api (db1\<lparr>sqlite := w\<rparr>) (Some x) r))" for r
      by (cases "mylite_execution_finish_cached_sqlite_statement api (db1\<lparr>sqlite := w\<rparr>) (Some x) r")
        (simp add: removeAll_id)
    then show ?thesis using prep True x(1) step
      by (simp add: mylite_execution_execute_cached_sqlite_control_sql_def)
  qed
qed

lemma execute_schema_ok:
  assumes ok: "cache_ok prepared other out db"
  shows "cache_ok prepared other out (snd (mylite_execution_execute_sqlite_schema_sql api db sql))"
proof -
  obtain rs w where ex: "api_exec api sql (sqlite db) = (rs, w)" by (cases "api_exec api sql (sqlite db)")
  have okw: "cache_ok prepared other out (db\<lparr>sqlite := w\<rparr>)"
    using ok ex exec_keeps [of sql "sqlite db"] by (simp add: cache_ok_def)
  moreover have "cache_ok prepared other out (db\<lparr>sqlite := w, db_diagnostics := d\<rparr>)" for d
    using okw by (simp add: cache_ok_def)
  ultimately show ?thesis
    using clear_unused_ok [OF okw refl, of False] ex
    by (auto simp: mylite_execution_execute_sqlite_schema_sql_def Let_def clear_cached_sqlite_statements_def
        mylite_execution_diagnostics_set_nomem_error_def mylite_execution_diagnostics_set_physical_sqlite_error_def)
qed

lemma cache_step_ok:
  "cache_step api has_statement s t \<Longrightarrow> cache_ok prepared other (snd s) (fst s) \<Longrightarrow>
    cache_ok prepared other (snd t) (fst t)"
proof (induction rule: cache_step.induct)
  case (prepare sql db rc h db' out)
  then show ?case using prepare_cached_ok [of other out db sql rc h db'] by (auto split: if_splits)
next
  case (step x out db)
  then show ?case using step_keeps [of "Some x" "sqlite db"] by (simp add: cache_ok_def)
next
  case (finish x out db rc rc' db')
  then show ?case using finish_cached_ok [of other out db x rc rc' db'] by simp
next
  case (control sql db out)
  then show ?case using execute_control_ok [of other out db sql] by simp
next
  case (schema db out sql)
  then show ?case using execute_schema_ok [of other out db sql] by simp
next
  case (generations db out g s)
  then show ?case by (simp add: cache_ok_def)
qed

lemma cache_steps_ok:
  assumes "(cache_step api has_statement)\<^sup>*\<^sup>* (db, []) (db', out)" "statement_cache db = []"
  shows "cache_ok prepared (dom (prepared (sqlite db))) out db'"
proof -
  have "cache_ok prepared (dom (prepared (sqlite db))) [] db" using assms(2) by (simp add: cache_ok_def)
  with assms(1) have "cache_ok prepared (dom (prepared (sqlite db))) (snd (db', out)) (fst (db', out))"
  proof (induction rule: rtranclp_induct)
    case (step s t)
    then show ?case using cache_step_ok by blast
  qed simp
  then show ?thesis by simp
qed

end

section \<open>An implementation of the statement functions\<close>

text \<open>A table of statements that numbers them in order, for concrete runs.\<close>

record statement_table =
  table_statements :: "nat \<rightharpoonup> string"
  next_statement :: nat

definition table_statement_api :: "statement_table statement_api" where
  "table_statement_api =
     \<lparr>api_prepare = \<lambda>sql w. (SQLITE_OK, Some (next_statement w),
        w\<lparr>table_statements := (table_statements w)(next_statement w \<mapsto> sql), next_statement := next_statement w + 1\<rparr>),
      api_finalize = \<lambda>h w. (SQLITE_OK, case h of None \<Rightarrow> w
        | Some x \<Rightarrow> w\<lparr>table_statements := (table_statements w)(x := None)\<rparr>),
      api_step = \<lambda>h w. (SQLITE_DONE, w), api_reset = \<lambda>h w. (SQLITE_OK, w),
      api_clear_bindings = \<lambda>h w. (SQLITE_OK, w), api_exec = \<lambda>sql w. (SQLITE_OK, w),
      api_get_autocommit = \<lambda>w. 1, api_errmsg = \<lambda>w. ''not an error''\<rparr>"

text \<open>The statements below the next number; later ones do not exist yet.\<close>

definition table_prepared :: "statement_table \<Rightarrow> nat \<rightharpoonup> string" where
  "table_prepared w = (\<lambda>x. if x < next_statement w then table_statements w x else None)"

interpretation statement_table: sqlite_statements table_statement_api table_prepared "\<lambda>sql. True"
  by unfold_locales (auto simp: table_statement_api_def table_prepared_def fun_eq_iff)

section \<open>Properties\<close>

text \<open>
  Property C17. Over every sequence of operations on an initially empty statement cache,
  failures included: the cache never exceeds its limit; no statement is handed to two clients
  at once; a statement a client holds exists until the client finishes it; every cached
  statement was prepared from the text of its entry, and is in use exactly when a client holds
  it; and no statement leaks: the ones that exist are those of other components, those held by
  clients and those in the cache.
\<close>

theorem statement_cache_exclusive:
  assumes "sqlite_statements api prepared has_statement" "statement_cache db = []"
    and "(cache_step api has_statement)\<^sup>*\<^sup>* (db, []) (db', out)"
  shows "length (statement_cache db') \<le> MYLITE_EXECUTION_STATEMENT_CACHE_LIMIT \<and> distinct out \<and>
    set out \<subseteq> dom (prepared (sqlite db')) - dom (prepared (sqlite db)) \<and>
    distinct (map entry_statement (statement_cache db')) \<and>
    (\<forall>e \<in> set (statement_cache db'). \<exists>x. entry_statement e = Some x \<and>
      prepared (sqlite db') x = Some (entry_sql e) \<and> (in_use e \<longleftrightarrow> x \<in> set out)) \<and>
    dom (prepared (sqlite db')) = dom (prepared (sqlite db)) \<union> set out \<union>
      (the \<circ> entry_statement) ` set (statement_cache db')"
  using sqlite_statements.cache_steps_ok [OF assms(1,3,2)] unfolding cache_ok_def by blast

definition example_cache_db :: "statement_table cache_db" where
  "example_cache_db = \<lparr>sqlite = \<lparr>table_statements = Map.empty, next_statement = 0\<rparr>, statement_cache = [],
     catalog_generation = 1, sqlite_schema_generation = 1, allocs = [], db_diagnostics = example_area\<rparr>"

theorem statement_cache_exclusive_witness:
  "length (statement_cache (snd (mylite_execution_execute_cached_sqlite_control_sql table_statement_api
     example_cache_db ''BEGIN''))) \<le> 64"
proof -
  have "(cache_step table_statement_api (\<lambda>sql. True))\<^sup>*\<^sup>* (example_cache_db, [])
    (snd (mylite_execution_execute_cached_sqlite_control_sql table_statement_api example_cache_db ''BEGIN''), [])"
    by (intro r_into_rtranclp cache_step.control) simp
  from statement_cache_exclusive [OF statement_table.sqlite_statements_axioms _ this] show ?thesis
    by (simp add: example_cache_db_def)
qed

text \<open>
  Preparing through the cache returns a statement that was prepared from exactly
  the requested text and that no other client holds, or no statement and an error; closing the
  cache when no client holds a statement finalizes every cached one and nothing else.
\<close>

theorem prepare_cached_outcome:
  assumes "sqlite_statements api prepared has_statement" "statement_cache db = []"
    and "(cache_step api has_statement)\<^sup>*\<^sup>* (db, []) (db', out)" and "has_statement sql"
    and "mylite_execution_prepare_cached_sqlite_statement api db' sql = (rc, h, db'')"
  shows "(if rc = MYLITE_OK then \<exists>x. h = Some x \<and> x \<notin> set out \<and> prepared (sqlite db'') x = Some sql else h = None) \<and>
    (out = [] \<longrightarrow> statement_cache (mylite_execution_statement_cache_deinit api db') = [] \<and>
      dom (prepared (sqlite (mylite_execution_statement_cache_deinit api db'))) = dom (prepared (sqlite db)))"
proof -
  from sqlite_statements.cache_steps_ok [OF assms(1,3,2)]
  have ok: "cache_ok prepared (dom (prepared (sqlite db))) out db'" .
  have "statement_cache (mylite_execution_statement_cache_deinit api db') = [] \<and>
      dom (prepared (sqlite (mylite_execution_statement_cache_deinit api db'))) = dom (prepared (sqlite db))"
    if "out = []"
  proof -
    from sqlite_statements.clear_all_ok [OF assms(1) ok [unfolded that]]
    have c: "cache_ok prepared (dom (prepared (sqlite db))) [] (mylite_execution_statement_cache_deinit api db')"
      "statement_cache (mylite_execution_statement_cache_deinit api db') = []"
      by (simp_all add: mylite_execution_statement_cache_deinit_def clear_cached_sqlite_statements_def)
    from c(1) have "dom (prepared (sqlite (mylite_execution_statement_cache_deinit api db'))) =
        dom (prepared (sqlite db)) \<union> set [] \<union>
        (the \<circ> entry_statement) ` set (statement_cache (mylite_execution_statement_cache_deinit api db'))"
      unfolding cache_ok_def by blast
    with c(2) show ?thesis by simp
  qed
  moreover have "if rc = MYLITE_OK then \<exists>x. h = Some x \<and> x \<notin> set out \<and> prepared (sqlite db'') x = Some sql else h = None"
    using sqlite_statements.prepare_cached_ok [OF assms(1) ok assms(4,5)] by (auto split: if_splits)
  ultimately show ?thesis by blast
qed

theorem prepare_cached_outcome_witness:
  "\<exists>x db''. mylite_execution_prepare_cached_sqlite_statement table_statement_api example_cache_db ''BEGIN'' =
    (MYLITE_OK, Some x, db'') \<and> table_prepared (sqlite db'') x = Some ''BEGIN''"
proof -
  obtain rc h db'' where r: "mylite_execution_prepare_cached_sqlite_statement table_statement_api example_cache_db ''BEGIN'' =
    (rc, h, db'')" by (cases "mylite_execution_prepare_cached_sqlite_statement table_statement_api example_cache_db ''BEGIN''") auto
  have "rc = MYLITE_OK"
    using r by (simp add: mylite_execution_prepare_cached_sqlite_statement_def prune_stale_cached_sqlite_statements_def
        prune_loop.simps example_cache_db_def find_available_cached_sqlite_statement_def append_cached_sqlite_statement_def
        prepare_uncached_sqlite_statement_def table_statement_api_def mylite_sqlite_status_to_mylite_def Let_def)
  with prepare_cached_outcome [OF statement_table.sqlite_statements_axioms _ rtranclp.rtrancl_refl _ r] r show ?thesis
    by (simp add: example_cache_db_def)
qed

end
