(* ===== verification/Sqlite_Transactions.thy ===== *)
theory Sqlite_Transactions
  imports Statement_Cache
begin

text \<open>
  What SQLite promises of transaction control, as far as the runtime relies on it: the stack of
  the open transaction and its savepoints, and, for each, the value the stored catalog generation
  had when it was opened, which a rollback restores. A control statement that succeeds has its
  documented effect; one that fails has none, or SQLite has rolled the transaction back by
  itself. The contract is the locale \<open>sqlite_transactions\<close>; control statements executed
  through the statement cache keep it.
\<close>

section \<open>Transactions and savepoints\<close>

record transaction_view =
  stored_generation :: u64
  open_levels :: "(string \<times> u64) list"

datatype control = Begin | Savepoint string | Release string | RollbackTo string | Commit | Rollback

definition control_meaning :: "string \<Rightarrow> control option" where
  "control_meaning sql =
     (if sql = ''BEGIN'' \<or> sql = ''BEGIN IMMEDIATE'' then Some Begin
      else if sql = ''COMMIT'' then Some Commit
      else if sql = ''ROLLBACK'' then Some Rollback
      else if take 22 sql = ''ROLLBACK TO SAVEPOINT '' then Some (RollbackTo (drop 22 sql))
      else if take 18 sql = ''RELEASE SAVEPOINT '' then Some (Release (drop 18 sql))
      else if take 10 sql = ''SAVEPOINT '' then Some (Savepoint (drop 10 sql))
      else None)"

definition levels_from :: "string \<Rightarrow> (string \<times> u64) list \<Rightarrow> (string \<times> u64) list" where
  "levels_from n = dropWhile (\<lambda>(m, g). m \<noteq> n)"

fun control_result :: "control \<Rightarrow> transaction_view \<Rightarrow> transaction_view option" where
  "control_result Begin v =
     (if open_levels v = [] then Some (v\<lparr>open_levels := [('''', stored_generation v)]\<rparr>) else None)"
| "control_result (Savepoint n) v = Some (v\<lparr>open_levels := (n, stored_generation v) # open_levels v\<rparr>)"
| "control_result (Release n) v =
     (case levels_from n (open_levels v) of [] \<Rightarrow> None | _ # rest \<Rightarrow> Some (v\<lparr>open_levels := rest\<rparr>))"
| "control_result (RollbackTo n) v =
     (case levels_from n (open_levels v) of
        [] \<Rightarrow> None
      | (m, g) # rest \<Rightarrow> Some (v\<lparr>stored_generation := g, open_levels := (m, g) # rest\<rparr>))"
| "control_result Commit v = (if open_levels v = [] then None else Some (v\<lparr>open_levels := []\<rparr>))"
| "control_result Rollback v =
     (if open_levels v = [] then None
      else Some (v\<lparr>stored_generation := snd (last (open_levels v)), open_levels := []\<rparr>))"

lemma control_meanings [simp]:
  "control_meaning ''BEGIN'' = Some Begin" "control_meaning ''BEGIN IMMEDIATE'' = Some Begin"
  "control_meaning ''COMMIT'' = Some Commit" "control_meaning ''ROLLBACK'' = Some Rollback"
  "control_meaning ''SAVEPOINT _mylite_catalog_mutation'' = Some (Savepoint ''_mylite_catalog_mutation'')"
  "control_meaning ''RELEASE SAVEPOINT _mylite_catalog_mutation'' = Some (Release ''_mylite_catalog_mutation'')"
  "control_meaning ''ROLLBACK TO SAVEPOINT _mylite_catalog_mutation'' = Some (RollbackTo ''_mylite_catalog_mutation'')"
  "control_meaning ''SAVEPOINT _mylite_catalog_generation'' = Some (Savepoint ''_mylite_catalog_generation'')"
  "control_meaning ''RELEASE SAVEPOINT _mylite_catalog_generation'' = Some (Release ''_mylite_catalog_generation'')"
  "control_meaning ''ROLLBACK TO SAVEPOINT _mylite_catalog_generation'' = Some (RollbackTo ''_mylite_catalog_generation'')"
  by (simp_all add: control_meaning_def)

lemma levels_from_simps [simp]:
  "levels_from n ((n, g) # ls) = (n, g) # ls" "levels_from n [] = []"
  by (simp_all add: levels_from_def)

text \<open>The view after SQLite has rolled back by itself.\<close>

definition aborted :: "transaction_view \<Rightarrow> transaction_view" where
  "aborted v = (if open_levels v = [] then v
     else v\<lparr>stored_generation := snd (last (open_levels v)), open_levels := []\<rparr>)"

lemma rollback_aborted: "control_result Rollback v = Some v' \<Longrightarrow> v' = aborted v"
  by (auto simp: aborted_def split: if_splits)

lemma aborted_levels [simp]: "open_levels (aborted v) = []"
  by (simp add: aborted_def)

lemma aborted_aborted [simp]: "aborted (aborted v) = aborted v"
  by (simp add: aborted_def)

section \<open>Frames of the cache operations\<close>

text \<open>The fields of the connection the cache operations do not touch.\<close>

definition same_session :: "('w, 'z) cache_db_scheme \<Rightarrow> ('w, 'z) cache_db_scheme \<Rightarrow> bool" where
  "same_session db db' \<longleftrightarrow> (\<exists>w c a. db' = db\<lparr>sqlite := w, statement_cache := c, allocs := a\<rparr>)"

lemma same_session_refl [simp]: "same_session db db"
  unfolding same_session_def by (intro exI [of _ "sqlite db"] exI [of _ "statement_cache db"] exI [of _ "allocs db"]) simp

lemma same_session_trans: "same_session a b \<Longrightarrow> same_session b c \<Longrightarrow> same_session a c"
  unfolding same_session_def by force

lemma same_session_updates [simp]:
  "same_session db (db\<lparr>sqlite := w\<rparr>)" "same_session db (db\<lparr>statement_cache := c\<rparr>)"
  "same_session db (db\<lparr>allocs := a\<rparr>)" "same_session db (db\<lparr>sqlite := w, statement_cache := c\<rparr>)"
proof -
  show "same_session db (db\<lparr>sqlite := w\<rparr>)" unfolding same_session_def
    by (intro exI [of _ w] exI [of _ "statement_cache db"] exI [of _ "allocs db"]) simp
  show "same_session db (db\<lparr>statement_cache := c\<rparr>)" unfolding same_session_def
    by (intro exI [of _ "sqlite db"] exI [of _ c] exI [of _ "allocs db"]) simp
  show "same_session db (db\<lparr>allocs := a\<rparr>)" unfolding same_session_def
    by (intro exI [of _ "sqlite db"] exI [of _ "statement_cache db"] exI [of _ a]) simp
  show "same_session db (db\<lparr>sqlite := w, statement_cache := c\<rparr>)" unfolding same_session_def
    by (intro exI [of _ w] exI [of _ c] exI [of _ "allocs db"]) simp
qed

lemma remove_session: "same_session db (remove_cached_sqlite_statement api db i)"
  by (auto simp: remove_cached_sqlite_statement_def Let_def split: prod.splits)

lemma prune_session: "same_session db (prune_loop api db i)"
proof (induction api db i rule: prune_loop.induct)
  case (1 api db i)
  show ?case
    by (subst prune_loop.simps) (use 1 in \<open>auto simp: Let_def intro: same_session_trans [OF remove_session]\<close>)
qed

lemma prepare_uncached_session:
  "prepare_uncached_sqlite_statement api db sql = (rc, h, db') \<Longrightarrow> same_session db db'"
  by (auto simp: prepare_uncached_sqlite_statement_def Let_def split: prod.splits if_splits)

lemma append_session: "append_cached_sqlite_statement api db sql = (rc, h, db') \<Longrightarrow> same_session db db'"
proof -
  assume r: "append_cached_sqlite_statement api db sql = (rc, h, db')"
  obtain rc1 h1 db1 where p: "prepare_uncached_sqlite_statement api db sql = (rc1, h1, db1)"
    by (cases "prepare_uncached_sqlite_statement api db sql") auto
  note q = prepare_uncached_session [OF p]
  have t: "same_session db (db1\<lparr>allocs := a, sqlite := w\<rparr>)" "same_session db (db1\<lparr>allocs := a, statement_cache := c\<rparr>)" for a w c
    using q by (blast intro: same_session_trans same_session_updates)+
  show ?thesis using r p q t by (auto simp: append_cached_sqlite_statement_def Let_def split: prod.splits if_splits)
qed

lemma evict_session: "same_session db (evict_available_cached_sqlite_statement api db)"
  by (auto simp: evict_available_cached_sqlite_statement_def remove_session split: option.splits)

lemma prepare_cached_session:
  assumes "mylite_execution_prepare_cached_sqlite_statement api db sql = (rc, h, db')"
  shows "same_session db db'"
proof -
  define p where "p = prune_stale_cached_sqlite_statements api db"
  have p: "same_session db p" unfolding p_def prune_stale_cached_sqlite_statements_def by (rule prune_session)
  define q where "q = (if length (statement_cache p) \<ge> 64 then evict_available_cached_sqlite_statement api p else p)"
  have q: "same_session db q" unfolding q_def using p by (auto intro: same_session_trans evict_session)
  note r = assms [unfolded mylite_execution_prepare_cached_sqlite_statement_def Let_def, folded p_def, folded q_def]
  show ?thesis
  proof (cases "find_available_cached_sqlite_statement p sql")
    case None
    with r q show ?thesis
      by (auto dest: append_session prepare_uncached_session intro: same_session_trans split: if_splits)
  next
    case (Some i)
    with r p show ?thesis by (auto intro: same_session_trans)
  qed
qed

lemma finish_cached_session:
  assumes "mylite_execution_finish_cached_sqlite_statement api db h rc = (rc', db')"
  shows "same_session db db'"
proof -
  have rem: "same_session db (remove_cached_sqlite_statement api (db\<lparr>sqlite := w\<rparr>) i)" for w i
    by (rule same_session_trans [OF same_session_updates(1) remove_session])
  show ?thesis using assms
    by (auto simp: mylite_execution_finish_cached_sqlite_statement_def mylite_execution_finalize_sqlite_statement_def
        Let_def remove_session rem split: if_splits option.splits prod.splits)
qed

lemma execute_control_session:
  assumes "mylite_execution_execute_cached_sqlite_control_sql api db sql = (rc, db')"
  shows "same_session db db'"
proof -
  obtain rc1 h db1 where p: "mylite_execution_prepare_cached_sqlite_statement api db sql = (rc1, h, db1)"
    by (cases "mylite_execution_prepare_cached_sqlite_statement api db sql") auto
  note s1 = prepare_cached_session [OF p]
  have s2: "same_session db (db1\<lparr>sqlite := w\<rparr>)" for w by (rule same_session_trans [OF s1]) simp
  show ?thesis using assms p s1 s2
    by (auto simp: mylite_execution_execute_cached_sqlite_control_sql_def split: if_splits prod.splits
        dest!: finish_cached_session intro: same_session_trans)
qed

section \<open>The contract\<close>

locale sqlite_transactions = sqlite_statements api prepared has_statement
  for api :: "'w statement_api" and prepared :: "'w \<Rightarrow> nat \<rightharpoonup> string" and has_statement :: "string \<Rightarrow> bool" +
  fixes view :: "'w \<Rightarrow> transaction_view"
  assumes prepare_view: "view (snd (snd (api_prepare api sql w))) = view w"
    and finalize_view: "view (snd (api_finalize api h w)) = view w"
    and reset_view: "view (snd (api_reset api h w)) = view w"
    and clear_bindings_view: "view (snd (api_clear_bindings api h w)) = view w"
    and step_done: "prepared w x = Some sql \<Longrightarrow> control_meaning sql = Some c \<Longrightarrow>
      api_step api (Some x) w = (SQLITE_DONE, w') \<Longrightarrow> control_result c (view w) = Some (view w')"
    and step_fails: "prepared w x = Some sql \<Longrightarrow> control_meaning sql = Some c \<Longrightarrow>
      api_step api (Some x) w = (rc, w') \<Longrightarrow> rc \<noteq> SQLITE_DONE \<Longrightarrow>
      rc \<noteq> SQLITE_OK \<and> (view w' = view w \<or> view w' = aborted (view w))"
    and exec_done: "control_meaning sql = Some c \<Longrightarrow> api_exec api sql w = (SQLITE_OK, w') \<Longrightarrow>
      control_result c (view w) = Some (view w')"
    and exec_fails: "control_meaning sql = Some c \<Longrightarrow> api_exec api sql w = (rc, w') \<Longrightarrow> rc \<noteq> SQLITE_OK \<Longrightarrow>
      view w' = view w \<or> view w' = aborted (view w)"
    and autocommit_view: "api_get_autocommit api w = 0 \<longleftrightarrow> open_levels (view w) \<noteq> []"
    and control_has_statement: "control_meaning sql = Some c \<Longrightarrow> has_statement sql"
begin

lemma remove_view: "view (sqlite (remove_cached_sqlite_statement api db i)) = view (sqlite db)"
  using finalize_view [of "entry_statement (statement_cache db ! i)" "sqlite db"]
  by (auto simp: remove_cached_sqlite_statement_def Let_def split: prod.splits)

lemma prune_view: "a = api \<Longrightarrow> view (sqlite (prune_loop a db i)) = view (sqlite db)"
proof (induction a db i rule: prune_loop.induct)
  case (1 a db i)
  show ?case by (subst prune_loop.simps) (use 1 in \<open>auto simp: Let_def remove_view\<close>)
qed

lemma evict_view: "view (sqlite (evict_available_cached_sqlite_statement api db)) = view (sqlite db)"
  by (auto simp: evict_available_cached_sqlite_statement_def remove_view split: option.splits)

lemma prepare_uncached_view:
  "prepare_uncached_sqlite_statement api db sql = (rc, h, db') \<Longrightarrow> view (sqlite db') = view (sqlite db)"
  using prepare_view [of sql "sqlite db"]
  by (auto simp: prepare_uncached_sqlite_statement_def Let_def split: prod.splits if_splits)

lemma append_view: "append_cached_sqlite_statement api db sql = (rc, h, db') \<Longrightarrow> view (sqlite db') = view (sqlite db)"
proof -
  assume r: "append_cached_sqlite_statement api db sql = (rc, h, db')"
  obtain rc1 h1 db1 where p: "prepare_uncached_sqlite_statement api db sql = (rc1, h1, db1)"
    by (cases "prepare_uncached_sqlite_statement api db sql") auto
  show ?thesis using r p prepare_uncached_view [OF p] finalize_view [of h1 "sqlite db1"]
    by (auto simp: append_cached_sqlite_statement_def Let_def split: prod.splits if_splits)
qed

lemma prepare_cached_view:
  assumes "mylite_execution_prepare_cached_sqlite_statement api db sql = (rc, h, db')"
  shows "view (sqlite db') = view (sqlite db)"
proof -
  define p where "p = prune_stale_cached_sqlite_statements api db"
  have p: "view (sqlite p) = view (sqlite db)"
    unfolding p_def prune_stale_cached_sqlite_statements_def by (rule prune_view [OF refl])
  define q where "q = (if length (statement_cache p) \<ge> 64 then evict_available_cached_sqlite_statement api p else p)"
  have q: "view (sqlite q) = view (sqlite db)" unfolding q_def using p by (simp add: evict_view)
  note r = assms [unfolded mylite_execution_prepare_cached_sqlite_statement_def Let_def, folded p_def, folded q_def]
  show ?thesis
  proof (cases "find_available_cached_sqlite_statement p sql")
    case None
    with r q show ?thesis by (auto dest: append_view prepare_uncached_view split: if_splits)
  next
    case (Some i)
    with r p show ?thesis by auto
  qed
qed

lemma finish_cached_view:
  assumes "mylite_execution_finish_cached_sqlite_statement api db h rc = (rc', db')"
  shows "view (sqlite db') = view (sqlite db)"
proof -
  obtain r1 w1 where reset: "api_reset api h (sqlite db) = (r1, w1)" by (cases "api_reset api h (sqlite db)")
  obtain r2 w2 where clear: "api_clear_bindings api h w1 = (r2, w2)" by (cases "api_clear_bindings api h w1")
  have "view w1 = view (sqlite db)" "view w2 = view (sqlite db)"
    using reset_view [of h "sqlite db"] clear_bindings_view [of h w1] reset clear by simp_all
  then show ?thesis using assms finalize_view [of h "sqlite db"] reset clear
    by (auto simp: mylite_execution_finish_cached_sqlite_statement_def mylite_execution_finalize_sqlite_statement_def
        Let_def remove_view split: if_splits option.splits prod.splits)
qed

lemma finish_failed:
  "rc \<noteq> MYLITE_OK \<Longrightarrow> fst (mylite_execution_finish_cached_sqlite_statement api db h rc) = rc"
  by (auto simp: mylite_execution_finish_cached_sqlite_statement_def mylite_execution_finalize_sqlite_statement_def
      Let_def split: option.splits prod.splits)

text \<open>A control statement through the cache: success is the effect, failure none or a rollback.\<close>

lemma execute_control_view:
  assumes ok: "cache_ok prepared other out db" and c: "control_meaning sql = Some c"
    and res: "mylite_execution_execute_cached_sqlite_control_sql api db sql = (rc, db')"
  shows "rc = MYLITE_OK \<Longrightarrow> control_result c (view (sqlite db)) = Some (view (sqlite db'))"
    and "rc \<noteq> MYLITE_OK \<Longrightarrow> view (sqlite db') = view (sqlite db) \<or> view (sqlite db') = aborted (view (sqlite db)) \<or>
      control_result c (view (sqlite db)) = Some (view (sqlite db'))"
    and "cache_ok prepared other out db'"
proof -
  obtain rc1 h db1 where p: "mylite_execution_prepare_cached_sqlite_statement api db sql = (rc1, h, db1)"
    by (cases "mylite_execution_prepare_cached_sqlite_statement api db sql") auto
  note prep = prepare_cached_ok [OF ok control_has_statement [OF c] p] and pv = prepare_cached_view [OF p]
  have "(rc = MYLITE_OK \<longrightarrow> control_result c (view (sqlite db)) = Some (view (sqlite db'))) \<and>
    (rc \<noteq> MYLITE_OK \<longrightarrow> view (sqlite db') = view (sqlite db) \<or> view (sqlite db') = aborted (view (sqlite db)) \<or>
      control_result c (view (sqlite db)) = Some (view (sqlite db')))"
  proof (cases "rc1 = MYLITE_OK")
    case False
    with res p prep pv show ?thesis
      by (auto simp: mylite_execution_execute_cached_sqlite_control_sql_def
          mylite_execution_finish_cached_sqlite_statement_def)
  next
    case True
    with prep obtain x where x: "h = Some x" "prepared (sqlite db1) x = Some sql" by auto
    obtain rs w where step: "api_step api (Some x) (sqlite db1) = (rs, w)" by (cases "api_step api (Some x) (sqlite db1)")
    let ?r = "if rs = SQLITE_DONE then MYLITE_OK else mylite_sqlite_status_to_mylite rs"
    have fin: "mylite_execution_finish_cached_sqlite_statement api (db1\<lparr>sqlite := w\<rparr>) (Some x) ?r = (rc, db')"
      using res p True x(1) step by (simp add: mylite_execution_execute_cached_sqlite_control_sql_def)
    have v: "view (sqlite db') = view w" using finish_cached_view [OF fin] by simp
    show ?thesis
    proof (cases "rs = SQLITE_DONE")
      case True
      with step_done [OF x(2) c] step have "control_result c (view (sqlite db1)) = Some (view w)" by simp
      with v pv show ?thesis by simp
    next
      case False
      with step_fails [OF x(2) c step] have
        f: "rs \<noteq> SQLITE_OK" "view w = view (sqlite db1) \<or> view w = aborted (view (sqlite db1))" by auto
      then have "?r \<noteq> MYLITE_OK" using False by (simp add: mylite_sqlite_status_to_mylite_def)
      from finish_failed [OF this, of "db1\<lparr>sqlite := w\<rparr>" "Some x"] fin \<open>?r \<noteq> MYLITE_OK\<close> have "rc \<noteq> MYLITE_OK" by simp
      with f(2) v pv show ?thesis by auto
    qed
  qed
  then show "rc = MYLITE_OK \<Longrightarrow> control_result c (view (sqlite db)) = Some (view (sqlite db'))"
    "rc \<noteq> MYLITE_OK \<Longrightarrow> view (sqlite db') = view (sqlite db) \<or> view (sqlite db') = aborted (view (sqlite db)) \<or>
      control_result c (view (sqlite db)) = Some (view (sqlite db'))" by auto
  show "cache_ok prepared other out db'"
    using execute_control_ok [OF ok control_has_statement [OF c]] res by (metis snd_conv)
qed

end

end
