(* ===== verification/Catalog_Sqlite.thy ===== *)
theory Catalog_Sqlite
  imports Sqlite_Transactions
begin

text \<open>
  The catalog's access to its tables, \<^verbatim>\<open>runtime/mylite_catalog_sqlite.c\<close>: its own cache of
  prepared statements, the checked reads and binds of integers, and, over them, the queries
  of \<^verbatim>\<open>runtime/mylite_catalog_state.c\<close> and \<^verbatim>\<open>runtime/mylite_catalog_integrity_seal.c\<close> that
  read and write the row of \<^verbatim>\<open>_mylite_catalog_state\<close>. The connection that owns the SQLite
  handle is the one the functions are called for; it and its handle are never null here. What
  SQLite promises of rows, bindings and updates is the locale \<open>catalog_rows\<close>, and the lemmas in
  it say what each query does to the stored generation and to the statements.
\<close>

section \<open>State and parameters\<close>

abbreviation (input) SQLITE_ROW :: int where "SQLITE_ROW \<equiv> 100"
abbreviation (input) SQLITE_INTEGER :: int where "SQLITE_INTEGER \<equiv> 1"
abbreviation (input) MYLITE_CATALOG_STATEMENT_CACHE_LIMIT :: nat where
  "MYLITE_CATALOG_STATEMENT_CACHE_LIMIT \<equiv> 64"
abbreviation (input) MYLITE_CATALOG_SCHEMA_VERSION :: int where "MYLITE_CATALOG_SCHEMA_VERSION \<equiv> 38"
abbreviation (input) FILE_LEGACY_FORMAT_VERSION :: int where "FILE_LEGACY_FORMAT_VERSION \<equiv> 1"
abbreviation (input) FILE_FORMAT_VERSION :: int where "FILE_FORMAT_VERSION \<equiv> 3"

record catalog =
  initialized :: bool
  schema_version :: "32 word"
  generation :: u64
  integrity_catalog_generation :: u64
  integrity_sqlite_schema_version :: u64
  cached_generation :: u64
  observed_data_version :: u64
  descriptor_cache_is_valid :: bool
  descriptor_cache_is_suspended :: bool
  has_observed_data_version :: bool

record catalog_statement =
  catalog_sql :: string
  catalog_handle :: "nat option"
  catalog_in_use :: bool

datatype transaction_isolation = REPEATABLE_READ | READ_COMMITTED | READ_UNCOMMITTED | SERIALIZABLE
datatype transaction_access_mode = READ_WRITE | READ_ONLY

text \<open>The fields of the connection and its session that catalog and transactions use.\<close>

record ('w, 'c) connection = "'w cache_db" +
  catalog :: catalog
  catalog_statements :: "catalog_statement list"
  descriptor_caches :: 'c
  user_transaction_active :: bool
  autocommit_enabled :: bool
  catalog_snapshot_synchronized :: bool
  session_transaction_isolation :: transaction_isolation
  next_transaction_isolation :: transaction_isolation
  active_transaction_isolation :: transaction_isolation
  session_transaction_access_mode :: transaction_access_mode
  next_transaction_access_mode :: transaction_access_mode
  has_next_transaction_isolation :: bool
  has_next_transaction_access_mode :: bool
  next_transaction_isolation_from_system_variable :: bool
  next_transaction_access_mode_from_system_variable :: bool
  active_transaction_read_only :: bool
  write_plan_generation_guard_active :: bool
  write_plan_catalog_generation :: u64
  writer_stable_planning_transaction_active :: bool
  defer_catalog_integrity_seal :: bool
  transaction_state_uncertain :: bool

text \<open>SQLite's functions on rows and bindings.\<close>

record 'w row_api =
  api_column_type :: "nat option \<Rightarrow> nat \<Rightarrow> 'w \<Rightarrow> int"
  api_column_int64 :: "nat option \<Rightarrow> nat \<Rightarrow> 'w \<Rightarrow> u64"
  api_bind_int64 :: "nat option \<Rightarrow> nat \<Rightarrow> u64 \<Rightarrow> 'w \<Rightarrow> int \<times> 'w"
  api_changes :: "'w \<Rightarrow> int"

type_synonym ('w, 'c) db_result = "int \<times> ('w, 'c) connection"

definition blank_catalog :: catalog where
  "blank_catalog = \<lparr>initialized = False, schema_version = 0, generation = 0, integrity_catalog_generation = 0,
     integrity_sqlite_schema_version = 0, cached_generation = 0, observed_data_version = 0,
     descriptor_cache_is_valid = False, descriptor_cache_is_suspended = False, has_observed_data_version = False\<rparr>"

section \<open>Statements\<close>

definition prepare_uncached_statement ::
    "'w statement_api \<Rightarrow> ('w, 'c) connection \<Rightarrow> string \<Rightarrow> int \<times> nat option \<times> ('w, 'c) connection" where
  "prepare_uncached_statement api db sql =
     (let (sqlite_rc, statement, w) = api_prepare api sql (sqlite db); db = db\<lparr>sqlite := w\<rparr>
      in if sqlite_rc \<noteq> SQLITE_OK then (mylite_sqlite_status_to_mylite sqlite_rc, None, db)
         else (MYLITE_OK, statement, db))"

definition find_available_cached_statement :: "('w, 'c) connection \<Rightarrow> string \<Rightarrow> nat option" where
  "find_available_cached_statement db sql =
     List.find (\<lambda>i. \<not> catalog_in_use (catalog_statements db ! i) \<and> catalog_sql (catalog_statements db ! i) = sql)
       [0..<length (catalog_statements db)]"

definition append_cached_statement ::
    "'w statement_api \<Rightarrow> ('w, 'c) connection \<Rightarrow> string \<Rightarrow> int \<times> nat option \<times> ('w, 'c) connection" where
  "append_cached_statement api db sql =
     (let (rc, statement, db) = prepare_uncached_statement api db sql
      in if rc \<noteq> MYLITE_OK then (rc, None, db)
         else (let (copied, rest) = next_alloc (allocs db); db = db\<lparr>allocs := rest\<rparr>
               in if \<not> copied
                  then (let (_, w) = api_finalize api statement (sqlite db) in (MYLITE_NOMEM, None, db\<lparr>sqlite := w\<rparr>))
                  else (MYLITE_OK, statement, db\<lparr>catalog_statements := catalog_statements db @
                    [\<lparr>catalog_sql = sql, catalog_handle = statement, catalog_in_use = True\<rparr>]\<rparr>)))"

definition prepare_cached_statement ::
    "'w statement_api \<Rightarrow> ('w, 'c) connection \<Rightarrow> string \<Rightarrow> int \<times> nat option \<times> ('w, 'c) connection" where
  "prepare_cached_statement api db sql =
     (case find_available_cached_statement db sql of
        Some i \<Rightarrow>
          (MYLITE_OK, catalog_handle (catalog_statements db ! i),
           db\<lparr>catalog_statements := (catalog_statements db)[i := (catalog_statements db ! i)\<lparr>catalog_in_use := True\<rparr>]\<rparr>)
      | None \<Rightarrow>
          if length (catalog_statements db) < MYLITE_CATALOG_STATEMENT_CACHE_LIMIT
          then append_cached_statement api db sql
          else prepare_uncached_statement api db sql)"

definition mylite_catalog_prepare_statement ::
    "'w statement_api \<Rightarrow> ('w, 'c) connection \<Rightarrow> string \<Rightarrow> int \<times> nat option \<times> ('w, 'c) connection" where
  "mylite_catalog_prepare_statement api db sql =
     (if initialized (catalog db) then prepare_cached_statement api db sql
      else prepare_uncached_statement api db sql)"

definition find_cached_statement_by_handle :: "('w, 'c) connection \<Rightarrow> nat option \<Rightarrow> nat option" where
  "find_cached_statement_by_handle db statement =
     (if statement = None then None
      else List.find (\<lambda>i. catalog_handle (catalog_statements db ! i) = statement) [0..<length (catalog_statements db)])"

definition mylite_catalog_finalize_statement ::
    "'w statement_api \<Rightarrow> ('w, 'c) connection \<Rightarrow> nat option \<Rightarrow> int \<Rightarrow> ('w, 'c) db_result" where
  "mylite_catalog_finalize_statement api db statement rc =
     (if statement = None then (rc, db)
      else (case find_cached_statement_by_handle db statement of
              Some i \<Rightarrow>
                (let (sqlite_rc, w) = api_reset api statement (sqlite db);
                     (clear_rc, w) = api_clear_bindings api statement w;
                     sqlite_rc = (if sqlite_rc = SQLITE_OK then clear_rc else sqlite_rc);
                     db = db\<lparr>sqlite := w, catalog_statements :=
                       (catalog_statements db)[i := (catalog_statements db ! i)\<lparr>catalog_in_use := False\<rparr>]\<rparr>
                 in (if rc \<noteq> MYLITE_OK then rc else mylite_sqlite_status_to_mylite sqlite_rc, db))
            | None \<Rightarrow>
                (let (sqlite_rc, w) = api_finalize api statement (sqlite db)
                 in (if rc \<noteq> MYLITE_OK then rc else mylite_sqlite_status_to_mylite sqlite_rc, db\<lparr>sqlite := w\<rparr>))))"

section \<open>Integers\<close>

text \<open>The C functions set their output only when they return \<^verbatim>\<open>MYLITE_OK\<close>; the callers start it at zero.\<close>

definition mylite_catalog_u64_to_i64 :: "u64 \<Rightarrow> int \<times> u64" where
  "mylite_catalog_u64_to_i64 n = (if uint n > INT64_MAX then (MYLITE_ERROR, 0) else (MYLITE_OK, n))"

definition mylite_catalog_i64_to_u32 :: "u64 \<Rightarrow> int \<times> 32 word" where
  "mylite_catalog_i64_to_u32 n =
     (if sint n < 0 \<or> sint n > 4294967295 then (MYLITE_ERROR, 0) else (MYLITE_OK, ucast n))"

definition mylite_catalog_i64_to_u64 :: "u64 \<Rightarrow> int \<times> u64" where
  "mylite_catalog_i64_to_u64 n = (if sint n < 0 then (MYLITE_ERROR, 0) else (MYLITE_OK, n))"

definition mylite_catalog_checked_column_i64 :: "'w row_api \<Rightarrow> 'w \<Rightarrow> nat option \<Rightarrow> nat \<Rightarrow> int \<times> u64" where
  "mylite_catalog_checked_column_i64 rapi w statement index =
     (if api_column_type rapi statement index w \<noteq> SQLITE_INTEGER then (MYLITE_ERROR, 0)
      else (MYLITE_OK, api_column_int64 rapi statement index w))"

definition mylite_catalog_checked_column_u64 :: "'w row_api \<Rightarrow> 'w \<Rightarrow> nat option \<Rightarrow> nat \<Rightarrow> int \<times> u64" where
  "mylite_catalog_checked_column_u64 rapi w statement index =
     (let (rc, n) = mylite_catalog_checked_column_i64 rapi w statement index
      in if rc \<noteq> MYLITE_OK then (rc, 0) else mylite_catalog_i64_to_u64 n)"

definition mylite_catalog_bind_i64 :: "'w row_api \<Rightarrow> 'w \<Rightarrow> nat option \<Rightarrow> nat \<Rightarrow> u64 \<Rightarrow> int \<times> 'w" where
  "mylite_catalog_bind_i64 rapi w statement index n =
     (let (sqlite_rc, w) = api_bind_int64 rapi statement index n w in (mylite_sqlite_status_to_mylite sqlite_rc, w))"

definition mylite_catalog_bind_u64 :: "'w row_api \<Rightarrow> 'w \<Rightarrow> nat option \<Rightarrow> nat \<Rightarrow> u64 \<Rightarrow> int \<times> 'w" where
  "mylite_catalog_bind_u64 rapi w statement index n =
     (let (rc, signed) = mylite_catalog_u64_to_i64 n
      in if rc \<noteq> MYLITE_OK then (rc, w) else mylite_catalog_bind_i64 rapi w statement index signed)"

definition mylite_catalog_step_done :: "'w statement_api \<Rightarrow> 'w \<Rightarrow> nat option \<Rightarrow> int \<times> 'w" where
  "mylite_catalog_step_done api w statement =
     (let (sqlite_rc, w) = api_step api statement w
      in (if sqlite_rc \<noteq> SQLITE_DONE then mylite_sqlite_status_to_mylite sqlite_rc else MYLITE_OK, w))"

definition mylite_catalog_require_changed_row :: "'w row_api \<Rightarrow> 'w \<Rightarrow> int" where
  "mylite_catalog_require_changed_row rapi w = (if api_changes rapi w \<noteq> 1 then MYLITE_ERROR else MYLITE_OK)"

text \<open>The queries expect a row, and then no further row.\<close>

definition expect_row :: "'w statement_api \<Rightarrow> 'w \<Rightarrow> nat option \<Rightarrow> int \<times> 'w" where
  "expect_row api w statement =
     (let (sqlite_rc, w) = api_step api statement w
      in (if sqlite_rc \<noteq> SQLITE_ROW
          then if sqlite_rc = SQLITE_DONE then MYLITE_ERROR else mylite_sqlite_status_to_mylite sqlite_rc
          else MYLITE_OK, w))"

definition expect_end :: "'w statement_api \<Rightarrow> 'w \<Rightarrow> nat option \<Rightarrow> int \<times> 'w" where
  "expect_end api w statement =
     (let (sqlite_rc, w) = api_step api statement w
      in (if sqlite_rc \<noteq> SQLITE_DONE
          then if sqlite_rc = SQLITE_ROW then MYLITE_ERROR else mylite_sqlite_status_to_mylite sqlite_rc
          else MYLITE_OK, w))"

text \<open>A step of a function that is skipped once an earlier one has failed.\<close>

definition on_ok :: "int \<Rightarrow> 'w \<Rightarrow> ('w \<Rightarrow> int \<times> 'w) \<Rightarrow> int \<times> 'w" where
  "on_ok rc w f = (if rc = MYLITE_OK then f w else (rc, w))"

definition read_ok :: "int \<Rightarrow> (int \<times> u64) \<Rightarrow> int \<times> u64" where
  "read_ok rc r = (if rc = MYLITE_OK then r else (rc, 0))"

section \<open>The row of the catalog state\<close>

definition state_sql :: string where
  "state_sql = ''SELECT singleton_id, schema_version, minimum_reader_schema_version, catalog_generation, '' @
     ''created_with_file_format_version '' @ ''FROM _mylite_catalog_state''"

definition seal_sql :: string where
  "seal_sql = ''SELECT integrity_catalog_generation, integrity_sqlite_schema_version '' @
     ''FROM _mylite_catalog_state WHERE singleton_id = 1''"

definition generation_sql :: string where
  "generation_sql = ''SELECT catalog_generation FROM _mylite_catalog_state WHERE singleton_id = 1''"

definition update_generation_sql :: string where
  "update_generation_sql = ''UPDATE _mylite_catalog_state SET catalog_generation = ?1 WHERE singleton_id = 1''"

definition update_seal_sql :: string where
  "update_seal_sql = ''UPDATE _mylite_catalog_state '' @
     ''SET integrity_catalog_generation = ?1, integrity_sqlite_schema_version = ?2 '' @ ''WHERE singleton_id = 1''"

definition mylite_catalog_validate_generation :: "u64 \<Rightarrow> int" where
  "mylite_catalog_validate_generation g =
     (if g = 0 then MYLITE_ERROR else if uint g > INT64_MAX then MYLITE_ERROR else MYLITE_OK)"

definition reset_descriptor_cache_state :: "catalog \<Rightarrow> catalog" where
  "reset_descriptor_cache_state c = c\<lparr>cached_generation := 0, descriptor_cache_is_valid := False\<rparr>"

text \<open>Two queries read one unsigned column: the generation, and the data version.\<close>

definition read_single_u64 ::
    "'w statement_api \<Rightarrow> 'w row_api \<Rightarrow> ('w, 'c) connection \<Rightarrow> string \<Rightarrow> int \<times> u64 \<times> nat option \<times> ('w, 'c) connection" where
  "read_single_u64 api rapi db sql =
     (let (rc, statement, db) = mylite_catalog_prepare_statement api db sql;
          (rc, w) = on_ok rc (sqlite db) (\<lambda>w. expect_row api w statement);
          (rc, n) = read_ok rc (mylite_catalog_checked_column_u64 rapi w statement 0);
          (rc, w) = on_ok rc w (\<lambda>w. expect_end api w statement)
      in (rc, n, statement, db\<lparr>sqlite := w\<rparr>))"

definition read_catalog_generation ::
    "'w statement_api \<Rightarrow> 'w row_api \<Rightarrow> ('w, 'c) connection \<Rightarrow> int \<times> u64 \<times> ('w, 'c) connection" where
  "read_catalog_generation api rapi db =
     (let (rc, n, statement, db) = read_single_u64 api rapi db generation_sql;
          rc = (if rc = MYLITE_OK \<and> n = 0 then MYLITE_ERROR else rc);
          (rc, db) = mylite_catalog_finalize_statement api db statement rc
      in (rc, n, db))"

definition read_data_version ::
    "'w statement_api \<Rightarrow> 'w row_api \<Rightarrow> ('w, 'c) connection \<Rightarrow> int \<times> u64 \<times> ('w, 'c) connection" where
  "read_data_version api rapi db =
     (let (rc, n, statement, db) = read_single_u64 api rapi db ''PRAGMA main.data_version'';
          (rc, db) = mylite_catalog_finalize_statement api db statement rc
      in (rc, n, db))"

definition mylite_catalog_read_sqlite_schema_version ::
    "'w statement_api \<Rightarrow> 'w row_api \<Rightarrow> ('w, 'c) connection \<Rightarrow> int \<times> u64 \<times> ('w, 'c) connection" where
  "mylite_catalog_read_sqlite_schema_version api rapi db =
     (let (rc, statement, db) = mylite_catalog_prepare_statement api db ''PRAGMA main.schema_version'';
          (rc, w) = on_ok rc (sqlite db) (\<lambda>w. expect_row api w statement);
          (rc, n) = read_ok rc (mylite_catalog_checked_column_i64 rapi w statement 0);
          rc = (if rc = MYLITE_OK \<and> sint n \<le> 0 then MYLITE_ERROR else rc);
          out = (if rc = MYLITE_OK then n else 0);
          (rc, w) = on_ok rc w (\<lambda>w. expect_end api w statement);
          (rc, db) = mylite_catalog_finalize_statement api (db\<lparr>sqlite := w\<rparr>) statement rc
      in (rc, out, db))"

definition read_catalog_integrity_seal ::
    "'w statement_api \<Rightarrow> 'w row_api \<Rightarrow> ('w, 'c) connection \<Rightarrow> catalog \<Rightarrow> int \<times> catalog \<times> ('w, 'c) connection" where
  "read_catalog_integrity_seal api rapi db c =
     (let (rc, statement, db) = mylite_catalog_prepare_statement api db seal_sql;
          (rc, w) = on_ok rc (sqlite db) (\<lambda>w. expect_row api w statement);
          (rc, n) = read_ok rc (mylite_catalog_checked_column_u64 rapi w statement 0);
          c = (if rc = MYLITE_OK then c\<lparr>integrity_catalog_generation := n\<rparr> else c);
          (rc, n) = read_ok rc (mylite_catalog_checked_column_u64 rapi w statement 1);
          c = (if rc = MYLITE_OK then c\<lparr>integrity_sqlite_schema_version := n\<rparr> else c);
          (rc, w) = on_ok rc w (\<lambda>w. expect_end api w statement);
          (rc, db) = mylite_catalog_finalize_statement api (db\<lparr>sqlite := w\<rparr>) statement rc
      in (rc, c, db))"

definition catalog_state_row_is_valid :: "u64 \<Rightarrow> u64 \<Rightarrow> u64 \<Rightarrow> u64 \<Rightarrow> u64 \<Rightarrow> bool" where
  "catalog_state_row_is_valid singleton_id version minimum_reader g file_format \<longleftrightarrow>
     \<not> (singleton_id \<noteq> 1 \<or> sint version < 1 \<or> sint version > MYLITE_CATALOG_SCHEMA_VERSION \<or>
        sint minimum_reader > MYLITE_CATALOG_SCHEMA_VERSION \<or> sint minimum_reader > sint version \<or>
        sint minimum_reader < 1 \<or> sint file_format < FILE_LEGACY_FORMAT_VERSION \<or>
        sint file_format > FILE_FORMAT_VERSION \<or> sint g < 1)"

definition read_catalog_state ::
    "'w statement_api \<Rightarrow> 'w row_api \<Rightarrow> ('w, 'c) connection \<Rightarrow> int \<times> catalog \<times> ('w, 'c) connection" where
  "read_catalog_state api rapi db =
     (let (rc, statement, db) = mylite_catalog_prepare_statement api db state_sql;
          c = blank_catalog;
          (rc, w) = on_ok rc (sqlite db) (\<lambda>w. expect_row api w statement);
          (rc, singleton_id) = read_ok rc (mylite_catalog_checked_column_i64 rapi w statement 0);
          (rc, version) = read_ok rc (mylite_catalog_checked_column_i64 rapi w statement 1);
          (rc, minimum_reader) = read_ok rc (mylite_catalog_checked_column_i64 rapi w statement 2);
          (rc, g) = read_ok rc (mylite_catalog_checked_column_i64 rapi w statement 3);
          (rc, file_format) = read_ok rc (mylite_catalog_checked_column_i64 rapi w statement 4);
          (rc, w) = on_ok rc w (\<lambda>w. expect_end api w statement);
          db = db\<lparr>sqlite := w\<rparr>;
          rc = (if rc = MYLITE_OK \<and> \<not> catalog_state_row_is_valid singleton_id version minimum_reader g file_format
                then MYLITE_ERROR else rc);
          (rc, c) = (if rc = MYLITE_OK
            then (let (r, v) = mylite_catalog_i64_to_u32 version in (r, if r = MYLITE_OK then c\<lparr>schema_version := v\<rparr> else c))
            else (rc, c));
          (rc, c) = (if rc = MYLITE_OK
            then (let (r, v) = mylite_catalog_i64_to_u64 g in (r, if r = MYLITE_OK then c\<lparr>generation := v\<rparr> else c))
            else (rc, c));
          (rc, c, db) = (if rc = MYLITE_OK \<and> uint (schema_version c) \<ge> MYLITE_CATALOG_SCHEMA_VERSION
            then read_catalog_integrity_seal api rapi db c else (rc, c, db));
          c = (if rc = MYLITE_OK then reset_descriptor_cache_state (c\<lparr>initialized := True\<rparr>) else c);
          (rc, db) = mylite_catalog_finalize_statement api db statement rc
      in (rc, c, db))"

definition update_catalog_generation ::
    "'w statement_api \<Rightarrow> 'w row_api \<Rightarrow> ('w, 'c) connection \<Rightarrow> u64 \<Rightarrow> ('w, 'c) db_result" where
  "update_catalog_generation api rapi db g =
     (let rc = mylite_catalog_validate_generation g
      in if rc \<noteq> MYLITE_OK then (rc, db)
         else (let (rc, statement, db) = mylite_catalog_prepare_statement api db update_generation_sql;
                   (rc, w) = on_ok rc (sqlite db) (\<lambda>w. mylite_catalog_bind_u64 rapi w statement 1 g);
                   (rc, w) = on_ok rc w (\<lambda>w. mylite_catalog_step_done api w statement);
                   rc = (if rc = MYLITE_OK then mylite_catalog_require_changed_row rapi w else rc)
               in mylite_catalog_finalize_statement api (db\<lparr>sqlite := w\<rparr>) statement rc))"

definition mylite_catalog_publish_integrity_seal ::
    "'w statement_api \<Rightarrow> 'w row_api \<Rightarrow> ('w, 'c) connection \<Rightarrow> u64 \<Rightarrow> ('w, 'c) db_result" where
  "mylite_catalog_publish_integrity_seal api rapi db g =
     (let rc = mylite_catalog_validate_generation g;
          (rc, version, db) = (if rc = MYLITE_OK then mylite_catalog_read_sqlite_schema_version api rapi db
                               else (rc, 0, db));
          (rc, statement, db) = (if rc = MYLITE_OK then mylite_catalog_prepare_statement api db update_seal_sql
                                 else (rc, None, db));
          (rc, w) = on_ok rc (sqlite db) (\<lambda>w. mylite_catalog_bind_u64 rapi w statement 1 g);
          (rc, w) = on_ok rc w (\<lambda>w. mylite_catalog_bind_u64 rapi w statement 2 version);
          (rc, w) = on_ok rc w (\<lambda>w. mylite_catalog_step_done api w statement);
          rc = (if rc = MYLITE_OK then mylite_catalog_require_changed_row rapi w else rc)
      in mylite_catalog_finalize_statement api (db\<lparr>sqlite := w\<rparr>) statement rc)"


section \<open>Statements the catalog owns\<close>

definition owned :: "('w, 'c) connection \<Rightarrow> nat set" where
  "owned db = (the \<circ> catalog_handle) ` set (catalog_statements db)"

text \<open>Every statement the catalog has cached exists and was prepared from the text of its entry.\<close>

definition catalog_statements_ok :: "('w \<Rightarrow> nat \<rightharpoonup> string) \<Rightarrow> ('w, 'c) connection \<Rightarrow> bool" where
  "catalog_statements_ok prepared db \<longleftrightarrow>
     distinct (map catalog_handle (catalog_statements db)) \<and>
     (\<forall>e \<in> set (catalog_statements db). \<exists>x. catalog_handle e = Some x \<and> prepared (sqlite db) x = Some (catalog_sql e))"

text \<open>
  From one state to a later one only the catalog's statements and a statement in \<open>E\<close>, which the
  caller holds outside the cache, have been prepared, and none has been lost.
\<close>

definition grew :: "('w \<Rightarrow> nat \<rightharpoonup> string) \<Rightarrow> nat set \<Rightarrow> ('w, 'c) connection \<Rightarrow> ('w, 'c) connection \<Rightarrow> bool" where
  "grew prepared E db db' \<longleftrightarrow>
     prepared (sqlite db) \<subseteq>\<^sub>m prepared (sqlite db') \<and>
     dom (prepared (sqlite db')) = dom (prepared (sqlite db)) \<union> owned db' \<union> E \<and>
     owned db \<subseteq> owned db' \<and> (owned db' - owned db) \<inter> dom (prepared (sqlite db)) = {} \<and>
     E \<inter> (dom (prepared (sqlite db)) \<union> owned db') = {}"

text \<open>The fields of the connection the catalog's queries do not touch.\<close>

definition same_connection :: "('w, 'c) connection \<Rightarrow> ('w, 'c) connection \<Rightarrow> bool" where
  "same_connection db db' \<longleftrightarrow> db' = db\<lparr>sqlite := sqlite db', allocs := allocs db', catalog_statements := catalog_statements db'\<rparr>"

text \<open>The statement a caller holds: none, or one of the cache, or the one in \<open>E\<close>.\<close>

definition held ::
    "('w \<Rightarrow> nat \<rightharpoonup> string) \<Rightarrow> nat set \<Rightarrow> nat option \<Rightarrow> string \<Rightarrow> ('w, 'c) connection \<Rightarrow> bool" where
  "held prepared E h sql db \<longleftrightarrow>
     (case h of None \<Rightarrow> E = {}
      | Some x \<Rightarrow> prepared (sqlite db) x = Some sql \<and> (if x \<in> owned db then E = {} else E = {x}))"

lemma same_connection_refl [simp]: "same_connection db db"
  by (simp add: same_connection_def)

lemma same_connection_fields:
  assumes "same_connection db db'"
  shows "catalog db' = catalog db" "catalog_generation db' = catalog_generation db"
    "statement_cache db' = statement_cache db" "transaction_state_uncertain db' = transaction_state_uncertain db"
    "user_transaction_active db' = user_transaction_active db" "descriptor_caches db' = descriptor_caches db"
    "write_plan_generation_guard_active db' = write_plan_generation_guard_active db"
    "write_plan_catalog_generation db' = write_plan_catalog_generation db"
    "defer_catalog_integrity_seal db' = defer_catalog_integrity_seal db"
  by (subst assms [unfolded same_connection_def], simp)+

lemma same_connection_trans:
  assumes "same_connection a b" "same_connection b c"
  shows "same_connection a c"
proof -
  obtain w x y w' x' y' where "b = a\<lparr>sqlite := w, allocs := x, catalog_statements := y\<rparr>"
    and "c = b\<lparr>sqlite := w', allocs := x', catalog_statements := y'\<rparr>"
    by (rule that [OF assms [unfolded same_connection_def]])
  then have "c = a\<lparr>sqlite := w', allocs := x', catalog_statements := y'\<rparr>" by simp
  then show ?thesis by (simp add: same_connection_def)
qed

lemma same_connection_updates [simp]:
  "same_connection db (db\<lparr>sqlite := w\<rparr>)" "same_connection db (db\<lparr>catalog_statements := cs\<rparr>)"
  "same_connection db (db\<lparr>allocs := a\<rparr>)" "same_connection db (db\<lparr>sqlite := w, catalog_statements := cs\<rparr>)"
  by (simp_all add: same_connection_def)

lemma owned_dom: "catalog_statements_ok prepared db \<Longrightarrow> owned db \<subseteq> dom (prepared (sqlite db))"
  by (fastforce simp: catalog_statements_ok_def owned_def)

lemma grew_refl: "catalog_statements_ok prepared db \<Longrightarrow> grew prepared {} db db"
  unfolding grew_def using owned_dom [of prepared db] by auto

lemma grew_trans:
  assumes a: "grew prepared E db d" and b: "grew prepared {} d db'"
  shows "grew prepared E db db'"
proof -
  let ?p = "dom (prepared (sqlite db))" and ?q = "dom (prepared (sqlite d))"
  have A: "?q = ?p \<union> owned d \<union> E" "owned db \<subseteq> owned d" "(owned d - owned db) \<inter> ?p = {}" "E \<inter> (?p \<union> owned d) = {}"
    and B: "dom (prepared (sqlite db')) = ?q \<union> owned db'" "owned d \<subseteq> owned db'" "(owned db' - owned d) \<inter> ?q = {}"
    using a b by (simp_all add: grew_def)
  have "dom (prepared (sqlite db')) = ?p \<union> owned db' \<union> E" unfolding B(1) A(1) using B(2) by blast
  moreover have "E \<inter> (?p \<union> owned db') = {}" using A B(3) by blast
  moreover have "(owned db' - owned db) \<inter> ?p = {}" using A B(3) by blast
  moreover have "prepared (sqlite db) \<subseteq>\<^sub>m prepared (sqlite db')"
    by (rule map_le_trans [OF conjunct1 [OF a [unfolded grew_def]] conjunct1 [OF b [unfolded grew_def]]])
  ultimately show ?thesis unfolding grew_def using subset_trans [OF A(2) B(2)] by simp
qed

lemma held_grew:
  assumes "held prepared E h sql d" "grew prepared {} d d'"
  shows "held prepared E h sql d'"
proof (cases h)
  case None
  with assms(1) show ?thesis by (simp add: held_def)
next
  case (Some x)
  with assms(1) have x: "prepared (sqlite d) x = Some sql" "if x \<in> owned d then E = {} else E = {x}"
    by (simp_all add: held_def)
  have g: "prepared (sqlite d) \<subseteq>\<^sub>m prepared (sqlite d')" "owned d \<subseteq> owned d'"
    "(owned d' - owned d) \<inter> dom (prepared (sqlite d)) = {}" using assms(2) by (simp_all add: grew_def)
  have "prepared (sqlite d') x = Some sql" using g(1) x(1) by (auto simp: map_le_def dom_def)
  moreover have "x \<in> owned d' \<longleftrightarrow> x \<in> owned d" using g(2,3) x(1) by blast
  ultimately show ?thesis using Some x(2) by (simp add: held_def)
qed

text \<open>What a change of the SQLite state that keeps the statements keeps of them.\<close>

lemma owned_sqlite [simp]: "owned (db\<lparr>sqlite := w\<rparr>) = owned db" "owned (db\<lparr>allocs := a\<rparr>) = owned db"
  by (simp_all add: owned_def)

lemma sqlite_change:
  assumes "prepared w = prepared (sqlite db)"
  shows "catalog_statements_ok prepared (db\<lparr>sqlite := w\<rparr>) = catalog_statements_ok prepared db"
    "held prepared E h sql (db\<lparr>sqlite := w\<rparr>) = held prepared E h sql db"
    "grew prepared E d (db\<lparr>sqlite := w\<rparr>) = grew prepared E d db"
  using assms by (simp_all add: catalog_statements_ok_def held_def grew_def split: option.splits)

section \<open>What SQLite promises of rows and bindings\<close>

definition reading_sqls :: "string set" where
  "reading_sqls = {state_sql, seal_sql, generation_sql, ''PRAGMA main.data_version'', ''PRAGMA main.schema_version''}"

text \<open>
  \<open>bound w x i\<close> is the value bound to parameter \<open>i\<close> of statement \<open>x\<close>. A statement that fails has
  no effect, or SQLite has rolled the transaction back.
\<close>

locale catalog_rows = sqlite_transactions api prepared has_statement view
  for api :: "'w statement_api" and prepared :: "'w \<Rightarrow> nat \<rightharpoonup> string" and has_statement :: "string \<Rightarrow> bool"
    and view :: "'w \<Rightarrow> transaction_view" +
  fixes rapi :: "'w row_api" and bound :: "'w \<Rightarrow> nat \<Rightarrow> nat \<Rightarrow> u64 option"
  assumes catalog_sql_has_statement:
      "sql \<in> reading_sqls \<union> {update_generation_sql, update_seal_sql} \<Longrightarrow> has_statement sql"
    and reading: "prepared w x = Some sql \<Longrightarrow> sql \<in> reading_sqls \<Longrightarrow> api_step api (Some x) w = (rc, w') \<Longrightarrow>
      rc \<noteq> SQLITE_OK \<and> (view w' = view w \<or> rc \<notin> {SQLITE_ROW, SQLITE_DONE} \<and> view w' = aborted (view w))"
    and generation_row: "prepared w x = Some generation_sql \<Longrightarrow> api_step api (Some x) w = (SQLITE_ROW, w') \<Longrightarrow>
      api_column_type rapi (Some x) 0 w' = SQLITE_INTEGER \<Longrightarrow> api_column_int64 rapi (Some x) 0 w' = stored_generation (view w)"
    and state_row: "prepared w x = Some state_sql \<Longrightarrow> api_step api (Some x) w = (SQLITE_ROW, w') \<Longrightarrow>
      api_column_type rapi (Some x) 3 w' = SQLITE_INTEGER \<Longrightarrow> api_column_int64 rapi (Some x) 3 w' = stored_generation (view w)"
    and binding: "api_bind_int64 rapi (Some x) i n w = (rc, w') \<Longrightarrow>
      view w' = view w \<and> prepared w' = prepared w \<and> (rc = SQLITE_OK \<longrightarrow> bound w' x i = Some n)"
    and updating_generation: "prepared w x = Some update_generation_sql \<Longrightarrow> bound w x 1 = Some g \<Longrightarrow>
      api_step api (Some x) w = (rc, w') \<Longrightarrow> rc \<noteq> SQLITE_OK \<and>
      (if rc = SQLITE_DONE
       then view w' = (if api_changes rapi w' = 1 then (view w)\<lparr>stored_generation := g\<rparr> else view w)
       else view w' = view w \<or> view w' = aborted (view w))"
    and updating_seal: "prepared w x = Some update_seal_sql \<Longrightarrow> api_step api (Some x) w = (rc, w') \<Longrightarrow>
      rc \<noteq> SQLITE_OK \<and> (view w' = view w \<or> rc \<noteq> SQLITE_DONE \<and> view w' = aborted (view w))"
begin

lemma prepare_uncached_catalog:
  assumes ok: "catalog_statements_ok prepared db" and sql: "has_statement sql"
    and res: "prepare_uncached_statement api db sql = (rc, h, db')"
  shows "\<exists>E. held prepared E h sql db' \<and> grew prepared E db db'" "catalog_statements_ok prepared db'"
    "same_connection db db'" "view (sqlite db') = view (sqlite db)" "h = None \<longleftrightarrow> rc \<noteq> MYLITE_OK"
    "owned db' = owned db" "catalog_statements db' = catalog_statements db"
    "\<And>x. h = Some x \<Longrightarrow> prepared (sqlite db) x = None \<and> prepared (sqlite db') = (prepared (sqlite db))(x \<mapsto> sql)"
proof -
  obtain r h1 w where p: "api_prepare api sql (sqlite db) = (r, h1, w)" by (cases "api_prepare api sql (sqlite db)") auto
  have eq: "db' = db\<lparr>sqlite := w\<rparr>" "rc = (if r \<noteq> SQLITE_OK then mylite_sqlite_status_to_mylite r else MYLITE_OK)"
    "h = (if r \<noteq> SQLITE_OK then None else h1)"
    using res p by (auto simp: prepare_uncached_statement_def Let_def split: if_splits)
  show "same_connection db db'" "owned db' = owned db" "catalog_statements db' = catalog_statements db" using eq by simp_all
  show "view (sqlite db') = view (sqlite db)" using prepare_view [of sql "sqlite db"] p eq by simp
  have "(\<exists>E. held prepared E h sql db' \<and> grew prepared E db db') \<and> catalog_statements_ok prepared db' \<and> (h = None \<longleftrightarrow> rc \<noteq> MYLITE_OK) \<and>
    (\<forall>x. h = Some x \<longrightarrow> prepared (sqlite db) x = None \<and> prepared (sqlite db') = (prepared (sqlite db))(x \<mapsto> sql))"
  proof (cases "r = SQLITE_OK")
    case False
    with prepare_fails [OF p] have same: "prepared w = prepared (sqlite db)" by simp
    from False eq have "h = None" "rc \<noteq> MYLITE_OK" by (simp_all add: mylite_sqlite_status_to_mylite_def)
    with same ok grew_refl [OF ok] eq(1) show ?thesis
      by (auto simp: sqlite_change held_def intro!: exI [of _ "{}"])
  next
    case True
    with prepare_ok [of sql "sqlite db" h1 w] p sql obtain x where x: "h1 = Some x" "prepared (sqlite db) x = None"
      "prepared w = (prepared (sqlite db))(x \<mapsto> sql)" by auto
    have xo: "x \<notin> owned db" using owned_dom [OF ok] x(2) by auto
    have "catalog_statements_ok prepared db'"
      using ok x(2,3) eq(1) unfolding catalog_statements_ok_def by fastforce
    moreover have "held prepared {x} (Some x) sql db'" using eq(1) x(3) xo by (simp add: held_def)
    moreover have "grew prepared {x} db db'" using eq(1) x(2,3) xo owned_dom [OF ok]
      by (auto simp: grew_def map_le_def)
    ultimately show ?thesis using True x eq by auto
  qed
  then show "\<exists>E. held prepared E h sql db' \<and> grew prepared E db db'" "catalog_statements_ok prepared db'" "h = None \<longleftrightarrow> rc \<noteq> MYLITE_OK"
    "\<And>x. h = Some x \<Longrightarrow> prepared (sqlite db) x = None \<and> prepared (sqlite db') = (prepared (sqlite db))(x \<mapsto> sql)" by auto
qed

lemma append_cached_catalog:
  fixes db :: "('w, 'c) connection"
  assumes ok: "catalog_statements_ok prepared db" and sql: "has_statement sql"
    and res: "append_cached_statement api db sql = (rc, h, db')"
  shows "\<exists>E. held prepared E h sql db' \<and> grew prepared E db db'" "catalog_statements_ok prepared db'"
    "same_connection db db'" "view (sqlite db') = view (sqlite db)" "h = None \<longleftrightarrow> rc \<noteq> MYLITE_OK"
proof -
  obtain r h1 d where p: "prepare_uncached_statement api db sql = (r, h1, d)"
    by (cases "prepare_uncached_statement api db sql") auto
  note u = prepare_uncached_catalog [OF ok sql p]
  obtain copied rest where a: "next_alloc (allocs d) = (copied, rest)" by (cases "next_alloc (allocs d)")
  define good where "good rc h db' \<longleftrightarrow> (\<exists>E. held prepared E h sql db' \<and> grew prepared E db db') \<and> catalog_statements_ok prepared db' \<and>
    same_connection db db' \<and> view (sqlite db') = view (sqlite db) \<and> (h = None \<longleftrightarrow> rc \<noteq> MYLITE_OK)"
    for rc :: int and h and db' :: "('w, 'c) connection"
  have "good rc h db'"
  proof (cases "r = MYLITE_OK")
    case False
    with res p u have "rc = r" "h = None" "db' = d" "h1 = None" by (auto simp: append_cached_statement_def)
    with u False show ?thesis by (auto simp: good_def)
  next
    case True
    with u(5) obtain x where x: "h1 = Some x" by auto
    note fresh = u(8) [OF x]
    have xo: "x \<notin> owned d" using u(6) owned_dom [OF ok] fresh by auto
    show ?thesis
    proof (cases copied)
      case False
      obtain r' w where f: "api_finalize api (Some x) (sqlite d) = (r', w)" by (cases "api_finalize api (Some x) (sqlite d)")
      from res p a x True False f have eq: "rc = MYLITE_NOMEM" "h = None" "db' = d\<lparr>allocs := rest, sqlite := w\<rparr>"
        by (auto simp: append_cached_statement_def)
      have w: "prepared w = prepared (sqlite db)" using finalize_removes [of x "sqlite d"] f fresh by auto
      have s: "same_connection db db'" unfolding eq
        by (rule same_connection_trans [OF u(3)]) (simp add: same_connection_def)
      have "owned db' = owned db" using eq u(6) by simp
      then have "grew prepared {} db db'" using w eq owned_dom [OF ok] by (auto simp: grew_def map_le_def)
      moreover have "catalog_statements_ok prepared db'" using ok w eq u(7) by (simp add: catalog_statements_ok_def)
      moreover have "view w = view (sqlite db)" using finalize_view [of "Some x" "sqlite d"] f u(4) by simp
      ultimately show ?thesis using s eq by (auto simp: good_def held_def)
    next
      case copied: True
      from res p a x True copied have eq: "rc = MYLITE_OK" "h = Some x"
        "db' = d\<lparr>allocs := rest, catalog_statements := catalog_statements d @
          [\<lparr>catalog_sql = sql, catalog_handle = Some x, catalog_in_use = True\<rparr>]\<rparr>"
        by (auto simp: append_cached_statement_def)
      have o: "owned db' = insert x (owned db)" using u(7) unfolding eq owned_def by simp
      have s: "same_connection db db'" unfolding eq
        by (rule same_connection_trans [OF u(3)]) (simp add: same_connection_def)
      have "distinct (map catalog_handle (catalog_statements db'))"
        using ok fresh u(7) unfolding eq catalog_statements_ok_def by fastforce
      then have "catalog_statements_ok prepared db'"
        using u(2,7) fresh unfolding eq catalog_statements_ok_def by auto
      moreover have "grew prepared {} db db'" unfolding grew_def o using fresh owned_dom [OF ok]
        by (auto simp: eq map_le_def)
      moreover have "held prepared {} (Some x) sql db'" using o fresh by (simp add: held_def eq)
      ultimately show ?thesis using s eq u(4) by (auto simp: good_def)
    qed
  qed
  then show "\<exists>E. held prepared E h sql db' \<and> grew prepared E db db'" "catalog_statements_ok prepared db'"
    "same_connection db db'" "view (sqlite db') = view (sqlite db)" "h = None \<longleftrightarrow> rc \<noteq> MYLITE_OK"
    by (simp_all add: good_def)
qed

lemma use_cached_catalog:
  assumes ok: "catalog_statements_ok prepared db" and i: "i < length (catalog_statements db)"
  shows "catalog_statements_ok prepared (db\<lparr>catalog_statements := (catalog_statements db)[i := (catalog_statements db ! i)\<lparr>catalog_in_use := b\<rparr>]\<rparr>)"
    "owned (db\<lparr>catalog_statements := (catalog_statements db)[i := (catalog_statements db ! i)\<lparr>catalog_in_use := b\<rparr>]\<rparr>) = owned db"
proof -
  let ?cs = "catalog_statements db" and ?e = "(catalog_statements db ! i)\<lparr>catalog_in_use := b\<rparr>"
  have maps: "map catalog_handle (?cs[i := ?e]) = map catalog_handle ?cs"
    "map (\<lambda>e. (catalog_handle e, catalog_sql e)) (?cs[i := ?e]) = map (\<lambda>e. (catalog_handle e, catalog_sql e)) ?cs"
    by (simp_all add: map_update list_update_same_conv i)
  have pairs: "(\<lambda>e. (catalog_handle e, catalog_sql e)) ` set (?cs[i := ?e]) = (\<lambda>e. (catalog_handle e, catalog_sql e)) ` set ?cs"
    by (rule arg_cong [OF maps(2), of set, unfolded set_map])
  have all: "(\<forall>e \<in> set cs. \<exists>x. catalog_handle e = Some x \<and> p x = Some (catalog_sql e)) \<longleftrightarrow>
    (\<forall>(h, s) \<in> (\<lambda>e. (catalog_handle e, catalog_sql e)) ` set cs. \<exists>x. h = Some x \<and> p x = Some s)" for cs p by auto
  show "catalog_statements_ok prepared (db\<lparr>catalog_statements := ?cs[i := ?e]\<rparr>)"
    using ok unfolding catalog_statements_ok_def all by (simp add: maps(1) pairs)
  have "catalog_handle ` set (?cs[i := ?e]) = catalog_handle ` set ?cs"
    by (rule arg_cong [OF maps(1), of set, unfolded set_map])
  then have "(the \<circ> catalog_handle) ` set (?cs[i := ?e]) = (the \<circ> catalog_handle) ` set ?cs"
    by (metis image_comp)
  then show "owned (db\<lparr>catalog_statements := ?cs[i := ?e]\<rparr>) = owned db" by (simp add: owned_def)
qed

lemma catalog_entry:
  assumes "catalog_statements_ok prepared db" "i < length (catalog_statements db)"
  obtains x where "catalog_handle (catalog_statements db ! i) = Some x" "x \<in> owned db"
    "prepared (sqlite db) x = Some (catalog_sql (catalog_statements db ! i))"
proof -
  from assms nth_mem [OF assms(2)] obtain x where x: "catalog_handle (catalog_statements db ! i) = Some x"
    "prepared (sqlite db) x = Some (catalog_sql (catalog_statements db ! i))" unfolding catalog_statements_ok_def by blast
  have "x \<in> owned db" unfolding owned_def using x(1) nth_mem [OF assms(2)] by (auto simp: image_iff intro!: bexI)
  with x that show ?thesis by blast
qed

lemma prepare_statement_catalog:
  fixes db :: "('w, 'c) connection"
  assumes ok: "catalog_statements_ok prepared db" and sql: "has_statement sql"
    and res: "mylite_catalog_prepare_statement api db sql = (rc, h, db')"
  shows "\<exists>E. held prepared E h sql db' \<and> grew prepared E db db'" "catalog_statements_ok prepared db'"
    "same_connection db db'" "view (sqlite db') = view (sqlite db)" "h = None \<longleftrightarrow> rc \<noteq> MYLITE_OK"
proof -
  have "(\<exists>E. held prepared E h sql db' \<and> grew prepared E db db') \<and> catalog_statements_ok prepared db' \<and>
    same_connection db db' \<and> view (sqlite db') = view (sqlite db) \<and> (h = None \<longleftrightarrow> rc \<noteq> MYLITE_OK)"
  proof (cases "initialized (catalog db) \<and> find_available_cached_statement db sql \<noteq> None")
    case True
    then obtain i where init: "initialized (catalog db)" and f: "find_available_cached_statement db sql = Some i" by auto
    from f have i: "i < length (catalog_statements db)" "catalog_sql (catalog_statements db ! i) = sql"
      unfolding find_available_cached_statement_def by (auto simp: find_Some_iff)
    let ?d = "db\<lparr>catalog_statements := (catalog_statements db)[i := (catalog_statements db ! i)\<lparr>catalog_in_use := True\<rparr>]\<rparr>"
    from res init f have eq: "rc = MYLITE_OK" "h = catalog_handle (catalog_statements db ! i)" "db' = ?d"
      by (auto simp: mylite_catalog_prepare_statement_def prepare_cached_statement_def)
    obtain x where x: "catalog_handle (catalog_statements db ! i) = Some x" "x \<in> owned db"
      "prepared (sqlite db) x = Some (catalog_sql (catalog_statements db ! i))" by (rule catalog_entry [OF ok i(1)])
    note c = use_cached_catalog [OF ok i(1), of True]
    have "held prepared {} h sql ?d" using x eq(2) i(2) c(2) by (simp add: held_def)
    moreover have "grew prepared {} db ?d" using c owned_dom [OF ok] by (auto simp: grew_def)
    ultimately show ?thesis using c eq x(1) by auto
  next
    case False
    then have "append_cached_statement api db sql = (rc, h, db') \<or> prepare_uncached_statement api db sql = (rc, h, db')"
      using res by (auto simp: mylite_catalog_prepare_statement_def prepare_cached_statement_def split: if_splits)
    then show ?thesis
    proof
      assume "append_cached_statement api db sql = (rc, h, db')"
      from append_cached_catalog [OF ok sql this] show ?thesis by simp
    next
      assume "prepare_uncached_statement api db sql = (rc, h, db')"
      from prepare_uncached_catalog [OF ok sql this] show ?thesis by simp
    qed
  qed
  then show "\<exists>E. held prepared E h sql db' \<and> grew prepared E db db'" "catalog_statements_ok prepared db'"
    "same_connection db db'" "view (sqlite db') = view (sqlite db)" "h = None \<longleftrightarrow> rc \<noteq> MYLITE_OK" by auto
qed

lemma finalize_statement_catalog:
  fixes db :: "('w, 'c) connection"
  assumes ok: "catalog_statements_ok prepared d" and h: "held prepared E h sql d" and g: "grew prepared E db d"
    and res: "mylite_catalog_finalize_statement api d h rc = (rc', db')"
  shows "grew prepared {} db db'" "catalog_statements_ok prepared db'" "same_connection d db'"
    "view (sqlite db') = view (sqlite d)" "rc' = MYLITE_OK \<Longrightarrow> rc = MYLITE_OK" "rc \<noteq> MYLITE_OK \<Longrightarrow> rc' = rc"
proof -
  have "grew prepared {} db db' \<and> catalog_statements_ok prepared db' \<and> same_connection d db' \<and>
    view (sqlite db') = view (sqlite d) \<and> (rc' = MYLITE_OK \<longrightarrow> rc = MYLITE_OK) \<and> (rc \<noteq> MYLITE_OK \<longrightarrow> rc' = rc)"
  proof (cases h)
    case None
    with res h g ok show ?thesis by (auto simp: mylite_catalog_finalize_statement_def held_def)
  next
    case (Some x)
    show ?thesis
    proof (cases "find_cached_statement_by_handle d h")
      case (Some i)
      then have i: "i < length (catalog_statements d)" "catalog_handle (catalog_statements d ! i) = h"
        unfolding find_cached_statement_by_handle_def by (auto simp: find_Some_iff split: if_splits)
      obtain r1 w1 where r1: "api_reset api h (sqlite d) = (r1, w1)" by (cases "api_reset api h (sqlite d)")
      obtain r2 w2 where r2: "api_clear_bindings api h w1 = (r2, w2)" by (cases "api_clear_bindings api h w1")
      let ?d = "d\<lparr>catalog_statements := (catalog_statements d)[i := (catalog_statements d ! i)\<lparr>catalog_in_use := False\<rparr>]\<rparr>"
      have w2: "prepared w2 = prepared (sqlite d)" "view w2 = view (sqlite d)"
        using reset_keeps [of h "sqlite d"] clear_bindings_keeps [of h w1] reset_view [of h "sqlite d"]
          clear_bindings_view [of h w1] r1 r2 by simp_all
      have "db' = d\<lparr>sqlite := w2, catalog_statements := (catalog_statements d)[i := (catalog_statements d ! i)\<lparr>catalog_in_use := False\<rparr>]\<rparr>"
        and rc': "rc \<noteq> MYLITE_OK \<longrightarrow> rc' = rc"
        using res \<open>h = Some x\<close> Some r1 r2 by (auto simp: mylite_catalog_finalize_statement_def Let_def)
      then have eq: "db' = ?d\<lparr>sqlite := w2\<rparr>" by simp
      obtain y where y: "catalog_handle (catalog_statements d ! i) = Some y" "y \<in> owned d" by (rule catalog_entry [OF ok i(1)])
      with i(2) \<open>h = Some x\<close> h have E: "E = {}" by (auto simp: held_def)
      note c = use_cached_catalog [OF ok i(1), of False]
      have "grew prepared {} db ?d" using g c(2) E unfolding grew_def by simp
      moreover have "same_connection d db'" unfolding eq by (simp add: same_connection_def)
      ultimately show ?thesis using eq c w2 rc' by (auto simp: sqlite_change)
    next
      case None
      obtain r w where f: "api_finalize api h (sqlite d) = (r, w)" by (cases "api_finalize api h (sqlite d)")
      from res \<open>h = Some x\<close> None f have eq: "db' = d\<lparr>sqlite := w\<rparr>" "rc \<noteq> MYLITE_OK \<longrightarrow> rc' = rc"
        by (auto simp: mylite_catalog_finalize_statement_def)
      have "x \<notin> owned d"
      proof
        assume "x \<in> owned d"
        then obtain e where e: "e \<in> set (catalog_statements d)" "x = the (catalog_handle e)" by (auto simp: owned_def)
        with ok have "catalog_handle e = Some x" unfolding catalog_statements_ok_def by fastforce
        with e(1) None \<open>h = Some x\<close> show False
          by (auto simp: find_cached_statement_by_handle_def find_None_iff in_set_conv_nth)
      qed
      with h \<open>h = Some x\<close> have E: "E = {x}" by (simp add: held_def)
      have w: "prepared w = (prepared (sqlite d))(x := None)" "view w = view (sqlite d)"
        using finalize_removes [of x "sqlite d"] finalize_view [of h "sqlite d"] f \<open>h = Some x\<close> by simp_all
      have xs: "x \<notin> dom (prepared (sqlite db))" "prepared (sqlite db) \<subseteq>\<^sub>m prepared (sqlite d)" using g E by (simp_all add: grew_def)
      then have "prepared (sqlite db) \<subseteq>\<^sub>m prepared w" unfolding w(1) by (auto simp: map_le_def)
      moreover have "dom (prepared w) = dom (prepared (sqlite db)) \<union> owned d"
        using g xs(1) \<open>x \<notin> owned d\<close> unfolding grew_def w(1) E by auto
      ultimately have "grew prepared {} db db'" using g by (simp add: grew_def eq(1))
      moreover have "catalog_statements_ok prepared db'"
      proof -
        have "the (catalog_handle e) \<noteq> x" if "e \<in> set (catalog_statements d)" for e
          using that \<open>x \<notin> owned d\<close> by (auto simp: owned_def)
        with ok show ?thesis by (fastforce simp: catalog_statements_ok_def eq(1) w(1))
      qed
      ultimately show ?thesis using eq w(2) by auto
    qed
  qed
  then show "grew prepared {} db db'" "catalog_statements_ok prepared db'" "same_connection d db'"
    "view (sqlite db') = view (sqlite d)" "rc' = MYLITE_OK \<Longrightarrow> rc = MYLITE_OK" "rc \<noteq> MYLITE_OK \<Longrightarrow> rc' = rc" by auto
qed

text \<open>A failed statement has no effect, or SQLite has rolled back; a read that succeeds has none.\<close>

definition calm :: "int \<Rightarrow> transaction_view \<Rightarrow> transaction_view \<Rightarrow> bool" where
  "calm rc v v' \<longleftrightarrow> v' = v \<or> rc \<noteq> MYLITE_OK \<and> v' = aborted v"

definition quiet :: "int \<Rightarrow> ('w, 'c) connection \<Rightarrow> ('w, 'c) connection \<Rightarrow> bool" where
  "quiet rc db db' \<longleftrightarrow> catalog_statements_ok prepared db' \<and> grew prepared {} db db' \<and> same_connection db db' \<and>
     calm rc (view (sqlite db)) (view (sqlite db'))"

lemma expect_row_view:
  assumes "prepared w x = Some sql" "sql \<in> reading_sqls" "expect_row api w (Some x) = (rc, w')"
  shows "prepared w' = prepared w" "calm rc (view w) (view w')" "rc = MYLITE_OK \<Longrightarrow> api_step api (Some x) w = (SQLITE_ROW, w')"
proof -
  obtain r w1 where s: "api_step api (Some x) w = (r, w1)" by (cases "api_step api (Some x) w")
  note f = reading [OF assms(1,2) s]
  have eq: "w' = w1" "rc = (if r \<noteq> SQLITE_ROW then if r = SQLITE_DONE then MYLITE_ERROR else mylite_sqlite_status_to_mylite r else MYLITE_OK)"
    using assms(3) s by (auto simp: expect_row_def)
  then show "rc = MYLITE_OK \<Longrightarrow> api_step api (Some x) w = (SQLITE_ROW, w')"
    using s f by (auto simp: mylite_sqlite_status_to_mylite_def split: if_splits)
  show "prepared w' = prepared w" using step_keeps [of "Some x" w] s eq by simp
  show "calm rc (view w) (view w')" using f eq by (auto simp: calm_def mylite_sqlite_status_to_mylite_def)
qed

lemma expect_end_view:
  assumes "prepared w x = Some sql" "sql \<in> reading_sqls" "expect_end api w (Some x) = (rc, w')"
  shows "prepared w' = prepared w" "calm rc (view w) (view w')"
proof -
  obtain r w1 where s: "api_step api (Some x) w = (r, w1)" by (cases "api_step api (Some x) w")
  note f = reading [OF assms(1,2) s]
  have eq: "w' = w1" "rc = (if r \<noteq> SQLITE_DONE then if r = SQLITE_ROW then MYLITE_ERROR else mylite_sqlite_status_to_mylite r else MYLITE_OK)"
    using assms(3) s by (auto simp: expect_end_def)
  show "prepared w' = prepared w" using step_keeps [of "Some x" w] s eq by simp
  show "calm rc (view w) (view w')" using f eq by (auto simp: calm_def mylite_sqlite_status_to_mylite_def)
qed

text \<open>The two steps of a query, around whatever is read in between.\<close>

lemma reading_steps:
  assumes h: "held prepared E h sql d" "h = None \<longleftrightarrow> rc0 \<noteq> MYLITE_OK" and sql: "sql \<in> reading_sqls"
    and row: "on_ok rc0 (sqlite d) (\<lambda>w. expect_row api w h) = (rc1, w1)" and mid: "rc1 \<noteq> MYLITE_OK \<longrightarrow> rc2 \<noteq> MYLITE_OK"
    and fin: "on_ok rc2 w1 (\<lambda>w. expect_end api w h) = (rc3, w2)"
  shows "prepared w2 = prepared (sqlite d)" "calm rc3 (view (sqlite d)) (view w2)"
    "rc3 = MYLITE_OK \<Longrightarrow> rc2 = MYLITE_OK"
    "rc3 = MYLITE_OK \<Longrightarrow> \<exists>x. h = Some x \<and> prepared (sqlite d) x = Some sql \<and> api_step api (Some x) (sqlite d) = (SQLITE_ROW, w1)"
proof -
  have "prepared w2 = prepared (sqlite d) \<and> calm rc3 (view (sqlite d)) (view w2) \<and>
    (rc3 = MYLITE_OK \<longrightarrow> rc2 = MYLITE_OK \<and> (\<exists>x. h = Some x \<and> prepared (sqlite d) x = Some sql \<and> api_step api (Some x) (sqlite d) = (SQLITE_ROW, w1)))"
  proof (cases h)
    case None
    with h(2) row mid fin show ?thesis by (auto simp: on_ok_def calm_def split: if_splits)
  next
    case (Some x)
    with h have x: "prepared (sqlite d) x = Some sql" "rc0 = MYLITE_OK" by (auto simp: held_def)
    with row Some have r: "expect_row api (sqlite d) (Some x) = (rc1, w1)" by (simp add: on_ok_def)
    note v1 = expect_row_view [OF x(1) sql r]
    show ?thesis
    proof (cases "rc2 = MYLITE_OK")
      case False
      with fin v1 mid show ?thesis by (auto simp: on_ok_def calm_def split: if_splits)
    next
      case True
      with mid have rc1: "rc1 = MYLITE_OK" by blast
      from True fin Some have e: "expect_end api w1 (Some x) = (rc3, w2)" by (simp add: on_ok_def)
      have "prepared w1 x = Some sql" using v1(1) x(1) by simp
      from expect_end_view [OF this sql e] v1 rc1 True Some x(1) show ?thesis by (auto simp: calm_def)
    qed
  qed
  then show "prepared w2 = prepared (sqlite d)" "calm rc3 (view (sqlite d)) (view w2)"
    "rc3 = MYLITE_OK \<Longrightarrow> rc2 = MYLITE_OK"
    "rc3 = MYLITE_OK \<Longrightarrow> \<exists>x. h = Some x \<and> prepared (sqlite d) x = Some sql \<and> api_step api (Some x) (sqlite d) = (SQLITE_ROW, w1)"
    by auto
qed

text \<open>A query: prepare, change the SQLite state, finalize.\<close>

lemma finished_statement:
  assumes ok: "catalog_statements_ok prepared db" and sql: "has_statement sql"
    and p: "mylite_catalog_prepare_statement api db sql = (rc0, h, d)" and w: "prepared w = prepared (sqlite d)"
    and f: "mylite_catalog_finalize_statement api (d\<lparr>sqlite := w\<rparr>) h rc = (rc', db')"
  shows "catalog_statements_ok prepared db'" "grew prepared {} db db'" "same_connection db db'"
    "view (sqlite db') = view w" "rc' = MYLITE_OK \<Longrightarrow> rc = MYLITE_OK" "rc \<noteq> MYLITE_OK \<Longrightarrow> rc' = rc"
proof -
  note prep = prepare_statement_catalog [OF ok sql p]
  from prep(1) obtain E where E: "held prepared E h sql d" "grew prepared E db d" by auto
  have d: "catalog_statements_ok prepared (d\<lparr>sqlite := w\<rparr>)" "held prepared E h sql (d\<lparr>sqlite := w\<rparr>)"
    "grew prepared E db (d\<lparr>sqlite := w\<rparr>)" using E prep(2) by (simp_all add: sqlite_change [OF w])
  note fin = finalize_statement_catalog [OF d f]
  show "same_connection db db'"
    by (rule same_connection_trans [OF same_connection_trans [OF prep(3) same_connection_updates(1)] fin(3)])
  show "catalog_statements_ok prepared db'" "grew prepared {} db db'" by (rule fin(2), rule fin(1))
  show "rc' = MYLITE_OK \<Longrightarrow> rc = MYLITE_OK" "rc \<noteq> MYLITE_OK \<Longrightarrow> rc' = rc" "view (sqlite db') = view w"
    using fin(4-6) by simp_all
qed

lemma finished_quiet:
  assumes ok: "catalog_statements_ok prepared db" and sql: "has_statement sql"
    and p: "mylite_catalog_prepare_statement api db sql = (rc0, h, d)"
    and w: "prepared w = prepared (sqlite d)" "calm rc (view (sqlite d)) (view w)"
    and f: "mylite_catalog_finalize_statement api (d\<lparr>sqlite := w\<rparr>) h rc = (rc', db')"
  shows "quiet rc' db db'" "rc' = MYLITE_OK \<Longrightarrow> rc = MYLITE_OK" "rc \<noteq> MYLITE_OK \<Longrightarrow> rc' = rc"
proof -
  note fin = finished_statement [OF ok sql p w(1) f] and prep = prepare_statement_catalog [OF ok sql p]
  show "rc' = MYLITE_OK \<Longrightarrow> rc = MYLITE_OK" "rc \<noteq> MYLITE_OK \<Longrightarrow> rc' = rc" using fin(5,6) by simp_all
  show "quiet rc' db db'" unfolding quiet_def using fin w(2) prep(4) by (auto simp: calm_def)
qed

lemma read_ok_fails: "read_ok rc r = (rc', n) \<Longrightarrow> rc \<noteq> MYLITE_OK \<longrightarrow> rc' \<noteq> MYLITE_OK"
  by (auto simp: read_ok_def)

lemma checked_column_u64:
  assumes "mylite_catalog_checked_column_u64 rapi w h i = (MYLITE_OK, n)"
  shows "api_column_type rapi h i w = SQLITE_INTEGER \<and> n = api_column_int64 rapi h i w"
  using assms by (auto simp: mylite_catalog_checked_column_u64_def mylite_catalog_checked_column_i64_def
      mylite_catalog_i64_to_u64_def split: if_splits)

lemma read_single_quiet:
  assumes ok: "catalog_statements_ok prepared db" and sql: "sql \<in> reading_sqls"
    and res: "read_single_u64 api rapi db sql = (rc, n, h, d)"
    and more: "rc \<noteq> MYLITE_OK \<longrightarrow> rc1 = rc"
    and f: "mylite_catalog_finalize_statement api d h rc1 = (rc', db')"
  shows "quiet rc' db db'"
    "rc' = MYLITE_OK \<Longrightarrow> rc1 = MYLITE_OK \<and> (\<exists>x w0 w. view w0 = view (sqlite db) \<and> prepared w0 x = Some sql \<and>
       w0 = sqlite (snd (snd (mylite_catalog_prepare_statement api db sql))) \<and>
       api_step api (Some x) w0 = (SQLITE_ROW, w) \<and> mylite_catalog_checked_column_u64 rapi w (Some x) 0 = (MYLITE_OK, n))"
proof -
  have hs: "has_statement sql" using catalog_sql_has_statement sql by blast
  obtain r0 h0 d0 where p: "mylite_catalog_prepare_statement api db sql = (r0, h0, d0)"
    by (cases "mylite_catalog_prepare_statement api db sql") auto
  obtain r1 w1 where s1: "on_ok r0 (sqlite d0) (\<lambda>w. expect_row api w h0) = (r1, w1)"
    by (cases "on_ok r0 (sqlite d0) (\<lambda>w. expect_row api w h0)")
  obtain r2 n2 where s2: "read_ok r1 (mylite_catalog_checked_column_u64 rapi w1 h0 0) = (r2, n2)"
    by (cases "read_ok r1 (mylite_catalog_checked_column_u64 rapi w1 h0 0)")
  obtain r3 w3 where s3: "on_ok r2 w1 (\<lambda>w. expect_end api w h0) = (r3, w3)"
    by (cases "on_ok r2 w1 (\<lambda>w. expect_end api w h0)")
  have eq: "rc = r3" "n = n2" "h = h0" "d = d0\<lparr>sqlite := w3\<rparr>"
    using res p s1 s2 s3 by (simp_all add: read_single_u64_def)
  note prep = prepare_statement_catalog [OF ok hs p]
  from prep(1) obtain E where E: "held prepared E h0 sql d0" by auto
  note steps = reading_steps [OF E prep(5) sql s1 read_ok_fails [OF s2] s3]
  have calm1: "calm rc1 (view (sqlite d0)) (view w3)" using steps(2) more eq(1) by (auto simp: calm_def)
  have f': "mylite_catalog_finalize_statement api (d0\<lparr>sqlite := w3\<rparr>) h0 rc1 = (rc', db')" using f eq by simp
  note q = finished_quiet [OF ok hs p steps(1) calm1 f']
  show "quiet rc' db db'" by (rule q(1))
  show "rc1 = MYLITE_OK \<and> (\<exists>x w0 w. view w0 = view (sqlite db) \<and> prepared w0 x = Some sql \<and>
       w0 = sqlite (snd (snd (mylite_catalog_prepare_statement api db sql))) \<and>
       api_step api (Some x) w0 = (SQLITE_ROW, w) \<and> mylite_catalog_checked_column_u64 rapi w (Some x) 0 = (MYLITE_OK, n))"
    if "rc' = MYLITE_OK"
  proof -
    from q(2) [OF that] have rc1: "rc1 = MYLITE_OK" .
    with more eq(1) have r3: "r3 = MYLITE_OK" by auto
    from steps(4) [OF this] obtain x where x: "h0 = Some x" "prepared (sqlite d0) x = Some sql"
      "api_step api (Some x) (sqlite d0) = (SQLITE_ROW, w1)" by auto
    from steps(3) [OF r3] s2 have "mylite_catalog_checked_column_u64 rapi w1 (Some x) 0 = (MYLITE_OK, n)"
      using eq(2) x(1) by (auto simp: read_ok_def split: if_splits)
    with x rc1 prep(4) p show ?thesis by auto
  qed
qed

lemma read_catalog_generation_view:
  assumes ok: "catalog_statements_ok prepared db" and res: "read_catalog_generation api rapi db = (rc, n, db')"
  shows "quiet rc db db'" "rc = MYLITE_OK \<Longrightarrow> n = stored_generation (view (sqlite db)) \<and> n \<noteq> 0"
proof -
  obtain r0 n0 h d where s: "read_single_u64 api rapi db generation_sql = (r0, n0, h, d)"
    by (cases "read_single_u64 api rapi db generation_sql") auto
  let ?r = "if r0 = MYLITE_OK \<and> n0 = 0 then MYLITE_ERROR else r0"
  obtain rc' d' where f: "mylite_catalog_finalize_statement api d h ?r = (rc', d')"
    by (cases "mylite_catalog_finalize_statement api d h ?r")
  have eq: "rc = rc'" "n = n0" "db' = d'" using res s f by (simp_all add: read_catalog_generation_def Let_def)
  have sql: "generation_sql \<in> reading_sqls" by (simp add: reading_sqls_def)
  note q = read_single_quiet [OF ok sql s _ f]
  show "quiet rc db db'" using q(1) eq by simp
  show "n = stored_generation (view (sqlite db)) \<and> n \<noteq> 0" if "rc = MYLITE_OK"
  proof -
    from that eq q(2) obtain x w0 w where x: "?r = MYLITE_OK" "view w0 = view (sqlite db)"
      "prepared w0 x = Some generation_sql" "api_step api (Some x) w0 = (SQLITE_ROW, w)"
      "mylite_catalog_checked_column_u64 rapi w (Some x) 0 = (MYLITE_OK, n0)" by auto
    from checked_column_u64 [OF x(5)] generation_row [OF x(3,4)] x(1,2) eq show ?thesis
      by (auto split: if_splits)
  qed
qed

lemma read_data_version_view:
  assumes ok: "catalog_statements_ok prepared db" and res: "read_data_version api rapi db = (rc, n, db')"
  shows "quiet rc db db'"
proof -
  obtain r0 n0 h d where s: "read_single_u64 api rapi db ''PRAGMA main.data_version'' = (r0, n0, h, d)"
    by (cases "read_single_u64 api rapi db ''PRAGMA main.data_version''") auto
  obtain rc' d' where f: "mylite_catalog_finalize_statement api d h r0 = (rc', d')"
    by (cases "mylite_catalog_finalize_statement api d h r0")
  have "''PRAGMA main.data_version'' \<in> reading_sqls" by (simp add: reading_sqls_def)
  from read_single_quiet(1) [OF ok this s _ f] show ?thesis
    using res s f by (simp add: read_data_version_def)
qed

lemma read_schema_version_view:
  assumes ok: "catalog_statements_ok prepared db"
    and res: "mylite_catalog_read_sqlite_schema_version api rapi db = (rc, n, db')"
  shows "quiet rc db db'"
proof -
  let ?sql = "''PRAGMA main.schema_version''"
  have sql: "?sql \<in> reading_sqls" by (simp add: reading_sqls_def)
  then have hs: "has_statement ?sql" using catalog_sql_has_statement by blast
  obtain r0 h d where p: "mylite_catalog_prepare_statement api db ?sql = (r0, h, d)"
    by (cases "mylite_catalog_prepare_statement api db ?sql") auto
  obtain r1 w1 where s1: "on_ok r0 (sqlite d) (\<lambda>w. expect_row api w h) = (r1, w1)"
    by (cases "on_ok r0 (sqlite d) (\<lambda>w. expect_row api w h)")
  obtain r2 n2 where s2: "read_ok r1 (mylite_catalog_checked_column_i64 rapi w1 h 0) = (r2, n2)"
    by (cases "read_ok r1 (mylite_catalog_checked_column_i64 rapi w1 h 0)")
  let ?r = "if r2 = MYLITE_OK \<and> sint n2 \<le> 0 then MYLITE_ERROR else r2"
  obtain r3 w3 where s3: "on_ok ?r w1 (\<lambda>w. expect_end api w h) = (r3, w3)"
    by (cases "on_ok ?r w1 (\<lambda>w. expect_end api w h)")
  obtain r4 d4 where f: "mylite_catalog_finalize_statement api (d\<lparr>sqlite := w3\<rparr>) h r3 = (r4, d4)"
    by (cases "mylite_catalog_finalize_statement api (d\<lparr>sqlite := w3\<rparr>) h r3")
  have eq: "rc = r4" "db' = d4"
    using res p s1 s2 s3 f by (simp_all add: mylite_catalog_read_sqlite_schema_version_def Let_def)
  note prep = prepare_statement_catalog [OF ok hs p]
  from prep(1) obtain E where E: "held prepared E h ?sql d" by auto
  have mid: "r1 \<noteq> MYLITE_OK \<longrightarrow> ?r \<noteq> MYLITE_OK" using read_ok_fails [OF s2] by simp
  note steps = reading_steps [OF E prep(5) sql s1 mid s3]
  from finished_quiet(1) [OF ok hs p steps(1,2) f] eq show ?thesis by simp
qed

lemma read_seal_view:
  assumes ok: "catalog_statements_ok prepared db"
    and res: "read_catalog_integrity_seal api rapi db c = (rc, c', db')"
  shows "quiet rc db db'" "generation c' = generation c"
proof -
  have sql: "seal_sql \<in> reading_sqls" by (simp add: reading_sqls_def)
  then have hs: "has_statement seal_sql" using catalog_sql_has_statement by blast
  obtain r0 h d where p: "mylite_catalog_prepare_statement api db seal_sql = (r0, h, d)"
    by (cases "mylite_catalog_prepare_statement api db seal_sql") auto
  obtain r1 w1 where s1: "on_ok r0 (sqlite d) (\<lambda>w. expect_row api w h) = (r1, w1)"
    by (cases "on_ok r0 (sqlite d) (\<lambda>w. expect_row api w h)")
  obtain r2 n2 where s2: "read_ok r1 (mylite_catalog_checked_column_u64 rapi w1 h 0) = (r2, n2)"
    by (cases "read_ok r1 (mylite_catalog_checked_column_u64 rapi w1 h 0)")
  obtain r2' n2' where s2': "read_ok r2 (mylite_catalog_checked_column_u64 rapi w1 h 1) = (r2', n2')"
    by (cases "read_ok r2 (mylite_catalog_checked_column_u64 rapi w1 h 1)")
  obtain r3 w3 where s3: "on_ok r2' w1 (\<lambda>w. expect_end api w h) = (r3, w3)"
    by (cases "on_ok r2' w1 (\<lambda>w. expect_end api w h)")
  obtain r4 d4 where f: "mylite_catalog_finalize_statement api (d\<lparr>sqlite := w3\<rparr>) h r3 = (r4, d4)"
    by (cases "mylite_catalog_finalize_statement api (d\<lparr>sqlite := w3\<rparr>) h r3")
  have eq: "rc = r4" "db' = d4" and "generation c' = generation c"
    using res p s1 s2 s2' s3 f by (auto simp: read_catalog_integrity_seal_def Let_def)
  then show "generation c' = generation c" by simp
  note prep = prepare_statement_catalog [OF ok hs p]
  from prep(1) obtain E where E: "held prepared E h seal_sql d" by auto
  have mid: "r1 \<noteq> MYLITE_OK \<longrightarrow> r2' \<noteq> MYLITE_OK" using read_ok_fails [OF s2] read_ok_fails [OF s2'] by simp
  note steps = reading_steps [OF E prep(5) sql s1 mid s3]
  from finished_quiet(1) [OF ok hs p steps(1,2) f] eq show "quiet rc db db'" by simp
qed

text \<open>The catalog state: its generation is the stored one.\<close>

lemma catalog_state_view:
  fixes db :: "('w, 'c) connection"
  assumes ok: "catalog_statements_ok prepared db" and res: "read_catalog_state api rapi db = (rc, c, db')"
  shows "quiet rc db db'" "rc = MYLITE_OK \<Longrightarrow> generation c = stored_generation (view (sqlite db)) \<and> generation c \<noteq> 0"
proof -
  have sql: "state_sql \<in> reading_sqls" by (simp add: reading_sqls_def)
  then have hs: "has_statement state_sql" using catalog_sql_has_statement by blast
  let ?col = "mylite_catalog_checked_column_i64 rapi"
  obtain r0 h d where p: "mylite_catalog_prepare_statement api db state_sql = (r0, h, d)"
    by (cases "mylite_catalog_prepare_statement api db state_sql") auto
  obtain r1 w1 where s1: "on_ok r0 (sqlite d) (\<lambda>w. expect_row api w h) = (r1, w1)"
    by (cases "on_ok r0 (sqlite d) (\<lambda>w. expect_row api w h)")
  obtain a0 n0 where c0: "read_ok r1 (?col w1 h 0) = (a0, n0)" by (cases "read_ok r1 (?col w1 h 0)")
  obtain a1 n1 where c1: "read_ok a0 (?col w1 h 1) = (a1, n1)" by (cases "read_ok a0 (?col w1 h 1)")
  obtain a2 n2 where c2: "read_ok a1 (?col w1 h 2) = (a2, n2)" by (cases "read_ok a1 (?col w1 h 2)")
  obtain a3 g where c3: "read_ok a2 (?col w1 h 3) = (a3, g)" by (cases "read_ok a2 (?col w1 h 3)")
  obtain a4 n4 where c4: "read_ok a3 (?col w1 h 4) = (a4, n4)" by (cases "read_ok a3 (?col w1 h 4)")
  obtain r3 w3 where s3: "on_ok a4 w1 (\<lambda>w. expect_end api w h) = (r3, w3)" by (cases "on_ok a4 w1 (\<lambda>w. expect_end api w h)")
  let ?d = "d\<lparr>sqlite := w3\<rparr>"
  let ?r = "if r3 = MYLITE_OK \<and> \<not> catalog_state_row_is_valid n0 n1 n2 g n4 then MYLITE_ERROR else r3"
  obtain b1 k1 where k1: "(if ?r = MYLITE_OK
      then (let (r, v) = mylite_catalog_i64_to_u32 n1 in (r, if r = MYLITE_OK then blank_catalog\<lparr>schema_version := v\<rparr> else blank_catalog))
      else (?r, blank_catalog)) = (b1, k1)" by (rule prod.exhaust)
  obtain b2 k2 where k2: "(if b1 = MYLITE_OK
      then (let (r, v) = mylite_catalog_i64_to_u64 g in (r, if r = MYLITE_OK then k1\<lparr>generation := v\<rparr> else k1))
      else (b1, k1)) = (b2, k2)" by (rule prod.exhaust)
  obtain b3 k3 d3 where k3: "(if b2 = MYLITE_OK \<and> uint (schema_version k2) \<ge> MYLITE_CATALOG_SCHEMA_VERSION
      then read_catalog_integrity_seal api rapi ?d k2 else (b2, k2, ?d)) = (b3, k3, d3)" by (rule prod_cases3)
  obtain r4 d4 where f: "mylite_catalog_finalize_statement api d3 h b3 = (r4, d4)"
    by (cases "mylite_catalog_finalize_statement api d3 h b3")
  have eq: "rc = r4" "db' = d4" "c = (if b3 = MYLITE_OK then reset_descriptor_cache_state (k3\<lparr>initialized := True\<rparr>) else k3)"
    using res [unfolded read_catalog_state_def Let_def p prod.case s1 c0 c1 c2 c3 c4 s3]
      k1 [unfolded Let_def] k2 [unfolded Let_def] k3 f by simp_all
  note prep = prepare_statement_catalog [OF ok hs p]
  from prep(1) obtain E where E: "held prepared E h state_sql d" "grew prepared E db d" by auto
  have mid: "r1 \<noteq> MYLITE_OK \<longrightarrow> a4 \<noteq> MYLITE_OK"
    using read_ok_fails [OF c0] read_ok_fails [OF c1] read_ok_fails [OF c2] read_ok_fails [OF c3] read_ok_fails [OF c4] by blast
  note steps = reading_steps [OF E(1) prep(5) sql s1 mid s3]
  have d_ok: "catalog_statements_ok prepared ?d" "held prepared E h state_sql ?d" "grew prepared E db ?d"
    using E prep(2) by (simp_all add: sqlite_change [OF steps(1)])

  have b1: "b1 = MYLITE_OK \<Longrightarrow> ?r = MYLITE_OK"
    using k1 by (cases "?r = MYLITE_OK") simp_all
  have b2: "b2 = MYLITE_OK \<Longrightarrow> r3 = MYLITE_OK \<and> catalog_state_row_is_valid n0 n1 n2 g n4 \<and> generation k2 = g"
  proof -
    assume "b2 = MYLITE_OK"
    with k2 have "b1 = MYLITE_OK" by (auto split: if_splits)
    with b1 have "?r = MYLITE_OK" by simp
    moreover have "generation k2 = g" using k2 \<open>b1 = MYLITE_OK\<close> \<open>b2 = MYLITE_OK\<close>
      by (auto simp: mylite_catalog_i64_to_u64_def split: if_splits)
    ultimately show ?thesis by (simp split: if_splits)
  qed
  have q3: "quiet b3 ?d d3 \<and> (b3 = MYLITE_OK \<longrightarrow> b2 = MYLITE_OK) \<and> generation k3 = generation k2"
  proof (cases "b2 = MYLITE_OK \<and> uint (schema_version k2) \<ge> MYLITE_CATALOG_SCHEMA_VERSION")
    case True
    with k3 have "read_catalog_integrity_seal api rapi ?d k2 = (b3, k3, d3)" by simp
    from read_seal_view [OF d_ok(1) this] True show ?thesis by simp
  next
    case False
    with k3 have "b3 = b2" "k3 = k2" "d3 = ?d" by auto
    with d_ok(1) grew_refl [OF d_ok(1)] show ?thesis by (simp add: quiet_def calm_def)
  qed
  then have d3: "catalog_statements_ok prepared d3" "held prepared E h state_sql d3" "grew prepared E db d3" "same_connection ?d d3"
    using held_grew [OF d_ok(2)] grew_trans [OF d_ok(3)] by (simp_all add: quiet_def)
  note fin = finalize_statement_catalog [OF d3(1-3) f]
  have same: "same_connection db db'"
    using same_connection_trans [OF same_connection_trans [OF same_connection_trans [OF prep(3) same_connection_updates(1)] d3(4)] fin(3)] eq by simp
  have r3b: "b3 = MYLITE_OK \<Longrightarrow> r3 = MYLITE_OK" using q3 b2 by simp
  have late: "r3 \<noteq> MYLITE_OK \<Longrightarrow> d3 = ?d"
    using k3 b2 by (auto split: if_splits)
  have "calm b3 (view (sqlite d)) (view (sqlite d3))"
  proof (cases "r3 = MYLITE_OK")
    case True
    with steps(2) have "view w3 = view (sqlite d)" by (simp add: calm_def)
    with q3 show ?thesis by (simp add: quiet_def)
  next
    case False
    with steps(2) late r3b show ?thesis by (auto simp: calm_def)
  qed
  then have "calm rc (view (sqlite db)) (view (sqlite db'))" using fin(4,5) prep(4) eq by (auto simp: calm_def)
  with same fin(1,2) eq show "quiet rc db db'" by (simp add: quiet_def)
  show "generation c = stored_generation (view (sqlite db)) \<and> generation c \<noteq> 0" if "rc = MYLITE_OK"
  proof -
    from that eq fin(5) have b3: "b3 = MYLITE_OK" by simp
    with q3 have b2': "b2 = MYLITE_OK" by simp
    from steps(4) [OF r3b [OF b3]] obtain x where x: "h = Some x" "prepared (sqlite d) x = Some state_sql"
      "api_step api (Some x) (sqlite d) = (SQLITE_ROW, w1)" by auto
    have "a4 = MYLITE_OK" using steps(3) r3b [OF b3] by simp
    then have a3: "a3 = MYLITE_OK" using read_ok_fails [OF c4] by blast
    then have "api_column_type rapi h 3 w1 = SQLITE_INTEGER" "g = api_column_int64 rapi h 3 w1"
      using c3 by (auto simp: read_ok_def mylite_catalog_checked_column_i64_def split: if_splits)
    with state_row [OF x(2,3)] x(1) prep(4) have "g = stored_generation (view (sqlite db))" by simp
    moreover have "g \<noteq> 0" using b2 [OF b2'] by (auto simp: catalog_state_row_is_valid_def)
    moreover have "generation c = g" using eq(3) b3 q3 b2 [OF b2'] by (simp add: reset_descriptor_cache_state_def)
    ultimately show ?thesis by simp
  qed
qed

lemma bind_u64_view:
  assumes "mylite_catalog_bind_u64 rapi w (Some x) i n = (rc, w')"
  shows "prepared w' = prepared w" "view w' = view w" "rc = MYLITE_OK \<Longrightarrow> bound w' x i = Some n"
proof -
  obtain r w1 where b: "api_bind_int64 rapi (Some x) i n w = (r, w1)" by (cases "api_bind_int64 rapi (Some x) i n w")
  note f = binding [OF b]
  show "prepared w' = prepared w" "view w' = view w" "rc = MYLITE_OK \<Longrightarrow> bound w' x i = Some n"
    using assms b f by (auto simp: mylite_catalog_bind_u64_def mylite_catalog_bind_i64_def mylite_catalog_u64_to_i64_def
        mylite_sqlite_status_to_mylite_def split: if_splits)
qed

text \<open>Storing the generation.\<close>

lemma update_generation_view:
  assumes ok: "catalog_statements_ok prepared db" and res: "update_catalog_generation api rapi db g = (rc, db')"
  shows "catalog_statements_ok prepared db'" "grew prepared {} db db'" "same_connection db db'"
    "if rc = MYLITE_OK then view (sqlite db') = (view (sqlite db))\<lparr>stored_generation := g\<rparr>
     else view (sqlite db') \<in> {view (sqlite db), (view (sqlite db))\<lparr>stored_generation := g\<rparr>, aborted (view (sqlite db))}"
proof -
  let ?v = "view (sqlite db)"
  define good where "good \<longleftrightarrow> catalog_statements_ok prepared db' \<and> grew prepared {} db db' \<and> same_connection db db' \<and>
    (if rc = MYLITE_OK then view (sqlite db') = ?v\<lparr>stored_generation := g\<rparr>
     else view (sqlite db') \<in> {?v, ?v\<lparr>stored_generation := g\<rparr>, aborted ?v})"
  have good
  proof (cases "mylite_catalog_validate_generation g = MYLITE_OK")
    case False
    with res ok grew_refl [OF ok] show ?thesis by (auto simp: update_catalog_generation_def good_def)
  next
    case True
    let ?sql = update_generation_sql
    have hs: "has_statement ?sql" using catalog_sql_has_statement by blast
    obtain r0 h d where p: "mylite_catalog_prepare_statement api db ?sql = (r0, h, d)"
      by (cases "mylite_catalog_prepare_statement api db ?sql") auto
    obtain r1 w1 where s1: "on_ok r0 (sqlite d) (\<lambda>w. mylite_catalog_bind_u64 rapi w h 1 g) = (r1, w1)"
      by (cases "on_ok r0 (sqlite d) (\<lambda>w. mylite_catalog_bind_u64 rapi w h 1 g)")
    obtain r2 w2 where s2: "on_ok r1 w1 (\<lambda>w. mylite_catalog_step_done api w h) = (r2, w2)"
      by (cases "on_ok r1 w1 (\<lambda>w. mylite_catalog_step_done api w h)")
    let ?r = "if r2 = MYLITE_OK then mylite_catalog_require_changed_row rapi w2 else r2"
    have f: "mylite_catalog_finalize_statement api (d\<lparr>sqlite := w2\<rparr>) h ?r = (rc, db')"
      using res True p s1 s2 by (simp add: update_catalog_generation_def Let_def)
    note prep = prepare_statement_catalog [OF ok hs p]
    from prep(1) obtain E where E: "held prepared E h ?sql d" by auto
    have w2: "prepared w2 = prepared (sqlite d) \<and> (if ?r = MYLITE_OK then view w2 = ?v\<lparr>stored_generation := g\<rparr>
       else view w2 \<in> {?v, ?v\<lparr>stored_generation := g\<rparr>, aborted ?v})"
    proof (cases h)
      case None
      with prep(4,5) s1 s2 show ?thesis by (auto simp: on_ok_def)
    next
      case (Some x)
      with E prep(5) have x: "prepared (sqlite d) x = Some ?sql" "r0 = MYLITE_OK" by (auto simp: held_def)
      from s1 x(2) Some have "mylite_catalog_bind_u64 rapi (sqlite d) (Some x) 1 g = (r1, w1)" by (simp add: on_ok_def)
      note b = bind_u64_view [OF this]
      show ?thesis
      proof (cases "r1 = MYLITE_OK")
        case False
        with s2 b prep(4) show ?thesis by (auto simp: on_ok_def)
      next
        case True
        obtain r w where st: "api_step api (Some x) w1 = (r, w)" by (cases "api_step api (Some x) w1")
        have eq: "w2 = w" "r2 = (if r \<noteq> SQLITE_DONE then mylite_sqlite_status_to_mylite r else MYLITE_OK)"
          using s2 True Some st by (auto simp: on_ok_def mylite_catalog_step_done_def)
        have "prepared w1 x = Some ?sql" using b(1) x(1) by simp
        from updating_generation [OF this b(3) [OF True] st] b(2) prep(4) eq
        have "(if ?r = MYLITE_OK then view w2 = ?v\<lparr>stored_generation := g\<rparr>
           else view w2 \<in> {?v, ?v\<lparr>stored_generation := g\<rparr>, aborted ?v})"
          by (auto simp: mylite_catalog_require_changed_row_def mylite_sqlite_status_to_mylite_def split: if_splits)
        then show ?thesis using step_keeps [of "Some x" w1] st b(1) eq(1) by simp
      qed
    qed
    note fin = finished_statement [OF ok hs p conjunct1 [OF w2] f]
    have "if rc = MYLITE_OK then view (sqlite db') = ?v\<lparr>stored_generation := g\<rparr>
      else view (sqlite db') \<in> {?v, ?v\<lparr>stored_generation := g\<rparr>, aborted ?v}"
      using conjunct2 [OF w2] fin(4,5) by (auto split: if_splits)
    with fin show ?thesis by (simp add: good_def)
  qed
  then show "catalog_statements_ok prepared db'" "grew prepared {} db db'" "same_connection db db'"
    "if rc = MYLITE_OK then view (sqlite db') = ?v\<lparr>stored_generation := g\<rparr>
     else view (sqlite db') \<in> {?v, ?v\<lparr>stored_generation := g\<rparr>, aborted ?v}"
    unfolding good_def by blast+
qed

lemma quiet_trans: "quiet MYLITE_OK db d \<Longrightarrow> quiet rc d db' \<Longrightarrow> quiet rc db db'"
  unfolding quiet_def by (auto simp: calm_def intro: grew_trans same_connection_trans)

lemma quiet_refl: "catalog_statements_ok prepared db \<Longrightarrow> quiet rc db db"
  by (simp add: quiet_def calm_def grew_refl)

lemma publish_seal_view:
  assumes ok: "catalog_statements_ok prepared db" and res: "mylite_catalog_publish_integrity_seal api rapi db g = (rc, db')"
  shows "quiet rc db db'"
proof -
  let ?sql = update_seal_sql
  have hs: "has_statement ?sql" using catalog_sql_has_statement by blast
  obtain r1 n d1 where v: "mylite_catalog_read_sqlite_schema_version api rapi db = (r1, n, d1)"
    by (cases "mylite_catalog_read_sqlite_schema_version api rapi db") auto
  note vq = read_schema_version_view [OF ok v]
  show ?thesis
  proof (cases "mylite_catalog_validate_generation g = MYLITE_OK \<and> r1 = MYLITE_OK")
    case False
    with res v vq quiet_refl [OF ok] show ?thesis
      by (auto simp: mylite_catalog_publish_integrity_seal_def Let_def on_ok_def mylite_catalog_finalize_statement_def split: if_splits)
  next
    case True
    then have ok1: "catalog_statements_ok prepared d1" "quiet MYLITE_OK db d1" using vq by (auto simp: quiet_def)
    obtain r2 h d where p: "mylite_catalog_prepare_statement api d1 ?sql = (r2, h, d)"
      by (cases "mylite_catalog_prepare_statement api d1 ?sql") auto
    obtain r3 w3 where s3: "on_ok r2 (sqlite d) (\<lambda>w. mylite_catalog_bind_u64 rapi w h 1 g) = (r3, w3)"
      by (cases "on_ok r2 (sqlite d) (\<lambda>w. mylite_catalog_bind_u64 rapi w h 1 g)")
    obtain r4 w4 where s4: "on_ok r3 w3 (\<lambda>w. mylite_catalog_bind_u64 rapi w h 2 n) = (r4, w4)"
      by (cases "on_ok r3 w3 (\<lambda>w. mylite_catalog_bind_u64 rapi w h 2 n)")
    obtain r5 w5 where s5: "on_ok r4 w4 (\<lambda>w. mylite_catalog_step_done api w h) = (r5, w5)"
      by (cases "on_ok r4 w4 (\<lambda>w. mylite_catalog_step_done api w h)")
    let ?r = "if r5 = MYLITE_OK then mylite_catalog_require_changed_row rapi w5 else r5"
    have f: "mylite_catalog_finalize_statement api (d\<lparr>sqlite := w5\<rparr>) h ?r = (rc, db')"
      using res True v p s3 s4 s5 by (simp add: mylite_catalog_publish_integrity_seal_def Let_def)
    note prep = prepare_statement_catalog [OF ok1(1) hs p]
    from prep(1) obtain E where E: "held prepared E h ?sql d" by auto
    have w5: "prepared w5 = prepared (sqlite d) \<and> calm ?r (view (sqlite d)) (view w5)"
    proof (cases h)
      case None
      with prep(5) s3 s4 s5 show ?thesis by (auto simp: on_ok_def calm_def)
    next
      case (Some x)
      with E have x: "prepared (sqlite d) x = Some ?sql" by (simp add: held_def)
      have w4: "prepared w4 = prepared (sqlite d)" "view w4 = view (sqlite d)"
        using s3 s4 Some bind_u64_view by (auto simp: on_ok_def split: if_splits)
      obtain r w where st: "api_step api (Some x) w4 = (r, w)" by (cases "api_step api (Some x) w4")
      have "prepared w4 x = Some ?sql" using w4 x by simp
      from updating_seal [OF this st] step_keeps [of "Some x" w4] st s5 Some w4 show ?thesis
        by (auto simp: on_ok_def calm_def mylite_catalog_step_done_def mylite_sqlite_status_to_mylite_def
            split: if_splits)
    qed
    from finished_quiet(1) [OF ok1(1) hs p conjunct1 [OF w5] conjunct2 [OF w5] f]
    show ?thesis by (rule quiet_trans [OF ok1(2)])
  qed
qed

end

end
