(* ===== verification/Sqlite_Table.thy ===== *)
theory Sqlite_Table
  imports Catalog_Sqlite
begin

text \<open>
  An implementation of the contracts on SQLite, for concrete runs: a table of statements that
  numbers them in order, their bindings, the open transaction levels and the stored catalog
  generation. Every statement succeeds, except control statements SQLite refuses in the state
  they are executed in.
\<close>

record sqlite_world =
  world_statements :: "nat \<rightharpoonup> string"
  world_next :: nat
  world_view :: transaction_view
  world_bound :: "nat \<Rightarrow> nat \<Rightarrow> u64 option"
  world_at_row :: "nat \<Rightarrow> bool"
  world_changes :: int
  world_data_version :: u64

definition world_prepared :: "sqlite_world \<Rightarrow> nat \<rightharpoonup> string" where
  "world_prepared w = (\<lambda>x. if x < world_next w then world_statements w x else None)"

definition world_control :: "control \<Rightarrow> sqlite_world \<Rightarrow> int \<Rightarrow> int \<times> sqlite_world" where
  "world_control c w done_rc =
     (case control_result c (world_view w) of Some v \<Rightarrow> (done_rc, w\<lparr>world_view := v\<rparr>) | None \<Rightarrow> (1, w))"

definition world_step :: "nat option \<Rightarrow> sqlite_world \<Rightarrow> int \<times> sqlite_world" where
  "world_step h w =
     (case h of None \<Rightarrow> (SQLITE_MISUSE, w)
      | Some x \<Rightarrow>
        (case world_prepared w x of None \<Rightarrow> (SQLITE_MISUSE, w)
         | Some sql \<Rightarrow>
           (case control_meaning sql of
              Some c \<Rightarrow> world_control c w SQLITE_DONE
            | None \<Rightarrow>
              if sql = update_generation_sql
              then (case world_bound w x 1 of None \<Rightarrow> (1, w)
                    | Some g \<Rightarrow> (SQLITE_DONE, w\<lparr>world_view := (world_view w)\<lparr>stored_generation := g\<rparr>, world_changes := 1\<rparr>))
              else if sql = update_seal_sql then (SQLITE_DONE, w\<lparr>world_changes := 1\<rparr>)
              else if world_at_row w x then (SQLITE_DONE, w\<lparr>world_at_row := (world_at_row w)(x := False)\<rparr>)
              else (SQLITE_ROW, w\<lparr>world_at_row := (world_at_row w)(x := True)\<rparr>))))"

definition world_exec :: "string \<Rightarrow> sqlite_world \<Rightarrow> int \<times> sqlite_world" where
  "world_exec sql w = (case control_meaning sql of Some c \<Rightarrow> world_control c w SQLITE_OK | None \<Rightarrow> (SQLITE_OK, w))"

definition world_statement_api :: "sqlite_world statement_api" where
  "world_statement_api =
     \<lparr>api_prepare = \<lambda>sql w. (SQLITE_OK, Some (world_next w),
        w\<lparr>world_statements := (world_statements w)(world_next w \<mapsto> sql), world_next := world_next w + 1\<rparr>),
      api_finalize = \<lambda>h w. (SQLITE_OK, case h of None \<Rightarrow> w
        | Some x \<Rightarrow> w\<lparr>world_statements := (world_statements w)(x := None)\<rparr>),
      api_step = world_step,
      api_reset = \<lambda>h w. (SQLITE_OK, case h of None \<Rightarrow> w | Some x \<Rightarrow> w\<lparr>world_at_row := (world_at_row w)(x := False)\<rparr>),
      api_clear_bindings = \<lambda>h w. (SQLITE_OK, case h of None \<Rightarrow> w
        | Some x \<Rightarrow> w\<lparr>world_bound := (world_bound w)(x := \<lambda>i. None)\<rparr>),
      api_exec = world_exec,
      api_get_autocommit = \<lambda>w. if open_levels (world_view w) = [] then 1 else 0,
      api_errmsg = \<lambda>w. ''not an error''\<rparr>"

definition world_column :: "nat option \<Rightarrow> nat \<Rightarrow> sqlite_world \<Rightarrow> u64" where
  "world_column h i w =
     (case h of None \<Rightarrow> 0
      | Some x \<Rightarrow>
        let g = stored_generation (world_view w)
        in if world_prepared w x = Some state_sql then [1, 38, 38, g, 3] ! i
           else if world_prepared w x = Some generation_sql then g
           else if world_prepared w x = Some ''PRAGMA main.data_version'' then world_data_version w else 1)"

definition world_row_api :: "sqlite_world row_api" where
  "world_row_api =
     \<lparr>api_column_type = \<lambda>h i w. SQLITE_INTEGER, api_column_int64 = world_column,
      api_bind_int64 = \<lambda>h i n w. (SQLITE_OK, case h of None \<Rightarrow> w
        | Some x \<Rightarrow> w\<lparr>world_bound := (world_bound w)(x := (world_bound w x)(i := Some n))\<rparr>),
      api_changes = world_changes\<rparr>"

lemma catalog_sql_not_control:
  assumes "sql \<in> reading_sqls \<union> {update_generation_sql, update_seal_sql}"
  shows "control_meaning sql = None"
proof (rule ccontr)
  assume c: "control_meaning sql \<noteq> None"
  have t: "take 2 sql = take 2 p" if "take n sql = p" "2 \<le> n" for n p
    using that by (auto simp: min_def)
  have control: "take 2 sql \<in> {''BE'', ''CO'', ''RO'', ''RE'', ''SA''}"
    using c t [of 22 "''ROLLBACK TO SAVEPOINT ''"] t [of 18 "''RELEASE SAVEPOINT ''"] t [of 10 "''SAVEPOINT ''"]
    unfolding control_meaning_def by (simp split: if_splits) (elim disjE; simp)
  have "take 2 state_sql = ''SE''" "take 2 seal_sql = ''SE''" "take 2 generation_sql = ''SE''"
    "take 2 update_generation_sql = ''UP''" "take 2 update_seal_sql = ''UP''"
    by (simp_all add: state_sql_def seal_sql_def generation_sql_def update_generation_sql_def update_seal_sql_def)
  with assms have "take 2 sql \<in> {''SE'', ''UP'', ''PR''}" by (auto simp: reading_sqls_def)
  with control show False by auto
qed

lemma catalog_sqls_differ:
  "update_generation_sql \<notin> reading_sqls" "update_seal_sql \<notin> reading_sqls" "update_seal_sql \<noteq> update_generation_sql"
  "generation_sql \<noteq> state_sql" "''PRAGMA main.data_version'' \<notin> {state_sql, generation_sql}"
  by (simp_all add: reading_sqls_def state_sql_def seal_sql_def generation_sql_def update_generation_sql_def update_seal_sql_def)

lemma world_prepared_frame [simp]:
  "world_prepared (w\<lparr>world_view := v\<rparr>) = world_prepared w" "world_prepared (w\<lparr>world_bound := b\<rparr>) = world_prepared w"
  "world_prepared (w\<lparr>world_at_row := r\<rparr>) = world_prepared w" "world_prepared (w\<lparr>world_changes := n\<rparr>) = world_prepared w"
  by (simp_all add: world_prepared_def fun_eq_iff)

lemma world_control_prepared [simp]: "world_prepared (snd (world_control c w d)) = world_prepared w"
  by (simp add: world_control_def split: option.splits)

lemma world_step_prepared [simp]: "world_prepared (snd (world_step h w)) = world_prepared w"
  by (simp add: world_step_def split: option.splits)

lemma world_exec_prepared [simp]: "world_prepared (snd (world_exec sql w)) = world_prepared w"
  by (simp add: world_exec_def split: option.splits)

lemma world_reading:
  assumes "world_prepared w x = Some sql" "sql \<in> reading_sqls"
  shows "world_step (Some x) w = (if world_at_row w x then (SQLITE_DONE, w\<lparr>world_at_row := (world_at_row w)(x := False)\<rparr>)
    else (SQLITE_ROW, w\<lparr>world_at_row := (world_at_row w)(x := True)\<rparr>))"
  using assms catalog_sql_not_control [of sql] catalog_sqls_differ by (auto simp: world_step_def)

lemma world_updating:
  "world_prepared w x = Some update_generation_sql \<Longrightarrow> world_bound w x 1 = Some g \<Longrightarrow> world_step (Some x) w =
    (SQLITE_DONE, w\<lparr>world_view := (world_view w)\<lparr>stored_generation := g\<rparr>, world_changes := 1\<rparr>)"
  "world_prepared w x = Some update_seal_sql \<Longrightarrow> world_step (Some x) w = (SQLITE_DONE, w\<lparr>world_changes := 1\<rparr>)"
  using catalog_sql_not_control [of update_generation_sql] catalog_sql_not_control [of update_seal_sql] catalog_sqls_differ
  by (simp_all add: world_step_def)

interpretation sqlite_world: sqlite_statements world_statement_api world_prepared "\<lambda>sql. True"
proof
  fix sql w h w' x
  assume "api_prepare world_statement_api sql w = (SQLITE_OK, h, w')"
  then have "h = Some (world_next w)" "w' = w\<lparr>world_statements := (world_statements w)(world_next w \<mapsto> sql), world_next := world_next w + 1\<rparr>"
    by (simp_all add: world_statement_api_def)
  then show "\<exists>x. h = Some x \<and> world_prepared w x = None \<and> world_prepared w' = (world_prepared w)(x \<mapsto> sql)"
    by (simp add: world_prepared_def fun_eq_iff)
next
  show "world_prepared (snd (api_finalize world_statement_api (Some x) w)) = (world_prepared w)(x := None)" for x w
    by (simp add: world_statement_api_def world_prepared_def fun_eq_iff)
  show "world_prepared (snd (api_step world_statement_api h w)) = world_prepared w"
    "world_prepared (snd (api_exec world_statement_api sql w)) = world_prepared w"
    "world_prepared (snd (api_reset world_statement_api h w)) = world_prepared w"
    "world_prepared (snd (api_clear_bindings world_statement_api h w)) = world_prepared w" for h sql w
    by (simp_all add: world_statement_api_def split: option.splits)
qed (simp add: world_statement_api_def)

interpretation transaction_world: sqlite_transactions world_statement_api world_prepared "\<lambda>sql. True" world_view
  by unfold_locales
    (auto simp: world_statement_api_def world_step_def world_exec_def world_control_def split: option.splits if_splits)

interpretation catalog_world: catalog_rows world_statement_api world_prepared "\<lambda>sql. True" world_view world_row_api world_bound
proof
  fix w x sql rc w'
  assume p: "world_prepared w x = Some sql" "sql \<in> reading_sqls"
  assume "api_step world_statement_api (Some x) w = (rc, w')"
  then show "rc \<noteq> SQLITE_OK \<and> (world_view w' = world_view w \<or> rc \<notin> {SQLITE_ROW, SQLITE_DONE} \<and> world_view w' = aborted (world_view w))"
    by (auto simp: world_statement_api_def world_reading [OF p] split: if_splits)
next
  fix w x w'
  assume p: "world_prepared w x = Some generation_sql" and s: "api_step world_statement_api (Some x) w = (SQLITE_ROW, w')"
  have "generation_sql \<in> reading_sqls" by (simp add: reading_sqls_def)
  note r = world_reading [OF p this]
  from s have "w' = w\<lparr>world_at_row := (world_at_row w)(x := True)\<rparr>" by (auto simp: world_statement_api_def r split: if_splits)
  with p catalog_sqls_differ show "api_column_int64 world_row_api (Some x) 0 w' = stored_generation (world_view w)"
    by (simp add: world_row_api_def world_column_def Let_def)
next
  fix w x w'
  assume p: "world_prepared w x = Some state_sql" and s: "api_step world_statement_api (Some x) w = (SQLITE_ROW, w')"
  have "state_sql \<in> reading_sqls" by (simp add: reading_sqls_def)
  note r = world_reading [OF p this]
  from s have "w' = w\<lparr>world_at_row := (world_at_row w)(x := True)\<rparr>" by (auto simp: world_statement_api_def r split: if_splits)
  with p show "api_column_int64 world_row_api (Some x) 3 w' = stored_generation (world_view w)"
    by (simp add: world_row_api_def world_column_def Let_def)
next
  fix w x g rc w'
  assume p: "world_prepared w x = Some update_generation_sql" "world_bound w x 1 = Some g"
  assume "api_step world_statement_api (Some x) w = (rc, w')"
  then show "rc \<noteq> SQLITE_OK \<and> (if rc = SQLITE_DONE
       then world_view w' = (if api_changes world_row_api w' = 1 then (world_view w)\<lparr>stored_generation := g\<rparr> else world_view w)
       else world_view w' = world_view w \<or> world_view w' = aborted (world_view w))"
    by (auto simp: world_statement_api_def world_row_api_def world_updating(1) [OF p])
next
  fix w x rc w'
  assume "world_prepared w x = Some update_seal_sql" "api_step world_statement_api (Some x) w = (rc, w')"
  then show "rc \<noteq> SQLITE_OK \<and> (world_view w' = world_view w \<or> rc \<noteq> SQLITE_DONE \<and> world_view w' = aborted (world_view w))"
    by (auto simp: world_statement_api_def world_updating(2))
qed (auto simp: world_row_api_def world_prepared_def fun_eq_iff)

end
