(* ===== verification/Catalog_State.thy ===== *)
theory Catalog_State
  imports Sqlite_Table
begin

text \<open>
  The catalog generation and the mutations that advance it, \<^verbatim>\<open>runtime/mylite_catalog_state.c\<close>:
  synchronising with the stored generation, and beginning, committing and rolling back a catalog
  mutation or a change of generation. The checks of the catalog's tables that
  \<^verbatim>\<open>mylite_catalog_validate_integrity\<close> makes are a parameter, as are the descriptor caches, of
  which only their invalidation is used here; the locale \<open>catalog_store\<close> says that the checks only
  read.
\<close>

section \<open>Parameters\<close>

record ('w, 'c) catalog_api =
  validate_integrity :: "('w, 'c) connection \<Rightarrow> int \<times> ('w, 'c) connection"
  drop_descriptors :: "u64 \<Rightarrow> 'c \<Rightarrow> 'c"
  drop_table_status :: "'c \<Rightarrow> 'c"

record catalog_mutation =
  active :: bool
  requires_integrity_validation :: bool
  uses_savepoint :: bool
  next_generation :: u64

record catalog_generation_change =
  change_uses_savepoint :: bool
  change_next_generation :: u64

abbreviation (input) MYLITE_EXECUTION_REPLAN :: int where "MYLITE_EXECUTION_REPLAN \<equiv> - 1"

section \<open>Helpers\<close>

text \<open>\<^verbatim>\<open>"%.<n>s"\<close> of a string and the truncation of \<^verbatim>\<open>snprintf\<close> to its buffer.\<close>

definition diagnostic_text :: "string list \<Rightarrow> string" where
  "diagnostic_text parts = take (MYLITE_DIAGNOSTIC_MESSAGE_CAPACITY - 1) (concat parts)"

definition mylite_catalog_execute_sql ::
    "'w statement_api \<Rightarrow> ('w, 'c) connection \<Rightarrow> string \<Rightarrow> ('w, 'c) db_result" where
  "mylite_catalog_execute_sql api db sql =
     (let (sqlite_rc, w) = api_exec api sql (sqlite db)
      in (mylite_sqlite_status_to_mylite sqlite_rc, db\<lparr>sqlite := w\<rparr>))"

definition mylite_catalog_validate_ready_database :: "('w, 'c) connection \<Rightarrow> int" where
  "mylite_catalog_validate_ready_database db = (if initialized (catalog db) then MYLITE_OK else MYLITE_MISUSE)"

definition mylite_catalog_validate_active_mutation :: "catalog_mutation \<Rightarrow> int" where
  "mylite_catalog_validate_active_mutation mutation =
     (if \<not> active mutation \<or> next_generation mutation = 0 then MYLITE_MISUSE else MYLITE_OK)"

definition mylite_catalog_invalidate_descriptor_cache ::
    "('w, 'c) catalog_api \<Rightarrow> ('w, 'c) connection \<Rightarrow> ('w, 'c) connection" where
  "mylite_catalog_invalidate_descriptor_cache capi db =
     db\<lparr>catalog := reset_descriptor_cache_state (catalog db),
       descriptor_caches := drop_descriptors capi (catalog_generation db) (descriptor_caches db)\<rparr>"

definition mylite_catalog_synchronize_snapshot ::
    "'w statement_api \<Rightarrow> 'w row_api \<Rightarrow> ('w, 'c) catalog_api \<Rightarrow> ('w, 'c) connection \<Rightarrow> ('w, 'c) db_result" where
  "mylite_catalog_synchronize_snapshot api rapi capi db =
     (if user_transaction_active db \<and> catalog_snapshot_synchronized db then (MYLITE_OK, db)
      else (let db = (if \<not> user_transaction_active db then db\<lparr>catalog_snapshot_synchronized := False\<rparr> else db)
            in if \<not> initialized (catalog db)
               then (MYLITE_OK, db\<lparr>catalog_snapshot_synchronized := user_transaction_active db\<rparr>)
               else (let (rc, data_version, db) = read_data_version api rapi db
                     in if rc \<noteq> MYLITE_OK then (rc, db)
                        else if has_observed_data_version (catalog db) \<and>
                                data_version = observed_data_version (catalog db)
                        then (MYLITE_OK, db\<lparr>catalog_snapshot_synchronized := user_transaction_active db\<rparr>)
                        else (let (rc, stored, db) = read_catalog_generation api rapi db
                              in if rc \<noteq> MYLITE_OK then (rc, db)
                                 else (let db = (if stored \<noteq> generation (catalog db)
                                                 then mylite_catalog_invalidate_descriptor_cache capi
                                                   (db\<lparr>catalog := (catalog db)\<lparr>generation := stored\<rparr>,
                                                      catalog_generation := stored\<rparr>)
                                                 else if has_observed_data_version (catalog db)
                                                 then db\<lparr>descriptor_caches := drop_table_status capi (descriptor_caches db)\<rparr>
                                                 else db)
                                       in (MYLITE_OK, db\<lparr>catalog := (catalog db)\<lparr>observed_data_version := data_version,
                                             has_observed_data_version := True\<rparr>,
                                             catalog_snapshot_synchronized := user_transaction_active db\<rparr>))))))"

section \<open>Rolling back\<close>

definition rollback_catalog_transaction ::
    "'w statement_api \<Rightarrow> ('w, 'c) connection \<Rightarrow> int \<Rightarrow> ('w, 'c) db_result" where
  "rollback_catalog_transaction api db primary_rc =
     (let primary = condition (db_diagnostics db);
          (sqlite_rc, w) = api_exec api ''ROLLBACK'' (sqlite db); db = db\<lparr>sqlite := w\<rparr>
      in if sqlite_rc = SQLITE_OK then (primary_rc, db)
         else (let primary = (if code primary = MYLITE_OK
                    then primary\<lparr>code := mysql_error_unknown, sqlstate := ''HY000'', message := ''catalog operation failed''\<rparr>
                    else primary);
                   text = diagnostic_text [take 112 (message primary),
                     ''; catalog transaction cleanup failed during ROLLBACK: '', take 80 (api_errmsg api (sqlite db))]
               in (if primary_rc = MYLITE_OK then mylite_sqlite_status_to_mylite sqlite_rc else primary_rc,
                   db\<lparr>transaction_state_uncertain := True,
                     db_diagnostics := set_error (db_diagnostics db) (code primary) (Some (sqlstate primary)) (Some text)\<rparr>)))"

definition begin_catalog_mutation_transaction ::
    "'w statement_api \<Rightarrow> ('w, 'c) connection \<Rightarrow> catalog_mutation \<Rightarrow> int \<times> ('w, 'c) connection \<times> catalog_mutation" where
  "begin_catalog_mutation_transaction api db mutation =
     (let mutation = mutation\<lparr>uses_savepoint := writer_stable_planning_transaction_active db\<rparr>;
          (rc, db) = mylite_catalog_execute_sql api db
            (if uses_savepoint mutation then ''SAVEPOINT _mylite_catalog_mutation'' else ''BEGIN IMMEDIATE'')
      in (rc, db, mutation))"

definition commit_catalog_mutation_transaction ::
    "'w statement_api \<Rightarrow> ('w, 'c) connection \<Rightarrow> catalog_mutation \<Rightarrow> ('w, 'c) db_result" where
  "commit_catalog_mutation_transaction api db mutation =
     mylite_catalog_execute_sql api db
       (if uses_savepoint mutation then ''RELEASE SAVEPOINT _mylite_catalog_mutation'' else ''COMMIT'')"

definition rollback_catalog_mutation_transaction ::
    "'w statement_api \<Rightarrow> ('w, 'c) connection \<Rightarrow> catalog_mutation \<Rightarrow> int \<Rightarrow> ('w, 'c) db_result" where
  "rollback_catalog_mutation_transaction api db mutation primary_rc =
     (if \<not> uses_savepoint mutation then rollback_catalog_transaction api db primary_rc
      else (let (rc, db) = mylite_catalog_execute_sql api db ''ROLLBACK TO SAVEPOINT _mylite_catalog_mutation'';
                (rc, db) = (if rc = MYLITE_OK
                  then mylite_catalog_execute_sql api db ''RELEASE SAVEPOINT _mylite_catalog_mutation'' else (rc, db))
            in if rc \<noteq> MYLITE_OK then rollback_catalog_transaction api db primary_rc else (primary_rc, db)))"

section \<open>Catalog mutations\<close>

definition mylite_catalog_mutation_init :: catalog_mutation where
  "mylite_catalog_mutation_init =
     \<lparr>active = False, requires_integrity_validation = False, uses_savepoint = False, next_generation = 0\<rparr>"

definition mylite_catalog_mutation_deinit :: "catalog_mutation \<Rightarrow> catalog_mutation" where
  "mylite_catalog_mutation_deinit mutation =
     \<lparr>active = False, requires_integrity_validation = False, uses_savepoint = False, next_generation = 0\<rparr>"

definition catalog_integrity_seal_matches ::
    "'w statement_api \<Rightarrow> 'w row_api \<Rightarrow> ('w, 'c) connection \<Rightarrow> catalog \<Rightarrow> int \<times> bool \<times> ('w, 'c) connection" where
  "catalog_integrity_seal_matches api rapi db c =
     (let (rc, version, db) = mylite_catalog_read_sqlite_schema_version api rapi db
      in (rc, rc = MYLITE_OK \<and> integrity_catalog_generation c \<noteq> 0 \<and>
              integrity_catalog_generation c = generation c \<and> integrity_sqlite_schema_version c = version,
          db))"

definition mylite_catalog_begin_mutation ::
    "'w statement_api \<Rightarrow> 'w row_api \<Rightarrow> ('w, 'c) catalog_api \<Rightarrow> ('w, 'c) connection \<Rightarrow>
      int \<times> ('w, 'c) connection \<times> catalog_mutation" where
  "mylite_catalog_begin_mutation api rapi capi db =
     (let mutation = mylite_catalog_mutation_init; rc = mylite_catalog_validate_ready_database db
      in if rc \<noteq> MYLITE_OK then (rc, db, mutation)
         else (let (rc, db, mutation) = begin_catalog_mutation_transaction api db mutation
               in if rc \<noteq> MYLITE_OK then (rc, db, mutation)
                  else (let (rc, c, db) = read_catalog_state api rapi db
                        in if rc \<noteq> MYLITE_OK
                           then (let (rc, db) = rollback_catalog_mutation_transaction api db mutation rc in (rc, db, mutation))
                           else if write_plan_generation_guard_active db \<and> generation c \<noteq> write_plan_catalog_generation db
                           then (let (rc, db) = rollback_catalog_mutation_transaction api db mutation MYLITE_EXECUTION_REPLAN
                                 in (rc, db, mutation))
                           else (let (rc, seal_matches, db) = catalog_integrity_seal_matches api rapi db c
                                 in if rc \<noteq> MYLITE_OK
                                    then (let (rc, db) = rollback_catalog_mutation_transaction api db mutation rc
                                          in (rc, db, mutation))
                                    else if generation c = UINT64_MAX
                                    then (let (rc, db) = rollback_catalog_mutation_transaction api db mutation MYLITE_ERROR
                                          in (rc, mylite_catalog_invalidate_descriptor_cache capi db, mutation))
                                    else (MYLITE_OK,
                                          mylite_catalog_invalidate_descriptor_cache capi
                                            (db\<lparr>catalog := (catalog db)\<lparr>descriptor_cache_is_suspended := True\<rparr>\<rparr>),
                                          mutation\<lparr>active := True, requires_integrity_validation := \<not> seal_matches,
                                            next_generation := generation c + 1\<rparr>)))))"

definition mylite_catalog_commit_mutation ::
    "'w statement_api \<Rightarrow> 'w row_api \<Rightarrow> ('w, 'c) catalog_api \<Rightarrow> ('w, 'c) connection \<Rightarrow> catalog_mutation \<Rightarrow>
      int \<times> ('w, 'c) connection \<times> catalog_mutation" where
  "mylite_catalog_commit_mutation api rapi capi db mutation =
     (let rc = mylite_catalog_validate_ready_database db
      in if rc \<noteq> MYLITE_OK then (rc, db, mutation)
         else (let rc = mylite_catalog_validate_active_mutation mutation
               in if rc \<noteq> MYLITE_OK then (rc, db, mutation)
                  else (let (rc, db) = update_catalog_generation api rapi db (next_generation mutation);
                            (rc, db) = (if rc = MYLITE_OK \<and> requires_integrity_validation mutation
                              then validate_integrity capi db else (rc, db));
                            (rc, db) = (if rc = MYLITE_OK \<and> \<not> defer_catalog_integrity_seal db
                              then mylite_catalog_publish_integrity_seal api rapi db (next_generation mutation) else (rc, db));
                            (rc, db) = (if rc = MYLITE_OK then commit_catalog_mutation_transaction api db mutation
                              else (rc, db))
                        in if rc \<noteq> MYLITE_OK
                           then (let (rc, db) = rollback_catalog_mutation_transaction api db mutation rc
                                 in (rc, mylite_catalog_invalidate_descriptor_cache capi
                                      (db\<lparr>catalog := (catalog db)\<lparr>descriptor_cache_is_suspended := False\<rparr>\<rparr>),
                                     mylite_catalog_mutation_deinit mutation))
                           else (MYLITE_OK, mylite_catalog_invalidate_descriptor_cache capi
                                  (db\<lparr>catalog := (catalog db)\<lparr>generation := next_generation mutation,
                                        descriptor_cache_is_suspended := False\<rparr>,
                                     catalog_generation := next_generation mutation\<rparr>),
                                 mylite_catalog_mutation_deinit mutation))))"

definition mylite_catalog_rollback_mutation ::
    "'w statement_api \<Rightarrow> ('w, 'c) catalog_api \<Rightarrow> ('w, 'c) connection \<Rightarrow> catalog_mutation \<Rightarrow> int \<Rightarrow>
      int \<times> ('w, 'c) connection \<times> catalog_mutation" where
  "mylite_catalog_rollback_mutation api capi db mutation primary_rc =
     (if active mutation
      then (let (rc, db) = rollback_catalog_mutation_transaction api db mutation primary_rc
            in (rc, mylite_catalog_invalidate_descriptor_cache capi
                 (db\<lparr>catalog := (catalog db)\<lparr>descriptor_cache_is_suspended := False\<rparr>\<rparr>),
                mylite_catalog_mutation_deinit mutation))
      else (primary_rc, db, mylite_catalog_mutation_deinit mutation))"

definition mylite_catalog_mutation_generation :: "catalog_mutation \<Rightarrow> u64" where
  "mylite_catalog_mutation_generation mutation = (if \<not> active mutation then 0 else next_generation mutation)"

section \<open>Changes of generation without a mutation\<close>

definition mylite_catalog_abandon_generation_change ::
    "'w statement_api \<Rightarrow> ('w, 'c) connection \<Rightarrow> int \<Rightarrow> ('w, 'c) db_result" where
  "mylite_catalog_abandon_generation_change api db primary_rc =
     (if writer_stable_planning_transaction_active db
      then (let (rc, db) = mylite_catalog_execute_sql api db ''ROLLBACK TO SAVEPOINT _mylite_catalog_generation'';
                (rc, db) = (if rc = MYLITE_OK
                  then mylite_catalog_execute_sql api db ''RELEASE SAVEPOINT _mylite_catalog_generation'' else (rc, db))
            in if rc = MYLITE_OK then (primary_rc, db) else rollback_catalog_transaction api db primary_rc)
      else rollback_catalog_transaction api db primary_rc)"

definition mylite_catalog_begin_generation_change ::
    "'w statement_api \<Rightarrow> 'w row_api \<Rightarrow> ('w, 'c) catalog_api \<Rightarrow> ('w, 'c) connection \<Rightarrow>
      int \<times> ('w, 'c) connection \<times> catalog_generation_change" where
  "mylite_catalog_begin_generation_change api rapi capi db =
     (let change = \<lparr>change_uses_savepoint = writer_stable_planning_transaction_active db, change_next_generation = 0\<rparr>;
          (rc, db) = mylite_catalog_execute_sql api db
            (if change_uses_savepoint change then ''SAVEPOINT _mylite_catalog_generation'' else ''BEGIN IMMEDIATE'')
      in if rc \<noteq> MYLITE_OK then (rc, db, change)
         else (let (rc, c, db) = read_catalog_state api rapi db
               in if rc \<noteq> MYLITE_OK
                  then (let (rc, db) = mylite_catalog_abandon_generation_change api db rc
                        in (rc, mylite_catalog_invalidate_descriptor_cache capi db, change))
                  else if generation c = UINT64_MAX
                  then (let (rc, db) = mylite_catalog_abandon_generation_change api db MYLITE_ERROR in (rc, db, change))
                  else (MYLITE_OK, db, change\<lparr>change_next_generation := generation c + 1\<rparr>)))"

definition mylite_catalog_finish_generation_change ::
    "'w statement_api \<Rightarrow> 'w row_api \<Rightarrow> ('w, 'c) catalog_api \<Rightarrow> ('w, 'c) connection \<Rightarrow> catalog_generation_change \<Rightarrow>
      ('w, 'c) db_result" where
  "mylite_catalog_finish_generation_change api rapi capi db change =
     (let (rc, db) = update_catalog_generation api rapi db (change_next_generation change);
          (rc, db) = (if rc = MYLITE_OK
            then mylite_catalog_execute_sql api db
              (if change_uses_savepoint change then ''RELEASE SAVEPOINT _mylite_catalog_generation'' else ''COMMIT'')
            else (rc, db))
      in if rc \<noteq> MYLITE_OK
         then (let (rc, db) = mylite_catalog_abandon_generation_change api db rc
               in (rc, mylite_catalog_invalidate_descriptor_cache capi db))
         else (MYLITE_OK, mylite_catalog_invalidate_descriptor_cache capi
                (db\<lparr>catalog := (catalog db)\<lparr>generation := change_next_generation change\<rparr>,
                   catalog_generation := change_next_generation change\<rparr>)))"

section \<open>The contract of the checks\<close>

locale catalog_store = catalog_rows api prepared has_statement view rapi bound
  for api :: "'w statement_api" and prepared :: "'w \<Rightarrow> nat \<rightharpoonup> string" and has_statement :: "string \<Rightarrow> bool"
    and view :: "'w \<Rightarrow> transaction_view" and rapi :: "'w row_api" and bound :: "'w \<Rightarrow> nat \<Rightarrow> nat \<Rightarrow> u64 option" +
  fixes capi :: "('w, 'c) catalog_api"
  assumes integrity_checks: "catalog_statements_ok prepared db \<Longrightarrow> validate_integrity capi db = (rc, db') \<Longrightarrow> quiet rc db db'"
begin

text \<open>The statements survive: those of the catalog and those of the other caches.\<close>

definition kept :: "('w, 'c) connection \<Rightarrow> ('w, 'c) connection \<Rightarrow> bool" where
  "kept db db' \<longleftrightarrow> catalog_statements_ok prepared db' \<and> grew prepared {} db db' \<and> statement_cache db' = statement_cache db"

lemma kept_refl: "catalog_statements_ok prepared db \<Longrightarrow> kept db db"
  by (simp add: kept_def grew_refl)

lemma kept_trans: "kept a b \<Longrightarrow> kept b c \<Longrightarrow> kept a c"
  by (auto simp: kept_def intro: grew_trans)

lemma kept_ok: "kept a b \<Longrightarrow> catalog_statements_ok prepared b"
  by (simp add: kept_def)

lemma quiet_kept: "quiet rc a b \<Longrightarrow> kept a b"
  by (simp add: quiet_def kept_def same_connection_fields)

lemma quiet_calm: "quiet rc a b \<Longrightarrow> calm rc (view (sqlite a)) (view (sqlite b))"
  by (simp add: quiet_def)

lemma kept_fields:
  assumes "kept a b" "prepared (sqlite c) = prepared (sqlite b)" "catalog_statements c = catalog_statements b"
    "statement_cache c = statement_cache b"
  shows "kept a c"
  using assms by (simp add: kept_def catalog_statements_ok_def grew_def owned_def)

lemma execute_sql_view:
  assumes "control_meaning sql = Some c" "mylite_catalog_execute_sql api db sql = (rc, db')"
  shows "db' = db\<lparr>sqlite := sqlite db'\<rparr>"
    and "rc = MYLITE_OK \<Longrightarrow> control_result c (view (sqlite db)) = Some (view (sqlite db'))"
    and "rc \<noteq> MYLITE_OK \<Longrightarrow> view (sqlite db') = view (sqlite db) \<or> view (sqlite db') = aborted (view (sqlite db))"
    and "kept a db \<Longrightarrow> kept a db'"
proof -
  obtain r w where ex: "api_exec api sql (sqlite db) = (r, w)" by (cases "api_exec api sql (sqlite db)")
  then have rc: "rc = mylite_sqlite_status_to_mylite r" and db': "db' = db\<lparr>sqlite := w\<rparr>"
    using assms(2) by (simp_all add: mylite_catalog_execute_sql_def)
  from db' show "db' = db\<lparr>sqlite := sqlite db'\<rparr>" by simp
  have "rc = MYLITE_OK \<longleftrightarrow> r = SQLITE_OK" using rc by (simp add: mylite_sqlite_status_to_mylite_def)
  then show "rc = MYLITE_OK \<Longrightarrow> control_result c (view (sqlite db)) = Some (view (sqlite db'))"
    "rc \<noteq> MYLITE_OK \<Longrightarrow> view (sqlite db') = view (sqlite db) \<or> view (sqlite db') = aborted (view (sqlite db))"
    using exec_done [OF assms(1)] exec_fails [OF assms(1) ex] ex db' by auto
  show "kept a db \<Longrightarrow> kept a db'"
    using exec_keeps [of sql "sqlite db"] ex db' by (auto intro: kept_fields)
qed

lemma rollback_catalog_view:
  assumes "rollback_catalog_transaction api db rc = (rc', db')"
  shows "transaction_state_uncertain db' \<or> view (sqlite db') = aborted (view (sqlite db))"
    and "rc \<noteq> MYLITE_OK \<Longrightarrow> rc' = rc" "catalog db' = catalog db" "catalog_generation db' = catalog_generation db"
    and "kept a db \<Longrightarrow> kept a db'"
proof -
  obtain r w where ex: "api_exec api ''ROLLBACK'' (sqlite db) = (r, w)" by (cases "api_exec api ''ROLLBACK'' (sqlite db)")
  have "r = SQLITE_OK \<Longrightarrow> view w = aborted (view (sqlite db))"
    using exec_done [of "''ROLLBACK''" Rollback "sqlite db" w] ex rollback_aborted by simp
  with ex assms show "transaction_state_uncertain db' \<or> view (sqlite db') = aborted (view (sqlite db))"
    by (auto simp: rollback_catalog_transaction_def Let_def split: if_splits)
  from ex assms show "rc \<noteq> MYLITE_OK \<Longrightarrow> rc' = rc" "catalog db' = catalog db" "catalog_generation db' = catalog_generation db"
    by (auto simp: rollback_catalog_transaction_def Let_def split: if_splits)
  have "sqlite db' = w" "catalog_statements db' = catalog_statements db" "statement_cache db' = statement_cache db"
    using ex assms by (auto simp: rollback_catalog_transaction_def Let_def split: if_splits)
  then show "kept a db \<Longrightarrow> kept a db'" using exec_keeps [of "''ROLLBACK''" "sqlite db"] ex by (auto intro: kept_fields)
qed

text \<open>
  While a mutation is open, from the view \<open>v0\<close> it began in: its level is open and only the stored
  generation may have changed, or SQLite has rolled everything back.
\<close>

definition within :: "string \<Rightarrow> transaction_view \<Rightarrow> transaction_view \<Rightarrow> bool" where
  "within n v0 v \<longleftrightarrow>
     (\<exists>g. v = v0\<lparr>stored_generation := g, open_levels := (n, stored_generation v0) # open_levels v0\<rparr>) \<or> v = aborted v0"

definition opened :: "string \<Rightarrow> transaction_view \<Rightarrow> transaction_view" where
  "opened n v0 = v0\<lparr>open_levels := (n, stored_generation v0) # open_levels v0\<rparr>"

definition level_name :: "catalog_mutation \<Rightarrow> string" where
  "level_name m = (if uses_savepoint m then ''_mylite_catalog_mutation'' else '''')"

lemma within_aborted: "within n v0 v \<Longrightarrow> aborted v = aborted v0"
  by (cases "open_levels v0 = []") (auto simp: within_def aborted_def)

lemma within_opened: "within n v0 (opened n v0)" "within n v0 ((opened n v0)\<lparr>stored_generation := g\<rparr>)"
  unfolding within_def opened_def by (auto intro: exI [of _ "stored_generation v0"] exI [of _ g])

lemma opened_simps [simp]:
  "open_levels (opened n v0) = (n, stored_generation v0) # open_levels v0"
  "stored_generation (opened n v0) = stored_generation v0"
  by (simp_all add: opened_def)

lemma within_abort: "within n v0 v \<Longrightarrow> within n v0 (aborted v)"
  using within_aborted [of n v0 v] by (simp add: within_def)

lemma within_calm: "within n v0 v \<Longrightarrow> calm rc v v' \<Longrightarrow> within n v0 v'"
  unfolding calm_def using within_abort by blast

text \<open>Rolling a level back, by its savepoint or as a whole.\<close>

lemma rollback_level_view:
  assumes w: "within n v0 (view (sqlite db))" and to: "control_meaning to_sql = Some (RollbackTo n)"
    and rel: "control_meaning rel_sql = Some (Release n)"
    and e1: "mylite_catalog_execute_sql api db to_sql = (r1, db1)"
    and e2: "(if r1 = MYLITE_OK then mylite_catalog_execute_sql api db1 rel_sql else (r1, db1)) = (r2, db2)"
    and res: "(if r2 \<noteq> MYLITE_OK then rollback_catalog_transaction api db2 rc else (rc, db2)) = (rc', db')"
  shows "transaction_state_uncertain db' \<or> view (sqlite db') = v0 \<or> view (sqlite db') = aborted v0"
    and "rc \<noteq> MYLITE_OK \<Longrightarrow> rc' = rc" "catalog db' = catalog db" "catalog_generation db' = catalog_generation db"
    and "kept a db \<Longrightarrow> kept a db'"
proof -
  note v1 = execute_sql_view [OF to e1]
  have same1: "catalog db1 = catalog db" "catalog_generation db1 = catalog_generation db" by (subst v1(1), simp)+
  have "(transaction_state_uncertain db' \<or> view (sqlite db') = v0 \<or> view (sqlite db') = aborted v0) \<and>
    (rc \<noteq> MYLITE_OK \<longrightarrow> rc' = rc) \<and> catalog db' = catalog db \<and> catalog_generation db' = catalog_generation db \<and>
    (kept a db \<longrightarrow> kept a db')"
  proof (cases "r1 = MYLITE_OK")
    case False
    with e2 have eq: "db2 = db1" "r2 \<noteq> MYLITE_OK" by auto
    with res have rb: "rollback_catalog_transaction api db1 rc = (rc', db')" by simp
    have "aborted (view (sqlite db1)) = aborted v0" using v1(3) [OF False] within_aborted [OF w] by auto
    with same1 rollback_catalog_view [OF rb] v1(4) show ?thesis by auto
  next
    case ok1: True
    with v1(2) w have view1: "view (sqlite db1) = opened n v0"
      by (auto simp: within_def opened_def)
    have e2': "mylite_catalog_execute_sql api db1 rel_sql = (r2, db2)" using e2 ok1 by simp
    note v2 = execute_sql_view [OF rel e2']
    have "catalog db2 = catalog db1" "catalog_generation db2 = catalog_generation db1" by (subst v2(1), simp)+
    with same1 have same: "catalog db2 = catalog db" "catalog_generation db2 = catalog_generation db" by auto
    show ?thesis
    proof (cases "r2 = MYLITE_OK")
      case True
      with v2(2) view1 have "view (sqlite db2) = v0" by (simp add: opened_def)
      with True res same v1(4) v2(4) show ?thesis by simp
    next
      case False
      with res have rb: "rollback_catalog_transaction api db2 rc = (rc', db')" by simp
      have "within n v0 (view (sqlite db1))" unfolding view1 by (rule within_opened)
      then have "aborted (view (sqlite db2)) = aborted v0" using v2(3) [OF False] within_aborted by auto
      with rollback_catalog_view [OF rb] same v1(4) v2(4) show ?thesis by auto
    qed
  qed
  then show "transaction_state_uncertain db' \<or> view (sqlite db') = v0 \<or> view (sqlite db') = aborted v0"
    "rc \<noteq> MYLITE_OK \<Longrightarrow> rc' = rc" "catalog db' = catalog db" "catalog_generation db' = catalog_generation db"
    "kept a db \<Longrightarrow> kept a db'" by auto
qed

lemma rollback_mutation_view:
  assumes w: "within (level_name m) v0 (view (sqlite db))"
    and res: "rollback_catalog_mutation_transaction api db m rc = (rc', db')"
  shows "transaction_state_uncertain db' \<or> view (sqlite db') = v0 \<or> view (sqlite db') = aborted v0"
    and "rc \<noteq> MYLITE_OK \<Longrightarrow> rc' = rc" "catalog db' = catalog db" "catalog_generation db' = catalog_generation db"
    and "kept a db \<Longrightarrow> kept a db'"
proof -
  have "(transaction_state_uncertain db' \<or> view (sqlite db') = v0 \<or> view (sqlite db') = aborted v0) \<and>
    (rc \<noteq> MYLITE_OK \<longrightarrow> rc' = rc) \<and> catalog db' = catalog db \<and> catalog_generation db' = catalog_generation db \<and>
    (kept a db \<longrightarrow> kept a db')"
  proof (cases "uses_savepoint m")
    case False
    with res have "rollback_catalog_transaction api db rc = (rc', db')"
      by (simp add: rollback_catalog_mutation_transaction_def)
    from rollback_catalog_view [OF this] within_aborted [OF w] show ?thesis by auto
  next
    case True
    let ?to = "''ROLLBACK TO SAVEPOINT _mylite_catalog_mutation''" and ?rel = "''RELEASE SAVEPOINT _mylite_catalog_mutation''"
    obtain r1 db1 where e1: "mylite_catalog_execute_sql api db ?to = (r1, db1)" by (rule prod.exhaust)
    obtain r2 db2 where e2: "(if r1 = MYLITE_OK then mylite_catalog_execute_sql api db1 ?rel else (r1, db1)) = (r2, db2)"
      by (rule prod.exhaust)
    have r: "(if r2 \<noteq> MYLITE_OK then rollback_catalog_transaction api db2 rc else (rc, db2)) = (rc', db')"
      using res True e1 e2 by (simp add: rollback_catalog_mutation_transaction_def)
    from w True have w': "within ''_mylite_catalog_mutation'' v0 (view (sqlite db))" by (simp add: level_name_def)
    from rollback_level_view [OF w' control_meanings(7,6) e1 e2 r] show ?thesis by auto
  qed
  then show "transaction_state_uncertain db' \<or> view (sqlite db') = v0 \<or> view (sqlite db') = aborted v0"
    "rc \<noteq> MYLITE_OK \<Longrightarrow> rc' = rc" "catalog db' = catalog db" "catalog_generation db' = catalog_generation db"
    "kept a db \<Longrightarrow> kept a db'" by auto
qed

text \<open>Opening the level of a mutation.\<close>

lemma begin_mutation_transaction_view:
  assumes "begin_catalog_mutation_transaction api db m = (rc, db', m')"
  shows "db' = db\<lparr>sqlite := sqlite db'\<rparr>" "m' = m\<lparr>uses_savepoint := writer_stable_planning_transaction_active db\<rparr>"
    and "rc = MYLITE_OK \<Longrightarrow> view (sqlite db') = opened (level_name m') (view (sqlite db)) \<and>
      (\<not> uses_savepoint m' \<longrightarrow> open_levels (view (sqlite db)) = [])"
    and "rc \<noteq> MYLITE_OK \<Longrightarrow> view (sqlite db') = view (sqlite db) \<or> view (sqlite db') = aborted (view (sqlite db))"
    and "kept a db \<Longrightarrow> kept a db'"
proof -
  let ?sp = "writer_stable_planning_transaction_active db"
  let ?sql = "if ?sp then ''SAVEPOINT _mylite_catalog_mutation'' else ''BEGIN IMMEDIATE''"
  obtain r d where e: "mylite_catalog_execute_sql api db ?sql = (r, d)" by (rule prod.exhaust)
  with assms have eq: "rc = r" "db' = d" "m' = m\<lparr>uses_savepoint := ?sp\<rparr>"
    by (auto simp: begin_catalog_mutation_transaction_def Let_def)
  have c: "control_meaning ?sql = Some (if ?sp then Savepoint ''_mylite_catalog_mutation'' else Begin)" by simp
  note v = execute_sql_view [OF c e]
  show "db' = db\<lparr>sqlite := sqlite db'\<rparr>" "m' = m\<lparr>uses_savepoint := ?sp\<rparr>" using v(1) eq by simp_all
  show "rc \<noteq> MYLITE_OK \<Longrightarrow> view (sqlite db') = view (sqlite db) \<or> view (sqlite db') = aborted (view (sqlite db))"
    "kept a db \<Longrightarrow> kept a db'" using v(3,4) eq by simp_all
  show "rc = MYLITE_OK \<Longrightarrow> view (sqlite db') = opened (level_name m') (view (sqlite db)) \<and>
      (\<not> uses_savepoint m' \<longrightarrow> open_levels (view (sqlite db)) = [])"
    using v(2) eq by (auto simp: opened_def level_name_def split: if_splits)
qed

lemma invalidate_simps [simp]:
  "sqlite (mylite_catalog_invalidate_descriptor_cache capi db) = sqlite db"
  "catalog_generation (mylite_catalog_invalidate_descriptor_cache capi db) = catalog_generation db"
  "generation (catalog (mylite_catalog_invalidate_descriptor_cache capi db)) = generation (catalog db)"
  "initialized (catalog (mylite_catalog_invalidate_descriptor_cache capi db)) = initialized (catalog db)"
  "transaction_state_uncertain (mylite_catalog_invalidate_descriptor_cache capi db) = transaction_state_uncertain db"
  "catalog_statements (mylite_catalog_invalidate_descriptor_cache capi db) = catalog_statements db"
  "statement_cache (mylite_catalog_invalidate_descriptor_cache capi db) = statement_cache db"
  by (simp_all add: mylite_catalog_invalidate_descriptor_cache_def reset_descriptor_cache_state_def)

text \<open>What a failed operation on a mutation leaves behind.\<close>

definition undone :: "transaction_view \<Rightarrow> ('w, 'c) connection \<Rightarrow> ('w, 'c) connection \<Rightarrow> bool" where
  "undone v0 db db' \<longleftrightarrow>
     (transaction_state_uncertain db' \<or> view (sqlite db') = v0 \<or> view (sqlite db') = aborted v0) \<and>
     generation (catalog db') = generation (catalog db) \<and> catalog_generation db' = catalog_generation db \<and> kept db db'"

lemma rollback_undone:
  assumes "rollback_catalog_mutation_transaction api d m rc = (rc', db')" "kept db d"
    "generation (catalog d) = generation (catalog db)" "catalog_generation d = catalog_generation db"
    "within (level_name m) v0 (view (sqlite d))"
  shows "undone v0 db db'" "rc \<noteq> MYLITE_OK \<Longrightarrow> rc' = rc"
  using rollback_mutation_view [OF assms(5,1)] assms(2-4) by (auto simp: undone_def)

lemma undone_fields:
  assumes "undone v0 db d" "sqlite d' = sqlite d" "generation (catalog d') = generation (catalog d)"
    "catalog_generation d' = catalog_generation d" "transaction_state_uncertain d' = transaction_state_uncertain d"
    "catalog_statements d' = catalog_statements d" "statement_cache d' = statement_cache d"
  shows "undone v0 db d'"
  using assms kept_fields [of db d d'] by (simp add: undone_def)

lemma seal_matches_quiet:
  assumes "catalog_statements_ok prepared db" "catalog_integrity_seal_matches api rapi db c = (rc, b, db')"
  shows "quiet rc db db'"
proof -
  obtain r n d where v: "mylite_catalog_read_sqlite_schema_version api rapi db = (r, n, d)" by (rule prod_cases3)
  from read_schema_version_view [OF assms(1) v] assms(2) v show ?thesis
    by (simp add: catalog_integrity_seal_matches_def)
qed

text \<open>Beginning a mutation.\<close>

lemma begin_mutation_view:
  assumes ok: "catalog_statements_ok prepared db"
    and res: "mylite_catalog_begin_mutation api rapi capi db = (rc, db', m)"
  shows "rc = MYLITE_OK \<Longrightarrow> active m \<and> next_generation m = stored_generation (view (sqlite db)) + 1 \<and>
      next_generation m \<noteq> 0 \<and> initialized (catalog db') \<and> view (sqlite db') = opened (level_name m) (view (sqlite db)) \<and>
      (\<not> uses_savepoint m \<longrightarrow> open_levels (view (sqlite db)) = []) \<and>
      generation (catalog db') = generation (catalog db) \<and> catalog_generation db' = catalog_generation db \<and> kept db db'"
    and "rc \<noteq> MYLITE_OK \<Longrightarrow> \<not> active m \<and> undone (view (sqlite db)) db db'"
proof -
  let ?v0 = "view (sqlite db)" and ?m0 = "mylite_catalog_mutation_init"
  define good where "good rc db' m \<longleftrightarrow>
      (rc = MYLITE_OK \<longrightarrow> active m \<and> next_generation m = stored_generation ?v0 + 1 \<and> next_generation m \<noteq> 0 \<and>
        initialized (catalog db') \<and> view (sqlite db') = opened (level_name m) ?v0 \<and>
        (\<not> uses_savepoint m \<longrightarrow> open_levels ?v0 = []) \<and>
        generation (catalog db') = generation (catalog db) \<and> catalog_generation db' = catalog_generation db \<and> kept db db') \<and>
      (rc \<noteq> MYLITE_OK \<longrightarrow> \<not> active m \<and> undone ?v0 db db')"
    for rc :: int and db' :: "('w, 'c) connection" and m
  have "good rc db' m"
  proof (cases "initialized (catalog db)")
    case False
    with res kept_refl [OF ok] show ?thesis
      by (auto simp: mylite_catalog_begin_mutation_def mylite_catalog_validate_ready_database_def good_def Let_def
          mylite_catalog_mutation_init_def undone_def)
  next
    case init: True
    obtain r1 d1 m1 where b: "begin_catalog_mutation_transaction api db ?m0 = (r1, d1, m1)" by (rule prod_cases3)
    note bv = begin_mutation_transaction_view [OF b]
    have m1: "\<not> active m1" using bv(2) by (simp add: mylite_catalog_mutation_init_def)
    have d1: "catalog d1 = catalog db" "catalog_generation d1 = catalog_generation db" by (subst bv(1), simp)+
    have k1: "kept db d1" by (rule bv(5) [OF kept_refl [OF ok]])
    obtain r2 c d2 where q: "read_catalog_state api rapi d1 = (r2, c, d2)" by (rule prod_cases3)
    note qv = catalog_state_view [OF kept_ok [OF k1] q]
    have k2: "kept db d2" by (rule kept_trans [OF k1 quiet_kept [OF qv(1)]])
    obtain r3 seal d3 where s: "catalog_integrity_seal_matches api rapi d2 c = (r3, seal, d3)" by (rule prod_cases3)
    note sv = seal_matches_quiet [OF kept_ok [OF k2] s]
    have k3: "kept db d3" by (rule kept_trans [OF k2 quiet_kept [OF sv]])
    have same2: "same_connection d1 d2" "same_connection d2 d3" using qv(1) sv by (simp_all add: quiet_def)
    note f2 = same_connection_fields [OF same2(1)] and f3 = same_connection_fields [OF same2(2)]
    have failed: "good rc' d' m1" if roll: "rollback_catalog_mutation_transaction api d m1 rc0 = (rc', d')" "rc0 \<noteq> MYLITE_OK"
        and d: "kept db d" "catalog d = catalog db" "catalog_generation d = catalog_generation db"
          "within (level_name m1) ?v0 (view (sqlite d))" for rc0 rc' d d'
      using rollback_undone [OF roll(1) d(1) _ _ d(4)] roll(2) d(2,3) m1 by (simp add: good_def)
    note r = res [unfolded mylite_catalog_begin_mutation_def Let_def b prod.case q s]
    show ?thesis
    proof (cases "r1 = MYLITE_OK")
      case False
      with r init bv(4) m1 d1 k1 show ?thesis
        by (auto simp: mylite_catalog_validate_ready_database_def good_def undone_def)
    next
      case r1: True
      note v1 = bv(3) [OF r1]
      have w1: "within (level_name m1) ?v0 (view (sqlite d1))" using v1 within_opened by simp
      have w2: "within (level_name m1) ?v0 (view (sqlite d2))" by (rule within_calm [OF w1 quiet_calm [OF qv(1)]])
      have w3: "within (level_name m1) ?v0 (view (sqlite d3))" by (rule within_calm [OF w2 quiet_calm [OF sv]])
      consider (query) "r2 \<noteq> MYLITE_OK"
        | (replan) "r2 = MYLITE_OK" "write_plan_generation_guard_active d2 \<and> generation c \<noteq> write_plan_catalog_generation d2"
        | (seal) "r2 = MYLITE_OK" "\<not> (write_plan_generation_guard_active d2 \<and> generation c \<noteq> write_plan_catalog_generation d2)" "r3 \<noteq> MYLITE_OK"
        | (last) "r2 = MYLITE_OK" "\<not> (write_plan_generation_guard_active d2 \<and> generation c \<noteq> write_plan_catalog_generation d2)" "r3 = MYLITE_OK" "generation c = UINT64_MAX"
        | (finished) "r2 = MYLITE_OK" "\<not> (write_plan_generation_guard_active d2 \<and> generation c \<noteq> write_plan_catalog_generation d2)" "r3 = MYLITE_OK" "generation c \<noteq> UINT64_MAX"
        by blast
      then show ?thesis
      proof cases
        case query
        obtain rc' d' where roll: "rollback_catalog_mutation_transaction api d2 m1 r2 = (rc', d')" by (rule prod.exhaust)
        from r init r1 query roll have "rc = rc'" "db' = d'" "m = m1"
          by (simp_all add: mylite_catalog_validate_ready_database_def)
        with failed [OF roll query k2 _ _ w2] f2 d1 show ?thesis by simp
      next
        case replan
        obtain rc' d' where roll: "rollback_catalog_mutation_transaction api d2 m1 (- 1) = (rc', d')" by (rule prod.exhaust)
        from r init r1 replan roll have "rc = rc'" "db' = d'" "m = m1"
          by (simp_all add: mylite_catalog_validate_ready_database_def)
        with failed [OF roll _ k2 _ _ w2] f2 d1 show ?thesis by simp
      next
        case seal
        obtain rc' d' where roll: "rollback_catalog_mutation_transaction api d3 m1 r3 = (rc', d')" by (rule prod.exhaust)
        from r init r1 seal roll have "rc = rc'" "db' = d'" "m = m1"
          by (auto simp: mylite_catalog_validate_ready_database_def)
        with failed [OF roll seal(3) k3 _ _ w3] f2 f3 d1 show ?thesis by simp
      next
        case last
        obtain rc' d' where roll: "rollback_catalog_mutation_transaction api d3 m1 1 = (rc', d')" by (rule prod.exhaust)
        from r init r1 last roll have eq: "rc = rc'" "db' = mylite_catalog_invalidate_descriptor_cache capi d'" "m = m1"
          by (auto simp: mylite_catalog_validate_ready_database_def)
        from failed [OF roll _ k3 _ _ w3] f2 f3 d1 have "good rc' d' m1" by simp
        moreover have "rc' = 1" using rollback_mutation_view(2) [OF w3 roll] by simp
        ultimately show ?thesis using eq undone_fields [of ?v0 db d' db'] by (simp add: good_def)
      next
        case finished
        let ?d = "d3\<lparr>catalog := (catalog d3)\<lparr>descriptor_cache_is_suspended := True\<rparr>\<rparr>"
        from r init r1 finished have eq: "rc = MYLITE_OK" "db' = mylite_catalog_invalidate_descriptor_cache capi ?d"
          "m = m1\<lparr>active := True, requires_integrity_validation := \<not> seal, next_generation := generation c + 1\<rparr>"
          by (auto simp: mylite_catalog_validate_ready_database_def)
        have "view (sqlite d3) = view (sqlite d1)" using qv(1) sv finished by (simp add: quiet_def calm_def)
        moreover have "generation c = stored_generation ?v0" using qv(2) finished v1 by simp
        moreover have "generation c + 1 \<noteq> 0" using finished(4) unfolding UINT64_MAX_def
          by (metis add.commute add_diff_cancel_left' diff_0)
        moreover have "kept db db'" using kept_fields [OF k3, of db'] eq by simp
        ultimately show ?thesis using eq v1 f2 f3 d1 init by (simp add: good_def level_name_def)
      qed
    qed
  qed
  then show "rc = MYLITE_OK \<Longrightarrow> active m \<and> next_generation m = stored_generation ?v0 + 1 \<and>
      next_generation m \<noteq> 0 \<and> initialized (catalog db') \<and> view (sqlite db') = opened (level_name m) ?v0 \<and>
      (\<not> uses_savepoint m \<longrightarrow> open_levels ?v0 = []) \<and>
      generation (catalog db') = generation (catalog db) \<and> catalog_generation db' = catalog_generation db \<and> kept db db'"
    "rc \<noteq> MYLITE_OK \<Longrightarrow> \<not> active m \<and> undone ?v0 db db'"
    unfolding good_def by blast+
qed

text \<open>Committing a mutation whose level is open.\<close>

lemma commit_mutation_transaction_view:
  assumes v: "view (sqlite db) = (opened (level_name m) v0)\<lparr>stored_generation := g\<rparr>"
    and base: "\<not> uses_savepoint m \<longrightarrow> open_levels v0 = []"
    and res: "commit_catalog_mutation_transaction api db m = (rc, db')"
  shows "db' = db\<lparr>sqlite := sqlite db'\<rparr>" "kept a db \<Longrightarrow> kept a db'"
    "if rc = MYLITE_OK then view (sqlite db') = v0\<lparr>stored_generation := g\<rparr> else within (level_name m) v0 (view (sqlite db'))"
proof -
  let ?sql = "if uses_savepoint m then ''RELEASE SAVEPOINT _mylite_catalog_mutation'' else ''COMMIT''"
  have c: "control_meaning ?sql = Some (if uses_savepoint m then Release ''_mylite_catalog_mutation'' else Commit)" by simp
  have e: "mylite_catalog_execute_sql api db ?sql = (rc, db')" using res by (simp add: commit_catalog_mutation_transaction_def)
  note x = execute_sql_view [OF c e]
  show "db' = db\<lparr>sqlite := sqlite db'\<rparr>" "kept a db \<Longrightarrow> kept a db'" by (rule x(1), rule x(4))
  have w: "within (level_name m) v0 (view (sqlite db))" unfolding v by (rule within_opened)
  show "if rc = MYLITE_OK then view (sqlite db') = v0\<lparr>stored_generation := g\<rparr> else within (level_name m) v0 (view (sqlite db'))"
  proof (cases "rc = MYLITE_OK")
    case True
    then have "control_result (if uses_savepoint m then Release ''_mylite_catalog_mutation'' else Commit) (view (sqlite db)) =
      Some (view (sqlite db'))" by (rule x(2))
    with True v base show ?thesis by (cases v0) (auto simp: opened_def level_name_def split: if_splits)
  next
    case False
    with x(3) w within_abort show ?thesis by auto
  qed
qed

lemma on_ok_quiet:
  assumes "(if rc = MYLITE_OK \<and> b then f else (rc, db)) = (rc', db')" "catalog_statements_ok prepared db"
    and "rc = MYLITE_OK \<Longrightarrow> b \<Longrightarrow> f = (rc', db') \<Longrightarrow> quiet rc' db db'"
  shows "quiet rc' db db'" "rc \<noteq> MYLITE_OK \<Longrightarrow> rc' \<noteq> MYLITE_OK"
  using assms quiet_refl [OF assms(2)] by (auto split: if_splits)

lemma commit_mutation_view:
  assumes ok: "catalog_statements_ok prepared db" and init: "initialized (catalog db)"
    and m: "active m" "next_generation m \<noteq> 0" "\<not> uses_savepoint m \<longrightarrow> open_levels v0 = []"
    and v: "view (sqlite db) = opened (level_name m) v0"
    and res: "mylite_catalog_commit_mutation api rapi capi db m = (rc, db', m')"
  shows "rc = MYLITE_OK \<Longrightarrow> view (sqlite db') = v0\<lparr>stored_generation := next_generation m\<rparr> \<and>
      generation (catalog db') = next_generation m \<and> catalog_generation db' = next_generation m \<and> kept db db'"
    and "rc \<noteq> MYLITE_OK \<Longrightarrow> undone v0 db db'" and "\<not> active m'"
proof -
  let ?g = "next_generation m" and ?n = "level_name m"
  obtain r1 d1 where s1: "update_catalog_generation api rapi db ?g = (r1, d1)" by (rule prod.exhaust)
  obtain r2 d2 where s2: "(if r1 = MYLITE_OK \<and> requires_integrity_validation m then validate_integrity capi d1 else (r1, d1)) = (r2, d2)"
    by (rule prod.exhaust)
  obtain r3 d3 where s3: "(if r2 = MYLITE_OK \<and> \<not> defer_catalog_integrity_seal d2
      then mylite_catalog_publish_integrity_seal api rapi d2 ?g else (r2, d2)) = (r3, d3)" by (rule prod.exhaust)
  obtain r4 d4 where s4: "(if r3 = MYLITE_OK then commit_catalog_mutation_transaction api d3 m else (r3, d3)) = (r4, d4)"
    by (rule prod.exhaust)
  obtain r5 d5 where s5: "rollback_catalog_mutation_transaction api d4 m r4 = (r5, d5)" by (rule prod.exhaust)
  note u = update_generation_view [OF ok s1]
  have q2: "quiet r2 d1 d2" "r1 \<noteq> MYLITE_OK \<Longrightarrow> r2 \<noteq> MYLITE_OK"
    using on_ok_quiet [OF s2 u(1)] integrity_checks [OF u(1)] by blast+
  have ok2: "catalog_statements_ok prepared d2" using q2(1) by (simp add: quiet_def)
  have q3: "quiet r3 d2 d3" "r2 \<noteq> MYLITE_OK \<Longrightarrow> r3 \<noteq> MYLITE_OK"
    using on_ok_quiet [OF s3 ok2] publish_seal_view [OF ok2] by blast+
  have k1: "kept db d1" using u by (simp add: kept_def same_connection_fields)
  have k3: "kept db d3" by (rule kept_trans [OF kept_trans [OF k1 quiet_kept [OF q2(1)]] quiet_kept [OF q3(1)]])
  have "same_connection d1 d2" "same_connection d2 d3" using q2 q3 by (simp_all add: quiet_def)
  from same_connection_trans [OF same_connection_trans [OF u(3) this(1)] this(2)] have "same_connection db d3" .
  note f3 = same_connection_fields [OF this]
  have w1: "within ?n v0 (view (sqlite d1))"
    using u(4) v within_opened [of ?n v0] within_abort [OF within_opened(1), of ?n v0] by (auto split: if_splits)
  have w3: "within ?n v0 (view (sqlite d3))"
    by (rule within_calm [OF within_calm [OF w1 quiet_calm [OF q2(1)]] quiet_calm [OF q3(1)]])
  have v3: "view (sqlite d3) = (opened ?n v0)\<lparr>stored_generation := ?g\<rparr>" if "r3 = MYLITE_OK"
  proof -
    from that q2(2) q3(2) have "r1 = MYLITE_OK" "r2 = MYLITE_OK" by blast+
    then show ?thesis using that q2(1) q3(1) u(4) v by (auto simp: quiet_def calm_def)
  qed
  note c = commit_mutation_transaction_view [OF v3 m(3)]
  have d4: "catalog d4 = catalog db \<and> catalog_generation d4 = catalog_generation db \<and> kept db d4 \<and>
    (if r4 = MYLITE_OK then view (sqlite d4) = v0\<lparr>stored_generation := ?g\<rparr> else within ?n v0 (view (sqlite d4)))"
  proof (cases "r3 = MYLITE_OK")
    case True
    with s4 have e: "commit_catalog_mutation_transaction api d3 m = (r4, d4)" by simp
    have "catalog d4 = catalog d3" "catalog_generation d4 = catalog_generation d3" by (subst c(1) [OF True e], simp)+
    with c(2,3) [OF True e] k3 f3 show ?thesis by simp
  next
    case False
    with s4 w3 k3 f3 show ?thesis by auto
  qed
  have active: "mylite_catalog_validate_ready_database db = MYLITE_OK" "mylite_catalog_validate_active_mutation m = MYLITE_OK"
    using init m by (simp_all add: mylite_catalog_validate_ready_database_def mylite_catalog_validate_active_mutation_def)
  note r = res [unfolded mylite_catalog_commit_mutation_def Let_def s1 prod.case s2 s3 s4 s5, simplified active, simplified]
  show "\<not> active m'" using r by (auto simp: mylite_catalog_mutation_deinit_def split: if_splits)
  show "view (sqlite db') = v0\<lparr>stored_generation := ?g\<rparr> \<and>
      generation (catalog db') = ?g \<and> catalog_generation db' = ?g \<and> kept db db'" if "rc = MYLITE_OK"
  proof (cases "r4 = MYLITE_OK")
    case True
    with r have eq: "db' = mylite_catalog_invalidate_descriptor_cache capi
        (d4\<lparr>catalog := (catalog d4)\<lparr>generation := ?g, descriptor_cache_is_suspended := False\<rparr>, catalog_generation := ?g\<rparr>)"
      by auto
    have "kept db db'" by (rule kept_fields [of db d4]) (use d4 in \<open>simp_all add: eq\<close>)
    with d4 True eq show ?thesis by simp
  next
    case False
    then have "r5 = r4" using rollback_mutation_view(2) [OF _ s5, of v0] d4 by simp
    with False r that show ?thesis by simp
  qed
  show "undone v0 db db'" if "rc \<noteq> MYLITE_OK"
  proof -
    from that r have r4: "r4 \<noteq> MYLITE_OK" by auto
    with r have eq: "db' = mylite_catalog_invalidate_descriptor_cache capi
        (d5\<lparr>catalog := (catalog d5)\<lparr>descriptor_cache_is_suspended := False\<rparr>\<rparr>)" by auto
    from rollback_undone(1) [OF s5] d4 r4 have "undone v0 db d5" by simp
    then show ?thesis by (rule undone_fields) (simp_all add: eq)
  qed
qed

lemma rollback_mutation_outcome:
  assumes ok: "catalog_statements_ok prepared db" and v: "within (level_name m) v0 (view (sqlite db))"
    and m: "active m" and res: "mylite_catalog_rollback_mutation api capi db m rc = (rc', db', m')"
  shows "undone v0 db db'" "\<not> active m'" "rc \<noteq> MYLITE_OK \<Longrightarrow> rc' = rc"
proof -
  obtain r d where s: "rollback_catalog_mutation_transaction api db m rc = (r, d)" by (rule prod.exhaust)
  from res m s have eq: "rc' = r" "m' = mylite_catalog_mutation_deinit m"
    "db' = mylite_catalog_invalidate_descriptor_cache capi (d\<lparr>catalog := (catalog d)\<lparr>descriptor_cache_is_suspended := False\<rparr>\<rparr>)"
    by (simp_all add: mylite_catalog_rollback_mutation_def)
  note u = rollback_undone [OF s kept_refl [OF ok] refl refl v]
  from u(1) show "undone v0 db db'" by (rule undone_fields) (simp_all add: eq)
  show "\<not> active m'" "rc \<noteq> MYLITE_OK \<Longrightarrow> rc' = rc" using eq u(2) by (simp_all add: mylite_catalog_mutation_deinit_def)
qed

text \<open>Synchronising: the catalog ends at the stored generation, whenever a query of it was needed.\<close>

lemma synchronize_view:
  assumes ok: "catalog_statements_ok prepared db"
    and res: "mylite_catalog_synchronize_snapshot api rapi capi db = (rc, db')"
  shows "kept db db'" "calm rc (view (sqlite db)) (view (sqlite db'))"
    "user_transaction_active db' = user_transaction_active db"
    "transaction_state_uncertain db' = transaction_state_uncertain db"
proof -
  let ?db = "if \<not> user_transaction_active db then db\<lparr>catalog_snapshot_synchronized := False\<rparr> else db"
  have kd: "kept db ?db" by (rule kept_fields [OF kept_refl [OF ok]]) auto
  obtain r1 n1 d1 where s1: "read_data_version api rapi ?db = (r1, n1, d1)" by (rule prod_cases3)
  note q1 = read_data_version_view [OF kept_ok [OF kd] s1]
  have k1: "kept db d1" by (rule kept_trans [OF kd quiet_kept [OF q1]])
  obtain r2 n2 d2 where s2: "read_catalog_generation api rapi d1 = (r2, n2, d2)" by (rule prod_cases3)
  note q2 = read_catalog_generation_view [OF kept_ok [OF k1] s2]
  have k2: "kept db d2" by (rule kept_trans [OF k1 quiet_kept [OF q2(1)]])
  have f1: "user_transaction_active d1 = user_transaction_active db" "transaction_state_uncertain d1 = transaction_state_uncertain db"
    "calm r1 (view (sqlite db)) (view (sqlite d1))"
    using q1 by (auto simp: quiet_def same_connection_fields split: if_splits)
  have f2: "user_transaction_active d2 = user_transaction_active d1" "transaction_state_uncertain d2 = transaction_state_uncertain d1"
    "calm r2 (view (sqlite d1)) (view (sqlite d2))" using q2(1) by (auto simp: quiet_def same_connection_fields)
  note r = res [unfolded mylite_catalog_synchronize_snapshot_def Let_def s1 prod.case s2]
  have "kept db db' \<and> calm rc (view (sqlite db)) (view (sqlite db')) \<and>
    user_transaction_active db' = user_transaction_active db \<and> transaction_state_uncertain db' = transaction_state_uncertain db"
  proof (cases "user_transaction_active db \<and> catalog_snapshot_synchronized db \<or> \<not> initialized (catalog db)")
    case True
    with r kd kept_refl [OF ok] show ?thesis
      by (auto simp: calm_def intro: kept_fields split: if_splits)
  next
    case False
    show ?thesis
    proof (cases "r1 = MYLITE_OK")
      case r1: False
      with False r k1 f1 show ?thesis by (auto split: if_splits)
    next
      case r1: True
      with f1(3) have v1: "view (sqlite d1) = view (sqlite db)" by (simp add: calm_def)
      show ?thesis
      proof (cases "has_observed_data_version (catalog d1) \<and> n1 = observed_data_version (catalog d1)")
        case True
        with False r r1 have "rc = MYLITE_OK" "db' = d1\<lparr>catalog_snapshot_synchronized := user_transaction_active d1\<rparr>"
          by (auto split: if_splits)
        with f1 v1 kept_fields [OF k1, of db'] show ?thesis by (simp add: calm_def)
      next
        case stale: False
        show ?thesis
        proof (cases "r2 = MYLITE_OK")
          case r2: False
          have "rc = r2" "db' = d2" using r False r1 stale r2 by (auto split: if_splits)
          with k2 f1 f2 v1 show ?thesis by simp
        next
          case r2: True
          have "rc = MYLITE_OK" "sqlite db' = sqlite d2" "catalog_statements db' = catalog_statements d2"
            "statement_cache db' = statement_cache d2" "user_transaction_active db' = user_transaction_active d2"
            "transaction_state_uncertain db' = transaction_state_uncertain d2"
            using r False r1 stale r2 by (auto simp: mylite_catalog_invalidate_descriptor_cache_def split: if_splits)
          with f1 f2 v1 r2 kept_fields [OF k2, of db'] show ?thesis by (simp add: calm_def)
        qed
      qed
    qed
  qed
  then show "kept db db'" "calm rc (view (sqlite db)) (view (sqlite db'))"
    "user_transaction_active db' = user_transaction_active db" "transaction_state_uncertain db' = transaction_state_uncertain db"
    by auto
qed

lemma synchronize_flag:
  assumes ok: "catalog_statements_ok prepared db"
    and res: "mylite_catalog_synchronize_snapshot api rapi capi db = (rc, db')" and rc: "rc = MYLITE_OK"
  shows "catalog_snapshot_synchronized db' = user_transaction_active db"
proof -
  let ?db = "if \<not> user_transaction_active db then db\<lparr>catalog_snapshot_synchronized := False\<rparr> else db"
  have kd: "kept db ?db" by (rule kept_fields [OF kept_refl [OF ok]]) auto
  obtain r1 n1 d1 where s1: "read_data_version api rapi ?db = (r1, n1, d1)" by (rule prod_cases3)
  note q1 = read_data_version_view [OF kept_ok [OF kd] s1]
  obtain r2 n2 d2 where s2: "read_catalog_generation api rapi d1 = (r2, n2, d2)" by (rule prod_cases3)
  have ok1: "catalog_statements_ok prepared d1" using q1 by (simp add: quiet_def)
  note q2 = read_catalog_generation_view [OF ok1 s2]
  have "user_transaction_active d1 = user_transaction_active db" "user_transaction_active d2 = user_transaction_active d1"
    using q1 q2(1) by (auto simp: quiet_def same_connection_fields split: if_splits)
  with res [unfolded mylite_catalog_synchronize_snapshot_def Let_def s1 prod.case s2] rc show ?thesis
    by (auto simp: mylite_catalog_invalidate_descriptor_cache_def split: if_splits)
qed

lemma synchronize_generation:
  assumes ok: "catalog_statements_ok prepared db" and init: "initialized (catalog db)"
    and unsynced: "\<not> (user_transaction_active db \<and> catalog_snapshot_synchronized db)"
    and unseen: "\<not> has_observed_data_version (catalog db)"
    and res: "mylite_catalog_synchronize_snapshot api rapi capi db = (MYLITE_OK, db')"
  shows "generation (catalog db') = stored_generation (view (sqlite db'))"
    "catalog_generation db = generation (catalog db) \<Longrightarrow> catalog_generation db' = generation (catalog db')"
proof -
  let ?db = "if \<not> user_transaction_active db then db\<lparr>catalog_snapshot_synchronized := False\<rparr> else db"
  have kd: "kept db ?db" by (rule kept_fields [OF kept_refl [OF ok]]) auto
  obtain r1 n1 d1 where s1: "read_data_version api rapi ?db = (r1, n1, d1)" by (rule prod_cases3)
  note q1 = read_data_version_view [OF kept_ok [OF kd] s1]
  obtain r2 n2 d2 where s2: "read_catalog_generation api rapi d1 = (r2, n2, d2)" by (rule prod_cases3)
  have ok1: "catalog_statements_ok prepared d1" using q1 by (simp add: quiet_def)
  note q2 = read_catalog_generation_view [OF ok1 s2]
  have c1: "catalog d1 = catalog db" "catalog_generation d1 = catalog_generation db" "catalog d2 = catalog d1"
    "catalog_generation d2 = catalog_generation d1"
    using q1 q2(1) by (auto simp: quiet_def same_connection_fields split: if_splits)
  note r = res [unfolded mylite_catalog_synchronize_snapshot_def Let_def s1 prod.case s2]
  from r init unsynced unseen c1 have rs: "r1 = MYLITE_OK" "r2 = MYLITE_OK" by (auto split: if_splits)
  have n2: "n2 = stored_generation (view (sqlite d2))" using q2 rs by (auto simp: quiet_def calm_def)
  from r rs init unsynced unseen c1 have
    "sqlite db' = sqlite d2 \<and> generation (catalog db') = n2 \<and>
     catalog_generation db' = (if n2 \<noteq> generation (catalog db) then n2 else catalog_generation db)"
    by (auto simp: mylite_catalog_invalidate_descriptor_cache_def reset_descriptor_cache_state_def split: if_splits)
  with n2 show "generation (catalog db') = stored_generation (view (sqlite db'))"
    "catalog_generation db = generation (catalog db) \<Longrightarrow> catalog_generation db' = generation (catalog db')"
    by (auto split: if_splits)
qed

text \<open>Changes of generation.\<close>

definition change_level :: "bool \<Rightarrow> string" where
  "change_level savepoint = (if savepoint then ''_mylite_catalog_generation'' else '''')"

lemma abandon_undone:
  assumes k: "kept db d" "generation (catalog d) = generation (catalog db)" "catalog_generation d = catalog_generation db"
    and w: "within (change_level (writer_stable_planning_transaction_active d)) v0 (view (sqlite d))"
    and res: "mylite_catalog_abandon_generation_change api d rc = (rc', db')"
  shows "undone v0 db db'" "rc \<noteq> MYLITE_OK \<Longrightarrow> rc' = rc"
proof -
  have "undone v0 db db' \<and> (rc \<noteq> MYLITE_OK \<longrightarrow> rc' = rc)"
  proof (cases "writer_stable_planning_transaction_active d")
    case False
    with res have "rollback_catalog_transaction api d rc = (rc', db')" by (simp add: mylite_catalog_abandon_generation_change_def)
    from rollback_catalog_view [OF this] within_aborted [OF w] k show ?thesis by (auto simp: undone_def)
  next
    case True
    let ?to = "''ROLLBACK TO SAVEPOINT _mylite_catalog_generation''" and ?rel = "''RELEASE SAVEPOINT _mylite_catalog_generation''"
    obtain r1 d1 where e1: "mylite_catalog_execute_sql api d ?to = (r1, d1)" by (rule prod.exhaust)
    obtain r2 d2 where e2: "(if r1 = MYLITE_OK then mylite_catalog_execute_sql api d1 ?rel else (r1, d1)) = (r2, d2)"
      by (rule prod.exhaust)
    have r: "(if r2 \<noteq> MYLITE_OK then rollback_catalog_transaction api d2 rc else (rc, d2)) = (rc', db')"
      using res True e1 e2 by (auto simp: mylite_catalog_abandon_generation_change_def)
    from w True have w': "within ''_mylite_catalog_generation'' v0 (view (sqlite d))" by (simp add: change_level_def)
    from rollback_level_view [OF w' control_meanings(10,9) e1 e2 r] k show ?thesis by (auto simp: undone_def)
  qed
  then show "undone v0 db db'" "rc \<noteq> MYLITE_OK \<Longrightarrow> rc' = rc" by auto
qed

lemma begin_change_view:
  assumes ok: "catalog_statements_ok prepared db"
    and res: "mylite_catalog_begin_generation_change api rapi capi db = (rc, db', ch)"
  shows "rc = MYLITE_OK \<Longrightarrow> change_next_generation ch = stored_generation (view (sqlite db)) + 1 \<and>
      change_next_generation ch \<noteq> 0 \<and> change_uses_savepoint ch = writer_stable_planning_transaction_active db \<and>
      view (sqlite db') = opened (change_level (change_uses_savepoint ch)) (view (sqlite db)) \<and>
      (\<not> change_uses_savepoint ch \<longrightarrow> open_levels (view (sqlite db)) = []) \<and>
      generation (catalog db') = generation (catalog db) \<and> catalog_generation db' = catalog_generation db \<and> kept db db'"
    and "rc \<noteq> MYLITE_OK \<Longrightarrow> undone (view (sqlite db)) db db'"
proof -
  let ?v0 = "view (sqlite db)" and ?sp = "writer_stable_planning_transaction_active db"
  let ?sql = "if ?sp then ''SAVEPOINT _mylite_catalog_generation'' else ''BEGIN IMMEDIATE''"
  have c: "control_meaning ?sql = Some (if ?sp then Savepoint ''_mylite_catalog_generation'' else Begin)" by simp
  obtain r1 d1 where e: "mylite_catalog_execute_sql api db ?sql = (r1, d1)" by (rule prod.exhaust)
  note x = execute_sql_view [OF c e]
  have d1: "catalog d1 = catalog db" "catalog_generation d1 = catalog_generation db"
    "writer_stable_planning_transaction_active d1 = ?sp" by (subst x(1), simp)+
  have k1: "kept db d1" by (rule x(4) [OF kept_refl [OF ok]])
  obtain r2 cat d2 where q: "read_catalog_state api rapi d1 = (r2, cat, d2)" by (rule prod_cases3)
  note qv = catalog_state_view [OF kept_ok [OF k1] q]
  have k2: "kept db d2" by (rule kept_trans [OF k1 quiet_kept [OF qv(1)]])
  have same: "same_connection d1 d2" using qv(1) by (simp add: quiet_def)
  note f2 = same_connection_fields [OF same]
  have sp2: "writer_stable_planning_transaction_active d2 = ?sp"
    using d1(3) by (subst same [unfolded same_connection_def], simp)
  note r = res [unfolded mylite_catalog_begin_generation_change_def Let_def catalog_generation_change.simps e prod.case q]
  have "(rc = MYLITE_OK \<longrightarrow> change_next_generation ch = stored_generation ?v0 + 1 \<and> change_next_generation ch \<noteq> 0 \<and>
      change_uses_savepoint ch = ?sp \<and> view (sqlite db') = opened (change_level ?sp) ?v0 \<and>
      (\<not> ?sp \<longrightarrow> open_levels ?v0 = []) \<and> generation (catalog db') = generation (catalog db) \<and>
      catalog_generation db' = catalog_generation db \<and> kept db db') \<and>
    (rc \<noteq> MYLITE_OK \<longrightarrow> undone ?v0 db db')"
  proof (cases "r1 = MYLITE_OK")
    case False
    with r x(3) k1 d1 show ?thesis by (auto simp: undone_def)
  next
    case r1: True
    from x(2) [OF r1] have v1: "view (sqlite d1) = opened (change_level ?sp) ?v0" "\<not> ?sp \<longrightarrow> open_levels ?v0 = []"
      by (auto simp: opened_def change_level_def split: if_splits)
    have w1: "within (change_level ?sp) ?v0 (view (sqlite d1))" using v1(1) within_opened by simp
    have w2: "within (change_level (writer_stable_planning_transaction_active d2)) ?v0 (view (sqlite d2))"
      unfolding sp2 by (rule within_calm [OF w1 quiet_calm [OF qv(1)]])
    have ab: "undone ?v0 db d' \<and> rc' = rc0" if "mylite_catalog_abandon_generation_change api d2 rc0 = (rc', d')" "rc0 \<noteq> MYLITE_OK"
      for rc0 rc' d' using abandon_undone [OF k2 _ _ w2 that(1)] that(2) f2 d1 by simp
    consider (query) "r2 \<noteq> MYLITE_OK" | (last) "r2 = MYLITE_OK" "generation cat = UINT64_MAX"
      | (fine) "r2 = MYLITE_OK" "generation cat \<noteq> UINT64_MAX" by blast
    then show ?thesis
    proof cases
      case query
      obtain rc' d' where a: "mylite_catalog_abandon_generation_change api d2 r2 = (rc', d')" by (rule prod.exhaust)
      from r r1 query a have eq: "rc = rc'" "db' = mylite_catalog_invalidate_descriptor_cache capi d'" by simp_all
      from ab [OF a query] have "undone ?v0 db d'" "rc' = r2" by auto
      moreover have "undone ?v0 db db'" using \<open>undone ?v0 db d'\<close> by (rule undone_fields) (simp_all add: eq)
      ultimately show ?thesis using query eq by simp
    next
      case last
      obtain rc' d' where a: "mylite_catalog_abandon_generation_change api d2 1 = (rc', d')" by (rule prod.exhaust)
      from r r1 last a have "rc = rc'" "db' = d'" by simp_all
      with ab [OF a] show ?thesis by simp
    next
      case fine
      from r r1 fine have eq: "rc = MYLITE_OK" "db' = d2" "change_next_generation ch = generation cat + 1" "change_uses_savepoint ch = ?sp"
        by auto
      have "view (sqlite d2) = view (sqlite d1)" using qv(1) fine by (simp add: quiet_def calm_def)
      moreover have "generation cat = stored_generation ?v0" using qv(2) fine v1 by simp
      moreover have "generation cat + 1 \<noteq> 0" using fine(2) unfolding UINT64_MAX_def
        by (metis add.commute add_diff_cancel_left' diff_0)
      ultimately show ?thesis using eq v1 f2 d1 k2 by simp
    qed
  qed
  then show "rc = MYLITE_OK \<Longrightarrow> change_next_generation ch = stored_generation ?v0 + 1 \<and>
      change_next_generation ch \<noteq> 0 \<and> change_uses_savepoint ch = ?sp \<and>
      view (sqlite db') = opened (change_level (change_uses_savepoint ch)) ?v0 \<and>
      (\<not> change_uses_savepoint ch \<longrightarrow> open_levels ?v0 = []) \<and>
      generation (catalog db') = generation (catalog db) \<and> catalog_generation db' = catalog_generation db \<and> kept db db'"
    "rc \<noteq> MYLITE_OK \<Longrightarrow> undone ?v0 db db'" by auto
qed

lemma finish_change_view:
  assumes ok: "catalog_statements_ok prepared db"
    and ch: "change_uses_savepoint ch = writer_stable_planning_transaction_active db"
      "\<not> change_uses_savepoint ch \<longrightarrow> open_levels v0 = []"
    and v: "view (sqlite db) = opened (change_level (change_uses_savepoint ch)) v0"
    and res: "mylite_catalog_finish_generation_change api rapi capi db ch = (rc, db')"
  shows "rc = MYLITE_OK \<Longrightarrow> view (sqlite db') = v0\<lparr>stored_generation := change_next_generation ch\<rparr> \<and>
      generation (catalog db') = change_next_generation ch \<and> catalog_generation db' = change_next_generation ch \<and> kept db db'"
    and "rc \<noteq> MYLITE_OK \<Longrightarrow> undone v0 db db'"
proof -
  let ?g = "change_next_generation ch" and ?sp = "change_uses_savepoint ch"
  let ?sql = "if ?sp then ''RELEASE SAVEPOINT _mylite_catalog_generation'' else ''COMMIT''"
  have c: "control_meaning ?sql = Some (if ?sp then Release ''_mylite_catalog_generation'' else Commit)" by simp
  obtain r1 d1 where s1: "update_catalog_generation api rapi db ?g = (r1, d1)" by (rule prod.exhaust)
  obtain r2 d2 where s2: "(if r1 = MYLITE_OK then mylite_catalog_execute_sql api d1 ?sql else (r1, d1)) = (r2, d2)"
    by (rule prod.exhaust)
  obtain r3 d3 where s3: "mylite_catalog_abandon_generation_change api d2 r2 = (r3, d3)" by (rule prod.exhaust)
  note u = update_generation_view [OF ok s1]
  note f1 = same_connection_fields [OF u(3)]
  have k1: "kept db d1" using u f1 by (simp add: kept_def)
  have sp1: "writer_stable_planning_transaction_active d1 = ?sp"
    using ch(1) by (subst u(3) [unfolded same_connection_def], simp)
  have w1: "within (change_level ?sp) v0 (view (sqlite d1))"
    using u(4) v within_opened [of "change_level ?sp" v0] within_abort [OF within_opened(1), of "change_level ?sp" v0]
    by (auto split: if_splits)
  have d2: "catalog d2 = catalog db \<and> catalog_generation d2 = catalog_generation db \<and> kept db d2 \<and>
    writer_stable_planning_transaction_active d2 = ?sp \<and>
    (if r2 = MYLITE_OK then view (sqlite d2) = v0\<lparr>stored_generation := ?g\<rparr> else within (change_level ?sp) v0 (view (sqlite d2)))"
  proof (cases "r1 = MYLITE_OK")
    case False
    with s2 w1 k1 f1 sp1 show ?thesis by auto
  next
    case True
    with s2 have e: "mylite_catalog_execute_sql api d1 ?sql = (r2, d2)" by simp
    note x = execute_sql_view [OF c e]
    have same: "catalog d2 = catalog d1" "catalog_generation d2 = catalog_generation d1"
      "writer_stable_planning_transaction_active d2 = writer_stable_planning_transaction_active d1" by (subst x(1), simp)+
    have v1: "view (sqlite d1) = (opened (change_level ?sp) v0)\<lparr>stored_generation := ?g\<rparr>" using u(4) True v by simp
    have "if r2 = MYLITE_OK then view (sqlite d2) = v0\<lparr>stored_generation := ?g\<rparr> else within (change_level ?sp) v0 (view (sqlite d2))"
    proof (cases "r2 = MYLITE_OK")
      case True
      then have "control_result (if ?sp then Release ''_mylite_catalog_generation'' else Commit) (view (sqlite d1)) =
        Some (view (sqlite d2))" by (rule x(2))
      with True v1 ch(2) show ?thesis by (cases v0) (auto simp: opened_def change_level_def split: if_splits)
    next
      case False
      with x(3) w1 within_abort show ?thesis by auto
    qed
    with same f1 sp1 x(4) [OF k1] show ?thesis by simp
  qed
  note r = res [unfolded mylite_catalog_finish_generation_change_def Let_def s1 prod.case s2 s3]
  have failed: "undone v0 db d3 \<and> r3 = r2" if "r2 \<noteq> MYLITE_OK"
    using abandon_undone [OF _ _ _ _ s3, of db v0] that d2 by simp
  show "view (sqlite db') = v0\<lparr>stored_generation := ?g\<rparr> \<and>
      generation (catalog db') = ?g \<and> catalog_generation db' = ?g \<and> kept db db'" if "rc = MYLITE_OK"
  proof (cases "r2 = MYLITE_OK")
    case True
    with r have eq: "db' = mylite_catalog_invalidate_descriptor_cache capi
        (d2\<lparr>catalog := (catalog d2)\<lparr>generation := ?g\<rparr>, catalog_generation := ?g\<rparr>)" by auto
    have "kept db db'" by (rule kept_fields [of db d2]) (use d2 in \<open>simp_all add: eq\<close>)
    with d2 True eq show ?thesis by simp
  next
    case False
    with r failed [OF False] that show ?thesis by auto
  qed
  show "undone v0 db db'" if "rc \<noteq> MYLITE_OK"
  proof -
    from that r have r2: "r2 \<noteq> MYLITE_OK" by auto
    with r have eq: "db' = mylite_catalog_invalidate_descriptor_cache capi d3" by auto
    from failed [OF r2] show ?thesis by (intro undone_fields [of v0 db d3 db']) (simp_all add: eq)
  qed
qed

end

section \<open>The data version\<close>


section \<open>Properties\<close>

definition world_catalog_api :: "(sqlite_world, unit) catalog_api" where
  "world_catalog_api = \<lparr>validate_integrity = \<lambda>db. (MYLITE_OK, db), drop_descriptors = \<lambda>g c. c, drop_table_status = \<lambda>c. c\<rparr>"

interpretation catalog_store_world: catalog_store world_statement_api world_prepared "\<lambda>sql. True" world_view
  world_row_api world_bound world_catalog_api
  by unfold_locales (simp add: world_catalog_api_def catalog_world.quiet_refl)


lemma word_successor: "x + 1 \<noteq> 0 \<Longrightarrow> uint (x + 1) = uint x + 1" for x :: "'a::len word"
proof -
  assume "x + 1 \<noteq> 0"
  then have "1 + x \<noteq> 0" by (simp add: add.commute)
  from unatSuc [OF this] have "int (unat (x + 1)) = int (unat x) + 1" by (simp add: add.commute [of x])
  then show "uint (x + 1) = uint x + 1" by (simp only: uint_nat)
qed

text \<open>
  What a mutation that did not take effect leaves behind: the generations the connection knows,
  and the stored state as it was or as SQLite's rollback of the whole transaction restores it,
  unless the connection is marked as uncertain.
\<close>

definition restored :: "('w \<Rightarrow> transaction_view) \<Rightarrow> ('w, 'c) connection \<Rightarrow> ('w, 'c) connection \<Rightarrow> bool" where
  "restored view db db' \<longleftrightarrow>
     (transaction_state_uncertain db' \<or> view (sqlite db') = view (sqlite db) \<or>
       view (sqlite db') = aborted (view (sqlite db))) \<and>
     generation (catalog db') = generation (catalog db) \<and> catalog_generation db' = catalog_generation db"

text \<open>What one that took effect leaves behind.\<close>

definition advanced :: "('w \<Rightarrow> transaction_view) \<Rightarrow> ('w, 'c) connection \<Rightarrow> ('w, 'c) connection \<Rightarrow> bool" where
  "advanced view db db' \<longleftrightarrow>
     uint (stored_generation (view (sqlite db'))) = uint (stored_generation (view (sqlite db))) + 1 \<and>
     generation (catalog db') = stored_generation (view (sqlite db')) \<and>
     catalog_generation db' = stored_generation (view (sqlite db')) \<and>
     open_levels (view (sqlite db')) = open_levels (view (sqlite db))"

text \<open>
  Property C5. A catalog mutation is atomic. When \<^verbatim>\<open>mylite_catalog_begin_mutation\<close> succeeds and
  the mutation leaves the catalog's generation and the transaction levels alone, committing it
  either succeeds, and then the stored generation, the catalog's and the session's are all
  exactly one more than the stored generation before, without wrap-around, and the transaction
  levels are those before the mutation began; or it fails, and then the catalog and the session
  keep their generation and the stored generation and levels are those before the mutation, or
  those SQLite restores when it rolls the whole transaction back, unless the connection has been
  marked as uncertain. Either way the mutation is over, and the catalog's cached statements and
  those of the statement cache are intact. This holds whichever SQLite call fails.
\<close>

theorem catalog_mutation_atomic:
  assumes "catalog_store api prepared has_statement view rapi bound capi" "catalog_statements_ok prepared db"
    and "mylite_catalog_begin_mutation api rapi capi db = (MYLITE_OK, db1, m)"
    and "catalog_statements_ok prepared db2" "initialized (catalog db2)" "view (sqlite db2) = view (sqlite db1)"
    and "generation (catalog db2) = generation (catalog db1)" "catalog_generation db2 = catalog_generation db1"
    and "mylite_catalog_commit_mutation api rapi capi db2 m = (rc, db3, m')"
  shows "catalog_statements_ok prepared db3 \<and> statement_cache db3 = statement_cache db2 \<and> \<not> active m' \<and>
    (if rc = MYLITE_OK then advanced view db db3 else restored view db db3)"
proof -
  note b = catalog_store.begin_mutation_view(1) [OF assms(1-3) refl]
  have v: "view (sqlite db2) = catalog_store.opened (catalog_store.level_name m) (view (sqlite db))"
    using b assms(6) by simp
  note c = catalog_store.commit_mutation_view [OF assms(1,4,5) _ _ _ v assms(9)]
  have "stored_generation (view (sqlite db)) + 1 \<noteq> 0" using b by metis
  from word_successor [OF this] show ?thesis
    using b c assms(7,8) by (auto simp: catalog_store.undone_def [OF assms(1)] catalog_store.kept_def [OF assms(1)] advanced_def restored_def)
qed

definition example_connection :: "u64 \<Rightarrow> (sqlite_world, unit) connection" where
  "example_connection g =
     \<lparr>sqlite = \<lparr>world_statements = Map.empty, world_next = 0,
        world_view = \<lparr>stored_generation = g, open_levels = []\<rparr>, world_bound = \<lambda>x i. None, world_at_row = \<lambda>x. False,
        world_changes = 0, world_data_version = 2\<rparr>,
      statement_cache = [], catalog_generation = 5, sqlite_schema_generation = 1, allocs = [], db_diagnostics = example_area,
      catalog = blank_catalog\<lparr>initialized := True, generation := 5\<rparr>, catalog_statements = [], descriptor_caches = (),
      user_transaction_active = False, autocommit_enabled = True, catalog_snapshot_synchronized = False,
      session_transaction_isolation = REPEATABLE_READ, next_transaction_isolation = REPEATABLE_READ,
      active_transaction_isolation = REPEATABLE_READ, session_transaction_access_mode = READ_WRITE,
      next_transaction_access_mode = READ_WRITE, has_next_transaction_isolation = False,
      has_next_transaction_access_mode = False, next_transaction_isolation_from_system_variable = False,
      next_transaction_access_mode_from_system_variable = False, active_transaction_read_only = False,
      write_plan_generation_guard_active = False, write_plan_catalog_generation = 0,
      writer_stable_planning_transaction_active = False, defer_catalog_integrity_seal = False,
      transaction_state_uncertain = False\<rparr>"

lemma example_connection_ok: "catalog_statements_ok world_prepared (example_connection g)"
  by (simp add: catalog_statements_ok_def example_connection_def)

lemmas world_defs = world_statement_api_def world_row_api_def world_catalog_api_def world_step_def world_exec_def
  world_control_def world_column_def world_prepared_def

lemmas catalog_defs = mylite_catalog_prepare_statement_def prepare_cached_statement_def append_cached_statement_def
  prepare_uncached_statement_def find_available_cached_statement_def find_cached_statement_by_handle_def
  mylite_catalog_finalize_statement_def on_ok_def read_ok_def expect_row_def expect_end_def
  mylite_catalog_checked_column_i64_def mylite_catalog_checked_column_u64_def mylite_catalog_i64_to_u64_def
  mylite_catalog_i64_to_u32_def mylite_catalog_u64_to_i64_def mylite_sqlite_status_to_mylite_def

lemma sql_differ:
  "state_sql \<noteq> seal_sql" "state_sql \<noteq> generation_sql" "state_sql \<noteq> update_generation_sql" "state_sql \<noteq> update_seal_sql" "state_sql \<noteq> ''PRAGMA main.schema_version''" "state_sql \<noteq> ''PRAGMA main.data_version''"
  "seal_sql \<noteq> generation_sql" "seal_sql \<noteq> update_generation_sql" "seal_sql \<noteq> update_seal_sql" "seal_sql \<noteq> ''PRAGMA main.schema_version''" "seal_sql \<noteq> ''PRAGMA main.data_version''"
  "generation_sql \<noteq> update_generation_sql" "generation_sql \<noteq> update_seal_sql" "generation_sql \<noteq> ''PRAGMA main.schema_version''" "generation_sql \<noteq> ''PRAGMA main.data_version''"
  "update_generation_sql \<noteq> update_seal_sql" "update_generation_sql \<noteq> ''PRAGMA main.schema_version''" "update_generation_sql \<noteq> ''PRAGMA main.data_version''"
  "update_seal_sql \<noteq> ''PRAGMA main.schema_version''" "update_seal_sql \<noteq> ''PRAGMA main.data_version''"
  "''PRAGMA main.schema_version'' \<noteq> ''PRAGMA main.data_version''"
  by (simp_all add: state_sql_def seal_sql_def generation_sql_def update_generation_sql_def update_seal_sql_def)

lemma sql_facts:
  "control_meaning state_sql = None" "control_meaning seal_sql = None" "control_meaning generation_sql = None"
  "control_meaning update_generation_sql = None" "control_meaning update_seal_sql = None"
  "control_meaning ''PRAGMA main.schema_version'' = None" "control_meaning ''PRAGMA main.data_version'' = None"
  by (rule catalog_sql_not_control, simp add: reading_sqls_def)+

lemmas mutation_defs = mylite_catalog_begin_mutation_def mylite_catalog_commit_mutation_def read_catalog_state_def
  read_catalog_integrity_seal_def catalog_state_row_is_valid_def blank_catalog_def reset_descriptor_cache_state_def
  mylite_catalog_validate_ready_database_def mylite_catalog_validate_active_mutation_def
  begin_catalog_mutation_transaction_def commit_catalog_mutation_transaction_def mylite_catalog_mutation_init_def
  mylite_catalog_execute_sql_def catalog_integrity_seal_matches_def mylite_catalog_read_sqlite_schema_version_def
  mylite_catalog_invalidate_descriptor_cache_def update_catalog_generation_def mylite_catalog_validate_generation_def
  mylite_catalog_publish_integrity_seal_def mylite_catalog_bind_u64_def mylite_catalog_bind_i64_def
  mylite_catalog_step_done_def mylite_catalog_require_changed_row_def UINT64_MAX_def INT64_MAX_def

abbreviation (input) world_begin where
  "world_begin \<equiv> mylite_catalog_begin_mutation world_statement_api world_row_api world_catalog_api"
abbreviation (input) world_commit where
  "world_commit \<equiv> mylite_catalog_commit_mutation world_statement_api world_row_api world_catalog_api"

lemma example_mutation_begin: "fst (world_begin (example_connection 5)) = MYLITE_OK"
  using sql_differ by (simp add: mutation_defs catalog_defs world_defs example_connection_def Let_def sql_facts)

lemma example_mutation_commit:
  "fst (case world_begin (example_connection 5) of (rc, db, m) \<Rightarrow> world_commit db m) = MYLITE_OK"
  using sql_differ by (simp add: mutation_defs catalog_defs world_defs example_connection_def Let_def sql_facts)

theorem catalog_mutation_atomic_witness:
  "\<exists>db1 m db3 m'. world_begin (example_connection 5) = (MYLITE_OK, db1, m) \<and>
    world_commit db1 m = (MYLITE_OK, db3, m') \<and> uint (catalog_generation db3) = 6"
proof -
  obtain rc db1 m where b: "world_begin (example_connection 5) = (rc, db1, m)" by (rule prod_cases3)
  obtain rc' db3 m' where c: "world_commit db1 m = (rc', db3, m')" by (rule prod_cases3)
  have rc: "rc = MYLITE_OK" "rc' = MYLITE_OK" using example_mutation_begin example_mutation_commit b c by simp_all
  note s = catalog_store_world.begin_mutation_view(1) [OF example_connection_ok b rc(1)]
  from catalog_mutation_atomic [OF catalog_store_world.catalog_store_axioms example_connection_ok b [unfolded rc] _ _ refl refl refl c]
    s rc show ?thesis using b c by (simp add: catalog_store_world.kept_def example_connection_def advanced_def)
qed

text \<open>
  Property C26. A catalog mutation can always be abandoned. When it cannot begin, no mutation is
  active and nothing has changed; when it began, rolling it back after any change of the stored
  generation restores the state before it, keeps the primary error, and ends the mutation.
  Rolling back a mutation that is not active changes nothing.
\<close>

theorem catalog_mutation_rollback:
  assumes "catalog_store api prepared has_statement view rapi bound capi" "catalog_statements_ok prepared db"
    and "mylite_catalog_begin_mutation api rapi capi db = (rc1, db1, m)"
    and "catalog_statements_ok prepared db2" "view (sqlite db2) = (view (sqlite db1))\<lparr>stored_generation := g\<rparr>"
    and "generation (catalog db2) = generation (catalog db1)" "catalog_generation db2 = catalog_generation db1"
    and "mylite_catalog_rollback_mutation api capi db2 m primary_rc = (rc, db3, m')"
  shows "\<not> active m' \<and> (primary_rc \<noteq> MYLITE_OK \<longrightarrow> rc = primary_rc) \<and>
    (if rc1 = MYLITE_OK then active m \<and> restored view db db3 else \<not> active m \<and> restored view db db1 \<and> db3 = db2)"
proof (cases "rc1 = MYLITE_OK")
  case True
  note b = catalog_store.begin_mutation_view(1) [OF assms(1-3) True]
  have w: "catalog_store.within (catalog_store.level_name m) (view (sqlite db)) (view (sqlite db2))"
    using catalog_store.within_opened(2) [OF assms(1)] b assms(5) by simp
  from catalog_store.rollback_mutation_outcome [OF assms(1,4) w _ assms(8)] b assms(6,7) True show ?thesis
    by (auto simp: catalog_store.undone_def [OF assms(1)] restored_def)
next
  case False
  from catalog_store.begin_mutation_view(2) [OF assms(1-3) False] False assms(8) show ?thesis
    by (auto simp: catalog_store.undone_def [OF assms(1)] restored_def mylite_catalog_rollback_mutation_def
        mylite_catalog_mutation_deinit_def)
qed

theorem catalog_mutation_rollback_witness:
  "\<exists>db1 m rc db3 m'. world_begin (example_connection 5) = (MYLITE_OK, db1, m) \<and>
    mylite_catalog_rollback_mutation world_statement_api world_catalog_api db1 m MYLITE_ERROR = (MYLITE_ERROR, db3, m') \<and>
    restored world_view (example_connection 5) db3"
proof -
  obtain rc db1 m where b: "world_begin (example_connection 5) = (rc, db1, m)" by (rule prod_cases3)
  obtain rc' db3 m' where c: "mylite_catalog_rollback_mutation world_statement_api world_catalog_api db1 m MYLITE_ERROR = (rc', db3, m')"
    by (rule prod_cases3)
  have rc: "rc = MYLITE_OK" using example_mutation_begin b by simp
  note s = catalog_store_world.begin_mutation_view(1) [OF example_connection_ok b rc]
  have v: "world_view (sqlite db1) = (world_view (sqlite db1))\<lparr>stored_generation := stored_generation (world_view (sqlite db1))\<rparr>"
    by simp
  from catalog_mutation_rollback [OF catalog_store_world.catalog_store_axioms example_connection_ok b _ v refl refl c]
    s rc b c show ?thesis by (simp add: catalog_store_world.kept_def)
qed

text \<open>
  Property C27. A change of the catalog generation outside a mutation is atomic in the same way:
  it advances every generation by exactly one, or leaves them as they were.
\<close>

theorem catalog_generation_change_atomic:
  assumes "catalog_store api prepared has_statement view rapi bound capi" "catalog_statements_ok prepared db"
    and "mylite_catalog_begin_generation_change api rapi capi db = (rc1, db1, ch)"
    and "catalog_statements_ok prepared db2" "view (sqlite db2) = view (sqlite db1)"
    and "generation (catalog db2) = generation (catalog db1)" "catalog_generation db2 = catalog_generation db1"
    and "writer_stable_planning_transaction_active db2 = writer_stable_planning_transaction_active db"
    and "mylite_catalog_finish_generation_change api rapi capi db2 ch = (rc, db3)"
  shows "if rc1 \<noteq> MYLITE_OK then restored view db db1
    else if rc = MYLITE_OK then advanced view db db3 else restored view db db3"
proof (cases "rc1 = MYLITE_OK")
  case False
  from catalog_store.begin_change_view(2) [OF assms(1-3) False] False show ?thesis
    by (simp add: catalog_store.undone_def [OF assms(1)] restored_def)
next
  case True
  note b = catalog_store.begin_change_view(1) [OF assms(1-3) True]
  have v: "view (sqlite db2) = catalog_store.opened (catalog_store.change_level (change_uses_savepoint ch)) (view (sqlite db))"
    using b assms(5) by simp
  note c = catalog_store.finish_change_view [OF assms(1,4) _ _ v assms(9)]
  have "stored_generation (view (sqlite db)) + 1 \<noteq> 0" using b by metis
  from word_successor [OF this] show ?thesis
    using True b c assms(6-8) by (auto simp: catalog_store.undone_def [OF assms(1)] restored_def advanced_def)
qed

lemmas change_defs = mylite_catalog_begin_generation_change_def mylite_catalog_finish_generation_change_def

lemma example_change:
  "fst (mylite_catalog_begin_generation_change world_statement_api world_row_api world_catalog_api (example_connection 5)) = MYLITE_OK"
  "fst (case mylite_catalog_begin_generation_change world_statement_api world_row_api world_catalog_api (example_connection 5) of
     (rc, db, ch) \<Rightarrow> mylite_catalog_finish_generation_change world_statement_api world_row_api world_catalog_api db ch) = MYLITE_OK"
  "writer_stable_planning_transaction_active
     (fst (snd (mylite_catalog_begin_generation_change world_statement_api world_row_api world_catalog_api (example_connection 5)))) = False"
  using sql_differ by (simp_all add: change_defs mutation_defs catalog_defs world_defs example_connection_def Let_def sql_facts)

theorem catalog_generation_change_atomic_witness:
  "\<exists>db1 ch db3. mylite_catalog_begin_generation_change world_statement_api world_row_api world_catalog_api (example_connection 5) =
      (MYLITE_OK, db1, ch) \<and>
    mylite_catalog_finish_generation_change world_statement_api world_row_api world_catalog_api db1 ch = (MYLITE_OK, db3) \<and>
    advanced world_view (example_connection 5) db3"
proof -
  obtain rc db1 ch where b: "mylite_catalog_begin_generation_change world_statement_api world_row_api world_catalog_api
      (example_connection 5) = (rc, db1, ch)" by (rule prod_cases3)
  obtain rc' db3 where c: "mylite_catalog_finish_generation_change world_statement_api world_row_api world_catalog_api db1 ch = (rc', db3)"
    by (rule prod.exhaust)
  have rc: "rc = MYLITE_OK" "rc' = MYLITE_OK" "writer_stable_planning_transaction_active db1 = False"
    using example_change b c by simp_all
  note s = catalog_store_world.begin_change_view(1) [OF example_connection_ok b rc(1)]
  have w: "writer_stable_planning_transaction_active db1 = writer_stable_planning_transaction_active (example_connection 5)"
    using rc(3) by (simp add: example_connection_def)
  from catalog_generation_change_atomic [OF catalog_store_world.catalog_store_axioms example_connection_ok b _ refl refl refl w c]
    s rc b c show ?thesis by (simp add: catalog_store_world.kept_def)
qed

text \<open>
  What keeps the cached generation right without reading it for every statement: the session's
  generation is the catalog's, and when the data version last observed is still that of the
  database, no other connection has changed it and the catalog has the stored generation. A
  connection that has observed no version yet satisfies this, and so does one whose own change of
  the generation has just taken effect.
\<close>

definition snapshot_current :: "('w \<Rightarrow> transaction_view) \<Rightarrow> ('w \<Rightarrow> u64) \<Rightarrow> ('w, 'c) connection \<Rightarrow> bool" where
  "snapshot_current view data_version db \<longleftrightarrow>
     catalog_generation db = generation (catalog db) \<and>
     (has_observed_data_version (catalog db) \<and> observed_data_version (catalog db) = data_version (sqlite db) \<longrightarrow>
       generation (catalog db) = stored_generation (view (sqlite db)))"

lemma advanced_current: "advanced view db db' \<Longrightarrow> snapshot_current view data_version db'"
  by (simp add: advanced_def snapshot_current_def)




end
