(* ===== verification/Statement_Transaction.thy ===== *)
theory Statement_Transaction
  imports Catalog_State
begin

text \<open>
  The transaction around each statement, \<^verbatim>\<open>runtime/mylite_execution_statement_transaction.c\<close>:
  a savepoint within a user transaction or a transaction that keeps plans stable for a writer, a
  transaction of its own otherwise, opened for a write, a read or a preparation, committed or
  rolled back with the emergency path for a completion that fails. The state is the
  connection of \<open>Catalog_State\<close>.
\<close>

section \<open>State\<close>

datatype transaction_kind = TRANSACTION_NONE | TRANSACTION_DIRECT | TRANSACTION_SAVEPOINT

record statement_transaction =
  kind :: transaction_kind
  transaction_active :: bool

definition no_transaction :: statement_transaction where
  "no_transaction = \<lparr>kind = TRANSACTION_NONE, transaction_active = False\<rparr>"

type_synonym ('w, 'c) transaction_result = "int \<times> ('w, 'c) connection \<times> statement_transaction"

section \<open>Operations\<close>

definition mylite_execution_normalize_sqlite_control_rc :: "('w, 'c) connection \<Rightarrow> int \<Rightarrow> ('w, 'c) db_result" where
  "mylite_execution_normalize_sqlite_control_rc db rc =
     (if rc = MYLITE_OK then (MYLITE_OK, db)
      else if rc = MYLITE_NOMEM then (MYLITE_NOMEM, mylite_execution_diagnostics_set_nomem_error db)
      else (MYLITE_ERROR, mylite_execution_diagnostics_set_physical_sqlite_error db))"

text \<open>A control statement with its result normalised, as every caller but the clean-up uses it.\<close>

definition control_sql :: "'w statement_api \<Rightarrow> ('w, 'c) connection \<Rightarrow> string \<Rightarrow> ('w, 'c) db_result" where
  "control_sql api db sql =
     (let (rc, db) = mylite_execution_execute_cached_sqlite_control_sql api db sql
      in mylite_execution_normalize_sqlite_control_rc db rc)"

definition mark_transaction_state_uncertain ::
    "('w, 'c) connection \<Rightarrow> string \<Rightarrow> string \<Rightarrow> string \<Rightarrow> string \<Rightarrow> int \<Rightarrow> ('w, 'c) connection" where
  "mark_transaction_state_uncertain db primary_sqlite_error failure_kind operation failure_error emergency_rc =
     (let primary = condition (db_diagnostics db);
          primary = (if code primary = MYLITE_OK
            then primary\<lparr>code := mysql_error_unknown, sqlstate := ''HY000'',
              message := diagnostic_text [if primary_sqlite_error = [] then ''statement execution failed'' else primary_sqlite_error]\<rparr>
            else primary);
          text = (if emergency_rc = MYLITE_OK
            then diagnostic_text [take 112 (message primary), ''; transaction '', failure_kind, '' failed during '', operation,
              '': '', take 72 failure_error]
            else diagnostic_text [take 88 (message primary), ''; transaction '', failure_kind, '' failed during '', operation,
              '': '', take 56 failure_error, ''; emergency rollback failed''])
      in db\<lparr>transaction_state_uncertain := True,
           db_diagnostics := set_error (db_diagnostics db) (code primary) (Some (sqlstate primary)) (Some text)\<rparr>)"

definition mylite_execution_begin_autocommit_disabled_transaction ::
    "'w statement_api \<Rightarrow> ('w, 'c) connection \<Rightarrow> ('w, 'c) db_result" where
  "mylite_execution_begin_autocommit_disabled_transaction api db =
     (if user_transaction_active db \<or> autocommit_enabled db then (MYLITE_OK, db)
      else (let read_only = (if has_next_transaction_access_mode db then next_transaction_access_mode db = READ_ONLY
                             else session_transaction_access_mode db = READ_ONLY);
                (rc, db) = control_sql api db (if read_only then ''BEGIN'' else ''BEGIN IMMEDIATE'')
            in if rc = MYLITE_OK
               then (rc, db\<lparr>user_transaction_active := True, catalog_snapshot_synchronized := False,
                      active_transaction_isolation :=
                        (if has_next_transaction_isolation db then next_transaction_isolation db
                         else session_transaction_isolation db),
                      active_transaction_read_only := read_only,
                      has_next_transaction_isolation := False, has_next_transaction_access_mode := False,
                      next_transaction_isolation_from_system_variable := False,
                      next_transaction_access_mode_from_system_variable := False\<rparr>)
               else (rc, db)))"

text \<open>The emergency path of a completion that failed: what is left of the transaction is rolled back.\<close>

definition emergency_rollback ::
    "'w statement_api \<Rightarrow> ('w, 'c) connection \<Rightarrow> statement_transaction \<Rightarrow> ('w, 'c) transaction_result" where
  "emergency_rollback api db transaction =
     (let (emergency_rc, db) =
            (if api_get_autocommit api (sqlite db) = 0
             then mylite_execution_execute_cached_sqlite_control_sql api db ''ROLLBACK'' else (MYLITE_OK, db))
      in if api_get_autocommit api (sqlite db) \<noteq> 0
         then (emergency_rc,
               db\<lparr>user_transaction_active := False, active_transaction_read_only := False,
                 active_transaction_isolation := REPEATABLE_READ\<rparr>, no_transaction)
         else (emergency_rc, db, transaction))"

definition mylite_execution_commit_statement_transaction ::
    "'w statement_api \<Rightarrow> ('w, 'c) catalog_api \<Rightarrow> ('w, 'c) connection \<Rightarrow> statement_transaction \<Rightarrow>
      ('w, 'c) transaction_result" where
  "mylite_execution_commit_statement_transaction api capi db transaction =
     (if \<not> transaction_active transaction then (MYLITE_OK, db, transaction)
      else (let savepoint = (kind transaction = TRANSACTION_SAVEPOINT);
                failed_operation = (if savepoint then ''RELEASE SAVEPOINT'' else ''COMMIT'');
                (rc, db) = control_sql api db (if savepoint then ''RELEASE SAVEPOINT _mylite_statement'' else ''COMMIT'')
            in if rc = MYLITE_OK then (MYLITE_OK, db, no_transaction)
               else (let commit_error = diagnostic_text [api_errmsg api (sqlite db)];
                         (emergency_rc, db, transaction) = emergency_rollback api db transaction;
                         db = mylite_catalog_invalidate_descriptor_cache capi db
                     in (rc, mark_transaction_state_uncertain db commit_error ''completion'' failed_operation commit_error
                           emergency_rc, transaction))))"

definition mylite_execution_rollback_statement_transaction ::
    "'w statement_api \<Rightarrow> ('w, 'c) catalog_api \<Rightarrow> ('w, 'c) connection \<Rightarrow> statement_transaction \<Rightarrow> int \<Rightarrow>
      ('w, 'c) transaction_result" where
  "mylite_execution_rollback_statement_transaction api capi db transaction primary_rc =
     (if \<not> transaction_active transaction then (primary_rc, db, transaction)
      else (let primary_sqlite_error = diagnostic_text [api_errmsg api (sqlite db)];
                (failed_operation, cleanup_rc, db) =
                  (if kind transaction = TRANSACTION_SAVEPOINT
                   then (let (rc, db) = mylite_execution_execute_cached_sqlite_control_sql api db
                               ''ROLLBACK TO SAVEPOINT _mylite_statement''
                         in if rc = MYLITE_OK
                            then (let (rc, db) = mylite_execution_execute_cached_sqlite_control_sql api db
                                    ''RELEASE SAVEPOINT _mylite_statement'' in (''RELEASE SAVEPOINT'', rc, db))
                            else (''ROLLBACK TO SAVEPOINT'', rc, db))
                   else (let (rc, db) = mylite_execution_execute_cached_sqlite_control_sql api db ''ROLLBACK''
                         in (''ROLLBACK'', rc, db)));
                db = mylite_catalog_invalidate_descriptor_cache capi db
            in if cleanup_rc = MYLITE_OK then (primary_rc, db, no_transaction)
               else (let cleanup_error = diagnostic_text [api_errmsg api (sqlite db)];
                         (emergency_rc, db, transaction) = emergency_rollback api db transaction
                     in (if primary_rc = MYLITE_OK then cleanup_rc else primary_rc,
                         mark_transaction_state_uncertain db primary_sqlite_error ''cleanup'' failed_operation cleanup_error
                           emergency_rc, transaction))))"

definition direct_transaction :: statement_transaction where
  "direct_transaction = \<lparr>kind = TRANSACTION_DIRECT, transaction_active = True\<rparr>"

definition savepoint_transaction :: statement_transaction where
  "savepoint_transaction = \<lparr>kind = TRANSACTION_SAVEPOINT, transaction_active = True\<rparr>"

definition mylite_execution_begin_statement_transaction ::
    "'w statement_api \<Rightarrow> 'w row_api \<Rightarrow> ('w, 'c) catalog_api \<Rightarrow> ('w, 'c) connection \<Rightarrow> ('w, 'c) transaction_result" where
  "mylite_execution_begin_statement_transaction api rapi capi db =
     (if user_transaction_active db \<or> writer_stable_planning_transaction_active db
      then (let (rc, db) = control_sql api db ''SAVEPOINT _mylite_statement''
            in (rc, db, if rc = MYLITE_OK then savepoint_transaction else no_transaction))
      else if \<not> autocommit_enabled db
      then (let (rc, db) = mylite_execution_begin_autocommit_disabled_transaction api db;
                (rc, db) = (if rc = MYLITE_OK then control_sql api db ''SAVEPOINT _mylite_statement'' else (rc, db))
            in (rc, db, if rc = MYLITE_OK then savepoint_transaction else no_transaction))
      else (let (rc, db) = control_sql api db ''BEGIN IMMEDIATE'';
                (rc, db, transaction) = (if rc = MYLITE_OK
                  then (let (rc, db) = mylite_catalog_synchronize_snapshot api rapi capi db in (rc, db, direct_transaction))
                  else (rc, db, no_transaction))
            in if rc = MYLITE_OK \<and> write_plan_generation_guard_active db \<and>
                  catalog_generation db \<noteq> write_plan_catalog_generation db
               then mylite_execution_rollback_statement_transaction api capi db transaction MYLITE_EXECUTION_REPLAN
               else (rc, db, transaction)))"

definition mylite_execution_begin_writer_stable_planning_transaction ::
    "'w statement_api \<Rightarrow> 'w row_api \<Rightarrow> ('w, 'c) catalog_api \<Rightarrow> ('w, 'c) connection \<Rightarrow> ('w, 'c) transaction_result" where
  "mylite_execution_begin_writer_stable_planning_transaction api rapi capi db =
     (let (rc, db) = control_sql api db ''BEGIN IMMEDIATE'';
          (rc, db, transaction) = (if rc = MYLITE_OK
            then (let (rc, db) = mylite_catalog_synchronize_snapshot api rapi capi
                    (db\<lparr>writer_stable_planning_transaction_active := True\<rparr>) in (rc, db, direct_transaction))
            else (rc, db, no_transaction))
      in if rc \<noteq> MYLITE_OK
         then mylite_execution_rollback_statement_transaction api capi
                (db\<lparr>writer_stable_planning_transaction_active := False\<rparr>) transaction rc
         else (rc, db, transaction))"

definition mylite_execution_begin_read_statement_transaction ::
    "'w statement_api \<Rightarrow> 'w row_api \<Rightarrow> ('w, 'c) catalog_api \<Rightarrow> ('w, 'c) connection \<Rightarrow> ('w, 'c) transaction_result" where
  "mylite_execution_begin_read_statement_transaction api rapi capi db =
     (if user_transaction_active db \<or> api_get_autocommit api (sqlite db) = 0
      then (let (rc, db) = mylite_catalog_synchronize_snapshot api rapi capi db in (rc, db, no_transaction))
      else if \<not> autocommit_enabled db
      then (let (rc, db) = mylite_execution_begin_autocommit_disabled_transaction api db;
                (rc, db) = (if rc = MYLITE_OK then mylite_catalog_synchronize_snapshot api rapi capi db else (rc, db))
            in (rc, db, no_transaction))
      else (let (rc, db) = control_sql api db ''BEGIN''
            in if rc = MYLITE_OK
               then (let (rc, db) = mylite_catalog_synchronize_snapshot api rapi capi db in (rc, db, direct_transaction))
               else (rc, db, no_transaction)))"

definition mylite_execution_begin_prepare_transaction ::
    "'w statement_api \<Rightarrow> 'w row_api \<Rightarrow> ('w, 'c) catalog_api \<Rightarrow> ('w, 'c) connection \<Rightarrow> ('w, 'c) transaction_result" where
  "mylite_execution_begin_prepare_transaction api rapi capi db =
     (if api_get_autocommit api (sqlite db) = 0
      then (let (rc, db) = mylite_catalog_synchronize_snapshot api rapi capi db in (rc, db, no_transaction))
      else (let (rc, db) = control_sql api db ''BEGIN''
            in if rc = MYLITE_OK
               then (let (rc, db) = mylite_catalog_synchronize_snapshot api rapi capi db in (rc, db, direct_transaction))
               else (rc, db, no_transaction)))"

section \<open>Open transactions\<close>

text \<open>
  The level a transaction has opened, above the levels \<open>b\<close> that were open before; only a
  savepoint is opened within a user transaction.
\<close>

definition transaction_level :: "statement_transaction \<Rightarrow> string" where
  "transaction_level t = (if kind t = TRANSACTION_SAVEPOINT then ''_mylite_statement'' else '''')"

definition statement_open ::
    "('w \<Rightarrow> transaction_view) \<Rightarrow> transaction_view \<Rightarrow> ('w, 'c) connection \<Rightarrow> statement_transaction \<Rightarrow> bool" where
  "statement_open view b db t \<longleftrightarrow>
     t \<in> {direct_transaction, savepoint_transaction} \<and>
     open_levels (view (sqlite db)) = (transaction_level t, stored_generation b) # open_levels b \<and>
     (t = direct_transaction \<longrightarrow> open_levels b = [] \<and> \<not> user_transaction_active db) \<and>
     (user_transaction_active db \<longrightarrow> open_levels b \<noteq> [])"

text \<open>A completion that failed: the connection is uncertain, and its flags say what SQLite says.\<close>

definition completion_failed ::
    "('w \<Rightarrow> transaction_view) \<Rightarrow> transaction_view \<Rightarrow> statement_transaction \<Rightarrow> ('w, 'c) connection \<Rightarrow> statement_transaction \<Rightarrow> bool" where
  "completion_failed view b t db' t' \<longleftrightarrow>
     transaction_state_uncertain db' \<and>
     (if open_levels (view (sqlite db')) = []
      then t' = no_transaction \<and> \<not> user_transaction_active db' \<and> view (sqlite db') = aborted b
      else t' = t \<and> open_levels (view (sqlite db')) = (transaction_level t, stored_generation b) # open_levels b)"

text \<open>
  What the functions that begin the transaction of a read, a preparation or a plan leave. A level
  begun has the empty name and is above those that were open before. \<open>joined\<close>: no level is begun.
  \<open>user_begun\<close>: the user's transaction is begun, because autocommit is disabled. \<open>own_begun\<close>: a
  transaction of its own is begun; when the begin fails after that, the level is still returned as
  active, for the caller to roll it back.
\<close>

definition level_begun :: "transaction_view \<Rightarrow> transaction_view" where
  "level_begun v = v\<lparr>open_levels := ('''', stored_generation v) # open_levels v\<rparr>"

definition joined ::
    "('w \<Rightarrow> transaction_view) \<Rightarrow> ('w, 'c) connection \<Rightarrow> int \<Rightarrow> ('w, 'c) connection \<Rightarrow> statement_transaction \<Rightarrow> bool" where
  "joined view db rc db' t \<longleftrightarrow>
     t = no_transaction \<and> user_transaction_active db' = user_transaction_active db \<and>
     (if rc = MYLITE_OK then view (sqlite db') = view (sqlite db)
      else view (sqlite db') \<in> {view (sqlite db), aborted (view (sqlite db))})"

definition user_begun ::
    "('w \<Rightarrow> transaction_view) \<Rightarrow> ('w, 'c) connection \<Rightarrow> int \<Rightarrow> ('w, 'c) connection \<Rightarrow> statement_transaction \<Rightarrow> bool" where
  "user_begun view db rc db' t \<longleftrightarrow>
     t = no_transaction \<and>
     (if rc = MYLITE_OK then user_transaction_active db' \<and> view (sqlite db') = level_begun (view (sqlite db))
      else view (sqlite db') = view (sqlite db) \<or>
        user_transaction_active db' \<and> view (sqlite db') = level_begun (view (sqlite db)))"

definition own_begun ::
    "('w \<Rightarrow> transaction_view) \<Rightarrow> ('w, 'c) connection \<Rightarrow> int \<Rightarrow> ('w, 'c) connection \<Rightarrow> statement_transaction \<Rightarrow> bool" where
  "own_begun view db rc db' t \<longleftrightarrow>
     user_transaction_active db' = user_transaction_active db \<and>
     (if rc = MYLITE_OK then t = direct_transaction \<and> view (sqlite db') = level_begun (view (sqlite db))
      else t = no_transaction \<and> view (sqlite db') = view (sqlite db) \<or>
        t = direct_transaction \<and> view (sqlite db') \<in> {view (sqlite db), level_begun (view (sqlite db))})"

text \<open>
  The catalog is brought to the stored generation, here for a connection that has not observed a
  data version yet, unless this was done before in the user's transaction.
\<close>

definition catalog_current ::
    "('w \<Rightarrow> transaction_view) \<Rightarrow> ('w, 'c) connection \<Rightarrow> ('w, 'c) connection \<Rightarrow> bool" where
  "catalog_current view db db' \<longleftrightarrow>
     (\<not> has_observed_data_version (catalog db) \<and> initialized (catalog db) \<and>
       \<not> (user_transaction_active db \<and> catalog_snapshot_synchronized db) \<longrightarrow>
      generation (catalog db') = stored_generation (view (sqlite db')))"

lemma statement_control_meanings [simp]:
  "control_meaning ''SAVEPOINT _mylite_statement'' = Some (Savepoint ''_mylite_statement'')"
  "control_meaning ''RELEASE SAVEPOINT _mylite_statement'' = Some (Release ''_mylite_statement'')"
  "control_meaning ''ROLLBACK TO SAVEPOINT _mylite_statement'' = Some (RollbackTo ''_mylite_statement'')"
  by (simp_all add: control_meaning_def)

lemma transaction_simps [simp]:
  "transaction_active direct_transaction" "transaction_active savepoint_transaction" "\<not> transaction_active no_transaction"
  "kind direct_transaction = TRANSACTION_DIRECT" "kind savepoint_transaction = TRANSACTION_SAVEPOINT"
  "direct_transaction \<noteq> savepoint_transaction" "savepoint_transaction \<noteq> direct_transaction"
  "transaction_level direct_transaction = ''''" "transaction_level savepoint_transaction = ''_mylite_statement''"
  by (simp_all add: direct_transaction_def savepoint_transaction_def no_transaction_def transaction_level_def)

section \<open>Statements of other components\<close>

context sqlite_statements
begin

text \<open>The statement cache leaves the statements of the other components alone.\<close>

lemma remove_other:
  assumes ok: "cache_ok prepared other out db" and i: "i < length (statement_cache db)" and x: "x \<in> other"
  shows "prepared (sqlite (remove_cached_sqlite_statement api db i)) x = prepared (sqlite db) x"
proof -
  obtain y where y: "entry_statement (statement_cache db ! i) = Some y" "y \<notin> other"
    using cache_ok_entry [OF ok i] by metis
  with removed_sqlite [OF i y(1)] x show ?thesis by auto
qed

lemma prune_other:
  "cache_ok prepared other out db \<Longrightarrow> a = api \<Longrightarrow> x \<in> other \<Longrightarrow> prepared (sqlite (prune_loop a db index)) x = prepared (sqlite db) x"
proof (induction a db index rule: prune_loop.induct)
  case (1 a db index)
  show ?case
    by (subst prune_loop.simps) (use 1 in \<open>auto simp: Let_def remove_other intro: remove_unused_ok\<close>)
qed

lemma evict_other:
  assumes "cache_ok prepared other out db" "x \<in> other"
  shows "prepared (sqlite (evict_available_cached_sqlite_statement api db)) x = prepared (sqlite db) x"
  using assms remove_other [OF assms(1)]
  by (auto simp: evict_available_cached_sqlite_statement_def find_Some_iff split: option.splits)

lemma prepare_uncached_other:
  assumes p: "prepare_uncached_sqlite_statement api db sql = (rc, h, db')" and "has_statement sql" "x \<in> dom (prepared (sqlite db))"
  shows "prepared (sqlite db') x = prepared (sqlite db) x" "h \<noteq> Some x"
proof -
  obtain r h1 w where a: "api_prepare api sql (sqlite db) = (r, h1, w)" by (rule prod_cases3)
  have "prepared w x = prepared (sqlite db) x \<and> (r = SQLITE_OK \<longrightarrow> h1 \<noteq> Some x)"
  proof (cases "r = SQLITE_OK")
    case True
    with prepare_ok [of sql "sqlite db" h1 w] a assms(2,3) show ?thesis by auto
  next
    case False
    with prepare_fails [OF a] show ?thesis by simp
  qed
  then show "prepared (sqlite db') x = prepared (sqlite db) x" "h \<noteq> Some x"
    using p a by (auto simp: prepare_uncached_sqlite_statement_def Let_def split: if_splits)
qed

lemma append_other:
  assumes p: "append_cached_sqlite_statement api db sql = (rc, h, db')" and "has_statement sql" "x \<in> dom (prepared (sqlite db))"
  shows "prepared (sqlite db') x = prepared (sqlite db) x"
proof -
  obtain r h1 d where a: "prepare_uncached_sqlite_statement api db sql = (r, h1, d)" by (rule prod_cases3)
  note u = prepare_uncached_other [OF a assms(2,3)]
  have "prepared (snd (api_finalize api h1 (sqlite d))) x = prepared (sqlite d) x" if ok: "r = MYLITE_OK"
  proof -
    obtain y where "h1 = Some y"
      using ok a prepare_ok [OF _ assms(2)]
      by (auto simp: prepare_uncached_sqlite_statement_def mylite_sqlite_status_to_mylite_def Let_def split: if_splits prod.splits)
    with finalize_removes [of y "sqlite d"] u(2) show ?thesis by simp
  qed
  with u(1) p a show ?thesis
    by (auto simp: append_cached_sqlite_statement_def Let_def split: prod.splits if_splits)
qed

lemma prepare_cached_other:
  assumes ok: "cache_ok prepared other out db" and sql: "has_statement sql" and x: "x \<in> other"
    and res: "mylite_execution_prepare_cached_sqlite_statement api db sql = (rc, h, db')"
  shows "prepared (sqlite db') x = prepared (sqlite db) x"
proof -
  define p where "p = prune_stale_cached_sqlite_statements api db"
  have p: "cache_ok prepared other out p" "prepared (sqlite p) x = prepared (sqlite db) x"
    unfolding p_def prune_stale_cached_sqlite_statements_def using prune_ok [OF ok] prune_other [OF ok _ x] by simp_all
  define q where "q = (if length (statement_cache p) \<ge> 64 then evict_available_cached_sqlite_statement api p else p)"
  have q: "cache_ok prepared other out q" "prepared (sqlite q) x = prepared (sqlite db) x"
    unfolding q_def using p evict_ok [OF p(1)] evict_other [OF p(1) x] by simp_all
  from q(1) x have dom: "x \<in> dom (prepared (sqlite q))" by (simp add: cache_ok_def)
  note r = res [unfolded mylite_execution_prepare_cached_sqlite_statement_def Let_def, folded p_def, folded q_def]
  show ?thesis
  proof (cases "find_available_cached_sqlite_statement p sql")
    case None
    with r q(2) append_other [OF _ sql dom] prepare_uncached_other(1) [OF _ sql dom] show ?thesis
      by (auto split: if_splits)
  next
    case (Some i)
    with r p(2) show ?thesis by auto
  qed
qed

lemma finish_cached_other:
  assumes ok: "cache_ok prepared other out db" and y: "y \<in> set out" and x: "x \<in> other"
    and res: "mylite_execution_finish_cached_sqlite_statement api db (Some y) rc = (rc', db')"
  shows "prepared (sqlite db') x = prepared (sqlite db) x"
proof -
  have ne: "y \<noteq> x" using ok x y by (auto simp: cache_ok_def)
  show ?thesis
  proof (cases "find_cached_sqlite_statement_by_handle db (Some y)")
    case None
    with res ne finalize_removes [of y "sqlite db"] show ?thesis
      by (auto simp: mylite_execution_finish_cached_sqlite_statement_def mylite_execution_finalize_sqlite_statement_def
          Let_def split: prod.splits if_splits)
  next
    case (Some i)
    then have i: "i < length (statement_cache db)"
      by (auto simp: find_cached_sqlite_statement_by_handle_def find_Some_iff)
    obtain r1 w1 where r1: "api_reset api (Some y) (sqlite db) = (r1, w1)" by (rule prod.exhaust)
    obtain r2 w2 where r2: "(if r1 = SQLITE_OK then api_clear_bindings api (Some y) w1 else (r1, w1)) = (r2, w2)" by (rule prod.exhaust)
    have w2: "prepared w2 = prepared (sqlite db)"
      using reset_keeps [of "Some y" "sqlite db"] clear_bindings_keeps [of "Some y" w1] r1 r2 by (auto split: if_splits)
    have okw: "cache_ok prepared other out (db\<lparr>sqlite := w2\<rparr>)" using ok w2 by (simp add: cache_ok_def)
    note r = res [unfolded mylite_execution_finish_cached_sqlite_statement_def Some option.case Let_def r1 prod.case r2]
    show ?thesis using r remove_other [OF ok i x] remove_other [OF okw _ x, of i] i w2 by (auto split: if_splits)
  qed
qed

lemma execute_control_other:
  assumes ok: "cache_ok prepared other out db" and sql: "has_statement sql" and x: "x \<in> other"
    and res: "mylite_execution_execute_cached_sqlite_control_sql api db sql = (rc, db')"
  shows "prepared (sqlite db') x = prepared (sqlite db) x"
proof -
  obtain r1 h d where p: "mylite_execution_prepare_cached_sqlite_statement api db sql = (r1, h, d)" by (rule prod_cases3)
  note prep = prepare_cached_ok [OF ok sql p] and po = prepare_cached_other [OF ok sql x p]
  show ?thesis
  proof (cases "r1 = MYLITE_OK")
    case False
    with prep p res po show ?thesis
      by (auto simp: mylite_execution_execute_cached_sqlite_control_sql_def mylite_execution_finish_cached_sqlite_statement_def)
  next
    case True
    with prep obtain y where y: "h = Some y" "cache_ok prepared other (y # out) d" by auto
    obtain rs w where st: "api_step api (Some y) (sqlite d) = (rs, w)" by (rule prod.exhaust)
    have w: "prepared w = prepared (sqlite d)" using step_keeps [of "Some y" "sqlite d"] st by simp
    have okw: "cache_ok prepared other (y # out) (d\<lparr>sqlite := w\<rparr>)" using y(2) w by (simp add: cache_ok_def)
    have "mylite_execution_finish_cached_sqlite_statement api (d\<lparr>sqlite := w\<rparr>) (Some y)
        (if rs = SQLITE_DONE then MYLITE_OK else mylite_sqlite_status_to_mylite rs) = (rc, db')"
      using res p True y(1) st by (simp add: mylite_execution_execute_cached_sqlite_control_sql_def)
    from finish_cached_other [OF okw _ x this] w po show ?thesis by simp
  qed
qed

end

section \<open>Control statements on the connection\<close>

text \<open>
  Every statement that exists belongs to the catalog's cache, to the statement cache or one of its
  clients, or to the rest.
\<close>

definition connection_ok ::
    "('w \<Rightarrow> nat \<rightharpoonup> string) \<Rightarrow> nat set \<Rightarrow> nat list \<Rightarrow> ('w, 'c) connection \<Rightarrow> bool" where
  "connection_ok prepared rest out db \<longleftrightarrow>
     cache_ok prepared (rest \<union> owned db) out db \<and> catalog_statements_ok prepared db"

text \<open>
  A control statement that ran to its end leaves nothing to be reported when it is reset or
  finalized.
\<close>

locale statement_transactions = catalog_store api prepared has_statement view rapi bound capi
  for api :: "'w statement_api" and prepared :: "'w \<Rightarrow> nat \<rightharpoonup> string" and has_statement :: "string \<Rightarrow> bool"
    and view :: "'w \<Rightarrow> transaction_view" and rapi :: "'w row_api" and bound :: "'w \<Rightarrow> nat \<Rightarrow> nat \<Rightarrow> u64 option"
    and capi :: "('w, 'c) catalog_api" +
  assumes reset_done: "prepared w x = Some sql \<Longrightarrow> control_meaning sql = Some c \<Longrightarrow>
      api_step api (Some x) w = (SQLITE_DONE, w') \<Longrightarrow> fst (api_reset api (Some x) w') = SQLITE_OK"
    and clear_done: "fst (api_clear_bindings api h w) = SQLITE_OK"
    and finalize_done: "prepared w x = Some sql \<Longrightarrow> control_meaning sql = Some c \<Longrightarrow>
      api_step api (Some x) w = (SQLITE_DONE, w') \<Longrightarrow> fst (api_finalize api (Some x) w') = SQLITE_OK"
begin

lemma connection_kept:
  assumes ok: "connection_ok prepared rest out db" and k: "kept db db'"
  shows "connection_ok prepared rest out db'"
proof -
  have c: "cache_ok prepared (rest \<union> owned db) out db" using ok by (simp add: connection_ok_def)
  have cache: "statement_cache db' = statement_cache db" "catalog_statements_ok prepared db'" "grew prepared {} db db'"
    using k by (simp_all add: kept_def)
  then have g: "prepared (sqlite db) \<subseteq>\<^sub>m prepared (sqlite db')"
    "dom (prepared (sqlite db')) = dom (prepared (sqlite db)) \<union> owned db'" "owned db \<subseteq> owned db'"
    "(owned db' - owned db) \<inter> dom (prepared (sqlite db)) = {}" by (simp_all add: grew_def)
  have dom: "dom (prepared (sqlite db)) = rest \<union> owned db \<union> set out \<union> (the \<circ> entry_statement) ` set (statement_cache db)"
    using c by (simp add: cache_ok_def)
  have "cache_ok prepared (rest \<union> owned db') out db'"
  proof (rule cache_okI)
    show "\<exists>x. entry_statement e = Some x \<and> prepared (sqlite db') x = Some (entry_sql e) \<and> x \<notin> rest \<union> owned db' \<and> (in_use e \<longleftrightarrow> x \<in> set out)"
      if "e \<in> set (statement_cache db')" for e
    proof -
      from that c cache(1) obtain x where x: "entry_statement e = Some x" "prepared (sqlite db) x = Some (entry_sql e)"
        "x \<notin> rest \<union> owned db" "in_use e \<longleftrightarrow> x \<in> set out" unfolding cache_ok_def by auto
      have "prepared (sqlite db') x = Some (entry_sql e)" using g(1) x(2) by (auto simp: map_le_def dom_def)
      moreover have "x \<notin> owned db'" using g(4) x(2,3) by blast
      ultimately show ?thesis using x by blast
    qed
    show "set out \<inter> (rest \<union> owned db') = {}"
      using c g(4) dom unfolding cache_ok_def by blast
    show "dom (prepared (sqlite db')) = rest \<union> owned db' \<union> set out \<union> (the \<circ> entry_statement) ` set (statement_cache db')"
      unfolding g(2) dom cache(1) using g(3) by blast
  qed (use c cache(1) in \<open>simp_all add: cache_ok_def\<close>)
  with cache(2) show ?thesis by (simp add: connection_ok_def)
qed

lemma connection_fields:
  assumes "connection_ok prepared rest out a" "sqlite b = sqlite a" "catalog_statements b = catalog_statements a"
    "statement_cache b = statement_cache a"
  shows "connection_ok prepared rest out b"
  using assms by (simp add: connection_ok_def cache_ok_def catalog_statements_ok_def owned_def)

text \<open>The fields of the session that control statements keep.\<close>

definition same_state :: "('w, 'c) connection \<Rightarrow> ('w, 'c) connection \<Rightarrow> bool" where
  "same_state db db' \<longleftrightarrow> user_transaction_active db' = user_transaction_active db \<and>
     transaction_state_uncertain db' = transaction_state_uncertain db \<and>
     writer_stable_planning_transaction_active db' = writer_stable_planning_transaction_active db \<and>
     autocommit_enabled db' = autocommit_enabled db"

lemma control_fields:
  assumes "mylite_execution_execute_cached_sqlite_control_sql api db sql = (rc, db')"
  shows "same_state db db'" "catalog_statements db' = catalog_statements db" "catalog_generation db' = catalog_generation db"
    "db_diagnostics db' = db_diagnostics db"
  using execute_control_session [OF assms] by (auto simp: same_session_def same_state_def)

lemma execute_control_connection:
  fixes db :: "('w, 'c) connection"
  assumes ok: "connection_ok prepared rest out db" and c: "control_meaning sql = Some c"
    and res: "mylite_execution_execute_cached_sqlite_control_sql api db sql = (rc, db')"
  shows "connection_ok prepared rest out db'"
    "rc = MYLITE_OK \<Longrightarrow> control_result c (view (sqlite db)) = Some (view (sqlite db'))"
    "rc \<noteq> MYLITE_OK \<Longrightarrow> view (sqlite db') = view (sqlite db) \<or> view (sqlite db') = aborted (view (sqlite db))"
proof -
  have cok: "cache_ok prepared (rest \<union> owned db) out db" "catalog_statements_ok prepared db"
    using ok by (simp_all add: connection_ok_def)
  note v = execute_control_view [OF cok(1) c res] and f = control_fields [OF res]
  have o: "owned db' = owned db" using f(2) by (simp add: owned_def)
  have "prepared (sqlite db') x = prepared (sqlite db) x" if "x \<in> owned db" for x
    using execute_control_other [OF cok(1) control_has_statement [OF c] _ res] that by simp
  moreover have "the (catalog_handle e) \<in> owned db" if "e \<in> set (catalog_statements db)" for e
    using that by (auto simp: owned_def)
  ultimately have "catalog_statements_ok prepared db'"
    using cok(2) f(2) unfolding catalog_statements_ok_def by fastforce
  with v(3) o show "connection_ok prepared rest out db'" by (simp add: connection_ok_def)
  show "rc = MYLITE_OK \<Longrightarrow> control_result c (view (sqlite db)) = Some (view (sqlite db'))" by (rule v(1))
  obtain r1 h d where p: "mylite_execution_prepare_cached_sqlite_statement api db sql = (r1, h, d)" by (rule prod_cases3)
  note prep = prepare_cached_ok [OF cok(1) control_has_statement [OF c] p] and pv = prepare_cached_view [OF p]
  show "view (sqlite db') = view (sqlite db) \<or> view (sqlite db') = aborted (view (sqlite db))" if rc: "rc \<noteq> MYLITE_OK"
  proof (cases "r1 = MYLITE_OK")
    case False
    with res p prep pv show ?thesis
      by (auto simp: mylite_execution_execute_cached_sqlite_control_sql_def mylite_execution_finish_cached_sqlite_statement_def)
  next
    case True
    with prep obtain x where x: "h = Some x" "prepared (sqlite d) x = Some sql" by auto
    obtain rs w where st: "api_step api (Some x) (sqlite d) = (rs, w)" by (rule prod.exhaust)
    have fin: "mylite_execution_finish_cached_sqlite_statement api (d\<lparr>sqlite := w\<rparr>) (Some x)
        (if rs = SQLITE_DONE then MYLITE_OK else mylite_sqlite_status_to_mylite rs) = (rc, db')"
      using res p True x(1) st by (simp add: mylite_execution_execute_cached_sqlite_control_sql_def)
    have view': "view (sqlite db') = view w" using finish_cached_view [OF fin] by simp
    obtain r1 w1 where r1: "api_reset api (Some x) w = (r1, w1)" by (rule prod.exhaust)
    obtain r2 w2 where r2: "api_clear_bindings api (Some x) w1 = (r2, w2)" by (rule prod.exhaust)
    have "rs \<noteq> SQLITE_DONE"
    proof
      assume "rs = SQLITE_DONE"
      with reset_done [OF x(2) c] finalize_done [OF x(2) c] clear_done [of "Some x" w1] st fin r1 r2 have "rc = MYLITE_OK"
        by (auto simp: mylite_execution_finish_cached_sqlite_statement_def mylite_execution_finalize_sqlite_statement_def
            mylite_sqlite_status_to_mylite_def Let_def split: option.splits prod.splits if_splits)
      with rc show False by simp
    qed
    with step_fails [OF x(2) c st] view' pv show ?thesis by auto
  qed
qed

lemma normalize_fields:
  assumes "mylite_execution_normalize_sqlite_control_rc db rc = (rc', db')"
  shows "same_state db db'" "sqlite db' = sqlite db" "catalog_statements db' = catalog_statements db"
    "statement_cache db' = statement_cache db" "rc' = MYLITE_OK \<longleftrightarrow> rc = MYLITE_OK"
    "catalog_generation db' = catalog_generation db"
  using assms by (auto simp: mylite_execution_normalize_sqlite_control_rc_def same_state_def
      mylite_execution_diagnostics_set_nomem_error_def mylite_execution_diagnostics_set_physical_sqlite_error_def split: if_splits)

lemma control_sql_connection:
  fixes db :: "('w, 'c) connection"
  assumes ok: "connection_ok prepared rest out db" and c: "control_meaning sql = Some c"
    and res: "control_sql api db sql = (rc, db')"
  shows "connection_ok prepared rest out db'" "same_state db db'"
    "rc = MYLITE_OK \<Longrightarrow> control_result c (view (sqlite db)) = Some (view (sqlite db'))"
    "rc \<noteq> MYLITE_OK \<Longrightarrow> view (sqlite db') = view (sqlite db) \<or> view (sqlite db') = aborted (view (sqlite db))"
proof -
  obtain r d where e: "mylite_execution_execute_cached_sqlite_control_sql api db sql = (r, d)" by (rule prod.exhaust)
  have n: "mylite_execution_normalize_sqlite_control_rc d r = (rc, db')" using res e by (simp add: control_sql_def)
  note x = execute_control_connection [OF ok c e] and f = control_fields [OF e] and m = normalize_fields [OF n]
  show "connection_ok prepared rest out db'" by (rule connection_fields [OF x(1) m(2-4)])
  show "same_state db db'" using f(1) m(1) by (simp add: same_state_def)
  show "rc = MYLITE_OK \<Longrightarrow> control_result c (view (sqlite db)) = Some (view (sqlite db'))"
    "rc \<noteq> MYLITE_OK \<Longrightarrow> view (sqlite db') = view (sqlite db) \<or> view (sqlite db') = aborted (view (sqlite db))"
    using x(2,3) m(2,5) by auto
qed

lemma control_sql_catalog:
  assumes "control_sql api db sql = (rc, db')"
  shows "catalog db' = catalog db" "catalog_snapshot_synchronized db' = catalog_snapshot_synchronized db"
proof -
  obtain r d where e: "mylite_execution_execute_cached_sqlite_control_sql api db sql = (r, d)" by (rule prod.exhaust)
  have "catalog d = catalog db" "catalog_snapshot_synchronized d = catalog_snapshot_synchronized db"
    using execute_control_session [OF e] by (auto simp: same_session_def)
  with assms e show "catalog db' = catalog db" "catalog_snapshot_synchronized db' = catalog_snapshot_synchronized db"
    by (auto simp: control_sql_def mylite_execution_normalize_sqlite_control_rc_def
        mylite_execution_diagnostics_set_nomem_error_def mylite_execution_diagnostics_set_physical_sqlite_error_def split: if_splits)
qed

text \<open>The emergency path: SQLite's transaction is gone and the flags with it, or it is still open.\<close>

lemma emergency_rollback_connection:
  fixes db :: "('w, 'c) connection"
  assumes ok: "connection_ok prepared rest out db" and res: "emergency_rollback api db t = (erc, db', t')"
  shows "connection_ok prepared rest out db'"
    "if open_levels (view (sqlite db')) = []
     then t' = no_transaction \<and> \<not> user_transaction_active db' \<and> view (sqlite db') = aborted (view (sqlite db))
     else t' = t \<and> view (sqlite db') = view (sqlite db)"
proof -
  obtain r d where e: "(if api_get_autocommit api (sqlite db) = 0
      then mylite_execution_execute_cached_sqlite_control_sql api db ''ROLLBACK'' else (MYLITE_OK, db)) = (r, d)"
    by (rule prod.exhaust)
  have d: "connection_ok prepared rest out d \<and> (view (sqlite d) = view (sqlite db) \<or> view (sqlite d) = aborted (view (sqlite db)))"
  proof (cases "api_get_autocommit api (sqlite db) = 0")
    case True
    with e have c: "mylite_execution_execute_cached_sqlite_control_sql api db ''ROLLBACK'' = (r, d)" by simp
    note x = execute_control_connection [OF ok control_meanings(4) c]
    show ?thesis using x rollback_aborted by blast
  next
    case False
    with e ok show ?thesis by simp
  qed
  have fin: "aborted (view (sqlite db)) = view (sqlite db)" if "open_levels (view (sqlite db)) = []"
    using that by (simp add: aborted_def)
  note auto = autocommit_view [of "sqlite d"]
  have eq: "db' = (if api_get_autocommit api (sqlite d) \<noteq> 0
      then d\<lparr>user_transaction_active := False, active_transaction_read_only := False, active_transaction_isolation := REPEATABLE_READ\<rparr>
      else d)" "t' = (if api_get_autocommit api (sqlite d) \<noteq> 0 then no_transaction else t)"
    using res e by (auto simp: emergency_rollback_def)
  then have same: "sqlite db' = sqlite d" "catalog_statements db' = catalog_statements d" "statement_cache db' = statement_cache d" by auto
  from connection_fields [OF conjunct1 [OF d] same] show "connection_ok prepared rest out db'" .
  show "if open_levels (view (sqlite db')) = []
     then t' = no_transaction \<and> \<not> user_transaction_active db' \<and> view (sqlite db') = aborted (view (sqlite db))
     else t' = t \<and> view (sqlite db') = view (sqlite db)"
    using d auto eq fin by auto
qed

lemma mark_fields:
  "sqlite (mark_transaction_state_uncertain db p k o' f e) = sqlite db"
  "catalog_statements (mark_transaction_state_uncertain db p k o' f e) = catalog_statements db"
  "statement_cache (mark_transaction_state_uncertain db p k o' f e) = statement_cache db"
  "user_transaction_active (mark_transaction_state_uncertain db p k o' f e) = user_transaction_active db"
  "transaction_state_uncertain (mark_transaction_state_uncertain db p k o' f e)"
  by (simp_all add: mark_transaction_state_uncertain_def Let_def)

lemma invalidate_session [simp]:
  "user_transaction_active (mylite_catalog_invalidate_descriptor_cache capi db) = user_transaction_active db"
  "writer_stable_planning_transaction_active (mylite_catalog_invalidate_descriptor_cache capi db) = writer_stable_planning_transaction_active db"
  "autocommit_enabled (mylite_catalog_invalidate_descriptor_cache capi db) = autocommit_enabled db"
  by (simp_all add: mylite_catalog_invalidate_descriptor_cache_def)

lemma open_within:
  assumes "open_levels v = (n, stored_generation b) # open_levels b"
  shows "within n b v"
  unfolding within_def using assms by (intro disjI1 exI [of _ "stored_generation v"]) simp

lemma within_levels: "within n b v \<Longrightarrow> open_levels v \<noteq> [] \<Longrightarrow> open_levels v = (n, stored_generation b) # open_levels b"
  by (auto simp: within_def)

lemma failed_completion:
  fixes db :: "('w, 'c) connection"
  assumes ok: "connection_ok prepared rest out db" and w: "within (transaction_level t) b (view (sqlite db))"
    and e: "emergency_rollback api db t = (erc, d, t')"
    and db': "sqlite db' = sqlite d" "catalog_statements db' = catalog_statements d" "statement_cache db' = statement_cache d"
      "user_transaction_active db' = user_transaction_active d" "transaction_state_uncertain db'"
  shows "connection_ok prepared rest out db'" "completion_failed view b t db' t'"
proof -
  note x = emergency_rollback_connection [OF ok e]
  show "connection_ok prepared rest out db'" by (rule connection_fields [OF x(1) db'(1-3)])
  show "completion_failed view b t db' t'"
    using x(2) within_aborted [OF w] within_levels [OF w] db' by (auto simp: completion_failed_def split: if_splits)
qed

lemma commit_statement_outcome:
  fixes db :: "('w, 'c) connection"
  assumes ok: "connection_ok prepared rest out db" and opn: "statement_open view b db t"
    and res: "mylite_execution_commit_statement_transaction api capi db t = (rc, db', t')"
  shows "connection_ok prepared rest out db'"
    "if rc = MYLITE_OK then view (sqlite db') = b\<lparr>stored_generation := stored_generation (view (sqlite db))\<rparr> \<and>
       t' = no_transaction \<and> user_transaction_active db' = user_transaction_active db
     else completion_failed view b t db' t'"
proof -
  let ?sp = "t = savepoint_transaction" and ?v = "view (sqlite db)"
  have t: "transaction_active t" "kind t = TRANSACTION_SAVEPOINT \<longleftrightarrow> ?sp" using opn by (auto simp: statement_open_def)
  let ?sql = "if ?sp then ''RELEASE SAVEPOINT _mylite_statement'' else ''COMMIT''"
  let ?op = "if ?sp then ''RELEASE SAVEPOINT'' else ''COMMIT''"
  have c: "control_meaning ?sql = Some (if ?sp then Release ''_mylite_statement'' else Commit)" by simp
  obtain r d where e: "control_sql api db ?sql = (r, d)" by (rule prod.exhaust)
  note x = control_sql_connection [OF ok c e]
  obtain erc d2 t2 where em: "emergency_rollback api d t = (erc, d2, t2)" by (rule prod_cases3)
  have w: "within (transaction_level t) b ?v" using opn open_within by (simp add: statement_open_def)
  have r: "if r = MYLITE_OK then rc = MYLITE_OK \<and> db' = d \<and> t' = no_transaction
    else rc = r \<and> t' = t2 \<and> db' = mark_transaction_state_uncertain (mylite_catalog_invalidate_descriptor_cache capi d2)
      (diagnostic_text [api_errmsg api (sqlite d)]) ''completion'' ?op (diagnostic_text [api_errmsg api (sqlite d)]) erc"
    using res t e em by (auto simp: mylite_execution_commit_statement_transaction_def Let_def split: if_splits)
  have "connection_ok prepared rest out db' \<and>
    (if rc = MYLITE_OK then view (sqlite db') = b\<lparr>stored_generation := stored_generation ?v\<rparr> \<and>
       t' = no_transaction \<and> user_transaction_active db' = user_transaction_active db
     else completion_failed view b t db' t')"
  proof (cases "r = MYLITE_OK")
    case True
    from x(3) [OF this] have "control_result (if ?sp then Release ''_mylite_statement'' else Commit) ?v = Some (view (sqlite d))" .
    then have "view (sqlite d) = b\<lparr>stored_generation := stored_generation ?v\<rparr>"
      using opn by (cases b; cases ?v) (auto simp: statement_open_def split: if_splits)
    with True r x show ?thesis by (simp add: same_state_def)
  next
    case False
    with x(4) w within_abort have w': "within (transaction_level t) b (view (sqlite d))" by auto
    from False r have eq: "rc \<noteq> MYLITE_OK" "t' = t2" "db' = mark_transaction_state_uncertain (mylite_catalog_invalidate_descriptor_cache capi d2)
      (diagnostic_text [api_errmsg api (sqlite d)]) ''completion'' ?op (diagnostic_text [api_errmsg api (sqlite d)]) erc" by auto
    from failed_completion [OF x(1) w' em, of db'] eq show ?thesis by (simp add: mark_fields)
  qed
  then show "connection_ok prepared rest out db'"
    "if rc = MYLITE_OK then view (sqlite db') = b\<lparr>stored_generation := stored_generation ?v\<rparr> \<and>
       t' = no_transaction \<and> user_transaction_active db' = user_transaction_active db
     else completion_failed view b t db' t'" by auto
qed

text \<open>The clean-up of a rollback, before its result is looked at.\<close>

lemma cleanup_connection:
  fixes db :: "('w, 'c) connection"
  assumes ok: "connection_ok prepared rest out db" and opn: "within (transaction_level t) b (view (sqlite db))"
    and t: "t = direct_transaction \<and> open_levels b = [] \<or> t = savepoint_transaction"
    and res: "(if kind t = TRANSACTION_SAVEPOINT
       then (case mylite_execution_execute_cached_sqlite_control_sql api db ''ROLLBACK TO SAVEPOINT _mylite_statement'' of
         (rc, db) \<Rightarrow> if rc = MYLITE_OK
            then (case mylite_execution_execute_cached_sqlite_control_sql api db ''RELEASE SAVEPOINT _mylite_statement'' of
              (rc, db) \<Rightarrow> (''RELEASE SAVEPOINT'', rc, db))
            else (''ROLLBACK TO SAVEPOINT'', rc, db))
       else (case mylite_execution_execute_cached_sqlite_control_sql api db ''ROLLBACK'' of
         (rc, db) \<Rightarrow> (''ROLLBACK'', rc, db))) = (op, rc, db')"
  shows "connection_ok prepared rest out db'" "same_state db db'"
    "rc = MYLITE_OK \<Longrightarrow> view (sqlite db') = b \<or> view (sqlite db') = aborted b \<and> open_levels b = []"
    "rc \<noteq> MYLITE_OK \<Longrightarrow> within (transaction_level t) b (view (sqlite db'))"
proof -
  have "connection_ok prepared rest out db' \<and> same_state db db' \<and>
    (rc = MYLITE_OK \<longrightarrow> view (sqlite db') = b \<or> view (sqlite db') = aborted b \<and> open_levels b = []) \<and>
    (rc \<noteq> MYLITE_OK \<longrightarrow> within (transaction_level t) b (view (sqlite db')))"
  proof (cases "t = savepoint_transaction")
    case True
    obtain r1 d1 where e1: "mylite_execution_execute_cached_sqlite_control_sql api db ''ROLLBACK TO SAVEPOINT _mylite_statement'' = (r1, d1)"
      by (rule prod.exhaust)
    note x1 = execute_control_connection [OF ok statement_control_meanings(3) e1] and f1 = control_fields [OF e1]
    show ?thesis
    proof (cases "r1 = MYLITE_OK")
      case False
      with res True e1 have "rc = r1" "db' = d1" by auto
      with False x1 f1 opn within_abort show ?thesis by auto
    next
      case r1: True
      obtain r2 d2 where e2: "mylite_execution_execute_cached_sqlite_control_sql api d1 ''RELEASE SAVEPOINT _mylite_statement'' = (r2, d2)"
        by (rule prod.exhaust)
      note x2 = execute_control_connection [OF x1(1) statement_control_meanings(2) e2] and f2 = control_fields [OF e2]
      have eq: "rc = r2" "db' = d2" using res True e1 e2 r1 by auto
      have v1: "view (sqlite d1) = opened ''_mylite_statement'' b"
      proof (cases "open_levels (view (sqlite db)) = []")
        case True
        with x1(2) [OF r1] show ?thesis by simp
      next
        case False
        with within_levels [OF opn] \<open>t = savepoint_transaction\<close> x1(2) [OF r1] show ?thesis
          by (cases b; cases "view (sqlite db)") (auto simp: opened_def)
      qed
      have "within ''_mylite_statement'' b (view (sqlite d1))" unfolding v1 by (rule within_opened)
      with x2 v1 eq f1 f2 True within_abort show ?thesis by (auto simp: opened_def same_state_def)
    qed
  next
    case False
    with t have d: "t = direct_transaction" "open_levels b = []" by auto
    obtain r d where e: "mylite_execution_execute_cached_sqlite_control_sql api db ''ROLLBACK'' = (r, d)" by (rule prod.exhaust)
    note x = execute_control_connection [OF ok control_meanings(4) e] and f = control_fields [OF e]
    have eq: "rc = r" "db' = d" using res d e by auto
    have "within '''' b (aborted b)" by (simp add: within_def)
    with x(1,3) eq f(1) d opn within_aborted [OF opn] rollback_aborted [OF x(2)] show ?thesis by auto
  qed
  then show "connection_ok prepared rest out db'" "same_state db db'"
    "rc = MYLITE_OK \<Longrightarrow> view (sqlite db') = b \<or> view (sqlite db') = aborted b \<and> open_levels b = []"
    "rc \<noteq> MYLITE_OK \<Longrightarrow> within (transaction_level t) b (view (sqlite db'))" by auto
qed

lemma rollback_statement_outcome:
  fixes db :: "('w, 'c) connection"
  assumes ok: "connection_ok prepared rest out db" and w: "within (transaction_level t) b (view (sqlite db))"
    and t: "t = direct_transaction \<and> open_levels b = [] \<or> t = savepoint_transaction"
    and res: "mylite_execution_rollback_statement_transaction api capi db t rc0 = (rc, db', t')"
  shows "connection_ok prepared rest out db'"
    "(view (sqlite db') = b \<and> t' = no_transaction \<and> rc = rc0 \<and> user_transaction_active db' = user_transaction_active db) \<or>
     (completion_failed view b t db' t' \<and> rc \<noteq> MYLITE_OK \<and> (rc0 \<noteq> MYLITE_OK \<longrightarrow> rc = rc0))"
proof -
  have ta: "transaction_active t" using t by auto
  obtain op rc1 d where c: "(if kind t = TRANSACTION_SAVEPOINT
       then (case mylite_execution_execute_cached_sqlite_control_sql api db ''ROLLBACK TO SAVEPOINT _mylite_statement'' of
         (rc, db) \<Rightarrow> if rc = MYLITE_OK
            then (case mylite_execution_execute_cached_sqlite_control_sql api db ''RELEASE SAVEPOINT _mylite_statement'' of
              (rc, db) \<Rightarrow> (''RELEASE SAVEPOINT'', rc, db))
            else (''ROLLBACK TO SAVEPOINT'', rc, db))
       else (case mylite_execution_execute_cached_sqlite_control_sql api db ''ROLLBACK'' of
         (rc, db) \<Rightarrow> (''ROLLBACK'', rc, db))) = (op, rc1, d)" by (rule prod_cases3)
  note x = cleanup_connection [OF ok w t c]
  let ?d = "mylite_catalog_invalidate_descriptor_cache capi d"
  have okd: "connection_ok prepared rest out ?d" by (rule connection_fields [OF x(1)]) simp_all
  obtain erc d2 t2 where em: "emergency_rollback api ?d t = (erc, d2, t2)" by (rule prod_cases3)
  have r: "if rc1 = MYLITE_OK then rc = rc0 \<and> db' = ?d \<and> t' = no_transaction
    else rc = (if rc0 = MYLITE_OK then rc1 else rc0) \<and> t' = t2 \<and>
      db' = mark_transaction_state_uncertain d2 (diagnostic_text [api_errmsg api (sqlite db)]) ''cleanup'' op
        (diagnostic_text [api_errmsg api (sqlite ?d)]) erc"
    using res [unfolded mylite_execution_rollback_statement_transaction_def Let_def c prod.case em] ta by (auto split: if_splits)
  have "connection_ok prepared rest out db' \<and>
    ((view (sqlite db') = b \<and> t' = no_transaction \<and> rc = rc0 \<and> user_transaction_active db' = user_transaction_active db) \<or>
     (completion_failed view b t db' t' \<and> rc \<noteq> MYLITE_OK \<and> (rc0 \<noteq> MYLITE_OK \<longrightarrow> rc = rc0)))"
  proof (cases "rc1 = MYLITE_OK")
    case True
    moreover have "view (sqlite d) = b" using x(3) [OF True] by (auto simp: aborted_def)
    ultimately show ?thesis using r okd x(2) by (auto simp: same_state_def)
  next
    case False
    from x(4) [OF False] have w': "within (transaction_level t) b (view (sqlite ?d))" by simp
    from failed_completion [OF okd w' em, of db'] r False show ?thesis by (auto simp: mark_fields)
  qed
  then show "connection_ok prepared rest out db'"
    "(view (sqlite db') = b \<and> t' = no_transaction \<and> rc = rc0 \<and> user_transaction_active db' = user_transaction_active db) \<or>
     (completion_failed view b t db' t' \<and> rc \<noteq> MYLITE_OK \<and> (rc0 \<noteq> MYLITE_OK \<longrightarrow> rc = rc0))" by auto
qed

text \<open>Opening a transaction of its own, and the catalog's snapshot with it.\<close>

lemma open_direct:
  fixes db :: "('w, 'c) connection"
  assumes ok: "connection_ok prepared rest out db" and sql: "control_meaning sql = Some Begin"
    and b: "control_sql api db sql = (MYLITE_OK, d)"
    and f: "sqlite d0 = sqlite d" "catalog_statements d0 = catalog_statements d" "statement_cache d0 = statement_cache d"
      "user_transaction_active d0 = user_transaction_active d"
    and user: "\<not> user_transaction_active db"
    and s: "mylite_catalog_synchronize_snapshot api rapi capi d0 = (rc, db')"
  shows "connection_ok prepared rest out db'" "open_levels (view (sqlite db)) = []"
    "rc = MYLITE_OK \<Longrightarrow> statement_open view (view (sqlite db)) db' direct_transaction \<and>
       stored_generation (view (sqlite db')) = stored_generation (view (sqlite db))"
    "rc \<noteq> MYLITE_OK \<Longrightarrow> within '''' (view (sqlite db)) (view (sqlite db'))"
    "user_transaction_active db' = user_transaction_active db"
    "view (sqlite db') = level_begun (view (sqlite db)) \<or> rc \<noteq> MYLITE_OK \<and> view (sqlite db') = view (sqlite db)"
proof -
  note x = control_sql_connection [OF ok sql b]
  from x(3) [OF refl] have v: "open_levels (view (sqlite db)) = []" "view (sqlite d) = opened '''' (view (sqlite db))"
    by (auto simp: opened_def split: if_splits)
  have ok0: "connection_ok prepared rest out d0" by (rule connection_fields [OF x(1) f(1-3)])
  then have "catalog_statements_ok prepared d0" by (simp add: connection_ok_def)
  note y = synchronize_view [OF this s]
  show "connection_ok prepared rest out db'" by (rule connection_kept [OF ok0 y(1)])
  show "open_levels (view (sqlite db)) = []" by (rule v(1))
  show "user_transaction_active db' = user_transaction_active db" using y(3) f(4) x(2) by (simp add: same_state_def)
  with user v y(2) f(1) show "rc = MYLITE_OK \<Longrightarrow> statement_open view (view (sqlite db)) db' direct_transaction \<and>
       stored_generation (view (sqlite db')) = stored_generation (view (sqlite db))"
    by (simp add: statement_open_def calm_def)
  have "within '''' (view (sqlite db)) (view (sqlite d0))" unfolding f(1) v(2) by (rule within_opened)
  from within_calm [OF this y(2)] show "rc \<noteq> MYLITE_OK \<Longrightarrow> within '''' (view (sqlite db)) (view (sqlite db'))" .
  show "view (sqlite db') = level_begun (view (sqlite db)) \<or> rc \<noteq> MYLITE_OK \<and> view (sqlite db') = view (sqlite db)"
    using y(2) f(1) v by (auto simp: calm_def level_begun_def opened_def aborted_def)
qed

text \<open>The transaction a session with disabled autocommit opens.\<close>

lemma autocommit_disabled_outcome:
  fixes db :: "('w, 'c) connection"
  assumes ok: "connection_ok prepared rest out db" and user: "\<not> user_transaction_active db" "\<not> autocommit_enabled db"
    and res: "mylite_execution_begin_autocommit_disabled_transaction api db = (rc, db')"
  shows "connection_ok prepared rest out db'"
    "rc = MYLITE_OK \<Longrightarrow> user_transaction_active db' \<and> open_levels (view (sqlite db)) = [] \<and>
       view (sqlite db') = opened '''' (view (sqlite db))"
    "rc \<noteq> MYLITE_OK \<Longrightarrow> \<not> user_transaction_active db' \<and> view (sqlite db') \<in> {view (sqlite db), aborted (view (sqlite db))}"
proof -
  let ?ro = "if has_next_transaction_access_mode db then next_transaction_access_mode db = READ_ONLY
    else session_transaction_access_mode db = READ_ONLY"
  let ?sql = "if ?ro then ''BEGIN'' else ''BEGIN IMMEDIATE''"
  have c: "control_meaning ?sql = Some Begin" by simp
  obtain r d where b: "control_sql api db ?sql = (r, d)" by (rule prod.exhaust)
  note x = control_sql_connection [OF ok c b]
  have eq: "rc = r" "sqlite db' = sqlite d" "catalog_statements db' = catalog_statements d" "statement_cache db' = statement_cache d"
    "user_transaction_active db' = (r = MYLITE_OK \<or> user_transaction_active d)"
    using res user b by (auto simp: mylite_execution_begin_autocommit_disabled_transaction_def Let_def split: if_splits)
  show "connection_ok prepared rest out db'" by (rule connection_fields [OF x(1) eq(2-4)])
  show "rc = MYLITE_OK \<Longrightarrow> user_transaction_active db' \<and> open_levels (view (sqlite db)) = [] \<and>
       view (sqlite db') = opened '''' (view (sqlite db))"
    using x(3) eq by (auto simp: opened_def split: if_splits)
  show "rc \<noteq> MYLITE_OK \<Longrightarrow> \<not> user_transaction_active db' \<and> view (sqlite db') \<in> {view (sqlite db), aborted (view (sqlite db))}"
    using x(2,4) eq user(1) by (auto simp: same_state_def)
qed

text \<open>Opening the savepoint of a statement.\<close>

lemma open_savepoint:
  fixes db :: "('w, 'c) connection"
  assumes ok: "connection_ok prepared rest out db" and user: "user_transaction_active db \<longrightarrow> open_levels (view (sqlite db)) \<noteq> []"
    and res: "control_sql api db ''SAVEPOINT _mylite_statement'' = (rc, db')"
  shows "connection_ok prepared rest out db'"
    "rc = MYLITE_OK \<Longrightarrow> statement_open view (view (sqlite db)) db' savepoint_transaction \<and>
       stored_generation (view (sqlite db')) = stored_generation (view (sqlite db))"
    "rc \<noteq> MYLITE_OK \<Longrightarrow> view (sqlite db') \<in> {view (sqlite db), aborted (view (sqlite db))}"
proof -
  note x = control_sql_connection [OF ok statement_control_meanings(1) res]
  show "connection_ok prepared rest out db'" by (rule x(1))
  have u: "user_transaction_active db' = user_transaction_active db" using x(2) by (simp add: same_state_def)
  show "statement_open view (view (sqlite db)) db' savepoint_transaction \<and>
       stored_generation (view (sqlite db')) = stored_generation (view (sqlite db))" if "rc = MYLITE_OK"
  proof -
    from x(3) [OF that] have "view (sqlite db') = opened ''_mylite_statement'' (view (sqlite db))" by (simp add: opened_def)
    with u user show ?thesis by (simp add: statement_open_def)
  qed
  show "rc \<noteq> MYLITE_OK \<Longrightarrow> view (sqlite db') \<in> {view (sqlite db), aborted (view (sqlite db))}"
    using x(4) by simp
qed

lemma begin_statement_outcome:
  fixes db :: "('w, 'c) connection"
  assumes ok: "connection_ok prepared rest out db" and user: "user_transaction_active db \<longrightarrow> open_levels (view (sqlite db)) \<noteq> []"
    and res: "mylite_execution_begin_statement_transaction api rapi capi db = (rc, db', t)"
  shows "connection_ok prepared rest out db'"
    "rc = MYLITE_OK \<Longrightarrow> \<exists>b. statement_open view b db' t \<and> b \<in> {view (sqlite db), opened '''' (view (sqlite db))} \<and>
       (b \<noteq> view (sqlite db) \<longrightarrow> user_transaction_active db' \<and> \<not> autocommit_enabled db) \<and>
       stored_generation (view (sqlite db')) = stored_generation (view (sqlite db))"
proof -
  let ?v = "view (sqlite db)"
  have "connection_ok prepared rest out db' \<and> (rc = MYLITE_OK \<longrightarrow>
     (\<exists>b. statement_open view b db' t \<and> b \<in> {?v, opened '''' ?v} \<and>
       (b \<noteq> ?v \<longrightarrow> user_transaction_active db' \<and> \<not> autocommit_enabled db) \<and>
       stored_generation (view (sqlite db')) = stored_generation ?v))"
  proof (cases "user_transaction_active db \<or> writer_stable_planning_transaction_active db")
    case True
    obtain r d where e: "control_sql api db ''SAVEPOINT _mylite_statement'' = (r, d)" by (rule prod.exhaust)
    from res True e have "rc = r" "db' = d" "t = (if r = MYLITE_OK then savepoint_transaction else no_transaction)"
      by (auto simp: mylite_execution_begin_statement_transaction_def)
    with open_savepoint [OF ok user e] show ?thesis by auto
  next
    case idle: False
    show ?thesis
    proof (cases "autocommit_enabled db")
      case False
      obtain r1 d1 where e1: "mylite_execution_begin_autocommit_disabled_transaction api db = (r1, d1)" by (rule prod.exhaust)
      note x1 = autocommit_disabled_outcome [OF ok _ _ e1]
      obtain r2 d2 where e2: "control_sql api d1 ''SAVEPOINT _mylite_statement'' = (r2, d2)" by (rule prod.exhaust)
      show ?thesis
      proof (cases "r1 = MYLITE_OK")
        case r1: True
        with res idle False e1 e2 have eq: "rc = r2" "db' = d2" "t = (if r2 = MYLITE_OK then savepoint_transaction else no_transaction)"
          by (auto simp: mylite_execution_begin_statement_transaction_def)
        have v1: "user_transaction_active d1" "view (sqlite d1) = opened '''' ?v" using x1(2) r1 idle False by auto
        have "user_transaction_active d2 = user_transaction_active d1"
          using control_sql_connection(2) [OF x1(1) statement_control_meanings(1) e2] idle False by (simp add: same_state_def)
        with open_savepoint [OF x1(1) _ e2] v1 idle False eq show ?thesis by auto
      next
        case r1: False
        with res idle False e1 x1 show ?thesis by (auto simp: mylite_execution_begin_statement_transaction_def)
      qed
    next
      case auto: True
      obtain r1 d1 where e1: "control_sql api db ''BEGIN IMMEDIATE'' = (r1, d1)" by (rule prod.exhaust)
      show ?thesis
      proof (cases "r1 = MYLITE_OK")
        case False
        with res idle auto e1 control_sql_connection [OF ok control_meanings(2) e1] show ?thesis
          by (auto simp: mylite_execution_begin_statement_transaction_def)
      next
        case True
        obtain r2 d2 where e2: "mylite_catalog_synchronize_snapshot api rapi capi d1 = (r2, d2)" by (rule prod.exhaust)
        note x = open_direct [OF ok control_meanings(2) e1 [unfolded True] refl refl refl refl _ e2]
        let ?replan = "r2 = MYLITE_OK \<and> write_plan_generation_guard_active d2 \<and> catalog_generation d2 \<noteq> write_plan_catalog_generation d2"
        have r: "(rc, db', t) = (if ?replan
            then mylite_execution_rollback_statement_transaction api capi d2 direct_transaction MYLITE_EXECUTION_REPLAN
            else (r2, d2, direct_transaction))"
          using res idle auto e1 True e2 by (auto simp: mylite_execution_begin_statement_transaction_def)
        show ?thesis
        proof (cases ?replan)
          case True
          obtain rr dd tt where rb: "mylite_execution_rollback_statement_transaction api capi d2 direct_transaction (- 1) = (rr, dd, tt)"
            by (rule prod_cases3)
          have lv: "within (transaction_level direct_transaction) ?v (view (sqlite d2))"
            using x(3) True idle open_within [of "view (sqlite d2)" "''''" ?v] by (simp add: statement_open_def)
          have ok2: "connection_ok prepared rest out d2" using x(1) idle by simp
          have "rr \<noteq> MYLITE_OK" "connection_ok prepared rest out dd"
            using rollback_statement_outcome [OF ok2 lv _ rb] x(2) idle by auto
          with r True rb show ?thesis by auto
        next
          case False
          with r x idle show ?thesis by auto
        qed
      qed
    qed
  qed
  then show "connection_ok prepared rest out db'"
    "rc = MYLITE_OK \<Longrightarrow> \<exists>b. statement_open view b db' t \<and> b \<in> {?v, opened '''' ?v} \<and>
       (b \<noteq> ?v \<longrightarrow> user_transaction_active db' \<and> \<not> autocommit_enabled db) \<and>
       stored_generation (view (sqlite db')) = stored_generation ?v" by auto
qed

lemma synchronize_current:
  assumes "catalog_statements_ok prepared d" "mylite_catalog_synchronize_snapshot api rapi capi d = (MYLITE_OK, db')"
    and "catalog d = catalog db"
      "user_transaction_active d \<and> catalog_snapshot_synchronized d \<longrightarrow> user_transaction_active db \<and> catalog_snapshot_synchronized db"
  shows "catalog_current view db db'"
  using synchronize_generation(1) [OF assms(1) _ _ _ assms(2)] assms(3,4) by (auto simp: catalog_current_def)

text \<open>Reads and preparations in a transaction that is open, and in one of their own.\<close>

lemma begin_joined:
  fixes db :: "('w, 'c) connection"
  assumes ok: "connection_ok prepared rest out db"
    and res: "mylite_catalog_synchronize_snapshot api rapi capi db = (rc, db')"
  shows "connection_ok prepared rest out db'" "joined view db rc db' no_transaction"
    "rc = MYLITE_OK \<Longrightarrow> catalog_current view db db'"
proof -
  have c: "catalog_statements_ok prepared db" using ok by (simp add: connection_ok_def)
  note y = synchronize_view [OF c res]
  show "connection_ok prepared rest out db'" by (rule connection_kept [OF ok y(1)])
  show "joined view db rc db' no_transaction" using y(2,3) by (auto simp: joined_def calm_def)
  show "rc = MYLITE_OK \<Longrightarrow> catalog_current view db db'" using synchronize_current [OF c] res by simp
qed

lemma begun_current:
  fixes db :: "('w, 'c) connection"
  assumes ok: "connection_ok prepared rest out db" and sql: "control_meaning sql = Some Begin"
    and b: "control_sql api db sql = (MYLITE_OK, d)"
    and f: "sqlite d0 = sqlite d" "catalog_statements d0 = catalog_statements d" "statement_cache d0 = statement_cache d"
      "catalog d0 = catalog d" "\<not> user_transaction_active d0"
    and s: "mylite_catalog_synchronize_snapshot api rapi capi d0 = (MYLITE_OK, db')"
  shows "catalog_current view db db'"
proof -
  note x = control_sql_connection [OF ok sql b] and k = control_sql_catalog [OF b]
  have "catalog_statements_ok prepared d0"
    using connection_fields [OF x(1) f(1-3)] by (simp add: connection_ok_def)
  then show ?thesis using synchronize_current [OF _ s] f(4,5) k by simp
qed

lemma begin_direct_outcome:
  fixes db :: "('w, 'c) connection"
  assumes ok: "connection_ok prepared rest out db" and user: "\<not> user_transaction_active db" "open_levels (view (sqlite db)) = []"
    and res: "(case control_sql api db ''BEGIN'' of (rc, db) \<Rightarrow> if rc = MYLITE_OK
       then (case mylite_catalog_synchronize_snapshot api rapi capi db of (rc, db) \<Rightarrow> (rc, db, direct_transaction))
       else (rc, db, no_transaction)) = (rc, db', t)"
  shows "connection_ok prepared rest out db' \<and> own_begun view db rc db' t \<and> (rc = MYLITE_OK \<longrightarrow> catalog_current view db db')"
proof -
  obtain r1 d1 where e1: "control_sql api db ''BEGIN'' = (r1, d1)" by (rule prod.exhaust)
  obtain r2 d2 where e2: "mylite_catalog_synchronize_snapshot api rapi capi d1 = (r2, d2)" by (rule prod.exhaust)
  note x1 = control_sql_connection [OF ok control_meanings(1) e1]
  show ?thesis
  proof (cases "r1 = MYLITE_OK")
    case True
    note x = open_direct [OF ok control_meanings(1) e1 [unfolded True] refl refl refl refl user(1) e2]
    from res e1 True e2 have eq: "rc = r2" "db' = d2" "t = direct_transaction" by auto
    have "\<not> user_transaction_active d1" using x1(2) user(1) by (simp add: same_state_def)
    with begun_current [OF ok control_meanings(1) e1 [unfolded True] refl refl refl refl] e2
    have "r2 = MYLITE_OK \<Longrightarrow> catalog_current view db d2" by simp
    with x eq show ?thesis by (auto simp: own_begun_def)
  next
    case False
    with res e1 have "rc = r1" "db' = d1" "t = no_transaction" by auto
    with False x1 user show ?thesis by (auto simp: own_begun_def same_state_def aborted_def)
  qed
qed

lemma begin_user_outcome:
  fixes db :: "('w, 'c) connection"
  assumes ok: "connection_ok prepared rest out db" and user: "\<not> user_transaction_active db" "api_get_autocommit api (sqlite db) \<noteq> 0"
      "open_levels (view (sqlite db)) = []" "\<not> autocommit_enabled db"
    and res: "mylite_execution_begin_read_statement_transaction api rapi capi db = (rc, db', t)"
  shows "connection_ok prepared rest out db' \<and> user_begun view db rc db' t \<and> (rc = MYLITE_OK \<longrightarrow> catalog_current view db db')"
proof -
  let ?v = "view (sqlite db)"
  obtain r1 d1 where e1: "mylite_execution_begin_autocommit_disabled_transaction api db = (r1, d1)" by (rule prod.exhaust)
  note x1 = autocommit_disabled_outcome [OF ok user(1,4) e1]
  obtain r2 d2 where e2: "mylite_catalog_synchronize_snapshot api rapi capi d1 = (r2, d2)" by (rule prod.exhaust)
  from res user e1 e2 have eq: "t = no_transaction" "(rc, db') = (if r1 = MYLITE_OK then (r2, d2) else (r1, d1))"
    by (auto simp: mylite_execution_begin_read_statement_transaction_def split: if_splits)
  show ?thesis
  proof (cases "r1 = MYLITE_OK")
    case False
    with x1 eq user(3) show ?thesis by (auto simp: user_begun_def aborted_def)
  next
    case True
    have v1: "user_transaction_active d1" "view (sqlite d1) = level_begun ?v" using x1(2) [OF True] by (simp_all add: opened_def level_begun_def)
    have c1: "catalog_statements_ok prepared d1" using x1(1) by (simp add: connection_ok_def)
    note y = synchronize_view [OF c1 e2]
    have "aborted (level_begun ?v) = ?v" using user(3) by (simp add: aborted_def level_begun_def)
    with y(2,3) v1 eq True have "user_begun view db rc db' t" by (auto simp: user_begun_def calm_def)
    moreover have "connection_ok prepared rest out d2" by (rule connection_kept [OF x1(1) y(1)])
    moreover have "catalog d1 = catalog db \<and> \<not> catalog_snapshot_synchronized d1"
    proof -
      obtain r d where b: "control_sql api db (if (if has_next_transaction_access_mode db then next_transaction_access_mode db = READ_ONLY
          else session_transaction_access_mode db = READ_ONLY) then ''BEGIN'' else ''BEGIN IMMEDIATE'') = (r, d)" by (rule prod.exhaust)
      from control_sql_catalog [OF b] e1 True user(1,4) b show ?thesis
        by (auto simp: mylite_execution_begin_autocommit_disabled_transaction_def Let_def split: if_splits)
    qed
    ultimately show ?thesis using synchronize_current [OF c1, of db' db] e2 eq True by auto
  qed
qed

lemma begin_read_outcome:
  fixes db :: "('w, 'c) connection"
  assumes ok: "connection_ok prepared rest out db" and user: "user_transaction_active db \<longrightarrow> open_levels (view (sqlite db)) \<noteq> []"
    and res: "mylite_execution_begin_read_statement_transaction api rapi capi db = (rc, db', t)"
  shows "connection_ok prepared rest out db' \<and> (rc = MYLITE_OK \<longrightarrow> catalog_current view db db') \<and>
    (if open_levels (view (sqlite db)) \<noteq> [] then joined view db rc db' t
     else if autocommit_enabled db then own_begun view db rc db' t else user_begun view db rc db' t)"
proof (cases "open_levels (view (sqlite db)) = []")
  case False
  obtain r d where s: "mylite_catalog_synchronize_snapshot api rapi capi db = (r, d)" by (rule prod.exhaust)
  have "api_get_autocommit api (sqlite db) = 0" using False autocommit_view by blast
  with res s have "rc = r" "db' = d" "t = no_transaction" by (auto simp: mylite_execution_begin_read_statement_transaction_def)
  with begin_joined [OF ok s] False show ?thesis by simp
next
  case idle: True
  then have u: "\<not> user_transaction_active db" "api_get_autocommit api (sqlite db) \<noteq> 0" using user autocommit_view by blast+
  show ?thesis
  proof (cases "autocommit_enabled db")
    case True
    with res u have "(case control_sql api db ''BEGIN'' of (rc, db) \<Rightarrow> if rc = MYLITE_OK
       then (case mylite_catalog_synchronize_snapshot api rapi capi db of (rc, db) \<Rightarrow> (rc, db, direct_transaction))
       else (rc, db, no_transaction)) = (rc, db', t)"
      unfolding mylite_execution_begin_read_statement_transaction_def Let_def by simp
    from begin_direct_outcome [OF ok u(1) idle this] idle True show ?thesis by simp
  next
    case False
    from begin_user_outcome [OF ok u idle False res] idle False show ?thesis by simp
  qed
qed

lemma begin_prepare_outcome:
  fixes db :: "('w, 'c) connection"
  assumes ok: "connection_ok prepared rest out db" and user: "user_transaction_active db \<longrightarrow> open_levels (view (sqlite db)) \<noteq> []"
    and res: "mylite_execution_begin_prepare_transaction api rapi capi db = (rc, db', t)"
  shows "connection_ok prepared rest out db' \<and> (rc = MYLITE_OK \<longrightarrow> catalog_current view db db') \<and>
    (if open_levels (view (sqlite db)) \<noteq> [] then joined view db rc db' t else own_begun view db rc db' t)"
proof (cases "open_levels (view (sqlite db)) = []")
  case False
  obtain r d where s: "mylite_catalog_synchronize_snapshot api rapi capi db = (r, d)" by (rule prod.exhaust)
  have "api_get_autocommit api (sqlite db) = 0" using False autocommit_view by blast
  with res s have "rc = r" "db' = d" "t = no_transaction" by (auto simp: mylite_execution_begin_prepare_transaction_def)
  with begin_joined [OF ok s] False show ?thesis by simp
next
  case idle: True
  then have u: "\<not> user_transaction_active db" "api_get_autocommit api (sqlite db) \<noteq> 0" using user autocommit_view by blast+
  with res have "(case control_sql api db ''BEGIN'' of (rc, db) \<Rightarrow> if rc = MYLITE_OK
       then (case mylite_catalog_synchronize_snapshot api rapi capi db of (rc, db) \<Rightarrow> (rc, db, direct_transaction))
       else (rc, db, no_transaction)) = (rc, db', t)"
    unfolding mylite_execution_begin_prepare_transaction_def Let_def by simp
  from begin_direct_outcome [OF ok u(1) idle this] idle show ?thesis by simp
qed

text \<open>Planning: the flag that keeps plans stable is set exactly while its transaction is open.\<close>

lemma emergency_rollback_planning:
  fixes db :: "('w, 'c) connection"
  assumes "emergency_rollback api db t = (erc, db', t')"
  shows "writer_stable_planning_transaction_active db' = writer_stable_planning_transaction_active db"
proof -
  obtain r d where e: "(if api_get_autocommit api (sqlite db) = 0
      then mylite_execution_execute_cached_sqlite_control_sql api db ''ROLLBACK'' else (MYLITE_OK, db)) = (r, d)"
    by (rule prod.exhaust)
  have "writer_stable_planning_transaction_active d = writer_stable_planning_transaction_active db"
    using e control_fields(1) [of db "''ROLLBACK''" r d] by (auto simp: same_state_def split: if_splits)
  with assms e show ?thesis by (auto simp: emergency_rollback_def split: if_splits)
qed

lemma rollback_statement_planning:
  assumes res: "mylite_execution_rollback_statement_transaction api capi db direct_transaction rc = (rc', db', t')"
  shows "writer_stable_planning_transaction_active db' = writer_stable_planning_transaction_active db"
proof -
  obtain r d where e: "mylite_execution_execute_cached_sqlite_control_sql api db ''ROLLBACK'' = (r, d)" by (rule prod.exhaust)
  let ?d = "mylite_catalog_invalidate_descriptor_cache capi d"
  obtain erc d2 t2 where em: "emergency_rollback api ?d direct_transaction = (erc, d2, t2)" by (rule prod_cases3)
  have "writer_stable_planning_transaction_active d = writer_stable_planning_transaction_active db"
    using control_fields(1) [OF e] by (simp add: same_state_def)
  with emergency_rollback_planning [OF em] res e em show ?thesis
    by (auto simp: mylite_execution_rollback_statement_transaction_def mark_transaction_state_uncertain_def Let_def split: if_splits)
qed

lemma synchronize_planning:
  assumes "catalog_statements_ok prepared db" "mylite_catalog_synchronize_snapshot api rapi capi db = (rc, db')"
  shows "writer_stable_planning_transaction_active db' = writer_stable_planning_transaction_active db"
proof -
  have w: "writer_stable_planning_transaction_active d' = writer_stable_planning_transaction_active d" if "quiet r d d'" for r d d'
  proof -
    have "d' = d\<lparr>sqlite := sqlite d', allocs := allocs d', catalog_statements := catalog_statements d'\<rparr>"
      using that by (simp add: quiet_def same_connection_def)
    then show ?thesis by (rule ssubst) simp
  qed
  let ?db = "if \<not> user_transaction_active db then db\<lparr>catalog_snapshot_synchronized := False\<rparr> else db"
  have ok: "catalog_statements_ok prepared ?db" using assms(1) by (simp add: catalog_statements_ok_def)
  obtain r1 n1 d1 where s1: "read_data_version api rapi ?db = (r1, n1, d1)" by (rule prod_cases3)
  note q1 = read_data_version_view [OF ok s1]
  obtain r2 n2 d2 where s2: "read_catalog_generation api rapi d1 = (r2, n2, d2)" by (rule prod_cases3)
  have "catalog_statements_ok prepared d1" using q1 by (simp add: quiet_def)
  note q2 = read_catalog_generation_view(1) [OF this s2]
  from assms(2) [unfolded mylite_catalog_synchronize_snapshot_def Let_def s1 prod.case s2] w [OF q1] w [OF q2] show ?thesis
    by (auto simp: mylite_catalog_invalidate_descriptor_cache_def split: if_splits)
qed

lemma begin_planning_outcome:
  fixes db :: "('w, 'c) connection"
  assumes ok: "connection_ok prepared rest out db" and user: "user_transaction_active db \<longrightarrow> open_levels (view (sqlite db)) \<noteq> []"
    and res: "mylite_execution_begin_writer_stable_planning_transaction api rapi capi db = (rc, db', t)"
  shows "connection_ok prepared rest out db' \<and> writer_stable_planning_transaction_active db' = (rc = MYLITE_OK) \<and>
    (if rc = MYLITE_OK then open_levels (view (sqlite db)) = [] \<and> own_begun view db rc db' t \<and> catalog_current view db db'
     else joined view db rc db' t \<or> completion_failed view (view (sqlite db)) direct_transaction db' t)"
proof -
  let ?v = "view (sqlite db)"
  obtain r1 d1 where e1: "control_sql api db ''BEGIN IMMEDIATE'' = (r1, d1)" by (rule prod.exhaust)
  let ?d1 = "d1\<lparr>writer_stable_planning_transaction_active := True\<rparr>"
  obtain r2 d2 where e2: "mylite_catalog_synchronize_snapshot api rapi capi ?d1 = (r2, d2)" by (rule prod.exhaust)
  note x1 = control_sql_connection [OF ok control_meanings(2) e1]
  show ?thesis
  proof (cases "r1 = MYLITE_OK")
    case False
    from res e1 False have "rc = r1" "t = no_transaction" "db' = d1\<lparr>writer_stable_planning_transaction_active := False\<rparr>"
      by (auto simp: mylite_execution_begin_writer_stable_planning_transaction_def mylite_execution_rollback_statement_transaction_def)
    with x1 False connection_fields [OF x1(1), of db'] show ?thesis by (auto simp: joined_def same_state_def)
  next
    case True
    have b: "control_sql api db ''BEGIN IMMEDIATE'' = (MYLITE_OK, d1)" using e1 True by simp
    have idle: "open_levels ?v = []" using x1(3) [OF True] by (auto split: if_splits)
    then have u: "\<not> user_transaction_active db" "\<not> user_transaction_active d1" using user x1(2) by (auto simp: same_state_def)
    note x = open_direct [OF ok control_meanings(2) b _ _ _ _ u(1) e2, simplified]
    have "catalog_statements_ok prepared ?d1" using connection_fields [OF x1(1), of ?d1] by (simp add: connection_ok_def)
    note flag = synchronize_planning [OF this e2]
    show ?thesis
    proof (cases "r2 = MYLITE_OK")
      case r2: True
      with res b e2 have eq: "rc = MYLITE_OK" "db' = d2" "t = direct_transaction"
        by (auto simp: mylite_execution_begin_writer_stable_planning_transaction_def)
      have "catalog_current view db d2"
        by (rule begun_current [OF ok control_meanings(2) b, of ?d1]) (use u e2 r2 in simp_all)
      with x r2 eq flag idle show ?thesis by (auto simp: own_begun_def)
    next
      case r2: False
      let ?d = "d2\<lparr>writer_stable_planning_transaction_active := False\<rparr>"
      have okd: "connection_ok prepared rest out ?d" by (rule connection_fields [OF x(1)]) simp_all
      have w: "within (transaction_level direct_transaction) ?v (view (sqlite ?d))" using x(4) r2 by simp
      from res b e2 r2 have rb: "mylite_execution_rollback_statement_transaction api capi ?d direct_transaction r2 = (rc, db', t)"
        by (simp add: mylite_execution_begin_writer_stable_planning_transaction_def)
      from rollback_statement_outcome [OF okd w _ rb] rollback_statement_planning [OF rb] idle r2 x(5) show ?thesis
        by (auto simp: joined_def)
    qed
  qed
qed

end

section \<open>Properties\<close>

interpretation statement_world: statement_transactions world_statement_api world_prepared "\<lambda>sql. True" world_view
  world_row_api world_bound world_catalog_api
  by unfold_locales (simp_all add: world_statement_api_def)

text \<open>
  Property C4. The transaction around a statement is atomic. Where
  \<^verbatim>\<open>mylite_execution_begin_statement_transaction\<close> succeeds, it has opened exactly one level above
  the levels \<open>b\<close>: those that were open before or, with autocommit disabled, the user transaction
  it began; the stored state is untouched. However the statement changes the stored state, a
  commit that succeeds keeps the changes and closes exactly that level, and a rollback restores
  the state at the begin, closes the level and returns the primary error. A completion that
  fails reports an error and marks the connection as uncertain; then either everything has been
  rolled back and neither the statement's nor the user's transaction counts as active, or the
  level is still open in SQLite and still counts as active.
\<close>

theorem statement_transaction_atomic:
  assumes "statement_transactions api prepared has_statement view rapi bound capi" "connection_ok prepared rest out db"
    and "user_transaction_active db \<longrightarrow> open_levels (view (sqlite db)) \<noteq> []"
    and "mylite_execution_begin_statement_transaction api rapi capi db = (MYLITE_OK, db1, t)"
    and "connection_ok prepared rest out db2" "open_levels (view (sqlite db2)) = open_levels (view (sqlite db1))"
      "user_transaction_active db2 = user_transaction_active db1"
    and "mylite_execution_commit_statement_transaction api capi db2 t = (rc3, db3, t3)"
    and "mylite_execution_rollback_statement_transaction api capi db2 t rc0 = (rc4, db4, t4)"
  shows "stored_generation (view (sqlite db1)) = stored_generation (view (sqlite db)) \<and>
    (\<exists>b. (b = view (sqlite db) \<or> \<not> autocommit_enabled db \<and> user_transaction_active db1 \<and>
          b = (view (sqlite db))\<lparr>open_levels := ('''', stored_generation (view (sqlite db))) # open_levels (view (sqlite db))\<rparr>) \<and>
      open_levels (view (sqlite db1)) = (transaction_level t, stored_generation b) # open_levels b \<and>
      (if rc3 = MYLITE_OK then view (sqlite db3) = b\<lparr>stored_generation := stored_generation (view (sqlite db2))\<rparr> \<and> t3 = no_transaction
       else completion_failed view b t db3 t3) \<and>
      (view (sqlite db4) = b \<and> t4 = no_transaction \<and> rc4 = rc0 \<or>
       completion_failed view b t db4 t4 \<and> rc4 \<noteq> MYLITE_OK \<and> (rc0 \<noteq> MYLITE_OK \<longrightarrow> rc4 = rc0)))"
proof -
  note L = assms(1)
  from statement_transactions.begin_statement_outcome(2) [OF L assms(2-4) refl] obtain b where
    b: "statement_open view b db1 t" "b = view (sqlite db) \<or> b = catalog_store.opened '''' (view (sqlite db))"
      "b \<noteq> view (sqlite db) \<longrightarrow> user_transaction_active db1 \<and> \<not> autocommit_enabled db"
      "stored_generation (view (sqlite db1)) = stored_generation (view (sqlite db))" by blast
  have o2: "statement_open view b db2 t" using b(1) assms(6,7) by (simp add: statement_open_def)
  have opened: "catalog_store.opened '''' (view (sqlite db)) =
      (view (sqlite db))\<lparr>open_levels := ('''', stored_generation (view (sqlite db))) # open_levels (view (sqlite db))\<rparr>"
    by (rule catalog_store.opened_def [OF statement_transactions.axioms(1) [OF L]])
  have w: "catalog_store.within (transaction_level t) b (view (sqlite db2))"
    using statement_transactions.open_within [OF L] o2 by (simp add: statement_open_def)
  have t: "t = direct_transaction \<and> open_levels b = [] \<or> t = savepoint_transaction" using o2 by (auto simp: statement_open_def)
  note c = statement_transactions.commit_statement_outcome(2) [OF L assms(5) o2 assms(8)]
    and r = statement_transactions.rollback_statement_outcome(2) [OF L assms(5) w t assms(9)]
  show ?thesis
    using b c r by (intro conjI exI [of _ b]) (auto simp: statement_open_def opened split: if_splits)
qed

lemma example_connection_idle: "connection_ok world_prepared {} [] (example_connection g)"
  by (simp add: connection_ok_def catalog_statements_ok_def cache_ok_def owned_def example_connection_def world_prepared_def dom_def)

lemmas cached_control_defs = control_sql_def mylite_execution_execute_cached_sqlite_control_sql_def
  mylite_execution_prepare_cached_sqlite_statement_def prune_stale_cached_sqlite_statements_def prune_loop.simps
  find_available_cached_sqlite_statement_def append_cached_sqlite_statement_def prepare_uncached_sqlite_statement_def
  mylite_execution_finish_cached_sqlite_statement_def find_cached_sqlite_statement_by_handle_def
  mylite_execution_normalize_sqlite_control_rc_def

abbreviation (input) world_begin_statement where
  "world_begin_statement \<equiv> mylite_execution_begin_statement_transaction world_statement_api world_row_api world_catalog_api"

lemma example_begin_statement:
  "world_begin_statement (example_connection 5) = (MYLITE_OK, fst (snd (world_begin_statement (example_connection 5))), direct_transaction)"
  using sql_differ
  by (simp add: mylite_execution_begin_statement_transaction_def mylite_catalog_synchronize_snapshot_def read_data_version_def
      read_catalog_generation_def read_single_u64_def cached_control_defs catalog_defs mutation_defs world_defs
      example_connection_def Let_def sql_facts)

theorem statement_transaction_atomic_witness:
  "\<exists>db1 rc4 db4 t4. world_begin_statement (example_connection 5) = (MYLITE_OK, db1, direct_transaction) \<and>
    mylite_execution_rollback_statement_transaction world_statement_api world_catalog_api db1 direct_transaction MYLITE_ERROR =
      (rc4, db4, t4) \<and> rc4 = MYLITE_ERROR"
proof -
  obtain db1 where b: "world_begin_statement (example_connection 5) = (MYLITE_OK, db1, direct_transaction)"
    using example_begin_statement by metis
  obtain rc3 db3 t3 where c: "mylite_execution_commit_statement_transaction world_statement_api world_catalog_api db1
      direct_transaction = (rc3, db3, t3)" by (rule prod_cases3)
  obtain rc4 db4 t4 where r: "mylite_execution_rollback_statement_transaction world_statement_api world_catalog_api db1
      direct_transaction MYLITE_ERROR = (rc4, db4, t4)" by (rule prod_cases3)
  have user: "user_transaction_active (example_connection 5) \<longrightarrow> open_levels (world_view (sqlite (example_connection 5))) \<noteq> []"
    by (simp add: example_connection_def)
  note ok1 = statement_world.begin_statement_outcome(1) [OF example_connection_idle user b]
  from statement_transaction_atomic [OF statement_world.statement_transactions_axioms example_connection_idle user b ok1 refl refl c r]
    b r show ?thesis by auto
qed

text \<open>
  Property C33. The transactions of reads, of preparations and of the planning of a write. When SQLite
  is in a transaction, reads and preparations open no level, return no active transaction and leave
  the levels and the stored state as they are. Otherwise a preparation, and a read with autocommit
  enabled, that succeeds has begun exactly one level and returns it as active; with autocommit
  disabled a read has begun the user's transaction instead, which is marked active. A begin that
  fails leaves no level open that is not marked: it is returned as active, respectively marked as
  the user's. The planning of a write begins a level of its own and returns it as active, and fails
  when a transaction is open; a planning transaction that cannot begin has been rolled back, or is
  reported as a completion that failed, and plans count as stable exactly when it succeeded. A
  successful begin brings the catalog of a connection that has observed no data version to the
  stored generation, unless it was synchronised before in the same user transaction. Whichever
  SQLite call fails, the cached statements are intact.
\<close>

theorem begin_transactions_within_transaction:
  assumes "statement_transactions api prepared has_statement view rapi bound capi" "connection_ok prepared rest out db"
    and "user_transaction_active db \<longrightarrow> open_levels (view (sqlite db)) \<noteq> []"
    and "mylite_execution_begin_read_statement_transaction api rapi capi db = (rc1, db1, t1)"
    and "mylite_execution_begin_prepare_transaction api rapi capi db = (rc2, db2, t2)"
    and "mylite_execution_begin_writer_stable_planning_transaction api rapi capi db = (rc3, db3, t3)"
  shows "connection_ok prepared rest out db1 \<and> connection_ok prepared rest out db2 \<and> connection_ok prepared rest out db3 \<and>
    (if open_levels (view (sqlite db)) \<noteq> [] then joined view db rc1 db1 t1 \<and> joined view db rc2 db2 t2
     else (if autocommit_enabled db then own_begun view db rc1 db1 t1 else user_begun view db rc1 db1 t1) \<and>
       own_begun view db rc2 db2 t2) \<and>
    (rc1 = MYLITE_OK \<longrightarrow> catalog_current view db db1) \<and> (rc2 = MYLITE_OK \<longrightarrow> catalog_current view db db2) \<and>
    writer_stable_planning_transaction_active db3 = (rc3 = MYLITE_OK) \<and>
    (if rc3 = MYLITE_OK then open_levels (view (sqlite db)) = [] \<and> own_begun view db rc3 db3 t3 \<and> catalog_current view db db3
     else joined view db rc3 db3 t3 \<or> completion_failed view (view (sqlite db)) direct_transaction db3 t3)"
  using statement_transactions.begin_read_outcome [OF assms(1-4)] statement_transactions.begin_prepare_outcome [OF assms(1-3,5)]
    statement_transactions.begin_planning_outcome [OF assms(1-3,6)] by (simp split: if_splits)

theorem begin_transactions_within_transaction_witness:
  "\<exists>db1 t1. mylite_execution_begin_read_statement_transaction world_statement_api world_row_api world_catalog_api
      (example_connection 5) = (MYLITE_OK, db1, t1) \<and> t1 = direct_transaction \<and>
      open_levels (world_view (sqlite db1)) = [('''', 5)] \<and> generation (catalog db1) = 5"
proof -
  let ?db = "example_connection 5"
  obtain rc1 db1 t1 where r: "mylite_execution_begin_read_statement_transaction world_statement_api world_row_api world_catalog_api
      ?db = (rc1, db1, t1)" by (rule prod_cases3)
  obtain rc2 db2 t2 where p: "mylite_execution_begin_prepare_transaction world_statement_api world_row_api world_catalog_api
      ?db = (rc2, db2, t2)" by (rule prod_cases3)
  obtain rc3 db3 t3 where w: "mylite_execution_begin_writer_stable_planning_transaction world_statement_api world_row_api
      world_catalog_api ?db = (rc3, db3, t3)" by (rule prod_cases3)
  have rc: "rc1 = MYLITE_OK" using sql_differ r
    by (simp add: mylite_execution_begin_read_statement_transaction_def mylite_catalog_synchronize_snapshot_def read_data_version_def
      read_catalog_generation_def read_single_u64_def cached_control_defs catalog_defs mutation_defs world_defs
      example_connection_def Let_def sql_facts)
  have f: "user_transaction_active ?db \<longrightarrow> open_levels (world_view (sqlite ?db)) \<noteq> []" "open_levels (world_view (sqlite ?db)) = []"
    "autocommit_enabled ?db" "\<not> has_observed_data_version (catalog ?db)" "initialized (catalog ?db)" "\<not> user_transaction_active ?db"
    "stored_generation (world_view (sqlite ?db)) = 5"
    by (simp_all add: example_connection_def blank_catalog_def)
  from begin_transactions_within_transaction [OF statement_world.statement_transactions_axioms example_connection_idle f(1) r p w]
  have "own_begun world_view ?db rc1 db1 t1" "catalog_current world_view ?db db1" using f rc by simp_all
  with f rc r show ?thesis by (simp add: own_begun_def catalog_current_def level_begun_def)
qed

end
