(* ===== verification/Period_Functions.thy ===== *)
theory Period_Functions
  imports Sqlite_Values Diagnostics
begin

text \<open>
  PERIOD_ADD and PERIOD_DIFF, \<^verbatim>\<open>runtime/mylite_period_functions.c\<close>: arithmetic on months
  written as year and month, with two-digit years, their callbacks and their registration.
  Signed 64-bit values are integers; the lemmas show that every intermediate result stays in the
  range. A connection is its diagnostics area, absent for a null pointer; the output pointers are
  never null.
\<close>

section \<open>Operations\<close>

abbreviation (input) mysql_error_internal :: int where "mysql_error_internal \<equiv> 1105"
abbreviation (input) mysql_error_incorrect_arguments :: int where "mysql_error_incorrect_arguments \<equiv> 1210"

definition INT64_MIN :: int where [limit_simps]: "INT64_MIN = - 9223372036854775808"

definition set_period_incorrect_argument_error ::
    "mylite_diagnostics option \<Rightarrow> string option \<Rightarrow> int \<times> mylite_diagnostics option" where
  "set_period_incorrect_argument_error database function_name =
     (let name = (case function_name of None \<Rightarrow> ''period'' | Some n \<Rightarrow> n);
          text = ''Incorrect arguments to '' @ name
      in if database = None then (MYLITE_ERROR, database)
         else if length text \<ge> MYLITE_DIAGNOSTIC_MESSAGE_CAPACITY
         then (MYLITE_ERROR, mylite_diagnostics_set_error database mysql_error_internal (Some ''HY000'')
                (Some ''failed to format period function error''))
         else (MYLITE_ERROR, mylite_diagnostics_set_error database mysql_error_incorrect_arguments (Some ''HY000'') (Some text)))"

text \<open>The result is a status, the output and the diagnostics area.\<close>

definition period_to_month_index ::
    "mylite_diagnostics option \<Rightarrow> int \<Rightarrow> string option \<Rightarrow> int \<times> int \<times> mylite_diagnostics option" where
  "period_to_month_index database period function_name =
     (let failed = (let (rc, database) = set_period_incorrect_argument_error database function_name in (rc, 0, database))
      in if period \<le> 0 then failed
         else (let year = period div 100; month = period mod 100
               in if month < 1 \<or> month > 12 then failed
                  else (let year = (if year < 100 then year + (if year < 70 then 2000 else 1900) else year)
                        in if year > (INT64_MAX - (12 - 1)) div 12 then failed
                           else (MYLITE_OK, year * 12 + (month - 1), database))))"

definition format_period_from_month_index ::
    "mylite_diagnostics option \<Rightarrow> int \<Rightarrow> string option \<Rightarrow> int \<times> int \<times> mylite_diagnostics option" where
  "format_period_from_month_index database month_index function_name =
     (let failed = (let (rc, database) = set_period_incorrect_argument_error database function_name in (rc, 0, database))
      in if month_index < 0 then failed
         else (let year = month_index div 12; month = month_index mod 12 + 1
               in if year > (INT64_MAX - month) div 100 then failed
                  else (MYLITE_OK, year * 100 + month, database)))"

text \<open>Status, value, whether the value is NULL, and the diagnostics area.\<close>

definition mylite_period_add_value ::
    "mylite_diagnostics option \<Rightarrow> int \<Rightarrow> bool \<Rightarrow> int \<Rightarrow> bool \<Rightarrow> int \<times> int \<times> bool \<times> mylite_diagnostics option" where
  "mylite_period_add_value database period period_is_null months months_is_null =
     (if period_is_null \<or> months_is_null then (MYLITE_OK, 0, True, database)
      else (let (rc, month_index, database) = period_to_month_index database period (Some ''period_add'')
            in if rc \<noteq> MYLITE_OK then (rc, 0, False, database)
               else if (months > 0 \<and> month_index > INT64_MAX - months) \<or> (months < 0 \<and> month_index < INT64_MIN - months)
               then (let (rc, database) = set_period_incorrect_argument_error database (Some ''period_add'')
                     in (rc, 0, False, database))
               else (let (rc, n, database) = format_period_from_month_index database (month_index + months) (Some ''period_add'')
                     in (rc, n, False, database))))"

definition mylite_period_diff_value ::
    "mylite_diagnostics option \<Rightarrow> int \<Rightarrow> bool \<Rightarrow> int \<Rightarrow> bool \<Rightarrow> int \<times> int \<times> bool \<times> mylite_diagnostics option" where
  "mylite_period_diff_value database period1 period1_is_null period2 period2_is_null =
     (if period1_is_null \<or> period2_is_null then (MYLITE_OK, 0, True, database)
      else (let (rc, left, database) = period_to_month_index database period1 (Some ''period_diff'');
                (rc, right, database) = (if rc = MYLITE_OK
                  then period_to_month_index database period2 (Some ''period_diff'') else (rc, 0, database))
            in if rc \<noteq> MYLITE_OK then (rc, 0, False, database)
               else if (right < 0 \<and> left > INT64_MAX + right) \<or> (right > 0 \<and> left < INT64_MIN + right)
               then (let (rc, database) = set_period_incorrect_argument_error database (Some ''period_diff'')
                     in (rc, 0, False, database))
               else (MYLITE_OK, left - right, False, database)))"

definition period_sqlite_result :: "int \<Rightarrow> bool \<Rightarrow> int \<Rightarrow> string \<Rightarrow> sqlite_result" where
  "period_sqlite_result n is_null rc msg =
     (if rc \<noteq> MYLITE_OK then ResultError msg else if is_null then ResultNull else ResultInt64 n)"

definition period_add_sqlite_callback ::
    "mylite_diagnostics option \<Rightarrow> sqlite_value list \<Rightarrow> sqlite_result \<times> mylite_diagnostics option" where
  "period_add_sqlite_callback database argv =
     (case (database, argv) of
        (Some d, [v0, v1]) \<Rightarrow>
          (let (rc, n, is_null, database) =
                 mylite_period_add_value database (value_int64 v0) (value_null v0) (value_int64 v1) (value_null v1)
           in (period_sqlite_result n is_null rc ''Incorrect arguments to period_add'', database))
      | _ \<Rightarrow> (ResultError ''MyLite PERIOD_ADD() callback failed'', database))"

definition period_diff_sqlite_callback ::
    "mylite_diagnostics option \<Rightarrow> sqlite_value list \<Rightarrow> sqlite_result \<times> mylite_diagnostics option" where
  "period_diff_sqlite_callback database argv =
     (case (database, argv) of
        (Some d, [v0, v1]) \<Rightarrow>
          (let (rc, n, is_null, database) =
                 mylite_period_diff_value database (value_int64 v0) (value_null v0) (value_int64 v1) (value_null v1)
           in (period_sqlite_result n is_null rc ''Incorrect arguments to period_diff'', database))
      | _ \<Rightarrow> (ResultError ''MyLite PERIOD_DIFF() callback failed'', database))"

datatype period_callback = PeriodAdd | PeriodDiff

definition period_registrations :: "period_callback function_registration list" where
  "period_registrations =
     [scalar_registration ''_mylite_period_add'' 2 (SQLITE_UTF8 OR SQLITE_DIRECTONLY OR SQLITE_INNOCUOUS) PeriodAdd,
      scalar_registration ''_mylite_period_diff'' 2 (SQLITE_UTF8 OR SQLITE_DIRECTONLY OR SQLITE_INNOCUOUS) PeriodDiff]"

definition mylite_sqlite_register_period_functions ::
    "('w, period_callback) sqlite_create \<Rightarrow> bool \<Rightarrow> 'w \<Rightarrow> int \<times> 'w" where
  "mylite_sqlite_register_period_functions create sqlite w =
     mylite_sqlite_register_functions create sqlite w (Some period_registrations) (length period_registrations)"

section \<open>The calendar\<close>

text \<open>
  A period is a year and a month; its place is the number of months since the start of year zero.
  Years below 70 are of this century, years from 70 to 99 of the last, so that two numbers denote
  a month of the years 1970 to 2069, and none denotes a month of the years 0 to 99.
\<close>

definition full_year :: "int \<Rightarrow> int" where
  "full_year y = (if y < 70 then 2000 + y else if y < 100 then 1900 + y else y)"

definition is_period :: "int \<Rightarrow> bool" where
  "is_period p \<longleftrightarrow> 0 < p \<and> 1 \<le> p mod 100 \<and> p mod 100 \<le> 12"

definition month_place :: "int \<Rightarrow> int" where
  "month_place p = 12 * full_year (p div 100) + (p mod 100 - 1)"

lemma month_place_range:
  assumes "is_period p" "p \<le> INT64_MAX"
  shows "0 < month_place p" "month_place p \<le> INT64_MAX div 8" "full_year (p div 100) \<le> (INT64_MAX - 11) div 12"
proof -
  have "p div 100 \<le> INT64_MAX div 100" "0 \<le> p div 100" using assms by (auto simp: is_period_def zdiv_mono1)
  then show "0 < month_place p" "month_place p \<le> INT64_MAX div 8" "full_year (p div 100) \<le> (INT64_MAX - 11) div 12"
    using assms(1) by (auto simp: month_place_def full_year_def is_period_def limit_simps)
qed

text \<open>The month index of a period; the overflow check of the year never fires.\<close>

lemma month_index_exact:
  assumes "p \<le> INT64_MAX"
  shows "period_to_month_index database p name =
    (if is_period p then (MYLITE_OK, month_place p, database)
     else (MYLITE_ERROR, 0, snd (set_period_incorrect_argument_error database name)))"
proof (cases "is_period p")
  case True
  from month_place_range(3) [OF True assms] have
    "\<not> (if p div 100 < 100 then p div 100 + (if p div 100 < 70 then 2000 else 1900) else p div 100) > (INT64_MAX - (12 - 1)) div 12"
    by (auto simp: full_year_def split: if_splits)
  with True show ?thesis
    by (auto simp: period_to_month_index_def Let_def is_period_def month_place_def full_year_def)
next
  case False
  then show ?thesis
    by (auto simp: period_to_month_index_def Let_def is_period_def set_period_incorrect_argument_error_def)
qed

text \<open>Formatting a place.\<close>

lemma format_exact:
  "format_period_from_month_index database k name =
    (if 0 \<le> k \<and> k div 12 * 100 + (k mod 12 + 1) \<le> INT64_MAX
     then (MYLITE_OK, k div 12 * 100 + (k mod 12 + 1), database)
     else (MYLITE_ERROR, 0, snd (set_period_incorrect_argument_error database name)))"
proof -
  have "k div 12 > (INT64_MAX - (k mod 12 + 1)) div 100 \<longleftrightarrow> \<not> k div 12 * 100 + (k mod 12 + 1) \<le> INT64_MAX"
    by (simp add: limit_simps) linarith
  then show ?thesis
    by (auto simp: format_period_from_month_index_def Let_def set_period_incorrect_argument_error_def)
qed

lemma format_parts:
  assumes "q = k div 12 * 100 + (k mod 12 + 1)" "0 \<le> (k :: int)"
  shows "q div 100 = k div 12" "q mod 100 = k mod 12 + 1" "is_period q"
proof -
  have m: "0 \<le> k mod 12" "k mod 12 < 12" by simp_all
  have "0 \<le> k div 12" using assms(2) by simp
  with m show "q div 100 = k div 12" "q mod 100 = k mod 12 + 1" unfolding assms(1) by simp_all
  have "0 < q" using m \<open>0 \<le> k div 12\<close> unfolding assms(1) by linarith
  with m \<open>q mod 100 = k mod 12 + 1\<close> show "is_period q" unfolding is_period_def by linarith
qed

text \<open>
  The month that a formatted place denotes: the place itself when its year has at least three
  digits, and a month of 2000 to 2069 or of 1970 to 1999 when it has not.
\<close>

lemma format_place:
  assumes "q = k div 12 * 100 + (k mod 12 + 1)" "0 \<le> (k :: int)"
  shows "month_place q = (if k < 840 then k + 24000 else if k < 1200 then k + 22800 else k)"
proof -
  note f = format_parts [OF assms]
  have "month_place q = 12 * full_year (k div 12) + k mod 12" by (simp add: month_place_def f)
  then show ?thesis by (auto simp: full_year_def)
qed

section \<open>Properties\<close>

text \<open>
  Property C40. PERIOD_ADD on every pair of 64-bit arguments: NULL when an argument is NULL; an
  error, reported with the code for incorrect arguments, when the first argument is no period or
  the month \<open>k\<close> the given number of months later lies in a negative year or cannot be written in
  64 bits; otherwise the number whose last two digits are the month and whose other digits are the
  year of \<open>k\<close>. From the year 100 on this number is the period of \<open>k\<close>. Below it the number is a
  period with a two-digit year, which denotes another month, 2000 years after \<open>k\<close> when the year is
  below 70 and 1900 years after \<open>k\<close> when it is from 70 to 99: the code does not normalise the year
  it writes. No intermediate result leaves the 64-bit range.
\<close>

theorem period_add_outcome:
  assumes "INT64_MIN \<le> value_int64 v0" "value_int64 v0 \<le> INT64_MAX" "INT64_MIN \<le> value_int64 v1" "value_int64 v1 \<le> INT64_MAX"
    and "k = month_place (value_int64 v0) + value_int64 v1" "q = 100 * (k div 12) + (k mod 12 + 1)"
  shows "period_add_sqlite_callback (Some d) [v0, v1] =
    (if value_null v0 \<or> value_null v1 then (ResultNull, Some d)
     else if is_period (value_int64 v0) \<and> 0 \<le> k \<and> q \<le> INT64_MAX then (ResultInt64 q, Some d)
     else (ResultError ''Incorrect arguments to period_add'',
       Some (set_error d mysql_error_incorrect_arguments (Some ''HY000'') (Some ''Incorrect arguments to period_add'')))) \<and>
    (0 \<le> k \<longrightarrow> is_period q \<and>
      month_place q = (if k div 12 < 70 then k + 12 * 2000 else if k div 12 < 100 then k + 12 * 1900 else k)) \<and>
    (is_period (value_int64 v0) \<longrightarrow> 0 < month_place (value_int64 v0) \<and> month_place (value_int64 v0) \<le> INT64_MAX \<and>
      (0 \<le> k \<and> q \<le> INT64_MAX \<longrightarrow> k \<le> INT64_MAX))"
proof -
  let ?p = "value_int64 v0" and ?n = "value_int64 v1"
  have err: "set_period_incorrect_argument_error (Some d) (Some ''period_add'') =
    (MYLITE_ERROR, Some (set_error d 1210 (Some ''HY000'') (Some ''Incorrect arguments to period_add'')))"
    by (simp add: set_period_incorrect_argument_error_def Let_def mylite_diagnostics_set_error_def)
  have small: "k \<le> INT64_MAX" if "100 * (k div 12) + (k mod 12 + 1) \<le> INT64_MAX" using that by (simp add: limit_simps)
  have place: "0 < month_place ?p \<and> month_place ?p \<le> INT64_MAX" if "is_period ?p"
    using month_place_range [OF that assms(2)] by (simp add: limit_simps)
  have guard: "(?n > 0 \<and> month_place ?p > INT64_MAX - ?n) \<or> (?n < 0 \<and> month_place ?p < INT64_MIN - ?n) \<longleftrightarrow> k > INT64_MAX"
    if "is_period ?p" using place [OF that] assms(3-5) by (auto simp: limit_simps)
  have "mylite_period_add_value (Some d) ?p False ?n False =
    (if is_period ?p \<and> 0 \<le> k \<and> 100 * (k div 12) + (k mod 12 + 1) \<le> INT64_MAX
     then (MYLITE_OK, 100 * (k div 12) + (k mod 12 + 1), False, Some d)
     else (MYLITE_ERROR, 0, False, Some (set_error d 1210 (Some ''HY000'') (Some ''Incorrect arguments to period_add''))))"
    using guard small by (auto simp: mylite_period_add_value_def month_index_exact [OF assms(2)] format_exact err
        assms(5) [symmetric] mult.commute)
  then have "period_add_sqlite_callback (Some d) [v0, v1] =
    (if value_null v0 \<or> value_null v1 then (ResultNull, Some d)
     else if is_period ?p \<and> 0 \<le> k \<and> q \<le> INT64_MAX then (ResultInt64 q, Some d)
     else (ResultError ''Incorrect arguments to period_add'',
       Some (set_error d mysql_error_incorrect_arguments (Some ''HY000'') (Some ''Incorrect arguments to period_add''))))"
    unfolding assms(6) by (auto simp: period_add_sqlite_callback_def period_sqlite_result_def mylite_period_add_value_def)
  moreover have q: "q = k div 12 * 100 + (k mod 12 + 1)" using assms(6) by simp
  moreover have "is_period q \<and> month_place q = (if k div 12 < 70 then k + 12 * 2000 else if k div 12 < 100 then k + 12 * 1900 else k)"
    if "0 \<le> k" using format_parts(3) [OF q that] format_place [OF q that] by auto
  moreover have "k \<le> INT64_MAX" if "q \<le> INT64_MAX" using small that assms(6) by simp
  ultimately show ?thesis using place by blast
qed

definition example_int :: "int \<Rightarrow> sqlite_value" where
  "example_int n = \<lparr>value_null = False, value_text = None, value_bytes = 0, value_int64 = n\<rparr>"

theorem period_add_outcome_witness:
  "period_add_sqlite_callback (Some example_area) [example_int 200801, example_int 2] = (ResultInt64 200803, Some example_area)"
  using period_add_outcome [of "example_int 200801" "example_int 2" _ _ example_area, OF _ _ _ _ refl refl]
  by (simp add: example_int_def limit_simps is_period_def month_place_def full_year_def)

text \<open>
  What a year below 100 leads to: 23400 months before January 2000 is January of the year 50; the
  result is 5001, which PERIOD_DIFF, like every other reader of periods, takes for January 2050,
  600 months after January 2000.
\<close>

lemma period_add_two_digit_result:
  "mylite_period_add_value (Some d) 200001 False (- 23400) False = (MYLITE_OK, 5001, False, Some d) \<and>
   mylite_period_diff_value (Some d) 5001 False 200001 False = (MYLITE_OK, 600, False, Some d)"
  by (simp add: mylite_period_add_value_def mylite_period_diff_value_def period_to_month_index_def
      format_period_from_month_index_def limit_simps)

text \<open>
  PERIOD_DIFF inverts PERIOD_ADD: when adding months to a period gives a period
  whose year is written in full, the difference of the two is the number of months; the
  difference of any two periods is the number of months between them, of any other arguments an
  error. The checks for overflow of the difference never fire.
\<close>

theorem period_diff_roundtrip:
  assumes "INT64_MIN \<le> p" "p \<le> INT64_MAX" "INT64_MIN \<le> q" "q \<le> INT64_MAX" "INT64_MIN \<le> n" "n \<le> INT64_MAX"
  shows "mylite_period_diff_value (Some d) q False p False =
      (if is_period q \<and> is_period p then (MYLITE_OK, month_place q - month_place p, False, Some d)
       else (MYLITE_ERROR, 0, False, Some (set_error d mysql_error_incorrect_arguments (Some ''HY000'')
         (Some ''Incorrect arguments to period_diff'')))) \<and>
    (mylite_period_add_value (Some d) p False n False = (MYLITE_OK, q, False, Some d) \<and> 100 \<le> q div 100 \<longrightarrow>
      mylite_period_diff_value (Some d) q False p False = (MYLITE_OK, n, False, Some d))"
proof -
  have err: "set_period_incorrect_argument_error (Some d) (Some ''period_diff'') =
    (MYLITE_ERROR, Some (set_error d 1210 (Some ''HY000'') (Some ''Incorrect arguments to period_diff'')))"
    by (simp add: set_period_incorrect_argument_error_def Let_def mylite_diagnostics_set_error_def)
  have diff: "mylite_period_diff_value (Some d) q False p False =
      (if is_period q \<and> is_period p then (MYLITE_OK, month_place q - month_place p, False, Some d)
       else (MYLITE_ERROR, 0, False, Some (set_error d 1210 (Some ''HY000'') (Some ''Incorrect arguments to period_diff''))))"
  proof (cases "is_period q \<and> is_period p")
    case True
    with month_place_range [of q] month_place_range [of p] assms have
      "0 < month_place q" "month_place q \<le> INT64_MAX div 8" "0 < month_place p" "month_place p \<le> INT64_MAX div 8" by auto
    then have "\<not> ((month_place p < 0 \<and> month_place q > INT64_MAX + month_place p) \<or>
      (month_place p > 0 \<and> month_place q < INT64_MIN + month_place p))" by (auto simp: limit_simps)
    with True show ?thesis
      by (auto simp: mylite_period_diff_value_def month_index_exact [OF assms(4)] month_index_exact [OF assms(2)])
  next
    case False
    then show ?thesis
      by (auto simp: mylite_period_diff_value_def month_index_exact [OF assms(4)] month_index_exact [OF assms(2)] err)
  qed
  moreover have "is_period q \<and> is_period p \<and> month_place q - month_place p = n"
    if add: "mylite_period_add_value (Some d) p False n False = (MYLITE_OK, q, False, Some d)" and year: "100 \<le> q div 100"
  proof -
    have p: "is_period p" using add by (auto simp: mylite_period_add_value_def month_index_exact [OF assms(2)] split: if_splits)
    define k where "k = month_place p + n"
    have k: "q = k div 12 * 100 + (k mod 12 + 1)" "0 \<le> k"
      using add p by (auto simp: mylite_period_add_value_def month_index_exact [OF assms(2)] format_exact k_def
          set_period_incorrect_argument_error_def Let_def split: if_splits)
    note f = format_parts [OF k]
    have "month_place q = 12 * (k div 12) + k mod 12" using f year by (simp add: month_place_def full_year_def)
    then have "month_place q = k" by simp
    with f p show ?thesis by (simp add: k_def)
  qed
  ultimately show ?thesis by auto
qed

theorem period_diff_roundtrip_witness:
  "mylite_period_diff_value (Some example_area) 200803 False 200801 False = (MYLITE_OK, 2, False, Some example_area)"
  using period_diff_roundtrip [of 200801 200803 2 example_area]
  by (simp add: limit_simps is_period_def month_place_def full_year_def)

end
