(* ===== verification/Sql_Keywords.thy ===== *)
theory Sql_Keywords
  imports MyLite_Prelude "HOL-Library.Char_ord" "HOL-Library.List_Lexorder"
begin

text \<open>
  The keyword table of the SQL lexer (\<^verbatim>\<open>sql/mylite_lexer.c\<close>) and the tables derived
  from it by hand: the range of each first letter, the masks of possible lengths and second
  letters, and the indexes of the frequent keywords. \<open>mylite_sql_keyword_lookup\<close> combines them
  with a binary search. Text is a \<open>string\<close>, one \<open>char\<close> for each byte; bytes compare as the
  unsigned values \<open>of_char\<close>. The array of the source is written as one list for each first
  letter, and the entries appended at its end as a list of their own.
\<close>

section \<open>The keyword table\<close>

type_synonym u32 = "32 word"

datatype keyword_entry = Keyword (entry_word: string) (entry_flags: u32)

abbreviation RESERVED :: u32 where "RESERVED \<equiv> 1"
abbreviation RESTRICTED_LABEL :: u32 where "RESTRICTED_LABEL \<equiv> 2"
abbreviation RESTRICTED_ROLE :: u32 where "RESTRICTED_ROLE \<equiv> 4"

definition keywords_A :: "keyword_entry list" where
  "keywords_A = [
    Keyword ''ABS'' 0, Keyword ''ACCESSIBLE'' RESERVED, Keyword ''ACCOUNT'' 0, Keyword ''ACOS'' 0,
    Keyword ''ACTION'' 0, Keyword ''ACTIVE'' 0, Keyword ''ADD'' RESERVED, Keyword ''ADDDATE'' 0,
    Keyword ''ADDTIME'' 0, Keyword ''ADMIN'' 0, Keyword ''AFTER'' 0, Keyword ''AGAINST'' 0,
    Keyword ''AGGREGATE'' 0, Keyword ''ALGORITHM'' 0, Keyword ''ALL'' RESERVED,
    Keyword ''ALTER'' RESERVED, Keyword ''ALWAYS'' 0, Keyword ''ANALYZE'' RESERVED,
    Keyword ''AND'' RESERVED, Keyword ''ANY'' 0, Keyword ''ANY_VALUE'' 0, Keyword ''ARRAY'' 0,
    Keyword ''AS'' RESERVED, Keyword ''ASC'' RESERVED, Keyword ''ASCII'' RESTRICTED_LABEL,
    Keyword ''ASENSITIVE'' RESERVED, Keyword ''ASIN'' 0,
    Keyword ''ASSIGN_GTIDS_TO_ANONYMOUS_TRANSACTIONS'' 0, Keyword ''AT'' 0, Keyword ''ATAN'' 0,
    Keyword ''ATAN2'' 0, Keyword ''ATTRIBUTE'' 0, Keyword ''AUTHENTICATION'' 0,
    Keyword ''AUTO'' 0, Keyword ''AUTOEXTEND_SIZE'' 0, Keyword ''AUTO_INCREMENT'' 0,
    Keyword ''AVG'' 0, Keyword ''AVG_ROW_LENGTH'' 0]"

definition keywords_B :: "keyword_entry list" where
  "keywords_B = [
    Keyword ''BACKUP'' 0, Keyword ''BEFORE'' RESERVED, Keyword ''BEGIN'' RESTRICTED_LABEL,
    Keyword ''BERNOULLI'' 0, Keyword ''BETWEEN'' RESERVED, Keyword ''BIGINT'' RESERVED,
    Keyword ''BIN'' 0, Keyword ''BINARY'' RESERVED, Keyword ''BINLOG'' 0,
    Keyword ''BIN_TO_UUID'' 0, Keyword ''BIT'' 0, Keyword ''BIT_AND'' 0, Keyword ''BIT_COUNT'' 0,
    Keyword ''BIT_LENGTH'' 0, Keyword ''BIT_OR'' 0, Keyword ''BIT_XOR'' 0,
    Keyword ''BLOB'' RESERVED, Keyword ''BLOCK'' 0, Keyword ''BOOL'' 0, Keyword ''BOOLEAN'' 0,
    Keyword ''BOTH'' RESERVED, Keyword ''BTREE'' 0, Keyword ''BUCKETS'' 0, Keyword ''BULK'' 0,
    Keyword ''BY'' RESERVED, Keyword ''BYTE'' RESTRICTED_LABEL]"

definition keywords_C :: "keyword_entry list" where
  "keywords_C = [
    Keyword ''CACHE'' RESTRICTED_LABEL, Keyword ''CALL'' RESERVED, Keyword ''CASCADE'' RESERVED,
    Keyword ''CASCADED'' 0, Keyword ''CASE'' RESERVED, Keyword ''CAST'' 0,
    Keyword ''CATALOG_NAME'' 0, Keyword ''CEIL'' 0, Keyword ''CEILING'' 0, Keyword ''CHAIN'' 0,
    Keyword ''CHALLENGE_RESPONSE'' 0, Keyword ''CHANGE'' RESERVED, Keyword ''CHANGED'' 0,
    Keyword ''CHANNEL'' 0, Keyword ''CHAR'' RESERVED, Keyword ''CHARACTER'' RESERVED,
    Keyword ''CHARACTER_LENGTH'' 0, Keyword ''CHARSET'' RESTRICTED_LABEL,
    Keyword ''CHAR_LENGTH'' 0, Keyword ''CHECK'' RESERVED, Keyword ''CHECKSUM'' RESTRICTED_LABEL,
    Keyword ''CIPHER'' 0, Keyword ''CLASS_ORIGIN'' 0, Keyword ''CLIENT'' 0,
    Keyword ''CLONE'' RESTRICTED_LABEL, Keyword ''CLOSE'' 0, Keyword ''COALESCE'' 0,
    Keyword ''CODE'' 0, Keyword ''COERCIBILITY'' 0, Keyword ''COLLATE'' RESERVED,
    Keyword ''COLLATION'' 0, Keyword ''COLUMN'' RESERVED, Keyword ''COLUMNS'' 0,
    Keyword ''COLUMN_FORMAT'' 0, Keyword ''COLUMN_NAME'' 0, Keyword ''COMMENT'' RESTRICTED_LABEL,
    Keyword ''COMMIT'' RESTRICTED_LABEL, Keyword ''COMMITTED'' 0, Keyword ''COMPACT'' 0,
    Keyword ''COMPLETION'' 0, Keyword ''COMPONENT'' 0, Keyword ''COMPRESS'' 0,
    Keyword ''COMPRESSED'' 0, Keyword ''COMPRESSION'' 0, Keyword ''CONCAT'' 0,
    Keyword ''CONCAT_WS'' 0, Keyword ''CONCURRENT'' 0, Keyword ''CONDITION'' RESERVED,
    Keyword ''CONNECTION'' 0, Keyword ''CONNECTION_ID'' 0, Keyword ''CONSISTENT'' 0,
    Keyword ''CONSTRAINT'' RESERVED, Keyword ''CONSTRAINT_CATALOG'' 0,
    Keyword ''CONSTRAINT_NAME'' 0, Keyword ''CONSTRAINT_SCHEMA'' 0,
    Keyword ''CONTAINS'' RESTRICTED_LABEL, Keyword ''CONTEXT'' 0, Keyword ''CONTINUE'' RESERVED,
    Keyword ''CONV'' 0, Keyword ''CONVERT'' RESERVED, Keyword ''CONVERT_TZ'' 0, Keyword ''COS'' 0,
    Keyword ''COT'' 0, Keyword ''COUNT'' 0, Keyword ''CPU'' 0, Keyword ''CRC32'' 0,
    Keyword ''CREATE'' RESERVED, Keyword ''CROSS'' RESERVED, Keyword ''CUBE'' 0,
    Keyword ''CUME_DIST'' RESERVED, Keyword ''CURDATE'' 0, Keyword ''CURRENT'' 0,
    Keyword ''CURRENT_DATE'' RESERVED, Keyword ''CURRENT_ROLE'' 0,
    Keyword ''CURRENT_TIME'' RESERVED, Keyword ''CURRENT_TIMESTAMP'' RESERVED,
    Keyword ''CURRENT_USER'' RESERVED, Keyword ''CURSOR'' RESERVED, Keyword ''CURSOR_NAME'' 0,
    Keyword ''CURTIME'' 0]"

definition keywords_D :: "keyword_entry list" where
  "keywords_D = [
    Keyword ''DATA'' 0, Keyword ''DATABASE'' RESERVED, Keyword ''DATABASES'' RESERVED,
    Keyword ''DATAFILE'' 0, Keyword ''DATE'' 0, Keyword ''DATEDIFF'' 0, Keyword ''DATETIME'' 0,
    Keyword ''DATE_ADD'' 0, Keyword ''DATE_FORMAT'' 0, Keyword ''DATE_SUB'' 0, Keyword ''DAY'' 0,
    Keyword ''DAYNAME'' 0, Keyword ''DAYOFMONTH'' 0, Keyword ''DAYOFWEEK'' 0,
    Keyword ''DAYOFYEAR'' 0, Keyword ''DAY_HOUR'' RESERVED, Keyword ''DAY_MICROSECOND'' RESERVED,
    Keyword ''DAY_MINUTE'' RESERVED, Keyword ''DAY_SECOND'' RESERVED,
    Keyword ''DEALLOCATE'' RESTRICTED_LABEL, Keyword ''DEC'' RESERVED,
    Keyword ''DECIMAL'' RESERVED, Keyword ''DECLARE'' RESERVED, Keyword ''DEFAULT'' RESERVED,
    Keyword ''DEFAULT_AUTH'' 0, Keyword ''DEFINER'' 0, Keyword ''DEFINITION'' 0,
    Keyword ''DEGREES'' 0, Keyword ''DELAYED'' RESERVED, Keyword ''DELAY_KEY_WRITE'' 0,
    Keyword ''DELETE'' RESERVED, Keyword ''DENSE_RANK'' RESERVED, Keyword ''DESC'' RESERVED,
    Keyword ''DESCRIBE'' RESERVED, Keyword ''DESCRIPTION'' 0, Keyword ''DETERMINISTIC'' RESERVED,
    Keyword ''DIAGNOSTICS'' 0, Keyword ''DIRECTORY'' 0, Keyword ''DISABLE'' 0,
    Keyword ''DISCARD'' 0, Keyword ''DISK'' 0, Keyword ''DISTINCT'' RESERVED,
    Keyword ''DISTINCTROW'' RESERVED, Keyword ''DIV'' RESERVED, Keyword ''DO'' RESTRICTED_LABEL,
    Keyword ''DOUBLE'' RESERVED, Keyword ''DROP'' RESERVED, Keyword ''DUAL'' RESERVED,
    Keyword ''DUMPFILE'' 0, Keyword ''DUPLICATE'' 0, Keyword ''DYNAMIC'' 0]"

definition keywords_E :: "keyword_entry list" where
  "keywords_E = [
    Keyword ''EACH'' RESERVED, Keyword ''ELSE'' RESERVED, Keyword ''ELSEIF'' RESERVED,
    Keyword ''ELT'' 0, Keyword ''EMPTY'' RESERVED, Keyword ''ENABLE'' 0,
    Keyword ''ENCLOSED'' RESERVED, Keyword ''ENCRYPTION'' 0, Keyword ''END'' RESTRICTED_LABEL,
    Keyword ''ENDS'' 0, Keyword ''ENFORCED'' 0, Keyword ''ENGINE'' 0, Keyword ''ENGINES'' 0,
    Keyword ''ENGINE_ATTRIBUTE'' 0, Keyword ''ENUM'' 0, Keyword ''ERROR'' 0, Keyword ''ERRORS'' 0,
    Keyword ''ESCAPE'' 0, Keyword ''ESCAPED'' RESERVED, Keyword ''EVENT'' RESTRICTED_ROLE,
    Keyword ''EVENTS'' 0, Keyword ''EVERY'' 0, Keyword ''EXCEPT'' RESERVED,
    Keyword ''EXCHANGE'' 0, Keyword ''EXCLUDE'' 0,
    Keyword ''EXECUTE'' (RESTRICTED_LABEL OR RESTRICTED_ROLE), Keyword ''EXISTS'' RESERVED,
    Keyword ''EXIT'' RESERVED, Keyword ''EXP'' 0, Keyword ''EXPANSION'' 0, Keyword ''EXPIRE'' 0,
    Keyword ''EXPLAIN'' RESERVED, Keyword ''EXPORT'' 0, Keyword ''EXPORT_SET'' 0,
    Keyword ''EXTENDED'' 0, Keyword ''EXTENT_SIZE'' 0, Keyword ''EXTRACT'' 0]"

definition keywords_F :: "keyword_entry list" where
  "keywords_F = [
    Keyword ''FACTOR'' 0, Keyword ''FAILED_LOGIN_ATTEMPTS'' 0, Keyword ''FALSE'' RESERVED,
    Keyword ''FAST'' 0, Keyword ''FAULTS'' 0, Keyword ''FETCH'' RESERVED, Keyword ''FIELD'' 0,
    Keyword ''FIELDS'' 0, Keyword ''FILE'' RESTRICTED_ROLE, Keyword ''FILE_BLOCK_SIZE'' 0,
    Keyword ''FILTER'' 0, Keyword ''FIND_IN_SET'' 0, Keyword ''FINISH'' 0, Keyword ''FIRST'' 0,
    Keyword ''FIRST_VALUE'' RESERVED, Keyword ''FIXED'' 0, Keyword ''FLOAT'' RESERVED,
    Keyword ''FLOAT4'' RESERVED, Keyword ''FLOAT8'' RESERVED, Keyword ''FLOOR'' 0,
    Keyword ''FLUSH'' RESTRICTED_LABEL, Keyword ''FOLLOWING'' 0,
    Keyword ''FOLLOWS'' RESTRICTED_LABEL, Keyword ''FOR'' RESERVED, Keyword ''FORCE'' RESERVED,
    Keyword ''FOREIGN'' RESERVED, Keyword ''FORMAT'' 0, Keyword ''FOUND'' 0,
    Keyword ''FOUND_ROWS'' 0, Keyword ''FROM'' RESERVED, Keyword ''FROM_BASE64'' 0,
    Keyword ''FROM_DAYS'' 0, Keyword ''FROM_UNIXTIME'' 0, Keyword ''FULL'' 0,
    Keyword ''FULLTEXT'' RESERVED, Keyword ''FUNCTION'' RESERVED]"

definition keywords_G :: "keyword_entry list" where
  "keywords_G = [
    Keyword ''GENERAL'' 0, Keyword ''GENERATE'' 0, Keyword ''GENERATED'' RESERVED,
    Keyword ''GEOMCOLLECTION'' 0, Keyword ''GEOMETRY'' 0, Keyword ''GEOMETRYCOLLECTION'' 0,
    Keyword ''GET'' RESERVED, Keyword ''GET_FORMAT'' 0, Keyword ''GET_SOURCE_PUBLIC_KEY'' 0,
    Keyword ''GLOBAL'' 0, Keyword ''GRANT'' RESERVED, Keyword ''GRANTS'' 0,
    Keyword ''GREATEST'' 0, Keyword ''GROUP'' RESERVED, Keyword ''GROUPING'' RESERVED,
    Keyword ''GROUPS'' RESERVED, Keyword ''GROUP_CONCAT'' 0, Keyword ''GROUP_REPLICATION'' 0,
    Keyword ''GTIDS'' 0, Keyword ''GTID_ONLY'' 0]"

definition keywords_H :: "keyword_entry list" where
  "keywords_H = [
    Keyword ''HANDLER'' RESTRICTED_LABEL, Keyword ''HASH'' 0, Keyword ''HAVING'' RESERVED,
    Keyword ''HELP'' RESTRICTED_LABEL, Keyword ''HEX'' 0, Keyword ''HIGH_PRIORITY'' RESERVED,
    Keyword ''HISTOGRAM'' 0, Keyword ''HISTORY'' 0, Keyword ''HOST'' 0, Keyword ''HOSTS'' 0,
    Keyword ''HOUR'' 0, Keyword ''HOUR_MICROSECOND'' RESERVED, Keyword ''HOUR_MINUTE'' RESERVED,
    Keyword ''HOUR_SECOND'' RESERVED]"

definition keywords_I :: "keyword_entry list" where
  "keywords_I = [
    Keyword ''IDENTIFIED'' 0, Keyword ''IF'' RESERVED, Keyword ''IFNULL'' 0,
    Keyword ''IGNORE'' RESERVED, Keyword ''IGNORE_SERVER_IDS'' 0,
    Keyword ''IMPORT'' RESTRICTED_LABEL, Keyword ''IN'' RESERVED, Keyword ''INACTIVE'' 0,
    Keyword ''INDEX'' RESERVED, Keyword ''INDEXES'' 0, Keyword ''INFILE'' RESERVED,
    Keyword ''INITIAL'' 0, Keyword ''INITIAL_SIZE'' 0, Keyword ''INITIATE'' 0,
    Keyword ''INNER'' RESERVED, Keyword ''INOUT'' RESERVED, Keyword ''INSENSITIVE'' RESERVED,
    Keyword ''INSERT'' RESERVED, Keyword ''INSERT_METHOD'' 0,
    Keyword ''INSTALL'' RESTRICTED_LABEL, Keyword ''INSTANCE'' 0, Keyword ''INSTR'' 0,
    Keyword ''INT'' RESERVED, Keyword ''INT1'' RESERVED, Keyword ''INT2'' RESERVED,
    Keyword ''INT3'' RESERVED, Keyword ''INT4'' RESERVED, Keyword ''INT8'' RESERVED,
    Keyword ''INTEGER'' RESERVED, Keyword ''INTERSECT'' RESERVED, Keyword ''INTERVAL'' RESERVED,
    Keyword ''INTO'' RESERVED, Keyword ''INVISIBLE'' 0, Keyword ''INVOKER'' 0, Keyword ''IO'' 0,
    Keyword ''IO_AFTER_GTIDS'' RESERVED, Keyword ''IO_BEFORE_GTIDS'' RESERVED,
    Keyword ''IO_THREAD'' 0, Keyword ''IPC'' 0, Keyword ''IS'' RESERVED, Keyword ''ISNULL'' 0,
    Keyword ''ISOLATION'' 0, Keyword ''ISSUER'' 0, Keyword ''IS_UUID'' 0,
    Keyword ''ITERATE'' RESERVED]"

definition keywords_J :: "keyword_entry list" where
  "keywords_J = [
    Keyword ''JOIN'' RESERVED, Keyword ''JSON'' 0, Keyword ''JSON_ARRAY'' 0,
    Keyword ''JSON_CONTAINS'' 0, Keyword ''JSON_CONTAINS_PATH'' 0, Keyword ''JSON_EXTRACT'' 0,
    Keyword ''JSON_INSERT'' 0, Keyword ''JSON_KEYS'' 0, Keyword ''JSON_LENGTH'' 0,
    Keyword ''JSON_OBJECT'' 0, Keyword ''JSON_QUOTE'' 0, Keyword ''JSON_REMOVE'' 0,
    Keyword ''JSON_REPLACE'' 0, Keyword ''JSON_SET'' 0, Keyword ''JSON_TABLE'' RESERVED,
    Keyword ''JSON_TYPE'' 0, Keyword ''JSON_UNQUOTE'' 0, Keyword ''JSON_VALID'' 0,
    Keyword ''JSON_VALUE'' 0]"

definition keywords_K :: "keyword_entry list" where
  "keywords_K = [
    Keyword ''KEY'' RESERVED, Keyword ''KEYRING'' 0, Keyword ''KEYS'' RESERVED,
    Keyword ''KEY_BLOCK_SIZE'' 0, Keyword ''KILL'' RESERVED]"

definition keywords_L :: "keyword_entry list" where
  "keywords_L = [
    Keyword ''LAG'' RESERVED, Keyword ''LANGUAGE'' RESTRICTED_LABEL, Keyword ''LAST'' 0,
    Keyword ''LAST_DAY'' 0, Keyword ''LAST_INSERT_ID'' 0, Keyword ''LAST_VALUE'' RESERVED,
    Keyword ''LATERAL'' RESERVED, Keyword ''LCASE'' 0, Keyword ''LEAD'' RESERVED,
    Keyword ''LEADING'' RESERVED, Keyword ''LEAST'' 0, Keyword ''LEAVE'' RESERVED,
    Keyword ''LEAVES'' 0, Keyword ''LEFT'' RESERVED, Keyword ''LENGTH'' 0, Keyword ''LESS'' 0,
    Keyword ''LEVEL'' 0, Keyword ''LIKE'' RESERVED, Keyword ''LIMIT'' RESERVED,
    Keyword ''LINEAR'' RESERVED, Keyword ''LINES'' RESERVED, Keyword ''LINESTRING'' 0,
    Keyword ''LIST'' 0, Keyword ''LN'' 0, Keyword ''LOAD'' RESERVED, Keyword ''LOCAL'' 0,
    Keyword ''LOCALTIME'' RESERVED, Keyword ''LOCALTIMESTAMP'' RESERVED, Keyword ''LOCATE'' 0,
    Keyword ''LOCK'' RESERVED, Keyword ''LOCKED'' 0, Keyword ''LOCKS'' 0, Keyword ''LOG'' 0,
    Keyword ''LOG10'' 0, Keyword ''LOG2'' 0, Keyword ''LOGFILE'' 0, Keyword ''LOGS'' 0,
    Keyword ''LONG'' RESERVED, Keyword ''LONGBLOB'' RESERVED, Keyword ''LONGTEXT'' RESERVED,
    Keyword ''LOOP'' RESERVED, Keyword ''LOWER'' 0, Keyword ''LOW_PRIORITY'' RESERVED,
    Keyword ''LPAD'' 0, Keyword ''LTRIM'' 0]"

definition keywords_M :: "keyword_entry list" where
  "keywords_M = [
    Keyword ''MAKEDATE'' 0, Keyword ''MAKETIME'' 0, Keyword ''MAKE_SET'' 0, Keyword ''MANUAL'' 0,
    Keyword ''MASTER'' 0, Keyword ''MATCH'' RESERVED, Keyword ''MAX'' 0,
    Keyword ''MAXVALUE'' RESERVED, Keyword ''MAX_CONNECTIONS_PER_HOUR'' 0,
    Keyword ''MAX_QUERIES_PER_HOUR'' 0, Keyword ''MAX_ROWS'' 0, Keyword ''MAX_SIZE'' 0,
    Keyword ''MAX_UPDATES_PER_HOUR'' 0, Keyword ''MAX_USER_CONNECTIONS'' 0, Keyword ''MD5'' 0,
    Keyword ''MEDIUM'' 0, Keyword ''MEDIUMBLOB'' RESERVED, Keyword ''MEDIUMINT'' RESERVED,
    Keyword ''MEDIUMTEXT'' RESERVED, Keyword ''MEMBER'' 0, Keyword ''MEMORY'' 0,
    Keyword ''MERGE'' 0, Keyword ''MESSAGE_TEXT'' 0, Keyword ''MICROSECOND'' 0, Keyword ''MID'' 0,
    Keyword ''MIDDLEINT'' RESERVED, Keyword ''MIGRATE'' 0, Keyword ''MIN'' 0,
    Keyword ''MINUTE'' 0, Keyword ''MINUTE_MICROSECOND'' RESERVED,
    Keyword ''MINUTE_SECOND'' RESERVED, Keyword ''MIN_ROWS'' 0, Keyword ''MOD'' RESERVED,
    Keyword ''MODE'' 0, Keyword ''MODIFIES'' RESERVED, Keyword ''MODIFY'' 0, Keyword ''MONTH'' 0,
    Keyword ''MONTHNAME'' 0, Keyword ''MULTILINESTRING'' 0, Keyword ''MULTIPOINT'' 0,
    Keyword ''MULTIPOLYGON'' 0, Keyword ''MUTEX'' 0, Keyword ''MYSQL_ERRNO'' 0]"

definition keywords_N :: "keyword_entry list" where
  "keywords_N = [
    Keyword ''NAME'' 0, Keyword ''NAMES'' 0, Keyword ''NATIONAL'' 0, Keyword ''NATURAL'' RESERVED,
    Keyword ''NCHAR'' 0, Keyword ''NDB'' 0, Keyword ''NDBCLUSTER'' 0, Keyword ''NESTED'' 0,
    Keyword ''NETWORK_NAMESPACE'' 0, Keyword ''NEVER'' 0, Keyword ''NEW'' 0, Keyword ''NEXT'' 0,
    Keyword ''NO'' RESTRICTED_LABEL, Keyword ''NODEGROUP'' 0, Keyword ''NONE'' RESTRICTED_ROLE,
    Keyword ''NOT'' RESERVED, Keyword ''NOW'' 0, Keyword ''NOWAIT'' 0, Keyword ''NO_WAIT'' 0,
    Keyword ''NO_WRITE_TO_BINLOG'' RESERVED, Keyword ''NTH_VALUE'' RESERVED,
    Keyword ''NTILE'' RESERVED, Keyword ''NULL'' RESERVED, Keyword ''NULLIF'' 0,
    Keyword ''NULLS'' 0, Keyword ''NUMBER'' 0, Keyword ''NUMERIC'' RESERVED,
    Keyword ''NVARCHAR'' 0]"

definition keywords_O :: "keyword_entry list" where
  "keywords_O = [
    Keyword ''OCT'' 0, Keyword ''OCTET_LENGTH'' 0, Keyword ''OF'' RESERVED, Keyword ''OFF'' 0,
    Keyword ''OFFSET'' 0, Keyword ''OJ'' 0, Keyword ''OLD'' 0, Keyword ''ON'' RESERVED,
    Keyword ''ONE'' 0, Keyword ''ONLY'' 0, Keyword ''OPEN'' 0, Keyword ''OPTIMIZE'' RESERVED,
    Keyword ''OPTIMIZER_COSTS'' RESERVED, Keyword ''OPTION'' RESERVED, Keyword ''OPTIONAL'' 0,
    Keyword ''OPTIONALLY'' RESERVED, Keyword ''OPTIONS'' 0, Keyword ''OR'' RESERVED,
    Keyword ''ORD'' 0, Keyword ''ORDER'' RESERVED, Keyword ''ORDINALITY'' 0,
    Keyword ''ORGANIZATION'' 0, Keyword ''OTHERS'' 0, Keyword ''OUT'' RESERVED,
    Keyword ''OUTER'' RESERVED, Keyword ''OUTFILE'' RESERVED, Keyword ''OVER'' RESERVED,
    Keyword ''OWNER'' 0]"

definition keywords_P :: "keyword_entry list" where
  "keywords_P = [
    Keyword ''PACK_KEYS'' 0, Keyword ''PAGE'' 0, Keyword ''PARALLEL'' 0, Keyword ''PARSER'' 0,
    Keyword ''PARSE_TREE'' 0, Keyword ''PARTIAL'' 0, Keyword ''PARTITION'' RESERVED,
    Keyword ''PARTITIONING'' 0, Keyword ''PARTITIONS'' 0, Keyword ''PASSWORD'' 0,
    Keyword ''PASSWORD_LOCK_TIME'' 0, Keyword ''PATH'' 0, Keyword ''PERCENT_RANK'' RESERVED,
    Keyword ''PERIOD_ADD'' 0, Keyword ''PERIOD_DIFF'' 0, Keyword ''PERSIST'' 0,
    Keyword ''PERSIST_ONLY'' 0, Keyword ''PHASE'' 0, Keyword ''PI'' 0, Keyword ''PLUGIN'' 0,
    Keyword ''PLUGINS'' 0, Keyword ''PLUGIN_DIR'' 0, Keyword ''POINT'' 0, Keyword ''POLYGON'' 0,
    Keyword ''PORT'' 0, Keyword ''POSITION'' 0, Keyword ''POW'' 0, Keyword ''POWER'' 0,
    Keyword ''PRECEDES'' RESTRICTED_LABEL, Keyword ''PRECEDING'' 0,
    Keyword ''PRECISION'' RESERVED, Keyword ''PREPARE'' RESTRICTED_LABEL, Keyword ''PRESERVE'' 0,
    Keyword ''PREV'' 0, Keyword ''PRIMARY'' RESERVED, Keyword ''PRIVILEGES'' 0,
    Keyword ''PRIVILEGE_CHECKS_USER'' 0, Keyword ''PROCEDURE'' RESERVED,
    Keyword ''PROCESS'' RESTRICTED_ROLE, Keyword ''PROCESSLIST'' 0, Keyword ''PROFILE'' 0,
    Keyword ''PROFILES'' 0, Keyword ''PROXY'' RESTRICTED_ROLE, Keyword ''PURGE'' RESERVED]"

definition keywords_Q :: "keyword_entry list" where
  "keywords_Q = [
    Keyword ''QUALIFY'' 0, Keyword ''QUARTER'' 0, Keyword ''QUERY'' 0, Keyword ''QUICK'' 0,
    Keyword ''QUOTE'' 0]"

definition keywords_R :: "keyword_entry list" where
  "keywords_R = [
    Keyword ''RADIANS'' 0, Keyword ''RAND'' 0, Keyword ''RANDOM'' 0, Keyword ''RANDOM_BYTES'' 0,
    Keyword ''RANGE'' RESERVED, Keyword ''RANK'' RESERVED, Keyword ''READ'' RESERVED,
    Keyword ''READS'' RESERVED, Keyword ''READ_ONLY'' 0, Keyword ''READ_WRITE'' RESERVED,
    Keyword ''REAL'' RESERVED, Keyword ''REBUILD'' 0, Keyword ''RECOVER'' 0,
    Keyword ''RECURSIVE'' RESERVED, Keyword ''REDO_BUFFER_SIZE'' 0, Keyword ''REDUNDANT'' 0,
    Keyword ''REFERENCE'' 0, Keyword ''REFERENCES'' RESERVED, Keyword ''REGEXP'' RESERVED,
    Keyword ''REGEXP_INSTR'' 0, Keyword ''REGEXP_LIKE'' 0, Keyword ''REGEXP_REPLACE'' 0,
    Keyword ''REGEXP_SUBSTR'' 0, Keyword ''REGISTRATION'' 0, Keyword ''RELAY'' 0,
    Keyword ''RELAYLOG'' 0, Keyword ''RELAY_LOG_FILE'' 0, Keyword ''RELAY_LOG_POS'' 0,
    Keyword ''RELAY_THREAD'' 0, Keyword ''RELEASE'' RESERVED, Keyword ''RELOAD'' RESTRICTED_ROLE,
    Keyword ''REMOVE'' 0, Keyword ''RENAME'' RESERVED, Keyword ''REORGANIZE'' 0,
    Keyword ''REPAIR'' RESTRICTED_LABEL, Keyword ''REPEAT'' RESERVED, Keyword ''REPEATABLE'' 0,
    Keyword ''REPLACE'' RESERVED, Keyword ''REPLICA'' 0, Keyword ''REPLICAS'' 0,
    Keyword ''REPLICATE_DO_DB'' 0, Keyword ''REPLICATE_DO_TABLE'' 0,
    Keyword ''REPLICATE_IGNORE_DB'' 0, Keyword ''REPLICATE_IGNORE_TABLE'' 0,
    Keyword ''REPLICATE_REWRITE_DB'' 0, Keyword ''REPLICATE_WILD_DO_TABLE'' 0,
    Keyword ''REPLICATE_WILD_IGNORE_TABLE'' 0, Keyword ''REPLICATION'' RESTRICTED_ROLE,
    Keyword ''REQUIRE'' RESERVED, Keyword ''REQUIRE_ROW_FORMAT'' 0,
    Keyword ''REQUIRE_TABLE_PRIMARY_KEY_CHECK'' 0, Keyword ''RESET'' RESTRICTED_LABEL,
    Keyword ''RESIGNAL'' RESERVED, Keyword ''RESOURCE'' RESTRICTED_ROLE, Keyword ''RESPECT'' 0,
    Keyword ''RESTART'' (RESTRICTED_LABEL OR RESTRICTED_ROLE), Keyword ''RESTORE'' 0,
    Keyword ''RESTRICT'' RESERVED, Keyword ''RESUME'' 0, Keyword ''RETAIN'' 0,
    Keyword ''RETURN'' RESERVED, Keyword ''RETURNED_SQLSTATE'' 0, Keyword ''RETURNING'' 0,
    Keyword ''RETURNS'' 0, Keyword ''REUSE'' 0, Keyword ''REVERSE'' 0,
    Keyword ''REVOKE'' RESERVED, Keyword ''RIGHT'' RESERVED, Keyword ''RLIKE'' RESERVED,
    Keyword ''ROLE'' 0, Keyword ''ROLLBACK'' RESTRICTED_LABEL, Keyword ''ROLLUP'' 0,
    Keyword ''ROTATE'' 0, Keyword ''ROUND'' 0, Keyword ''ROUTINE'' 0, Keyword ''ROW'' RESERVED,
    Keyword ''ROWS'' RESERVED, Keyword ''ROW_COUNT'' 0, Keyword ''ROW_FORMAT'' 0,
    Keyword ''ROW_NUMBER'' RESERVED, Keyword ''RPAD'' 0, Keyword ''RTREE'' 0, Keyword ''RTRIM'' 0]"

definition keywords_S :: "keyword_entry list" where
  "keywords_S = [
    Keyword ''S3'' 0, Keyword ''SAVEPOINT'' RESTRICTED_LABEL, Keyword ''SCHEDULE'' 0,
    Keyword ''SCHEMA'' RESERVED, Keyword ''SCHEMAS'' RESERVED, Keyword ''SCHEMA_NAME'' 0,
    Keyword ''SECOND'' 0, Keyword ''SECONDARY'' 0, Keyword ''SECONDARY_ENGINE'' 0,
    Keyword ''SECONDARY_ENGINE_ATTRIBUTE'' 0, Keyword ''SECONDARY_LOAD'' 0,
    Keyword ''SECONDARY_UNLOAD'' 0, Keyword ''SECOND_MICROSECOND'' RESERVED,
    Keyword ''SECURITY'' 0, Keyword ''SEC_TO_TIME'' 0, Keyword ''SELECT'' RESERVED,
    Keyword ''SENSITIVE'' RESERVED, Keyword ''SEPARATOR'' RESERVED, Keyword ''SERIAL'' 0,
    Keyword ''SERIALIZABLE'' 0, Keyword ''SERVER'' 0, Keyword ''SESSION'' 0,
    Keyword ''SESSION_USER'' 0, Keyword ''SET'' RESERVED, Keyword ''SHA'' 0, Keyword ''SHA1'' 0,
    Keyword ''SHA2'' 0, Keyword ''SHARE'' 0, Keyword ''SHOW'' RESERVED,
    Keyword ''SHUTDOWN'' (RESTRICTED_LABEL OR RESTRICTED_ROLE), Keyword ''SIGN'' 0,
    Keyword ''SIGNAL'' RESERVED, Keyword ''SIGNED'' RESTRICTED_LABEL, Keyword ''SIMPLE'' 0,
    Keyword ''SIN'' 0, Keyword ''SKIP'' 0, Keyword ''SLAVE'' RESTRICTED_LABEL, Keyword ''SLOW'' 0,
    Keyword ''SMALLINT'' RESERVED, Keyword ''SNAPSHOT'' 0, Keyword ''SOCKET'' 0,
    Keyword ''SOME'' 0, Keyword ''SONAME'' 0, Keyword ''SOUNDEX'' 0, Keyword ''SOUNDS'' 0,
    Keyword ''SOURCE'' 0, Keyword ''SOURCE_AUTO_POSITION'' 0, Keyword ''SOURCE_BIND'' 0,
    Keyword ''SOURCE_COMPRESSION_ALGORITHMS'' 0, Keyword ''SOURCE_CONNECTION_AUTO_FAILOVER'' 0,
    Keyword ''SOURCE_CONNECT_RETRY'' 0, Keyword ''SOURCE_DELAY'' 0,
    Keyword ''SOURCE_HEARTBEAT_PERIOD'' 0, Keyword ''SOURCE_HOST'' 0,
    Keyword ''SOURCE_LOG_FILE'' 0, Keyword ''SOURCE_LOG_POS'' 0, Keyword ''SOURCE_PASSWORD'' 0,
    Keyword ''SOURCE_PORT'' 0, Keyword ''SOURCE_PUBLIC_KEY_PATH'' 0,
    Keyword ''SOURCE_RETRY_COUNT'' 0, Keyword ''SOURCE_SSL'' 0, Keyword ''SOURCE_SSL_CA'' 0,
    Keyword ''SOURCE_SSL_CAPATH'' 0, Keyword ''SOURCE_SSL_CERT'' 0,
    Keyword ''SOURCE_SSL_CIPHER'' 0, Keyword ''SOURCE_SSL_CRL'' 0,
    Keyword ''SOURCE_SSL_CRLPATH'' 0, Keyword ''SOURCE_SSL_KEY'' 0,
    Keyword ''SOURCE_SSL_VERIFY_SERVER_CERT'' 0, Keyword ''SOURCE_TLS_CIPHERSUITES'' 0,
    Keyword ''SOURCE_TLS_VERSION'' 0, Keyword ''SOURCE_USER'' 0,
    Keyword ''SOURCE_ZSTD_COMPRESSION_LEVEL'' 0, Keyword ''SPACE'' 0,
    Keyword ''SPATIAL'' RESERVED, Keyword ''SPECIFIC'' RESERVED, Keyword ''SQL'' RESERVED,
    Keyword ''SQLEXCEPTION'' RESERVED, Keyword ''SQLSTATE'' RESERVED,
    Keyword ''SQLWARNING'' RESERVED, Keyword ''SQL_AFTER_GTIDS'' 0,
    Keyword ''SQL_AFTER_MTS_GAPS'' 0, Keyword ''SQL_BEFORE_GTIDS'' 0,
    Keyword ''SQL_BIG_RESULT'' RESERVED, Keyword ''SQL_BUFFER_RESULT'' 0,
    Keyword ''SQL_CALC_FOUND_ROWS'' RESERVED, Keyword ''SQL_NO_CACHE'' 0,
    Keyword ''SQL_SMALL_RESULT'' RESERVED, Keyword ''SQL_THREAD'' 0, Keyword ''SQL_TSI_DAY'' 0,
    Keyword ''SQL_TSI_HOUR'' 0, Keyword ''SQL_TSI_MINUTE'' 0, Keyword ''SQL_TSI_MONTH'' 0,
    Keyword ''SQL_TSI_QUARTER'' 0, Keyword ''SQL_TSI_SECOND'' 0, Keyword ''SQL_TSI_WEEK'' 0,
    Keyword ''SQL_TSI_YEAR'' 0, Keyword ''SQRT'' 0, Keyword ''SRID'' 0, Keyword ''SSL'' RESERVED,
    Keyword ''STACKED'' 0, Keyword ''START'' RESTRICTED_LABEL, Keyword ''STARTING'' RESERVED,
    Keyword ''STARTS'' 0, Keyword ''STATS_AUTO_RECALC'' 0, Keyword ''STATS_PERSISTENT'' 0,
    Keyword ''STATS_SAMPLE_PAGES'' 0, Keyword ''STATUS'' 0, Keyword ''STOP'' RESTRICTED_LABEL,
    Keyword ''STORAGE'' 0, Keyword ''STORED'' RESERVED, Keyword ''STRAIGHT_JOIN'' RESERVED,
    Keyword ''STRCMP'' 0, Keyword ''STREAM'' 0, Keyword ''STRING'' 0, Keyword ''STR_TO_DATE'' 0,
    Keyword ''SUBCLASS_ORIGIN'' 0, Keyword ''SUBDATE'' 0, Keyword ''SUBJECT'' 0,
    Keyword ''SUBPARTITION'' 0, Keyword ''SUBPARTITIONS'' 0, Keyword ''SUBSTR'' 0,
    Keyword ''SUBSTRING'' 0, Keyword ''SUBSTRING_INDEX'' 0, Keyword ''SUBTIME'' 0,
    Keyword ''SUM'' 0, Keyword ''SUPER'' RESTRICTED_ROLE, Keyword ''SUSPEND'' 0,
    Keyword ''SWAPS'' 0, Keyword ''SWITCHES'' 0, Keyword ''SYSDATE'' 0,
    Keyword ''SYSTEM'' RESERVED, Keyword ''SYSTEM_USER'' 0]"

definition keywords_T :: "keyword_entry list" where
  "keywords_T = [
    Keyword ''TABLE'' RESERVED, Keyword ''TABLES'' 0, Keyword ''TABLESAMPLE'' 0,
    Keyword ''TABLESPACE'' 0, Keyword ''TABLE_CHECKSUM'' 0, Keyword ''TABLE_NAME'' 0,
    Keyword ''TAN'' 0, Keyword ''TEMPORARY'' 0, Keyword ''TEMPTABLE'' 0,
    Keyword ''TERMINATED'' RESERVED, Keyword ''TEXT'' 0, Keyword ''THAN'' 0,
    Keyword ''THEN'' RESERVED, Keyword ''THREAD_PRIORITY'' 0, Keyword ''TIES'' 0,
    Keyword ''TIME'' 0, Keyword ''TIMEDIFF'' 0, Keyword ''TIMESTAMP'' 0,
    Keyword ''TIMESTAMPADD'' 0, Keyword ''TIMESTAMPDIFF'' 0, Keyword ''TIME_FORMAT'' 0,
    Keyword ''TIME_TO_SEC'' 0, Keyword ''TINYBLOB'' RESERVED, Keyword ''TINYINT'' RESERVED,
    Keyword ''TINYTEXT'' RESERVED, Keyword ''TLS'' 0, Keyword ''TO'' RESERVED,
    Keyword ''TO_BASE64'' 0, Keyword ''TO_DAYS'' 0, Keyword ''TO_SECONDS'' 0,
    Keyword ''TRAILING'' RESERVED, Keyword ''TRANSACTION'' 0, Keyword ''TRIGGER'' RESERVED,
    Keyword ''TRIGGERS'' 0, Keyword ''TRIM'' 0, Keyword ''TRUE'' RESERVED,
    Keyword ''TRUNCATE'' RESTRICTED_LABEL, Keyword ''TYPE'' 0, Keyword ''TYPES'' 0]"

definition keywords_U :: "keyword_entry list" where
  "keywords_U = [
    Keyword ''UCASE'' 0, Keyword ''UNBOUNDED'' 0, Keyword ''UNCOMMITTED'' 0,
    Keyword ''UNCOMPRESS'' 0, Keyword ''UNCOMPRESSED_LENGTH'' 0, Keyword ''UNDEFINED'' 0,
    Keyword ''UNDO'' RESERVED, Keyword ''UNDOFILE'' 0, Keyword ''UNDO_BUFFER_SIZE'' 0,
    Keyword ''UNHEX'' 0, Keyword ''UNICODE'' RESTRICTED_LABEL,
    Keyword ''UNINSTALL'' RESTRICTED_LABEL, Keyword ''UNION'' RESERVED,
    Keyword ''UNIQUE'' RESERVED, Keyword ''UNIX_TIMESTAMP'' 0, Keyword ''UNKNOWN'' 0,
    Keyword ''UNLOCK'' RESERVED, Keyword ''UNREGISTER'' 0, Keyword ''UNSIGNED'' RESERVED,
    Keyword ''UNTIL'' 0, Keyword ''UPDATE'' RESERVED, Keyword ''UPGRADE'' 0, Keyword ''UPPER'' 0,
    Keyword ''URL'' 0, Keyword ''USAGE'' RESERVED, Keyword ''USE'' RESERVED, Keyword ''USER'' 0,
    Keyword ''USER_RESOURCES'' 0, Keyword ''USE_FRM'' 0, Keyword ''USING'' RESERVED,
    Keyword ''UTC'' 0, Keyword ''UTC_DATE'' RESERVED, Keyword ''UTC_TIME'' RESERVED,
    Keyword ''UTC_TIMESTAMP'' RESERVED, Keyword ''UUID'' 0, Keyword ''UUID_TO_BIN'' 0]"

definition keywords_V :: "keyword_entry list" where
  "keywords_V = [
    Keyword ''VALIDATION'' 0, Keyword ''VALUE'' 0, Keyword ''VALUES'' RESERVED,
    Keyword ''VARBINARY'' RESERVED, Keyword ''VARCHAR'' RESERVED,
    Keyword ''VARCHARACTER'' RESERVED, Keyword ''VARIABLES'' 0, Keyword ''VARYING'' RESERVED,
    Keyword ''VCPU'' 0, Keyword ''VERSION'' 0, Keyword ''VIEW'' 0, Keyword ''VIRTUAL'' RESERVED,
    Keyword ''VISIBLE'' 0]"

definition keywords_W :: "keyword_entry list" where
  "keywords_W = [
    Keyword ''WAIT'' 0, Keyword ''WARNINGS'' 0, Keyword ''WEEK'' 0, Keyword ''WEEKDAY'' 0,
    Keyword ''WEEKOFYEAR'' 0, Keyword ''WEIGHT_STRING'' 0, Keyword ''WHEN'' RESERVED,
    Keyword ''WHERE'' RESERVED, Keyword ''WHILE'' RESERVED, Keyword ''WINDOW'' RESERVED,
    Keyword ''WITH'' RESERVED, Keyword ''WITHOUT'' 0, Keyword ''WORK'' 0, Keyword ''WRAPPER'' 0,
    Keyword ''WRITE'' RESERVED]"

definition keywords_X :: "keyword_entry list" where
  "keywords_X = [
    Keyword ''X509'' 0, Keyword ''XA'' RESTRICTED_LABEL, Keyword ''XID'' 0, Keyword ''XML'' 0,
    Keyword ''XOR'' RESERVED]"

definition keywords_Y :: "keyword_entry list" where
  "keywords_Y = [
    Keyword ''YEAR'' 0, Keyword ''YEARWEEK'' 0, Keyword ''YEAR_MONTH'' RESERVED]"

definition keywords_Z :: "keyword_entry list" where
  "keywords_Z = [
    Keyword ''ZEROFILL'' RESERVED, Keyword ''ZONE'' 0]"

definition keywords_underscore :: "keyword_entry list" where
  "keywords_underscore = [
    Keyword ''_FILENAME'' RESERVED]"

definition keywords_appended :: "keyword_entry list" where
  "keywords_appended = [
    Keyword ''JSON_DEPTH'' 0, Keyword ''JSON_PRETTY'' 0, Keyword ''JSON_OVERLAPS'' 0,
    Keyword ''JSON_STORAGE_SIZE'' 0, Keyword ''JSON_STORAGE_FREE'' 0,
    Keyword ''JSON_ARRAY_APPEND'' 0, Keyword ''JSON_ARRAY_INSERT'' 0, Keyword ''JSON_MERGE'' 0,
    Keyword ''JSON_MERGE_PATCH'' 0, Keyword ''JSON_MERGE_PRESERVE'' 0, Keyword ''JSON_SEARCH'' 0]"

definition keyword_blocks :: "(char \<times> keyword_entry list) list" where
  "keyword_blocks = [
    (CHR ''A'', keywords_A), (CHR ''B'', keywords_B), (CHR ''C'', keywords_C),
    (CHR ''D'', keywords_D), (CHR ''E'', keywords_E), (CHR ''F'', keywords_F),
    (CHR ''G'', keywords_G), (CHR ''H'', keywords_H), (CHR ''I'', keywords_I),
    (CHR ''J'', keywords_J), (CHR ''K'', keywords_K), (CHR ''L'', keywords_L),
    (CHR ''M'', keywords_M), (CHR ''N'', keywords_N), (CHR ''O'', keywords_O),
    (CHR ''P'', keywords_P), (CHR ''Q'', keywords_Q), (CHR ''R'', keywords_R),
    (CHR ''S'', keywords_S), (CHR ''T'', keywords_T), (CHR ''U'', keywords_U),
    (CHR ''V'', keywords_V), (CHR ''W'', keywords_W), (CHR ''X'', keywords_X),
    (CHR ''Y'', keywords_Y), (CHR ''Z'', keywords_Z), (CHR ''_'', keywords_underscore)]"

definition keyword_table :: "keyword_entry list" where
  "keyword_table = concat (map snd keyword_blocks) @ keywords_appended"

section \<open>The derived tables\<close>

record keyword_range =
  range_low :: nat
  range_high :: nat
  range_found :: bool

abbreviation KEYWORD_RANGE :: "nat \<Rightarrow> nat \<Rightarrow> keyword_range" where
  "KEYWORD_RANGE l h \<equiv> \<lparr>range_low = l, range_high = h, range_found = True\<rparr>"

definition keyword_search_range :: "char \<Rightarrow> keyword_range" where
  "keyword_search_range c =
    (if c = CHR ''A'' then KEYWORD_RANGE 0 38
     else if c = CHR ''B'' then KEYWORD_RANGE 38 64
     else if c = CHR ''C'' then KEYWORD_RANGE 64 144
     else if c = CHR ''D'' then KEYWORD_RANGE 144 195
     else if c = CHR ''E'' then KEYWORD_RANGE 195 232
     else if c = CHR ''F'' then KEYWORD_RANGE 232 268
     else if c = CHR ''G'' then KEYWORD_RANGE 268 288
     else if c = CHR ''H'' then KEYWORD_RANGE 288 302
     else if c = CHR ''I'' then KEYWORD_RANGE 302 347
     else if c = CHR ''J'' then KEYWORD_RANGE 347 366
     else if c = CHR ''K'' then KEYWORD_RANGE 366 371
     else if c = CHR ''L'' then KEYWORD_RANGE 371 416
     else if c = CHR ''M'' then KEYWORD_RANGE 416 459
     else if c = CHR ''N'' then KEYWORD_RANGE 459 487
     else if c = CHR ''O'' then KEYWORD_RANGE 487 515
     else if c = CHR ''P'' then KEYWORD_RANGE 515 559
     else if c = CHR ''Q'' then KEYWORD_RANGE 559 564
     else if c = CHR ''R'' then KEYWORD_RANGE 564 647
     else if c = CHR ''S'' then KEYWORD_RANGE 647 780
     else if c = CHR ''T'' then KEYWORD_RANGE 780 819
     else if c = CHR ''U'' then KEYWORD_RANGE 819 855
     else if c = CHR ''V'' then KEYWORD_RANGE 855 868
     else if c = CHR ''W'' then KEYWORD_RANGE 868 883
     else if c = CHR ''X'' then KEYWORD_RANGE 883 888
     else if c = CHR ''Y'' then KEYWORD_RANGE 888 891
     else if c = CHR ''Z'' then KEYWORD_RANGE 891 893
     else if c = CHR ''_'' then KEYWORD_RANGE 893 894
     else \<lparr>range_low = 0, range_high = 0, range_found = False\<rparr>)"

definition keyword_length_mask :: "char \<Rightarrow> u64" where
  "keyword_length_mask c =
    (if c = CHR ''A'' then 0x400000c6fc
     else if c = CHR ''B'' then 0xefc
     else if c = CHR ''C'' then 0x7bff8
     else if c = CHR ''D'' then 0xbfdc
     else if c = CHR ''E'' then 0x10ff8
     else if c = CHR ''F'' then 0x20aff8
     else if c = CHR ''G'' then 0x2657e8
     else if c = CHR ''H'' then 0x12af8
     else if c = CHR ''I'' then 0x2fffc
     else if c = CHR ''J'' then 0xf3f10
     else if c = CHR ''K'' then 0x4098
     else if c = CHR ''L'' then 0x57fc
     else if c = CHR ''M'' then 0x114bff8
     else if c = CHR ''N'' then 0x607fc
     else if c = CHR ''O'' then 0x95fc
     else if c = CHR ''P'' then 0x241ffc
     else if c = CHR ''Q'' then 0xa0
     else if c = CHR ''R'' then 0x88dffff8
     else if c = CHR ''S'' then 0xa4dffffc
     else if c = CHR ''T'' then 0xfffc
     else if c = CHR ''U'' then 0x96ff8
     else if c = CHR ''V'' then 0x16f0
     else if c = CHR ''W'' then 0x25f0
     else if c = CHR ''X'' then 0x1c
     else if c = CHR ''Y'' then 0x510
     else if c = CHR ''Z'' then 0x110
     else if c = CHR ''_'' then 0x200
     else 0)"

definition keyword_length_is_possible :: "char \<Rightarrow> nat \<Rightarrow> bool" where
  "keyword_length_is_possible c n \<longleftrightarrow> n < 64 \<and> keyword_length_mask c AND push_bit n 1 \<noteq> 0"

definition second_mask_row_A :: "(nat \<times> u64) list" where
  "second_mask_row_A = [
    (2, 0xc0000), (3, 0x24280a), (4, 0x1c0004), (5, 0xe0828), (6, 0x804), (7, 0x204c),
    (9, 0x82840), (10, 0x40004), (14, 0x300000), (15, 0x100000), (38, 0x40000)]"

definition second_mask_row_B :: "(nat \<times> u64) list" where
  "second_mask_row_B = [
    (2, 0x1000000), (3, 0x100), (4, 0x1104800), (5, 0x80810), (6, 0x111), (7, 0x104110),
    (9, 0x110), (10, 0x100), (11, 0x100)]"

definition second_mask_row_C :: "(nat \<times> u64) list" where
  "second_mask_row_C = [
    (3, 0xc000), (4, 0x104091), (5, 0x24881), (6, 0x124980), (7, 0x104091), (8, 0x4081),
    (9, 0x104080), (10, 0x4000), (11, 0x104080), (12, 0x104801), (13, 0x4000), (15, 0x4000),
    (16, 0x80), (17, 0x104000), (18, 0x4080)]"

definition second_mask_row_D :: "(nat \<times> u64) list" where
  "second_mask_row_D = [
    (2, 0x4000), (3, 0x111), (4, 0x120111), (6, 0x4010), (7, 0x1000111), (8, 0x100111),
    (9, 0x100101), (10, 0x11), (11, 0x111), (12, 0x10), (13, 0x10), (15, 0x11)]"

definition second_mask_row_E :: "(nat \<times> u64) list" where
  "second_mask_row_E = [
    (3, 0x802800), (4, 0x802801), (5, 0x221000), (6, 0xa62800), (7, 0x842000), (8, 0x802000),
    (9, 0x800000), (10, 0x802000), (11, 0x800000), (16, 0x2000)]"

definition second_mask_row_F :: "(nat \<times> u64) list" where
  "second_mask_row_F = [
    (3, 0x4000), (4, 0x120101), (5, 0x4911), (6, 0x4901), (7, 0x4000), (8, 0x100000),
    (9, 0x24000), (10, 0x4000), (11, 0x20100), (13, 0x20000), (15, 0x100), (21, 0x1)]"

definition second_mask_row_G :: "(nat \<times> u64) list" where
  "second_mask_row_G = [
    (3, 0x10), (5, 0xa0000), (6, 0x20800), (7, 0x10), (8, 0x20010), (9, 0x80010), (10, 0x10),
    (12, 0x20000), (14, 0x10), (17, 0x20000), (18, 0x10), (21, 0x10)]"

definition second_mask_row_H :: "(nat \<times> u64) list" where
  "second_mask_row_H = [
    (3, 0x10), (4, 0x4011), (5, 0x4000), (6, 0x1), (7, 0x101), (9, 0x100), (11, 0x4000),
    (13, 0x100), (16, 0x4000)]"

definition second_mask_row_I :: "(nat \<times> u64) list" where
  "second_mask_row_I = [
    (2, 0x46020), (3, 0xa000), (4, 0x2000), (5, 0x2000), (6, 0x43060), (7, 0xc2000), (8, 0x2000),
    (9, 0x46000), (10, 0x8), (11, 0x2000), (12, 0x2000), (13, 0x2000), (14, 0x4000), (15, 0x4000),
    (17, 0x40)]"

definition second_mask_row_J :: "(nat \<times> u64) list" where
  "second_mask_row_J = [
    (4, 0x44000), (8, 0x40000), (9, 0x40000), (10, 0x40000), (11, 0x40000), (12, 0x40000),
    (13, 0x40000), (18, 0x40000)]"

definition second_mask_row_K :: "(nat \<times> u64) list" where
  "second_mask_row_K = [
    (3, 0x10), (4, 0x110), (7, 0x10), (14, 0x10)]"

definition second_mask_row_L :: "(nat \<times> u64) list" where
  "second_mask_row_L = [
    (2, 0x2000), (3, 0x4001), (4, 0xc111), (5, 0x84114), (6, 0x4110), (7, 0x4011), (8, 0x4001),
    (9, 0x4000), (10, 0x101), (12, 0x4000), (14, 0x4001)]"

definition second_mask_row_M :: "(nat \<times> u64) list" where
  "second_mask_row_M = [
    (3, 0x4109), (4, 0x4000), (5, 0x104011), (6, 0x4111), (7, 0x100), (8, 0x4101), (9, 0x4110),
    (10, 0x100010), (11, 0x1000100), (12, 0x100010), (13, 0x100), (15, 0x100000), (18, 0x100),
    (20, 0x1), (24, 0x1)]"

definition second_mask_row_N :: "(nat \<times> u64) list" where
  "second_mask_row_N = [
    (2, 0x4000), (3, 0x4018), (4, 0x104011), (5, 0x180015), (6, 0x104010), (7, 0x104001),
    (8, 0x200001), (9, 0x84000), (10, 0x8), (17, 0x10), (18, 0x4000)]"

definition second_mask_row_O :: "(nat \<times> u64) list" where
  "second_mask_row_O = [
    (2, 0x22220), (3, 0x122824), (4, 0x20a000), (5, 0x520000), (6, 0x88020), (7, 0x108000),
    (8, 0x8000), (10, 0x28000), (12, 0x20004), (15, 0x8000)]"

definition second_mask_row_P :: "(nat \<times> u64) list" where
  "second_mask_row_P = [
    (2, 0x100), (3, 0x4000), (4, 0x24001), (5, 0x124080), (6, 0x801), (7, 0x24811), (8, 0x24001),
    (9, 0x20001), (10, 0x20811), (11, 0x20010), (12, 0x11), (18, 0x1), (21, 0x20000)]"

definition second_mask_row_Q :: "(nat \<times> u64) list" where
  "second_mask_row_Q = [
    (5, 0x100000), (7, 0x100000)]"

definition second_mask_row_R :: "(nat \<times> u64) list" where
  "second_mask_row_R = [
    (3, 0x4000), (4, 0xc011), (5, 0x84911), (6, 0x4011), (7, 0x4011), (8, 0x4010), (9, 0x4010),
    (10, 0x4010), (11, 0x10), (12, 0x11), (13, 0x10), (14, 0x10), (15, 0x10), (16, 0x10),
    (17, 0x10), (18, 0x10), (19, 0x10), (20, 0x10), (22, 0x10), (23, 0x10), (27, 0x10), (31, 0x10)]"

definition second_mask_row_S :: "(nat \<times> u64) list" where
  "second_mask_row_S = [
    (2, 0x40000000), (3, 0x150190), (4, 0xb4d80), (5, 0x588880), (6, 0x1184114), (7, 0x118c014),
    (8, 0x49b094), (9, 0x100011), (10, 0x14000), (11, 0x1094014), (12, 0x114010), (13, 0x194000),
    (14, 0x14010), (15, 0x114000), (16, 0x90010), (17, 0x94000), (18, 0x94010), (19, 0x10000),
    (20, 0x4000), (22, 0x4000), (23, 0x4000), (26, 0x10), (29, 0x4000), (31, 0x4000)]"

definition second_mask_row_T :: "(nat \<times> u64) list" where
  "second_mask_row_T = [
    (2, 0x4000), (3, 0x801), (4, 0x1020190), (5, 0x1000001), (6, 0x1), (7, 0x24100), (8, 0x20100),
    (9, 0x4110), (10, 0x4011), (11, 0x20101), (12, 0x100), (13, 0x100), (14, 0x1), (15, 0x80)]"

definition second_mask_row_U :: "(nat \<times> u64) list" where
  "second_mask_row_U = [
    (3, 0xe0000), (4, 0x142000), (5, 0x4a004), (6, 0xa000), (7, 0x4a000), (8, 0x82000),
    (9, 0x2000), (10, 0x2000), (11, 0x102000), (13, 0x80000), (14, 0x42000), (16, 0x2000),
    (19, 0x2000)]"

definition second_mask_row_V :: "(nat \<times> u64) list" where
  "second_mask_row_V = [
    (4, 0x104), (5, 0x1), (6, 0x1), (7, 0x111), (9, 0x1), (10, 0x1), (12, 0x1)]"

definition second_mask_row_W :: "(nat \<times> u64) list" where
  "second_mask_row_W = [
    (4, 0x4191), (5, 0x20080), (6, 0x100), (7, 0x20110), (8, 0x1), (10, 0x10), (13, 0x10)]"

definition second_mask_row_X :: "(nat \<times> u64) list" where
  "second_mask_row_X = [
    (2, 0x1), (3, 0x5100), (4, 0x100000000)]"

definition second_mask_row_Y :: "(nat \<times> u64) list" where
  "second_mask_row_Y = [
    (4, 0x10), (8, 0x10), (10, 0x10)]"

definition second_mask_row_Z :: "(nat \<times> u64) list" where
  "second_mask_row_Z = [
    (4, 0x4000), (8, 0x10)]"

definition second_mask_row_underscore :: "(nat \<times> u64) list" where
  "second_mask_row_underscore = [
    (9, 0x20)]"

definition second_mask_rows :: "(nat \<times> u64) list list" where
  "second_mask_rows = [
    second_mask_row_A, second_mask_row_B, second_mask_row_C, second_mask_row_D, second_mask_row_E,
    second_mask_row_F, second_mask_row_G, second_mask_row_H, second_mask_row_I, second_mask_row_J,
    second_mask_row_K, second_mask_row_L, second_mask_row_M, second_mask_row_N, second_mask_row_O,
    second_mask_row_P, second_mask_row_Q, second_mask_row_R, second_mask_row_S, second_mask_row_T,
    second_mask_row_U, second_mask_row_V, second_mask_row_W, second_mask_row_X, second_mask_row_Y,
    second_mask_row_Z, second_mask_row_underscore]"

definition hot_keywords_2 :: "char \<Rightarrow> (string \<times> nat) list" where
  "hot_keywords_2 c =
    (if c = CHR ''A'' then [(''AS'', 22)]
     else if c = CHR ''B'' then [(''BY'', 62)]
     else if c = CHR ''I'' then [(''IN'', 308), (''IF'', 303), (''IS'', 341)]
     else if c = CHR ''O'' then [(''ON'', 494), (''OR'', 504)]
     else if c = CHR ''T'' then [(''TO'', 806)]
     else [])"

definition hot_keywords_3 :: "char \<Rightarrow> (string \<times> nat) list" where
  "hot_keywords_3 c =
    (if c = CHR ''A'' then [(''AND'', 18), (''ADD'', 6), (''ALL'', 14)]
     else if c = CHR ''E'' then [(''END'', 203)]
     else if c = CHR ''F'' then [(''FOR'', 255)]
     else if c = CHR ''H'' then [(''HEX'', 292)]
     else if c = CHR ''I'' then [(''INT'', 324)]
     else if c = CHR ''K'' then [(''KEY'', 366)]
     else if c = CHR ''M'' then [(''MAX'', 422), (''MIN'', 443)]
     else if c = CHR ''N'' then [(''NOT'', 474)]
     else if c = CHR ''R'' then [(''ROW'', 639)]
     else if c = CHR ''S'' then [(''SET'', 670), (''SUM'', 772)]
     else [])"

definition hot_keywords_4 :: "char \<Rightarrow> (string \<times> nat) list" where
  "hot_keywords_4 c =
    (if c = CHR ''C'' then [(''CHAR'', 78), (''CAST'', 69), (''CALL'', 65)]
     else if c = CHR ''D'' then [(''DROP'', 190), (''DATE'', 148), (''DESC'', 176), (''DATA'', 144)]
     else if c = CHR ''F'' then [(''FROM'', 261)]
     else if c = CHR ''I'' then [(''INTO'', 333)]
     else if c = CHR ''J'' then [(''JOIN'', 347), (''JSON'', 348)]
     else if c = CHR ''L'' then [(''LIKE'', 388), (''LEFT'', 384), (''LESS'', 386)]
     else if c = CHR ''N'' then [(''NULL'', 481), (''NAME'', 459)]
     else if c = CHR ''O'' then [(''OVER'', 513)]
     else if c = CHR ''S'' then [(''SHOW'', 675)]
     else if c = CHR ''T'' then [(''TIME'', 795), (''THAN'', 791)]
     else if c = CHR ''U'' then [(''USER'', 845)]
     else if c = CHR ''V'' then [(''VIEW'', 865)]
     else if c = CHR ''W'' then [(''WITH'', 878)]
     else [])"

definition hot_keywords_5 :: "char \<Rightarrow> (string \<times> nat) list" where
  "hot_keywords_5 c =
    (if c = CHR ''A'' then [(''ALTER'', 15)]
     else if c = CHR ''B'' then [(''BEGIN'', 40)]
     else if c = CHR ''C'' then [(''COUNT'', 127)]
     else if c = CHR ''G'' then [(''GROUP'', 281), (''GRANT'', 278)]
     else if c = CHR ''I'' then [(''INDEX'', 310)]
     else if c = CHR ''L'' then [(''LIMIT'', 389)]
     else if c = CHR ''O'' then [(''ORDER'', 506)]
     else if c = CHR ''P'' then [(''POINT'', 537)]
     else if c = CHR ''T'' then [(''TABLE'', 780)]
     else if c = CHR ''U'' then [(''USING'', 848), (''UNION'', 831)]
     else if c = CHR ''W'' then [(''WHERE'', 875)]
     else [])"

definition hot_keywords_6 :: "char \<Rightarrow> (string \<times> nat) list" where
  "hot_keywords_6 c =
    (if c = CHR ''C'' then [(''CREATE'', 130), (''CONCAT'', 108), (''COLUMN'', 95)]
     else if c = CHR ''D'' then [(''DELETE'', 174)]
     else if c = CHR ''E'' then [(''ENGINE'', 206), (''EXISTS'', 221)]
     else if c = CHR ''F'' then [(''FORMAT'', 258)]
     else if c = CHR ''G'' then [(''GLOBAL'', 277)]
     else if c = CHR ''I'' then [(''INSERT'', 319)]
     else if c = CHR ''M'' then [(''MEMBER'', 435)]
     else if c = CHR ''R'' then [(''RETURN'', 624)]
     else if c = CHR ''S'' then [(''SELECT'', 662)]
     else if c = CHR ''U'' then [(''UPDATE'', 839)]
     else if c = CHR ''V'' then [(''VALUES'', 857)]
     else if c = CHR ''W'' then [(''WINDOW'', 877)]
     else [])"

definition hot_keywords_7 :: "char \<Rightarrow> (string \<times> nat) list" where
  "hot_keywords_7 c =
    (if c = CHR ''B'' then [(''BETWEEN'', 42)]
     else if c = CHR ''C'' then [(''COLLATE'', 93), (''CHARSET'', 81), (''CONVERT'', 123), (''COMMENT'', 99)]
     else if c = CHR ''D'' then [(''DEFAULT'', 167), (''DECLARE'', 166)]
     else if c = CHR ''E'' then [(''EXPLAIN'', 226), (''EXECUTE'', 220)]
     else if c = CHR ''I'' then [(''INTEGER'', 330)]
     else if c = CHR ''P'' then [(''PRIMARY'', 549), (''PREPARE'', 546)]
     else if c = CHR ''S'' then [(''SESSION'', 668)]
     else if c = CHR ''T'' then [(''TINYINT'', 803)]
     else if c = CHR ''V'' then [(''VARCHAR'', 859)]
     else [])"

definition hot_keywords_8 :: "char \<Rightarrow> (string \<times> nat) list" where
  "hot_keywords_8 c =
    (if c = CHR ''D'' then [(''DATETIME'', 150), (''DISTINCT'', 185), (''DATABASE'', 145)]
     else if c = CHR ''F'' then [(''FUNCTION'', 267)]
     else if c = CHR ''U'' then [(''UNSIGNED'', 837)]
     else [])"

definition hot_keywords_9 :: "char \<Rightarrow> (string \<times> nat) list" where
  "hot_keywords_9 c =
    (if c = CHR ''C'' then [(''CHARACTER'', 79)]
     else if c = CHR ''P'' then [(''PARTITION'', 521), (''PROCEDURE'', 552), (''PRECEDING'', 544)]
     else if c = CHR ''T'' then [(''TIMESTAMP'', 797)]
     else [])"

definition hot_keywords_10 :: "char \<Rightarrow> (string \<times> nat) list" where
  "hot_keywords_10 c =
    (if c = CHR ''J'' then [(''JSON_DEPTH'', 894), (''JSON_MERGE'', 901)]
     else if c = CHR ''T'' then [(''TABLE_NAME'', 785)]
     else [])"

definition hot_keywords_11 :: "char \<Rightarrow> (string \<times> nat) list" where
  "hot_keywords_11 c =
    (if c = CHR ''J'' then [(''JSON_PRETTY'', 895), (''JSON_SEARCH'', 904)]
     else if c = CHR ''R'' then [(''REGEXP_LIKE'', 584)]
     else [])"

definition hot_keywords_13 :: "char \<Rightarrow> (string \<times> nat) list" where
  "hot_keywords_13 c =
    (if c = CHR ''J'' then [(''JSON_OVERLAPS'', 896)]
     else [])"

definition hot_keywords_16 :: "char \<Rightarrow> (string \<times> nat) list" where
  "hot_keywords_16 c =
    (if c = CHR ''J'' then [(''JSON_MERGE_PATCH'', 902)]
     else [])"

definition hot_keywords_17 :: "char \<Rightarrow> (string \<times> nat) list" where
  "hot_keywords_17 c =
    (if c = CHR ''J'' then [(''JSON_ARRAY_APPEND'', 899), (''JSON_ARRAY_INSERT'', 900), (''JSON_STORAGE_SIZE'', 897), (''JSON_STORAGE_FREE'', 898)]
     else [])"

definition hot_keywords_19 :: "char \<Rightarrow> (string \<times> nat) list" where
  "hot_keywords_19 c =
    (if c = CHR ''J'' then [(''JSON_MERGE_PRESERVE'', 903)]
     else [])"

definition hot_keywords_14 :: "char \<Rightarrow> (string \<times> nat) list" where
  "hot_keywords_14 c =
    (if c = CHR ''A'' then [(''AUTO_INCREMENT'', 35)]
     else [])"

definition hot_keywords :: "nat \<Rightarrow> char \<Rightarrow> (string \<times> nat) list" where
  "hot_keywords n =
    (if n = 2 then hot_keywords_2
     else if n = 3 then hot_keywords_3
     else if n = 4 then hot_keywords_4
     else if n = 5 then hot_keywords_5
     else if n = 6 then hot_keywords_6
     else if n = 7 then hot_keywords_7
     else if n = 8 then hot_keywords_8
     else if n = 9 then hot_keywords_9
     else if n = 10 then hot_keywords_10
     else if n = 11 then hot_keywords_11
     else if n = 13 then hot_keywords_13
     else if n = 16 then hot_keywords_16
     else if n = 17 then hot_keywords_17
     else if n = 19 then hot_keywords_19
     else if n = 14 then hot_keywords_14
     else (\<lambda>c. []))"

section \<open>Comparison and lookup\<close>

definition ascii_upper :: "char \<Rightarrow> char" where
  "ascii_upper c = (if CHR ''a'' \<le> c \<and> c \<le> CHR ''z'' then char_of (of_char c - (97 - 65 :: nat)) else c)"

text \<open>
  The text is the span of the input that is looked up, a keyword the characters before its
  terminating NUL; the loop starts at index one on both.
\<close>

fun compare_keyword_loop :: "string \<Rightarrow> string \<Rightarrow> int" where
  "compare_keyword_loop (a # as) (b # bs) =
     (if ascii_upper a < b then -1 else if b < ascii_upper a then 1 else compare_keyword_loop as bs)"
| "compare_keyword_loop (a # as) [] = 1"
| "compare_keyword_loop [] (b # bs) = -1"
| "compare_keyword_loop [] [] = 0"

definition compare_keyword_text :: "string \<Rightarrow> string \<Rightarrow> int" where
  "compare_keyword_text txt keyword = compare_keyword_loop (drop 1 txt) (drop 1 keyword)"

text \<open>
  The frequent keywords: the candidates of a length and a first letter are compared in order.
  No candidate is \<open>None\<close>, for the index \<^verbatim>\<open>(unsigned int)-1\<close>.
\<close>

fun first_candidate :: "string \<Rightarrow> (string \<times> nat) list \<Rightarrow> nat option" where
  "first_candidate txt [] = None"
| "first_candidate txt ((w, i) # cs) = (if compare_keyword_text txt w = 0 then Some i else first_candidate txt cs)"

definition lookup_hot_keyword_index :: "string \<Rightarrow> char \<Rightarrow> nat option" where
  "lookup_hot_keyword_index txt first = first_candidate txt (hot_keywords (length txt) first)"

definition second_masks :: "nat \<Rightarrow> nat \<Rightarrow> u64" where
  "second_masks i n = (case map_of (second_mask_rows ! i) n of None \<Rightarrow> 0 | Some m \<Rightarrow> m)"

definition keyword_first_index :: "char \<Rightarrow> nat" where
  "keyword_first_index c =
     (if CHR ''A'' \<le> c \<and> c \<le> CHR ''Z'' then of_char c - 65 else if c = CHR ''_'' then 26 else 64)"

definition keyword_second_index :: "char \<Rightarrow> nat" where
  "keyword_second_index c =
     (if CHR ''A'' \<le> c \<and> c \<le> CHR ''Z'' then of_char c - 65 else if c = CHR ''_'' then 26
      else if CHR ''0'' \<le> c \<and> c \<le> CHR ''9'' then 27 + (of_char c - 48) else 64)"

definition keyword_second_char_is_possible :: "char \<Rightarrow> char \<Rightarrow> nat \<Rightarrow> bool" where
  "keyword_second_char_is_possible first second n =
     (if n \<le> 1 then True
      else if n \<ge> 39 then False
      else if keyword_first_index first \<ge> 27 \<or> keyword_second_index (ascii_upper second) \<ge> 37 then False
      else second_masks (keyword_first_index first) n AND
        push_bit (keyword_second_index (ascii_upper second)) 1 \<noteq> 0)"

function keyword_search :: "string \<Rightarrow> nat \<Rightarrow> nat \<Rightarrow> nat option" where
  "keyword_search txt l h =
     (if l < h then
        let middle = l + (h - l) div 2; compare = compare_keyword_text txt (entry_word (keyword_table ! middle))
        in if compare = 0 then Some middle
           else if compare < 0 then keyword_search txt l middle
           else keyword_search txt (middle + 1) h
      else None)"
  by pat_completeness auto
termination
  by (relation "measure (\<lambda>(txt, l, h). h - l)") auto

declare keyword_search.simps [simp del]

record keyword_lookup_result =
  result_flags :: u32
  result_index :: u32

definition no_keyword :: keyword_lookup_result where
  "no_keyword = \<lparr>result_flags = 0, result_index = - 1\<rparr>"

definition keyword_result :: "nat \<Rightarrow> keyword_lookup_result" where
  "keyword_result i = \<lparr>result_flags = entry_flags (keyword_table ! i), result_index = of_nat i\<rparr>"

definition mylite_sql_keyword_lookup :: "string option \<Rightarrow> bool \<times> keyword_lookup_result" where
  "mylite_sql_keyword_lookup span =
     (case span of None \<Rightarrow> (False, no_keyword)
      | Some txt \<Rightarrow>
          if txt = [] \<or> 38 < length txt then (False, no_keyword)
          else
            let first = ascii_upper (hd txt); range = keyword_search_range first
            in if \<not> range_found range \<or> \<not> keyword_length_is_possible first (length txt) then (False, no_keyword)
               else
                 case lookup_hot_keyword_index txt first of
                   Some i \<Rightarrow> (True, keyword_result i)
                 | None \<Rightarrow>
                     if \<not> keyword_second_char_is_possible first (if 1 < length txt then txt ! 1 else CHR 0x00) (length txt)
                     then (False, no_keyword)
                     else
                       case keyword_search txt (range_low range) (range_high range) of
                         None \<Rightarrow> (False, no_keyword)
                       | Some i \<Rightarrow> (True, keyword_result i))"

section \<open>The tables agree with the keywords\<close>

definition block_entry_ok :: "char \<Rightarrow> keyword_entry \<Rightarrow> bool" where
  "block_entry_ok c e \<longleftrightarrow>
     (case entry_word e of a # b # w \<Rightarrow>
        a = c \<and> length w \<le> 36 \<and> keyword_length_is_possible c (length w + 2) \<and>
        keyword_second_char_is_possible c b (length w + 2)
      | _ \<Rightarrow> False)"

lemma mask_bit: "m AND push_bit n (1 :: u64) \<noteq> 0 \<longleftrightarrow> bit m n"
  by (simp add: and_exp_eq_0_iff_not_bit push_bit_eq_mult)

definition block_ok :: "char \<Rightarrow> keyword_entry list \<Rightarrow> bool" where
  "block_ok c b \<longleftrightarrow> list_all (block_entry_ok c) b \<and>
     successively (<) (map (drop 1 \<circ> entry_word) b)"

lemmas keyword_block_defs =
  keywords_A_def keywords_B_def keywords_C_def keywords_D_def keywords_E_def keywords_F_def
  keywords_G_def keywords_H_def keywords_I_def keywords_J_def keywords_K_def keywords_L_def
  keywords_M_def keywords_N_def keywords_O_def keywords_P_def keywords_Q_def keywords_R_def
  keywords_S_def keywords_T_def keywords_U_def keywords_V_def keywords_W_def keywords_X_def
  keywords_Y_def keywords_Z_def keywords_underscore_def

lemmas keyword_check_defs = block_ok_def block_entry_ok_def keyword_length_is_possible_def
  keyword_length_mask_def mask_bit keyword_second_char_is_possible_def keyword_first_index_def
  keyword_second_index_def second_masks_def second_mask_rows_def ascii_upper_def
  less_eq_char_def less_char_def

named_theorems keyword_blocks_checked \<open>the tables agree with each block\<close>

lemma keyword_block_A [keyword_blocks_checked]: "block_ok (CHR ''A'') keywords_A"
  by (simp add: keyword_check_defs keywords_A_def second_mask_row_A_def)

lemma keyword_block_B [keyword_blocks_checked]: "block_ok (CHR ''B'') keywords_B"
  by (simp add: keyword_check_defs keywords_B_def second_mask_row_B_def)

lemma keyword_block_C [keyword_blocks_checked]: "block_ok (CHR ''C'') keywords_C"
  by (simp add: keyword_check_defs keywords_C_def second_mask_row_C_def)

lemma keyword_block_D [keyword_blocks_checked]: "block_ok (CHR ''D'') keywords_D"
  by (simp add: keyword_check_defs keywords_D_def second_mask_row_D_def)

lemma keyword_block_E [keyword_blocks_checked]: "block_ok (CHR ''E'') keywords_E"
  by (simp add: keyword_check_defs keywords_E_def second_mask_row_E_def)

lemma keyword_block_F [keyword_blocks_checked]: "block_ok (CHR ''F'') keywords_F"
  by (simp add: keyword_check_defs keywords_F_def second_mask_row_F_def)

lemma keyword_block_G [keyword_blocks_checked]: "block_ok (CHR ''G'') keywords_G"
  by (simp add: keyword_check_defs keywords_G_def second_mask_row_G_def)

lemma keyword_block_H [keyword_blocks_checked]: "block_ok (CHR ''H'') keywords_H"
  by (simp add: keyword_check_defs keywords_H_def second_mask_row_H_def)

lemma keyword_block_I [keyword_blocks_checked]: "block_ok (CHR ''I'') keywords_I"
  by (simp add: keyword_check_defs keywords_I_def second_mask_row_I_def)

lemma keyword_block_J [keyword_blocks_checked]: "block_ok (CHR ''J'') keywords_J"
  by (simp add: keyword_check_defs keywords_J_def second_mask_row_J_def)

lemma keyword_block_K [keyword_blocks_checked]: "block_ok (CHR ''K'') keywords_K"
  by (simp add: keyword_check_defs keywords_K_def second_mask_row_K_def)

lemma keyword_block_L [keyword_blocks_checked]: "block_ok (CHR ''L'') keywords_L"
  by (simp add: keyword_check_defs keywords_L_def second_mask_row_L_def)

lemma keyword_block_M [keyword_blocks_checked]: "block_ok (CHR ''M'') keywords_M"
  by (simp add: keyword_check_defs keywords_M_def second_mask_row_M_def)

lemma keyword_block_N [keyword_blocks_checked]: "block_ok (CHR ''N'') keywords_N"
  by (simp add: keyword_check_defs keywords_N_def second_mask_row_N_def)

lemma keyword_block_O [keyword_blocks_checked]: "block_ok (CHR ''O'') keywords_O"
  by (simp add: keyword_check_defs keywords_O_def second_mask_row_O_def)

lemma keyword_block_P [keyword_blocks_checked]: "block_ok (CHR ''P'') keywords_P"
  by (simp add: keyword_check_defs keywords_P_def second_mask_row_P_def)

lemma keyword_block_Q [keyword_blocks_checked]: "block_ok (CHR ''Q'') keywords_Q"
  by (simp add: keyword_check_defs keywords_Q_def second_mask_row_Q_def)

lemma keyword_block_R [keyword_blocks_checked]: "block_ok (CHR ''R'') keywords_R"
  by (simp add: keyword_check_defs keywords_R_def second_mask_row_R_def)

lemma keyword_block_S [keyword_blocks_checked]: "block_ok (CHR ''S'') keywords_S"
  by (simp add: keyword_check_defs keywords_S_def second_mask_row_S_def)

lemma keyword_block_T [keyword_blocks_checked]: "block_ok (CHR ''T'') keywords_T"
  by (simp add: keyword_check_defs keywords_T_def second_mask_row_T_def)

lemma keyword_block_U [keyword_blocks_checked]: "block_ok (CHR ''U'') keywords_U"
  by (simp add: keyword_check_defs keywords_U_def second_mask_row_U_def)

lemma keyword_block_V [keyword_blocks_checked]: "block_ok (CHR ''V'') keywords_V"
  by (simp add: keyword_check_defs keywords_V_def second_mask_row_V_def)

lemma keyword_block_W [keyword_blocks_checked]: "block_ok (CHR ''W'') keywords_W"
  by (simp add: keyword_check_defs keywords_W_def second_mask_row_W_def)

lemma keyword_block_X [keyword_blocks_checked]: "block_ok (CHR ''X'') keywords_X"
  by (simp add: keyword_check_defs keywords_X_def second_mask_row_X_def)

lemma keyword_block_Y [keyword_blocks_checked]: "block_ok (CHR ''Y'') keywords_Y"
  by (simp add: keyword_check_defs keywords_Y_def second_mask_row_Y_def)

lemma keyword_block_Z [keyword_blocks_checked]: "block_ok (CHR ''Z'') keywords_Z"
  by (simp add: keyword_check_defs keywords_Z_def second_mask_row_Z_def)

lemma keyword_block_underscore [keyword_blocks_checked]: "block_ok (CHR ''_'') keywords_underscore"
  by (simp add: keyword_check_defs keywords_underscore_def second_mask_row_underscore_def)

lemma keyword_blocks_ok: "list_all (\<lambda>(c, b). block_ok c b) keyword_blocks"
  by (simp add: keyword_blocks_def keyword_blocks_checked)

lemma length_keywords:
  "length keywords_A = 38" "length keywords_B = 26" "length keywords_C = 80"
  "length keywords_D = 51" "length keywords_E = 37" "length keywords_F = 36"
  "length keywords_G = 20" "length keywords_H = 14" "length keywords_I = 45"
  "length keywords_J = 19" "length keywords_K = 5" "length keywords_L = 45"
  "length keywords_M = 43" "length keywords_N = 28" "length keywords_O = 28"
  "length keywords_P = 44" "length keywords_Q = 5" "length keywords_R = 83"
  "length keywords_S = 133" "length keywords_T = 39" "length keywords_U = 36"
  "length keywords_V = 13" "length keywords_W = 15" "length keywords_X = 5"
  "length keywords_Y = 3" "length keywords_Z = 2" "length keywords_underscore = Suc 0"
  "length keywords_appended = 11"
  by (simp_all add: keyword_block_defs keywords_appended_def)

end
