(* ===== verification/Keyword_Lookup.thy ===== *)
theory Keyword_Lookup
  imports Sql_Keywords
begin

text \<open>
  The keyword lookup of the lexer decides membership in the keyword table: the range, the two
  masks, the frequent keywords and the binary search together find exactly the entry whose word
  is the upper-case form of the text. The tables of \<open>Sql_Keywords\<close> are checked entry by entry
  there; the lemmas here lift the checks to the whole table.
\<close>

section \<open>Comparison\<close>

lemma compare_keyword_loop_cases:
  "compare_keyword_loop as bs =
     (if map ascii_upper as < bs then - 1 else if map ascii_upper as = bs then 0 else 1)"
  by (induction as bs rule: compare_keyword_loop.induct) auto

lemma compare_keyword_text_cases:
  "compare_keyword_text t w =
     (if map ascii_upper (drop 1 t) < drop 1 w then - 1
      else if map ascii_upper (drop 1 t) = drop 1 w then 0 else 1)"
  by (simp add: compare_keyword_text_def compare_keyword_loop_cases)

lemma same_word:
  assumes "t \<noteq> []" "w \<noteq> []" "hd w = ascii_upper (hd t)"
  shows "map ascii_upper (drop 1 t) = drop 1 w \<longleftrightarrow> map ascii_upper t = w"
  using assms by (cases t; cases w) auto

section \<open>Blocks and ranges\<close>

fun block_ranges :: "nat \<Rightarrow> (char \<times> 'a list) list \<Rightarrow> (char \<times> 'a list \<times> nat) list" where
  "block_ranges n [] = []"
| "block_ranges n ((c, b) # bs) = (c, b, n) # block_ranges (n + length b) bs"

lemma block_ranges_nth:
  "(c, b, l) \<in> set (block_ranges n bs) \<Longrightarrow> i < length b \<Longrightarrow>
     n \<le> l \<and> l - n + i < length (concat (map snd bs)) \<and> concat (map snd bs) ! (l - n + i) = b ! i"
proof (induction n bs rule: block_ranges.induct)
  case (2 n c' b' bs)
  show ?case
  proof (cases "(c, b, l) = (c', b', n)")
    case True
    with "2.prems" show ?thesis by (simp add: nth_append)
  next
    case False
    with 2 have "n + length b' \<le> l \<and> l - (n + length b') + i < length (concat (map snd bs)) \<and>
      concat (map snd bs) ! (l - (n + length b') + i) = b ! i" by auto
    then obtain k where "l = n + length b' + k" "k + i < length (concat (map snd bs))"
      "concat (map snd bs) ! (k + i) = b ! i"
      by (metis add_diff_cancel_left' le_Suc_ex)
    then show ?thesis by (simp add: nth_append)
  qed
qed simp

lemma keyword_ranges:
  "block_ranges 0 keyword_blocks = map (\<lambda>(c, b). (c, b, range_low (keyword_search_range c))) keyword_blocks"
  by (simp add: keyword_blocks_def keyword_search_range_def length_keywords)

lemma keyword_range_lengths:
  "list_all (\<lambda>(c, b). range_found (keyword_search_range c) \<and>
     range_high (keyword_search_range c) = range_low (keyword_search_range c) + length b) keyword_blocks"
  by (simp add: keyword_blocks_def keyword_search_range_def length_keywords)

lemma keyword_range_length:
  "(c, b) \<in> set keyword_blocks \<Longrightarrow>
     range_found (keyword_search_range c) \<and> range_high (keyword_search_range c) = range_low (keyword_search_range c) + length b"
  using keyword_range_lengths by (auto simp: list_all_iff)

lemma keyword_range_found:
  "range_found (keyword_search_range c) \<Longrightarrow> \<exists>b. (c, b) \<in> set keyword_blocks"
  by (simp add: keyword_blocks_def keyword_search_range_def split: if_splits)

lemma keyword_table_nth:
  assumes "(c, b) \<in> set keyword_blocks" "i < length b"
  shows "range_low (keyword_search_range c) + i < length keyword_table \<and>
    keyword_table ! (range_low (keyword_search_range c) + i) = b ! i"
proof -
  have "(c, b, range_low (keyword_search_range c)) \<in> set (block_ranges 0 keyword_blocks)"
    using assms(1) unfolding keyword_ranges by force
  from block_ranges_nth [OF this assms(2)] show ?thesis
    unfolding keyword_table_def by (simp add: nth_append)
qed

lemma keyword_block:
  assumes "(c, b) \<in> set keyword_blocks"
  shows "block_ok c b"
  using keyword_blocks_ok assms by (auto simp: list_all_iff)

lemma block_ok_entry:
  assumes "block_ok c b" "e \<in> set b"
  shows "entry_word e \<noteq> [] \<and> hd (entry_word e) = c \<and> 1 < length (entry_word e) \<and> length (entry_word e) \<le> 38 \<and>
    keyword_length_is_possible c (length (entry_word e)) \<and>
    keyword_second_char_is_possible c (entry_word e ! 1) (length (entry_word e))"
proof -
  from assms have "block_entry_ok c e" by (auto simp: block_ok_def list_all_iff)
  then show ?thesis by (auto simp: block_entry_ok_def split: list.splits)
qed

lemma block_ok_sorted:
  assumes "block_ok c b" "i < j" "j < length b"
  shows "drop 1 (entry_word (b ! i)) < drop 1 (entry_word (b ! j))"
proof -
  from assms(1) have "sorted_wrt (<) (map (drop 1 \<circ> entry_word) b)"
    by (simp add: block_ok_def successively_conv_sorted_wrt)
  from sorted_wrt_nth_less [OF this, of i j] assms(2,3) show ?thesis by simp
qed


section \<open>The binary search\<close>

text \<open>
  The search is correct on a range whose words have strictly increasing tails: it returns an index
  of the range whose tail is that of the text, and one exactly when there is one.
\<close>

lemma keyword_search_sound:
  "keyword_search t l h = Some i \<Longrightarrow>
     l \<le> i \<and> i < h \<and> map ascii_upper (drop 1 t) = drop 1 (entry_word (keyword_table ! i))"
proof (induction t l h rule: keyword_search.induct)
  case (1 t l h)
  let ?m = "l + (h - l) div 2"
  from "1.prems" have lh: "l < h" by (subst (asm) keyword_search.simps) (simp split: if_splits)
  then have m: "l \<le> ?m" "?m < h" by auto
  from "1.prems" lh consider
      "compare_keyword_text t (entry_word (keyword_table ! ?m)) = 0" "i = ?m"
    | "compare_keyword_text t (entry_word (keyword_table ! ?m)) < 0" "keyword_search t l ?m = Some i"
    | "0 < compare_keyword_text t (entry_word (keyword_table ! ?m))" "keyword_search t (?m + 1) h = Some i"
    by (subst (asm) keyword_search.simps) (auto simp: Let_def split: if_splits)
  then show ?case
  proof cases
    case 1
    with m show ?thesis by (simp add: compare_keyword_text_cases split: if_splits)
  next
    case 2
    with "1.IH"(1) [OF lh refl refl] m show ?thesis by fastforce
  next
    case 3
    with "1.IH"(2) [OF lh refl refl] m show ?thesis by fastforce
  qed
qed

lemma keyword_search_complete:
  assumes "l \<le> i" "i < h" "map ascii_upper (drop 1 t) = drop 1 (entry_word (keyword_table ! i))"
    and "\<And>j k. l \<le> j \<Longrightarrow> j < k \<Longrightarrow> k < h \<Longrightarrow>
      drop 1 (entry_word (keyword_table ! j)) < drop 1 (entry_word (keyword_table ! k))"
  shows "keyword_search t l h \<noteq> None"
  using assms
proof (induction t l h rule: keyword_search.induct)
  case (1 t l h)
  let ?m = "l + (h - l) div 2"
  let ?c = "compare_keyword_text t (entry_word (keyword_table ! ?m))"
  from "1.prems"(1,2) have lh: "l < h" by simp
  then have m: "l \<le> ?m" "?m < h" by auto
  consider "i = ?m" | "i < ?m" | "?m < i" by linarith
  then show ?case
  proof cases
    case 1
    with "1.prems"(3) lh show ?thesis
      by (subst keyword_search.simps) (simp add: compare_keyword_text_cases Let_def)
  next
    case 2
    with "1.prems"(1,3) "1.prems"(4) [of i ?m] m have c: "?c = - 1" by (simp add: compare_keyword_text_cases)
    have "keyword_search t l ?m \<noteq> None"
      using 2 "1.prems" m c by (intro "1.IH"(1) [OF lh refl refl]) auto
    with c lh show ?thesis by (subst keyword_search.simps) (simp add: Let_def)
  next
    case 3
    with "1.prems"(2,3) "1.prems"(4) [of ?m i] m have c: "?c = 1" by (auto simp: compare_keyword_text_cases)
    have "keyword_search t (?m + 1) h \<noteq> None"
      using 3 "1.prems" m c by (intro "1.IH"(2) [OF lh refl refl]) auto
    with c lh show ?thesis by (subst keyword_search.simps) (simp add: Let_def)
  qed
qed

section \<open>The frequent keywords\<close>

lemma first_candidate_sound:
  "first_candidate t cs = Some i \<Longrightarrow> \<exists>w. (w, i) \<in> set cs \<and> map ascii_upper (drop 1 t) = drop 1 w"
  by (induction t cs rule: first_candidate.induct) (auto simp: compare_keyword_text_cases split: if_splits)

lemma first_candidate_None:
  "first_candidate t cs = None \<longleftrightarrow> (\<forall>w \<in> fst ` set cs. map ascii_upper (drop 1 t) \<noteq> drop 1 w)"
  by (induction t cs rule: first_candidate.induct) (auto simp: compare_keyword_text_cases split: if_splits)

text \<open>The entry at an index of the table, found in the block of its first letter or at the end.\<close>

definition hot_entry :: "char \<Rightarrow> nat \<Rightarrow> keyword_entry option" where
  "hot_entry c i =
     (case map_of keyword_blocks c of None \<Rightarrow> None
      | Some b \<Rightarrow>
          if range_low (keyword_search_range c) \<le> i \<and> i < range_high (keyword_search_range c)
          then Some (b ! (i - range_low (keyword_search_range c)))
          else if 894 \<le> i \<and> i < 905 then Some (keywords_appended ! (i - 894)) else None)"

definition hot_ok :: "char \<Rightarrow> string \<times> nat \<Rightarrow> bool" where
  "hot_ok c = (\<lambda>(w, i). w \<noteq> [] \<and> hd w = c \<and> map_option entry_word (hot_entry c i) = Some w)"

lemma length_keyword_blocks: "length (concat (map snd keyword_blocks)) = 894"
  by (simp add: keyword_blocks_def length_keywords)

lemma hot_entry_table:
  assumes "hot_entry c i = Some e"
  shows "i < length keyword_table \<and> keyword_table ! i = e"
proof -
  from assms obtain b where b: "map_of keyword_blocks c = Some b"
    by (auto simp: hot_entry_def split: option.splits)
  then have mem: "(c, b) \<in> set keyword_blocks" by (rule map_of_SomeD)
  show ?thesis
  proof (cases "range_low (keyword_search_range c) \<le> i \<and> i < range_high (keyword_search_range c)")
    case True
    with keyword_range_length [OF mem] keyword_table_nth [OF mem, of "i - range_low (keyword_search_range c)"] assms b
    show ?thesis by (auto simp: hot_entry_def)
  next
    case False
    with assms b have "894 \<le> i" "i < 905" "e = keywords_appended ! (i - 894)"
      by (auto simp: hot_entry_def split: if_splits)
    then show ?thesis
      by (simp add: keyword_table_def nth_append length_keyword_blocks length_keywords del: length_concat)
  qed
qed

lemma keyword_block_of:
  "map_of keyword_blocks (CHR ''A'') = Some keywords_A"
  "map_of keyword_blocks (CHR ''B'') = Some keywords_B"
  "map_of keyword_blocks (CHR ''C'') = Some keywords_C"
  "map_of keyword_blocks (CHR ''D'') = Some keywords_D"
  "map_of keyword_blocks (CHR ''E'') = Some keywords_E"
  "map_of keyword_blocks (CHR ''F'') = Some keywords_F"
  "map_of keyword_blocks (CHR ''G'') = Some keywords_G"
  "map_of keyword_blocks (CHR ''H'') = Some keywords_H"
  "map_of keyword_blocks (CHR ''I'') = Some keywords_I"
  "map_of keyword_blocks (CHR ''J'') = Some keywords_J"
  "map_of keyword_blocks (CHR ''K'') = Some keywords_K"
  "map_of keyword_blocks (CHR ''L'') = Some keywords_L"
  "map_of keyword_blocks (CHR ''M'') = Some keywords_M"
  "map_of keyword_blocks (CHR ''N'') = Some keywords_N"
  "map_of keyword_blocks (CHR ''O'') = Some keywords_O"
  "map_of keyword_blocks (CHR ''P'') = Some keywords_P"
  "map_of keyword_blocks (CHR ''Q'') = Some keywords_Q"
  "map_of keyword_blocks (CHR ''R'') = Some keywords_R"
  "map_of keyword_blocks (CHR ''S'') = Some keywords_S"
  "map_of keyword_blocks (CHR ''T'') = Some keywords_T"
  "map_of keyword_blocks (CHR ''U'') = Some keywords_U"
  "map_of keyword_blocks (CHR ''V'') = Some keywords_V"
  "map_of keyword_blocks (CHR ''W'') = Some keywords_W"
  "map_of keyword_blocks (CHR ''X'') = Some keywords_X"
  "map_of keyword_blocks (CHR ''Y'') = Some keywords_Y"
  "map_of keyword_blocks (CHR ''Z'') = Some keywords_Z"
  "map_of keyword_blocks (CHR ''_'') = Some keywords_underscore"
  by (simp_all add: keyword_blocks_def)

lemmas hot_check_defs = hot_ok_def hot_entry_def keyword_search_range_def keyword_block_of

named_theorems hot_keywords_checked \<open>the indexes of the frequent keywords agree with the table\<close>

lemma hot_2 [hot_keywords_checked]: "list_all (hot_ok c) (hot_keywords_2 c)"
  by (simp add: hot_keywords_2_def hot_check_defs keyword_block_defs)

lemma hot_3 [hot_keywords_checked]: "list_all (hot_ok c) (hot_keywords_3 c)"
  by (simp add: hot_keywords_3_def hot_check_defs keyword_block_defs)

lemma hot_4 [hot_keywords_checked]: "list_all (hot_ok c) (hot_keywords_4 c)"
  by (simp add: hot_keywords_4_def hot_check_defs keyword_block_defs)

lemma hot_5 [hot_keywords_checked]: "list_all (hot_ok c) (hot_keywords_5 c)"
  by (simp add: hot_keywords_5_def hot_check_defs keyword_block_defs)

lemma hot_6 [hot_keywords_checked]: "list_all (hot_ok c) (hot_keywords_6 c)"
  by (simp add: hot_keywords_6_def hot_check_defs keyword_block_defs)

lemma hot_7 [hot_keywords_checked]: "list_all (hot_ok c) (hot_keywords_7 c)"
  by (simp add: hot_keywords_7_def hot_check_defs keyword_block_defs)

lemma hot_8 [hot_keywords_checked]: "list_all (hot_ok c) (hot_keywords_8 c)"
  by (simp add: hot_keywords_8_def hot_check_defs keyword_block_defs)

lemma hot_9 [hot_keywords_checked]: "list_all (hot_ok c) (hot_keywords_9 c)"
  by (simp add: hot_keywords_9_def hot_check_defs keyword_block_defs)

lemma hot_10 [hot_keywords_checked]: "list_all (hot_ok c) (hot_keywords_10 c)"
  by (simp add: hot_keywords_10_def hot_check_defs keyword_block_defs keywords_appended_def)

lemma hot_11 [hot_keywords_checked]: "list_all (hot_ok c) (hot_keywords_11 c)"
  by (simp add: hot_keywords_11_def hot_check_defs keyword_block_defs keywords_appended_def)

lemma hot_13 [hot_keywords_checked]: "list_all (hot_ok c) (hot_keywords_13 c)"
  by (simp add: hot_keywords_13_def hot_check_defs keyword_block_defs keywords_appended_def)

lemma hot_14 [hot_keywords_checked]: "list_all (hot_ok c) (hot_keywords_14 c)"
  by (simp add: hot_keywords_14_def hot_check_defs keyword_block_defs)

lemma hot_16 [hot_keywords_checked]: "list_all (hot_ok c) (hot_keywords_16 c)"
  by (simp add: hot_keywords_16_def hot_check_defs keyword_block_defs keywords_appended_def)

lemma hot_17 [hot_keywords_checked]: "list_all (hot_ok c) (hot_keywords_17 c)"
  by (simp add: hot_keywords_17_def hot_check_defs keyword_block_defs keywords_appended_def)

lemma hot_19 [hot_keywords_checked]: "list_all (hot_ok c) (hot_keywords_19 c)"
  by (simp add: hot_keywords_19_def hot_check_defs keyword_block_defs keywords_appended_def)

lemma hot_keywords_ok: "list_all (hot_ok c) (hot_keywords n c)"
  by (simp add: hot_keywords_def hot_keywords_checked)


lemma hot_lookup_sound:
  assumes "lookup_hot_keyword_index t (ascii_upper (hd t)) = Some i" "t \<noteq> []"
  shows "i < length keyword_table \<and> entry_word (keyword_table ! i) = map ascii_upper t"
proof -
  from assms(1) obtain w where w: "(w, i) \<in> set (hot_keywords (length t) (ascii_upper (hd t)))"
    and eq: "map ascii_upper (drop 1 t) = drop 1 w"
    unfolding lookup_hot_keyword_index_def by (blast dest: first_candidate_sound)
  from w hot_keywords_ok [of "ascii_upper (hd t)" "length t"] have "hot_ok (ascii_upper (hd t)) (w, i)"
    by (auto simp: list_all_iff)
  then obtain e where e: "hot_entry (ascii_upper (hd t)) i = Some e" "entry_word e = w" "w \<noteq> []" "hd w = ascii_upper (hd t)"
    by (auto simp: hot_ok_def)
  with eq same_word [OF assms(2), of w] hot_entry_table [OF e(1)] show ?thesis by auto
qed

section \<open>Lookup is membership in the table\<close>

lemma ascii_upper_idem [simp]: "ascii_upper (ascii_upper c) = ascii_upper c"
  by (auto simp: ascii_upper_def less_eq_char_def)

lemma second_char_upper [simp]:
  "keyword_second_char_is_possible c (ascii_upper d) n = keyword_second_char_is_possible c d n"
  by (simp add: keyword_second_char_is_possible_def)

lemma appended_checked:
  "list_all (\<lambda>e. entry_word e \<noteq> [] \<and> hd (entry_word e) = CHR ''J'' \<and> length (entry_word e) \<le> 38 \<and>
     keyword_length_is_possible (CHR ''J'') (length (entry_word e)) \<and>
     entry_word e \<in> fst ` set (hot_keywords (length (entry_word e)) (CHR ''J'')) \<and>
     entry_word e \<notin> entry_word ` set keywords_J) keywords_appended"
  by (simp add: keywords_appended_def keywords_J_def keyword_length_is_possible_def keyword_length_mask_def mask_bit
    hot_keywords_def hot_keywords_10_def hot_keywords_11_def hot_keywords_13_def hot_keywords_16_def
    hot_keywords_17_def hot_keywords_19_def)

lemma appended_distinct: "distinct (map entry_word keywords_appended)"
  by (simp add: keywords_appended_def)

lemma distinct_block: "block_ok c b \<Longrightarrow> distinct (map entry_word b)"
  unfolding distinct_conv_nth using block_ok_sorted [of c b]
  by (auto simp: nat_neq_iff) (metis less_irrefl)+

lemma distinct_blocks:
  "distinct (map fst bs) \<Longrightarrow> list_all (\<lambda>(c, b). block_ok c b) bs \<Longrightarrow> distinct (map entry_word (concat (map snd bs)))"
proof (induction bs)
  case (Cons cb bs)
  obtain c b where cb: "cb = (c, b)" by (rule prod.exhaust)
  with Cons.prems have ok: "block_ok c b" "c \<notin> fst ` set bs" by auto
  have "hd (entry_word e) = c" if "e \<in> set b" for e using block_ok_entry [OF ok(1) that] by simp
  moreover have "hd (entry_word e) \<noteq> c" if "e \<in> set (concat (map snd bs))" for e
  proof -
    from that obtain d b' where d: "(d, b') \<in> set bs" "e \<in> set b'" by auto
    with Cons.prems have "block_ok d b'" by (auto simp: list_all_iff)
    from block_ok_entry [OF this d(2)] d(1) ok(2) show ?thesis by force
  qed
  ultimately have "entry_word ` set b \<inter> entry_word ` set (concat (map snd bs)) = {}" by fastforce
  with Cons cb distinct_block [OF ok(1)] show ?case by simp
qed simp

lemma keyword_table_distinct: "distinct (map entry_word keyword_table)"
proof -
  have "distinct (map fst keyword_blocks)" by (simp add: keyword_blocks_def)
  then have "distinct (map entry_word (concat (map snd keyword_blocks)))"
    by (rule distinct_blocks [OF _ keyword_blocks_ok])
  moreover have "entry_word e \<noteq> entry_word f"
    if e: "e \<in> set (concat (map snd keyword_blocks))" and f: "f \<in> set keywords_appended" for e f
  proof
    assume eq: "entry_word e = entry_word f"
    from e obtain c b where b: "(c, b) \<in> set keyword_blocks" "e \<in> set b" by auto
    from block_ok_entry [OF keyword_block [OF b(1)] b(2)] eq f appended_checked have "c = CHR ''J''"
      by (auto simp: list_all_iff)
    with b(1) keyword_block_of(10) have "b = keywords_J"
      by (metis keyword_blocks_ok map_of_is_SomeI option.inject \<open>distinct (map fst keyword_blocks)\<close>)
    with b(2) eq f appended_checked show False unfolding list_all_iff by (metis imageI)
  qed
  ultimately show ?thesis using appended_distinct by (fastforce simp: keyword_table_def)
qed


lemma keyword_table_unique:
  assumes "i < length keyword_table" "j < length keyword_table"
    and "entry_word (keyword_table ! i) = entry_word (keyword_table ! j)"
  shows "i = j"
  using keyword_table_distinct assms by (simp add: distinct_conv_nth) blast

lemma lookup_sound:
  assumes "mylite_sql_keyword_lookup (Some t) = (True, r)"
  shows "\<exists>i. i < length keyword_table \<and> entry_word (keyword_table ! i) = map ascii_upper t \<and> r = keyword_result i"
proof -
  let ?c = "ascii_upper (hd t)"
  let ?r = "keyword_search_range ?c"
  from assms have t: "t \<noteq> []" and found: "range_found ?r"
    by (auto simp: mylite_sql_keyword_lookup_def Let_def split: if_splits)
  from assms consider
      i where "lookup_hot_keyword_index t ?c = Some i" "r = keyword_result i"
    | i where "keyword_search t (range_low ?r) (range_high ?r) = Some i" "r = keyword_result i"
    by (auto simp: mylite_sql_keyword_lookup_def Let_def split: if_splits option.splits)
  then show ?thesis
  proof cases
    case (1 i)
    with hot_lookup_sound [OF _ t] show ?thesis by blast
  next
    case (2 i)
    from keyword_range_found [OF found] obtain b where b: "(?c, b) \<in> set keyword_blocks" by blast
    note rl = keyword_range_length [OF b]
    from keyword_search_sound [OF 2(1)] rl have i: "range_low ?r \<le> i" "i - range_low ?r < length b"
      and eq: "map ascii_upper (drop 1 t) = drop 1 (entry_word (keyword_table ! i))" by auto
    from keyword_table_nth [OF b i(2)] i(1) have n: "i < length keyword_table" "keyword_table ! i = b ! (i - range_low ?r)"
      by simp_all
    from block_ok_entry [OF keyword_block [OF b], of "keyword_table ! i"] n i(2)
    have "entry_word (keyword_table ! i) \<noteq> []" "hd (entry_word (keyword_table ! i)) = ?c" by auto
    with same_word [OF t, of "entry_word (keyword_table ! i)"] eq n 2(2) show ?thesis by auto
  qed
qed

lemma lookup_complete:
  assumes "i < length keyword_table" "entry_word (keyword_table ! i) = map ascii_upper t"
  shows "fst (mylite_sql_keyword_lookup (Some t))"
proof -
  let ?c = "ascii_upper (hd t)"
  let ?r = "keyword_search_range ?c"
  let ?w = "map ascii_upper t"
  define e where "e = keyword_table ! i"
  have "e \<in> set keyword_table" using assms(1) by (simp add: e_def)
  then consider (block) c b where "(c, b) \<in> set keyword_blocks" "e \<in> set b" | (appended) "e \<in> set keywords_appended"
    by (auto simp: keyword_table_def)
  then show ?thesis
  proof cases
    case (block c b)
    note ok = keyword_block [OF block(1)]
    from block_ok_entry [OF ok block(2)] assms(2) have t: "t \<noteq> []" "1 < length t" "length t \<le> 38"
      and c: "c = ?c" by (auto simp: e_def hd_map)
    note rl = keyword_range_length [OF block(1)]
    from block(2) obtain j where j: "j < length b" "b ! j = e" by (auto simp: in_set_conv_nth)
    have "drop 1 (entry_word (keyword_table ! k)) < drop 1 (entry_word (keyword_table ! l))"
      if "range_low ?r \<le> k" "k < l" "l < range_high ?r" for k l
      using block_ok_sorted [OF ok, of "k - range_low ?r" "l - range_low ?r"]
        keyword_table_nth [OF block(1), of "k - range_low ?r"] keyword_table_nth [OF block(1), of "l - range_low ?r"] that rl c
      by auto
    moreover have "map ascii_upper (drop 1 t) = drop 1 (entry_word (keyword_table ! (range_low ?r + j)))"
      using keyword_table_nth [OF block(1) j(1)] j(2) assms(2) c by (simp add: e_def drop_map)
    ultimately have "keyword_search t (range_low ?r) (range_high ?r) \<noteq> None"
      using keyword_search_complete [of "range_low ?r" "range_low ?r + j" "range_high ?r" t] j(1) rl c by auto
    moreover have "keyword_length_is_possible ?c (length t)" "keyword_second_char_is_possible ?c (t ! 1) (length t)"
      using block_ok_entry [OF ok block(2)] assms(2) c t by (auto simp: e_def)
    ultimately show ?thesis
      using t rl c by (auto simp: mylite_sql_keyword_lookup_def Let_def split: option.splits)
  next
    case appended
    with appended_checked have "entry_word e \<noteq> []" "hd (entry_word e) = CHR ''J''" "length (entry_word e) \<le> 38"
      "keyword_length_is_possible (CHR ''J'') (length (entry_word e))"
      and hot: "entry_word e \<in> fst ` set (hot_keywords (length (entry_word e)) (CHR ''J''))"
      by (auto simp: list_all_iff)
    with assms(2) have t: "t \<noteq> []" "?c = CHR ''J''" "length t \<le> 38" "keyword_length_is_possible ?c (length t)"
      by (auto simp: e_def hd_map)
    have "map ascii_upper (drop 1 t) = drop 1 (entry_word e)" using assms(2) by (simp add: e_def drop_map)
    moreover have "entry_word e \<in> fst ` set (hot_keywords (length t) ?c)" using hot assms(2) t(2) by (simp add: e_def)
    ultimately have "lookup_hot_keyword_index t ?c \<noteq> None"
      unfolding lookup_hot_keyword_index_def first_candidate_None by blast
    moreover have "range_found ?r" using t(2) by (simp add: keyword_search_range_def)
    ultimately show ?thesis
      using t by (auto simp: mylite_sql_keyword_lookup_def Let_def)
  qed
qed

lemma lookup_failure: "\<not> fst (mylite_sql_keyword_lookup s) \<Longrightarrow> mylite_sql_keyword_lookup s = (False, no_keyword)"
  by (auto simp: mylite_sql_keyword_lookup_def Let_def split: option.splits if_splits)

text \<open>The reference: the first entry of the table whose word is given.\<close>

definition keyword_position :: "string \<Rightarrow> nat option" where
  "keyword_position w = find (\<lambda>i. entry_word (keyword_table ! i) = w) [0..<length keyword_table]"

lemma keyword_position_Some:
  assumes "i < length keyword_table" "entry_word (keyword_table ! i) = w"
  shows "keyword_position w = Some i"
proof (cases "keyword_position w")
  case None
  with assms show ?thesis by (auto simp: keyword_position_def find_None_iff)
next
  case (Some j)
  then have "j < length keyword_table" "entry_word (keyword_table ! j) = w"
    by (auto simp: keyword_position_def find_Some_iff)
  with assms keyword_table_unique [of i j] Some show ?thesis by simp
qed

text \<open>
  Property C6. The keyword lookup is a case-insensitive search of the keyword table: for every
  text, the range of the first letter, the masks of possible lengths and second letters, the table
  of frequent keywords and the binary search give the entry whose word is the text in upper case,
  with its flags and its index, and fail exactly when the table has no such entry. No word
  is in the table twice.
\<close>

theorem keyword_lookup_searches_table:
  "mylite_sql_keyword_lookup (Some t) =
     (case keyword_position (map ascii_upper t) of
        None \<Rightarrow> (False, no_keyword) | Some i \<Rightarrow> (True, keyword_result i)) \<and>
   distinct (map entry_word keyword_table)"
proof (cases "fst (mylite_sql_keyword_lookup (Some t))")
  case True
  then obtain r where r: "mylite_sql_keyword_lookup (Some t) = (True, r)" by (metis prod.collapse)
  from lookup_sound [OF r] keyword_position_Some r show ?thesis by (auto simp: keyword_table_distinct)
next
  case False
  with lookup_complete [of _ t] have "keyword_position (map ascii_upper t) = None"
    by (auto simp: keyword_position_def find_None_iff)
  with lookup_failure [OF False] show ?thesis by (simp add: keyword_table_distinct)
qed

end
