(* ===== verification/Dynamic_String.thy ===== *)
theory Dynamic_String
  imports MyLite_Prelude
begin

text \<open>
  The growing string of \<^verbatim>\<open>runtime/mylite_dynamic_string.c\<close>: a buffer, the length of the text
  in it and its capacity. A \<^verbatim>\<open>const char *\<close> is the memory it points to, which a NUL ends. The
  outcome of \<^verbatim>\<open>realloc\<close> is a choice of the environment: it fails, or it returns the old
  bytes followed by bytes that may be anything. Sizes are \<open>nat\<close>; on strings that satisfy
  \<open>string_ok\<close> no size computed by the code exceeds \<open>SIZE_MAX\<close>.
\<close>

section \<open>The operations\<close>

record dynamic_string =
  ds_text :: "string option"
  ds_length :: nat
  ds_capacity :: nat

type_synonym reallocation = "nat \<Rightarrow> (nat \<Rightarrow> char) option"

definition c_string :: "string \<Rightarrow> string" where
  "c_string t = takeWhile (\<lambda>c. c \<noteq> CHR 0x00) t"

definition mylite_dynamic_string_init :: dynamic_string where
  "mylite_dynamic_string_init = \<lparr>ds_text = None, ds_length = 0, ds_capacity = 0\<rparr>"

definition mylite_dynamic_string_deinit :: "dynamic_string option \<Rightarrow> dynamic_string option" where
  "mylite_dynamic_string_deinit str =
     (case str of None \<Rightarrow> None | Some _ \<Rightarrow> Some \<lparr>ds_text = None, ds_length = 0, ds_capacity = 0\<rparr>)"

definition realloc_bytes :: "string option \<Rightarrow> nat \<Rightarrow> (nat \<Rightarrow> char) \<Rightarrow> string" where
  "realloc_bytes old n fresh =
     (case old of None \<Rightarrow> map fresh [0..<n] | Some b \<Rightarrow> take n b @ map fresh [length b..<n])"

definition mylite_dynamic_string_reserve ::
    "reallocation \<Rightarrow> dynamic_string option \<Rightarrow> nat \<Rightarrow> int \<times> dynamic_string option" where
  "mylite_dynamic_string_reserve realloc str required_capacity =
     (case str of None \<Rightarrow> (MYLITE_MISUSE, None)
      | Some s \<Rightarrow>
          if required_capacity \<le> ds_capacity s then (MYLITE_OK, str)
          else
            case grow_capacity (if ds_capacity s = 0 then 128 else ds_capacity s) required_capacity of
              None \<Rightarrow> (MYLITE_NOMEM, str)
            | Some capacity \<Rightarrow>
                case realloc capacity of
                  None \<Rightarrow> (MYLITE_NOMEM, str)
                | Some fresh \<Rightarrow>
                    let buffer = realloc_bytes (ds_text s) capacity fresh;
                        buffer = (if ds_capacity s = 0 then buffer[0 := CHR 0x00] else buffer)
                    in (MYLITE_OK, Some (s\<lparr>ds_text := Some buffer, ds_capacity := capacity\<rparr>)))"

text \<open>\<^verbatim>\<open>memcpy\<close> to the end of the text, then the new length and the terminating NUL.\<close>

definition put_bytes :: "dynamic_string \<Rightarrow> string \<Rightarrow> dynamic_string" where
  "put_bytes s t =
     (let n = ds_length s + length t
      in s\<lparr>ds_text := Some ((memcpy_at (the (ds_text s)) (ds_length s) t)[n := CHR 0x00]), ds_length := n\<rparr>)"

definition mylite_dynamic_string_append ::
    "reallocation \<Rightarrow> dynamic_string option \<Rightarrow> string option \<Rightarrow> int \<times> dynamic_string option" where
  "mylite_dynamic_string_append realloc str txt =
     (case (str, txt) of
        (Some s, Some t) \<Rightarrow>
          let n = length (c_string t)
          in if n > SIZE_MAX - ds_length s - 1 then (MYLITE_NOMEM, str)
             else
               (case mylite_dynamic_string_reserve realloc str (ds_length s + n + 1) of
                  (rc, str') \<Rightarrow>
                    if rc \<noteq> MYLITE_OK then (rc, str')
                    else (MYLITE_OK, map_option (\<lambda>s. put_bytes s (c_string t)) str'))
      | _ \<Rightarrow> (MYLITE_MISUSE, str))"

definition mylite_dynamic_string_append_bytes ::
    "reallocation \<Rightarrow> dynamic_string option \<Rightarrow> string option \<Rightarrow> nat \<Rightarrow> int \<times> dynamic_string option" where
  "mylite_dynamic_string_append_bytes realloc str txt text_size =
     (case str of None \<Rightarrow> (MYLITE_MISUSE, str)
      | Some s \<Rightarrow>
          if txt = None \<and> text_size \<noteq> 0 then (MYLITE_MISUSE, str)
          else if text_size > SIZE_MAX - ds_length s - 1 then (MYLITE_NOMEM, str)
          else
            (case mylite_dynamic_string_reserve realloc str (ds_length s + text_size + 1) of
               (rc, str') \<Rightarrow>
                 if rc \<noteq> MYLITE_OK then (rc, str')
                 else (MYLITE_OK, map_option (\<lambda>s. put_bytes s (if text_size \<noteq> 0 then take text_size (the txt) else [])) str')))"

definition mylite_dynamic_string_append_char ::
    "reallocation \<Rightarrow> dynamic_string option \<Rightarrow> char \<Rightarrow> int \<times> dynamic_string option" where
  "mylite_dynamic_string_append_char realloc str byte =
     (case str of None \<Rightarrow> (MYLITE_MISUSE, str)
      | Some s \<Rightarrow>
          if ds_length s > SIZE_MAX - 2 then (MYLITE_NOMEM, str)
          else
            (case mylite_dynamic_string_reserve realloc str (ds_length s + 2) of
               (rc, str') \<Rightarrow>
                 if rc \<noteq> MYLITE_OK then (rc, str')
                 else (MYLITE_OK, map_option (\<lambda>s. put_bytes s [byte]) str')))"

text \<open>The size of the quoted text and the loop that writes it, over the characters of the identifier.\<close>

fun quoted_size :: "char \<Rightarrow> nat \<Rightarrow> string \<Rightarrow> nat option" where
  "quoted_size quote append_size [] = Some append_size"
| "quoted_size quote append_size (c # cs) =
     (let increment = (if c = quote then 2 else 1)
      in if append_size > SIZE_MAX - increment then None else quoted_size quote (append_size + increment) cs)"

fun write_quoted :: "char \<Rightarrow> string \<Rightarrow> nat \<Rightarrow> string \<Rightarrow> string \<times> nat" where
  "write_quoted quote buffer output [] = (buffer, output)"
| "write_quoted quote buffer output (c # cs) =
     (if c = quote then write_quoted quote (buffer[output := c, output + 1 := quote]) (output + 2) cs
      else write_quoted quote (buffer[output := c]) (output + 1) cs)"

definition put_quoted :: "dynamic_string \<Rightarrow> char \<Rightarrow> string \<Rightarrow> dynamic_string" where
  "put_quoted s quote t =
     (let buffer = (the (ds_text s))[ds_length s := quote];
          (buffer, output) = write_quoted quote buffer (ds_length s + 1) t;
          buffer = buffer[output := quote, output + 1 := CHR 0x00]
      in s\<lparr>ds_text := Some buffer, ds_length := output + 1\<rparr>)"

definition append_quoted_identifier ::
    "reallocation \<Rightarrow> dynamic_string option \<Rightarrow> string option \<Rightarrow> char \<Rightarrow> int \<times> dynamic_string option" where
  "append_quoted_identifier realloc str txt quote =
     (case (str, txt) of
        (Some s, Some t) \<Rightarrow>
          (case quoted_size quote 2 (c_string t) of
             None \<Rightarrow> (MYLITE_NOMEM, str)
           | Some append_size \<Rightarrow>
               if append_size > SIZE_MAX - ds_length s - 1 then (MYLITE_NOMEM, str)
               else
                 (case mylite_dynamic_string_reserve realloc str (ds_length s + append_size + 1) of
                    (rc, str') \<Rightarrow>
                      if rc \<noteq> MYLITE_OK then (rc, str')
                      else (MYLITE_OK, map_option (\<lambda>s. put_quoted s quote (c_string t)) str')))
      | _ \<Rightarrow> (MYLITE_MISUSE, str))"

definition mylite_dynamic_string_append_quoted_identifier ::
    "reallocation \<Rightarrow> dynamic_string option \<Rightarrow> string option \<Rightarrow> int \<times> dynamic_string option" where
  "mylite_dynamic_string_append_quoted_identifier realloc str txt = append_quoted_identifier realloc str txt (CHR 0x22)"

definition mylite_dynamic_string_append_mysql_quoted_identifier ::
    "reallocation \<Rightarrow> dynamic_string option \<Rightarrow> string option \<Rightarrow> int \<times> dynamic_string option" where
  "mylite_dynamic_string_append_mysql_quoted_identifier realloc str txt = append_quoted_identifier realloc str txt (CHR 0x60)"

definition mylite_dynamic_string_take :: "dynamic_string option \<Rightarrow> string option \<times> dynamic_string option" where
  "mylite_dynamic_string_take str =
     (case str of None \<Rightarrow> (None, None)
      | Some s \<Rightarrow> (ds_text s, Some (s\<lparr>ds_text := None, ds_length := 0, ds_capacity := 0\<rparr>)))"

section \<open>The invariant\<close>

definition string_ok :: "dynamic_string \<Rightarrow> bool" where
  "string_ok s \<longleftrightarrow>
     (case ds_text s of None \<Rightarrow> ds_length s = 0 \<and> ds_capacity s = 0
      | Some b \<Rightarrow> length b = ds_capacity s \<and> ds_length s < ds_capacity s \<and> ds_capacity s \<le> SIZE_MAX \<and>
          b ! ds_length s = CHR 0x00)"

definition content :: "dynamic_string \<Rightarrow> string" where
  "content s = (case ds_text s of None \<Rightarrow> [] | Some b \<Rightarrow> take (ds_length s) b)"

lemma string_ok_init: "string_ok mylite_dynamic_string_init" "content mylite_dynamic_string_init = []"
  by (simp_all add: string_ok_def content_def mylite_dynamic_string_init_def)

lemma content_length: "string_ok s \<Longrightarrow> length (content s) = ds_length s"
  by (auto simp: string_ok_def content_def split: option.splits)

text \<open>
  A reservation that succeeds makes room and keeps the text; one that fails changes nothing.
\<close>

lemma reserve_outcome:
  assumes "string_ok s" "mylite_dynamic_string_reserve realloc (Some s) n = (rc, str')" "0 < n"
  shows "(rc = MYLITE_OK \<and> (\<exists>s' b. str' = Some s' \<and> string_ok s' \<and> ds_text s' = Some b \<and> n \<le> length b \<and>
      ds_length s' = ds_length s \<and> content s' = content s)) \<or> (rc = MYLITE_NOMEM \<and> str' = Some s)"
proof (cases "n \<le> ds_capacity s")
  case True
  with assms show ?thesis by (auto simp: mylite_dynamic_string_reserve_def string_ok_def split: option.splits)
next
  case False
  let ?c = "if ds_capacity s = 0 then 128 else ds_capacity s"
  have c: "?c \<noteq> 0" "?c \<le> SIZE_MAX" using assms(1) by (auto simp: string_ok_def limit_simps split: option.splits)
  consider "grow_capacity ?c n = None" | k where "grow_capacity ?c n = Some k" "realloc k = None"
    | k fresh where "grow_capacity ?c n = Some k" "realloc k = Some fresh" by fastforce
  then show ?thesis
  proof cases
    case (3 k fresh)
    note k = grow_capacity_Some [OF 3(1) c]
    show ?thesis
    proof (cases "ds_text s")
      case None
      with assms(1) have "ds_capacity s = 0" "ds_length s = 0" by (simp_all add: string_ok_def)
      with None False 3 k assms(2,3) show ?thesis
        by (auto simp: mylite_dynamic_string_reserve_def realloc_bytes_def string_ok_def content_def)
    next
      case (Some b)
      with assms(1) have b: "length b = ds_capacity s" "ds_length s < length b" "b ! ds_length s = CHR 0x00" by (auto simp: string_ok_def)
      with k have "length b \<le> k" by auto
      with Some b False 3 k assms(2) show ?thesis
        by (auto simp: mylite_dynamic_string_reserve_def realloc_bytes_def string_ok_def content_def nth_append)
    qed
  qed (use False assms(2) in \<open>simp_all add: mylite_dynamic_string_reserve_def\<close>)
qed

lemma put_bytes_outcome:
  assumes "string_ok s" "ds_text s = Some b" "ds_length s + length t < length b"
  shows "string_ok (put_bytes s t) \<and> content (put_bytes s t) = content s @ t"
  using assms by (simp add: put_bytes_def string_ok_def content_def Let_def buffer_simps) (simp add: memcpy_at_def)

text \<open>The text between the quotes: every quote is doubled.\<close>

definition quoted_body :: "char \<Rightarrow> string \<Rightarrow> string" where
  "quoted_body q t = concat (map (\<lambda>c. if c = q then [q, q] else [c]) t)"

definition quoted_identifier :: "char \<Rightarrow> string \<Rightarrow> string" where
  "quoted_identifier q t = q # quoted_body q t @ [q]"

lemma quoted_body_simps [simp]:
  "quoted_body q [] = []"
  "quoted_body q (c # cs) = (if c = q then [q, q] else [c]) @ quoted_body q cs"
  by (simp_all add: quoted_body_def)

lemma quoted_size_value: "quoted_size q n t = Some m \<Longrightarrow> m = n + length (quoted_body q t)"
  by (induction q n t rule: quoted_size.induct) (auto simp: Let_def split: if_splits)

lemma memcpy_at_Cons: "i < length buf \<Longrightarrow> memcpy_at (buf[i := c]) (Suc i) cs = memcpy_at buf i (c # cs)"
  by (simp add: memcpy_at_def take_Suc_conv_app_nth)

lemma memcpy_at_Nil [simp]: "memcpy_at buf i [] = buf"
  by (simp add: memcpy_at_def)

lemma write_quoted_value:
  "out + length (quoted_body q t) \<le> length buf \<Longrightarrow>
     write_quoted q buf out t = (memcpy_at buf out (quoted_body q t), out + length (quoted_body q t))"
proof (induction q buf out t rule: write_quoted.induct)
  case (2 q buf out c cs)
  show ?case
  proof (cases "c = q")
    case True
    with 2 show ?thesis
      using memcpy_at_Cons [of "Suc out" "buf[out := q]" q "quoted_body q cs"] memcpy_at_Cons [of out buf q "q # quoted_body q cs"]
      by simp
  next
    case False
    with 2 show ?thesis using memcpy_at_Cons [of out buf c "quoted_body q cs"] by simp
  qed
qed simp

lemma put_quoted_outcome:
  assumes "string_ok s" "ds_text s = Some b" "ds_length s + length (quoted_identifier q t) < length b"
  shows "string_ok (put_quoted s q t) \<and> content (put_quoted s q t) = content s @ quoted_identifier q t"
proof -
  let ?m = "memcpy_at b (ds_length s) (q # quoted_body q t)"
  have "write_quoted q (b[ds_length s := q]) (Suc (ds_length s)) t = (?m, ds_length s + 1 + length (quoted_body q t))"
    using assms(3) write_quoted_value [of "Suc (ds_length s)" q t "b[ds_length s := q]"] memcpy_at_Cons [of "ds_length s" b q "quoted_body q t"]
    by (simp add: quoted_identifier_def)
  moreover have "length ?m = length b" using assms(3) by (simp add: buffer_simps quoted_identifier_def)
  moreover have "take (ds_length s + 1 + length (quoted_body q t)) ?m = take (ds_length s) b @ q # quoted_body q t"
    using assms(3) by (simp add: memcpy_at_def quoted_identifier_def)
  ultimately show ?thesis
    using assms
    by (auto simp: put_quoted_def string_ok_def content_def quoted_identifier_def take_Suc_conv_app_nth)
qed

section \<open>The outcome of the operations\<close>

datatype string_op =
    Append "string option"
  | AppendBytes "string option" nat
  | AppendChar char
  | AppendQuoted "string option"
  | AppendMysqlQuoted "string option"
  | Reserve nat

fun string_step :: "reallocation \<Rightarrow> dynamic_string option \<Rightarrow> string_op \<Rightarrow> int \<times> dynamic_string option" where
  "string_step realloc str (Append t) = mylite_dynamic_string_append realloc str t"
| "string_step realloc str (AppendBytes t n) = mylite_dynamic_string_append_bytes realloc str t n"
| "string_step realloc str (AppendChar c) = mylite_dynamic_string_append_char realloc str c"
| "string_step realloc str (AppendQuoted t) = mylite_dynamic_string_append_quoted_identifier realloc str t"
| "string_step realloc str (AppendMysqlQuoted t) = mylite_dynamic_string_append_mysql_quoted_identifier realloc str t"
| "string_step realloc str (Reserve n) = mylite_dynamic_string_reserve realloc str n"

text \<open>What an operation appends when it succeeds, and whether its pointers are valid.\<close>

fun appended :: "string_op \<Rightarrow> string" where
  "appended (Append t) = c_string (the t)"
| "appended (AppendBytes t n) = (if n = 0 then [] else take n (the t))"
| "appended (AppendChar c) = [c]"
| "appended (AppendQuoted t) = quoted_identifier (CHR 0x22) (c_string (the t))"
| "appended (AppendMysqlQuoted t) = quoted_identifier (CHR 0x60) (c_string (the t))"
| "appended (Reserve n) = []"

fun misused :: "string_op \<Rightarrow> bool" where
  "misused (Append t) \<longleftrightarrow> t = None"
| "misused (AppendBytes t n) \<longleftrightarrow> t = None \<and> n \<noteq> 0"
| "misused (AppendQuoted t) \<longleftrightarrow> t = None"
| "misused (AppendMysqlQuoted t) \<longleftrightarrow> t = None"
| "misused _ \<longleftrightarrow> False"

fun readable :: "string_op \<Rightarrow> bool" where
  "readable (AppendBytes (Some t) n) \<longleftrightarrow> n \<le> length t"
| "readable _ \<longleftrightarrow> True"


lemma reserve_then_put:
  assumes "string_ok s" "ds_length s + n + 1 \<le> SIZE_MAX"
    and "\<And>s' b. string_ok s' \<Longrightarrow> ds_text s' = Some b \<Longrightarrow> ds_length s' + n < length b \<Longrightarrow>
      string_ok (put s') \<and> content (put s') = content s' @ t"
    and "(case mylite_dynamic_string_reserve realloc (Some s) (ds_length s + n + 1) of
        (rc, str') \<Rightarrow> if rc \<noteq> MYLITE_OK then (rc, str') else (MYLITE_OK, map_option put str')) = (rc, str')"
  shows "(rc = MYLITE_OK \<and> (\<exists>s'. str' = Some s' \<and> string_ok s' \<and> content s' = content s @ t)) \<or> (rc = MYLITE_NOMEM \<and> str' = Some s)"
proof -
  obtain rc1 str1 where r: "mylite_dynamic_string_reserve realloc (Some s) (ds_length s + n + 1) = (rc1, str1)" by (rule prod.exhaust)
  from reserve_outcome [OF assms(1) r] consider
      s' b where "rc1 = MYLITE_OK" "str1 = Some s'" "string_ok s'" "ds_text s' = Some b" "ds_length s + n + 1 \<le> length b"
        "ds_length s' = ds_length s" "content s' = content s"
    | "rc1 = MYLITE_NOMEM" "str1 = Some s" by auto
  then show ?thesis
  proof cases
    case (1 s' b)
    with assms(3) [of s' b] assms(4) r show ?thesis by auto
  qed (use assms(4) r in simp)
qed

lemma string_step_outcome:
  assumes "string_ok s" "readable op" "string_step realloc (Some s) op = (rc, str')"
  shows "if misused op then rc = MYLITE_MISUSE \<and> str' = Some s
    else (rc = MYLITE_OK \<and> (\<exists>s'. str' = Some s' \<and> string_ok s' \<and> content s' = content s @ appended op)) \<or>
      (rc = MYLITE_NOMEM \<and> str' = Some s)"
proof -
  have size: "ds_length s < SIZE_MAX" using assms(1) by (auto simp: string_ok_def limit_simps split: option.splits)
  have quoted: "(rc = MYLITE_OK \<and> (\<exists>s'. str' = Some s' \<and> string_ok s' \<and> content s' = content s @ quoted_identifier q (c_string t))) \<or>
      (rc = MYLITE_NOMEM \<and> str' = Some s)"
    if "append_quoted_identifier realloc (Some s) (Some t) q = (rc, str')" for t q
  proof (cases "quoted_size q 2 (c_string t)")
    case None
    with that show ?thesis by (simp add: append_quoted_identifier_def)
  next
    case (Some n)
    have n: "n = length (quoted_identifier q (c_string t))"
      using quoted_size_value [OF Some] by (simp add: quoted_identifier_def)
    show ?thesis
    proof (cases "n > SIZE_MAX - ds_length s - 1")
      case True
      with that Some show ?thesis by (simp add: append_quoted_identifier_def)
    next
      case False
      with that Some size n put_quoted_outcome [of _ _ q "c_string t"] show ?thesis
        by (intro reserve_then_put [OF assms(1), where n = n and put = "\<lambda>s. put_quoted s q (c_string t)" and realloc = realloc])
          (auto simp: append_quoted_identifier_def)
    qed
  qed
  have bytes: "(rc = MYLITE_OK \<and> (\<exists>s'. str' = Some s' \<and> string_ok s' \<and> content s' = content s @ t)) \<or> (rc = MYLITE_NOMEM \<and> str' = Some s)"
    if "(case mylite_dynamic_string_reserve realloc (Some s) (ds_length s + length t + 1) of
        (rc, str') \<Rightarrow> if rc \<noteq> MYLITE_OK then (rc, str') else (MYLITE_OK, map_option (\<lambda>s. put_bytes s t) str')) = (rc, str')"
      "\<not> length t > SIZE_MAX - ds_length s - 1" for t
    using that size put_bytes_outcome [of _ _ t]
    by (intro reserve_then_put [OF assms(1), where n = "length t" and put = "\<lambda>s. put_bytes s t" and realloc = realloc]) auto
  show ?thesis
  proof (cases op)
    case (Append t)
    show ?thesis
    proof (cases t)
      case (Some u)
      with Append show ?thesis
        using assms(3) bytes [of "c_string u"] by (auto simp: mylite_dynamic_string_append_def Let_def split: if_splits)
    qed (use Append assms(3) in \<open>simp add: mylite_dynamic_string_append_def\<close>)
  next
    case (AppendBytes t n)
    show ?thesis
    proof (cases "n = 0")
      case True
      with AppendBytes show ?thesis
        using assms(3) bytes [of "[]"] by (auto simp: mylite_dynamic_string_append_bytes_def split: if_splits)
    next
      case False
      show ?thesis
      proof (cases t)
        case (Some u)
        with AppendBytes False assms(2) have "length (take n u) = n" by simp
        moreover have "mylite_dynamic_string_append_bytes realloc (Some s) (Some u) n = (rc, str')"
          using AppendBytes Some assms(3) by simp
        ultimately show ?thesis
          using bytes [of "take n u"] AppendBytes False Some
          unfolding mylite_dynamic_string_append_bytes_def option.sel option.case by (auto split: if_splits)
      qed (use AppendBytes False assms(3) in \<open>simp add: mylite_dynamic_string_append_bytes_def\<close>)
    qed
  next
    case (AppendChar c)
    have "\<not> SIZE_MAX \<le> Suc (ds_length s)" if "\<not> SIZE_MAX - Suc (Suc 0) < ds_length s" using that by (simp add: limit_simps)
    with AppendChar show ?thesis
      using assms(3) bytes [of "[c]"] size
      by (auto simp: mylite_dynamic_string_append_char_def numeral_2_eq_2 split: if_splits)
  next
    case (AppendQuoted t)
    then show ?thesis
      using assms(3) quoted [of "the t" "CHR 0x22"]
      by (cases t) (auto simp: mylite_dynamic_string_append_quoted_identifier_def append_quoted_identifier_def)
  next
    case (AppendMysqlQuoted t)
    then show ?thesis
      using assms(3) quoted [of "the t" "CHR 0x60"]
      by (cases t) (auto simp: mylite_dynamic_string_append_mysql_quoted_identifier_def append_quoted_identifier_def)
  next
    case (Reserve n)
    then show ?thesis
      using assms(1,3) reserve_outcome [OF assms(1), of realloc n rc str']
      by (cases "n = 0") (auto simp: mylite_dynamic_string_reserve_def)
  qed
qed


section \<open>Sequences of operations\<close>

definition possible_results :: "string_op \<Rightarrow> int set" where
  "possible_results op = (if misused op then {MYLITE_MISUSE} else {MYLITE_OK, MYLITE_NOMEM})"

fun string_run :: "dynamic_string option \<Rightarrow> (reallocation \<times> string_op) list \<Rightarrow> int list \<times> dynamic_string option" where
  "string_run str [] = ([], str)"
| "string_run str ((realloc, op) # ops) =
     (let (rc, str) = string_step realloc str op; (rcs, str) = string_run str ops in (rc # rcs, str))"

lemma string_run_outcome:
  assumes "string_ok s" "list_all (\<lambda>(r, op). readable op) ops" "string_run (Some s) ops = (rcs, str')"
  shows "\<exists>s'. str' = Some s' \<and> string_ok s' \<and> length rcs = length ops \<and>
    content s' = content s @ concat (map2 (\<lambda>rc (r, op). if rc = MYLITE_OK then appended op else []) rcs ops) \<and>
    list_all2 (\<lambda>rc (r, op). rc \<in> possible_results op) rcs ops"
  using assms
proof (induction ops arbitrary: s rcs)
  case (Cons rop ops)
  obtain r op where rop: "rop = (r, op)" by (rule prod.exhaust)
  obtain rc1 str1 where st: "string_step r (Some s) op = (rc1, str1)" by (rule prod.exhaust)
  obtain rcs2 str2 where run: "string_run str1 ops = (rcs2, str2)" by (rule prod.exhaust)
  have eq: "rcs = rc1 # rcs2" "str' = str2" using Cons.prems(3) rop st run by simp_all
  have "readable op" using Cons.prems(2) rop by simp
  from string_step_outcome [OF Cons.prems(1) this st] obtain s1 where s1: "str1 = Some s1" "string_ok s1"
    "content s1 = content s @ (if rc1 = MYLITE_OK then appended op else [])"
    "rc1 \<in> possible_results op"
    using Cons.prems(1) by (auto simp: possible_results_def split: if_splits)
  from Cons.IH [OF s1(2), of rcs2] Cons.prems(2) run s1 eq rop show ?case by auto
qed auto

text \<open>
  Property C28. Building a string: after any sequence of append operations on a new string, each
  with an allocator that may fail, the string is well formed (its length is less than its
  capacity, the text is terminated by a NUL within the buffer) and its text is the
  concatenation of what the successful operations appended, in order; an operation that fails
  leaves the string as it was; it fails with MYLITE_MISUSE exactly for a missing text and with
  MYLITE_NOMEM otherwise. Taking the string returns a buffer with exactly this text before a
  NUL and leaves a new string.
\<close>

theorem dynamic_string_building:
  assumes "list_all (\<lambda>(r, op). readable op) ops"
    and "string_run (Some mylite_dynamic_string_init) ops = (rcs, str')"
  shows "\<exists>s. str' = Some s \<and> string_ok s \<and> length rcs = length ops \<and>
    content s = concat (map2 (\<lambda>rc (r, op). if rc = MYLITE_OK then appended op else []) rcs ops) \<and>
    list_all2 (\<lambda>rc (r, op). rc \<in> possible_results op) rcs ops \<and>
    snd (mylite_dynamic_string_take (Some s)) = Some mylite_dynamic_string_init \<and>
    (\<forall>b. fst (mylite_dynamic_string_take (Some s)) = Some b \<longrightarrow>
      take (ds_length s) b = content s \<and> b ! ds_length s = CHR 0x00 \<and> ds_length s < length b)"
proof -
  from string_run_outcome [OF string_ok_init(1) assms] obtain s where s: "str' = Some s" "string_ok s" "length rcs = length ops"
    "content s = concat (map2 (\<lambda>rc (r, op). if rc = MYLITE_OK then appended op else []) rcs ops)"
    "list_all2 (\<lambda>rc (r, op). rc \<in> possible_results op) rcs ops"
    by (auto simp: string_ok_init)
  moreover have "snd (mylite_dynamic_string_take (Some s)) = Some mylite_dynamic_string_init"
    by (simp add: mylite_dynamic_string_take_def mylite_dynamic_string_init_def)
  moreover have "\<forall>b. fst (mylite_dynamic_string_take (Some s)) = Some b \<longrightarrow>
      take (ds_length s) b = content s \<and> b ! ds_length s = CHR 0x00 \<and> ds_length s < length b"
    using s(2) by (auto simp: mylite_dynamic_string_take_def content_def string_ok_def)
  ultimately show ?thesis by blast
qed

definition example_ops :: "(reallocation \<times> string_op) list" where
  "example_ops = [(\<lambda>n. None, AppendChar (CHR ''x'')), (\<lambda>n. Some (\<lambda>i. CHR ''?''), Append (Some ''SELECT '')),
     (\<lambda>n. Some (\<lambda>i. CHR ''?''), AppendMysqlQuoted (Some ''a''))]"

theorem dynamic_string_building_witness:
  "\<exists>rcs s. string_run (Some mylite_dynamic_string_init) example_ops = (rcs, Some s) \<and> string_ok s \<and> length rcs = 3"
proof -
  obtain rcs str' where r: "string_run (Some mylite_dynamic_string_init) example_ops = (rcs, str')" by (rule prod.exhaust)
  have "list_all (\<lambda>(r, op). readable op) example_ops" "length example_ops = 3" by (simp_all add: example_ops_def)
  from dynamic_string_building [OF this(1) r] this(2) r show ?thesis by auto
qed

end
