(* ===== verification/Sql_Lexer.thy ===== *)
theory Sql_Lexer
  imports Sql_Keywords
begin

text \<open>
  The lexer of \<^verbatim>\<open>sql/mylite_lexer.c\<close>. The state is the input, its length, the offset and
  the SQL modes; \<open>mylite_sql_lexer_next\<close> skips white space and returns the next token. A pointer
  into the input is its offset. A scanner of the source that fills in a token and always returns
  \<^verbatim>\<open>true\<close> returns the lexer and the token here; every field of a token is set by
  \<open>set_token\<close>, so the token passed in does not matter. Every loop is a recursive function whose
  measure is the number of bytes left.
\<close>

section \<open>State and tokens\<close>

datatype sql_token_kind =
    MYLITE_SQL_TOKEN_EOF
  | MYLITE_SQL_TOKEN_ERROR
  | MYLITE_SQL_TOKEN_COMMENT
  | MYLITE_SQL_TOKEN_VERSION_COMMENT
  | MYLITE_SQL_TOKEN_HINT_COMMENT
  | MYLITE_SQL_TOKEN_IDENTIFIER
  | MYLITE_SQL_TOKEN_QUOTED_IDENTIFIER
  | MYLITE_SQL_TOKEN_KEYWORD
  | MYLITE_SQL_TOKEN_STRING
  | MYLITE_SQL_TOKEN_NATIONAL_STRING
  | MYLITE_SQL_TOKEN_HEX_LITERAL
  | MYLITE_SQL_TOKEN_BIT_LITERAL
  | MYLITE_SQL_TOKEN_INTEGER
  | MYLITE_SQL_TOKEN_DECIMAL
  | MYLITE_SQL_TOKEN_FLOAT
  | MYLITE_SQL_TOKEN_USER_VARIABLE
  | MYLITE_SQL_TOKEN_SYSTEM_VARIABLE
  | MYLITE_SQL_TOKEN_PARAMETER
  | MYLITE_SQL_TOKEN_OPERATOR
  | MYLITE_SQL_TOKEN_PUNCTUATION
  | MYLITE_SQL_TOKEN_CHARSET_INTRODUCER
  | MYLITE_SQL_TOKEN_TEMPORAL_LITERAL_INTRODUCER

datatype sql_operator_kind =
    MYLITE_SQL_OPERATOR_NONE
  | MYLITE_SQL_OPERATOR_JSON_UNQUOTE_EXTRACT
  | MYLITE_SQL_OPERATOR_JSON_EXTRACT
  | MYLITE_SQL_OPERATOR_NULL_SAFE_EQUAL
  | MYLITE_SQL_OPERATOR_LEFT_SHIFT
  | MYLITE_SQL_OPERATOR_RIGHT_SHIFT
  | MYLITE_SQL_OPERATOR_LESS_EQUAL
  | MYLITE_SQL_OPERATOR_GREATER_EQUAL
  | MYLITE_SQL_OPERATOR_NOT_EQUAL
  | MYLITE_SQL_OPERATOR_LOGICAL_AND
  | MYLITE_SQL_OPERATOR_LOGICAL_OR
  | MYLITE_SQL_OPERATOR_ASSIGN
  | MYLITE_SQL_OPERATOR_EQUAL
  | MYLITE_SQL_OPERATOR_LESS
  | MYLITE_SQL_OPERATOR_GREATER
  | MYLITE_SQL_OPERATOR_PLUS
  | MYLITE_SQL_OPERATOR_MINUS
  | MYLITE_SQL_OPERATOR_STAR
  | MYLITE_SQL_OPERATOR_SLASH
  | MYLITE_SQL_OPERATOR_PERCENT
  | MYLITE_SQL_OPERATOR_NOT
  | MYLITE_SQL_OPERATOR_BITWISE_NOT
  | MYLITE_SQL_OPERATOR_BITWISE_XOR
  | MYLITE_SQL_OPERATOR_BITWISE_AND
  | MYLITE_SQL_OPERATOR_BITWISE_OR

datatype sql_lexer_error =
    MYLITE_SQL_LEXER_ERROR_NONE
  | MYLITE_SQL_LEXER_ERROR_UNEXPECTED_BYTE
  | MYLITE_SQL_LEXER_ERROR_UNTERMINATED_STRING
  | MYLITE_SQL_LEXER_ERROR_UNTERMINATED_IDENTIFIER
  | MYLITE_SQL_LEXER_ERROR_UNTERMINATED_COMMENT
  | MYLITE_SQL_LEXER_ERROR_INVALID_HEX_LITERAL
  | MYLITE_SQL_LEXER_ERROR_INVALID_BIT_LITERAL
  | MYLITE_SQL_LEXER_ERROR_INVALID_VARIABLE

abbreviation (input) MYLITE_SQL_MODE_ANSI_QUOTES :: u32 where "MYLITE_SQL_MODE_ANSI_QUOTES \<equiv> 1"
abbreviation (input) MYLITE_SQL_MODE_NO_BACKSLASH_ESCAPES :: u32 where "MYLITE_SQL_MODE_NO_BACKSLASH_ESCAPES \<equiv> 2"
abbreviation (input) MYLITE_SQL_TOKEN_HAS_LEADING_SPACE :: u32 where "MYLITE_SQL_TOKEN_HAS_LEADING_SPACE \<equiv> 1"

abbreviation (input) SINGLE_QUOTE :: char where "SINGLE_QUOTE \<equiv> CHR 0x27"
abbreviation (input) DOUBLE_QUOTE :: char where "DOUBLE_QUOTE \<equiv> CHR 0x22"
abbreviation (input) BACKQUOTE :: char where "BACKQUOTE \<equiv> CHR 0x60"
abbreviation (input) BACKSLASH :: char where "BACKSLASH \<equiv> CHR 0x5C"
abbreviation (input) NUL :: char where "NUL \<equiv> CHR 0x00"

record sql_lexer =
  lexer_input :: "string option"
  lexer_length :: nat
  lexer_offset :: nat
  lexer_modes :: u32

record sql_token =
  token_kind :: sql_token_kind
  token_operator :: sql_operator_kind
  token_error :: sql_lexer_error
  token_flags :: u32
  token_keyword_flags :: u32
  token_keyword_index :: u32
  token_text :: "nat option"
  token_span_text :: "nat option"
  token_length :: nat
  token_offset :: nat
  token_source_length :: nat

record token_start =
  start_offset :: nat
  start_flags :: u32

record quoted_string_options =
  string_kind :: sql_token_kind
  string_quote :: char
  allow_backslash :: bool

record binary_literal_options =
  literal_kind :: sql_token_kind
  literal_hex :: bool

definition mylite_sql_lexer_init :: "string option \<Rightarrow> nat \<Rightarrow> u32 \<Rightarrow> sql_lexer" where
  "mylite_sql_lexer_init input n modes =
     \<lparr>lexer_input = input, lexer_length = (if input = None then 0 else n), lexer_offset = 0, lexer_modes = modes\<rparr>"

section \<open>Reading the input\<close>

definition input_at :: "sql_lexer \<Rightarrow> nat \<Rightarrow> char" where
  "input_at lx i = the (lexer_input lx) ! i"

definition advance_one :: "sql_lexer \<Rightarrow> sql_lexer" where
  "advance_one lx = (if lexer_offset lx \<ge> lexer_length lx then lx else lx\<lparr>lexer_offset := lexer_offset lx + 1\<rparr>)"

definition advance_two :: "sql_lexer \<Rightarrow> sql_lexer" where
  "advance_two lx = advance_one (advance_one lx)"

definition advance_to_offset_no_newline :: "sql_lexer \<Rightarrow> nat \<Rightarrow> sql_lexer" where
  "advance_to_offset_no_newline lx offset = lx\<lparr>lexer_offset := offset\<rparr>"

definition peek_at :: "sql_lexer \<Rightarrow> nat \<Rightarrow> char" where
  "peek_at lx lookahead =
     (if lexer_input lx = None \<or> lexer_offset lx \<ge> lexer_length lx \<or> lookahead \<ge> lexer_length lx - lexer_offset lx
      then NUL else input_at lx (lexer_offset lx + lookahead))"

definition has_at :: "sql_lexer \<Rightarrow> nat \<Rightarrow> bool" where
  "has_at lx lookahead \<longleftrightarrow>
     lexer_input lx \<noteq> None \<and> lexer_offset lx < lexer_length lx \<and> lookahead < lexer_length lx - lexer_offset lx"

definition is_mysql_comment_space :: "char \<Rightarrow> bool" where
  "is_mysql_comment_space c \<longleftrightarrow> c \<le> CHR 0x20"

definition is_space :: "char \<Rightarrow> bool" where
  "is_space c \<longleftrightarrow> c = CHR 0x20 \<or> c = CHR 0x09 \<or> c = CHR 0x0A \<or> c = CHR 0x0D \<or> c = CHR 0x0C \<or> c = CHR 0x0B"

definition is_digit :: "char \<Rightarrow> bool" where
  "is_digit c \<longleftrightarrow> CHR ''0'' \<le> c \<and> c \<le> CHR ''9''"

definition is_hex_digit :: "char \<Rightarrow> bool" where
  "is_hex_digit c \<longleftrightarrow> is_digit c \<or> (CHR ''A'' \<le> c \<and> c \<le> CHR ''F'') \<or> (CHR ''a'' \<le> c \<and> c \<le> CHR ''f'')"

definition is_bit_digit :: "char \<Rightarrow> bool" where
  "is_bit_digit c \<longleftrightarrow> c = CHR ''0'' \<or> c = CHR ''1''"

definition is_identifier_start :: "char \<Rightarrow> bool" where
  "is_identifier_start c \<longleftrightarrow>
     (CHR ''A'' \<le> c \<and> c \<le> CHR ''Z'') \<or> (CHR ''a'' \<le> c \<and> c \<le> CHR ''z'') \<or> c = CHR ''_'' \<or> c = CHR ''$'' \<or>
     CHR 0x80 \<le> c"

definition is_identifier_part :: "char \<Rightarrow> bool" where
  "is_identifier_part c \<longleftrightarrow> is_identifier_start c \<or> is_digit c"

definition is_user_variable_part :: "char \<Rightarrow> bool" where
  "is_user_variable_part c \<longleftrightarrow>
     is_digit c \<or> (CHR ''A'' \<le> c \<and> c \<le> CHR ''Z'') \<or> (CHR ''a'' \<le> c \<and> c \<le> CHR ''z'') \<or>
     c = CHR ''.'' \<or> c = CHR ''_'' \<or> c = CHR ''$''"

definition is_punctuation :: "char \<Rightarrow> bool" where
  "is_punctuation c \<longleftrightarrow>
     c = CHR ''('' \<or> c = CHR '')'' \<or> c = CHR '','' \<or> c = CHR '';'' \<or> c = CHR ''.'' \<or> c = CHR ''{'' \<or>
     c = CHR ''}'' \<or> c = CHR ''['' \<or> c = CHR '']'' \<or> c = CHR '':''"

definition is_exponent_marker :: "char \<Rightarrow> bool" where
  "is_exponent_marker c \<longleftrightarrow> c = CHR ''e'' \<or> c = CHR ''E''"

definition is_sign :: "char \<Rightarrow> bool" where
  "is_sign c \<longleftrightarrow> c = CHR ''+'' \<or> c = CHR ''-''"

definition is_binary_literal_digit :: "char \<Rightarrow> bool \<Rightarrow> bool" where
  "is_binary_literal_digit c hex = (if hex then is_hex_digit c else is_bit_digit c)"

definition binary_literal_error :: "bool \<Rightarrow> sql_lexer_error" where
  "binary_literal_error hex =
     (if hex then MYLITE_SQL_LEXER_ERROR_INVALID_HEX_LITERAL else MYLITE_SQL_LEXER_ERROR_INVALID_BIT_LITERAL)"

text \<open>The cursor loops: advance while the byte at the cursor satisfies a test.\<close>

function skip_while :: "(char \<Rightarrow> bool) \<Rightarrow> sql_lexer \<Rightarrow> nat \<Rightarrow> nat" where
  "skip_while p lx cursor =
     (if cursor < lexer_length lx \<and> p (input_at lx cursor) then skip_while p lx (cursor + 1) else cursor)"
  by pat_completeness auto
termination
  by (relation "measure (\<lambda>(p, lx, cursor). lexer_length lx - cursor)") auto

declare skip_while.simps [simp del]

definition skip_digits :: "sql_lexer \<Rightarrow> nat \<Rightarrow> nat" where
  "skip_digits = skip_while is_digit"

definition skip_identifier_parts :: "sql_lexer \<Rightarrow> nat \<Rightarrow> nat" where
  "skip_identifier_parts = skip_while is_identifier_part"

definition skip_user_variable_parts :: "sql_lexer \<Rightarrow> nat \<Rightarrow> nat" where
  "skip_user_variable_parts = skip_while is_user_variable_part"

text \<open>\<open>scan_exponent_span\<close> returns the cursor after the exponent, or \<open>None\<close> for \<^verbatim>\<open>false\<close>.\<close>

definition scan_exponent_span :: "sql_lexer \<Rightarrow> nat \<Rightarrow> nat option" where
  "scan_exponent_span lx cursor =
     (if cursor \<ge> lexer_length lx \<or> \<not> is_exponent_marker (input_at lx cursor) then None
      else
        let exponent = cursor + 1;
            exponent = (if exponent < lexer_length lx \<and> is_sign (input_at lx exponent) then exponent + 1 else exponent)
        in if exponent \<ge> lexer_length lx \<or> \<not> is_digit (input_at lx exponent) then None
           else Some (skip_digits lx (exponent + 1)))"

definition consume_whitespace :: "sql_lexer \<Rightarrow> bool \<times> sql_lexer" where
  "consume_whitespace lx =
     (if lexer_input lx = None \<or> lexer_offset lx \<ge> lexer_length lx then (False, lx)
      else
        let cursor = skip_while is_space lx (lexer_offset lx)
        in if cursor = lexer_offset lx then (False, lx) else (True, lx\<lparr>lexer_offset := cursor\<rparr>))"

section \<open>Building tokens\<close>

definition make_token_start :: "sql_lexer \<Rightarrow> u32 \<Rightarrow> token_start" where
  "make_token_start lx flags = \<lparr>start_offset = lexer_offset lx, start_flags = flags\<rparr>"

definition set_token :: "sql_lexer \<Rightarrow> sql_token_kind \<Rightarrow> token_start \<Rightarrow> sql_token" where
  "set_token lx kind start =
     \<lparr>token_kind = kind,
      token_operator = MYLITE_SQL_OPERATOR_NONE,
      token_error = MYLITE_SQL_LEXER_ERROR_NONE,
      token_flags = start_flags start,
      token_keyword_flags = 0,
      token_keyword_index = - 1,
      token_text = (if lexer_input lx = None then None else Some (start_offset start)),
      token_span_text = None,
      token_length = lexer_offset lx - start_offset start,
      token_offset = start_offset start,
      token_source_length = lexer_length lx\<rparr>"

definition set_error_token :: "sql_lexer \<Rightarrow> sql_lexer_error \<Rightarrow> token_start \<Rightarrow> sql_token" where
  "set_error_token lx error start = (set_token lx MYLITE_SQL_TOKEN_ERROR start)\<lparr>token_error := error\<rparr>"


section \<open>Progress of the loops\<close>

definition remaining :: "sql_lexer \<Rightarrow> nat" where
  "remaining lx = lexer_length lx - lexer_offset lx"

lemma remaining_advance_one_le [simp]: "remaining (advance_one lx) \<le> remaining lx"
  by (auto simp: remaining_def advance_one_def)

lemma remaining_advance_one [simp]:
  "lexer_offset lx < lexer_length lx \<Longrightarrow> remaining (advance_one lx) < remaining lx"
  by (simp add: remaining_def advance_one_def)

lemma remaining_advance_two [simp]:
  "lexer_offset lx < lexer_length lx \<Longrightarrow> remaining (advance_two lx) < remaining lx"
  unfolding advance_two_def by (rule le_less_trans [OF remaining_advance_one_le remaining_advance_one])

lemma remaining_twice [simp]:
  "lexer_offset lx < lexer_length lx \<Longrightarrow> remaining (advance_one (advance_one lx)) < remaining lx"
  using remaining_advance_two by (simp add: advance_two_def)

section \<open>Comments\<close>

definition starts_line_comment :: "sql_lexer \<Rightarrow> bool" where
  "starts_line_comment lx \<longleftrightarrow>
     peek_at lx 0 = CHR ''#'' \<or> (peek_at lx 0 = CHR ''-'' \<and> peek_at lx 1 = CHR ''-'')"

function scan_line_comment_body :: "sql_lexer \<Rightarrow> sql_lexer" where
  "scan_line_comment_body lx =
     (if lexer_offset lx < lexer_length lx then
        if peek_at lx 0 = CHR 0x0A \<or> peek_at lx 0 = CHR 0x0D then lx
        else scan_line_comment_body (advance_one lx)
      else lx)"
  by pat_completeness auto
termination
  by (relation "measure remaining") auto

definition block_comment_token_kind :: "sql_lexer \<Rightarrow> sql_token_kind" where
  "block_comment_token_kind lx =
     (if peek_at lx 2 = CHR ''!'' then MYLITE_SQL_TOKEN_VERSION_COMMENT
      else if peek_at lx 2 = CHR ''+'' then MYLITE_SQL_TOKEN_HINT_COMMENT
      else MYLITE_SQL_TOKEN_COMMENT)"

definition starts_block_comment :: "sql_lexer \<Rightarrow> bool" where
  "starts_block_comment lx \<longleftrightarrow> peek_at lx 0 = CHR ''/'' \<and> peek_at lx 1 = CHR ''*''"

definition ends_block_comment :: "sql_lexer \<Rightarrow> bool" where
  "ends_block_comment lx \<longleftrightarrow> peek_at lx 0 = CHR ''*'' \<and> peek_at lx 1 = CHR ''/''"

function inner_block_comment_loop :: "sql_lexer \<Rightarrow> sql_lexer" where
  "inner_block_comment_loop lx =
     (if lexer_offset lx < lexer_length lx then
        if ends_block_comment lx then advance_two lx
        else inner_block_comment_loop (advance_one lx)
      else lx)"
  by pat_completeness auto
termination
  by (relation "measure remaining") auto

definition scan_inner_block_comment_body :: "sql_lexer \<Rightarrow> sql_lexer" where
  "scan_inner_block_comment_body lx = inner_block_comment_loop (advance_two lx)"

declare scan_line_comment_body.simps [simp del] inner_block_comment_loop.simps [simp del]

lemma remaining_inner_loop: "remaining (inner_block_comment_loop lx) \<le> remaining lx"
proof (induction lx rule: inner_block_comment_loop.induct)
  case (1 lx)
  then show ?case
    by (subst inner_block_comment_loop.simps) (auto intro: less_imp_le le_trans [OF _ remaining_advance_one_le])
qed

lemma remaining_inner [simp]:
  "lexer_offset lx < lexer_length lx \<Longrightarrow> remaining (scan_inner_block_comment_body lx) < remaining lx"
  unfolding scan_inner_block_comment_body_def
  by (rule le_less_trans [OF remaining_inner_loop remaining_advance_two])

function scan_block_comment_body :: "sql_lexer \<Rightarrow> sql_token_kind \<Rightarrow> bool \<times> sql_lexer" where
  "scan_block_comment_body lx kind =
     (if lexer_offset lx < lexer_length lx then
        if kind = MYLITE_SQL_TOKEN_VERSION_COMMENT \<and> starts_block_comment lx
        then scan_block_comment_body (scan_inner_block_comment_body lx) kind
        else if ends_block_comment lx then (True, advance_two lx)
        else scan_block_comment_body (advance_one lx) kind
      else (False, lx))"
  by pat_completeness auto
termination
  by (relation "measure (\<lambda>(lx, kind). remaining lx)") auto

declare scan_block_comment_body.simps [simp del]

definition scan_comment :: "sql_lexer \<Rightarrow> u32 \<Rightarrow> sql_lexer \<times> sql_token" where
  "scan_comment lx flags =
     (let start = make_token_start lx flags
      in if starts_line_comment lx then
           let lx = scan_line_comment_body lx in (lx, set_token lx MYLITE_SQL_TOKEN_COMMENT start)
         else
           let kind = block_comment_token_kind lx; (closed, lx) = scan_block_comment_body (advance_two lx) kind
           in if closed then (lx, set_token lx kind start)
              else (lx, set_error_token lx MYLITE_SQL_LEXER_ERROR_UNTERMINATED_COMMENT start))"

definition starts_comment :: "sql_lexer \<Rightarrow> bool" where
  "starts_comment lx \<longleftrightarrow>
     (let first = peek_at lx 0; second = peek_at lx 1; third = peek_at lx 2
      in first = CHR ''#'' \<or>
         (first = CHR ''-'' \<and> second = CHR ''-'' \<and> has_at lx 2 \<and> is_mysql_comment_space third) \<or>
         (first = CHR ''/'' \<and> second = CHR ''*''))"

section \<open>Quoted text\<close>

function quoted_string_loop :: "quoted_string_options \<Rightarrow> token_start \<Rightarrow> sql_lexer \<Rightarrow> sql_lexer \<times> sql_token" where
  "quoted_string_loop options start lx =
     (if lexer_offset lx < lexer_length lx then
        let byte = peek_at lx 0
        in if byte = string_quote options then
             if peek_at (advance_one lx) 0 = string_quote options
             then quoted_string_loop options start (advance_one (advance_one lx))
             else (advance_one lx, set_token (advance_one lx) (string_kind options) start)
           else if byte = BACKSLASH \<and> allow_backslash options \<and> has_at lx 1
           then quoted_string_loop options start (advance_one (advance_one lx))
           else quoted_string_loop options start (advance_one lx)
      else (lx, set_error_token lx MYLITE_SQL_LEXER_ERROR_UNTERMINATED_STRING start))"
  by pat_completeness auto
termination
  by (relation "measure (\<lambda>(options, start, lx). remaining lx)") auto

definition scan_quoted_string :: "sql_lexer \<Rightarrow> token_start \<Rightarrow> quoted_string_options \<Rightarrow> sql_lexer \<times> sql_token" where
  "scan_quoted_string lx start options = quoted_string_loop options start (advance_one lx)"

function quoted_identifier_loop :: "token_start \<Rightarrow> char \<Rightarrow> sql_lexer \<Rightarrow> sql_lexer \<times> sql_token" where
  "quoted_identifier_loop start quote lx =
     (if lexer_offset lx < lexer_length lx then
        if peek_at lx 0 = quote then
          if peek_at (advance_one lx) 0 = quote
          then quoted_identifier_loop start quote (advance_one (advance_one lx))
          else (advance_one lx, set_token (advance_one lx) MYLITE_SQL_TOKEN_QUOTED_IDENTIFIER start)
        else quoted_identifier_loop start quote (advance_one lx)
      else (lx, set_error_token lx MYLITE_SQL_LEXER_ERROR_UNTERMINATED_IDENTIFIER start))"
  by pat_completeness auto
termination
  by (relation "measure (\<lambda>(start, quote, lx). remaining lx)") auto

definition scan_quoted_identifier :: "sql_lexer \<Rightarrow> token_start \<Rightarrow> char \<Rightarrow> sql_lexer \<times> sql_token" where
  "scan_quoted_identifier lx start quote = quoted_identifier_loop start quote (advance_one lx)"

function quoted_variable_loop :: "token_start \<Rightarrow> char \<Rightarrow> bool \<Rightarrow> sql_lexer \<Rightarrow> sql_lexer \<times> sql_token" where
  "quoted_variable_loop start quote backslash lx =
     (if lexer_offset lx < lexer_length lx then
        let byte = peek_at lx 0
        in if byte = quote then
             if peek_at (advance_one lx) 0 = quote
             then quoted_variable_loop start quote backslash (advance_one (advance_one lx))
             else (advance_one lx, set_token (advance_one lx) MYLITE_SQL_TOKEN_USER_VARIABLE start)
           else if byte = BACKSLASH \<and> backslash \<and> has_at lx 1
           then quoted_variable_loop start quote backslash (advance_one (advance_one lx))
           else quoted_variable_loop start quote backslash (advance_one lx)
      else (lx, set_error_token lx MYLITE_SQL_LEXER_ERROR_INVALID_VARIABLE start))"
  by pat_completeness auto
termination
  by (relation "measure (\<lambda>(start, quote, backslash, lx). remaining lx)") auto

definition backslash_escapes :: "sql_lexer \<Rightarrow> bool" where
  "backslash_escapes lx \<longleftrightarrow> lexer_modes lx AND MYLITE_SQL_MODE_NO_BACKSLASH_ESCAPES = 0"

definition scan_quoted_variable :: "sql_lexer \<Rightarrow> token_start \<Rightarrow> char \<Rightarrow> sql_lexer \<times> sql_token" where
  "scan_quoted_variable lx start quote =
     quoted_variable_loop start quote (quote \<noteq> BACKQUOTE \<and> backslash_escapes lx) (advance_one lx)"

declare quoted_string_loop.simps [simp del] quoted_identifier_loop.simps [simp del] quoted_variable_loop.simps [simp del]


section \<open>Hexadecimal and bit literals, identifiers and numbers\<close>

function quoted_literal_loop ::
    "binary_literal_options \<Rightarrow> token_start \<Rightarrow> nat \<Rightarrow> bool \<Rightarrow> sql_lexer \<Rightarrow> sql_lexer \<times> sql_token" where
  "quoted_literal_loop options start digits valid lx =
     (if lexer_offset lx < lexer_length lx then
        let byte = peek_at lx 0
        in if byte = SINGLE_QUOTE then
             let lx = advance_one lx
             in if valid \<and> (\<not> literal_hex options \<or> digits mod 2 = 0)
                then (lx, set_token lx (literal_kind options) start)
                else (lx, set_error_token lx (binary_literal_error (literal_hex options)) start)
           else quoted_literal_loop options start (digits + 1)
             (if is_binary_literal_digit byte (literal_hex options) then valid else False) (advance_one lx)
      else (lx, set_error_token lx (binary_literal_error (literal_hex options)) start))"
  by pat_completeness auto
termination
  by (relation "measure (\<lambda>(options, start, digits, valid, lx). remaining lx)") auto

declare quoted_literal_loop.simps [simp del]

definition scan_quoted_hex_or_bit_literal ::
    "sql_lexer \<Rightarrow> token_start \<Rightarrow> binary_literal_options \<Rightarrow> sql_lexer \<times> sql_token" where
  "scan_quoted_hex_or_bit_literal lx start options = quoted_literal_loop options start 0 True (advance_one lx)"

definition scan_digit_leading_identifier :: "sql_lexer \<Rightarrow> u32 \<Rightarrow> sql_lexer \<times> sql_token" where
  "scan_digit_leading_identifier lx flags =
     (let start = make_token_start lx flags;
          lx = advance_to_offset_no_newline lx (skip_identifier_parts lx (lexer_offset lx))
      in (lx, set_token lx MYLITE_SQL_TOKEN_IDENTIFIER start))"

definition scan_prefixed_hex_or_bit_literal ::
    "sql_lexer \<Rightarrow> token_start \<Rightarrow> binary_literal_options \<Rightarrow> sql_lexer \<times> sql_token" where
  "scan_prefixed_hex_or_bit_literal lx start options =
     (let cursor = skip_while (\<lambda>c. is_binary_literal_digit c (literal_hex options)) lx (lexer_offset lx + 2)
      in if cursor < lexer_length lx \<and> is_identifier_part (input_at lx cursor)
         then scan_digit_leading_identifier lx (start_flags start)
         else let lx = advance_to_offset_no_newline lx cursor in (lx, set_token lx (literal_kind options) start))"

definition starts_literal_after_charset_introducer :: "sql_lexer \<Rightarrow> nat \<Rightarrow> bool" where
  "starts_literal_after_charset_introducer lx cursor =
     (if lexer_input lx = None \<or> cursor \<ge> lexer_length lx then False
      else
        let first = input_at lx cursor;
            second = (if cursor + 1 < lexer_length lx then input_at lx (cursor + 1) else NUL)
        in first = SINGLE_QUOTE \<or> first = DOUBLE_QUOTE \<or>
           (first \<in> {CHR ''X'', CHR ''x'', CHR ''B'', CHR ''b''} \<and> second = SINGLE_QUOTE) \<or>
           (first = CHR ''0'' \<and> second \<in> {CHR ''X'', CHR ''x'', CHR ''B'', CHR ''b''}))"

definition identifier_span_is_charset_introducer :: "sql_lexer \<Rightarrow> nat \<Rightarrow> nat \<Rightarrow> bool" where
  "identifier_span_is_charset_introducer lx start stop =
     (if lexer_input lx = None \<or> start \<ge> stop \<or> input_at lx start \<noteq> CHR ''_'' then False
      else if stop - start < 2 then False
      else starts_literal_after_charset_introducer lx (skip_while is_space lx stop))"

text \<open>The loop of \<open>identifier_span_equals_keyword\<close> compares the bytes of the span one by one.\<close>

definition identifier_span_equals_keyword :: "sql_lexer \<Rightarrow> nat \<Rightarrow> nat \<Rightarrow> string \<Rightarrow> bool" where
  "identifier_span_equals_keyword lx start stop keyword =
     (if lexer_input lx = None \<or> stop < start \<or> stop - start \<noteq> length keyword then False
      else list_all (\<lambda>i. ascii_upper (input_at lx (start + i)) = keyword ! i) [0..<length keyword])"

definition identifier_span_is_temporal_literal_introducer :: "sql_lexer \<Rightarrow> nat \<Rightarrow> nat \<Rightarrow> bool" where
  "identifier_span_is_temporal_literal_introducer lx start stop =
     (if lexer_input lx = None \<or> start \<ge> stop then False
      else
        let n = stop - start; first = ascii_upper (input_at lx start)
        in if (first = CHR ''D'' \<and> n \<noteq> 4) \<or> (first = CHR ''T'' \<and> n \<noteq> 4 \<and> n \<noteq> 9) \<or>
              (first \<noteq> CHR ''D'' \<and> first \<noteq> CHR ''T'') then False
           else if first = CHR ''D'' \<and> \<not> identifier_span_equals_keyword lx start stop ''DATE'' then False
           else if first = CHR ''T'' \<and> n = 4 \<and> \<not> identifier_span_equals_keyword lx start stop ''TIME'' then False
           else if first = CHR ''T'' \<and> n = 9 \<and> \<not> identifier_span_equals_keyword lx start stop ''TIMESTAMP'' then False
           else
             let cursor = skip_while is_space lx stop
             in cursor < lexer_length lx \<and>
                (input_at lx cursor = SINGLE_QUOTE \<or>
                 (input_at lx cursor = DOUBLE_QUOTE \<and> lexer_modes lx AND MYLITE_SQL_MODE_ANSI_QUOTES = 0)))"

text \<open>The span of the input from one offset to another.\<close>

definition input_span :: "sql_lexer \<Rightarrow> nat \<Rightarrow> nat \<Rightarrow> string" where
  "input_span lx start stop = take (stop - start) (drop start (the (lexer_input lx)))"

definition scan_unquoted_identifier :: "sql_lexer \<Rightarrow> u32 \<Rightarrow> sql_lexer \<times> sql_token" where
  "scan_unquoted_identifier lx flags =
     (let start = make_token_start lx flags;
          lx = advance_to_offset_no_newline lx (skip_identifier_parts lx (lexer_offset lx));
          stop = lexer_offset lx;
          (kind, keyword) =
            (if identifier_span_is_charset_introducer lx (start_offset start) stop
             then (MYLITE_SQL_TOKEN_CHARSET_INTRODUCER, no_keyword)
             else if identifier_span_is_temporal_literal_introducer lx (start_offset start) stop
             then (MYLITE_SQL_TOKEN_TEMPORAL_LITERAL_INTRODUCER, no_keyword)
             else
               let (is_keyword, keyword) = mylite_sql_keyword_lookup (Some (input_span lx (start_offset start) stop))
               in (if is_keyword then MYLITE_SQL_TOKEN_KEYWORD else MYLITE_SQL_TOKEN_IDENTIFIER, keyword))
      in (lx, (set_token lx kind start)
            \<lparr>token_keyword_flags := result_flags keyword, token_keyword_index := result_index keyword\<rparr>))"

definition scan_word :: "sql_lexer \<Rightarrow> u32 \<Rightarrow> sql_lexer \<times> sql_token" where
  "scan_word lx flags =
     (let byte = peek_at lx 0; next_byte = peek_at lx 1; start = make_token_start lx flags
      in if (byte = CHR ''N'' \<or> byte = CHR ''n'') \<and> next_byte = SINGLE_QUOTE then
           scan_quoted_string (advance_one lx) start
             \<lparr>string_kind = MYLITE_SQL_TOKEN_NATIONAL_STRING, string_quote = SINGLE_QUOTE,
              allow_backslash = backslash_escapes lx\<rparr>
         else if (byte = CHR ''X'' \<or> byte = CHR ''x'') \<and> next_byte = SINGLE_QUOTE then
           scan_quoted_hex_or_bit_literal (advance_one lx) start
             \<lparr>literal_kind = MYLITE_SQL_TOKEN_HEX_LITERAL, literal_hex = True\<rparr>
         else if (byte = CHR ''B'' \<or> byte = CHR ''b'') \<and> next_byte = SINGLE_QUOTE then
           scan_quoted_hex_or_bit_literal (advance_one lx) start
             \<lparr>literal_kind = MYLITE_SQL_TOKEN_BIT_LITERAL, literal_hex = False\<rparr>
         else scan_unquoted_identifier lx flags)"

text \<open>
  The number scanner: digits, then an exponent, or a fraction and an exponent. An exponent marker
  right after the digits that starts no exponent makes the whole token an identifier.
  \<open>finish_number\<close> is the part after the first exponent, with the cursor reached there.
\<close>

definition finish_number :: "sql_lexer \<Rightarrow> u32 \<Rightarrow> token_start \<Rightarrow> bool \<Rightarrow> nat \<Rightarrow> sql_lexer \<times> sql_token" where
  "finish_number lx flags start saw_exponent cursor =
     (let saw_dot = (\<not> saw_exponent \<and> cursor < lexer_length lx \<and> input_at lx cursor = CHR ''.'');
          cursor = (if saw_dot then skip_digits lx (cursor + 1) else cursor);
          (saw_exponent, cursor) =
            (if \<not> saw_exponent \<and> cursor < lexer_length lx \<and> is_exponent_marker (input_at lx cursor) then
               case scan_exponent_span lx cursor of None \<Rightarrow> (saw_exponent, cursor) | Some c \<Rightarrow> (True, c)
             else (saw_exponent, cursor))
      in if \<not> saw_dot \<and> \<not> saw_exponent \<and> cursor < lexer_length lx \<and> is_identifier_part (input_at lx cursor)
         then scan_digit_leading_identifier lx flags
         else
           let lx = advance_to_offset_no_newline lx cursor;
               kind = (if saw_exponent then MYLITE_SQL_TOKEN_FLOAT
                       else if saw_dot then MYLITE_SQL_TOKEN_DECIMAL else MYLITE_SQL_TOKEN_INTEGER)
           in (lx, set_token lx kind start))"

definition scan_digit_leading_token :: "sql_lexer \<Rightarrow> u32 \<Rightarrow> sql_lexer \<times> sql_token" where
  "scan_digit_leading_token lx flags =
     (let start = make_token_start lx flags; cursor = lexer_offset lx
      in if input_at lx cursor = CHR ''0'' \<and> cursor + 2 < lexer_length lx \<and>
            input_at lx (cursor + 1) = CHR ''x'' \<and> is_hex_digit (input_at lx (cursor + 2)) then
           scan_prefixed_hex_or_bit_literal lx start
             \<lparr>literal_kind = MYLITE_SQL_TOKEN_HEX_LITERAL, literal_hex = True\<rparr>
         else if input_at lx cursor = CHR ''0'' \<and> cursor + 2 < lexer_length lx \<and>
            input_at lx (cursor + 1) = CHR ''b'' \<and> is_bit_digit (input_at lx (cursor + 2)) then
           scan_prefixed_hex_or_bit_literal lx start
             \<lparr>literal_kind = MYLITE_SQL_TOKEN_BIT_LITERAL, literal_hex = False\<rparr>
         else
           let cursor = skip_digits lx cursor
           in if cursor < lexer_length lx \<and> is_exponent_marker (input_at lx cursor) then
                case scan_exponent_span lx cursor of
                  None \<Rightarrow> scan_digit_leading_identifier lx flags
                | Some c \<Rightarrow> finish_number lx flags start True c
              else finish_number lx flags start False cursor)"

definition scan_dot_or_number :: "sql_lexer \<Rightarrow> u32 \<Rightarrow> sql_lexer \<times> sql_token" where
  "scan_dot_or_number lx flags =
     (let start = make_token_start lx flags
      in if \<not> is_digit (peek_at lx 1) then
           let lx = advance_one lx in (lx, set_token lx MYLITE_SQL_TOKEN_PUNCTUATION start)
         else
           let cursor = skip_digits lx (lexer_offset lx + 1);
               (saw_exponent, cursor) =
                 (if cursor < lexer_length lx \<and> is_exponent_marker (input_at lx cursor) then
                    case scan_exponent_span lx cursor of None \<Rightarrow> (False, cursor) | Some c \<Rightarrow> (True, c)
                  else (False, cursor));
               lx = advance_to_offset_no_newline lx cursor
           in (lx, set_token lx (if saw_exponent then MYLITE_SQL_TOKEN_FLOAT else MYLITE_SQL_TOKEN_DECIMAL) start))"


section \<open>Variables\<close>

function quoted_component_loop :: "sql_lexer \<Rightarrow> bool \<times> sql_lexer" where
  "quoted_component_loop lx =
     (if lexer_offset lx < lexer_length lx then
        if peek_at lx 0 = BACKQUOTE then
          if peek_at (advance_one lx) 0 = BACKQUOTE then quoted_component_loop (advance_one (advance_one lx))
          else (True, advance_one lx)
        else quoted_component_loop (advance_one lx)
      else (False, lx))"
  by pat_completeness auto
termination
  by (relation "measure remaining") auto

declare quoted_component_loop.simps [simp del]

definition scan_quoted_system_variable_component :: "sql_lexer \<Rightarrow> bool \<times> sql_lexer" where
  "scan_quoted_system_variable_component lx = quoted_component_loop (advance_one lx)"

lemma remaining_component_loop: "remaining (snd (quoted_component_loop lx)) \<le> remaining lx"
proof (induction lx rule: quoted_component_loop.induct)
  case (1 lx)
  then show ?case
    by (subst quoted_component_loop.simps)
      (auto intro: less_imp_le le_trans [OF _ remaining_advance_one_le] le_trans [OF _ less_imp_le [OF remaining_twice]])
qed

lemma remaining_component [simp]:
  "lexer_offset lx < lexer_length lx \<Longrightarrow> remaining (snd (scan_quoted_system_variable_component lx)) < remaining lx"
  unfolding scan_quoted_system_variable_component_def
  by (rule le_less_trans [OF remaining_component_loop remaining_advance_one])

function system_variable_loop :: "token_start \<Rightarrow> sql_lexer \<Rightarrow> sql_lexer \<times> sql_token" where
  "system_variable_loop start lx =
     (if lexer_offset lx < lexer_length lx then
        let byte = peek_at lx 0
        in if is_identifier_part byte \<or> byte = CHR ''.'' then system_variable_loop start (advance_one lx)
           else if byte = BACKQUOTE then
             if \<not> fst (scan_quoted_system_variable_component lx)
             then (snd (scan_quoted_system_variable_component lx),
               set_error_token (snd (scan_quoted_system_variable_component lx)) MYLITE_SQL_LEXER_ERROR_INVALID_VARIABLE start)
             else system_variable_loop start (snd (scan_quoted_system_variable_component lx))
           else (lx, set_token lx MYLITE_SQL_TOKEN_SYSTEM_VARIABLE start)
      else (lx, set_token lx MYLITE_SQL_TOKEN_SYSTEM_VARIABLE start))"
  by pat_completeness auto
termination
  by (relation "measure (\<lambda>(start, lx). remaining lx)") auto

declare system_variable_loop.simps [simp del]

definition scan_system_variable :: "sql_lexer \<Rightarrow> token_start \<Rightarrow> sql_lexer \<times> sql_token" where
  "scan_system_variable lx start =
     (let byte = peek_at lx 0
      in if \<not> is_identifier_part byte \<and> byte \<noteq> CHR ''.'' \<and> byte \<noteq> BACKQUOTE
         then (lx, set_error_token lx MYLITE_SQL_LEXER_ERROR_INVALID_VARIABLE start)
         else system_variable_loop start lx)"

definition scan_variable :: "sql_lexer \<Rightarrow> u32 \<Rightarrow> sql_lexer \<times> sql_token" where
  "scan_variable lx flags =
     (let start = make_token_start lx flags; lx = advance_one lx; byte = peek_at lx 0
      in if byte = CHR ''@'' then scan_system_variable (advance_one lx) start
         else if byte = SINGLE_QUOTE \<or> byte = DOUBLE_QUOTE \<or> byte = BACKQUOTE then scan_quoted_variable lx start byte
         else if \<not> is_user_variable_part byte then (lx, set_token lx MYLITE_SQL_TOKEN_USER_VARIABLE start)
         else
           let lx = advance_to_offset_no_newline lx (skip_user_variable_parts lx (lexer_offset lx))
           in (lx, set_token lx MYLITE_SQL_TOKEN_USER_VARIABLE start))"

section \<open>Operators and punctuation\<close>

record operator_match =
  match_kind :: sql_operator_kind
  match_length :: nat

record operator_bytes =
  first_byte :: char
  second_byte :: char
  third_byte :: char

definition make_operator_match :: "sql_operator_kind \<Rightarrow> nat \<Rightarrow> operator_match" where
  "make_operator_match kind n = \<lparr>match_kind = kind, match_length = n\<rparr>"

definition classify_minus_operator :: "operator_bytes \<Rightarrow> operator_match" where
  "classify_minus_operator bytes =
     (if second_byte bytes \<noteq> CHR ''>'' then make_operator_match MYLITE_SQL_OPERATOR_MINUS 1
      else if third_byte bytes = CHR ''>'' then make_operator_match MYLITE_SQL_OPERATOR_JSON_UNQUOTE_EXTRACT 3
      else make_operator_match MYLITE_SQL_OPERATOR_JSON_EXTRACT 2)"

definition classify_less_operator :: "operator_bytes \<Rightarrow> operator_match" where
  "classify_less_operator bytes =
     (if second_byte bytes = CHR ''='' \<and> third_byte bytes = CHR ''>''
      then make_operator_match MYLITE_SQL_OPERATOR_NULL_SAFE_EQUAL 3
      else if second_byte bytes = CHR ''<'' then make_operator_match MYLITE_SQL_OPERATOR_LEFT_SHIFT 2
      else if second_byte bytes = CHR ''='' then make_operator_match MYLITE_SQL_OPERATOR_LESS_EQUAL 2
      else if second_byte bytes = CHR ''>'' then make_operator_match MYLITE_SQL_OPERATOR_NOT_EQUAL 2
      else make_operator_match MYLITE_SQL_OPERATOR_LESS 1)"

definition classify_greater_operator :: "operator_bytes \<Rightarrow> operator_match" where
  "classify_greater_operator bytes =
     (if second_byte bytes = CHR ''>'' then make_operator_match MYLITE_SQL_OPERATOR_RIGHT_SHIFT 2
      else if second_byte bytes = CHR ''='' then make_operator_match MYLITE_SQL_OPERATOR_GREATER_EQUAL 2
      else make_operator_match MYLITE_SQL_OPERATOR_GREATER 1)"

definition classify_bang_operator :: "operator_bytes \<Rightarrow> operator_match" where
  "classify_bang_operator bytes =
     (if second_byte bytes = CHR ''='' then make_operator_match MYLITE_SQL_OPERATOR_NOT_EQUAL 2
      else make_operator_match MYLITE_SQL_OPERATOR_NOT 1)"

definition classify_ampersand_operator :: "operator_bytes \<Rightarrow> operator_match" where
  "classify_ampersand_operator bytes =
     (if second_byte bytes = CHR ''&'' then make_operator_match MYLITE_SQL_OPERATOR_LOGICAL_AND 2
      else make_operator_match MYLITE_SQL_OPERATOR_BITWISE_AND 1)"

definition classify_pipe_operator :: "operator_bytes \<Rightarrow> operator_match" where
  "classify_pipe_operator bytes =
     (if second_byte bytes = CHR ''|'' then make_operator_match MYLITE_SQL_OPERATOR_LOGICAL_OR 2
      else make_operator_match MYLITE_SQL_OPERATOR_BITWISE_OR 1)"

definition classify_colon_operator :: "operator_bytes \<Rightarrow> operator_match" where
  "classify_colon_operator bytes =
     (if second_byte bytes = CHR ''='' then make_operator_match MYLITE_SQL_OPERATOR_ASSIGN 2
      else make_operator_match MYLITE_SQL_OPERATOR_NONE 0)"

definition classify_operator :: "operator_bytes \<Rightarrow> operator_match" where
  "classify_operator bytes =
     (if first_byte bytes = CHR ''-'' then classify_minus_operator bytes
      else if first_byte bytes = CHR ''<'' then classify_less_operator bytes
      else if first_byte bytes = CHR ''>'' then classify_greater_operator bytes
      else if first_byte bytes = CHR ''!'' then classify_bang_operator bytes
      else if first_byte bytes = CHR ''&'' then classify_ampersand_operator bytes
      else if first_byte bytes = CHR ''|'' then classify_pipe_operator bytes
      else if first_byte bytes = CHR '':'' then classify_colon_operator bytes
      else if first_byte bytes = CHR ''='' then make_operator_match MYLITE_SQL_OPERATOR_EQUAL 1
      else if first_byte bytes = CHR ''+'' then make_operator_match MYLITE_SQL_OPERATOR_PLUS 1
      else if first_byte bytes = CHR ''*'' then make_operator_match MYLITE_SQL_OPERATOR_STAR 1
      else if first_byte bytes = CHR ''/'' then make_operator_match MYLITE_SQL_OPERATOR_SLASH 1
      else if first_byte bytes = CHR ''%'' then make_operator_match MYLITE_SQL_OPERATOR_PERCENT 1
      else if first_byte bytes = CHR ''~'' then make_operator_match MYLITE_SQL_OPERATOR_BITWISE_NOT 1
      else if first_byte bytes = CHR ''^'' then make_operator_match MYLITE_SQL_OPERATOR_BITWISE_XOR 1
      else make_operator_match MYLITE_SQL_OPERATOR_NONE 0)"

text \<open>\<open>None\<close> stands for the result \<^verbatim>\<open>false\<close>, which leaves the lexer as it is.\<close>

definition scan_operator_or_punctuation :: "sql_lexer \<Rightarrow> u32 \<Rightarrow> (sql_lexer \<times> sql_token) option" where
  "scan_operator_or_punctuation lx flags =
     (let start = make_token_start lx flags;
          operator = classify_operator
            \<lparr>first_byte = peek_at lx 0, second_byte = peek_at lx 1, third_byte = peek_at lx 2\<rparr>
      in if match_kind operator \<noteq> MYLITE_SQL_OPERATOR_NONE then
           let lx = advance_to_offset_no_newline lx (lexer_offset lx + match_length operator)
           in Some (lx, (set_token lx MYLITE_SQL_TOKEN_OPERATOR start)\<lparr>token_operator := match_kind operator\<rparr>)
         else if is_punctuation (peek_at lx 0) then
           let lx = advance_to_offset_no_newline lx (lexer_offset lx + 1)
           in Some (lx, set_token lx MYLITE_SQL_TOKEN_PUNCTUATION start)
         else None)"

section \<open>The next token\<close>

text \<open>
  \<open>scan_token\<close> is the part of \<open>mylite_sql_lexer_next\<close> after white space has been skipped and
  the end of the input has been excluded.
\<close>

definition scan_token :: "sql_lexer \<Rightarrow> u32 \<Rightarrow> sql_lexer \<times> sql_token" where
  "scan_token lx flags =
     (let byte = peek_at lx 0
      in if starts_comment lx then scan_comment lx flags
         else if byte = BACKQUOTE then scan_quoted_identifier lx (make_token_start lx flags) BACKQUOTE
         else if byte = SINGLE_QUOTE \<or> byte = DOUBLE_QUOTE then
           if byte = DOUBLE_QUOTE \<and> lexer_modes lx AND MYLITE_SQL_MODE_ANSI_QUOTES \<noteq> 0
           then scan_quoted_identifier lx (make_token_start lx flags) DOUBLE_QUOTE
           else scan_quoted_string lx (make_token_start lx flags)
             \<lparr>string_kind = MYLITE_SQL_TOKEN_STRING, string_quote = byte, allow_backslash = backslash_escapes lx\<rparr>
         else if is_identifier_start byte then scan_word lx flags
         else if is_digit byte then scan_digit_leading_token lx flags
         else if byte = CHR ''.'' then scan_dot_or_number lx flags
         else if byte = CHR ''@'' then scan_variable lx flags
         else if byte = CHR ''?'' then
           let start = make_token_start lx flags; lx = advance_one lx
           in (lx, set_token lx MYLITE_SQL_TOKEN_PARAMETER start)
         else
           case scan_operator_or_punctuation lx flags of
             Some r \<Rightarrow> r
           | None \<Rightarrow>
               let start = make_token_start lx flags; lx = advance_one lx
               in (lx, set_error_token lx MYLITE_SQL_LEXER_ERROR_UNEXPECTED_BYTE start))"

text \<open>
  The whole call: it returns one for a missing lexer or token, leaving both alone, and zero
  otherwise.
\<close>

definition lexer_next :: "sql_lexer \<Rightarrow> sql_lexer \<times> sql_token" where
  "lexer_next lx =
     (let (skipped, lx) = consume_whitespace lx; flags = (if skipped then MYLITE_SQL_TOKEN_HAS_LEADING_SPACE else 0)
      in if lexer_offset lx \<ge> lexer_length lx
         then (lx, set_token lx MYLITE_SQL_TOKEN_EOF (make_token_start lx flags))
         else scan_token lx flags)"

definition mylite_sql_lexer_next ::
    "sql_lexer option \<Rightarrow> sql_token option \<Rightarrow> int \<times> sql_lexer option \<times> sql_token option" where
  "mylite_sql_lexer_next lexer out_token =
     (case lexer of None \<Rightarrow> (1, lexer, out_token)
      | Some lx \<Rightarrow>
          if out_token = None then (1, lexer, out_token)
          else let (lx, token) = lexer_next lx in (0, Some lx, Some token))"

end
