(* ===== verification/Lexer_Tokens.thy ===== *)
theory Lexer_Tokens
  imports Sql_Lexer
begin

text \<open>
  What the lexer returns: every call moves the offset forward within the input and returns the
  token between the two offsets, after white space only; the calls end with the end token and the
  tokens with the white space between them make up the input.
\<close>

named_theorems scanner_rules \<open>the scanners move forward and return the token they passed over\<close>

section \<open>Moving forward\<close>

definition lexer_ok :: "sql_lexer \<Rightarrow> bool" where
  "lexer_ok lx \<longleftrightarrow>
     (case lexer_input lx of None \<Rightarrow> lexer_length lx = 0 | Some s \<Rightarrow> lexer_length lx \<le> length s) \<and>
     lexer_offset lx \<le> lexer_length lx"

definition scanned :: "sql_lexer \<Rightarrow> sql_lexer \<Rightarrow> bool" where
  "scanned lx lx' \<longleftrightarrow> lexer_input lx' = lexer_input lx \<and> lexer_length lx' = lexer_length lx \<and>
     lexer_modes lx' = lexer_modes lx \<and> lexer_offset lx \<le> lexer_offset lx' \<and> lexer_offset lx' \<le> lexer_length lx"

lemma lexer_ok_offset [simp]: "lexer_ok lx \<Longrightarrow> lexer_offset lx \<le> lexer_length lx"
  by (simp add: lexer_ok_def)

lemma lexer_ok_input [simp]: "lexer_ok lx \<Longrightarrow> lexer_offset lx < lexer_length lx \<Longrightarrow> lexer_input lx \<noteq> None"
  by (auto simp: lexer_ok_def split: option.splits)

lemma scanned_ok: "lexer_ok lx \<Longrightarrow> scanned lx lx' \<Longrightarrow> lexer_ok lx'"
  by (cases "lexer_input lx") (simp_all add: lexer_ok_def scanned_def)

lemma scanned_refl: "lexer_offset lx \<le> lexer_length lx \<Longrightarrow> scanned lx lx"
  by (simp add: scanned_def)

lemma scanned_trans: "scanned lx lx' \<Longrightarrow> scanned lx' lx'' \<Longrightarrow> scanned lx lx''"
  by (auto simp: scanned_def)

lemma scanned_offset: "scanned lx lx' \<Longrightarrow> lexer_offset lx \<le> lexer_offset lx' \<and> lexer_offset lx' \<le> lexer_length lx'"
  by (auto simp: scanned_def)

lemma scanned_advance_one: "lexer_offset lx \<le> lexer_length lx \<Longrightarrow> scanned lx (advance_one lx)"
  by (simp add: scanned_def advance_one_def)

lemma scanned_advance_two: "lexer_offset lx \<le> lexer_length lx \<Longrightarrow> scanned lx (advance_two lx)"
  by (simp add: scanned_def advance_two_def advance_one_def)

lemma scanned_move:
  "lexer_offset lx \<le> n \<Longrightarrow> n \<le> lexer_length lx \<Longrightarrow> scanned lx (advance_to_offset_no_newline lx n)"
  by (simp add: scanned_def advance_to_offset_no_newline_def)

lemma move_offset [simp]: "lexer_offset (advance_to_offset_no_newline lx n) = n"
  by (simp add: advance_to_offset_no_newline_def)

lemma move_input [simp]: "lexer_input (advance_to_offset_no_newline lx n) = lexer_input lx"
  by (simp add: advance_to_offset_no_newline_def)

lemma advance_one_offset [simp]: "lexer_offset lx < lexer_length lx \<Longrightarrow> lexer_offset (advance_one lx) = lexer_offset lx + 1"
  by (simp add: advance_one_def)

lemma advance_one_length [simp]: "lexer_length (advance_one lx) = lexer_length lx"
  by (simp add: advance_one_def)

lemma advance_twice_bounded [simp]:
  "lexer_offset lx \<le> lexer_length lx \<Longrightarrow> lexer_offset (advance_one (advance_one lx)) \<le> lexer_length lx"
  by (simp add: advance_one_def)

lemma advance_one_bounded [simp]: "lexer_offset lx \<le> lexer_length lx \<Longrightarrow> lexer_offset (advance_one lx) \<le> lexer_length lx"
  by (simp add: advance_one_def)

lemma advance_one_input [simp]: "lexer_input (advance_one lx) = lexer_input lx"
  by (simp add: advance_one_def)

lemma peek_bound: "peek_at lx k \<noteq> NUL \<Longrightarrow> lexer_offset lx + k < lexer_length lx"
  by (auto simp: peek_at_def split: if_splits)

lemma peek_is: "peek_at lx k = c \<Longrightarrow> c \<noteq> NUL \<Longrightarrow> lexer_offset lx + k < lexer_length lx"
  using peek_bound by blast

lemma skip_while_bounds: "cursor \<le> lexer_length lx \<Longrightarrow> cursor \<le> skip_while p lx cursor \<and> skip_while p lx cursor \<le> lexer_length lx"
proof (induction p lx cursor rule: skip_while.induct)
  case (1 p lx cursor)
  then show ?case by (subst (1 2) skip_while.simps) auto
qed

lemma skip_while_all:
  "cursor \<le> i \<Longrightarrow> i < skip_while p lx cursor \<Longrightarrow> p (input_at lx i)"
proof (induction p lx cursor rule: skip_while.induct)
  case (1 p lx cursor)
  show ?case
  proof (cases "cursor < lexer_length lx \<and> p (input_at lx cursor)")
    case True
    with 1 show ?thesis by (cases "i = cursor") (auto simp: skip_while.simps [of p lx cursor])
  next
    case False
    with "1.prems" show ?thesis by (subst (asm) skip_while.simps) auto
  qed
qed

lemma skip_while_stop:
  "skip_while p lx cursor < lexer_length lx \<Longrightarrow> \<not> p (input_at lx (skip_while p lx cursor))"
proof (induction p lx cursor rule: skip_while.induct)
  case (1 p lx cursor)
  then show ?case
    by (cases "cursor < lexer_length lx \<and> p (input_at lx cursor)") (simp_all add: skip_while.simps [of p lx cursor])
qed

lemma skip_while_progress:
  "cursor < lexer_length lx \<Longrightarrow> p (input_at lx cursor) \<Longrightarrow> cursor < skip_while p lx cursor"
  using skip_while_bounds [of "cursor + 1" lx p] by (subst skip_while.simps) simp

lemma exponent_bounds:
  assumes "scan_exponent_span lx cursor = Some c"
  shows "cursor < c \<and> c \<le> lexer_length lx"
proof -
  define e where "e = (if cursor + 1 < lexer_length lx \<and> is_sign (input_at lx (cursor + 1)) then cursor + 2 else cursor + 1)"
  from assms have "cursor < e" "e < lexer_length lx" "c = skip_digits lx (e + 1)"
    by (auto simp: scan_exponent_span_def Let_def e_def split: if_splits)
  then show ?thesis using skip_while_bounds [of "e + 1" lx is_digit] by (auto simp: skip_digits_def)
qed

section \<open>The token of a scan\<close>

text \<open>
  \<open>token_of start lx t\<close>: the token lies between the start and the offset of the lexer, carries
  the flags of the start, is not the end token, and has an error exactly when its kind says so.
\<close>

definition token_of :: "token_start \<Rightarrow> sql_lexer \<Rightarrow> sql_token \<Rightarrow> bool" where
  "token_of start lx t \<longleftrightarrow>
     token_offset t = start_offset start \<and> token_length t = lexer_offset lx - start_offset start \<and>
     token_flags t = start_flags start \<and> token_source_length t = lexer_length lx \<and>
     token_text t = (if lexer_input lx = None then None else Some (start_offset start)) \<and> token_span_text t = None \<and>
     token_kind t \<noteq> MYLITE_SQL_TOKEN_EOF \<and>
     (token_kind t = MYLITE_SQL_TOKEN_ERROR \<longleftrightarrow> token_error t \<noteq> MYLITE_SQL_LEXER_ERROR_NONE) \<and>
     (token_kind t = MYLITE_SQL_TOKEN_OPERATOR \<longleftrightarrow> token_operator t \<noteq> MYLITE_SQL_OPERATOR_NONE)"

lemma token_of_set_token:
  "kind \<notin> {MYLITE_SQL_TOKEN_EOF, MYLITE_SQL_TOKEN_ERROR, MYLITE_SQL_TOKEN_OPERATOR} \<Longrightarrow> token_of start lx (set_token lx kind start)"
  by (auto simp: token_of_def set_token_def)

lemma token_of_error:
  "error \<noteq> MYLITE_SQL_LEXER_ERROR_NONE \<Longrightarrow> token_of start lx (set_error_token lx error start)"
  by (simp add: token_of_def set_error_token_def set_token_def)

lemma token_of_binary_error: "token_of start lx (set_error_token lx (binary_literal_error hex) start)"
  by (simp add: token_of_error binary_literal_error_def)

definition scans :: "token_start \<Rightarrow> sql_lexer \<Rightarrow> sql_lexer \<times> sql_token \<Rightarrow> bool" where
  "scans start lx r \<longleftrightarrow> scanned lx (fst r) \<and> token_of start (fst r) (snd r)"

lemma scansI [intro]: "scanned lx lx' \<Longrightarrow> token_of start lx' t \<Longrightarrow> scans start lx (lx', t)"
  by (simp add: scans_def)

lemma scans_after: "scanned lx lx' \<Longrightarrow> scans start lx' r \<Longrightarrow> scans start lx r"
  by (auto simp: scans_def intro: scanned_trans)

lemma scans_advance_one:
  "scans start (advance_one lx) r \<Longrightarrow> lexer_offset lx \<le> lexer_length lx \<Longrightarrow> scans start lx r"
  using scans_after scanned_advance_one by blast

lemma scans_advance_twice:
  "scans start (advance_one (advance_one lx)) r \<Longrightarrow> lexer_offset lx \<le> lexer_length lx \<Longrightarrow> scans start lx r"
  using scans_after scanned_advance_two unfolding advance_two_def by blast

lemmas token_rules = token_of_set_token token_of_error token_of_binary_error
lemmas loop_rules = scans_advance_one scans_advance_twice scanned_refl

subsection \<open>The loops\<close>

lemma scanned_line_comment: "lexer_offset lx \<le> lexer_length lx \<Longrightarrow> scanned lx (scan_line_comment_body lx)"
proof (induction lx rule: scan_line_comment_body.induct)
  case (1 lx)
  then show ?case
    by (subst scan_line_comment_body.simps)
      (auto intro: scanned_refl scanned_trans [OF scanned_advance_one] simp: advance_one_bounded)
qed

lemma scanned_inner_loop: "lexer_offset lx \<le> lexer_length lx \<Longrightarrow> scanned lx (inner_block_comment_loop lx)"
proof (induction lx rule: inner_block_comment_loop.induct)
  case (1 lx)
  then show ?case
    by (subst inner_block_comment_loop.simps)
      (auto intro: scanned_refl scanned_advance_two scanned_trans [OF scanned_advance_one] simp: advance_one_bounded)
qed

lemma scanned_inner: "lexer_offset lx \<le> lexer_length lx \<Longrightarrow> scanned lx (scan_inner_block_comment_body lx)"
  unfolding scan_inner_block_comment_body_def
  using scanned_advance_two scanned_offset scanned_inner_loop scanned_trans by blast

lemma scanned_block_comment:
  "lexer_offset lx \<le> lexer_length lx \<Longrightarrow> scanned lx (snd (scan_block_comment_body lx kind))"
proof (induction lx kind rule: scan_block_comment_body.induct)
  case (1 lx kind)
  then show ?case
    by (subst scan_block_comment_body.simps)
      (auto intro: scanned_refl scanned_advance_two scanned_trans [OF scanned_advance_one] scanned_trans [OF scanned_inner]
        simp: advance_one_bounded scanned_offset [OF scanned_inner])
qed

lemma scans_quoted_string_loop:
  "lexer_offset lx \<le> lexer_length lx \<Longrightarrow> string_kind options \<notin> {MYLITE_SQL_TOKEN_EOF, MYLITE_SQL_TOKEN_ERROR, MYLITE_SQL_TOKEN_OPERATOR} \<Longrightarrow>
     scans start lx (quoted_string_loop options start lx)"
proof (induction options start lx rule: quoted_string_loop.induct)
  case (1 options start lx)
  then show ?case
    by (subst quoted_string_loop.simps)
      (cases "string_quote options = BACKSLASH";
        auto simp: Let_def intro!: token_rules scanned_advance_one intro: loop_rules)
qed


lemma scans_quoted_identifier_loop:
  "lexer_offset lx \<le> lexer_length lx \<Longrightarrow> scans start lx (quoted_identifier_loop start quote lx)"
proof (induction start quote lx rule: quoted_identifier_loop.induct)
  case (1 start quote lx)
  then show ?case
    by (subst quoted_identifier_loop.simps)
      (auto intro!: token_rules scanned_advance_one intro: loop_rules)
qed

lemma scans_quoted_variable_loop:
  "lexer_offset lx \<le> lexer_length lx \<Longrightarrow> scans start lx (quoted_variable_loop start quote backslash lx)"
proof (induction start quote backslash lx rule: quoted_variable_loop.induct)
  case (1 start quote backslash lx)
  then show ?case
    by (subst quoted_variable_loop.simps)
      (cases "quote = BACKSLASH"; cases "peek_at lx 0 = quote";
        auto simp: Let_def intro!: token_rules scanned_advance_one intro: loop_rules)
qed

lemma scans_quoted_literal_loop:
  "lexer_offset lx \<le> lexer_length lx \<Longrightarrow>
   literal_kind options \<notin> {MYLITE_SQL_TOKEN_EOF, MYLITE_SQL_TOKEN_ERROR, MYLITE_SQL_TOKEN_OPERATOR} \<Longrightarrow>
     scans start lx (quoted_literal_loop options start digits valid lx)"
proof (induction options start digits valid lx rule: quoted_literal_loop.induct)
  case (1 options start digits valid lx)
  show ?case
  proof (cases "lexer_offset lx < lexer_length lx \<and> peek_at lx 0 \<noteq> SINGLE_QUOTE")
    case True
    with "1.IH" [OF _ refl] "1.prems" show ?thesis
      by (subst quoted_literal_loop.simps) (auto simp: Let_def intro: loop_rules)
  next
    case False
    with "1.prems" show ?thesis
      by (subst quoted_literal_loop.simps) (auto simp: Let_def intro!: token_rules scanned_advance_one scanned_refl)
  qed
qed

lemma scanned_component_loop: "lexer_offset lx \<le> lexer_length lx \<Longrightarrow> scanned lx (snd (quoted_component_loop lx))"
proof (induction lx rule: quoted_component_loop.induct)
  case (1 lx)
  then show ?case
    by (subst quoted_component_loop.simps)
      (auto intro: scanned_refl scanned_advance_one scanned_trans [OF scanned_advance_one]
        scanned_trans [OF scanned_advance_two, unfolded advance_two_def])
qed

lemma scanned_component:
  "lexer_offset lx \<le> lexer_length lx \<Longrightarrow> scanned lx (snd (scan_quoted_system_variable_component lx))"
  unfolding scan_quoted_system_variable_component_def
  by (rule scanned_trans [OF scanned_advance_one scanned_component_loop]) simp_all

lemma scans_system_variable_loop:
  "lexer_offset lx \<le> lexer_length lx \<Longrightarrow> scans start lx (system_variable_loop start lx)"
proof (induction start lx rule: system_variable_loop.induct)
  case (1 start lx)
  let ?lx = "snd (scan_quoted_system_variable_component lx)"
  have c: "scanned lx ?lx" "lexer_offset ?lx \<le> lexer_length ?lx"
    using scanned_component [OF "1.prems"] scanned_offset by blast+
  with 1 show ?case
    by (subst system_variable_loop.simps)
      (auto simp: Let_def intro!: token_rules intro: loop_rules scans_after [OF c(1)])
qed

subsection \<open>The scanners\<close>

text \<open>A scan that starts at the offset and passes over at least one byte.\<close>

definition scans_here :: "u32 \<Rightarrow> sql_lexer \<Rightarrow> sql_lexer \<times> sql_token \<Rightarrow> bool" where
  "scans_here flags lx r \<longleftrightarrow> scans (make_token_start lx flags) lx r \<and> lexer_offset lx < lexer_offset (fst r)"

lemma scans_hereI:
  "scans (make_token_start lx flags) lx' r \<Longrightarrow> scanned lx lx' \<Longrightarrow> lexer_offset lx < lexer_offset lx' \<Longrightarrow> scans_here flags lx r"
  by (auto simp: scans_here_def scans_def scanned_def)

lemma scans_here_move:
  "lexer_offset lx < n \<Longrightarrow> n \<le> lexer_length lx \<Longrightarrow> token_of (make_token_start lx flags) (advance_to_offset_no_newline lx n) t \<Longrightarrow>
     scans_here flags lx (advance_to_offset_no_newline lx n, t)"
  by (auto simp: scans_here_def scans_def scanned_def advance_to_offset_no_newline_def)

lemma scans_here_one:
  "lexer_offset lx < lexer_length lx \<Longrightarrow> token_of (make_token_start lx flags) (advance_one lx) t \<Longrightarrow>
     scans_here flags lx (advance_one lx, t)"
  by (auto simp: scans_here_def intro!: scanned_advance_one)

lemma scans_comment [scanner_rules]:
  assumes "starts_comment lx"
  shows "scans_here flags lx (scan_comment lx flags)"
proof (cases "starts_line_comment lx")
  case True
  then have here: "lexer_offset lx < lexer_length lx" and byte: "peek_at lx 0 \<noteq> CHR 0x0A" "peek_at lx 0 \<noteq> CHR 0x0D"
    using peek_bound [of lx 0] by (auto simp: starts_line_comment_def)
  have "scanned (advance_one lx) (scan_line_comment_body (advance_one lx))"
    using here by (intro scanned_line_comment) simp
  moreover have "scan_line_comment_body lx = scan_line_comment_body (advance_one lx)"
    using here byte by (subst scan_line_comment_body.simps) simp
  ultimately show ?thesis
    using True here scanned_advance_one [of lx]
    by (auto simp: scan_comment_def Let_def intro!: scans_hereI [of lx flags "advance_one lx"] token_rules)
next
  case False
  with assms have "peek_at lx 0 \<noteq> NUL" by (auto simp: starts_comment_def starts_line_comment_def Let_def)
  then have here: "lexer_offset lx < lexer_length lx" using peek_bound [of lx 0] by simp
  let ?k = "block_comment_token_kind lx"
  have two: "scanned lx (advance_two lx)" "lexer_offset lx < lexer_offset (advance_two lx)"
    using here scanned_advance_two [of lx] by (auto simp: advance_two_def advance_one_def)
  have "scanned (advance_two lx) (snd (scan_block_comment_body (advance_two lx) ?k))"
    using scanned_offset [OF two(1)] by (intro scanned_block_comment) simp
  moreover have "?k \<notin> {MYLITE_SQL_TOKEN_EOF, MYLITE_SQL_TOKEN_ERROR, MYLITE_SQL_TOKEN_OPERATOR}"
    by (simp add: block_comment_token_kind_def)
  ultimately show ?thesis
    using False two
    by (auto simp: scan_comment_def Let_def split: prod.splits intro!: scans_hereI [of lx flags "advance_two lx"] token_rules)
qed


lemma scans_here_after_one:
  assumes "lexer_offset lx < lexer_length lx"
    and "\<And>lx'. lexer_offset lx' \<le> lexer_length lx' \<Longrightarrow> scans (make_token_start lx flags) lx' (f lx')"
  shows "scans_here flags lx (f (advance_one lx))" "scans_here flags lx (f (advance_one (advance_one lx)))"
proof -
  have "scanned lx (advance_one (advance_one lx))" "lexer_offset lx < lexer_offset (advance_one (advance_one lx))"
    using assms(1) scanned_advance_two [of lx] by (auto simp: advance_two_def advance_one_def)
  then show "scans_here flags lx (f (advance_one (advance_one lx)))"
    using assms by (intro scans_hereI [of lx flags "advance_one (advance_one lx)"]) auto
  show "scans_here flags lx (f (advance_one lx))"
    using assms scanned_advance_one [of lx] by (intro scans_hereI [of lx flags "advance_one lx"]) auto
qed

lemma scans_quoted_string [scanner_rules]:
  assumes "lexer_offset lx < lexer_length lx" "kind \<in> {MYLITE_SQL_TOKEN_STRING, MYLITE_SQL_TOKEN_NATIONAL_STRING}"
  shows "scans_here flags lx (scan_quoted_string lx (make_token_start lx flags)
      \<lparr>string_kind = kind, string_quote = quote, allow_backslash = backslash\<rparr>)"
    "scans_here flags lx (scan_quoted_string (advance_one lx) (make_token_start lx flags)
      \<lparr>string_kind = kind, string_quote = quote, allow_backslash = backslash\<rparr>)"
  unfolding scan_quoted_string_def
  by (rule scans_here_after_one; use assms in \<open>auto intro: scans_quoted_string_loop\<close>)+

lemma scans_quoted_identifier [scanner_rules]:
  "lexer_offset lx < lexer_length lx \<Longrightarrow> scans_here flags lx (scan_quoted_identifier lx (make_token_start lx flags) quote)"
  unfolding scan_quoted_identifier_def by (rule scans_here_after_one) (auto intro: scans_quoted_identifier_loop)

lemma scans_quoted_literal [scanner_rules]:
  assumes "lexer_offset lx < lexer_length lx" "kind \<in> {MYLITE_SQL_TOKEN_HEX_LITERAL, MYLITE_SQL_TOKEN_BIT_LITERAL}"
  shows "scans_here flags lx (scan_quoted_hex_or_bit_literal (advance_one lx) (make_token_start lx flags)
      \<lparr>literal_kind = kind, literal_hex = hex\<rparr>)"
  unfolding scan_quoted_hex_or_bit_literal_def
  by (rule scans_here_after_one) (use assms in \<open>auto intro: scans_quoted_literal_loop\<close>)

lemma skip_identifier_bounds:
  assumes "lexer_offset lx < lexer_length lx" "is_identifier_part (input_at lx (lexer_offset lx))"
  shows "lexer_offset lx < skip_identifier_parts lx (lexer_offset lx)" "skip_identifier_parts lx (lexer_offset lx) \<le> lexer_length lx"
  unfolding skip_identifier_parts_def
  using skip_while_progress [of "lexer_offset lx" lx is_identifier_part, OF assms] skip_while_bounds [of "lexer_offset lx" lx] assms by auto

lemma scans_digit_leading_identifier [scanner_rules]:
  assumes "lexer_offset lx < lexer_length lx" "is_identifier_part (input_at lx (lexer_offset lx))"
  shows "scans_here flags lx (scan_digit_leading_identifier lx flags)"
  using skip_identifier_bounds [OF assms]
  by (auto simp: scan_digit_leading_identifier_def Let_def intro!: scans_here_move token_rules)

lemma scans_unquoted_identifier [scanner_rules]:
  assumes "lexer_offset lx < lexer_length lx" "is_identifier_part (input_at lx (lexer_offset lx))"
  shows "scans_here flags lx (scan_unquoted_identifier lx flags)"
proof -
  have "token_of start lx' ((set_token lx' kind start)\<lparr>token_keyword_flags := a, token_keyword_index := b\<rparr>)"
    if "kind \<notin> {MYLITE_SQL_TOKEN_EOF, MYLITE_SQL_TOKEN_ERROR, MYLITE_SQL_TOKEN_OPERATOR}" for start lx' kind a b
    using that by (auto simp: token_of_def set_token_def)
  with skip_identifier_bounds [OF assms] show ?thesis
    by (auto simp: scan_unquoted_identifier_def Let_def split: prod.splits intro!: scans_here_move)
qed

lemma peek_here: "lexer_ok lx \<Longrightarrow> lexer_offset lx < lexer_length lx \<Longrightarrow> peek_at lx 0 = input_at lx (lexer_offset lx)"
  by (simp add: peek_at_def)

lemma scans_word [scanner_rules]:
  assumes "lexer_ok lx" "lexer_offset lx < lexer_length lx" "is_identifier_start (peek_at lx 0)"
  shows "scans_here flags lx (scan_word lx flags)"
  using assms scans_unquoted_identifier [of lx flags] peek_here [OF assms(1,2)]
  by (auto simp: scan_word_def Let_def is_identifier_part_def intro!: scanner_rules)

lemma scans_prefixed_literal [scanner_rules]:
  assumes "lexer_ok lx" "lexer_offset lx + 2 < lexer_length lx" "is_digit (input_at lx (lexer_offset lx))"
    and "kind \<in> {MYLITE_SQL_TOKEN_HEX_LITERAL, MYLITE_SQL_TOKEN_BIT_LITERAL}"
  shows "scans_here flags lx (scan_prefixed_hex_or_bit_literal lx (make_token_start lx flags) \<lparr>literal_kind = kind, literal_hex = hex\<rparr>)"
proof -
  let ?n = "skip_while (\<lambda>c. is_binary_literal_digit c hex) lx (lexer_offset lx + 2)"
  have "lexer_offset lx < ?n" "?n \<le> lexer_length lx"
    using skip_while_bounds [of "lexer_offset lx + 2" lx "\<lambda>c. is_binary_literal_digit c hex"] assms(2) by auto
  then show ?thesis
    using assms scans_digit_leading_identifier [of lx flags]
    by (auto simp: scan_prefixed_hex_or_bit_literal_def Let_def make_token_start_def is_identifier_part_def
      intro!: scans_here_move token_rules)
qed


lemma skip_digits_bounds:
  "c < lexer_length lx \<Longrightarrow> c < skip_digits lx (Suc c) \<and> skip_digits lx (Suc c) \<le> lexer_length lx"
  using skip_while_bounds [of "Suc c" lx is_digit] by (auto simp: skip_digits_def)

text \<open>The cursor after an exponent that may be missing.\<close>

lemma optional_exponent_bounds:
  assumes "c \<le> lexer_length lx"
    and "(if b \<and> c < lexer_length lx \<and> is_exponent_marker (input_at lx c)
          then case scan_exponent_span lx c of None \<Rightarrow> (e, c) | Some d \<Rightarrow> (True, d) else (e, c)) = (e', c')"
  shows "c \<le> c' \<and> c' \<le> lexer_length lx"
  using assms exponent_bounds [of lx c] by (auto split: if_splits option.splits)

lemma scans_finish_number:
  assumes "lexer_offset lx < c" "c \<le> lexer_length lx" "is_identifier_part (input_at lx (lexer_offset lx))"
  shows "scans_here flags lx (finish_number lx flags (make_token_start lx flags) saw_exponent c)"
proof -
  define dot where "dot \<longleftrightarrow> \<not> saw_exponent \<and> c < lexer_length lx \<and> input_at lx c = CHR ''.''"
  define c' where "c' = (if dot then skip_digits lx (c + 1) else c)"
  have c': "lexer_offset lx < c'" "c' \<le> lexer_length lx"
    using assms skip_digits_bounds [of c lx] by (auto simp: c'_def dot_def)
  obtain e d where ed: "(if \<not> saw_exponent \<and> c' < lexer_length lx \<and> is_exponent_marker (input_at lx c')
      then case scan_exponent_span lx c' of None \<Rightarrow> (saw_exponent, c') | Some d \<Rightarrow> (True, d) else (saw_exponent, c')) = (e, d)"
    by (rule prod.exhaust)
  from optional_exponent_bounds [OF c'(2) ed] c' have d: "lexer_offset lx < d" "d \<le> lexer_length lx" by auto
  show ?thesis
    unfolding finish_number_def Let_def dot_def [symmetric] c'_def [symmetric] ed prod.case
    using d assms(3) by (auto intro!: scans_here_move token_rules scans_digit_leading_identifier)
qed

lemma scans_digit_leading_token [scanner_rules]:
  assumes "lexer_ok lx" "lexer_offset lx < lexer_length lx" "is_digit (peek_at lx 0)"
  shows "scans_here flags lx (scan_digit_leading_token lx flags)"
proof -
  have digit: "is_digit (input_at lx (lexer_offset lx))" using assms peek_here by simp
  then have part: "is_identifier_part (input_at lx (lexer_offset lx))" by (simp add: is_identifier_part_def)
  let ?d = "skip_digits lx (lexer_offset lx)"
  have d: "lexer_offset lx < ?d" "?d \<le> lexer_length lx"
    using skip_while_progress [of "lexer_offset lx" lx is_digit] skip_while_bounds [of "lexer_offset lx" lx is_digit] assms(2) digit
    by (auto simp: skip_digits_def)
  have e: "lexer_offset lx < c \<and> c \<le> lexer_length lx" if "scan_exponent_span lx ?d = Some c" for c
    using exponent_bounds [OF that] d by simp
  show ?thesis
    unfolding scan_digit_leading_token_def Let_def
    using d e digit assms(1,2) part
    by (auto split: option.split intro!: scans_prefixed_literal scans_digit_leading_identifier scans_finish_number)
qed

lemma scans_dot_or_number [scanner_rules]:
  assumes "lexer_offset lx < lexer_length lx"
  shows "scans_here flags lx (scan_dot_or_number lx flags)"
proof -
  note d = skip_digits_bounds [OF assms]
  obtain e c where ec: "(if skip_digits lx (Suc (lexer_offset lx)) < lexer_length lx \<and>
        is_exponent_marker (input_at lx (skip_digits lx (Suc (lexer_offset lx))))
      then case scan_exponent_span lx (skip_digits lx (Suc (lexer_offset lx))) of
        None \<Rightarrow> (False, skip_digits lx (Suc (lexer_offset lx))) | Some c \<Rightarrow> (True, c)
      else (False, skip_digits lx (Suc (lexer_offset lx)))) = (e, c)"
    by (rule prod.exhaust)
  from optional_exponent_bounds [of _ lx True False e c] d ec have c: "lexer_offset lx < c" "c \<le> lexer_length lx" by force+
  show ?thesis
    unfolding scan_dot_or_number_def Let_def add_Suc_right Suc_eq_plus1 [symmetric] ec prod.case
    using c assms by (auto intro!: scans_here_move scans_here_one token_rules)
qed

lemma scans_variable [scanner_rules]:
  assumes "lexer_offset lx < lexer_length lx"
  shows "scans_here flags lx (scan_variable lx flags)"
proof -
  let ?start = "make_token_start lx flags" and ?one = "advance_one lx"
  have one: "lexer_offset ?one \<le> lexer_length ?one" "scanned lx ?one" "lexer_offset lx < lexer_offset ?one"
    using assms scanned_advance_one [of lx] by simp_all
  have system: "scans ?start lx' (scan_system_variable lx' ?start)" if "lexer_offset lx' \<le> lexer_length lx'" for lx'
    using that by (auto simp: scan_system_variable_def Let_def intro!: scans_system_variable_loop token_rules scanned_refl)
  have quoted: "scans ?start ?one (scan_quoted_variable ?one ?start q)" for q
    unfolding scan_quoted_variable_def
    using assms by (intro scans_advance_one [OF scans_quoted_variable_loop]) simp_all
  have move: "scanned ?one (advance_to_offset_no_newline ?one (skip_user_variable_parts ?one (lexer_offset ?one)))"
    using skip_while_bounds [OF one(1), of is_user_variable_part] by (auto simp: skip_user_variable_parts_def intro!: scanned_move)
  have "scans ?start ?one (if peek_at ?one 0 = CHR ''@'' then scan_system_variable (advance_one ?one) ?start
      else if peek_at ?one 0 = SINGLE_QUOTE \<or> peek_at ?one 0 = DOUBLE_QUOTE \<or> peek_at ?one 0 = BACKQUOTE
      then scan_quoted_variable ?one ?start (peek_at ?one 0)
      else if \<not> is_user_variable_part (peek_at ?one 0) then (?one, set_token ?one MYLITE_SQL_TOKEN_USER_VARIABLE ?start)
      else (advance_to_offset_no_newline ?one (skip_user_variable_parts ?one (lexer_offset ?one)),
        set_token (advance_to_offset_no_newline ?one (skip_user_variable_parts ?one (lexer_offset ?one))) MYLITE_SQL_TOKEN_USER_VARIABLE ?start))"
    using scans_advance_one [OF system [of "advance_one ?one"]] assms quoted scanned_refl [OF one(1)] move
    by (auto intro: token_rules)
  from scans_hereI [OF this one(2,3)] show ?thesis unfolding scan_variable_def Let_def .
qed


lemmas operator_defs = classify_operator_def classify_minus_operator_def classify_less_operator_def
  classify_greater_operator_def classify_bang_operator_def classify_ampersand_operator_def
  classify_pipe_operator_def classify_colon_operator_def make_operator_match_def

text \<open>An operator is not longer than the bytes before the first NUL.\<close>

lemma operator_length:
  assumes "match_kind (classify_operator b) \<noteq> MYLITE_SQL_OPERATOR_NONE"
  shows "0 < match_length (classify_operator b) \<and> match_length (classify_operator b) \<le> 3 \<and>
    (2 \<le> match_length (classify_operator b) \<longrightarrow> second_byte b \<noteq> NUL) \<and>
    (3 \<le> match_length (classify_operator b) \<longrightarrow> third_byte b \<noteq> NUL)"
  using assms by (simp add: operator_defs split: if_splits)

lemma scans_operator:
  assumes "lexer_offset lx < lexer_length lx" "scan_operator_or_punctuation lx flags = Some r"
  shows "scans_here flags lx r"
proof -
  let ?b = "\<lparr>first_byte = peek_at lx 0, second_byte = peek_at lx 1, third_byte = peek_at lx 2\<rparr>"
  let ?m = "classify_operator ?b"
  have fits: "0 < match_length ?m \<and> lexer_offset lx + match_length ?m \<le> lexer_length lx" if "match_kind ?m \<noteq> MYLITE_SQL_OPERATOR_NONE"
    using operator_length [OF that] assms(1) peek_bound [of lx 1] peek_bound [of lx 2] by (cases "match_length ?m") fastforce+
  have "token_of start lx' ((set_token lx' MYLITE_SQL_TOKEN_OPERATOR start)\<lparr>token_operator := k\<rparr>)"
    if "k \<noteq> MYLITE_SQL_OPERATOR_NONE" for start lx' k
    using that by (simp add: token_of_def set_token_def)
  then show ?thesis
    using assms fits
    by (auto simp: scan_operator_or_punctuation_def Let_def split: if_splits intro!: scans_here_move token_rules)
qed

lemma scans_token:
  assumes "lexer_ok lx" "lexer_offset lx < lexer_length lx"
  shows "scans_here flags lx (scan_token lx flags)"
  unfolding scan_token_def Let_def
  using assms by (auto split: option.split intro: scans_operator intro!: scanner_rules scans_here_one token_rules)

section \<open>The calls\<close>

lemma whitespace_skipped:
  assumes "lexer_ok lx" "consume_whitespace lx = (skipped, lx')"
  shows "scanned lx lx' \<and> (skipped \<longleftrightarrow> lexer_offset lx < lexer_offset lx') \<and>
    (\<forall>i. lexer_offset lx \<le> i \<and> i < lexer_offset lx' \<longrightarrow> is_space (input_at lx i)) \<and>
    (lexer_offset lx' < lexer_length lx \<longrightarrow> \<not> is_space (input_at lx (lexer_offset lx')))"
proof (cases "lexer_input lx = None \<or> lexer_offset lx \<ge> lexer_length lx")
  case True
  with assms show ?thesis by (auto simp: consume_whitespace_def scanned_def)
next
  case False
  with assms skip_while_bounds [of "lexer_offset lx" lx is_space] skip_while_all [of "lexer_offset lx" _ is_space lx]
    skip_while_stop [of is_space lx "lexer_offset lx"]
  show ?thesis by (auto simp: consume_whitespace_def Let_def scanned_def split: if_splits)
qed

lemma next_outcome:
  assumes "lexer_ok lx" "mylite_sql_lexer_next (Some lx) (Some out) = (rc, lexer, token)"
  shows "\<exists>lx' t. rc = 0 \<and> lexer = Some lx' \<and> token = Some t \<and> lexer_ok lx' \<and> scanned lx lx' \<and>
    lexer_offset lx \<le> token_offset t \<and> token_offset t + token_length t = lexer_offset lx' \<and>
    (\<forall>i. lexer_offset lx \<le> i \<and> i < token_offset t \<longrightarrow> is_space (input_at lx i)) \<and>
    (token_offset t < lexer_length lx \<longrightarrow> \<not> is_space (input_at lx (token_offset t))) \<and>
    token_flags t = (if lexer_offset lx < token_offset t then MYLITE_SQL_TOKEN_HAS_LEADING_SPACE else 0) \<and>
    (token_kind t = MYLITE_SQL_TOKEN_EOF \<longleftrightarrow> token_offset t = lexer_length lx) \<and>
    (token_kind t \<noteq> MYLITE_SQL_TOKEN_EOF \<longrightarrow> 0 < token_length t) \<and>
    (token_kind t = MYLITE_SQL_TOKEN_ERROR \<longleftrightarrow> token_error t \<noteq> MYLITE_SQL_LEXER_ERROR_NONE)"
proof -
  obtain lx' t where r: "lexer_next lx = (lx', t)" by (rule prod.exhaust)
  obtain skipped lw where w: "consume_whitespace lx = (skipped, lw)" by (rule prod.exhaust)
  note ws = whitespace_skipped [OF assms(1) w]
  then have lw: "lexer_ok lw" "lexer_length lw = lexer_length lx"
    using scanned_ok [OF assms(1)] by (auto simp: scanned_def)
  let ?flags = "if skipped then 1 else 0 :: u32"
  have result: "rc = 0" "lexer = Some lx'" "token = Some t" using assms(2) r by (simp_all add: mylite_sql_lexer_next_def)
  show ?thesis
  proof (cases "lexer_offset lw \<ge> lexer_length lw")
    case True
    with r w have "lx' = lw" "t = set_token lw MYLITE_SQL_TOKEN_EOF (make_token_start lw ?flags)"
      by (auto simp: lexer_next_def)
    with True ws lw result lexer_ok_offset [OF lw(1)] show ?thesis
      by (auto simp: set_token_def make_token_start_def scanned_def)
  next
    case False
    with r w have "scan_token lw ?flags = (lx', t)" by (simp add: lexer_next_def Let_def)
    with scans_token [OF lw(1), of ?flags] False have "scans_here ?flags lw (lx', t)" by simp
    then have "scanned lw lx'" "token_of (make_token_start lw ?flags) lx' t" "lexer_offset lw < lexer_offset lx'"
      by (simp_all add: scans_here_def scans_def)
    with False ws lw result scanned_trans [of lx lw lx'] scanned_ok [OF assms(1), of lx'] show ?thesis
      by (simp add: token_of_def make_token_start_def scanned_def)
  qed
qed

text \<open>
  Property C18. Every call of the lexer on a lexer that is within its input succeeds and returns
  the next token: only the offset changes, it never decreases and never passes the end; the bytes
  skipped before the token are exactly the white space there, and the token has the
  leading-space flag exactly when there are any; the token reaches from there to the new offset;
  it is the end token exactly at the end of the input, any other token is at least one byte long;
  and it has an error exactly when it is an error token.
\<close>

theorem lexer_next_outcome:
  assumes "lexer_ok lx" "mylite_sql_lexer_next (Some lx) (Some out) = (rc, lexer, token)"
  shows "\<exists>lx' t. rc = 0 \<and> lexer = Some lx' \<and> token = Some t \<and> lexer_ok lx' \<and> scanned lx lx' \<and>
    lexer_offset lx \<le> token_offset t \<and> token_offset t + token_length t = lexer_offset lx' \<and>
    (\<forall>i. lexer_offset lx \<le> i \<and> i < token_offset t \<longrightarrow> is_space (input_at lx i)) \<and>
    (token_offset t < lexer_length lx \<longrightarrow> \<not> is_space (input_at lx (token_offset t))) \<and>
    token_flags t = (if lexer_offset lx < token_offset t then MYLITE_SQL_TOKEN_HAS_LEADING_SPACE else 0) \<and>
    (token_kind t = MYLITE_SQL_TOKEN_EOF \<longleftrightarrow> token_offset t = lexer_length lx) \<and>
    (token_kind t \<noteq> MYLITE_SQL_TOKEN_EOF \<longrightarrow> 0 < token_length t) \<and>
    (token_kind t = MYLITE_SQL_TOKEN_ERROR \<longleftrightarrow> token_error t \<noteq> MYLITE_SQL_LEXER_ERROR_NONE)"
  by (rule next_outcome [OF assms])

definition example_lexer :: "string \<Rightarrow> sql_lexer" where
  "example_lexer s = mylite_sql_lexer_init (Some s) (length s) 0"

definition example_token :: sql_token where
  "example_token = set_token (example_lexer []) MYLITE_SQL_TOKEN_EOF \<lparr>start_offset = 0, start_flags = 0\<rparr>"

lemma example_lexer_ok: "lexer_ok (example_lexer s)"
  by (simp add: example_lexer_def mylite_sql_lexer_init_def lexer_ok_def)

lemmas example_lexer_defs = example_lexer_def mylite_sql_lexer_init_def input_at_def

theorem lexer_next_outcome_witness:
  "\<exists>lx' t. mylite_sql_lexer_next (Some (example_lexer ''  <= 1'')) (Some example_token) = (0, Some lx', Some t) \<and>
     lexer_ok lx' \<and> token_offset t + token_length t = lexer_offset lx' \<and> token_offset t \<le> 2 \<and> 0 < token_length t"
proof -
  let ?lx = "example_lexer ''  <= 1''"
  obtain rc lexer token where r: "mylite_sql_lexer_next (Some ?lx) (Some example_token) = (rc, lexer, token)"
    by (rule prod_cases3)
  have lx: "\<not> is_space (input_at ?lx 2)" "lexer_length ?lx = 6" "lexer_offset ?lx = 0"
    by (simp_all add: example_lexer_defs is_space_def)
  from lexer_next_outcome [OF example_lexer_ok r] obtain lx' t where t: "rc = 0" "lexer = Some lx'" "token = Some t" "lexer_ok lx'"
    "token_offset t + token_length t = lexer_offset lx'" "\<forall>i. lexer_offset ?lx \<le> i \<and> i < token_offset t \<longrightarrow> is_space (input_at ?lx i)"
    "token_kind t = MYLITE_SQL_TOKEN_EOF \<longleftrightarrow> token_offset t = lexer_length ?lx"
    "token_kind t \<noteq> MYLITE_SQL_TOKEN_EOF \<longrightarrow> 0 < token_length t" by blast
  from t(6) lx(1,3) have "token_offset t \<le> 2" by (metis le0 not_le)
  with r t lx(2) show ?thesis by auto
qed


section \<open>The tokens of an input\<close>

text \<open>
  The tokens up to the first end token, as a client of the lexer collects them, with a bound on
  the number of calls.
\<close>

fun lexer_tokens :: "nat \<Rightarrow> sql_lexer \<Rightarrow> sql_token list option" where
  "lexer_tokens 0 lx = None"
| "lexer_tokens (Suc n) lx =
     (let (lx', t) = lexer_next lx
      in if token_kind t = MYLITE_SQL_TOKEN_EOF then Some [t]
         else map_option (Cons t) (lexer_tokens n lx'))"

lemma next_facts:
  assumes "lexer_ok lx" "lexer_next lx = (lx', t)"
  shows "lexer_ok lx'" "scanned lx lx'" "lexer_offset lx \<le> token_offset t" "token_offset t + token_length t = lexer_offset lx'"
    "\<forall>i. lexer_offset lx \<le> i \<and> i < token_offset t \<longrightarrow> is_space (input_at lx i)"
    "token_kind t = MYLITE_SQL_TOKEN_EOF \<longleftrightarrow> token_offset t = lexer_length lx"
    "token_kind t \<noteq> MYLITE_SQL_TOKEN_EOF \<Longrightarrow> 0 < token_length t"
proof -
  have "mylite_sql_lexer_next (Some lx) (Some t) = (0, Some lx', Some t)" using assms(2) by (simp add: mylite_sql_lexer_next_def)
  from next_outcome [OF assms(1) this]
  show "lexer_ok lx'" "scanned lx lx'" "lexer_offset lx \<le> token_offset t" "token_offset t + token_length t = lexer_offset lx'"
    "\<forall>i. lexer_offset lx \<le> i \<and> i < token_offset t \<longrightarrow> is_space (input_at lx i)"
    "token_kind t = MYLITE_SQL_TOKEN_EOF \<longleftrightarrow> token_offset t = lexer_length lx"
    "token_kind t \<noteq> MYLITE_SQL_TOKEN_EOF \<Longrightarrow> 0 < token_length t" by simp_all
qed


definition token_string :: "string \<Rightarrow> sql_token \<Rightarrow> string" where
  "token_string s t = take (token_length t) (drop (token_offset t) s)"

lemma drop_split: "a \<le> b \<Longrightarrow> drop a s = take (b - a) (drop a s) @ drop b s"
  by (metis append_take_drop_id drop_drop le_add_diff_inverse2)

lemma gap_is_space:
  assumes "\<forall>i. a \<le> i \<and> i < b \<longrightarrow> is_space (s ! i)" "b \<le> length s"
  shows "list_all is_space (take (b - a) (drop a s))"
  using assms by (auto simp: list_all_length)

lemma lexer_tokens_split:
  assumes "lexer_ok lx" "lexer_input lx = Some s" "lexer_length lx = length s" "length s - lexer_offset lx < n"
  shows "\<exists>ts gaps. lexer_tokens n lx = Some ts \<and> ts \<noteq> [] \<and> length ts \<le> length s - lexer_offset lx + 1 \<and>
    token_kind (last ts) = MYLITE_SQL_TOKEN_EOF \<and> list_all (\<lambda>t. token_kind t \<noteq> MYLITE_SQL_TOKEN_EOF \<and> token_string s t \<noteq> []) (butlast ts) \<and>
    length gaps = length ts \<and> list_all (list_all is_space) gaps \<and>
    concat (map2 (\<lambda>g t. g @ token_string s t) gaps ts) = drop (lexer_offset lx) s"
  using assms
proof (induction n arbitrary: lx)
  case (Suc n)
  obtain lx' t where r: "lexer_next lx = (lx', t)" by (rule prod.exhaust)
  note f = next_facts [OF Suc.prems(1) r]
  let ?g = "take (token_offset t - lexer_offset lx) (drop (lexer_offset lx) s)"
  have bound: "lexer_offset lx' \<le> length s" "token_offset t \<le> length s" using f(2,4) Suc.prems(3) by (auto simp: scanned_def)
  have g: "list_all is_space ?g"
    using f(5) Suc.prems(2) bound(2) by (intro gap_is_space) (auto simp: input_at_def)
  have "token_length t = lexer_offset lx' - token_offset t" "token_offset t \<le> lexer_offset lx'" using f(4) by auto
  then have "token_string s t @ drop (lexer_offset lx') s = drop (token_offset t) s"
    unfolding token_string_def by (metis drop_split)
  then have split: "drop (lexer_offset lx) s = ?g @ token_string s t @ drop (lexer_offset lx') s"
    using drop_split [OF f(3), of s] by simp
  show ?case
  proof (cases "token_kind t = MYLITE_SQL_TOKEN_EOF")
    case True
    with f(4,6) bound Suc.prems(3) have "token_string s t = []" "drop (lexer_offset lx') s = []" by (simp_all add: token_string_def)
    with True r g split show ?thesis by (intro exI [of _ "[t]"] exI [of _ "[?g]"]) simp
  next
    case False
    with f(3,4,7) have less: "lexer_offset lx < lexer_offset lx'" by linarith
    have "lexer_input lx' = Some s" "lexer_length lx' = length s" using f(2) Suc.prems(2,3) by (simp_all add: scanned_def)
    moreover have "length s - lexer_offset lx' < n" using less bound(1) Suc.prems(4) by linarith
    ultimately obtain ts gaps where ih: "lexer_tokens n lx' = Some ts" "ts \<noteq> []" "length ts \<le> length s - lexer_offset lx' + 1"
      "token_kind (last ts) = MYLITE_SQL_TOKEN_EOF"
      "list_all (\<lambda>t. token_kind t \<noteq> MYLITE_SQL_TOKEN_EOF \<and> token_string s t \<noteq> []) (butlast ts)"
      "length gaps = length ts" "list_all (list_all is_space) gaps"
      "concat (map2 (\<lambda>g t. g @ token_string s t) gaps ts) = drop (lexer_offset lx') s"
      using Suc.IH [OF f(1)] by blast
    moreover have "token_string s t \<noteq> []" using f(4) f(7) [OF False] bound by (auto simp: token_string_def)
    ultimately show ?thesis
      using False r g split less bound(1) by (intro exI [of _ "t # ts"] exI [of _ "?g # gaps"]) auto
  qed
qed simp

text \<open>
  Property C7. Lexing a whole input ends: at most one call more than the input has bytes returns
  the end token. The tokens before it are not empty, and the tokens with the white space
  between them are exactly the input: no byte is lost, repeated or reordered, whatever the input
  is and whatever modes are set.
\<close>

theorem lexer_tokens_tile_input:
  "\<exists>ts gaps. lexer_tokens (length s + 1) (mylite_sql_lexer_init (Some s) (length s) modes) = Some ts \<and>
     ts \<noteq> [] \<and> length ts \<le> length s + 1 \<and> token_kind (last ts) = MYLITE_SQL_TOKEN_EOF \<and>
     list_all (\<lambda>t. token_kind t \<noteq> MYLITE_SQL_TOKEN_EOF \<and> token_string s t \<noteq> []) (butlast ts) \<and>
     length gaps = length ts \<and> list_all (list_all is_space) gaps \<and>
     concat (map2 (\<lambda>g t. g @ token_string s t) gaps ts) = s"
  using lexer_tokens_split [of "mylite_sql_lexer_init (Some s) (length s) modes" s "length s + 1"]
  by (simp add: mylite_sql_lexer_init_def lexer_ok_def)

section \<open>Operators are matched greedily\<close>

text \<open>The spellings of the operators.\<close>

definition operator_spellings :: "(string \<times> sql_operator_kind) list" where
  "operator_spellings = [
     (''->>'', MYLITE_SQL_OPERATOR_JSON_UNQUOTE_EXTRACT), (''<=>'', MYLITE_SQL_OPERATOR_NULL_SAFE_EQUAL),
     (''->'', MYLITE_SQL_OPERATOR_JSON_EXTRACT), (''<<'', MYLITE_SQL_OPERATOR_LEFT_SHIFT),
     (''<='', MYLITE_SQL_OPERATOR_LESS_EQUAL), (''<>'', MYLITE_SQL_OPERATOR_NOT_EQUAL),
     (''>>'', MYLITE_SQL_OPERATOR_RIGHT_SHIFT), (''>='', MYLITE_SQL_OPERATOR_GREATER_EQUAL),
     (''!='', MYLITE_SQL_OPERATOR_NOT_EQUAL), (''&&'', MYLITE_SQL_OPERATOR_LOGICAL_AND),
     (''||'', MYLITE_SQL_OPERATOR_LOGICAL_OR), ('':='', MYLITE_SQL_OPERATOR_ASSIGN),
     (''='', MYLITE_SQL_OPERATOR_EQUAL), (''<'', MYLITE_SQL_OPERATOR_LESS), (''>'', MYLITE_SQL_OPERATOR_GREATER),
     (''+'', MYLITE_SQL_OPERATOR_PLUS), (''-'', MYLITE_SQL_OPERATOR_MINUS), (''*'', MYLITE_SQL_OPERATOR_STAR),
     (''/'', MYLITE_SQL_OPERATOR_SLASH), (''%'', MYLITE_SQL_OPERATOR_PERCENT), (''!'', MYLITE_SQL_OPERATOR_NOT),
     (''~'', MYLITE_SQL_OPERATOR_BITWISE_NOT), (''^'', MYLITE_SQL_OPERATOR_BITWISE_XOR),
     (''&'', MYLITE_SQL_OPERATOR_BITWISE_AND), (''|'', MYLITE_SQL_OPERATOR_BITWISE_OR)]"

definition longest_operator :: "string \<Rightarrow> operator_match" where
  "longest_operator s =
     (case find (\<lambda>(w, k). take (length w) s = w) operator_spellings of
        None \<Rightarrow> \<lparr>match_kind = MYLITE_SQL_OPERATOR_NONE, match_length = 0\<rparr>
      | Some (w, k) \<Rightarrow> \<lparr>match_kind = k, match_length = length w\<rparr>)"

text \<open>
  Property C38. Operators are matched greedily: whatever three bytes come next, the nested case
  distinctions of the lexer recognise the longest operator spelled by their prefix, with its
  length, and none exactly when no operator is a prefix. The table of spellings lists longer
  operators first.
\<close>

theorem classify_operator_longest:
  "classify_operator \<lparr>first_byte = a, second_byte = b, third_byte = c\<rparr> = longest_operator [a, b, c] \<and>
   sorted_wrt (\<lambda>u v. length u \<ge> length v) (map fst operator_spellings)"
  by (simp add: longest_operator_def operator_spellings_def operator_defs)

end
