(* ===== verification/Identifier_Quoting.thy ===== *)
theory Identifier_Quoting
  imports Dynamic_String Lexer_Tokens
begin

text \<open>
  Identifiers between the components: the string builder quotes an identifier, the lexer finds
  the quoted identifier again as one token, and \<^verbatim>\<open>runtime/mylite_execution_text_internal.c\<close>
  copies the text of the token into a buffer of a given size, undoing the quoting.
\<close>

section \<open>Copying identifiers\<close>

text \<open>
  The destination is the list of bytes written so far; the copy fails with \<open>None\<close> when the next
  byte and the terminating NUL would not fit. The loop runs over the source from index one to the
  byte before the last.
\<close>

function copy_quoted_loop :: "string \<Rightarrow> nat \<Rightarrow> char \<Rightarrow> nat \<Rightarrow> string \<Rightarrow> string option" where
  "copy_quoted_loop source destination_size quote i destination =
     (if i + 1 < length source then
        if length destination + 1 \<ge> destination_size then None
        else if source ! i = quote \<and> source ! (i + 1) = quote
        then copy_quoted_loop source destination_size quote (i + 2) (destination @ [quote])
        else copy_quoted_loop source destination_size quote (i + 1) (destination @ [source ! i])
      else Some destination)"
  by pat_completeness auto
termination
  by (relation "measure (\<lambda>(source, n, q, i, d). length source - i)") auto

declare copy_quoted_loop.simps [simp del]

text \<open>The result is the status and the text before the NUL in the destination when it was written.\<close>

definition mylite_execution_copy_quoted_identifier_text :: "string \<Rightarrow> nat \<Rightarrow> int \<times> string option" where
  "mylite_execution_copy_quoted_identifier_text source destination_size =
     (let quote = (if 0 < length source then source ! 0 else CHR 0x00)
      in if (quote \<noteq> CHR 0x60 \<and> quote \<noteq> CHR 0x22) \<or> length source < 2 \<or> source ! (length source - 1) \<noteq> quote
         then (MYLITE_ERROR, None)
         else
           case copy_quoted_loop source destination_size quote 1 [] of
             None \<Rightarrow> (MYLITE_ERROR, None)
           | Some d \<Rightarrow> (if d = [] then MYLITE_ERROR else MYLITE_OK, Some d))"

definition mylite_execution_copy_unquoted_identifier_text :: "string \<Rightarrow> nat \<Rightarrow> int \<times> string option" where
  "mylite_execution_copy_unquoted_identifier_text source destination_size =
     (if source = [] \<or> length source \<ge> destination_size then (MYLITE_ERROR, None)
      else (MYLITE_OK, Some source))"

section \<open>Reading quoted text\<close>

lemma copy_quoted_body:
  assumes "source = pre @ quoted_body q t @ [q]" "length pre = i" "length d + length t < n"
  shows "copy_quoted_loop source n q i d = Some (d @ t)"
  using assms
proof (induction t arbitrary: pre i d)
  case Nil
  then show ?case by (subst copy_quoted_loop.simps) simp
next
  case (Cons c t)
  show ?case
  proof (cases "c = q")
    case True
    with Cons.prems have "copy_quoted_loop source n q (i + 2) (d @ [q]) = Some ((d @ [q]) @ t)"
      by (intro Cons.IH [of "pre @ [q, q]"]) auto
    with True Cons.prems show ?thesis by (subst copy_quoted_loop.simps) (simp add: nth_append)
  next
    case False
    with Cons.prems have "copy_quoted_loop source n q (i + 1) (d @ [c]) = Some ((d @ [c]) @ t)"
      by (intro Cons.IH [of "pre @ [c]"]) auto
    with False Cons.prems show ?thesis by (subst copy_quoted_loop.simps) (simp add: nth_append)
  qed
qed

text \<open>The lexer at the start of a quoted body that is not followed by another quote.\<close>

lemma quoted_identifier_loop_body:
  assumes "lexer_input lx = Some (pre @ quoted_body q t @ q # rest)" "length pre = lexer_offset lx"
    and "lexer_length lx = length (pre @ quoted_body q t @ q # rest)" "rest = [] \<or> hd rest \<noteq> q" "q \<noteq> CHR 0x00"
  shows "quoted_identifier_loop start q lx =
    (let lx' = lx\<lparr>lexer_offset := lexer_offset lx + length (quoted_body q t) + 1\<rparr>
     in (lx', set_token lx' MYLITE_SQL_TOKEN_QUOTED_IDENTIFIER start))"
  using assms
proof (induction t arbitrary: pre lx)
  case Nil
  then show ?case
    by (subst quoted_identifier_loop.simps) (auto simp: peek_at_def input_at_def advance_one_def nth_append hd_conv_nth Let_def)
next
  case (Cons c t)
  show ?case
  proof (cases "c = q")
    case True
    with Cons.prems Cons.IH [of "lx\<lparr>lexer_offset := lexer_offset lx + 2\<rparr>" "pre @ [q, q]"] show ?thesis
      by (subst quoted_identifier_loop.simps) (simp add: peek_at_def input_at_def advance_one_def nth_append Let_def)
  next
    case False
    with Cons.prems Cons.IH [of "lx\<lparr>lexer_offset := lexer_offset lx + 1\<rparr>" "pre @ [c]"] show ?thesis
      by (subst quoted_identifier_loop.simps) (simp add: peek_at_def input_at_def advance_one_def nth_append Let_def)
  qed
qed


lemma copy_quoted_identifier:
  assumes "q = CHR 0x60 \<or> q = CHR 0x22" "t \<noteq> []" "length t < n"
  shows "mylite_execution_copy_quoted_identifier_text (quoted_identifier q t) n = (MYLITE_OK, Some t)"
proof -
  have "copy_quoted_loop (quoted_identifier q t) n q 1 [] = Some t"
    using copy_quoted_body [of "quoted_identifier q t" "[q]" q t 1 "[]" n] assms by (simp add: quoted_identifier_def)
  moreover have "quoted_identifier q t ! (length (quoted_identifier q t) - 1) = q" "quoted_identifier q t ! 0 = q"
    "2 \<le> length (quoted_identifier q t)"
    by (simp_all add: quoted_identifier_def nth_append)
  ultimately show ?thesis
    using assms by (auto simp: mylite_execution_copy_quoted_identifier_text_def Let_def)
qed

lemma next_at_quoted_identifier:
  assumes "lexer_input lx = Some (pre @ quoted_identifier q t @ rest)" "lexer_offset lx = length pre"
    and "lexer_length lx = length (pre @ quoted_identifier q t @ rest)" "rest = [] \<or> hd rest \<noteq> q"
    and "q = CHR 0x60 \<or> q = CHR 0x22 \<and> lexer_modes lx AND MYLITE_SQL_MODE_ANSI_QUOTES \<noteq> 0"
  shows "lexer_next lx =
    (let lx' = lx\<lparr>lexer_offset := length pre + length (quoted_identifier q t)\<rparr>
     in (lx', set_token lx' MYLITE_SQL_TOKEN_QUOTED_IDENTIFIER \<lparr>start_offset = length pre, start_flags = 0\<rparr>))"
proof -
  have here: "input_at lx (lexer_offset lx) = q" "lexer_offset lx < lexer_length lx"
    using assms(1-3) by (simp_all add: input_at_def quoted_identifier_def nth_append)
  then have peek: "peek_at lx 0 = q" using assms(1) by (simp add: peek_at_def)
  have "skip_while is_space lx (lexer_offset lx) = lexer_offset lx"
    using here assms(5) by (subst skip_while.simps) (auto simp: is_space_def)
  then have "consume_whitespace lx = (False, lx)" by (simp add: consume_whitespace_def)
  moreover have "\<not> starts_comment lx" using peek assms(5) by (auto simp: starts_comment_def Let_def)
  moreover have "quoted_identifier_loop \<lparr>start_offset = length pre, start_flags = 0\<rparr> q (advance_one lx) =
    (let lx' = lx\<lparr>lexer_offset := length pre + length (quoted_identifier q t)\<rparr>
     in (lx', set_token lx' MYLITE_SQL_TOKEN_QUOTED_IDENTIFIER \<lparr>start_offset = length pre, start_flags = 0\<rparr>))"
    using assms here quoted_identifier_loop_body [of "advance_one lx" "pre @ [q]" q t rest]
    by (auto simp: quoted_identifier_def advance_one_def)
  ultimately show ?thesis
    using here peek assms(2,5)
    by (auto simp: lexer_next_def scan_token_def scan_quoted_identifier_def make_token_start_def Let_def)
qed

text \<open>
  Property C8. Quoting an identifier, lexing the text and copying the token returns the
  identifier: when an identifier has been appended in quotes to a string, with backquotes, or
  with double quotes under ANSI_QUOTES, the next token at that place is a quoted identifier that
  ends exactly where the quoted text ends, whatever follows it other than another quote, and
  copying the text of the token gives the identifier back unless it is empty or does not fit.
\<close>

theorem quoted_identifier_roundtrip:
  assumes "string_ok s" "append_quoted_identifier realloc (Some s) (Some t) q = (MYLITE_OK, Some s')"
    and "q = CHR 0x60 \<or> q = CHR 0x22 \<and> modes AND MYLITE_SQL_MODE_ANSI_QUOTES \<noteq> 0" "rest = [] \<or> hd rest \<noteq> q"
    and "sql = content s' @ rest" "c_string t \<noteq> []" "length (c_string t) < n"
    and "lexer_next \<lparr>lexer_input = Some sql, lexer_length = length sql, lexer_offset = length (content s), lexer_modes = modes\<rparr> = (lx', token)"
  shows "token_kind token = MYLITE_SQL_TOKEN_QUOTED_IDENTIFIER \<and> token_offset token = length (content s) \<and>
    lexer_offset lx' = length (content s') \<and> token_string sql token = quoted_identifier q (c_string t) \<and>
    mylite_execution_copy_quoted_identifier_text (token_string sql token) n = (MYLITE_OK, Some (c_string t))"
proof -
  have "content s' = content s @ quoted_identifier q (c_string t)"
  proof (cases "q = CHR 0x60")
    case True
    with assms(2) string_step_outcome [OF assms(1), of "AppendMysqlQuoted (Some t)" realloc MYLITE_OK "Some s'"] show ?thesis
      by (simp add: mylite_dynamic_string_append_mysql_quoted_identifier_def)
  next
    case False
    with assms(2,3) string_step_outcome [OF assms(1), of "AppendQuoted (Some t)" realloc MYLITE_OK "Some s'"] show ?thesis
      by (simp add: mylite_dynamic_string_append_quoted_identifier_def)
  qed
  moreover from this have "token_string sql token = quoted_identifier q (c_string t)" "token_kind token = MYLITE_SQL_TOKEN_QUOTED_IDENTIFIER"
    "token_offset token = length (content s)" "lexer_offset lx' = length (content s')"
    using assms(3-5,8) next_at_quoted_identifier [of "\<lparr>lexer_input = Some sql, lexer_length = length sql,
        lexer_offset = length (content s), lexer_modes = modes\<rparr>" "content s" q "c_string t" rest]
    by (auto simp: Let_def set_token_def token_string_def)
  ultimately show ?thesis using copy_quoted_identifier [of q "c_string t" n] assms(3,6,7) by auto
qed

definition example_string :: dynamic_string where
  "example_string = \<lparr>ds_text = Some (''USE '' @ replicate 12 (CHR 0x00)), ds_length = 4, ds_capacity = 16\<rparr>"

theorem quoted_identifier_roundtrip_witness:
  "\<exists>s' lx' token. append_quoted_identifier (\<lambda>n. None) (Some example_string) (Some ''a`b'') (CHR 0x60) = (MYLITE_OK, Some s') \<and>
     lexer_next \<lparr>lexer_input = Some (content s' @ '';''), lexer_length = length (content s' @ '';''), lexer_offset = 4, lexer_modes = 0\<rparr> =
       (lx', token) \<and>
     mylite_execution_copy_quoted_identifier_text (token_string (content s' @ '';'') token) 65 = (MYLITE_OK, Some ''a`b'')"
proof -
  have s: "string_ok example_string" "length (content example_string) = 4"
    by (simp_all add: example_string_def string_ok_def content_def limit_simps nth_append)
  obtain s' where s': "append_quoted_identifier (\<lambda>n. None) (Some example_string) (Some ''a`b'') (CHR 0x60) = (MYLITE_OK, Some s')"
    by (simp add: append_quoted_identifier_def c_string_def limit_simps example_string_def mylite_dynamic_string_reserve_def)
  obtain lx' token where l: "lexer_next \<lparr>lexer_input = Some (content s' @ '';''), lexer_length = length (content s' @ '';''),
      lexer_offset = length (content example_string), lexer_modes = 0\<rparr> = (lx', token)" by (rule prod.exhaust)
  have c: "c_string ''a`b'' = ''a`b''" by (simp add: c_string_def)
  have "mylite_execution_copy_quoted_identifier_text (token_string (content s' @ '';'') token) 65 = (MYLITE_OK, Some (c_string ''a`b''))"
    by (rule quoted_identifier_roundtrip [OF s(1) s' _ _ refl _ _ l, THEN conjunct2, THEN conjunct2, THEN conjunct2, THEN conjunct2])
      (simp_all add: c)
  with c s' l s(2) show ?thesis by auto
qed

end
