(* ===== verification/Statement_Digest.thy ===== *)
theory Statement_Digest
  imports Identifier_Quoting Diagnostics
begin

text \<open>
  The normalised text of a statement, \<^verbatim>\<open>runtime/mylite_statement_digest.c\<close>: the lexer and the
  dynamic string put together. The parser, which validates the statement first, is a parameter: a
  function from the text and the modes to a status and the token of the error. A token refers
  to the statement, which the functions get as a further argument; \<open>token_bytes\<close> is the memory
  its pointer refers to. The answers to the reallocations are a list; when it is used up every
  further one succeeds. \<^verbatim>\<open>toupper\<close> is that of the C locale.
\<close>

section \<open>Memory\<close>

type_synonym memory = "reallocation list"

fun next_reallocation :: "memory \<Rightarrow> reallocation \<times> memory" where
  "next_reallocation [] = (\<lambda>n. Some (\<lambda>i. CHR 0x00), [])"
| "next_reallocation (r # rs) = (r, rs)"

type_synonym digest_output = "dynamic_string option"

definition output_char :: "memory \<Rightarrow> digest_output \<Rightarrow> char \<Rightarrow> int \<times> digest_output \<times> memory" where
  "output_char mem out c =
     (let (r, mem) = next_reallocation mem; (rc, out) = mylite_dynamic_string_append_char r out c in (rc, out, mem))"

definition output_bytes :: "memory \<Rightarrow> digest_output \<Rightarrow> string option \<Rightarrow> nat \<Rightarrow> int \<times> digest_output \<times> memory" where
  "output_bytes mem out t n =
     (let (r, mem) = next_reallocation mem; (rc, out) = mylite_dynamic_string_append_bytes r out t n in (rc, out, mem))"

definition output_text :: "memory \<Rightarrow> digest_output \<Rightarrow> string option \<Rightarrow> int \<times> digest_output \<times> memory" where
  "output_text mem out t =
     (let (r, mem) = next_reallocation mem; (rc, out) = mylite_dynamic_string_append r out t in (rc, out, mem))"

section \<open>Tokens\<close>

definition token_bytes :: "string \<Rightarrow> sql_token \<Rightarrow> string option" where
  "token_bytes sql t = map_option (\<lambda>i. take (token_length t) (drop i sql)) (token_text t)"

definition comment_kind :: "sql_token_kind \<Rightarrow> bool" where
  "comment_kind k \<longleftrightarrow> k = MYLITE_SQL_TOKEN_COMMENT \<or> k = MYLITE_SQL_TOKEN_VERSION_COMMENT \<or> k = MYLITE_SQL_TOKEN_HINT_COMMENT"

text \<open>The result \<open>None\<close> would be a loop that does not end.\<close>

partial_function (option) next_significant_token :: "sql_lexer \<Rightarrow> (sql_lexer \<times> sql_token) option" where
  "next_significant_token lexer =
     (let (lexer, token) = lexer_next lexer
      in if comment_kind (token_kind token) then next_significant_token lexer else Some (lexer, token))"

definition token_is_ascii_keyword :: "string \<Rightarrow> sql_token \<Rightarrow> string \<Rightarrow> bool" where
  "token_is_ascii_keyword sql token keyword \<longleftrightarrow>
     token_kind token = MYLITE_SQL_TOKEN_KEYWORD \<and> token_length token = length keyword \<and>
     map ascii_upper (the (token_bytes sql token)) = map ascii_upper keyword"

definition token_is_punctuation :: "string \<Rightarrow> sql_token \<Rightarrow> char \<Rightarrow> bool" where
  "token_is_punctuation sql token punctuation \<longleftrightarrow>
     token_kind token = MYLITE_SQL_TOKEN_PUNCTUATION \<and> token_length token = 1 \<and> token_bytes sql token = Some [punctuation]"

section \<open>Writing tokens\<close>

definition append_space :: "memory \<Rightarrow> digest_output \<Rightarrow> int \<times> digest_output \<times> memory" where
  "append_space mem out =
     (if ds_length (the out) \<noteq> 0 then output_char mem out (CHR '' '') else (MYLITE_OK, out, mem))"

definition append_output_token_bytes :: "memory \<Rightarrow> digest_output \<Rightarrow> string option \<Rightarrow> nat \<Rightarrow> int \<times> digest_output \<times> memory" where
  "append_output_token_bytes mem out t n =
     (if out = None \<or> (t = None \<and> n \<noteq> 0) then (MYLITE_MISUSE, out, mem)
      else let (rc, out, mem) = append_space mem out
           in if rc = MYLITE_OK then output_bytes mem out t n else (rc, out, mem))"

definition append_output_token :: "memory \<Rightarrow> digest_output \<Rightarrow> string \<Rightarrow> int \<times> digest_output \<times> memory" where
  "append_output_token mem out t = append_output_token_bytes mem out (Some t) (length t)"

fun output_chars :: "memory \<Rightarrow> digest_output \<Rightarrow> string \<Rightarrow> int \<times> digest_output \<times> memory" where
  "output_chars mem out [] = (MYLITE_OK, out, mem)"
| "output_chars mem out (c # cs) =
     (let (rc, out, mem) = output_char mem out c
      in if rc = MYLITE_OK then output_chars mem out cs else (rc, out, mem))"

definition append_uppercase_token :: "memory \<Rightarrow> digest_output \<Rightarrow> string option \<Rightarrow> nat \<Rightarrow> int \<times> digest_output \<times> memory" where
  "append_uppercase_token mem out t n =
     (if out = None \<or> (t = None \<and> n \<noteq> 0) then (MYLITE_MISUSE, out, mem)
      else let (rc, out, mem) = append_space mem out
           in if rc = MYLITE_OK then output_chars mem out (map ascii_upper (take n (case t of None \<Rightarrow> [] | Some b \<Rightarrow> b)))
              else (rc, out, mem))"

text \<open>The loop over the bytes of an identifier between its quotes.\<close>

fun identifier_loop :: "memory \<Rightarrow> digest_output \<Rightarrow> char \<Rightarrow> string \<Rightarrow> int \<times> digest_output \<times> memory" where
  "identifier_loop mem out quote [] = (MYLITE_OK, out, mem)"
| "identifier_loop mem out quote [c] =
     (if c = CHR 0x60 then output_text mem out (Some [CHR 0x60, CHR 0x60]) else output_char mem out c)"
| "identifier_loop mem out quote (c # d # cs) =
     (let doubled = (quote \<noteq> CHR 0x00 \<and> c = quote \<and> d = quote);
          (rc, out, mem) =
            (if c = CHR 0x60 then output_text mem out (Some [CHR 0x60, CHR 0x60]) else output_char mem out c)
      in if rc \<noteq> MYLITE_OK then (rc, out, mem)
         else if doubled then identifier_loop mem out quote cs else identifier_loop mem out quote (d # cs))"

definition append_quoted_identifier_token :: "memory \<Rightarrow> digest_output \<Rightarrow> string \<Rightarrow> sql_token \<Rightarrow> int \<times> digest_output \<times> memory" where
  "append_quoted_identifier_token mem out sql token =
     (case token_bytes sql token of
        None \<Rightarrow> (MYLITE_MISUSE, out, mem)
      | Some bytes \<Rightarrow>
          if out = None then (MYLITE_MISUSE, out, mem)
          else
            let quoted = (token_kind token = MYLITE_SQL_TOKEN_QUOTED_IDENTIFIER \<and> token_length token \<ge> 2);
                quote = (if quoted then bytes ! 0 else CHR 0x00);
                body = (if quoted then butlast (tl bytes) else bytes);
                (rc, out, mem) = append_space mem out
            in if rc \<noteq> MYLITE_OK then (rc, out, mem)
               else
                 let (rc, out, mem) = output_char mem out (CHR 0x60)
                 in if rc \<noteq> MYLITE_OK then (rc, out, mem)
                    else
                      let (rc, out, mem) = identifier_loop mem out quote body
                      in if rc \<noteq> MYLITE_OK then (rc, out, mem) else output_char mem out (CHR 0x60))"

fun operator_text :: "sql_operator_kind \<Rightarrow> string option" where
  "operator_text MYLITE_SQL_OPERATOR_JSON_UNQUOTE_EXTRACT = Some ''->>''"
| "operator_text MYLITE_SQL_OPERATOR_JSON_EXTRACT = Some ''->''"
| "operator_text MYLITE_SQL_OPERATOR_NULL_SAFE_EQUAL = Some ''<=>''"
| "operator_text MYLITE_SQL_OPERATOR_LEFT_SHIFT = Some ''<<''"
| "operator_text MYLITE_SQL_OPERATOR_RIGHT_SHIFT = Some ''>>''"
| "operator_text MYLITE_SQL_OPERATOR_LESS_EQUAL = Some ''<=''"
| "operator_text MYLITE_SQL_OPERATOR_GREATER_EQUAL = Some ''>=''"
| "operator_text MYLITE_SQL_OPERATOR_NOT_EQUAL = Some ''!=''"
| "operator_text MYLITE_SQL_OPERATOR_LOGICAL_AND = Some ''AND''"
| "operator_text MYLITE_SQL_OPERATOR_LOGICAL_OR = Some ''OR''"
| "operator_text MYLITE_SQL_OPERATOR_ASSIGN = Some '':=''"
| "operator_text MYLITE_SQL_OPERATOR_EQUAL = Some ''=''"
| "operator_text MYLITE_SQL_OPERATOR_LESS = Some ''<''"
| "operator_text MYLITE_SQL_OPERATOR_GREATER = Some ''>''"
| "operator_text MYLITE_SQL_OPERATOR_PLUS = Some ''+''"
| "operator_text MYLITE_SQL_OPERATOR_MINUS = Some ''-''"
| "operator_text MYLITE_SQL_OPERATOR_STAR = Some ''*''"
| "operator_text MYLITE_SQL_OPERATOR_SLASH = Some ''/''"
| "operator_text MYLITE_SQL_OPERATOR_PERCENT = Some ''%''"
| "operator_text MYLITE_SQL_OPERATOR_NOT = Some ''!''"
| "operator_text MYLITE_SQL_OPERATOR_BITWISE_NOT = Some ''~''"
| "operator_text MYLITE_SQL_OPERATOR_BITWISE_XOR = Some ''^''"
| "operator_text MYLITE_SQL_OPERATOR_BITWISE_AND = Some ''&''"
| "operator_text MYLITE_SQL_OPERATOR_BITWISE_OR = Some ''|''"
| "operator_text MYLITE_SQL_OPERATOR_NONE = None"

definition append_operator_token :: "memory \<Rightarrow> digest_output \<Rightarrow> string \<Rightarrow> sql_token \<Rightarrow> int \<times> digest_output \<times> memory" where
  "append_operator_token mem out sql token =
     (case operator_text (token_operator token) of
        Some t \<Rightarrow> append_output_token mem out t
      | None \<Rightarrow> append_output_token_bytes mem out (token_bytes sql token) (token_length token))"

definition append_normalized_token :: "memory \<Rightarrow> digest_output \<Rightarrow> string \<Rightarrow> sql_token \<Rightarrow> int \<times> digest_output \<times> memory" where
  "append_normalized_token mem out sql token =
     (if out = None then (MYLITE_MISUSE, out, mem)
      else
        case token_kind token of
          MYLITE_SQL_TOKEN_IDENTIFIER \<Rightarrow> append_quoted_identifier_token mem out sql token
        | MYLITE_SQL_TOKEN_QUOTED_IDENTIFIER \<Rightarrow> append_quoted_identifier_token mem out sql token
        | MYLITE_SQL_TOKEN_KEYWORD \<Rightarrow>
            if token_is_ascii_keyword sql token ''NULL'' then append_output_token mem out ''?''
            else if token_is_ascii_keyword sql token ''INT'' then append_output_token mem out ''INTEGER''
            else if token_is_ascii_keyword sql token ''VARCHAR'' then append_output_token mem out ''VARCHARACTER''
            else append_uppercase_token mem out (token_bytes sql token) (token_length token)
        | MYLITE_SQL_TOKEN_STRING \<Rightarrow> append_output_token mem out ''?''
        | MYLITE_SQL_TOKEN_NATIONAL_STRING \<Rightarrow> append_output_token mem out ''?''
        | MYLITE_SQL_TOKEN_HEX_LITERAL \<Rightarrow> append_output_token mem out ''?''
        | MYLITE_SQL_TOKEN_BIT_LITERAL \<Rightarrow> append_output_token mem out ''?''
        | MYLITE_SQL_TOKEN_INTEGER \<Rightarrow> append_output_token mem out ''?''
        | MYLITE_SQL_TOKEN_DECIMAL \<Rightarrow> append_output_token mem out ''?''
        | MYLITE_SQL_TOKEN_FLOAT \<Rightarrow> append_output_token mem out ''?''
        | MYLITE_SQL_TOKEN_OPERATOR \<Rightarrow> append_operator_token mem out sql token
        | MYLITE_SQL_TOKEN_PUNCTUATION \<Rightarrow> append_output_token_bytes mem out (token_bytes sql token) (token_length token)
        | MYLITE_SQL_TOKEN_USER_VARIABLE \<Rightarrow> append_output_token_bytes mem out (token_bytes sql token) (token_length token)
        | MYLITE_SQL_TOKEN_SYSTEM_VARIABLE \<Rightarrow> append_output_token_bytes mem out (token_bytes sql token) (token_length token)
        | MYLITE_SQL_TOKEN_TEMPORAL_LITERAL_INTRODUCER \<Rightarrow> append_output_token_bytes mem out (token_bytes sql token) (token_length token)
        | MYLITE_SQL_TOKEN_CHARSET_INTRODUCER \<Rightarrow> (MYLITE_OK, out, mem)
        | MYLITE_SQL_TOKEN_COMMENT \<Rightarrow> (MYLITE_OK, out, mem)
        | MYLITE_SQL_TOKEN_VERSION_COMMENT \<Rightarrow> (MYLITE_OK, out, mem)
        | MYLITE_SQL_TOKEN_HINT_COMMENT \<Rightarrow> (MYLITE_OK, out, mem)
        | MYLITE_SQL_TOKEN_EOF \<Rightarrow> (MYLITE_OK, out, mem)
        | MYLITE_SQL_TOKEN_ERROR \<Rightarrow> (MYLITE_MISUSE, out, mem)
        | MYLITE_SQL_TOKEN_PARAMETER \<Rightarrow> (MYLITE_MISUSE, out, mem))"


section \<open>Lists after IN\<close>

partial_function (option) in_list_loop :: "string \<Rightarrow> sql_lexer \<Rightarrow> nat \<Rightarrow> (int \<times> sql_lexer) option" where
  "in_list_loop sql lexer depth =
     (if depth = 0 then Some (MYLITE_OK, lexer)
      else
        case next_significant_token lexer of
          None \<Rightarrow> None
        | Some (lexer, token) \<Rightarrow>
            if token_kind token = MYLITE_SQL_TOKEN_EOF then Some (MYLITE_MISUSE, lexer)
            else in_list_loop sql lexer
              (if token_is_punctuation sql token (CHR ''('') then depth + 1
               else if token_is_punctuation sql token (CHR '')'') then depth - 1 else depth))"

definition append_in_list_placeholder ::
    "memory \<Rightarrow> digest_output \<Rightarrow> string \<Rightarrow> sql_lexer \<Rightarrow> (int \<times> digest_output \<times> memory \<times> sql_lexer) option" where
  "append_in_list_placeholder mem out sql lexer =
     (if out = None then Some (MYLITE_MISUSE, out, mem, lexer)
      else
        case next_significant_token lexer of
          None \<Rightarrow> None
        | Some (lookahead, token) \<Rightarrow>
            if \<not> token_is_punctuation sql token (CHR ''('') then Some (MYLITE_OK, out, mem, lexer)
            else
              case next_significant_token lookahead of
                None \<Rightarrow> None
              | Some (inner_lookahead, token) \<Rightarrow>
                  if token_is_ascii_keyword sql token ''SELECT'' then Some (MYLITE_OK, out, mem, lexer)
                  else
                    let (rc, out, mem) = append_output_token mem out ''(...)''
                    in if rc \<noteq> MYLITE_OK then Some (rc, out, mem, lookahead)
                       else map_option (\<lambda>(rc, lexer). (rc, out, mem, lexer)) (in_list_loop sql lookahead 1))"

section \<open>Errors and modes\<close>

record digest_connection =
  digest_diagnostics :: "mylite_diagnostics option"
  session_sql_mode :: "u64 option"

abbreviation (input) mysql_error_statement_digest_parse :: int where "mysql_error_statement_digest_parse \<equiv> 3676"
abbreviation (input) digest_error_near_capacity :: nat where "digest_error_near_capacity \<equiv> 64"

definition session_sql_mode_has :: "u64 option \<Rightarrow> u64 \<Rightarrow> bool" where
  "session_sql_mode_has session mode \<longleftrightarrow> (case session of None \<Rightarrow> False | Some m \<Rightarrow> m AND mode \<noteq> 0)"

abbreviation (input) MYLITE_SESSION_SQL_MODE_PIPES_AS_CONCAT :: u64 where "MYLITE_SESSION_SQL_MODE_PIPES_AS_CONCAT \<equiv> 2"
abbreviation (input) MYLITE_SESSION_SQL_MODE_ANSI_QUOTES :: u64 where "MYLITE_SESSION_SQL_MODE_ANSI_QUOTES \<equiv> 4"
abbreviation (input) MYLITE_SESSION_SQL_MODE_IGNORE_SPACE :: u64 where "MYLITE_SESSION_SQL_MODE_IGNORE_SPACE \<equiv> 8"
abbreviation (input) MYLITE_SESSION_SQL_MODE_NO_BACKSLASH_ESCAPES :: u64 where "MYLITE_SESSION_SQL_MODE_NO_BACKSLASH_ESCAPES \<equiv> 512"
abbreviation (input) MYLITE_SQL_MODE_IGNORE_SPACE :: u32 where "MYLITE_SQL_MODE_IGNORE_SPACE \<equiv> 4"
abbreviation (input) MYLITE_SQL_MODE_PIPES_AS_CONCAT :: u32 where "MYLITE_SQL_MODE_PIPES_AS_CONCAT \<equiv> 8"

definition lexer_modes_for_database_session :: "digest_connection \<Rightarrow> u32" where
  "lexer_modes_for_database_session db =
     (let session = session_sql_mode db; modes = 0;
          modes = (if session_sql_mode_has session MYLITE_SESSION_SQL_MODE_ANSI_QUOTES then modes OR MYLITE_SQL_MODE_ANSI_QUOTES else modes);
          modes = (if session_sql_mode_has session MYLITE_SESSION_SQL_MODE_NO_BACKSLASH_ESCAPES then modes OR MYLITE_SQL_MODE_NO_BACKSLASH_ESCAPES else modes);
          modes = (if session_sql_mode_has session MYLITE_SESSION_SQL_MODE_IGNORE_SPACE then modes OR MYLITE_SQL_MODE_IGNORE_SPACE else modes);
          modes = (if session_sql_mode_has session MYLITE_SESSION_SQL_MODE_PIPES_AS_CONCAT then modes OR MYLITE_SQL_MODE_PIPES_AS_CONCAT else modes)
      in modes)"

definition copy_error_near_text :: "string \<Rightarrow> sql_token \<Rightarrow> string" where
  "copy_error_near_text sql token =
     (case token_bytes sql token of
        None \<Rightarrow> []
      | Some b \<Rightarrow>
          if token_length token = 0 then []
          else take (if token_length token \<ge> digest_error_near_capacity then digest_error_near_capacity - 1
            else token_length token) b)"

definition set_statement_digest_parse_error :: "digest_connection \<Rightarrow> string \<Rightarrow> sql_token \<Rightarrow> digest_connection" where
  "set_statement_digest_parse_error db sql token =
     (let near_text = c_string (copy_error_near_text sql token);
          message = ''Could not parse argument to digest function: '' @ [CHR 0x22] @
            ''You have an error in your SQL syntax; check the manual that corresponds to your MySQL server version '' @
            ''for the right syntax to use near '' @ [CHR 0x27] @ near_text @ [CHR 0x27] @ '' at line 1'' @ [CHR 0x22] @ ''.'';
          message = (if length message \<ge> MYLITE_DIAGNOSTIC_MESSAGE_CAPACITY
            then ''Could not parse argument to digest function.'' else message)
      in db\<lparr>digest_diagnostics := mylite_diagnostics_set_error (digest_diagnostics db)
            mysql_error_statement_digest_parse (Some ''HY000'') (Some message)\<rparr>)"

section \<open>The digest text\<close>

record digest_flags =
  saw_statement_terminator :: bool
  previous_token_was_is :: bool
  previous_tokens_were_is_not :: bool

definition no_flags :: digest_flags where
  "no_flags = \<lparr>saw_statement_terminator = False, previous_token_was_is = False, previous_tokens_were_is_not = False\<rparr>"

definition update_flags :: "string \<Rightarrow> sql_token \<Rightarrow> digest_flags \<Rightarrow> digest_flags" where
  "update_flags sql token fl =
     \<lparr>saw_statement_terminator = (saw_statement_terminator fl \<or> token_is_punctuation sql token (CHR '';'')),
      previous_token_was_is = token_is_ascii_keyword sql token ''IS'',
      previous_tokens_were_is_not = (previous_token_was_is fl \<and> token_is_ascii_keyword sql token ''NOT'')\<rparr>"

partial_function (option) normalize_loop ::
    "digest_connection \<Rightarrow> memory \<Rightarrow> digest_output \<Rightarrow> string \<Rightarrow> sql_lexer \<Rightarrow> digest_flags \<Rightarrow> (int \<times> digest_output \<times> digest_connection) option" where
  "normalize_loop db mem out sql lexer fl =
     (case next_significant_token lexer of
        None \<Rightarrow> None
      | Some (lexer, token) \<Rightarrow>
          if token_kind token = MYLITE_SQL_TOKEN_EOF then Some (MYLITE_OK, out, db)
          else if saw_statement_terminator fl \<or> token_kind token = MYLITE_SQL_TOKEN_PARAMETER
          then Some (MYLITE_ERROR, out, set_statement_digest_parse_error db sql token)
          else if token_is_ascii_keyword sql token ''IN'' then
            (let (rc, out, mem) = append_output_token mem out ''IN''
             in if rc \<noteq> MYLITE_OK then Some (rc, out, db)
                else
                  case append_in_list_placeholder mem out sql lexer of
                    None \<Rightarrow> None
                  | Some (rc, out, mem, lexer) \<Rightarrow>
                      if rc \<noteq> MYLITE_OK then Some (rc, out, db) else normalize_loop db mem out sql lexer fl)
          else
            (let (rc, out, mem) =
                   (if token_is_ascii_keyword sql token ''NULL'' \<and> (previous_token_was_is fl \<or> previous_tokens_were_is_not fl)
                    then append_output_token mem out ''NULL'' else append_normalized_token mem out sql token)
             in if rc \<noteq> MYLITE_OK then Some (rc, out, db)
                else normalize_loop db mem out sql lexer (update_flags sql token fl)))"

text \<open>
  The result is the status, the text and its size, and the connection; the string that was being
  built is freed when there is no result.
\<close>

definition normalize_statement_digest_sql ::
    "digest_connection \<Rightarrow> memory \<Rightarrow> string option \<Rightarrow> nat \<Rightarrow> (int \<times> (string \<times> nat) option \<times> digest_connection) option" where
  "normalize_statement_digest_sql db mem sql sql_size =
     (let lexer = mylite_sql_lexer_init sql sql_size (lexer_modes_for_database_session db);
          out = Some mylite_dynamic_string_init
      in case normalize_loop db mem out (case sql of None \<Rightarrow> [] | Some s \<Rightarrow> s) lexer no_flags of
           None \<Rightarrow> None
         | Some (rc, out, db) \<Rightarrow>
             if rc \<noteq> MYLITE_OK then Some (rc, None, db)
             else
               let n = ds_length (the out); (buffer, out) = mylite_dynamic_string_take out
               in case buffer of
                    None \<Rightarrow> Some (MYLITE_NOMEM, None, db)
                  | Some b \<Rightarrow> Some (MYLITE_OK, Some (b, n), db))"

datatype parse_status =
    MYLITE_SQL_PARSE_OK
  | MYLITE_SQL_PARSE_MISUSE
  | MYLITE_SQL_PARSE_NOMEM
  | MYLITE_SQL_PARSE_LEXER_ERROR
  | MYLITE_SQL_PARSE_SYNTAX_ERROR
  | MYLITE_SQL_PARSE_STACK_OVERFLOW

type_synonym sql_parser = "string option \<Rightarrow> nat \<Rightarrow> u32 \<Rightarrow> parse_status \<times> sql_token"

definition validate_statement_digest_sql ::
    "sql_parser \<Rightarrow> digest_connection \<Rightarrow> string option \<Rightarrow> nat \<Rightarrow> int \<times> digest_connection" where
  "validate_statement_digest_sql mylite_sql_parse db sql sql_size =
     (let (status, error_token) = mylite_sql_parse sql sql_size (lexer_modes_for_database_session db)
      in if status = MYLITE_SQL_PARSE_OK then (MYLITE_OK, db)
         else if status = MYLITE_SQL_PARSE_NOMEM then (MYLITE_NOMEM, db)
         else if status = MYLITE_SQL_PARSE_MISUSE then (MYLITE_MISUSE, db)
         else (MYLITE_ERROR, set_statement_digest_parse_error db (case sql of None \<Rightarrow> [] | Some s \<Rightarrow> s) error_token))"

definition mylite_statement_digest_text ::
    "sql_parser \<Rightarrow> memory \<Rightarrow> digest_connection option \<Rightarrow> string option \<Rightarrow> nat \<Rightarrow>
      (int \<times> (string \<times> nat) option \<times> digest_connection option) option" where
  "mylite_statement_digest_text mylite_sql_parse mem database sql sql_size =
     (case database of None \<Rightarrow> Some (MYLITE_MISUSE, None, database)
      | Some db \<Rightarrow>
          if sql = None \<and> sql_size \<noteq> 0 then Some (MYLITE_MISUSE, None, database)
          else
            let (rc, db) = validate_statement_digest_sql mylite_sql_parse db sql sql_size
            in if rc \<noteq> MYLITE_OK then Some (rc, None, Some db)
               else map_option (\<lambda>(rc, result, db). (rc, result, Some db)) (normalize_statement_digest_sql db mem sql sql_size))"

declare next_significant_token.simps [code]

declare in_list_loop.simps [code]

declare normalize_loop.simps [code]

end
