(* ===== verification/Digest_Words.thy ===== *)
theory Digest_Words
  imports Statement_Digest
begin

text \<open>
  What a digest text is: the words of the significant tokens of the statement, joined by spaces.
  The words are given by functions on the list of tokens; the code, which reads tokens from the
  lexer and appends to a string that may run out of memory, computes them.
\<close>

section \<open>The significant tokens\<close>

lemma next_significant_unfold:
  "next_significant_token lx =
     (if comment_kind (token_kind (snd (lexer_next lx))) then next_significant_token (fst (lexer_next lx)) else Some (lexer_next lx))"
  by (subst next_significant_token.simps) (simp add: Let_def split: prod.split)

fun yields :: "sql_lexer \<Rightarrow> sql_token list \<Rightarrow> bool" where
  "yields lx [] \<longleftrightarrow> (\<exists>lx' t. next_significant_token lx = Some (lx', t) \<and> token_kind t = MYLITE_SQL_TOKEN_EOF)"
| "yields lx (t # ts) \<longleftrightarrow>
     (\<exists>lx'. next_significant_token lx = Some (lx', t) \<and> token_kind t \<noteq> MYLITE_SQL_TOKEN_EOF \<and> yields lx' ts)"

definition significant_tokens :: "string \<Rightarrow> u32 \<Rightarrow> sql_token list" where
  "significant_tokens sql modes =
     filter (\<lambda>t. \<not> comment_kind (token_kind t) \<and> token_kind t \<noteq> MYLITE_SQL_TOKEN_EOF)
       (the (lexer_tokens (length sql + 1) (mylite_sql_lexer_init (Some sql) (length sql) modes)))"

lemma yields_tokens:
  assumes "lexer_tokens n lx = Some ts"
  shows "yields lx (filter (\<lambda>t. \<not> comment_kind (token_kind t) \<and> token_kind t \<noteq> MYLITE_SQL_TOKEN_EOF) ts)"
  using assms
proof (induction n arbitrary: lx ts)
  case (Suc n)
  obtain lx' t where r: "lexer_next lx = (lx', t)" by (rule prod.exhaust)
  show ?case
  proof (cases "token_kind t = MYLITE_SQL_TOKEN_EOF")
    case True
    with Suc.prems r show ?thesis by (auto simp: comment_kind_def next_significant_unfold [of lx])
  next
    case False
    with Suc.prems r obtain ts' where ts': "lexer_tokens n lx' = Some ts'" "ts = t # ts'" by auto
    from Suc.IH [OF ts'(1)] have ih: "yields lx' (filter (\<lambda>t. \<not> comment_kind (token_kind t) \<and> token_kind t \<noteq> MYLITE_SQL_TOKEN_EOF) ts')" .
    show ?thesis
    proof (cases "comment_kind (token_kind t)")
      case True
      with r have eq: "next_significant_token lx = next_significant_token lx'" by (subst next_significant_unfold) simp
      have "yields lx us = yields lx' us" for us using eq by (cases us) simp_all
      with ih True ts'(2) show ?thesis by simp
    next
      case comment: False
      with r have "next_significant_token lx = Some (lx', t)" by (subst next_significant_unfold) simp
      with ih comment False ts'(2) show ?thesis by auto
    qed
  qed
qed simp

text \<open>The tokens of a statement lie within it.\<close>

definition token_within :: "string \<Rightarrow> sql_token \<Rightarrow> bool" where
  "token_within sql t \<longleftrightarrow> (\<exists>b. token_bytes sql t = Some b \<and> length b = token_length t)"

lemma next_token_text:
  assumes "lexer_ok lx" "lexer_next lx = (lx', t)" "lexer_input lx = Some sql"
  shows "token_text t = Some (token_offset t)"
proof -
  obtain skipped lw where w: "consume_whitespace lx = (skipped, lw)" by (rule prod.exhaust)
  note ws = whitespace_skipped [OF assms(1) w]
  have ok: "lexer_ok lw" "lexer_input lw = Some sql" using ws scanned_ok [OF assms(1)] assms(3) by (auto simp: scanned_def)
  show ?thesis
  proof (cases "lexer_offset lw \<ge> lexer_length lw")
    case True
    with w assms(2) have "t = set_token lw MYLITE_SQL_TOKEN_EOF (make_token_start lw (if skipped then 1 else 0))"
      by (auto simp: lexer_next_def)
    with ok show ?thesis by (simp add: set_token_def)
  next
    case False
    with w assms(2) have "scan_token lw (if skipped then 1 else 0) = (lx', t)" by (simp add: lexer_next_def Let_def)
    with scans_token [OF ok(1), of "if skipped then 1 else 0"] False
    have "scans_here (if skipped then 1 else 0) lw (lx', t)" by simp
    with ok(2) show ?thesis by (auto simp: scans_here_def scans_def token_of_def scanned_def)
  qed
qed

lemma tokens_within:
  assumes "lexer_ok lx" "lexer_input lx = Some sql" "lexer_length lx = length sql" "lexer_tokens n lx = Some ts"
  shows "list_all (token_within sql) ts"
  using assms
proof (induction n arbitrary: lx ts)
  case (Suc n)
  obtain lx' t where r: "lexer_next lx = (lx', t)" by (rule prod.exhaust)
  note f = next_facts [OF Suc.prems(1) r]
  have "token_offset t + token_length t \<le> length sql" using f(2,4) Suc.prems(3) by (auto simp: scanned_def)
  then have t: "token_within sql t"
    using next_token_text [OF Suc.prems(1) r Suc.prems(2)] by (auto simp: token_within_def token_bytes_def)
  show ?case
  proof (cases "token_kind t = MYLITE_SQL_TOKEN_EOF")
    case True
    with t r Suc.prems(4) show ?thesis by auto
  next
    case False
    with r Suc.prems(4) obtain ts' where ts': "lexer_tokens n lx' = Some ts'" "ts = t # ts'" by auto
    have "lexer_input lx' = Some sql" "lexer_length lx' = length sql" using f(2) Suc.prems(2,3) by (simp_all add: scanned_def)
    from Suc.IH [OF f(1) this ts'(1)] t ts'(2) show ?thesis by simp
  qed
qed simp

lemma significant_tokens_yielded:
  "yields (mylite_sql_lexer_init (Some sql) (length sql) modes) (significant_tokens sql modes)"
  "list_all (token_within sql) (significant_tokens sql modes)"
proof -
  let ?lx = "mylite_sql_lexer_init (Some sql) (length sql) modes"
  have ok: "lexer_ok ?lx" "lexer_input ?lx = Some sql" "lexer_length ?lx = length sql" "lexer_offset ?lx = 0"
    by (simp_all add: mylite_sql_lexer_init_def lexer_ok_def)
  with lexer_tokens_split [of ?lx sql "length sql + 1"] obtain ts where ts: "lexer_tokens (length sql + 1) ?lx = Some ts" by auto
  from yields_tokens [OF ts] ts show "yields ?lx (significant_tokens sql modes)" by (simp add: significant_tokens_def)
  from tokens_within [OF ok(1-3) ts] ts show "list_all (token_within sql) (significant_tokens sql modes)"
    by (auto simp: significant_tokens_def list_all_iff)
qed

section \<open>The words\<close>

text \<open>The text between quotes with doubled quotes undone.\<close>

fun undouble :: "char \<Rightarrow> string \<Rightarrow> string" where
  "undouble q [] = []"
| "undouble q [c] = [c]"
| "undouble q (c # d # cs) = c # (if q \<noteq> CHR 0x00 \<and> c = q \<and> d = q then undouble q cs else undouble q (d # cs))"

definition identifier_word :: "string \<Rightarrow> sql_token \<Rightarrow> string" where
  "identifier_word sql t =
     (let bytes = the (token_bytes sql t)
      in quoted_identifier (CHR 0x60)
        (if token_kind t = MYLITE_SQL_TOKEN_QUOTED_IDENTIFIER \<and> token_length t \<ge> 2
         then undouble (bytes ! 0) (butlast (tl bytes)) else bytes))"

definition literal_kinds :: "sql_token_kind set" where
  "literal_kinds = {MYLITE_SQL_TOKEN_STRING, MYLITE_SQL_TOKEN_NATIONAL_STRING, MYLITE_SQL_TOKEN_HEX_LITERAL,
     MYLITE_SQL_TOKEN_BIT_LITERAL, MYLITE_SQL_TOKEN_INTEGER, MYLITE_SQL_TOKEN_DECIMAL, MYLITE_SQL_TOKEN_FLOAT}"

definition token_words :: "string \<Rightarrow> sql_token \<Rightarrow> string list option" where
  "token_words sql t =
     (let bytes = the (token_bytes sql t)
      in if token_kind t \<in> literal_kinds then Some [''?'']
         else if token_kind t \<in> {MYLITE_SQL_TOKEN_IDENTIFIER, MYLITE_SQL_TOKEN_QUOTED_IDENTIFIER} then Some [identifier_word sql t]
         else if token_kind t = MYLITE_SQL_TOKEN_KEYWORD then
           Some [if map ascii_upper bytes = ''NULL'' then ''?'' else if map ascii_upper bytes = ''INT'' then ''INTEGER''
             else if map ascii_upper bytes = ''VARCHAR'' then ''VARCHARACTER'' else map ascii_upper bytes]
         else if token_kind t = MYLITE_SQL_TOKEN_OPERATOR then
           Some [case operator_text (token_operator t) of None \<Rightarrow> bytes | Some w \<Rightarrow> w]
         else if token_kind t \<in> {MYLITE_SQL_TOKEN_PUNCTUATION, MYLITE_SQL_TOKEN_USER_VARIABLE, MYLITE_SQL_TOKEN_SYSTEM_VARIABLE,
             MYLITE_SQL_TOKEN_TEMPORAL_LITERAL_INTRODUCER} then Some [bytes]
         else if token_kind t \<in> {MYLITE_SQL_TOKEN_ERROR, MYLITE_SQL_TOKEN_PARAMETER} then None
         else Some [])"

text \<open>The tokens after the parenthesis that closes the given number of open ones.\<close>

fun close_list :: "string \<Rightarrow> nat \<Rightarrow> sql_token list \<Rightarrow> sql_token list option" where
  "close_list sql 0 ts = Some ts"
| "close_list sql (Suc d) [] = None"
| "close_list sql (Suc d) (t # ts) =
     close_list sql (if token_is_punctuation sql t (CHR ''('') then Suc (Suc d)
       else if token_is_punctuation sql t (CHR '')'') then d else Suc d) ts"

lemma close_list_length: "close_list sql d ts = Some us \<Longrightarrow> length us \<le> length ts"
  by (induction sql d ts rule: close_list.induct) auto

fun after_in :: "string \<Rightarrow> sql_token list \<Rightarrow> (string list \<times> sql_token list) option" where
  "after_in sql [] = Some ([], [])"
| "after_in sql (t # ts) =
     (if \<not> token_is_punctuation sql t (CHR ''('') then Some ([], t # ts)
      else if ts \<noteq> [] \<and> token_is_ascii_keyword sql (hd ts) ''SELECT'' then Some ([], t # ts)
      else map_option (Pair [''(...)'']) (close_list sql 1 ts))"

lemma after_in_length: "after_in sql ts = Some (ws, us) \<Longrightarrow> length us \<le> length ts"
  by (cases ts) (auto split: if_splits dest: close_list_length)

function digest_words :: "string \<Rightarrow> digest_flags \<Rightarrow> sql_token list \<Rightarrow> string list option" where
  "digest_words sql fl [] = Some []"
| "digest_words sql fl (t # ts) =
     (if saw_statement_terminator fl \<or> token_kind t = MYLITE_SQL_TOKEN_PARAMETER then None
      else if token_is_ascii_keyword sql t ''IN'' then
        (case after_in sql ts of None \<Rightarrow> None | Some (ws, us) \<Rightarrow> map_option (\<lambda>vs. ''IN'' # ws @ vs) (digest_words sql fl us))
      else
        (case if token_is_ascii_keyword sql t ''NULL'' \<and> (previous_token_was_is fl \<or> previous_tokens_were_is_not fl)
              then Some [''NULL''] else token_words sql t of
           None \<Rightarrow> None
         | Some ws \<Rightarrow> map_option (\<lambda>vs. ws @ vs) (digest_words sql (update_flags sql t fl) ts)))"
  by pat_completeness auto
termination
  by (relation "measure (\<lambda>(sql, fl, ts). length ts)") (auto simp: less_Suc_eq_le dest: after_in_length)

declare digest_words.simps(2) [simp del]

definition add_word :: "string \<Rightarrow> string \<Rightarrow> string" where
  "add_word text w = (if text = [] then w else text @ '' '' @ w)"

definition joined :: "string list \<Rightarrow> string" where
  "joined ws = foldl add_word [] ws"


section \<open>Writing words\<close>

text \<open>
  \<open>writes s w r\<close>: the operation with result \<open>r\<close> appends \<open>w\<close> to the string \<open>s\<close>, or runs out of
  memory and leaves a well-formed string.
\<close>

definition writes :: "dynamic_string \<Rightarrow> string \<Rightarrow> int \<times> digest_output \<times> memory \<Rightarrow> bool" where
  "writes s w r \<longleftrightarrow>
     (case r of (rc, out, mem) \<Rightarrow>
        \<exists>s'. out = Some s' \<and> string_ok s' \<and> (rc = MYLITE_OK \<and> content s' = content s @ w \<or> rc = MYLITE_NOMEM))"

lemma writes_nothing [simp]: "string_ok s \<Longrightarrow> writes s [] (MYLITE_OK, Some s, mem)"
  by (simp add: writes_def)

lemma writes_step:
  assumes "string_ok s" "readable op" "\<not> misused op"
  shows "writes s (appended op) (let (r, mem) = next_reallocation mem; (rc, out) = string_step r (Some s) op in (rc, out, mem))"
proof -
  obtain r mem' where r: "next_reallocation mem = (r, mem')" by (rule prod.exhaust)
  obtain rc out where st: "string_step r (Some s) op = (rc, out)" by (rule prod.exhaust)
  from string_step_outcome [OF assms(1,2) st] assms(1,3) r st show ?thesis by (auto simp: writes_def)
qed

lemma writes_char: "string_ok s \<Longrightarrow> writes s [c] (output_char mem (Some s) c)"
  using writes_step [of s "AppendChar c" mem] by (simp add: output_char_def)

lemma writes_bytes: "string_ok s \<Longrightarrow> n \<le> length b \<Longrightarrow> writes s (take n b) (output_bytes mem (Some s) (Some b) n)"
  using writes_step [of s "AppendBytes (Some b) n" mem] by (cases "n = 0") (simp_all add: output_bytes_def)

lemma writes_text: "string_ok s \<Longrightarrow> writes s (c_string t) (output_text mem (Some s) (Some t))"
  using writes_step [of s "Append (Some t)" mem] by (simp add: output_text_def)

lemma writes_then:
  assumes "writes s w r" "\<And>s' mem. string_ok s' \<Longrightarrow> content s' = content s @ w \<Longrightarrow> writes s' v (f (Some s') mem)"
  shows "writes s (w @ v) (let (rc, out, mem) = r in if rc = MYLITE_OK then f out mem else (rc, out, mem))"
    "writes s (w @ v) (let (rc, out, mem) = r in if rc \<noteq> MYLITE_OK then (rc, out, mem) else f out mem)"
proof -
  obtain rc out mem where r: "r = (rc, out, mem)" by (rule prod_cases3)
  with assms(1) obtain s' where s': "out = Some s'" "string_ok s'" "rc = MYLITE_OK \<and> content s' = content s @ w \<or> rc = MYLITE_NOMEM"
    by (auto simp: writes_def)
  have 1: "writes s (w @ v) (if rc = MYLITE_OK then f out mem else (rc, out, mem))"
  proof (cases "rc = MYLITE_OK")
    case True
    with s' have c: "content s' = content s @ w" by simp
    from assms(2) [OF s'(2) c, of mem] c s'(1) True show ?thesis by (auto simp: writes_def split: prod.splits)
  next
    case False
    with s' show ?thesis by (auto simp: writes_def)
  qed
  then show "writes s (w @ v) (let (rc, out, mem) = r in if rc = MYLITE_OK then f out mem else (rc, out, mem))"
    using r by simp
  from 1 show "writes s (w @ v) (let (rc, out, mem) = r in if rc \<noteq> MYLITE_OK then (rc, out, mem) else f out mem)"
    using r by (cases "rc = MYLITE_OK") simp_all
qed

lemma writes_chars: "string_ok s \<Longrightarrow> writes s cs (output_chars mem (Some s) cs)"
proof (induction cs arbitrary: s mem)
  case (Cons c cs)
  have "writes s ([c] @ cs) (let (rc, out, mem) = output_char mem (Some s) c in
      if rc = MYLITE_OK then output_chars mem out cs else (rc, out, mem))"
    by (rule writes_then(1) [OF writes_char [OF Cons.prems], where f = "\<lambda>out mem. output_chars mem out cs"]) (rule Cons.IH)
  then show ?case by simp
qed simp

definition space_before :: "dynamic_string \<Rightarrow> string" where
  "space_before s = (if content s = [] then [] else '' '')"

lemma writes_space: "string_ok s \<Longrightarrow> writes s (space_before s) (append_space mem (Some s))"
  using content_length [of s] writes_char [of s "CHR '' ''" mem] by (auto simp: append_space_def space_before_def)

lemma add_word_space: "add_word (content s) w = content s @ space_before s @ w"
  by (simp add: add_word_def space_before_def)

lemma writes_token_bytes:
  assumes "string_ok s" "n \<le> length b"
  shows "writes s (space_before s @ take n b) (append_output_token_bytes mem (Some s) (Some b) n)"
proof -
  have "writes s (space_before s @ take n b) (let (rc, out, mem) = append_space mem (Some s) in
      if rc = MYLITE_OK then output_bytes mem out (Some b) n else (rc, out, mem))"
    by (rule writes_then(1) [OF writes_space [OF assms(1)], where f = "\<lambda>out mem. output_bytes mem out (Some b) n"])
      (rule writes_bytes [OF _ assms(2)])
  then show ?thesis by (simp add: append_output_token_bytes_def)
qed

lemma writes_token: "string_ok s \<Longrightarrow> writes s (space_before s @ w) (append_output_token mem (Some s) w)"
  using writes_token_bytes [of s "length w" w mem] by (simp add: append_output_token_def)

lemma writes_uppercase:
  assumes "string_ok s" "length b = n"
  shows "writes s (space_before s @ map ascii_upper b) (append_uppercase_token mem (Some s) (Some b) n)"
proof -
  have "writes s (space_before s @ map ascii_upper b) (let (rc, out, mem) = append_space mem (Some s) in
      if rc = MYLITE_OK then output_chars mem out (map ascii_upper b) else (rc, out, mem))"
    by (rule writes_then(1) [OF writes_space [OF assms(1)], where f = "\<lambda>out mem. output_chars mem out (map ascii_upper b)"])
      (rule writes_chars)
  moreover have whole: "take n b = b" using assms(2) by simp
  ultimately show ?thesis unfolding append_uppercase_token_def option.case whole by simp
qed

definition escaped :: "char \<Rightarrow> string" where
  "escaped c = (if c = CHR 0x60 then [CHR 0x60, CHR 0x60] else [c])"

lemma writes_escaped:
  "string_ok s \<Longrightarrow> writes s (escaped c) (if c = CHR 0x60 then output_text mem (Some s) (Some [CHR 0x60, CHR 0x60]) else output_char mem (Some s) c)"
  using writes_text [of s "[CHR 0x60, CHR 0x60]" mem] writes_char [of s c mem] by (simp add: escaped_def c_string_def)

lemma writes_identifier_loop:
  "string_ok s \<Longrightarrow> writes s (quoted_body (CHR 0x60) (undouble q cs)) (identifier_loop mem (Some s) q cs)"
proof (induction q cs arbitrary: s mem rule: undouble.induct)
  case (3 q c d cs)
  let ?doubled = "q \<noteq> CHR 0x00 \<and> c = q \<and> d = q"
  let ?rest = "if ?doubled then undouble q cs else undouble q (d # cs)"
  have "writes s (escaped c @ quoted_body (CHR 0x60) ?rest)
     (let (rc, out, mem) = (if c = CHR 0x60 then output_text mem (Some s) (Some [CHR 0x60, CHR 0x60]) else output_char mem (Some s) c)
      in if rc \<noteq> MYLITE_OK then (rc, out, mem)
         else if ?doubled then identifier_loop mem out q cs else identifier_loop mem out q (d # cs))"
    by (rule writes_then(2) [OF writes_escaped [OF "3.prems"],
          where f = "\<lambda>out mem. if ?doubled then identifier_loop mem out q cs else identifier_loop mem out q (d # cs)"])
      (use "3.IH" in auto)
  then show ?case by (simp add: Let_def escaped_def)
next
  case (2 q v)
  then show ?case using writes_escaped [of s v mem] by (simp add: escaped_def)
qed simp_all

lemma writes_quoted_identifier:
  assumes "string_ok s" "token_within sql t"
  shows "writes s (space_before s @ identifier_word sql t) (append_quoted_identifier_token mem (Some s) sql t)"
proof -
  from assms(2) obtain b where b: "token_bytes sql t = Some b" by (auto simp: token_within_def)
  let ?quoted = "token_kind t = MYLITE_SQL_TOKEN_QUOTED_IDENTIFIER \<and> token_length t \<ge> 2"
  let ?q = "if ?quoted then b ! 0 else CHR 0x00"
  let ?body = "if ?quoted then butlast (tl b) else b"
  have plain: "undouble (CHR 0x00) cs = cs" for cs by (induction "CHR 0x00" cs rule: undouble.induct) simp_all
  have word: "identifier_word sql t = [CHR 0x60] @ quoted_body (CHR 0x60) (undouble ?q ?body) @ [CHR 0x60]"
    using b plain by (simp add: identifier_word_def quoted_identifier_def)
  let ?close = "\<lambda>out mem. output_char mem out (CHR 0x60)"
  let ?inside = "\<lambda>out mem. let (rc, out, mem) = identifier_loop mem out ?q ?body
     in if rc \<noteq> MYLITE_OK then (rc, out, mem) else ?close out mem"
  let ?open = "\<lambda>out mem. let (rc, out, mem) = output_char mem out (CHR 0x60)
     in if rc \<noteq> MYLITE_OK then (rc, out, mem) else ?inside out mem"
  have inside: "writes s' (quoted_body (CHR 0x60) (undouble ?q ?body) @ [CHR 0x60]) (?inside (Some s') mem)" if "string_ok s'" for s' mem
    by (rule writes_then(2) [OF writes_identifier_loop [OF that], where f = ?close]) (rule writes_char)
  have opened: "writes s' ([CHR 0x60] @ quoted_body (CHR 0x60) (undouble ?q ?body) @ [CHR 0x60]) (?open (Some s') mem)"
    if "string_ok s'" for s' mem
    by (rule writes_then(2) [OF writes_char [OF that], where f = ?inside]) (rule inside)
  have "writes s (space_before s @ identifier_word sql t)
     (let (rc, out, mem) = append_space mem (Some s) in if rc \<noteq> MYLITE_OK then (rc, out, mem) else ?open out mem)"
    unfolding word by (rule writes_then(2) [OF writes_space [OF assms(1)], where f = ?open]) (rule opened)
  then show ?thesis unfolding append_quoted_identifier_token_def b option.case by (simp add: Let_def)
qed

text \<open>
  \<open>puts s w r\<close>: as \<open>writes\<close>, with the text of \<open>s\<close> extended by the words \<open>w\<close>, or no words and a
  misuse.
\<close>

definition puts :: "dynamic_string \<Rightarrow> string list option \<Rightarrow> int \<times> digest_output \<times> memory \<Rightarrow> bool" where
  "puts s w r \<longleftrightarrow>
     (case r of (rc, out, mem) \<Rightarrow>
        \<exists>s'. out = Some s' \<and> string_ok s' \<and>
          (case w of None \<Rightarrow> rc = MYLITE_MISUSE
           | Some ws \<Rightarrow> rc = MYLITE_OK \<and> content s' = foldl add_word (content s) ws \<or> rc = MYLITE_NOMEM))"

lemma puts_word: "writes s (space_before s @ w) r \<Longrightarrow> puts s (Some [w]) r"
  by (auto simp: writes_def puts_def add_word_space split: prod.splits)

lemma puts_none: "string_ok s \<Longrightarrow> puts s (Some []) (MYLITE_OK, Some s, mem)" "string_ok s \<Longrightarrow> puts s None (MYLITE_MISUSE, Some s, mem)"
  by (simp_all add: puts_def)

lemma puts_normalized:
  assumes "string_ok s" "token_within sql t"
  shows "puts s (token_words sql t) (append_normalized_token mem (Some s) sql t)"
proof -
  from assms(2) obtain b where b: "token_bytes sql t = Some b" "length b = token_length t" by (auto simp: token_within_def)
  note word = puts_word [OF writes_token [OF assms(1)]] puts_word [OF writes_quoted_identifier [OF assms]]
    puts_word [OF writes_uppercase [OF assms(1) b(2)]] puts_none [OF assms(1)]
  have bytes: "puts s (Some [b]) (append_output_token_bytes mem (Some s) (Some b) (token_length t))"
    using puts_word [OF writes_token_bytes [OF assms(1), of "token_length t" b mem]] b by simp
  have up: "map ascii_upper ''NULL'' = ''NULL''" "map ascii_upper ''INT'' = ''INT''" "map ascii_upper ''VARCHAR'' = ''VARCHAR''"
    by code_simp+
  have key: "token_is_ascii_keyword sql t w \<longleftrightarrow> token_kind t = MYLITE_SQL_TOKEN_KEYWORD \<and> map ascii_upper b = map ascii_upper w" for w
    using b map_eq_imp_length_eq [of ascii_upper b ascii_upper w] by (auto simp: token_is_ascii_keyword_def)
  have op: "puts s (Some [case operator_text (token_operator t) of None \<Rightarrow> b | Some w \<Rightarrow> w]) (append_operator_token mem (Some s) sql t)"
    using word(1) bytes b(1) by (simp add: append_operator_token_def split: option.split)
  show ?thesis
    unfolding append_normalized_token_def token_words_def Let_def key up literal_kinds_def b(1) option.sel
    using word op bytes by (cases "token_kind t") simp_all
qed

section \<open>The loops\<close>

lemma in_list_loop_closes:
  assumes "yields lx ts"
  shows "\<exists>rc lx'. in_list_loop sql lx d = Some (rc, lx') \<and>
    (case close_list sql d ts of None \<Rightarrow> rc = MYLITE_MISUSE | Some us \<Rightarrow> rc = MYLITE_OK \<and> yields lx' us)"
  using assms
proof (induction sql d ts arbitrary: lx rule: close_list.induct)
  case (1 sql ts)
  then show ?case by (subst in_list_loop.simps) simp
next
  case (2 sql d)
  then obtain lx' t where "next_significant_token lx = Some (lx', t)" "token_kind t = MYLITE_SQL_TOKEN_EOF" by auto
  then show ?case by (subst in_list_loop.simps) simp
next
  case (3 sql d t ts)
  then obtain lx' where lx': "next_significant_token lx = Some (lx', t)" "token_kind t \<noteq> MYLITE_SQL_TOKEN_EOF" "yields lx' ts" by auto
  let ?d = "if token_is_punctuation sql t (CHR ''('') then Suc (Suc d) else if token_is_punctuation sql t (CHR '')'') then d else Suc d"
  from lx' have "in_list_loop sql lx (Suc d) = in_list_loop sql lx' ?d" by (subst in_list_loop.simps) simp
  with "3.IH" [OF lx'(3)] show ?case by simp
qed

lemma close_list_set: "close_list sql d ts = Some us \<Longrightarrow> set us \<subseteq> set ts"
  by (induction sql d ts rule: close_list.induct) auto

lemma after_in_set: "after_in sql ts = Some (ws, us) \<Longrightarrow> set us \<subseteq> set ts"
  by (cases ts) (auto split: if_splits dest: close_list_set)

lemma writes_pair:
  "writes s w r \<Longrightarrow> \<exists>rc s' mem'. r = (rc, Some s', mem') \<and> string_ok s' \<and> (rc = MYLITE_OK \<and> content s' = content s @ w \<or> rc = MYLITE_NOMEM)"
  by (auto simp: writes_def split: prod.splits)

lemma in_list_placeholder:
  assumes "yields lx ts" "string_ok s"
  shows "\<exists>rc s' mem' lx'. append_in_list_placeholder mem (Some s) sql lx = Some (rc, Some s', mem', lx') \<and> string_ok s' \<and>
    (rc = MYLITE_OK \<and> (\<exists>ws us. after_in sql ts = Some (ws, us) \<and> yields lx' us \<and> content s' = foldl add_word (content s) ws) \<or>
     rc = MYLITE_NOMEM \<or> rc = MYLITE_MISUSE \<and> after_in sql ts = None)"
proof (cases ts)
  case Nil
  with assms(1) obtain lx' t where "next_significant_token lx = Some (lx', t)" "token_kind t = MYLITE_SQL_TOKEN_EOF" by auto
  then have "append_in_list_placeholder mem (Some s) sql lx = Some (MYLITE_OK, Some s, mem, lx)"
    by (simp add: append_in_list_placeholder_def token_is_punctuation_def)
  with Nil assms show ?thesis by auto
next
  case (Cons t us)
  with assms(1) obtain lx' where lx': "next_significant_token lx = Some (lx', t)" "yields lx' us" by auto
  from lx'(2) obtain lx2 t2 where t2: "next_significant_token lx' = Some (lx2, t2)"
    "token_is_ascii_keyword sql t2 ''SELECT'' \<longleftrightarrow> us \<noteq> [] \<and> token_is_ascii_keyword sql (hd us) ''SELECT''"
    by (cases us) (auto simp: token_is_ascii_keyword_def)
  show ?thesis
  proof (cases "\<not> token_is_punctuation sql t (CHR ''('') \<or> token_is_ascii_keyword sql t2 ''SELECT''")
    case True
    with lx' t2 have "append_in_list_placeholder mem (Some s) sql lx = Some (MYLITE_OK, Some s, mem, lx)"
      by (auto simp: append_in_list_placeholder_def)
    moreover have "after_in sql ts = Some ([], ts)" using True t2(2) Cons by auto
    ultimately show ?thesis using assms by simp
  next
    case False
    obtain rc s' mem' where w: "append_output_token mem (Some s) ''(...)'' = (rc, Some s', mem')" "string_ok s'"
      "rc = MYLITE_OK \<and> content s' = content s @ space_before s @ ''(...)'' \<or> rc = MYLITE_NOMEM"
      using writes_pair [OF writes_token [OF assms(2), of "''(...)''" mem]] by auto
    have after: "after_in sql ts = map_option (Pair [''(...)'']) (close_list sql 1 us)" using False t2(2) Cons by auto
    have run: "append_in_list_placeholder mem (Some s) sql lx = (if rc \<noteq> MYLITE_OK then Some (rc, Some s', mem', lx')
        else map_option (\<lambda>(rc, lx). (rc, Some s', mem', lx)) (in_list_loop sql lx' 1))"
      using False lx' t2(1) w(1) by (simp add: append_in_list_placeholder_def)
    show ?thesis
    proof (cases "rc = MYLITE_OK")
      case True
      with w(3) have "content s' = foldl add_word (content s) [''(...)'']" by (simp add: add_word_space)
      with in_list_loop_closes [OF lx'(2), of sql 1] run after w(2) True show ?thesis by (auto split: option.splits)
    qed (use run w in auto)
  qed
qed

text \<open>What the loop over the statement comes to, from the tokens that are left.\<close>

definition digests :: "string \<Rightarrow> digest_connection \<Rightarrow> dynamic_string \<Rightarrow> sql_token list \<Rightarrow> string list option \<Rightarrow>
    (int \<times> digest_output \<times> digest_connection) option \<Rightarrow> bool" where
  "digests sql db s ts w r \<longleftrightarrow>
     (\<exists>rc s' db'. r = Some (rc, Some s', db') \<and> string_ok s' \<and>
       (rc = MYLITE_OK \<and> db' = db \<and> (\<exists>ws. w = Some ws \<and> content s' = foldl add_word (content s) ws) \<or>
        rc = MYLITE_NOMEM \<and> db' = db \<or>
        rc = MYLITE_MISUSE \<and> db' = db \<and> w = None \<or>
        rc = MYLITE_ERROR \<and> w = None \<and> (\<exists>t\<in>set ts. db' = set_statement_digest_parse_error db sql t)))"

lemma digests_append:
  assumes "digests sql db s' us w r" "content s' = foldl add_word (content s) ws" "set us \<subseteq> set ts"
  shows "digests sql db s ts (map_option (\<lambda>vs. ws @ vs) w) r"
  using assms unfolding digests_def by fastforce

lemma normalize_loop_step:
  assumes "next_significant_token lx = Some (lx', t)" "token_kind t \<noteq> MYLITE_SQL_TOKEN_EOF"
    and "\<not> saw_statement_terminator fl" "token_kind t \<noteq> MYLITE_SQL_TOKEN_PARAMETER"
  shows "token_is_ascii_keyword sql t ''IN'' \<Longrightarrow> append_output_token mem out ''IN'' = (rc, out', mem') \<Longrightarrow>
      normalize_loop db mem out sql lx fl = (if rc \<noteq> MYLITE_OK then Some (rc, out', db)
        else case append_in_list_placeholder mem' out' sql lx' of None \<Rightarrow> None
          | Some (rc, out, mem, lexer) \<Rightarrow> if rc \<noteq> MYLITE_OK then Some (rc, out, db) else normalize_loop db mem out sql lexer fl)"
    "\<not> token_is_ascii_keyword sql t ''IN'' \<Longrightarrow>
      (if token_is_ascii_keyword sql t ''NULL'' \<and> (previous_token_was_is fl \<or> previous_tokens_were_is_not fl)
       then append_output_token mem out ''NULL'' else append_normalized_token mem out sql t) = (rc, out', mem') \<Longrightarrow>
      normalize_loop db mem out sql lx fl =
        (if rc \<noteq> MYLITE_OK then Some (rc, out', db) else normalize_loop db mem' out' sql lx' (update_flags sql t fl))"
  using assms by (subst normalize_loop.simps; simp)+

lemma puts_pair:
  "puts s w r \<Longrightarrow> \<exists>rc s' mem'. r = (rc, Some s', mem') \<and> string_ok s' \<and>
     (rc = MYLITE_OK \<and> (\<exists>ws. w = Some ws \<and> content s' = foldl add_word (content s) ws) \<or> rc = MYLITE_NOMEM \<or> rc = MYLITE_MISUSE \<and> w = None)"
  by (auto simp: puts_def split: prod.splits option.splits)

text \<open>A token \<open>IN\<close>, then any other, given what the rest of the loop does.\<close>

lemma loop_in_list:
  assumes "next_significant_token lx = Some (lx', t)" "token_kind t \<noteq> MYLITE_SQL_TOKEN_EOF" "yields lx' ts" "string_ok s"
    and "\<not> (saw_statement_terminator fl \<or> token_kind t = MYLITE_SQL_TOKEN_PARAMETER)" "token_is_ascii_keyword sql t ''IN''"
    and rest: "\<And>ws us lx2 s2 mem2. after_in sql ts = Some (ws, us) \<Longrightarrow> yields lx2 us \<Longrightarrow> string_ok s2 \<Longrightarrow>
      digests sql db s2 us (digest_words sql fl us) (normalize_loop db mem2 (Some s2) sql lx2 fl)"
  shows "digests sql db s (t # ts) (digest_words sql fl (t # ts)) (normalize_loop db mem (Some s) sql lx fl)"
proof -
  obtain rc s1 mem1 where w: "append_output_token mem (Some s) ''IN'' = (rc, Some s1, mem1)" "string_ok s1"
    "rc = MYLITE_OK \<and> content s1 = foldl add_word (content s) [''IN''] \<or> rc = MYLITE_NOMEM"
    using writes_pair [OF writes_token [OF assms(4), of "''IN''" mem]] by (auto simp: add_word_space)
  obtain rc' s2 mem2 lx2 where p: "append_in_list_placeholder mem1 (Some s1) sql lx' = Some (rc', Some s2, mem2, lx2)" "string_ok s2"
    "rc' = MYLITE_OK \<and> (\<exists>ws us. after_in sql ts = Some (ws, us) \<and> yields lx2 us \<and> content s2 = foldl add_word (content s1) ws) \<or>
     rc' = MYLITE_NOMEM \<or> rc' = MYLITE_MISUSE \<and> after_in sql ts = None"
    using in_list_placeholder [OF assms(3) w(2), of mem1 sql] by blast
  have run: "normalize_loop db mem (Some s) sql lx fl = (if rc \<noteq> MYLITE_OK then Some (rc, Some s1, db)
      else if rc' \<noteq> MYLITE_OK then Some (rc', Some s2, db) else normalize_loop db mem2 (Some s2) sql lx2 fl)"
    using normalize_loop_step(1) [OF assms(1,2) _ _ assms(6) w(1)] assms(5) p(1) by simp
  show ?thesis
  proof (cases "rc = MYLITE_OK \<and> rc' = MYLITE_OK")
    case ok: True
    with p(3) obtain ws us where us: "after_in sql ts = Some (ws, us)" "yields lx2 us" "content s2 = foldl add_word (content s1) ws" by auto
    have "digests sql db s (t # ts) (map_option (\<lambda>vs. (''IN'' # ws) @ vs) (digest_words sql fl us))
        (normalize_loop db mem2 (Some s2) sql lx2 fl)"
      by (rule digests_append [OF rest [OF us(1,2) p(2)]]) (use us(3) w(3) ok after_in_set [OF us(1)] in auto)
    with run ok assms(5,6) us(1) show ?thesis by (simp add: digest_words.simps(2))
  next
    case False
    with run w p assms(5,6) show ?thesis by (auto simp: digests_def digest_words.simps(2))
  qed
qed

lemma puts_loop_token:
  assumes "string_ok s" "token_within sql t"
  shows "puts s (if null then Some [''NULL''] else token_words sql t)
    (if null then append_output_token mem (Some s) ''NULL'' else append_normalized_token mem (Some s) sql t)"
  using puts_word [OF writes_token [OF assms(1)]] puts_normalized [OF assms] by simp

lemma loop_token:
  assumes "next_significant_token lx = Some (lx', t)" "token_kind t \<noteq> MYLITE_SQL_TOKEN_EOF" "string_ok s" "token_within sql t"
    and "\<not> (saw_statement_terminator fl \<or> token_kind t = MYLITE_SQL_TOKEN_PARAMETER)" "\<not> token_is_ascii_keyword sql t ''IN''"
    and rest: "\<And>s2 mem2. string_ok s2 \<Longrightarrow>
      digests sql db s2 ts (digest_words sql (update_flags sql t fl) ts) (normalize_loop db mem2 (Some s2) sql lx' (update_flags sql t fl))"
  shows "digests sql db s (t # ts) (digest_words sql fl (t # ts)) (normalize_loop db mem (Some s) sql lx fl)"
proof -
  define null where "null \<longleftrightarrow> token_is_ascii_keyword sql t ''NULL'' \<and> (previous_token_was_is fl \<or> previous_tokens_were_is_not fl)"
  define w where "w = (if null then Some [''NULL''] else token_words sql t)"
  obtain rc s1 mem1 where r: "(if null then append_output_token mem (Some s) ''NULL'' else append_normalized_token mem (Some s) sql t)
      = (rc, Some s1, mem1)" "string_ok s1"
    "rc = MYLITE_OK \<and> (\<exists>ws. w = Some ws \<and> content s1 = foldl add_word (content s) ws) \<or> rc = MYLITE_NOMEM \<or> rc = MYLITE_MISUSE \<and> w = None"
    using puts_pair [OF puts_loop_token [OF assms(3,4), of null mem], folded w_def] by blast
  have run: "normalize_loop db mem (Some s) sql lx fl =
      (if rc \<noteq> MYLITE_OK then Some (rc, Some s1, db) else normalize_loop db mem1 (Some s1) sql lx' (update_flags sql t fl))"
    using normalize_loop_step(2) [OF assms(1,2) _ _ assms(6) r(1) [unfolded null_def]] assms(5) by simp
  have spec: "digest_words sql fl (t # ts) =
      (case w of None \<Rightarrow> None | Some ws \<Rightarrow> map_option (\<lambda>vs. ws @ vs) (digest_words sql (update_flags sql t fl) ts))"
    using assms(5,6) by (simp add: digest_words.simps(2) w_def null_def)
  show ?thesis
  proof (cases "rc = MYLITE_OK")
    case True
    with r(3) obtain ws where ws: "w = Some ws" "content s1 = foldl add_word (content s) ws" by auto
    have "digests sql db s (t # ts) (map_option (\<lambda>vs. ws @ vs) (digest_words sql (update_flags sql t fl) ts))
        (normalize_loop db mem1 (Some s1) sql lx' (update_flags sql t fl))"
      by (rule digests_append [OF rest [OF r(2)] ws(2)]) auto
    with run spec ws(1) True show ?thesis by simp
  next
    case False
    with run r(2,3) spec show ?thesis by (auto simp: digests_def)
  qed
qed

lemma normalize_loop_digests:
  assumes "yields lx ts" "list_all (token_within sql) ts" "string_ok s"
  shows "digests sql db s ts (digest_words sql fl ts) (normalize_loop db mem (Some s) sql lx fl)"
  using assms
proof (induction "length ts" arbitrary: ts fl lx s mem rule: less_induct)
  case less
  show ?case
  proof (cases ts)
    case Nil
    with less.prems(1) obtain lx' t where "next_significant_token lx = Some (lx', t)" "token_kind t = MYLITE_SQL_TOKEN_EOF" by auto
    then have "normalize_loop db mem (Some s) sql lx fl = Some (MYLITE_OK, Some s, db)" by (subst normalize_loop.simps) simp
    with Nil less.prems show ?thesis by (simp add: digests_def)
  next
    case (Cons t us)
    with less.prems(1) obtain lx' where lx': "next_significant_token lx = Some (lx', t)" "token_kind t \<noteq> MYLITE_SQL_TOKEN_EOF" "yields lx' us"
      by auto
    from Cons less.prems(2) have within: "token_within sql t" "list_all (token_within sql) us" by simp_all
    show ?thesis
    proof (cases "saw_statement_terminator fl \<or> token_kind t = MYLITE_SQL_TOKEN_PARAMETER")
      case True
      with lx' have "normalize_loop db mem (Some s) sql lx fl = Some (MYLITE_ERROR, Some s, set_statement_digest_parse_error db sql t)"
        by (subst normalize_loop.simps) simp
      with True Cons less.prems(3) show ?thesis by (simp add: digests_def digest_words.simps(2))
    next
      case go: False
      show ?thesis unfolding Cons
      proof (cases "token_is_ascii_keyword sql t ''IN''")
        case True
        show "digests sql db s (t # us) (digest_words sql fl (t # us)) (normalize_loop db mem (Some s) sql lx fl)"
        proof (rule loop_in_list [OF lx' less.prems(3) go True])
          fix ws vs lx2 s2 mem2
          assume a: "after_in sql us = Some (ws, vs)" "yields lx2 vs" "string_ok s2"
          then have "length vs < length ts" "list_all (token_within sql) vs"
            using after_in_length [OF a(1)] after_in_set [OF a(1)] within(2) Cons by (auto simp: list_all_iff)
          then show "digests sql db s2 vs (digest_words sql fl vs) (normalize_loop db mem2 (Some s2) sql lx2 fl)"
            using less.hyps a(2,3) by blast
        qed
      next
        case False
        show "digests sql db s (t # us) (digest_words sql fl (t # us)) (normalize_loop db mem (Some s) sql lx fl)"
          by (rule loop_token [OF lx'(1,2) less.prems(3) within(1) go False]) (use less.hyps Cons lx'(3) within(2) in simp)
      qed
    qed
  qed
qed

section \<open>The digest text of a statement\<close>

definition statement_words :: "digest_connection \<Rightarrow> string \<Rightarrow> string list option" where
  "statement_words db sql = digest_words sql no_flags (significant_tokens sql (lexer_modes_for_database_session db))"

lemma normalized_sql:
  "\<exists>rc res db'. normalize_statement_digest_sql db mem (Some sql) (length sql) = Some (rc, res, db') \<and>
     (rc = MYLITE_OK \<and> db' = db \<and> (\<exists>b n ws. res = Some (b, n) \<and> statement_words db sql = Some ws \<and> take n b = joined ws \<and>
        n = length (joined ws) \<and> n < length b \<and> b ! n = CHR 0x00) \<or>
      rc = MYLITE_NOMEM \<and> res = None \<and> db' = db \<or>
      rc = MYLITE_MISUSE \<and> res = None \<and> db' = db \<and> statement_words db sql = None \<or>
      rc = MYLITE_ERROR \<and> res = None \<and> statement_words db sql = None \<and> (\<exists>t. db' = set_statement_digest_parse_error db sql t))"
proof -
  let ?lx = "mylite_sql_lexer_init (Some sql) (length sql) (lexer_modes_for_database_session db)"
  let ?out = "Some mylite_dynamic_string_init"
  let ?ts = "significant_tokens sql (lexer_modes_for_database_session db)"
  have "digests sql db mylite_dynamic_string_init ?ts (digest_words sql no_flags ?ts) (normalize_loop db mem ?out sql ?lx no_flags)"
    by (rule normalize_loop_digests [OF significant_tokens_yielded string_ok_init(1)])
  then obtain rc s' db' where r: "normalize_loop db mem ?out sql ?lx no_flags = Some (rc, Some s', db')" "string_ok s'"
    "rc = MYLITE_OK \<and> db' = db \<and> (\<exists>ws. statement_words db sql = Some ws \<and> content s' = joined ws) \<or>
     rc = MYLITE_NOMEM \<and> db' = db \<or> rc = MYLITE_MISUSE \<and> db' = db \<and> statement_words db sql = None \<or>
     rc = MYLITE_ERROR \<and> statement_words db sql = None \<and> (\<exists>t. db' = set_statement_digest_parse_error db sql t)"
    unfolding digests_def statement_words_def joined_def string_ok_init(2) by blast
  have run: "normalize_statement_digest_sql db mem (Some sql) (length sql) =
      (if rc \<noteq> MYLITE_OK then Some (rc, None, db')
       else case ds_text s' of None \<Rightarrow> Some (MYLITE_NOMEM, None, db') | Some b \<Rightarrow> Some (MYLITE_OK, Some (b, ds_length s'), db'))"
    using r(1) by (simp add: normalize_statement_digest_sql_def mylite_dynamic_string_take_def Let_def)
  have buffer: "take (ds_length s') b = content s' \<and> ds_length s' = length (content s') \<and> ds_length s' < length b \<and> b ! ds_length s' = CHR 0x00"
    if "ds_text s' = Some b" for b
    using r(2) that content_length [OF r(2)] by (auto simp: string_ok_def content_def)
  show ?thesis
  proof (cases "rc = MYLITE_OK")
    case True
    with run r(3) show ?thesis by (cases "ds_text s'") (use buffer in \<open>auto simp del: take_all_iff\<close>)
  qed (use run r(3) in auto)
qed

lemma validated_sql:
  "\<exists>rc db'. validate_statement_digest_sql parse db sql n = (rc, db') \<and>
     (rc = MYLITE_OK \<and> fst (parse sql n (lexer_modes_for_database_session db)) = MYLITE_SQL_PARSE_OK \<and> db' = db \<or>
      rc \<in> {MYLITE_NOMEM, MYLITE_MISUSE} \<and> fst (parse sql n (lexer_modes_for_database_session db)) \<noteq> MYLITE_SQL_PARSE_OK \<and> db' = db \<or>
      rc = MYLITE_ERROR \<and> fst (parse sql n (lexer_modes_for_database_session db)) \<noteq> MYLITE_SQL_PARSE_OK \<and>
        (\<exists>t. db' = set_statement_digest_parse_error db (case sql of None \<Rightarrow> [] | Some s \<Rightarrow> s) t))"
  by (cases "parse sql n (lexer_modes_for_database_session db)") (auto simp: validate_statement_digest_sql_def)

lemma digest_text_cases:
  "\<exists>rc res db'. mylite_statement_digest_text parse mem (Some db) (Some sql) (length sql) = Some (rc, res, Some db') \<and>
     (rc = MYLITE_OK \<and> fst (parse (Some sql) (length sql) (lexer_modes_for_database_session db)) = MYLITE_SQL_PARSE_OK \<and> db' = db \<and>
        (\<exists>b n ws. res = Some (b, n) \<and> statement_words db sql = Some ws \<and> take n b = joined ws \<and>
          n = length (joined ws) \<and> n < length b \<and> b ! n = CHR 0x00) \<or>
      rc = MYLITE_NOMEM \<and> res = None \<and> db' = db \<or>
      (rc = MYLITE_MISUSE \<and> db' = db \<or> rc = MYLITE_ERROR \<and> (\<exists>t. db' = set_statement_digest_parse_error db sql t)) \<and> res = None \<and>
        (fst (parse (Some sql) (length sql) (lexer_modes_for_database_session db)) \<noteq> MYLITE_SQL_PARSE_OK \<or> statement_words db sql = None))"
proof -
  obtain rc db' where v: "validate_statement_digest_sql parse db (Some sql) (length sql) = (rc, db')" by (rule prod.exhaust)
  note vf = validated_sql [of parse db "Some sql" "length sql"]
  show ?thesis
  proof (cases "rc = MYLITE_OK")
    case True
    with vf v have eq: "db' = db" "fst (parse (Some sql) (length sql) (lexer_modes_for_database_session db)) = MYLITE_SQL_PARSE_OK" by auto
    with v True have "mylite_statement_digest_text parse mem (Some db) (Some sql) (length sql) =
        map_option (\<lambda>(rc, res, db). (rc, res, Some db)) (normalize_statement_digest_sql db mem (Some sql) (length sql))"
      by (simp add: mylite_statement_digest_text_def)
    with normalized_sql [of db mem sql] eq(2) show ?thesis by (elim exE conjE disjE) auto
  next
    case False
    with v have "mylite_statement_digest_text parse mem (Some db) (Some sql) (length sql) = Some (rc, None, Some db')"
      by (simp add: mylite_statement_digest_text_def)
    with vf v False show ?thesis by auto
  qed
qed

lemma digest_text_words:
  assumes "mylite_statement_digest_text parse mem (Some db) (Some sql) (length sql) = Some (MYLITE_OK, Some (b, n), db')"
  shows "\<exists>ws. statement_words db sql = Some ws \<and> take n b = joined ws \<and> n = length (joined ws)"
  using digest_text_cases [of parse mem db sql] assms by auto

text \<open>
  Property C9. The digest text of a statement. Whatever the parser answers and whichever
  reallocations fail, the function returns. It succeeds only when the parser accepts the statement;
  the text is then the words of the significant tokens joined by spaces, with a NUL after it and
  its length beside it, and the diagnostics are as before. Otherwise there is no text; the
  diagnostics are changed by the parse error alone, and a failure other than exhausted memory
  means that the parser refused the statement or that it has no words (a second statement, a
  parameter, a token the lexer refuses, or a list after \<^verbatim>\<open>IN\<close> that is not closed).
\<close>

theorem statement_digest_text_outcome:
  "\<exists>rc res db'. mylite_statement_digest_text parse mem (Some db) (Some sql) (length sql) = Some (rc, res, Some db') \<and>
     (rc = MYLITE_OK \<and> fst (parse (Some sql) (length sql) (lexer_modes_for_database_session db)) = MYLITE_SQL_PARSE_OK \<and> db' = db \<and>
        (\<exists>b n ws. res = Some (b, n) \<and> statement_words db sql = Some ws \<and> take n b = joined ws \<and>
          n = length (joined ws) \<and> n < length b \<and> b ! n = CHR 0x00) \<or>
      rc = MYLITE_NOMEM \<and> res = None \<and> db' = db \<or>
      (rc = MYLITE_MISUSE \<and> db' = db \<or> rc = MYLITE_ERROR \<and> (\<exists>t. db' = set_statement_digest_parse_error db sql t)) \<and> res = None \<and>
        (fst (parse (Some sql) (length sql) (lexer_modes_for_database_session db)) \<noteq> MYLITE_SQL_PARSE_OK \<or> statement_words db sql = None))"
  by (rule digest_text_cases)

definition accepting_parser :: sql_parser where
  "accepting_parser sql n modes =
     (let lexer = mylite_sql_lexer_init sql n modes
      in (MYLITE_SQL_PARSE_OK, set_token lexer MYLITE_SQL_TOKEN_EOF (make_token_start lexer 0)))"

definition plain_connection :: digest_connection where
  "plain_connection = \<lparr>digest_diagnostics = None, session_sql_mode = None\<rparr>"

theorem statement_digest_text_outcome_witness:
  "\<exists>rc res. mylite_statement_digest_text accepting_parser [] (Some plain_connection) (Some ''select a in (1, 2)'') 18
      = Some (rc, res, Some plain_connection) \<and>
    (rc = MYLITE_OK \<and> (\<exists>b n. res = Some (b, n) \<and> take n b = ''SELECT '' @ [CHR 0x60, CHR ''a'', CHR 0x60] @ '' IN (...)'') \<or>
     rc = MYLITE_NOMEM \<and> res = None)"
proof -
  have words: "statement_words plain_connection ''select a in (1, 2)'' = Some [''SELECT'', [CHR 0x60, CHR ''a'', CHR 0x60], ''IN'', ''(...)'']"
    by code_simp
  have result: "joined [''SELECT'', [CHR 0x60, CHR ''a'', CHR 0x60], ''IN'', ''(...)''] =
      ''SELECT '' @ [CHR 0x60, CHR ''a'', CHR 0x60] @ '' IN (...)''" by code_simp
  have ok: "fst (accepting_parser (Some ''select a in (1, 2)'') 18 (lexer_modes_for_database_session plain_connection)) = MYLITE_SQL_PARSE_OK"
    by (simp add: accepting_parser_def Let_def)
  have n: "length ''select a in (1, 2)'' = 18" by simp
  from statement_digest_text_outcome [of accepting_parser "[]" plain_connection "''select a in (1, 2)''", unfolded words n]
  show ?thesis unfolding ok by (elim exE conjE disjE) (auto simp: result ok)
qed

section \<open>Literals\<close>

text \<open>
  Two tokens, each of its own statement, that are both literals, or that have the same kind, the
  same operator and the same bytes.
\<close>

definition alike :: "string \<Rightarrow> string \<Rightarrow> sql_token \<Rightarrow> sql_token \<Rightarrow> bool" where
  "alike sql sql' t t' \<longleftrightarrow>
     token_kind t \<in> literal_kinds \<and> token_kind t' \<in> literal_kinds \<or>
     token_kind t = token_kind t' \<and> token_operator t = token_operator t' \<and> token_length t = token_length t' \<and>
       token_bytes sql t = token_bytes sql' t'"

lemma alike_tests:
  assumes "alike sql sql' t t'"
  shows "token_is_ascii_keyword sql t w = token_is_ascii_keyword sql' t' w" "token_is_punctuation sql t c = token_is_punctuation sql' t' c"
    "token_kind t = MYLITE_SQL_TOKEN_PARAMETER \<longleftrightarrow> token_kind t' = MYLITE_SQL_TOKEN_PARAMETER"
    "token_words sql t = token_words sql' t'"
proof -
  have other: "k \<noteq> MYLITE_SQL_TOKEN_KEYWORD" "k \<noteq> MYLITE_SQL_TOKEN_PUNCTUATION" "k \<noteq> MYLITE_SQL_TOKEN_PARAMETER"
    if "k \<in> literal_kinds" for k using that by (auto simp: literal_kinds_def)
  note defs = token_is_ascii_keyword_def token_is_punctuation_def token_words_def identifier_word_def Let_def
  consider (literals) "token_kind t \<in> literal_kinds" "token_kind t' \<in> literal_kinds"
    | (same) "token_kind t = token_kind t'" "token_operator t = token_operator t'" "token_length t = token_length t'"
      "token_bytes sql t = token_bytes sql' t'"
    using assms by (auto simp: alike_def)
  note all = this
  show "token_is_ascii_keyword sql t w = token_is_ascii_keyword sql' t' w"
    using all by cases (simp_all only: token_is_ascii_keyword_def other simp_thms)
  show "token_is_punctuation sql t c = token_is_punctuation sql' t' c"
    using all by cases (simp_all only: token_is_punctuation_def other simp_thms)
  show "token_kind t = MYLITE_SQL_TOKEN_PARAMETER \<longleftrightarrow> token_kind t' = MYLITE_SQL_TOKEN_PARAMETER"
    using all by cases (simp_all only: other simp_thms)
  show "token_words sql t = token_words sql' t'"
    using all by cases (simp_all only: token_words_def identifier_word_def Let_def if_True)
qed

lemma alike_close_list:
  "list_all2 (alike sql sql') ts ts' \<Longrightarrow> rel_option (list_all2 (alike sql sql')) (close_list sql d ts) (close_list sql' d ts')"
proof (induction ts arbitrary: ts' d)
  case Nil
  then show ?case by (cases d) auto
next
  case (Cons t ts)
  then obtain t' us where us: "ts' = t' # us" "alike sql sql' t t'" "list_all2 (alike sql sql') ts us" by (auto simp: list_all2_Cons1)
  with Cons show ?case by (cases d) (simp_all add: alike_tests [OF us(2)])
qed

lemma alike_after_in:
  assumes "list_all2 (alike sql sql') ts ts'"
  shows "rel_option (rel_prod (=) (list_all2 (alike sql sql'))) (after_in sql ts) (after_in sql' ts')"
proof (cases ts)
  case (Cons t us)
  with assms obtain t' us' where us: "ts' = t' # us'" "alike sql sql' t t'" "list_all2 (alike sql sql') us us'" by (auto simp: list_all2_Cons1)
  have "us \<noteq> [] \<and> token_is_ascii_keyword sql (hd us) ''SELECT'' \<longleftrightarrow> us' \<noteq> [] \<and> token_is_ascii_keyword sql' (hd us') ''SELECT''"
    using us(3) by (cases us; cases us') (auto simp: alike_tests(1))
  moreover have "rel_option (rel_prod (=) (list_all2 (alike sql sql'))) (map_option (Pair [''(...)'']) (close_list sql 1 us))
      (map_option (Pair [''(...)'']) (close_list sql' 1 us'))"
    using alike_close_list [OF us(3), of 1] by (auto simp: option_rel_Some1 elim: option.rel_cases)
  ultimately show ?thesis unfolding Cons us(1) after_in.simps using us(2,3) alike_tests(2) [OF us(2)]
    by (cases "us \<noteq> [] \<and> token_is_ascii_keyword sql (hd us) ''SELECT''"; cases "token_is_punctuation sql t (CHR ''('')") auto
qed (use assms in simp)

lemma alike_digest_words:
  "list_all2 (alike sql sql') ts ts' \<Longrightarrow> digest_words sql fl ts = digest_words sql' fl ts'"
proof (induction sql fl ts arbitrary: ts' rule: digest_words.induct)
  case (2 sql fl t ts)
  then obtain t' us where us: "ts' = t' # us" "alike sql sql' t t'" "list_all2 (alike sql sql') ts us" by (auto simp: list_all2_Cons1)
  note same = alike_tests [OF us(2)]
  have flags: "update_flags sql t fl = update_flags sql' t' fl" by (simp add: update_flags_def same)
  show ?case
  proof (cases "saw_statement_terminator fl \<or> token_kind t = MYLITE_SQL_TOKEN_PARAMETER")
    case True
    then show ?thesis using us(1) by (simp add: digest_words.simps(2) same)
  next
    case go: False
    show ?thesis
    proof (cases "token_is_ascii_keyword sql t ''IN''")
      case True
      have "rel_option (rel_prod (=) (list_all2 (alike sql sql'))) (after_in sql ts) (after_in sql' us)"
        by (rule alike_after_in [OF us(3)])
      then show ?thesis using "2.IH"(1) [OF go True] go True us(1)
        by (cases "after_in sql ts"; cases "after_in sql' us") (auto simp: digest_words.simps(2) same)
    next
      case False
      let ?null = "token_is_ascii_keyword sql t ''NULL'' \<and> (previous_token_was_is fl \<or> previous_tokens_were_is_not fl)"
      define w where "w = (if ?null then Some [''NULL''] else token_words sql t)"
      have w': "w = (if token_is_ascii_keyword sql' t' ''NULL'' \<and> (previous_token_was_is fl \<or> previous_tokens_were_is_not fl)
        then Some [''NULL''] else token_words sql' t')" unfolding w_def same ..
      have "digest_words sql fl (t # ts) =
          (case w of None \<Rightarrow> None | Some ws \<Rightarrow> map_option (\<lambda>vs. ws @ vs) (digest_words sql (update_flags sql t fl) ts))"
        using go False by (simp add: digest_words.simps(2) w_def)
      moreover have "digest_words sql' fl ts' =
          (case w of None \<Rightarrow> None | Some ws \<Rightarrow> map_option (\<lambda>vs. ws @ vs) (digest_words sql' (update_flags sql' t' fl) us))"
        using go False us(1) unfolding w' by (simp add: digest_words.simps(2) same)
      ultimately show ?thesis unfolding flags [symmetric] using "2.IH"(2) [OF go False _ us(3)] by (cases w) (simp_all add: w_def)
    qed
  qed
qed simp

text \<open>
  Property C10. The values do not matter: when the tokens of two statements, comments aside,
  differ in literals only, and both have a digest text, the texts are the same.
\<close>

theorem statement_digest_ignores_literals:
  assumes "list_all2 (alike sql sql') (significant_tokens sql (lexer_modes_for_database_session db))
      (significant_tokens sql' (lexer_modes_for_database_session db))"
    and "mylite_statement_digest_text parse mem (Some db) (Some sql) (length sql) = Some (MYLITE_OK, Some (b, n), db1)"
    and "mylite_statement_digest_text parse mem' (Some db) (Some sql') (length sql') = Some (MYLITE_OK, Some (b', n'), db1')"
  shows "n = n' \<and> take n b = take n' b'"
proof -
  have words: "statement_words db sql = statement_words db sql'" unfolding statement_words_def by (rule alike_digest_words [OF assms(1)])
  obtain ws where "statement_words db sql = Some ws" "take n b = joined ws" "n = length (joined ws)"
    using digest_text_words [OF assms(2)] by auto
  moreover obtain ws' where "statement_words db sql' = Some ws'" "take n' b' = joined ws'" "n' = length (joined ws')"
    using digest_text_words [OF assms(3)] by auto
  ultimately show ?thesis using words by simp
qed

text \<open>A statement of one literal, with memory.\<close>

lemma first_word: "\<exists>s. append_output_token [] (Some mylite_dynamic_string_init) ''?'' = (MYLITE_OK, Some s, []) \<and> ds_text s \<noteq> None"
  by (simp add: append_output_token_def append_output_token_bytes_def append_space_def mylite_dynamic_string_init_def output_bytes_def
    mylite_dynamic_string_append_bytes_def mylite_dynamic_string_reserve_def grow_capacity.simps put_bytes_def SIZE_MAX_def)

lemma single_literal_run:
  assumes "significant_tokens sql (lexer_modes_for_database_session plain_connection) = [t]" "token_kind t \<in> literal_kinds"
  shows "\<exists>b n. mylite_statement_digest_text accepting_parser [] (Some plain_connection) (Some sql) (length sql) =
    Some (MYLITE_OK, Some (b, n), Some plain_connection)"
proof -
  let ?lx = "mylite_sql_lexer_init (Some sql) (length sql) (lexer_modes_for_database_session plain_connection)"
  obtain s where s: "append_output_token [] (Some mylite_dynamic_string_init) ''?'' = (MYLITE_OK, Some s, [])" "ds_text s \<noteq> None"
    using first_word by blast
  have kind: "token_kind t \<noteq> MYLITE_SQL_TOKEN_PARAMETER" "token_kind t \<noteq> MYLITE_SQL_TOKEN_KEYWORD"
    using assms(2) by (auto simp: literal_kinds_def)
  have "append_normalized_token [] (Some mylite_dynamic_string_init) sql t = append_output_token [] (Some mylite_dynamic_string_init) ''?''"
    using assms(2) by (auto simp: literal_kinds_def append_normalized_token_def)
  with s(1) have app: "append_normalized_token [] (Some mylite_dynamic_string_init) sql t = (MYLITE_OK, Some s, [])" by simp
  from significant_tokens_yielded(1) [of sql "lexer_modes_for_database_session plain_connection"] assms(1)
  obtain lx1 lx2 t2 where lx: "next_significant_token ?lx = Some (lx1, t)" "token_kind t \<noteq> MYLITE_SQL_TOKEN_EOF"
    "next_significant_token lx1 = Some (lx2, t2)" "token_kind t2 = MYLITE_SQL_TOKEN_EOF" by auto
  have "normalize_loop db [] (Some mylite_dynamic_string_init) sql ?lx no_flags = normalize_loop db [] (Some s) sql lx1 (update_flags sql t no_flags)" for db
    using normalize_loop_step(2) [OF lx(1,2) _ kind(1), of no_flags sql "[]" "Some mylite_dynamic_string_init"] app kind(2)
    by (simp add: no_flags_def token_is_ascii_keyword_def)
  moreover have "normalize_loop db [] (Some s) sql lx1 fl = Some (MYLITE_OK, Some s, db)" for db fl
    using lx(3,4) by (subst normalize_loop.simps) simp
  ultimately have "normalize_statement_digest_sql plain_connection [] (Some sql) (length sql) =
      Some (MYLITE_OK, Some (the (ds_text s), ds_length s), plain_connection)"
    using s(2) by (auto simp: normalize_statement_digest_sql_def mylite_dynamic_string_take_def Let_def)
  then show ?thesis
    by (simp add: mylite_statement_digest_text_def validate_statement_digest_sql_def accepting_parser_def Let_def)
qed

theorem statement_digest_ignores_literals_witness:
  "\<exists>b n b' n' db1 db1'. mylite_statement_digest_text accepting_parser [] (Some plain_connection) (Some ''1'') (length ''1'') = Some (MYLITE_OK, Some (b, n), db1) \<and>
     mylite_statement_digest_text accepting_parser [] (Some plain_connection) (Some ''0x2f'') (length ''0x2f'') = Some (MYLITE_OK, Some (b', n'), db1') \<and>
     n = n' \<and> take n b = take n' b'"
proof -
  let ?m = "lexer_modes_for_database_session plain_connection"
  have one: "map token_kind (significant_tokens ''1'' ?m) = [MYLITE_SQL_TOKEN_INTEGER]" by code_simp
  have two: "map token_kind (significant_tokens ''0x2f'' ?m) = [MYLITE_SQL_TOKEN_HEX_LITERAL]" by code_simp
  from one obtain t where t: "significant_tokens ''1'' ?m = [t]" "token_kind t \<in> literal_kinds" by (auto simp: literal_kinds_def)
  from two obtain t' where t': "significant_tokens ''0x2f'' ?m = [t']" "token_kind t' \<in> literal_kinds" by (auto simp: literal_kinds_def)
  have like: "list_all2 (alike ''1'' ''0x2f'') (significant_tokens ''1'' ?m) (significant_tokens ''0x2f'' ?m)" using t t' by (simp add: alike_def)
  obtain b n where r: "mylite_statement_digest_text accepting_parser [] (Some plain_connection) (Some ''1'') (length ''1'') =
    Some (MYLITE_OK, Some (b, n), Some plain_connection)" using single_literal_run [OF t] by blast
  obtain b' n' where r': "mylite_statement_digest_text accepting_parser [] (Some plain_connection) (Some ''0x2f'') (length ''0x2f'') =
    Some (MYLITE_OK, Some (b', n'), Some plain_connection)" using single_literal_run [OF t'] by blast
  from statement_digest_ignores_literals [OF like r r'] r r' show ?thesis by blast
qed

end
