(* ===== verification/Json_Validate.thy ===== *)
theory Json_Validate
  imports MyLite_Prelude
begin

text \<open>
  The JSON validator, \<^verbatim>\<open>runtime/mylite_json_validate.c\<close> with the reader of
  \<^verbatim>\<open>runtime/mylite_json_dom.c\<close> it uses: a machine with an explicit stack of states instead of
  recursion. A step returns whether the text is still valid and the new state; after a failure
  the state is not used. The parser has further members for error messages, which validation
  does not touch.
\<close>

section \<open>The reader\<close>

record json_parser =
  parser_text :: string
  parser_length :: nat
  parser_position :: nat

definition parser_at_end :: "json_parser \<Rightarrow> bool" where
  "parser_at_end p \<longleftrightarrow> parser_position p \<ge> parser_length p"

definition parser_peek :: "json_parser \<Rightarrow> char" where
  "parser_peek p = (if parser_at_end p then CHR 0x00 else parser_text p ! parser_position p)"

definition parser_next :: "json_parser \<Rightarrow> json_parser" where
  "parser_next p = p\<lparr>parser_position := parser_position p + 1\<rparr>"

definition parser_match :: "json_parser \<Rightarrow> char \<Rightarrow> bool \<times> json_parser" where
  "parser_match p expected =
     (if parser_at_end p \<or> parser_text p ! parser_position p \<noteq> expected then (False, p) else (True, parser_next p))"

definition json_space :: "char \<Rightarrow> bool" where
  "json_space c \<longleftrightarrow> c = CHR '' '' \<or> c = CHR 0x09 \<or> c = CHR 0x0A \<or> c = CHR 0x0D"

function skip_json_whitespace :: "json_parser \<Rightarrow> json_parser" where
  "skip_json_whitespace p =
     (if parser_at_end p \<or> \<not> json_space (parser_peek p) then p else skip_json_whitespace (parser_next p))"
  by auto
termination
  by (relation "measure (\<lambda>p. parser_length p - parser_position p)") (auto simp: parser_at_end_def parser_next_def)

declare skip_json_whitespace.simps [simp del]

definition is_decimal_digit :: "char \<Rightarrow> bool" where
  "is_decimal_digit c \<longleftrightarrow> (48::nat) \<le> of_char c \<and> of_char c \<le> (57::nat)"

definition is_hex_digit :: "char \<Rightarrow> bool" where
  "is_hex_digit c \<longleftrightarrow> (48::nat) \<le> of_char c \<and> of_char c \<le> (57::nat) \<or> (65::nat) \<le> of_char c \<and> of_char c \<le> (70::nat) \<or>
     (97::nat) \<le> of_char c \<and> of_char c \<le> (102::nat)"

section \<open>Strings\<close>

fun unicode_escape_loop :: "json_parser \<Rightarrow> nat \<Rightarrow> bool \<times> json_parser" where
  "unicode_escape_loop p 0 = (True, p)"
| "unicode_escape_loop p (Suc n) =
     (if parser_at_end p \<or> \<not> is_hex_digit (parser_peek p) then (False, p) else unicode_escape_loop (parser_next p) n)"

definition validate_string_escape :: "json_parser \<Rightarrow> bool \<times> json_parser" where
  "validate_string_escape p =
     (if parser_at_end p then (False, p)
      else
        let byte = parser_peek p; p = parser_next p
        in if byte \<in> {CHR 0x22, CHR 0x5C, CHR ''/'', CHR ''b'', CHR ''f'', CHR ''n'', CHR ''r'', CHR ''t''} then (True, p)
           else if byte = CHR ''u'' then unicode_escape_loop p 4
           else (False, p))"

partial_function (option) validate_string_loop :: "json_parser \<Rightarrow> (bool \<times> json_parser) option" where
  "validate_string_loop p =
     (if parser_at_end p then Some (False, p)
      else
        let byte = parser_peek p; p = parser_next p
        in if byte = CHR 0x22 then Some (True, p)
           else if byte = CHR 0x5C then
             (let (ok, p) = validate_string_escape p in if \<not> ok then Some (False, p) else validate_string_loop p)
           else if of_char byte < (32::nat) then Some (False, p)
           else validate_string_loop p)"

definition validate_string :: "json_parser \<Rightarrow> (bool \<times> json_parser) option" where
  "validate_string p =
     (let (ok, p) = parser_match p (CHR 0x22) in if \<not> ok then Some (False, p) else validate_string_loop p)"

section \<open>Numbers and literals\<close>

function digits_loop :: "json_parser \<Rightarrow> json_parser" where
  "digits_loop p = (if is_decimal_digit (parser_peek p) then digits_loop (parser_next p) else p)"
  by auto
termination
proof (relation "measure (\<lambda>p. parser_length p - parser_position p)")
  fix p assume "is_decimal_digit (parser_peek p)"
  then have "\<not> parser_at_end p" by (auto simp: parser_peek_def is_decimal_digit_def)
  then show "(parser_next p, p) \<in> measure (\<lambda>p. parser_length p - parser_position p)"
    by (simp add: parser_at_end_def parser_next_def)
qed simp

declare digits_loop.simps [simp del]

definition validate_integer_digits :: "json_parser \<Rightarrow> bool \<times> json_parser" where
  "validate_integer_digits p =
     (let byte = parser_peek p
      in if byte = CHR ''0'' then (True, parser_next p)
         else if of_char byte < (49::nat) \<or> of_char byte > (57::nat) then (False, p)
         else (True, digits_loop (parser_next p)))"

definition validate_fraction_digits :: "json_parser \<Rightarrow> bool \<times> json_parser" where
  "validate_fraction_digits p =
     (let (ok, p) = parser_match p (CHR ''.'')
      in if \<not> ok then (False, p)
         else if \<not> is_decimal_digit (parser_peek p) then (False, p)
         else (True, digits_loop (parser_next p)))"

definition validate_exponent_digits :: "json_parser \<Rightarrow> bool \<times> json_parser" where
  "validate_exponent_digits p =
     (if parser_peek p \<noteq> CHR ''e'' \<and> parser_peek p \<noteq> CHR ''E'' then (False, p)
      else
        let p = parser_next p;
            p = (if parser_peek p = CHR ''+'' \<or> parser_peek p = CHR ''-'' then parser_next p else p)
        in if \<not> is_decimal_digit (parser_peek p) then (False, p) else (True, digits_loop (parser_next p)))"

definition validate_number :: "json_parser \<Rightarrow> bool \<times> json_parser" where
  "validate_number p =
     (let (minus, p) = parser_match p (CHR ''-'')
      in if minus \<and> parser_at_end p then (False, p)
         else
           let (ok, p) = validate_integer_digits p
           in if \<not> ok then (False, p)
              else
                let (ok, p) = (if parser_peek p = CHR ''.'' then validate_fraction_digits p else (True, p))
                in if \<not> ok then (False, p)
                   else if parser_peek p = CHR ''e'' \<or> parser_peek p = CHR ''E'' then validate_exponent_digits p
                   else (True, p))"

definition validate_literal_token :: "json_parser \<Rightarrow> string \<Rightarrow> nat \<Rightarrow> bool \<times> json_parser" where
  "validate_literal_token p literal n =
     (if parser_position p > parser_length p \<or> n > parser_length p - parser_position p then (False, p)
      else if \<not> mem_equal (drop (parser_position p) (parser_text p)) literal n then (False, p)
      else (True, p\<lparr>parser_position := parser_position p + n\<rparr>))"

section \<open>The machine\<close>

datatype json_validate_state =
    JSON_VALIDATE_VALUE
  | JSON_VALIDATE_OBJECT_KEY_OR_END
  | JSON_VALIDATE_OBJECT_KEY_REQUIRED
  | JSON_VALIDATE_OBJECT_COLON
  | JSON_VALIDATE_OBJECT_COMMA_OR_END
  | JSON_VALIDATE_ARRAY_VALUE_OR_END
  | JSON_VALIDATE_ARRAY_VALUE_REQUIRED
  | JSON_VALIDATE_ARRAY_COMMA_OR_END

text \<open>The stack is a list, the top first; its length is the count.\<close>

type_synonym json_validate_stack = "json_validate_state list"

abbreviation (input) json_max_nesting_depth :: nat where "json_max_nesting_depth \<equiv> 100"

definition validate_stack_push :: "json_validate_stack \<Rightarrow> json_validate_state \<Rightarrow> bool \<times> json_validate_stack" where
  "validate_stack_push stack state =
     (if length stack \<ge> json_max_nesting_depth + 2 then (False, stack) else (True, state # stack))"

definition validate_container_depth_available :: "json_validate_stack \<Rightarrow> bool" where
  "validate_container_depth_available stack \<longleftrightarrow> length stack < json_max_nesting_depth"

type_synonym json_step = "bool \<times> json_parser \<times> json_validate_stack"

definition push_step :: "json_parser \<Rightarrow> json_validate_stack \<Rightarrow> json_validate_state \<Rightarrow> json_step" where
  "push_step p stack state = (let (ok, stack) = validate_stack_push stack state in (ok, p, stack))"

definition open_container :: "json_parser \<Rightarrow> json_validate_stack \<Rightarrow> char \<Rightarrow> json_validate_state \<Rightarrow> json_step" where
  "open_container p stack bracket state =
     (if \<not> validate_container_depth_available stack then (False, p, stack)
      else let (ok, p) = parser_match p bracket in if \<not> ok then (False, p, stack) else push_step p stack state)"

definition validate_value_state :: "json_parser \<Rightarrow> json_validate_stack \<Rightarrow> json_step option" where
  "validate_value_state p stack =
     (let p = skip_json_whitespace p; byte = parser_peek p; keep = (\<lambda>(ok, p). (ok, p, stack))
      in if byte = CHR ''{'' then Some (open_container p stack (CHR ''{'') JSON_VALIDATE_OBJECT_KEY_OR_END)
         else if byte = CHR ''['' then Some (open_container p stack (CHR ''['') JSON_VALIDATE_ARRAY_VALUE_OR_END)
         else if byte = CHR 0x22 then map_option keep (validate_string p)
         else if byte = CHR ''t'' then Some (keep (validate_literal_token p ''true'' 4))
         else if byte = CHR ''f'' then Some (keep (validate_literal_token p ''false'' 5))
         else if byte = CHR ''n'' then Some (keep (validate_literal_token p ''null'' 4))
         else if byte = CHR ''-'' then Some (keep (validate_number p))
         else if (48::nat) \<le> of_char byte \<and> of_char byte \<le> (57::nat) then Some (keep (validate_number p))
         else Some (False, p, stack))"

definition validate_object_key_or_end_state :: "json_parser \<Rightarrow> bool \<times> json_parser" where
  "validate_object_key_or_end_state p = parser_match (skip_json_whitespace p) (CHR ''}'')"

definition validate_object_key_required_state :: "json_parser \<Rightarrow> json_validate_stack \<Rightarrow> json_step option" where
  "validate_object_key_required_state p stack =
     map_option (\<lambda>(ok, p). if \<not> ok then (False, p, stack) else push_step p stack JSON_VALIDATE_OBJECT_COLON)
       (validate_string (skip_json_whitespace p))"

definition validate_object_colon_state :: "json_parser \<Rightarrow> json_validate_stack \<Rightarrow> json_step" where
  "validate_object_colon_state p stack =
     (let (ok, p) = parser_match (skip_json_whitespace p) (CHR '':'')
      in if \<not> ok then (False, p, stack)
         else let (ok, stack) = validate_stack_push stack JSON_VALIDATE_OBJECT_COMMA_OR_END
              in if \<not> ok then (False, p, stack) else push_step p stack JSON_VALIDATE_VALUE)"

definition validate_object_comma_or_end_state :: "json_parser \<Rightarrow> json_validate_stack \<Rightarrow> json_step" where
  "validate_object_comma_or_end_state p stack =
     (let (ok, p) = parser_match (skip_json_whitespace p) (CHR ''}'')
      in if ok then (True, p, stack)
         else let (ok, p) = parser_match p (CHR '','')
              in if \<not> ok then (False, p, stack) else push_step p stack JSON_VALIDATE_OBJECT_KEY_REQUIRED)"

definition validate_array_value_required_state :: "json_parser \<Rightarrow> json_validate_stack \<Rightarrow> json_step" where
  "validate_array_value_required_state p stack =
     (let (ok, stack) = validate_stack_push stack JSON_VALIDATE_ARRAY_COMMA_OR_END
      in if \<not> ok then (False, p, stack) else push_step p stack JSON_VALIDATE_VALUE)"

definition validate_array_value_or_end_state :: "json_parser \<Rightarrow> json_validate_stack \<Rightarrow> json_step" where
  "validate_array_value_or_end_state p stack =
     (let (ok, p) = parser_match (skip_json_whitespace p) (CHR '']'')
      in if ok then (True, p, stack) else validate_array_value_required_state p stack)"

definition validate_array_comma_or_end_state :: "json_parser \<Rightarrow> json_validate_stack \<Rightarrow> json_step" where
  "validate_array_comma_or_end_state p stack =
     (let (ok, p) = parser_match (skip_json_whitespace p) (CHR '']'')
      in if ok then (True, p, stack)
         else let (ok, p) = parser_match p (CHR '','')
              in if \<not> ok then (False, p, stack) else push_step p stack JSON_VALIDATE_ARRAY_VALUE_REQUIRED)"

fun validate_state :: "json_parser \<Rightarrow> json_validate_stack \<Rightarrow> json_validate_state \<Rightarrow> json_step option" where
  "validate_state p stack JSON_VALIDATE_VALUE = validate_value_state p stack"
| "validate_state p stack JSON_VALIDATE_OBJECT_KEY_OR_END =
     (let (ok, p) = validate_object_key_or_end_state p
      in if ok then Some (True, p, stack) else validate_object_key_required_state p stack)"
| "validate_state p stack JSON_VALIDATE_OBJECT_KEY_REQUIRED = validate_object_key_required_state p stack"
| "validate_state p stack JSON_VALIDATE_OBJECT_COLON = Some (validate_object_colon_state p stack)"
| "validate_state p stack JSON_VALIDATE_OBJECT_COMMA_OR_END = Some (validate_object_comma_or_end_state p stack)"
| "validate_state p stack JSON_VALIDATE_ARRAY_VALUE_OR_END = Some (validate_array_value_or_end_state p stack)"
| "validate_state p stack JSON_VALIDATE_ARRAY_VALUE_REQUIRED = Some (validate_array_value_required_state p stack)"
| "validate_state p stack JSON_VALIDATE_ARRAY_COMMA_OR_END = Some (validate_array_comma_or_end_state p stack)"

partial_function (option) validate_loop :: "json_parser \<Rightarrow> json_validate_stack \<Rightarrow> (bool \<times> json_parser) option" where
  "validate_loop p stack =
     (case stack of
        [] \<Rightarrow> Some (True, p)
      | state # stack \<Rightarrow>
          (case validate_state p stack state of
             None \<Rightarrow> None
           | Some (ok, p, stack) \<Rightarrow> if \<not> ok then Some (False, p) else validate_loop p stack))"

definition validate_document :: "json_parser \<Rightarrow> bool option" where
  "validate_document p =
     (let (ok, stack) = validate_stack_push [] JSON_VALIDATE_VALUE
      in if \<not> ok then Some False
         else map_option (\<lambda>(ok, p). ok \<and> parser_at_end (skip_json_whitespace p)) (validate_loop p stack))"

text \<open>The status and whether the text is valid.\<close>

definition mylite_json_validate :: "string option \<Rightarrow> nat \<Rightarrow> (int \<times> bool) option" where
  "mylite_json_validate txt text_length =
     (case txt of
        None \<Rightarrow> Some (MYLITE_ERROR, False)
      | Some t \<Rightarrow>
          map_option (Pair MYLITE_OK)
            (validate_document \<lparr>parser_text = t, parser_length = text_length, parser_position = 0\<rparr>))"

declare validate_string_loop.simps [code]

declare validate_loop.simps [code]

end
