(* ===== verification/Json_Machine.thy ===== *)
theory Json_Machine
  imports Json_Grammar
begin

text \<open>
  The machine of the JSON validator against the grammar. Every state has a language, the texts
  that may follow when it is on top of the stack; a step of the machine keeps the language of
  the whole stack, so that the text is accepted at the end just when it is in the language of
  the start.
\<close>

section \<open>First characters\<close>

lemma string_head: "json_string u \<Longrightarrow> starts (\<lambda>c. c = CHR 0x22) u"
  by (auto simp: json_string_def)

lemma number_head: "json_number u \<Longrightarrow> starts (\<lambda>c. c = CHR ''-'' \<or> is_decimal_digit c) u"
proof -
  assume "json_number u"
  then obtain m i x where "u = m @ i @ x" "m \<in> {[], ''-''}" "json_integer i" by (auto simp: json_number_def)
  moreover have "starts is_decimal_digit i" using calculation(3) by (cases i) (auto simp: json_integer_def json_digits_def is_decimal_digit_def)
  ultimately show ?thesis by (cases i) auto
qed

section \<open>Languages\<close>

definition sq :: "(string \<Rightarrow> bool) \<Rightarrow> (string \<Rightarrow> bool) \<Rightarrow> string \<Rightarrow> bool" where
  "sq L M w \<longleftrightarrow> (\<exists>u v. w = u @ v \<and> L u \<and> M v)"

definition one :: "char \<Rightarrow> string \<Rightarrow> bool" where
  "one c w \<longleftrightarrow> w = [c]"

definition alt :: "(string \<Rightarrow> bool) \<Rightarrow> (string \<Rightarrow> bool) \<Rightarrow> string \<Rightarrow> bool" where
  "alt L M w \<longleftrightarrow> L w \<or> M w"

lemma sqI: "L u \<Longrightarrow> M v \<Longrightarrow> sq L M (u @ v)"
  by (auto simp: sq_def)

lemma sqE:
  assumes "sq L M w"
  obtains u v where "w = u @ v" "L u" "M v"
  using assms by (auto simp: sq_def)

lemma sq_assoc: "sq (sq L M) N = sq L (sq M N)"
proof (rule ext, rule iffI)
  fix w assume "sq (sq L M) N w"
  then obtain a b c where "w = (a @ b) @ c" "L a" "M b" "N c" by (auto elim!: sqE)
  then show "sq L (sq M N) w" by (auto intro: sqI)
next
  fix w assume "sq L (sq M N) w"
  then obtain a b c where w: "w = a @ b @ c" "L a" "M b" "N c" by (auto elim!: sqE)
  then have "sq (sq L M) N ((a @ b) @ c)" by (intro sqI)
  with w(1) show "sq (sq L M) N w" by simp
qed

lemma sq_alt: "sq (alt L M) N w \<longleftrightarrow> sq L N w \<or> sq M N w"
  by (auto simp: sq_def alt_def)

lemma sq_one: "sq (one c) M w \<longleftrightarrow> starts (\<lambda>x. x = c) w \<and> M (tl w)"
  by (cases w) (auto simp: sq_def one_def)

lemma starts_append: "starts P u \<Longrightarrow> starts P (u @ v)"
  by (auto simp: starts_def)

lemma sq_head: "sq L M w \<Longrightarrow> (\<And>u. L u \<Longrightarrow> starts P u) \<Longrightarrow> starts P w"
  by (auto elim!: sqE simp: starts_append)

lemma starts_weaken: "starts P w \<Longrightarrow> (\<And>c. P c \<Longrightarrow> Q c) \<Longrightarrow> starts Q w"
  by (auto simp: starts_def)

section \<open>The languages of the states\<close>

abbreviation closing :: "char \<Rightarrow> (string \<Rightarrow> bool) \<Rightarrow> string \<Rightarrow> bool" where
  "closing c M \<equiv> sq M (one c)"

definition container_tail :: "char \<Rightarrow> (string \<Rightarrow> bool) \<Rightarrow> string \<Rightarrow> bool" where
  "container_tail c M = alt (one c) (sq (one (CHR '','')) (sq json_spaces (closing c M)))"

fun state_language :: "json_validate_state \<Rightarrow> nat \<Rightarrow> string \<Rightarrow> bool" where
  "state_language JSON_VALIDATE_VALUE d = json_value d"
| "state_language JSON_VALIDATE_OBJECT_KEY_OR_END d = alt (one (CHR ''}'')) (closing (CHR ''}'') (json_members d))"
| "state_language JSON_VALIDATE_OBJECT_KEY_REQUIRED d = closing (CHR ''}'') (json_members d)"
| "state_language JSON_VALIDATE_OBJECT_COLON d =
     sq (one (CHR '':'')) (sq json_spaces (sq (json_value d) (sq json_spaces (container_tail (CHR ''}'') (json_members d)))))"
| "state_language JSON_VALIDATE_OBJECT_COMMA_OR_END d = container_tail (CHR ''}'') (json_members d)"
| "state_language JSON_VALIDATE_ARRAY_VALUE_OR_END d = alt (one (CHR '']'')) (closing (CHR '']'') (json_elements d))"
| "state_language JSON_VALIDATE_ARRAY_VALUE_REQUIRED d = closing (CHR '']'') (json_elements d)"
| "state_language JSON_VALIDATE_ARRAY_COMMA_OR_END d = container_tail (CHR '']'') (json_elements d)"

text \<open>The productions, as equations between languages.\<close>

lemma array_production: "sq (one (CHR ''['')) (sq json_spaces (state_language JSON_VALIDATE_ARRAY_VALUE_OR_END d)) u \<Longrightarrow> json_value (Suc d) u"
  using empty_array array_of by (auto elim!: sqE simp: alt_def one_def)

lemma object_production: "sq (one (CHR ''{'')) (sq json_spaces (state_language JSON_VALIDATE_OBJECT_KEY_OR_END d)) u \<Longrightarrow> json_value (Suc d) u"
  using empty_object object_of by (auto elim!: sqE simp: alt_def one_def)

lemma value_inversion:
  assumes "json_value d u"
  obtains "json_string u" | "json_number u" | "u \<in> {''true'', ''false'', ''null''}"
  | d' where "d = Suc d'" "sq (one (CHR ''['')) (sq json_spaces (state_language JSON_VALIDATE_ARRAY_VALUE_OR_END d')) u"
  | d' where "d = Suc d'" "sq (one (CHR ''{'')) (sq json_spaces (state_language JSON_VALIDATE_OBJECT_KEY_OR_END d')) u"
  using assms
proof (cases rule: json_value.cases)
  case (empty_array s d')
  have "sq json_spaces (state_language JSON_VALIDATE_ARRAY_VALUE_OR_END d') (s @ '']'')"
    by (rule sqI) (use empty_array in \<open>simp_all add: alt_def one_def\<close>)
  with empty_array that(4) show thesis by (simp add: sq_one)
next
  case (array_of s d' w)
  have "sq json_spaces (state_language JSON_VALIDATE_ARRAY_VALUE_OR_END d') (s @ w @ '']'')"
    by (rule sqI) (use array_of sqI [of "json_elements d'" w "one (CHR '']'')" "'']''"] in \<open>simp_all add: alt_def one_def\<close>)
  with array_of that(4) show thesis by (simp add: sq_one)
next
  case (empty_object s d')
  have "sq json_spaces (state_language JSON_VALIDATE_OBJECT_KEY_OR_END d') (s @ ''}'')"
    by (rule sqI) (use empty_object in \<open>simp_all add: alt_def one_def\<close>)
  with empty_object that(5) show thesis by (simp add: sq_one)
next
  case (object_of s d' w)
  have "sq json_spaces (state_language JSON_VALIDATE_OBJECT_KEY_OR_END d') (s @ w @ ''}'')"
    by (rule sqI) (use object_of sqI [of "json_members d'" w "one (CHR ''}'')" "''}''"] in \<open>simp_all add: alt_def one_def\<close>)
  with object_of that(5) show thesis by (simp add: sq_one)
qed (use that(1-3) in blast)+

lemma value_head:
  assumes "json_value d u"
  shows "starts (\<lambda>c. c \<in> {CHR 0x22, CHR ''-'', CHR ''t'', CHR ''f'', CHR ''n'', CHR ''['', CHR ''{''} \<or> is_decimal_digit c) u"
  using assms
proof (cases rule: value_inversion)
  case 1
  from string_head [OF this] show ?thesis by (rule starts_weaken) simp
next
  case 2
  from number_head [OF this] show ?thesis by (rule starts_weaken) auto
qed (auto simp: sq_one elim: starts_weaken)

lemma elements_unfold:
  "json_elements d = alt (sq (json_value d) json_spaces)
     (sq (json_value d) (sq json_spaces (sq (one (CHR '','')) (sq json_spaces (json_elements d)))))" (is "_ = alt ?L ?M")
proof (rule ext, rule iffI)
  fix w assume "json_elements d w"
  then show "alt ?L ?M w"
  proof (cases rule: json_elements.cases)
    case (last_element v s)
    then show ?thesis by (simp add: alt_def sqI)
  next
    case (more_elements v s s' w')
    then have "sq (one (CHR '','')) (sq json_spaces (json_elements d)) ('','' @ s' @ w')" by (intro sqI) (simp_all add: one_def)
    with more_elements have "?M w" by (simp add: sqI)
    then show ?thesis by (simp add: alt_def)
  qed
next
  fix w assume "alt ?L ?M w"
  then show "json_elements d w"
    using last_element more_elements by (auto elim!: sqE simp: alt_def one_def)
qed

lemma members_unfold:
  "json_members d = alt (sq json_string (sq json_spaces (sq (one (CHR '':'')) (sq json_spaces (sq (json_value d) json_spaces)))))
     (sq json_string (sq json_spaces (sq (one (CHR '':'')) (sq json_spaces (sq (json_value d)
        (sq json_spaces (sq (one (CHR '','')) (sq json_spaces (json_members d)))))))))" (is "_ = alt ?L ?M")
proof (rule ext, rule iffI)
  fix w assume "json_members d w"
  then show "alt ?L ?M w"
  proof (cases rule: json_members.cases)
    case (last_member k s s' v s'')
    then have "sq (one (CHR '':'')) (sq json_spaces (sq (json_value d) json_spaces)) ('':'' @ s' @ v @ s'')"
      by (intro sqI) (simp_all add: one_def)
    with last_member have "?L w" by (simp add: sqI)
    then show ?thesis by (simp add: alt_def)
  next
    case (more_members k s s' v s'' s3 w')
    then have "sq (one (CHR '','')) (sq json_spaces (json_members d)) ('','' @ s3 @ w')" by (intro sqI) (simp_all add: one_def)
    with more_members have "sq (one (CHR '':'')) (sq json_spaces (sq (json_value d)
        (sq json_spaces (sq (one (CHR '','')) (sq json_spaces (json_members d)))))) ('':'' @ s' @ v @ s'' @ '','' @ s3 @ w')"
      by (intro sqI) (simp_all add: one_def)
    with more_members have "?M w" by (simp add: sqI)
    then show ?thesis by (simp add: alt_def)
  qed
next
  fix w assume "alt ?L ?M w"
  then show "json_members d w"
    using last_member more_members by (auto elim!: sqE simp: alt_def one_def)
qed

lemma sq_alt_right: "sq L (alt M N) = alt (sq L M) (sq L N)"
  by (rule ext) (auto simp: sq_def alt_def)

lemma sq_alt_left: "sq (alt L M) N = alt (sq L N) (sq M N)"
  by (rule ext) (auto simp: sq_def alt_def)

lemmas sq_algebra = sq_assoc sq_alt_left sq_alt_right

lemma closing_elements:
  "closing (CHR '']'') (json_elements d) = sq (json_value d) (sq json_spaces (container_tail (CHR '']'') (json_elements d)))"
  by (subst elements_unfold) (simp add: sq_algebra container_tail_def)

lemma closing_members:
  "closing (CHR ''}'') (json_members d) = sq json_string (sq json_spaces (state_language JSON_VALIDATE_OBJECT_COLON d))"
  by (subst members_unfold) (simp add: sq_algebra container_tail_def)

lemma closing_members_head: "closing (CHR ''}'') (json_members d) v \<Longrightarrow> starts (\<lambda>c. c = CHR 0x22) v"
  unfolding closing_members by (erule sq_head) (rule string_head)

lemma closing_elements_head: "closing (CHR '']'') (json_elements d) v \<Longrightarrow> starts (\<lambda>c. \<not> json_space c \<and> c \<noteq> CHR '']'') v"
  unfolding closing_elements
  by (erule sq_head, drule value_head, erule starts_weaken) (auto simp: json_space_def is_decimal_digit_def)

lemma tail_head: "container_tail c M v \<Longrightarrow> starts (\<lambda>x. x = c \<or> x = CHR '','') v"
  unfolding container_tail_def alt_def sq_one by (auto simp: one_def elim: starts_weaken)

lemma language_head: "state_language s d u \<Longrightarrow> starts (\<lambda>c. \<not> json_space c) u"
proof (induction s d rule: state_language.induct)
  case (1 d)
  then have "json_value d u" by simp
  from value_head [OF this] show ?case by (rule starts_weaken) (auto simp: json_space_def is_decimal_digit_def)
qed (auto simp: alt_def one_def sq_one json_space_def dest!: closing_members_head closing_elements_head tail_head elim: starts_weaken)

section \<open>The language of a stack\<close>

definition depth_at :: "json_validate_state \<Rightarrow> nat \<Rightarrow> nat" where
  "depth_at s n = (if s = JSON_VALIDATE_VALUE then json_max_nesting_depth - n else json_max_nesting_depth - 1 - n)"

fun accepts :: "json_validate_stack \<Rightarrow> string \<Rightarrow> bool" where
  "accepts [] = json_spaces"
| "accepts (s # st) = sq json_spaces (sq (state_language s (depth_at s (length st))) (accepts st))"

abbreviation skipped :: "string \<Rightarrow> string" where
  "skipped w \<equiv> dropWhile json_space w"

lemma spaces_skipped:
  assumes "\<And>u. L u \<Longrightarrow> starts (\<lambda>c. \<not> json_space c) u"
  shows "sq json_spaces L w \<longleftrightarrow> L (skipped w)"
proof
  assume "sq json_spaces L w"
  then obtain t u where w: "w = t @ u" "json_spaces t" "L u" by (rule sqE)
  from assms [OF w(3)] have "skipped u = u" by (cases u) auto
  with w show "L (skipped w)" by (simp add: dropWhile_append list_all_iff)
next
  assume "L (skipped w)"
  moreover have "json_spaces (takeWhile json_space w)" by (auto simp: list_all_iff dest: set_takeWhileD)
  ultimately have "sq json_spaces L (takeWhile json_space w @ skipped w)" by (intro sqI)
  then show "sq json_spaces L w" by simp
qed

lemma accepts_skipped:
  "accepts (s # st) w \<longleftrightarrow> sq (state_language s (depth_at s (length st))) (accepts st) (skipped w)"
  unfolding accepts.simps by (rule spaces_skipped) (erule sq_head, rule language_head)

lemma accepts_skip_first: "accepts (s # st) (skipped w) \<longleftrightarrow> accepts (s # st) w"
  unfolding accepts_skipped by (simp add: dropWhile_idem)

definition comma_state :: "json_validate_state \<Rightarrow> bool" where
  "comma_state s \<longleftrightarrow> s = JSON_VALIDATE_OBJECT_COMMA_OR_END \<or> s = JSON_VALIDATE_ARRAY_COMMA_OR_END"

lemma accepts_after_number:
  assumes "list_all comma_state st" "accepts st v"
  shows "after_number v"
proof (cases st)
  case Nil
  with assms(2) show ?thesis by (cases v) (auto simp: after_number_def json_space_def is_decimal_digit_def)
next
  case (Cons s st')
  with assms(2) obtain t u where v: "v = t @ u" "json_spaces t" "sq (state_language s (depth_at s (length st'))) (accepts st') u"
    by (auto elim: sqE)
  have "state_language s d x \<Longrightarrow> starts (\<lambda>c. c \<in> {CHR ''}'', CHR '']'', CHR '',''}) x" for d x
    using assms(1) Cons by (auto simp: comma_state_def dest!: tail_head elim: starts_weaken)
  with v(3) have "starts (\<lambda>c. c \<in> {CHR ''}'', CHR '']'', CHR '',''}) u" by (rule sq_head)
  with v(1,2) show ?thesis by (cases t; cases u) (auto simp: after_number_def json_space_def is_decimal_digit_def)
qed

text \<open>
  Only the top of the stack can be a state other than those after a value, so that its depth is
  the nesting of the text.
\<close>

fun stack_ok :: "json_validate_stack \<Rightarrow> bool" where
  "stack_ok [] \<longleftrightarrow> True"
| "stack_ok (s # st) \<longleftrightarrow> list_all comma_state st \<and> length st + (if s = JSON_VALIDATE_VALUE then 0 else 1) \<le> json_max_nesting_depth"

fun unread :: "json_validate_stack \<Rightarrow> string \<Rightarrow> nat" where
  "unread [] w = 2 * length w"
| "unread (s # st) w =
     2 * length w + (if s = JSON_VALIDATE_ARRAY_VALUE_OR_END \<or> s = JSON_VALIDATE_ARRAY_VALUE_REQUIRED then 1 else 0)"

text \<open>What a step from the given stack and text has to do.\<close>

definition step_ok :: "json_validate_stack \<Rightarrow> string \<Rightarrow> json_step option \<Rightarrow> bool" where
  "step_ok st w r \<longleftrightarrow>
     (\<exists>ok p st'. r = Some (ok, p, st') \<and> (accepts st w \<longleftrightarrow> ok \<and> accepts st' (rest p)) \<and>
        (ok \<longrightarrow> parser_ok p \<and> stack_ok st' \<and> unread st' (rest p) < unread st w))"

lemma step_okI:
  assumes "r = Some (True, p, st')" "accepts st w \<longleftrightarrow> accepts st' (rest p)" "parser_ok p" "stack_ok st'"
    and "unread st' (rest p) < unread st w"
  shows "step_ok st w r"
  using assms by (auto simp: step_ok_def)

lemma step_failI: "r = Some (False, p, st') \<Longrightarrow> \<not> accepts st w \<Longrightarrow> step_ok st w r"
  by (auto simp: step_ok_def)

lemma push_ok: "length st < 102 \<Longrightarrow> validate_stack_push st s = (True, s # st)"
  by (simp add: validate_stack_push_def)

lemma skipped_shorter: "length (skipped w) \<le> length w"
  by (simp add: length_dropWhile_le)

section \<open>How the languages unfold\<close>

lemma tail_accepts:
  "sq (container_tail c M) A W \<longleftrightarrow> starts (\<lambda>x. x = c) W \<and> A (tl W) \<or>
     starts (\<lambda>x. x = CHR '','') W \<and> sq json_spaces (sq (closing c M) A) (tl W)"
  by (simp add: container_tail_def sq_alt sq_one sq_assoc)

lemma or_end_accepts:
  assumes "\<And>u. M u \<Longrightarrow> starts (\<lambda>x. x \<noteq> c) u"
  shows "sq (alt (one c) M) A W \<longleftrightarrow> (if starts (\<lambda>x. x = c) W then A (tl W) else sq M A W)"
proof -
  have "starts (\<lambda>x. x \<noteq> c) W" if "sq M A W" using that assms by (rule sq_head)
  then show ?thesis by (auto simp: sq_alt sq_one starts_def)
qed

lemma array_required_accepts:
  "accepts (JSON_VALIDATE_ARRAY_VALUE_REQUIRED # st) = accepts (JSON_VALIDATE_VALUE # JSON_VALIDATE_ARRAY_COMMA_OR_END # st)"
  by (simp add: closing_elements sq_assoc depth_at_def)

lemma object_required_accepts:
  "accepts (JSON_VALIDATE_OBJECT_KEY_REQUIRED # st) w \<longleftrightarrow>
    (case quoted_rest (skipped w) of None \<Rightarrow> False | Some r \<Rightarrow> accepts (JSON_VALIDATE_OBJECT_COLON # st) r)"
proof -
  have "accepts (JSON_VALIDATE_OBJECT_KEY_REQUIRED # st) w \<longleftrightarrow> sq json_string (accepts (JSON_VALIDATE_OBJECT_COLON # st)) (skipped w)"
    unfolding accepts_skipped [of JSON_VALIDATE_OBJECT_KEY_REQUIRED]
    by (simp only: state_language.simps(3) closing_members sq_assoc accepts.simps depth_at_def json_validate_state.distinct if_False)
  also have "\<dots> \<longleftrightarrow> (\<exists>r. quoted_rest (skipped w) = Some r \<and> accepts (JSON_VALIDATE_OBJECT_COLON # st) r)"
    unfolding quoted_rest_string sq_def by blast
  finally show ?thesis by (simp split: option.split)
qed

lemma colon_accepts:
  "accepts (JSON_VALIDATE_OBJECT_COLON # st) w \<longleftrightarrow>
    starts (\<lambda>x. x = CHR '':'') (skipped w) \<and> accepts (JSON_VALIDATE_VALUE # JSON_VALIDATE_OBJECT_COMMA_OR_END # st) (tl (skipped w))"
  unfolding accepts_skipped [of JSON_VALIDATE_OBJECT_COLON] by (simp add: sq_assoc sq_one depth_at_def)

section \<open>The steps\<close>

lemma match_starts:
  "parser_ok p \<Longrightarrow> \<exists>p'. parser_match p c = (starts (\<lambda>x. x = c) (rest p), p') \<and> parser_ok p' \<and>
    rest p' = (if starts (\<lambda>x. x = c) (rest p) then tl (rest p) else rest p)"
  using match_rest [of p c] by (simp add: starts_def)

lemma match_skip:
  "parser_ok p \<Longrightarrow> \<exists>p'. parser_match (skip_json_whitespace p) c = (starts (\<lambda>x. x = c) (skipped (rest p)), p') \<and> parser_ok p' \<and>
    rest p' = (if starts (\<lambda>x. x = c) (skipped (rest p)) then tl (skipped (rest p)) else skipped (rest p))"
proof -
  assume ok: "parser_ok p"
  then have skip: "parser_ok (skip_json_whitespace p)" and r: "rest (skip_json_whitespace p) = skipped (rest p)" using skip_rest by blast+
  from match_starts [OF skip, of c] show ?thesis unfolding r .
qed

lemma comma_stack: "list_all comma_state st \<Longrightarrow> length st \<le> 100 \<Longrightarrow> stack_ok st \<and> unread st w = 2 * length w"
  by (cases st) (auto simp: comma_state_def)

lemma starts_shorter: "starts P (skipped w) \<Longrightarrow> length (tl (skipped w)) < length w"
  using skipped_shorter [of w] by (cases "skipped w") auto

text \<open>The states after a value: the end of the container, or a comma and the next part.\<close>

lemma comma_step:
  assumes "parser_ok p" "list_all comma_state st" "length st < 100" "s \<noteq> JSON_VALIDATE_VALUE" "req \<noteq> JSON_VALIDATE_VALUE"
    and "state_language s = (\<lambda>d. container_tail c (M d))" "state_language req = (\<lambda>d. closing c (M d))" "c \<noteq> CHR '',''"
    and step: "r = (let (ok, p) = parser_match (skip_json_whitespace p) c
      in if ok then (True, p, st)
         else let (ok, p) = parser_match p (CHR '','') in if \<not> ok then (False, p, st) else push_step p st req)"
  shows "step_ok (s # st) (rest p) (Some r)"
proof -
  let ?W = "skipped (rest p)"
  have acc: "accepts (s # st) (rest p) \<longleftrightarrow> starts (\<lambda>x. x = c) ?W \<and> accepts st (tl ?W) \<or> starts (\<lambda>x. x = CHR '','') ?W \<and> accepts (req # st) (tl ?W)"
    unfolding accepts_skipped [of s] using assms(4-7) by (simp add: tail_accepts depth_at_def)
  obtain p1 where p1: "parser_match (skip_json_whitespace p) c = (starts (\<lambda>x. x = c) ?W, p1)" "parser_ok p1"
    "rest p1 = (if starts (\<lambda>x. x = c) ?W then tl ?W else ?W)" using match_skip [OF assms(1)] by blast
  obtain p2 where p2: "parser_match p1 (CHR '','') = (starts (\<lambda>x. x = CHR '','') (rest p1), p2)" "parser_ok p2"
    "rest p2 = (if starts (\<lambda>x. x = CHR '','') (rest p1) then tl (rest p1) else rest p1)" using match_starts [OF p1(2)] by blast
  consider "starts (\<lambda>x. x = c) ?W" | "\<not> starts (\<lambda>x. x = c) ?W" "starts (\<lambda>x. x = CHR '','') ?W"
    | "\<not> starts (\<lambda>x. x = c) ?W" "\<not> starts (\<lambda>x. x = CHR '','') ?W" by blast
  then show ?thesis
  proof cases
    case 1
    then have "\<not> starts (\<lambda>x. x = CHR '','') ?W" using assms(8) by (auto simp: starts_def)
    with 1 acc p1 step starts_shorter [OF 1] comma_stack [OF assms(2)] assms(3) show ?thesis by (intro step_okI [of _ p1 st]) auto
  next
    case 2
    with p1 p2 step assms(3) have "r = (True, p2, req # st)" by (simp add: push_step_def push_ok)
    with 2 acc p1 p2 starts_shorter [OF 2(2)] assms(2-5) show ?thesis by (intro step_okI [of _ p2 "req # st"]) auto
  next
    case 3
    with p1 p2 step have "r = (False, p2, st)" by simp
    with 3 acc show ?thesis by (intro step_failI [of _ p2 st]) auto
  qed
qed

lemma array_required_step:
  assumes "parser_ok p" "list_all comma_state st" "length st < 100"
  shows "step_ok (JSON_VALIDATE_ARRAY_VALUE_REQUIRED # st) (rest p) (Some (validate_array_value_required_state p st))"
proof (rule step_okI [of _ p "JSON_VALIDATE_VALUE # JSON_VALIDATE_ARRAY_COMMA_OR_END # st"])
  show "Some (validate_array_value_required_state p st) = Some (True, p, JSON_VALIDATE_VALUE # JSON_VALIDATE_ARRAY_COMMA_OR_END # st)"
    using assms(3) by (simp add: validate_array_value_required_state_def push_step_def push_ok)
  show "accepts (JSON_VALIDATE_ARRAY_VALUE_REQUIRED # st) (rest p) \<longleftrightarrow>
      accepts (JSON_VALIDATE_VALUE # JSON_VALIDATE_ARRAY_COMMA_OR_END # st) (rest p)"
    by (simp only: array_required_accepts)
qed (use assms in \<open>simp_all add: comma_state_def\<close>)

lemma array_or_end_step:
  assumes "parser_ok p" "list_all comma_state st" "length st < 100"
  shows "step_ok (JSON_VALIDATE_ARRAY_VALUE_OR_END # st) (rest p) (Some (validate_array_value_or_end_state p st))"
proof -
  let ?W = "skipped (rest p)" and ?req = "JSON_VALIDATE_ARRAY_VALUE_REQUIRED"
  have "accepts (JSON_VALIDATE_ARRAY_VALUE_OR_END # st) (rest p) \<longleftrightarrow>
      (if starts (\<lambda>x. x = CHR '']'') ?W then accepts st (tl ?W) else accepts (?req # st) (rest p))"
    unfolding accepts_skipped by (simp add: or_end_accepts closing_elements_head [THEN starts_weaken] depth_at_def)
  then have acc: "accepts (JSON_VALIDATE_ARRAY_VALUE_OR_END # st) (rest p) \<longleftrightarrow>
      (if starts (\<lambda>x. x = CHR '']'') ?W then accepts st (tl ?W) else accepts (?req # st) ?W)"
    by (simp only: accepts_skip_first)
  obtain p1 where p1: "parser_match (skip_json_whitespace p) (CHR '']'') = (starts (\<lambda>x. x = CHR '']'') ?W, p1)" "parser_ok p1"
    "rest p1 = (if starts (\<lambda>x. x = CHR '']'') ?W then tl ?W else ?W)" using match_skip [OF assms(1)] by blast
  show ?thesis
  proof (cases "starts (\<lambda>x. x = CHR '']'') ?W")
    case True
    with acc p1 starts_shorter [OF True] comma_stack [OF assms(2)] assms(3) show ?thesis
      by (intro step_okI [of _ p1 st]) (auto simp: validate_array_value_or_end_state_def)
  next
    case False
    then have run: "validate_array_value_or_end_state p st = validate_array_value_required_state p1 st"
      using p1(1) by (simp add: validate_array_value_or_end_state_def)
    have "unread (?req # st) (rest p1) \<le> unread (JSON_VALIDATE_ARRAY_VALUE_OR_END # st) (rest p)"
      using False p1(3) skipped_shorter [of "rest p"] by simp
    with array_required_step [OF p1(2) assms(2,3)] acc False p1(3) show ?thesis unfolding run step_ok_def by fastforce
  qed
qed

lemma object_required_step:
  assumes "parser_ok p" "list_all comma_state st" "length st < 100"
  shows "step_ok (JSON_VALIDATE_OBJECT_KEY_REQUIRED # st) (rest p) (validate_object_key_required_state p st)"
proof -
  have skip: "parser_ok (skip_json_whitespace p)" "rest (skip_json_whitespace p) = skipped (rest p)" using skip_rest [OF assms(1)] by blast+
  obtain ok p1 where s: "validate_string (skip_json_whitespace p) = Some (ok, p1)" "leaves (quoted_rest (skipped (rest p))) (ok, p1)"
    using string_leaves [OF skip(1)] unfolding skip(2) by auto
  note acc = object_required_accepts [of st "rest p"]
  show ?thesis
  proof (cases "quoted_rest (skipped (rest p))")
    case None
    with s acc show ?thesis by (intro step_failI [of _ p1 st]) (auto simp: validate_object_key_required_state_def)
  next
    case (Some r)
    with s(2) have p1: "ok" "parser_ok p1" "rest p1 = r" by simp_all
    from Some obtain u where u: "skipped (rest p) = u @ r" "json_string u" by (auto simp: quoted_rest_string)
    then have "length r < length (rest p)" using skipped_shorter [of "rest p"] string_head [OF u(2)] by (cases u) auto
    with Some s p1 acc assms show ?thesis
      by (intro step_okI [of _ p1 "JSON_VALIDATE_OBJECT_COLON # st"])
        (auto simp: validate_object_key_required_state_def push_step_def push_ok)
  qed
qed

lemma object_or_end_step:
  assumes "parser_ok p" "list_all comma_state st" "length st < 100"
  shows "step_ok (JSON_VALIDATE_OBJECT_KEY_OR_END # st) (rest p) (validate_state p st JSON_VALIDATE_OBJECT_KEY_OR_END)"
proof -
  let ?W = "skipped (rest p)" and ?req = "JSON_VALIDATE_OBJECT_KEY_REQUIRED"
  have "accepts (JSON_VALIDATE_OBJECT_KEY_OR_END # st) (rest p) \<longleftrightarrow>
      (if starts (\<lambda>x. x = CHR ''}'') ?W then accepts st (tl ?W) else accepts (?req # st) (rest p))"
    unfolding accepts_skipped by (simp add: or_end_accepts closing_members_head [THEN starts_weaken] depth_at_def)
  then have acc: "accepts (JSON_VALIDATE_OBJECT_KEY_OR_END # st) (rest p) \<longleftrightarrow>
      (if starts (\<lambda>x. x = CHR ''}'') ?W then accepts st (tl ?W) else accepts (?req # st) ?W)"
    by (simp only: accepts_skip_first)
  obtain p1 where p1: "parser_match (skip_json_whitespace p) (CHR ''}'') = (starts (\<lambda>x. x = CHR ''}'') ?W, p1)" "parser_ok p1"
    "rest p1 = (if starts (\<lambda>x. x = CHR ''}'') ?W then tl ?W else ?W)" using match_skip [OF assms(1)] by blast
  show ?thesis
  proof (cases "starts (\<lambda>x. x = CHR ''}'') ?W")
    case True
    with acc p1 starts_shorter [OF True] comma_stack [OF assms(2)] assms(3) show ?thesis
      by (intro step_okI [of _ p1 st]) (auto simp: validate_object_key_or_end_state_def)
  next
    case False
    then have run: "validate_state p st JSON_VALIDATE_OBJECT_KEY_OR_END = validate_object_key_required_state p1 st"
      using p1(1) by (simp add: validate_object_key_or_end_state_def)
    have "unread (?req # st) (rest p1) \<le> unread (JSON_VALIDATE_OBJECT_KEY_OR_END # st) (rest p)"
      using False p1(3) skipped_shorter [of "rest p"] by simp
    with object_required_step [OF p1(2) assms(2,3)] acc False p1(3) show ?thesis unfolding run step_ok_def by fastforce
  qed
qed

lemma colon_step:
  assumes "parser_ok p" "list_all comma_state st" "length st < 100"
  shows "step_ok (JSON_VALIDATE_OBJECT_COLON # st) (rest p) (Some (validate_object_colon_state p st))"
proof -
  let ?W = "skipped (rest p)"
  obtain p1 where p1: "parser_match (skip_json_whitespace p) (CHR '':'') = (starts (\<lambda>x. x = CHR '':'') ?W, p1)" "parser_ok p1"
    "rest p1 = (if starts (\<lambda>x. x = CHR '':'') ?W then tl ?W else ?W)" using match_skip [OF assms(1)] by blast
  note acc = colon_accepts [of st "rest p"]
  show ?thesis
  proof (cases "starts (\<lambda>x. x = CHR '':'') ?W")
    case True
    then have "validate_object_colon_state p st = (True, p1, JSON_VALIDATE_VALUE # JSON_VALIDATE_OBJECT_COMMA_OR_END # st)"
      using p1(1) assms(3) by (simp add: validate_object_colon_state_def push_step_def push_ok)
    moreover have "accepts (JSON_VALIDATE_OBJECT_COLON # st) (rest p) \<longleftrightarrow>
        accepts (JSON_VALIDATE_VALUE # JSON_VALIDATE_OBJECT_COMMA_OR_END # st) (rest p1)" using acc True p1(3) by (simp only: if_True simp_thms)
    ultimately show ?thesis using p1 starts_shorter [OF True] True assms
      by (intro step_okI [of _ p1 "JSON_VALIDATE_VALUE # JSON_VALIDATE_OBJECT_COMMA_OR_END # st"]) (auto simp: comma_state_def)
  next
    case False
    with p1 acc show ?thesis by (intro step_failI [of _ p1 st]) (auto simp: validate_object_colon_state_def simp del: accepts.simps)
  qed
qed

section \<open>The step at a value\<close>

definition values_from :: "char \<Rightarrow> nat \<Rightarrow> string \<Rightarrow> bool" where
  "values_from c d =
     (if c = CHR 0x22 then json_string
      else if c = CHR ''-'' \<or> is_decimal_digit c then json_number
      else if c = CHR ''t'' then (\<lambda>u. u = ''true'')
      else if c = CHR ''f'' then (\<lambda>u. u = ''false'')
      else if c = CHR ''n'' then (\<lambda>u. u = ''null'')
      else if c = CHR ''['' \<and> d \<noteq> 0 then sq (one c) (sq json_spaces (state_language JSON_VALIDATE_ARRAY_VALUE_OR_END (d - 1)))
      else if c = CHR ''{'' \<and> d \<noteq> 0 then sq (one c) (sq json_spaces (state_language JSON_VALIDATE_OBJECT_KEY_OR_END (d - 1)))
      else (\<lambda>u. False))"

lemma values_from_value: "values_from c d u \<Longrightarrow> json_value d u"
  unfolding values_from_def
  by (cases d) (auto simp del: state_language.simps split: if_splits intro: value_string value_number value_literal array_production object_production)

lemma starts_unique: "starts (\<lambda>x. x = c) u \<Longrightarrow> starts P u \<Longrightarrow> P c"
  by (auto simp: starts_def)

lemma value_values_from:
  assumes "json_value d u" "starts (\<lambda>x. x = c) u"
  shows "values_from c d u"
  using assms(1)
proof (cases rule: value_inversion)
  case 1
  with starts_unique [OF assms(2) string_head] show ?thesis by (simp add: values_from_def)
next
  case 2
  from starts_unique [OF assms(2) number_head [OF this]] have c: "c = CHR ''-'' \<or> is_decimal_digit c" .
  then have "c \<noteq> CHR 0x22" by (auto simp: is_decimal_digit_def)
  with 2 show ?thesis by (simp only: values_from_def if_not_P if_P [OF c] if_False)
next
  case 3
  with assms(2) consider "u = ''true''" "c = CHR ''t''" | "u = ''false''" "c = CHR ''f''" | "u = ''null''" "c = CHR ''n''" by auto
  then show ?thesis by cases (simp_all add: values_from_def is_decimal_digit_def)
next
  case (4 d')
  then have "c = CHR ''[''" using assms(2) by (auto simp: sq_one starts_def)
  with 4 show ?thesis by (simp add: values_from_def is_decimal_digit_def)
next
  case (5 d')
  then have "c = CHR ''{''" using assms(2) by (auto simp: sq_one starts_def)
  with 5 show ?thesis by (simp add: values_from_def is_decimal_digit_def)
qed

lemma sq_value_from: "sq (json_value d) A (c # x) \<longleftrightarrow> sq (values_from c d) A (c # x)"
proof
  assume "sq (json_value d) A (c # x)"
  then obtain u v where u: "c # x = u @ v" "json_value d u" "A v" by (rule sqE)
  from u(1) value_head [OF u(2)] have "starts (\<lambda>y. y = c) u" by (cases u) auto
  from value_values_from [OF u(2) this] u show "sq (values_from c d) A (c # x)" by (metis sqI)
next
  assume "sq (values_from c d) A (c # x)"
  then show "sq (json_value d) A (c # x)" by (auto simp: sq_def intro: values_from_value)
qed

lemma sq_string: "sq json_string A w \<longleftrightarrow> (case quoted_rest w of None \<Rightarrow> False | Some r \<Rightarrow> A r)"
proof -
  have "sq json_string A w \<longleftrightarrow> (\<exists>r. quoted_rest w = Some r \<and> A r)" unfolding quoted_rest_string sq_def by blast
  then show ?thesis by (simp split: option.split)
qed

lemma sq_number:
  assumes "\<And>v. A v \<Longrightarrow> after_number v"
  shows "sq json_number A w \<longleftrightarrow> (case number_rest w of None \<Rightarrow> False | Some r \<Rightarrow> A r)"
proof -
  have "sq json_number A w \<longleftrightarrow> (\<exists>r. number_rest w = Some r \<and> A r)"
  proof
    assume "sq json_number A w"
    then obtain u v where "w = u @ v" "json_number u" "A v" by (rule sqE)
    with number_rest_complete assms show "\<exists>r. number_rest w = Some r \<and> A r" by blast
  next
    assume "\<exists>r. number_rest w = Some r \<and> A r"
    then obtain r where "number_rest w = Some r" "A r" by blast
    with number_rest_sound show "sq json_number A w" by (metis sqI)
  qed
  then show ?thesis by (simp split: option.split)
qed

lemma sq_literal: "sq (\<lambda>u. u = l) A w \<longleftrightarrow> (case literal_rest l w of None \<Rightarrow> False | Some r \<Rightarrow> A r)"
proof -
  have "sq (\<lambda>u. u = l) A w \<longleftrightarrow> (\<exists>r. literal_rest l w = Some r \<and> A r)" unfolding literal_rest_prefix sq_def by blast
  then show ?thesis by (simp split: option.split)
qed

lemma scan_step:
  assumes "leaves r (ok, p1)" "accepts (JSON_VALIDATE_VALUE # st) w \<longleftrightarrow> (case r of None \<Rightarrow> False | Some v \<Rightarrow> accepts st v)"
    and "\<And>v. r = Some v \<Longrightarrow> length v < length w" "list_all comma_state st" "length st \<le> 100"
  shows "step_ok (JSON_VALIDATE_VALUE # st) w (Some (ok, p1, st))"
proof (cases r)
  case None
  with assms(1,2) show ?thesis by (intro step_failI [of _ p1 st]) auto
next
  case (Some v)
  with assms(1-3) comma_stack [OF assms(4,5)] show ?thesis by (intro step_okI [of _ p1 st]) auto
qed

lemma open_step:
  assumes "parser_ok q" "rest q = c # x" "length (c # x) \<le> length w" "list_all comma_state st" "length st \<le> 100" "s \<noteq> JSON_VALIDATE_VALUE"
    and acc: "accepts (JSON_VALIDATE_VALUE # st) w \<longleftrightarrow> length st < 100 \<and> accepts (s # st) x"
  shows "step_ok (JSON_VALIDATE_VALUE # st) w (Some (open_container q st c s))"
proof (cases "length st < 100")
  case True
  obtain p1 where p1: "parser_match q c = (True, p1)" "parser_ok p1" "rest p1 = x" using match_starts [OF assms(1), of c] assms(2) by auto
  with True have "open_container q st c s = (True, p1, s # st)"
    by (simp add: open_container_def validate_container_depth_available_def push_step_def push_ok)
  with True p1 acc assms(3-6) show ?thesis by (intro step_okI [of _ p1 "s # st"]) (auto simp: comma_state_def)
next
  case False
  then have "open_container q st c s = (False, q, st)" by (simp add: open_container_def validate_container_depth_available_def)
  with False acc show ?thesis by (intro step_failI [of _ q st]) auto
qed

lemma values_from_open:
  "sq (values_from (CHR ''['') (depth_at JSON_VALIDATE_VALUE n)) A (CHR ''['' # x) \<longleftrightarrow>
     n < 100 \<and> sq json_spaces (sq (state_language JSON_VALIDATE_ARRAY_VALUE_OR_END (depth_at JSON_VALIDATE_ARRAY_VALUE_OR_END n)) A) x"
  "sq (values_from (CHR ''{'') (depth_at JSON_VALIDATE_VALUE n)) A (CHR ''{'' # x) \<longleftrightarrow>
     n < 100 \<and> sq json_spaces (sq (state_language JSON_VALIDATE_OBJECT_KEY_OR_END (depth_at JSON_VALIDATE_OBJECT_KEY_OR_END n)) A) x"
  by (simp_all add: values_from_def is_decimal_digit_def depth_at_def sq_assoc sq_one del: state_language.simps) (auto simp: sq_def)

lemma rest_shorter:
  assumes "starts P w"
  shows "quoted_rest w = Some v \<Longrightarrow> length v < length w" "number_rest w = Some v \<Longrightarrow> length v < length w"
    "l \<noteq> [] \<Longrightarrow> literal_rest l w = Some v \<Longrightarrow> length v < length w"
proof -
  show "length v < length w" if "quoted_rest w = Some v"
    using that string_head by (auto simp: quoted_rest_string starts_def)
  show "length v < length w" if "number_rest w = Some v"
    using number_rest_sound [OF that] number_head by (auto simp: starts_def)
  show "length v < length w" if "l \<noteq> []" "literal_rest l w = Some v" using that by (auto simp: literal_rest_prefix)
qed

lemma keep_step:
  assumes "leaves r res" "accepts (JSON_VALIDATE_VALUE # st) w \<longleftrightarrow> (case r of None \<Rightarrow> False | Some v \<Rightarrow> accepts st v)"
    and "\<And>v. r = Some v \<Longrightarrow> length v < length w" "list_all comma_state st" "length st \<le> 100"
  shows "step_ok (JSON_VALIDATE_VALUE # st) w (Some (case res of (ok, p) \<Rightarrow> (ok, p, st)))"
  using scan_step [of r "fst res" "snd res" st w] assms by (simp add: case_prod_beta)

text \<open>The step at a value once the white space is skipped, by the next character.\<close>

definition step_at :: "json_parser \<Rightarrow> json_validate_stack \<Rightarrow> char \<Rightarrow> json_step option" where
  "step_at q st c =
     (let keep = (\<lambda>(ok, p). (ok, p, st))
      in if c = CHR ''{'' then Some (open_container q st (CHR ''{'') JSON_VALIDATE_OBJECT_KEY_OR_END)
         else if c = CHR ''['' then Some (open_container q st (CHR ''['') JSON_VALIDATE_ARRAY_VALUE_OR_END)
         else if c = CHR 0x22 then map_option keep (validate_string q)
         else if c = CHR ''t'' then Some (keep (validate_literal_token q ''true'' 4))
         else if c = CHR ''f'' then Some (keep (validate_literal_token q ''false'' 5))
         else if c = CHR ''n'' then Some (keep (validate_literal_token q ''null'' 4))
         else if c = CHR ''-'' \<or> is_decimal_digit c then Some (keep (validate_number q))
         else Some (False, q, st))"

lemma value_state_step_at:
  "validate_value_state p st = step_at (skip_json_whitespace p) st (parser_peek (skip_json_whitespace p))"
  unfolding validate_value_state_def step_at_def Let_def is_decimal_digit_def by auto

lemma value_step_at:
  assumes "parser_ok q" "rest q = c # x" "length (c # x) \<le> length w" "list_all comma_state st" "length st \<le> 100"
    and acc: "accepts (JSON_VALIDATE_VALUE # st) w \<longleftrightarrow>
      sq (values_from c (depth_at JSON_VALIDATE_VALUE (length st))) (accepts st) (c # x)"
  shows "step_ok (JSON_VALIDATE_VALUE # st) w (step_at q st c)"
proof -
  have first: "starts (\<lambda>y. y = c) (c # x)" by simp
  have shorter: "quoted_rest (c # x) = Some v \<Longrightarrow> length v < length w" "number_rest (c # x) = Some v \<Longrightarrow> length v < length w"
    "l \<noteq> [] \<Longrightarrow> literal_rest l (c # x) = Some v \<Longrightarrow> length v < length w" for v l
    using rest_shorter [OF first] assms(3) by (meson less_le_trans)+
  note digits = values_from_def is_decimal_digit_def
  have lit: "step_ok (JSON_VALIDATE_VALUE # st) w (Some (case validate_literal_token q l n of (ok, p) \<Rightarrow> (ok, p, st)))"
    if "values_from c (depth_at JSON_VALIDATE_VALUE (length st)) = (\<lambda>u. u = l)" "l \<noteq> []" "length l = n" for l n
    by (rule keep_step [OF literal_leaves [OF assms(1), of l, unfolded that(3)]])
      (use acc that sq_literal [of l] shorter(3) [of l] assms(2,4,5) in \<open>simp_all del: accepts.simps\<close>)
  consider "c = CHR ''{''" | "c = CHR ''[''" | "c = CHR 0x22" | "c = CHR ''t''" | "c = CHR ''f''" | "c = CHR ''n''"
    | (number) "c = CHR ''-'' \<or> is_decimal_digit c" | (other) "c \<notin> {CHR ''{'', CHR ''['', CHR 0x22, CHR ''t'', CHR ''f'', CHR ''n'', CHR ''-''}" "\<not> is_decimal_digit c"
    by blast
  then show ?thesis
  proof cases
    case 1
    have "step_ok (JSON_VALIDATE_VALUE # st) w (Some (open_container q st c JSON_VALIDATE_OBJECT_KEY_OR_END))"
      by (rule open_step [OF assms(1-5)]) (use acc 1 values_from_open(2) in simp_all)
    with 1 show ?thesis by (simp add: step_at_def)
  next
    case 2
    have "step_ok (JSON_VALIDATE_VALUE # st) w (Some (open_container q st c JSON_VALIDATE_ARRAY_VALUE_OR_END))"
      by (rule open_step [OF assms(1-5)]) (use acc 2 values_from_open(1) in simp_all)
    with 2 show ?thesis by (simp add: step_at_def)
  next
    case 3
    obtain res where res: "validate_string q = Some res" "leaves (quoted_rest (rest q)) res" using string_leaves [OF assms(1)] by blast
    have "values_from c (depth_at JSON_VALIDATE_VALUE (length st)) = json_string" using 3 by (simp add: values_from_def)
    then have "step_ok (JSON_VALIDATE_VALUE # st) w (Some (case res of (ok, p) \<Rightarrow> (ok, p, st)))"
      by (intro keep_step [OF res(2)]) (use acc sq_string shorter(1) assms(2,4,5) in \<open>simp_all del: accepts.simps\<close>)
    with 3 res(1) show ?thesis by (simp add: step_at_def)
  next
    case 4
    then show ?thesis using lit [of "''true''" 4] by (simp add: digits step_at_def)
  next
    case 5
    then show ?thesis using lit [of "''false''" 5] by (simp add: digits step_at_def)
  next
    case 6
    then show ?thesis using lit [of "''null''" 4] by (simp add: digits step_at_def)
  next
    case number
    then have c: "c \<notin> {CHR ''{'', CHR ''['', CHR 0x22, CHR ''t'', CHR ''f'', CHR ''n''}" by (auto simp: is_decimal_digit_def)
    then have "values_from c (depth_at JSON_VALIDATE_VALUE (length st)) = json_number" using number by (auto simp: values_from_def)
    then have "step_ok (JSON_VALIDATE_VALUE # st) w (Some (case validate_number q of (ok, p) \<Rightarrow> (ok, p, st)))"
      by (intro keep_step [OF number_leaves [OF assms(1)]])
        (use acc sq_number [OF accepts_after_number [OF assms(4)]] shorter(2) assms(2,4,5) in \<open>simp_all del: accepts.simps\<close>)
    with c number show ?thesis by (auto simp: step_at_def)
  next
    case other
    then have "values_from c (depth_at JSON_VALIDATE_VALUE (length st)) = (\<lambda>u. False)" by (simp add: values_from_def)
    with acc have "\<not> accepts (JSON_VALIDATE_VALUE # st) w" by (simp add: sq_def)
    with other show ?thesis by (intro step_failI [of _ q st]) (simp_all add: step_at_def)
  qed
qed

lemma value_step:
  assumes "parser_ok p" "list_all comma_state st" "length st \<le> 100"
  shows "step_ok (JSON_VALIDATE_VALUE # st) (rest p) (validate_value_state p st)"
proof -
  define q where "q = skip_json_whitespace p"
  have q: "parser_ok q" "rest q = skipped (rest p)" using skip_rest [OF assms(1)] by (simp_all add: q_def)
  let ?d = "depth_at JSON_VALIDATE_VALUE (length st)"
  have acc: "accepts (JSON_VALIDATE_VALUE # st) (rest p) \<longleftrightarrow> sq (json_value ?d) (accepts st) (rest q)"
    unfolding q(2) accepts_skipped by simp
  have run: "validate_value_state p st = step_at q st (parser_peek q)" by (simp add: value_state_step_at q_def)
  show ?thesis
  proof (cases "rest q")
    case Nil
    have "\<not> sq (json_value ?d) (accepts st) []" using value_head by (auto simp: sq_def starts_def)
    moreover have "validate_value_state p st = Some (False, q, st)" using Nil q(1) unfolding run step_at_def by (simp add: is_decimal_digit_def)
    ultimately show ?thesis using acc Nil by (intro step_failI [of _ q st]) simp_all
  next
    case (Cons c x)
    have len: "length (c # x) \<le> length (rest p)" using skipped_shorter [of "rest p"] Cons q(2) by simp
    have acc: "accepts (JSON_VALIDATE_VALUE # st) (rest p) \<longleftrightarrow> sq (values_from c ?d) (accepts st) (c # x)"
      using acc Cons by (simp only: sq_value_from)
    have peek: "parser_peek q = c" using Cons q(1) by simp
    have "step_ok (JSON_VALIDATE_VALUE # st) (rest p) (step_at q st c)"
      by (rule value_step_at [OF q(1) Cons len assms(2,3) acc])
    then show ?thesis unfolding run peek .
  qed
qed

section \<open>The validator\<close>

lemma state_step:
  assumes "parser_ok p" "stack_ok (s # st)"
  shows "step_ok (s # st) (rest p) (validate_state p st s)"
proof -
  have st: "list_all comma_state st" "length st \<le> 100" "s \<noteq> JSON_VALIDATE_VALUE \<Longrightarrow> length st < 100" using assms(2) by (auto split: if_splits)
  show ?thesis
  proof (cases s)
    case JSON_VALIDATE_VALUE
    with value_step [OF assms(1) st(1,2)] show ?thesis by simp
  next
    case JSON_VALIDATE_OBJECT_KEY_OR_END
    with object_or_end_step [OF assms(1) st(1)] st(3) show ?thesis by blast
  next
    case JSON_VALIDATE_OBJECT_KEY_REQUIRED
    with object_required_step [OF assms(1) st(1)] st(3) show ?thesis by simp
  next
    case JSON_VALIDATE_OBJECT_COLON
    with colon_step [OF assms(1) st(1)] st(3) show ?thesis by simp
  next
    case JSON_VALIDATE_OBJECT_COMMA_OR_END
    with st(3) show ?thesis
      by (simp only: validate_state.simps) (rule comma_step [OF assms(1) st(1), where c = "CHR ''}''" and M = json_members
        and req = JSON_VALIDATE_OBJECT_KEY_REQUIRED], auto simp: validate_object_comma_or_end_state_def)
  next
    case JSON_VALIDATE_ARRAY_VALUE_OR_END
    with array_or_end_step [OF assms(1) st(1)] st(3) show ?thesis by simp
  next
    case JSON_VALIDATE_ARRAY_VALUE_REQUIRED
    with array_required_step [OF assms(1) st(1)] st(3) show ?thesis by simp
  next
    case JSON_VALIDATE_ARRAY_COMMA_OR_END
    with st(3) show ?thesis
      by (simp only: validate_state.simps) (rule comma_step [OF assms(1) st(1), where c = "CHR '']''" and M = json_elements
        and req = JSON_VALIDATE_ARRAY_VALUE_REQUIRED], auto simp: validate_array_comma_or_end_state_def)
  qed
qed

lemma validate_loop_accepts:
  assumes "parser_ok p" "stack_ok st"
  shows "\<exists>ok p'. validate_loop p st = Some (ok, p') \<and> (ok \<longrightarrow> parser_ok p') \<and> (accepts st (rest p) \<longleftrightarrow> ok \<and> json_spaces (rest p'))"
  using assms
proof (induction "unread st (rest p)" arbitrary: p st rule: less_induct)
  case less
  show ?case
  proof (cases st)
    case Nil
    then have "validate_loop p st = Some (True, p)" by (subst validate_loop.simps) simp
    with Nil less.prems show ?thesis by (intro exI [of _ True] exI [of _ p]) simp
  next
    case (Cons s st')
    from state_step [of p s st'] less.prems Cons obtain ok p1 st1 where step: "validate_state p st' s = Some (ok, p1, st1)"
      "accepts (s # st') (rest p) \<longleftrightarrow> ok \<and> accepts st1 (rest p1)"
      "ok \<Longrightarrow> parser_ok p1 \<and> stack_ok st1 \<and> unread st1 (rest p1) < unread (s # st') (rest p)"
      unfolding step_ok_def by blast
    have run: "validate_loop p st = (if \<not> ok then Some (False, p1) else validate_loop p1 st1)"
      using Cons step(1) by (subst validate_loop.simps) simp
    show ?thesis
    proof (cases ok)
      case True
      with less.hyps [of st1 p1] step(3) Cons have "\<exists>ok p'. validate_loop p1 st1 = Some (ok, p') \<and>
          (ok \<longrightarrow> parser_ok p') \<and> (accepts st1 (rest p1) \<longleftrightarrow> ok \<and> json_spaces (rest p'))" by blast
      with run True step(2) Cons show ?thesis by simp
    next
      case False
      with run step(2) Cons show ?thesis by auto
    qed
  qed
qed

text \<open>
  Property C11. The JSON validator decides the JSON grammar: on every text it answers, and the
  answer is yes exactly when the text is white space, a value of at most one hundred nested
  arrays and objects, and white space.
\<close>

theorem json_validate_decides_grammar:
  "mylite_json_validate (Some t) (length t) = Some (MYLITE_OK, json_document t)"
proof -
  define p where "p = \<lparr>parser_text = t, parser_length = length t, parser_position = 0\<rparr>"
  have p: "parser_ok p" "rest p = t" by (simp_all add: p_def parser_ok_def rest_def)
  obtain ok p' where run: "validate_loop p [JSON_VALIDATE_VALUE] = Some (ok, p')" "ok \<Longrightarrow> parser_ok p'"
    "accepts [JSON_VALIDATE_VALUE] t \<longleftrightarrow> ok \<and> json_spaces (rest p')"
    using validate_loop_accepts [OF p(1), of "[JSON_VALIDATE_VALUE]"] p(2) by auto
  have "accepts [JSON_VALIDATE_VALUE] t \<longleftrightarrow> json_document t"
    by (simp add: json_document_def sq_def depth_at_def) (metis append.assoc)
  moreover have "parser_at_end (skip_json_whitespace p') \<longleftrightarrow> json_spaces (rest p')" if "parser_ok p'"
    using skip_rest [OF that] by (simp add: dropWhile_eq_Nil_conv list_all_iff)
  ultimately have "json_document t \<longleftrightarrow> ok \<and> parser_at_end (skip_json_whitespace p')" using run(2,3) by blast
  with run(1) show ?thesis by (simp add: mylite_json_validate_def validate_document_def push_ok p_def [symmetric])
qed

end
