(* ===== verification/Typed_Values.thy ===== *)
theory Typed_Values
  imports Sqlite_Values
begin

text \<open>
  Values with their SQLite type, and memory: an allocation is a function from the size to the bytes
  of the block, or nothing. The functions on binary strings share them.
\<close>

section \<open>Memory\<close>

type_synonym malloc = "nat \<Rightarrow> (nat \<Rightarrow> byte) option"

definition block :: "nat \<Rightarrow> (nat \<Rightarrow> byte) \<Rightarrow> bytes" where
  "block n fresh = map fresh [0..<n]"

lemma block_length [simp]: "length (block n fresh) = n"
  by (simp add: block_def)

lemma take_update: "k < length xs \<Longrightarrow> take (Suc k) (xs[k := c]) = take k xs @ [c]"
  by (simp add: take_Suc_conv_app_nth)

section \<open>Values\<close>

datatype sqlite_type = SQLITE_INTEGER | SQLITE_FLOAT | SQLITE_TEXT | SQLITE_BLOB | SQLITE_NULL

record typed_value = sqlite_value +
  value_type :: sqlite_type

end
