(* ===== verification/String_Base64.thy ===== *)
theory String_Base64
  imports Typed_Values
begin

text \<open>
  TO_BASE64 and FROM_BASE64, \<^verbatim>\<open>runtime/mylite_string_base64.c\<close>. Bytes are words of eight bits,
  sizes natural numbers; there is one allocation argument for each call of \<^verbatim>\<open>malloc\<close>. Results that the code returns through
  pointers are the block and the size.
\<close>

section \<open>Encoding\<close>

definition alphabet :: bytes where
  "alphabet = text_bytes ''ABCDEFGHIJKLMNOPQRSTUVWXYZabcdefghijklmnopqrstuvwxyz0123456789+/''"

definition padding_character :: byte where
  "padding_character = 61"

definition base64_encode_empty :: "malloc \<Rightarrow> int \<times> bytes option \<times> nat" where
  "base64_encode_empty malloc =
     (case malloc 1 of None \<Rightarrow> (MYLITE_NOMEM, None, 0) | Some fresh \<Rightarrow> (MYLITE_OK, Some ((block 1 fresh)[0 := 0]), 0))"

definition base64_encoded_output_size :: "nat \<Rightarrow> int \<times> nat" where
  "base64_encoded_output_size input_size =
     (if input_size > (SIZE_MAX div 4) * 3 then (MYLITE_NOMEM, 0)
      else if input_size = 0 then (MYLITE_OK, 0)
      else
        let encoded_size = ((input_size + 2) div 3) * 4; newline_count = (encoded_size - 1) div 76
        in if encoded_size > SIZE_MAX - newline_count - 1 then (MYLITE_NOMEM, 0) else (MYLITE_OK, encoded_size + newline_count))"

text \<open>The group and the index after it; the bytes of a group are unsigned integers.\<close>

definition base64_next_encode_group :: "bytes \<Rightarrow> nat \<Rightarrow> nat \<Rightarrow> bytes \<times> nat" where
  "base64_next_encode_group bs input_size input_index =
     (let group_start = input_index;
          first_byte = ucast (bs ! input_index) :: 32 word; input_index = input_index + 1;
          (second_byte, input_index) = (if input_index < input_size then (ucast (bs ! input_index), input_index + 1) else (0, input_index));
          (third_byte, input_index) = (if input_index < input_size then (ucast (bs ! input_index), input_index + 1) else (0, input_index));
          remaining = input_size - group_start;
          group_input_size = (if remaining \<ge> 3 then 3 else remaining)
      in ([alphabet ! unat (drop_bit 2 first_byte AND 0x3f),
           alphabet ! unat (push_bit 4 (first_byte AND 0x03) OR (drop_bit 4 second_byte AND 0x0f)),
           (if group_input_size > 1 then alphabet ! unat (push_bit 2 (second_byte AND 0x0f) OR (drop_bit 6 third_byte AND 0x03))
            else padding_character),
           (if group_input_size > 2 then alphabet ! unat (third_byte AND 0x3f) else padding_character)], input_index))"

record base64_encode_output_state =
  output_index :: nat
  line_width :: nat

text \<open>The loop over the bytes of a group: status, output and state.\<close>

fun base64_append_encoded_group ::
    "bytes \<Rightarrow> nat \<Rightarrow> base64_encode_output_state \<Rightarrow> bytes \<Rightarrow> int \<times> bytes \<times> base64_encode_output_state" where
  "base64_append_encoded_group out output_size state [] = (MYLITE_OK, out, state)"
| "base64_append_encoded_group out output_size state (c # cs) =
     (let (rc, out, state) =
            (if line_width state = 76 then
               if output_index state \<ge> output_size then (MYLITE_NOMEM, out, state)
               else (MYLITE_OK, out[output_index state := 10], \<lparr>output_index = output_index state + 1, line_width = 0\<rparr>)
             else (MYLITE_OK, out, state))
      in if rc \<noteq> MYLITE_OK then (rc, out, state)
         else if output_index state \<ge> output_size then (MYLITE_NOMEM, out, state)
         else base64_append_encoded_group (out[output_index state := c]) output_size
           \<lparr>output_index = output_index state + 1, line_width = line_width state + 1\<rparr> cs)"

lemma next_group_index: "input_index < snd (base64_next_encode_group bs input_size input_index)"
  by (simp add: base64_next_encode_group_def Let_def)

function base64_encode_loop ::
    "bytes \<Rightarrow> nat \<Rightarrow> nat \<Rightarrow> bytes \<Rightarrow> nat \<Rightarrow> base64_encode_output_state \<Rightarrow> int \<times> bytes \<times> base64_encode_output_state" where
  "base64_encode_loop bs input_size input_index out output_size state =
     (if input_index < input_size then
        let (rc, out, state') = base64_append_encoded_group out output_size state (fst (base64_next_encode_group bs input_size input_index))
        in if rc \<noteq> MYLITE_OK then (rc, out, state')
           else base64_encode_loop bs input_size (snd (base64_next_encode_group bs input_size input_index)) out output_size state'
      else (MYLITE_OK, out, state))"
  by pat_completeness auto
termination
  by (relation "measure (\<lambda>(bs, input_size, input_index, out, output_size, state). input_size - input_index)")
    (simp, use next_group_index in \<open>fastforce intro: diff_less_mono2\<close>)

declare base64_encode_loop.simps [simp del]

definition mylite_string_base64_encode :: "malloc \<Rightarrow> bytes option \<Rightarrow> nat \<Rightarrow> int \<times> bytes option \<times> nat" where
  "mylite_string_base64_encode malloc input input_size =
     (if input = None \<and> input_size \<noteq> 0 then (MYLITE_MISUSE, None, 0)
      else if input_size = 0 then base64_encode_empty malloc
      else
        let (rc, output_size) = base64_encoded_output_size input_size
        in if rc \<noteq> MYLITE_OK then (rc, None, 0)
           else
             case malloc (output_size + 1) of
               None \<Rightarrow> (MYLITE_NOMEM, None, 0)
             | Some fresh \<Rightarrow>
                 let (rc, out, state) =
                       base64_encode_loop (the input) input_size 0 (block (output_size + 1) fresh) output_size
                         \<lparr>output_index = 0, line_width = 0\<rparr>
                 in if rc \<noteq> MYLITE_OK then (rc, None, 0)
                    else if output_index state \<noteq> output_size then (MYLITE_NOMEM, None, 0)
                    else (MYLITE_OK, Some (out[output_index state := 0]), output_size))"

section \<open>Decoding\<close>

definition base64_char_value :: "byte \<Rightarrow> int \<times> byte" where
  "base64_char_value c =
     (if 65 \<le> c \<and> c \<le> 90 then (MYLITE_OK, c - 65)
      else if 97 \<le> c \<and> c \<le> 122 then (MYLITE_OK, c - 97 + 26)
      else if 48 \<le> c \<and> c \<le> 57 then (MYLITE_OK, c - 48 + 52)
      else if c = 43 then (MYLITE_OK, 62)
      else if c = 47 then (MYLITE_OK, 63)
      else (MYLITE_ERROR, 0))"

definition base64_ignored_whitespace :: "byte \<Rightarrow> bool" where
  "base64_ignored_whitespace c \<longleftrightarrow> c = 32 \<or> c = 9 \<or> c = 13 \<or> c = 10"

text \<open>The loop over the bytes: \<open>None\<close> is a return because the text is invalid.\<close>

fun base64_validate_loop :: "nat \<Rightarrow> nat \<Rightarrow> nat \<Rightarrow> bytes \<Rightarrow> nat option" where
  "base64_validate_loop normalized_size index pad_count [] = Some pad_count"
| "base64_validate_loop normalized_size index pad_count (c # cs) =
     (if c = padding_character then
        if index < normalized_size - 2 then None else base64_validate_loop normalized_size (index + 1) (pad_count + 1) cs
      else if pad_count \<noteq> 0 \<or> fst (base64_char_value c) \<noteq> MYLITE_OK then None
      else base64_validate_loop normalized_size (index + 1) pad_count cs)"

text \<open>Status, number of padding characters, whether the text is valid.\<close>

definition base64_validate_normalized :: "bytes \<Rightarrow> nat \<Rightarrow> int \<times> nat \<times> bool" where
  "base64_validate_normalized normalized normalized_size =
     (if normalized_size mod 4 \<noteq> 0 then (MYLITE_OK, 0, False)
      else
        case base64_validate_loop normalized_size 0 0 (take normalized_size normalized) of
          None \<Rightarrow> (MYLITE_OK, 0, False)
        | Some pad_count \<Rightarrow>
            if pad_count > 2 then (MYLITE_OK, 0, False)
            else if normalized_size div 4 > SIZE_MAX div 3 then (MYLITE_NOMEM, 0, False)
            else if (normalized_size div 4) * 3 < pad_count then (MYLITE_OK, 0, False)
            else (MYLITE_OK, pad_count, True))"

definition sextet :: "byte \<Rightarrow> byte" where
  "sextet c = (if c = padding_character then 0 else snd (base64_char_value c))"

text \<open>
  The loop over the groups of four. The bytes of a group are promoted to \<^verbatim>\<open>int\<close> and the result is
  cut to eight bits, as the shifts of words of eight bits do. The size is a multiple of four.
\<close>

fun base64_decode_valid_normalized :: "bytes \<Rightarrow> bytes \<Rightarrow> nat \<Rightarrow> nat \<Rightarrow> bytes" where
  "base64_decode_valid_normalized (a # b # c # d # rest) decoded output_size out_index =
     (let group_pad_count = length (filter (\<lambda>x. x = padding_character) [a, b, c, d]);
          decoded = decoded[out_index := push_bit 2 (sextet a) OR drop_bit 4 (sextet b)]; out_index = out_index + 1;
          (decoded, out_index) =
            (if group_pad_count < 2 \<and> out_index < output_size
             then (decoded[out_index := push_bit 4 (sextet b) OR drop_bit 2 (sextet c)], out_index + 1)
             else (decoded, out_index));
          (decoded, out_index) =
            (if group_pad_count = 0 \<and> out_index < output_size
             then (decoded[out_index := push_bit 6 (sextet c) OR sextet d], out_index + 1)
             else (decoded, out_index))
      in base64_decode_valid_normalized rest decoded output_size out_index)"
| "base64_decode_valid_normalized _ decoded output_size out_index = decoded"

text \<open>Status, block, size and whether the text is valid.\<close>

definition base64_decode_empty :: "malloc \<Rightarrow> int \<times> bytes option \<times> nat \<times> bool" where
  "base64_decode_empty malloc =
     (case malloc 1 of None \<Rightarrow> (MYLITE_NOMEM, None, 0, False) | Some fresh \<Rightarrow> (MYLITE_OK, Some ((block 1 fresh)[0 := 0]), 0, True))"

definition base64_decode_normalized :: "malloc \<Rightarrow> bytes \<Rightarrow> nat \<Rightarrow> int \<times> bytes option \<times> nat \<times> bool" where
  "base64_decode_normalized malloc normalized normalized_size =
     (if normalized_size = 0 then base64_decode_empty malloc
      else
        let (rc, pad_count, valid) = base64_validate_normalized normalized normalized_size
        in if rc \<noteq> MYLITE_OK \<or> \<not> valid then (rc, None, 0, False)
           else
             let output_size = (normalized_size div 4) * 3 - pad_count
             in case malloc (output_size + 1) of
                  None \<Rightarrow> (MYLITE_NOMEM, None, 0, False)
                | Some fresh \<Rightarrow>
                    let decoded = base64_decode_valid_normalized (take normalized_size normalized)
                          (block (output_size + 1) fresh) output_size 0
                    in (MYLITE_OK, Some (decoded[output_size := 0]), output_size, True))"

fun base64_normalize_loop :: "bytes \<Rightarrow> nat \<Rightarrow> bytes \<Rightarrow> bytes \<times> nat" where
  "base64_normalize_loop normalized normalized_size [] = (normalized, normalized_size)"
| "base64_normalize_loop normalized normalized_size (c # cs) =
     (if base64_ignored_whitespace c then base64_normalize_loop normalized normalized_size cs
      else base64_normalize_loop (normalized[normalized_size := c]) (normalized_size + 1) cs)"

definition mylite_string_base64_decode :: "malloc \<Rightarrow> malloc \<Rightarrow> bytes option \<Rightarrow> nat \<Rightarrow> int \<times> bytes option \<times> nat \<times> bool" where
  "mylite_string_base64_decode malloc malloc' input input_size =
     (if input = None \<and> input_size \<noteq> 0 then (MYLITE_MISUSE, None, 0, False)
      else if input_size = SIZE_MAX then (MYLITE_NOMEM, None, 0, False)
      else
        case malloc (input_size + 1) of
          None \<Rightarrow> (MYLITE_NOMEM, None, 0, False)
        | Some fresh \<Rightarrow>
            let (normalized, normalized_size) =
                  base64_normalize_loop (block (input_size + 1) fresh) 0 (take input_size (case input of None \<Rightarrow> [] | Some b \<Rightarrow> b));
                normalized = normalized[normalized_size := 0]
            in base64_decode_normalized malloc' normalized normalized_size)"

section \<open>The SQL functions\<close>

datatype base64_result =
    Base64Text bytes
  | Base64Blob bytes
  | Base64Null
  | Base64Error string
  | Base64Nomem

definition to_base64_sqlite_encode :: "malloc \<Rightarrow> bytes option \<Rightarrow> nat \<Rightarrow> base64_result" where
  "to_base64_sqlite_encode malloc input input_size =
     (let (rc, encoded, encoded_size) = mylite_string_base64_encode malloc input input_size
      in if rc = MYLITE_NOMEM then Base64Nomem
         else if rc \<noteq> MYLITE_OK \<or> int encoded_size > INT32_MAX then Base64Error ''MyLite TO_BASE64 encode failed''
         else Base64Text (take encoded_size (the encoded)))"

definition from_base64_sqlite_decode :: "malloc \<Rightarrow> malloc \<Rightarrow> bytes option \<Rightarrow> nat \<Rightarrow> base64_result" where
  "from_base64_sqlite_decode malloc malloc' input input_size =
     (let (rc, decoded, decoded_size, valid) = mylite_string_base64_decode malloc malloc' input input_size
      in if rc = MYLITE_NOMEM then Base64Nomem
         else if rc \<noteq> MYLITE_OK then Base64Error ''MyLite FROM_BASE64 decode failed''
         else if \<not> valid then Base64Null
         else if int decoded_size > INT32_MAX then Base64Error ''MyLite FROM_BASE64 result is too large''
         else Base64Blob (take decoded_size (the decoded)))"

text \<open>An error that has been reported, or the bytes, their number and whether the value is NULL.\<close>

definition sqlite_value_bytes_for_base64 :: "typed_value \<Rightarrow> nat \<Rightarrow> base64_result + (bytes option \<times> nat \<times> bool)" where
  "sqlite_value_bytes_for_base64 v integer_text_size =
     (case value_type v of
        SQLITE_NULL \<Rightarrow> Inr (None, 0, True)
      | SQLITE_INTEGER \<Rightarrow>
          let integer_text = text_bytes (decimal_int (value_int64 v))
          in if length integer_text \<ge> integer_text_size then Inl (Base64Error ''failed to format MyLite Base64 integer'')
             else Inr (Some integer_text, length integer_text, False)
      | SQLITE_FLOAT \<Rightarrow> Inr (None, 0, True)
      | _ \<Rightarrow>
          if (value_text v = None \<and> value_bytes v \<noteq> 0) \<or> value_bytes v < 0 then Inl Base64Nomem
          else Inr (value_text v, nat (value_bytes v), False))"

definition to_base64_sqlite_callback :: "malloc \<Rightarrow> typed_value list \<Rightarrow> base64_result" where
  "to_base64_sqlite_callback malloc argv =
     (case argv of
        [v] \<Rightarrow>
          (case sqlite_value_bytes_for_base64 v 32 of
             Inl result \<Rightarrow> result
           | Inr (bs, byte_count, is_null) \<Rightarrow> if is_null then Base64Null else to_base64_sqlite_encode malloc bs byte_count)
      | _ \<Rightarrow> Base64Error ''invalid MyLite TO_BASE64 callback'')"

definition from_base64_sqlite_callback :: "malloc \<Rightarrow> malloc \<Rightarrow> typed_value list \<Rightarrow> base64_result" where
  "from_base64_sqlite_callback malloc malloc' argv =
     (case argv of
        [v] \<Rightarrow>
          (case sqlite_value_bytes_for_base64 v 32 of
             Inl result \<Rightarrow> result
           | Inr (bs, byte_count, is_null) \<Rightarrow> if is_null then Base64Null else from_base64_sqlite_decode malloc malloc' bs byte_count)
      | _ \<Rightarrow> Base64Error ''invalid MyLite FROM_BASE64 callback'')"

datatype base64_callback = ToBase64 | FromBase64

definition base64_registrations :: "base64_callback function_registration list" where
  "base64_registrations =
     [scalar_registration ''_mylite_to_base64'' 1 (SQLITE_UTF8 OR SQLITE_DIRECTONLY OR SQLITE_INNOCUOUS) ToBase64,
      scalar_registration ''_mylite_from_base64'' 1 (SQLITE_UTF8 OR SQLITE_DIRECTONLY OR SQLITE_INNOCUOUS) FromBase64]"

definition mylite_sqlite_register_string_base64_functions ::
    "('w, base64_callback) sqlite_create \<Rightarrow> bool \<Rightarrow> 'w \<Rightarrow> int \<times> 'w" where
  "mylite_sqlite_register_string_base64_functions create sqlite w =
     mylite_sqlite_register_functions create sqlite w (Some base64_registrations) (length base64_registrations)"

end
