(* ===== verification/Base64_Roundtrip.thy ===== *)
theory Base64_Roundtrip
  imports String_Base64
begin

text \<open>
  Base64 against its arithmetic meaning: three bytes are a number of 24 bits, written as four
  digits in base 64. Decoding undoes encoding, with line breaks and padding.
\<close>

section \<open>Bits and arithmetic\<close>

lemma nat_or_add: "y < 2 ^ k \<Longrightarrow> push_bit k m OR y = m * 2 ^ k + (y :: nat)"
proof -
  assume y: "y < 2 ^ k"
  then have "take_bit k y = y" by (simp add: take_bit_nat_eq_self_iff)
  then have "bit y n \<Longrightarrow> n < k" for n by (metis bit_take_bit_iff)
  then have "push_bit k m AND y = 0" by (intro bit_eqI) (auto simp: bit_and_iff bit_push_bit_iff dest: leD)
  then have "push_bit k m OR y = push_bit k m + y" by (simp add: disjunctive_add_eq_or)
  then show ?thesis by (simp add: push_bit_eq_mult)
qed

lemma unat_and_mask: "unat (x AND mask k) = unat x mod 2 ^ k"
  unfolding take_bit_eq_mask [symmetric] unsigned_take_bit_eq by (simp only: take_bit_eq_mod)

lemma masks: "(0x3f :: 32 word) = mask 6" "(0x03 :: 32 word) = mask 2" "(0x0f :: 32 word) = mask 4"
  by (simp_all add: mask_eq_exp_minus_1)

definition group_number :: "byte \<Rightarrow> byte \<Rightarrow> byte \<Rightarrow> nat" where
  "group_number a b c = 65536 * unat a + 256 * unat b + unat c"

definition base64_digit :: "nat \<Rightarrow> nat \<Rightarrow> nat" where
  "base64_digit n k = n div 64 ^ k mod 64"

lemma byte_less: "unat (a :: byte) < 256"
  using unsigned_less [of a] by simp

lemma ucast_byte: "unat (ucast (a :: byte) :: 32 word) = unat a"
  using byte_less [of a] by (simp add: unsigned_ucast_eq take_bit_nat_eq_self)

lemma unat_push_or:
  fixes x y :: "'a::len word"
  assumes "unat y < 2 ^ k" "k \<le> LENGTH('a)"
  shows "unat (push_bit k x OR y) = unat x mod 2 ^ (LENGTH('a) - k) * 2 ^ k + unat y"
proof -
  have "unat (push_bit k x) = push_bit k (take_bit (LENGTH('a) - k) (unat x))"
    using assms(2) by (simp add: unsigned_push_bit_eq take_bit_push_bit)
  then have "unat (push_bit k x OR y) = take_bit (LENGTH('a) - k) (unat x) * 2 ^ k + unat y"
    using nat_or_add [OF assms(1)] by (simp only: unsigned_or_eq)
  then show ?thesis by (simp only: take_bit_eq_mod)
qed

lemma mod_remainder: "(n :: nat) = d * k + r \<Longrightarrow> r < d \<Longrightarrow> n mod d = r"
  by simp

lemma group_arithmetic:
  fixes A B C :: nat
  assumes "A < 256" "B < 256" "C < 256"
  shows "(65536 * A + 256 * B + C) div 262144 mod 64 = A div 4 mod 64"
    "(65536 * A + 256 * B + C) div 4096 mod 64 = A mod 4 * 16 + B div 16 mod 16"
    "(65536 * A + 256 * B + C) div 64 mod 64 = B mod 16 * 4 + C div 64 mod 4"
    "(65536 * A + 256 * B + C) mod 64 = C mod 64"
proof -
  have n: "(65536 * A + 256 * B + C) div 65536 = A" "(65536 * A + 256 * B + C) div 256 = 256 * A + B" using assms by simp_all
  have "(65536 * A + 256 * B + C) div 262144 = (65536 * A + 256 * B + C) div 65536 div 4" by (simp add: div_mult2_eq [symmetric])
  then show "(65536 * A + 256 * B + C) div 262144 mod 64 = A div 4 mod 64" unfolding n by simp
  have "(65536 * A + 256 * B + C) div 4096 = (65536 * A + 256 * B + C) div 256 div 16" by (simp add: div_mult2_eq [symmetric])
  also have "\<dots> = 16 * A + B div 16" unfolding n using div_mult_self2 [of 16 B "16 * A"] by simp
  finally have d: "(65536 * A + 256 * B + C) div 4096 = 16 * A + B div 16" .
  have "A mod 4 * 16 + q mod 16 = (16 * A + q) mod 64" if "q < 16" for q :: nat
  proof -
    have "16 * A + q = 64 * (A div 4) + (A mod 4 * 16 + q)" using mult_div_mod_eq [of 4 A] by linarith
    moreover have "A mod 4 * 16 + q < 64" using that mod_less_divisor [of 4 A] by linarith
    ultimately have "(16 * A + q) mod 64 = A mod 4 * 16 + q" by (rule mod_remainder)
    with that show ?thesis by simp
  qed
  from this [of "B div 16"] assms(2) show "(65536 * A + 256 * B + C) div 4096 mod 64 = A mod 4 * 16 + B div 16 mod 16" unfolding d by simp
  have "(65536 * A + 256 * B + C) div 64 = 1024 * A + 4 * B + C div 64" by simp
  moreover have "B mod 16 * 4 + q mod 4 = (1024 * A + 4 * B + q) mod 64" if "q < 4" for q :: nat
  proof -
    have "4 * B = 64 * (B div 16) + B mod 16 * 4" using mult_div_mod_eq [of 16 B] by linarith
    then have "1024 * A + 4 * B + q = 64 * (16 * A + B div 16) + (B mod 16 * 4 + q)" by (simp add: algebra_simps)
    moreover have "B mod 16 * 4 + q < 64" using that mod_less_divisor [of 16 B] by linarith
    ultimately have "(1024 * A + 4 * B + q) mod 64 = B mod 16 * 4 + q" by (rule mod_remainder)
    with that show ?thesis by simp
  qed
  ultimately show "(65536 * A + 256 * B + C) div 64 mod 64 = B mod 16 * 4 + C div 64 mod 4" using assms(3) by simp
  have "65536 * A + 256 * B + C = 64 * (1024 * A + 4 * B) + C" by simp
  then show "(65536 * A + 256 * B + C) mod 64 = C mod 64" by (simp only: mod_mult_self4)
qed

lemma byte_div: "unat (a :: byte) div 4 < 64" "unat a div 16 < 16" "unat a div 64 < 4"
  using byte_less [of a] less_mult_imp_div_less [of "unat a" 64 4] less_mult_imp_div_less [of "unat a" 16 16]
    less_mult_imp_div_less [of "unat a" 4 64] by simp_all

lemma group_digits:
  "base64_digit (group_number a b c) 3 = unat a div 4"
  "base64_digit (group_number a b c) 2 = unat a mod 4 * 16 + unat b div 16"
  "base64_digit (group_number a b c) 1 = unat b mod 16 * 4 + unat c div 64"
  "base64_digit (group_number a b c) 0 = unat c mod 64"
proof -
  note ga = group_arithmetic [OF byte_less [of a] byte_less [of b] byte_less [of c]]
  show "base64_digit (group_number a b c) 3 = unat a div 4"
    using ga(1) byte_div(1) [of a] by (simp add: base64_digit_def group_number_def)
  show "base64_digit (group_number a b c) 2 = unat a mod 4 * 16 + unat b div 16"
    using ga(2) byte_div(2) [of b] by (simp add: base64_digit_def group_number_def)
  show "base64_digit (group_number a b c) 1 = unat b mod 16 * 4 + unat c div 64"
    using ga(3) byte_div(3) [of c] by (simp add: base64_digit_def group_number_def)
  show "base64_digit (group_number a b c) 0 = unat c mod 64"
    using ga(4) by (simp add: base64_digit_def group_number_def)
qed

lemma quotient_remainder: "r < d \<Longrightarrow> (k * d + r) div d = (k :: nat)" "r < d \<Longrightarrow> (k * d + r) mod d = (r :: nat)"
  by simp_all

lemma unat_push_or_small:
  fixes x y :: "'a::len word"
  assumes "unat y < 2 ^ k" "k \<le> LENGTH('a)" "unat x < 2 ^ (LENGTH('a) - k)"
  shows "unat (push_bit k x OR y) = unat x * 2 ^ k + unat y"
  using unat_push_or [OF assms(1,2), of x] assms(3) by simp

lemma encode_bits:
  fixes a b c :: byte
  shows "unat (drop_bit 2 (ucast a :: 32 word) AND 0x3f) = base64_digit (group_number a b c) 3"
    "unat (push_bit 4 ((ucast a :: 32 word) AND 0x03) OR (drop_bit 4 (ucast b) AND 0x0f)) = base64_digit (group_number a b c) 2"
    "unat (push_bit 2 ((ucast b :: 32 word) AND 0x0f) OR (drop_bit 6 (ucast c) AND 0x03)) = base64_digit (group_number a b c) 1"
    "unat ((ucast c :: 32 word) AND 0x3f) = base64_digit (group_number a b c) 0"
proof -
  note conv = masks unat_and_mask unat_drop_bit_eq ucast_byte drop_bit_eq_div [where 'a = nat]
  show "unat (drop_bit 2 (ucast a :: 32 word) AND 0x3f) = base64_digit (group_number a b c) 3"
    unfolding conv group_digits using byte_div(1) [of a] by simp
  show "unat ((ucast c :: 32 word) AND 0x3f) = base64_digit (group_number a b c) 0" unfolding conv group_digits by simp
  have "unat ((ucast a :: 32 word) AND 0x03) < 2 ^ (32 - 4)"
    using mod_less_divisor [of "2 ^ 2" "unat a"] unfolding conv by simp
  then have "unat (push_bit 4 ((ucast a :: 32 word) AND 0x03) OR (drop_bit 4 (ucast b) AND 0x0f)) = unat a mod 4 * 2 ^ 4 + unat b div 2 ^ 4 mod 2 ^ 4"
    by (subst unat_push_or_small) (simp_all add: conv)
  then show "unat (push_bit 4 ((ucast a :: 32 word) AND 0x03) OR (drop_bit 4 (ucast b) AND 0x0f)) = base64_digit (group_number a b c) 2"
    unfolding group_digits using byte_div(2) [of b] by simp
  have "unat ((ucast b :: 32 word) AND 0x0f) < 2 ^ (32 - 2)"
    using mod_less_divisor [of "2 ^ 4" "unat b"] unfolding conv by simp
  then have "unat (push_bit 2 ((ucast b :: 32 word) AND 0x0f) OR (drop_bit 6 (ucast c) AND 0x03)) = unat b mod 16 * 2 ^ 2 + unat c div 2 ^ 6 mod 2 ^ 2"
    by (subst unat_push_or_small) (simp_all add: conv)
  then show "unat (push_bit 2 ((ucast b :: 32 word) AND 0x0f) OR (drop_bit 6 (ucast c) AND 0x03)) = base64_digit (group_number a b c) 1"
    unfolding group_digits using byte_div(3) [of c] by simp
qed

lemma decode_bits:
  fixes a b c :: byte and d :: "nat \<Rightarrow> byte"
  assumes "\<And>k. d k = of_nat (base64_digit (group_number a b c) k)"
  shows "push_bit 2 (d 3) OR drop_bit 4 (d 2) = a" "push_bit 4 (d 2) OR drop_bit 2 (d 1) = b" "push_bit 6 (d 1) OR d 0 = c"
proof -
  have "base64_digit n k < 256" for n k using mod_less_divisor [of 64 "n div 64 ^ k"] by (simp add: base64_digit_def order_less_trans)
  then have d: "unat (d k) = base64_digit (group_number a b c) k" for k using assms [of k] by (simp add: unat_of_nat)
  note digits = d group_digits
  have hi: "unat (drop_bit 4 (d 2)) = unat a mod 4" "unat (drop_bit 2 (d 1)) = unat b mod 16"
    using quotient_remainder(1) [OF byte_div(2) [of b], of "unat a mod 4"] quotient_remainder(1) [OF byte_div(3) [of c], of "unat b mod 16"]
    unfolding unat_drop_bit_eq drop_bit_eq_div [where 'a = nat] digits by simp_all
  have lo: "unat (d 2) mod 16 = unat b div 16" "unat (d 1) mod 4 = unat c div 64" "unat (d 0) = unat c mod 64" "unat (d 3) mod 64 = unat a div 4"
    using quotient_remainder(2) [OF byte_div(2) [of b], of "unat a mod 4"] quotient_remainder(2) [OF byte_div(3) [of c], of "unat b mod 16"]
      byte_div(1) [of a] unfolding digits by simp_all
  have "unat (push_bit 2 (d 3) OR drop_bit 4 (d 2)) = unat (d 3) mod 64 * 4 + unat (drop_bit 4 (d 2))"
    using unat_push_or [of "drop_bit 4 (d 2)" 2 "d 3"] unfolding hi by simp
  then show "push_bit 2 (d 3) OR drop_bit 4 (d 2) = a" unfolding hi lo by (simp add: word_unat_eq_iff)
  have "unat (push_bit 4 (d 2) OR drop_bit 2 (d 1)) = unat (d 2) mod 16 * 16 + unat (drop_bit 2 (d 1))"
    using unat_push_or [of "drop_bit 2 (d 1)" 4 "d 2"] unfolding hi by simp
  then show "push_bit 4 (d 2) OR drop_bit 2 (d 1) = b" unfolding hi lo by (simp add: word_unat_eq_iff)
  have "unat (push_bit 6 (d 1) OR d 0) = unat (d 1) mod 4 * 64 + unat (d 0)"
    using unat_push_or [of "d 0" 6 "d 1"] lo(3) by simp
  then show "push_bit 6 (d 1) OR d 0 = c" using lo(2,3) by (simp add: word_unat_eq_iff)
qed

section \<open>The text of Base64\<close>

definition base64_char :: "nat \<Rightarrow> nat \<Rightarrow> byte" where
  "base64_char n k = alphabet ! base64_digit n k"

fun base64_text :: "bytes \<Rightarrow> bytes" where
  "base64_text [] = []"
| "base64_text [a] = (let n = group_number a 0 0 in [base64_char n 3, base64_char n 2, padding_character, padding_character])"
| "base64_text [a, b] = (let n = group_number a b 0 in [base64_char n 3, base64_char n 2, base64_char n 1, padding_character])"
| "base64_text (a # b # c # r) =
     (let n = group_number a b c in [base64_char n 3, base64_char n 2, base64_char n 1, base64_char n 0]) @ base64_text r"

text \<open>The text in lines of 76 characters, when the current line has \<open>w\<close> characters already.\<close>

fun base64_lines :: "nat \<Rightarrow> bytes \<Rightarrow> bytes" where
  "base64_lines w [] = []"
| "base64_lines w (c # cs) = (if w = 76 then 10 # c # base64_lines 1 cs else c # base64_lines (w + 1) cs)"

fun width_after :: "nat \<Rightarrow> bytes \<Rightarrow> nat" where
  "width_after w [] = w"
| "width_after w (c # cs) = (if w = 76 then width_after 1 cs else width_after (w + 1) cs)"

lemma lines_append: "base64_lines w (xs @ ys) = base64_lines w xs @ base64_lines (width_after w xs) ys"
  by (induction w xs rule: base64_lines.induct) simp_all

lemma width_append: "width_after w (xs @ ys) = width_after (width_after w xs) ys"
  by (induction w xs rule: base64_lines.induct) simp_all

lemma lines_length: "w \<le> 76 \<Longrightarrow> length (base64_lines w cs) = length cs + (if cs = [] then 0 else (w + length cs - 1) div 76)"
proof (induction w cs rule: base64_lines.induct)
  case (2 w c cs)
  show ?case
  proof (cases "w = 76")
    case True
    with 2 show ?thesis by (cases cs) auto
  next
    case False
    with 2 show ?thesis by (cases cs) auto
  qed
qed simp

lemma text_length: "length (base64_text bs) = (length bs + 2) div 3 * 4"
proof (induction bs rule: base64_text.induct)
  case (4 a b c r)
  have "(length (a # b # c # r) + 2) div 3 = Suc ((length r + 2) div 3)" using div_add_self2 [of 3 "length r + 2"] by simp
  with 4 show ?case by (simp add: Let_def)
qed (simp_all add: Let_def)

section \<open>Encoding\<close>

lemma first_three: "xs \<noteq> [] \<Longrightarrow> (\<exists>a. xs = [a]) \<or> (\<exists>a b. xs = [a, b]) \<or> (\<exists>a b c r. xs = a # b # c # r)"
  by (cases xs; cases "tl xs"; cases "tl (tl xs)") auto

lemma at_drop:
  assumes "i < length bs" "drop i bs = xs"
  shows "length bs = i + length xs" "k < length xs \<Longrightarrow> bs ! (i + k) = xs ! k" "drop (i + k) bs = drop k xs"
  using assms(1) by (simp_all add: assms(2) [symmetric] add.commute)

lemma next_group:
  assumes "i < length bs"
  shows "\<exists>g j. base64_next_encode_group bs (length bs) i = (g, j) \<and> j \<le> length bs \<and> base64_text (drop i bs) = g @ base64_text (drop j bs)"
proof -
  note char = base64_char_def
  consider a where "drop i bs = [a]" | a b where "drop i bs = [a, b]" | a b c r where "drop i bs = a # b # c # r"
    using first_three [of "drop i bs"] assms by auto
  then show ?thesis
  proof cases
    case 1
    have i: "length bs = i + 1" "bs ! i = a" "drop (i + 1) bs = []"
      using at_drop(1) [OF assms 1] at_drop(2) [OF assms 1, of 0] at_drop(3) [OF assms 1, of 1] by simp_all
    have bits: "unat (push_bit 4 (ucast a :: 32 word) AND 48) = base64_digit (group_number a 0 0) 2"
      using encode_bits(2) [of a 0 0] by simp
    have "base64_next_encode_group bs (length bs) i = (base64_text [a], i + 1)"
      using i(1,2) by (simp add: base64_next_encode_group_def Let_def char encode_bits(1) [of a 0 0] bits)
    with i show ?thesis unfolding 1 by simp
  next
    case 2
    have i: "length bs = i + 2" "bs ! i = a" "bs ! Suc i = b" "drop (i + 2) bs = []"
      using at_drop(1) [OF assms 2] at_drop(2) [OF assms 2, of 0] at_drop(2) [OF assms 2, of 1] at_drop(3) [OF assms 2, of 2] by simp_all
    have bits: "unat (push_bit 2 (ucast b :: 32 word) AND 60) = base64_digit (group_number a b 0) 1"
      using encode_bits(3) [of b 0 a] by simp
    have "base64_next_encode_group bs (length bs) i = (base64_text [a, b], i + 2)"
      using i(1-3) by (simp add: base64_next_encode_group_def Let_def char encode_bits(1) [of a b 0] encode_bits(2) [of a b 0, simplified] bits [simplified])
    with i show ?thesis unfolding 2 by simp
  next
    case 3
    have i: "length bs = i + 3 + length r" "bs ! i = a" "bs ! Suc i = b" "bs ! Suc (Suc i) = c" "drop (i + 3) bs = r"
      using at_drop(1) [OF assms 3] at_drop(2) [OF assms 3, of 0] at_drop(2) [OF assms 3, of 1] at_drop(2) [OF assms 3, of 2]
        at_drop(3) [OF assms 3, of 3] by simp_all
    have "base64_next_encode_group bs (length bs) i =
        (let n = group_number a b c in [base64_char n 3, base64_char n 2, base64_char n 1, base64_char n 0], i + 3)"
      using i(1-4) by (simp add: base64_next_encode_group_def Let_def char encode_bits(1) [of a b c] encode_bits(2) [of a b c, simplified] encode_bits(3) [of b c a, simplified] encode_bits(4) [of c a b])
    with i show ?thesis unfolding 3 by (simp add: Let_def)
  qed
qed

lemma append_group:
  "output_index st + length (base64_lines (line_width st) cs) \<le> n \<Longrightarrow> n < length out \<Longrightarrow>
    \<exists>out' st'. base64_append_encoded_group out n st cs = (MYLITE_OK, out', st') \<and> length out' = length out \<and>
      output_index st' = output_index st + length (base64_lines (line_width st) cs) \<and> line_width st' = width_after (line_width st) cs \<and>
      take (output_index st') out' = take (output_index st) out @ base64_lines (line_width st) cs"
proof (induction cs arbitrary: out st)
  case (Cons c cs)
  define k where "k = (if line_width st = 76 then Suc (output_index st) else output_index st)"
  define out1 where "out1 = (if line_width st = 76 then out[output_index st := 10] else out)"
  define w where "w = (if line_width st = 76 then 0 else line_width st)"
  have k: "k < n" "k < length out1" "length out1 = length out" using Cons.prems by (auto simp: k_def out1_def split: if_splits)
  have run: "base64_append_encoded_group out n st (c # cs) =
      base64_append_encoded_group (out1[k := c]) n \<lparr>output_index = Suc k, line_width = Suc w\<rparr> cs"
    using k(1) by (auto simp: k_def out1_def w_def)
  have lines: "base64_lines (line_width st) (c # cs) = (if line_width st = 76 then [10] else []) @ c # base64_lines (Suc w) cs"
    "width_after (line_width st) (c # cs) = width_after (Suc w) cs" by (simp_all add: w_def)
  have out1: "take (Suc k) (out1[k := c]) = take (output_index st) out @ (if line_width st = 76 then [10] else []) @ [c]"
    using k Cons.prems take_update [of k out1 c] take_update [of "output_index st" out 10] by (auto simp: k_def out1_def)
  have "Suc k + length (base64_lines (Suc w) cs) \<le> n" using Cons.prems lines by (auto simp: k_def split: if_splits)
  with Cons.IH [of "\<lparr>output_index = Suc k, line_width = Suc w\<rparr>" "out1[k := c]"] Cons.prems(2) k(3)
  obtain out' st' where r: "base64_append_encoded_group (out1[k := c]) n \<lparr>output_index = Suc k, line_width = Suc w\<rparr> cs = (MYLITE_OK, out', st')"
    "length out' = length out" "output_index st' = Suc k + length (base64_lines (Suc w) cs)" "line_width st' = width_after (Suc w) cs"
    "take (output_index st') out' = take (Suc k) (out1[k := c]) @ base64_lines (Suc w) cs" by auto
  have "output_index st' = output_index st + length (base64_lines (line_width st) (c # cs))" using r(3) lines by (simp add: k_def)
  with r run out1 lines show ?case by auto
qed simp

lemma encode_loop:
  assumes "i \<le> length bs" "output_index st + length (base64_lines (line_width st) (base64_text (drop i bs))) \<le> n" "n < length out"
  shows "\<exists>out' st'. base64_encode_loop bs (length bs) i out n st = (MYLITE_OK, out', st') \<and> length out' = length out \<and>
    output_index st' = output_index st + length (base64_lines (line_width st) (base64_text (drop i bs))) \<and>
    take (output_index st') out' = take (output_index st) out @ base64_lines (line_width st) (base64_text (drop i bs))"
  using assms
proof (induction "length bs - i" arbitrary: i out st rule: less_induct)
  case less
  show ?case
  proof (cases "i < length bs")
    case False
    then show ?thesis using less.prems by (subst base64_encode_loop.simps) simp
  next
    case True
    obtain g j where g: "base64_next_encode_group bs (length bs) i = (g, j)" "j \<le> length bs" "base64_text (drop i bs) = g @ base64_text (drop j bs)"
      using next_group [OF True] by blast
    then have j: "i < j" using next_group_index [of i bs "length bs"] by simp
    note split = lines_append [of "line_width st" g "base64_text (drop j bs)"]
    have "output_index st + length (base64_lines (line_width st) g) \<le> n" using less.prems(2) g(3) split by simp
    from append_group [OF this less.prems(3)] obtain out1 st1 where a: "base64_append_encoded_group out n st g = (MYLITE_OK, out1, st1)"
      "length out1 = length out" "output_index st1 = output_index st + length (base64_lines (line_width st) g)"
      "line_width st1 = width_after (line_width st) g" "take (output_index st1) out1 = take (output_index st) out @ base64_lines (line_width st) g" by blast
    have run: "base64_encode_loop bs (length bs) i out n st = base64_encode_loop bs (length bs) j out1 n st1"
      using True g(1) a(1) by (subst base64_encode_loop.simps) simp
    have "output_index st1 + length (base64_lines (line_width st1) (base64_text (drop j bs))) \<le> n" "n < length out1"
      using less.prems(2,3) a g(3) split by simp_all
    moreover have "length bs - j < length bs - i" using j True by simp
    ultimately have "\<exists>out' st'. base64_encode_loop bs (length bs) j out1 n st1 = (MYLITE_OK, out', st') \<and> length out' = length out1 \<and>
        output_index st' = output_index st1 + length (base64_lines (line_width st1) (base64_text (drop j bs))) \<and>
        take (output_index st') out' = take (output_index st1) out1 @ base64_lines (line_width st1) (base64_text (drop j bs))"
      using less.hyps g(2) by blast
    then show ?thesis unfolding run a(2-4) g(3) split by (simp add: add.assoc a(5) [unfolded a(3)])
  qed
qed

lemma encoded_size:
  assumes "bs \<noteq> []"
  shows "base64_encoded_output_size (length bs) =
    (if SIZE_MAX \<le> length (base64_lines 0 (base64_text bs)) then (MYLITE_NOMEM, 0) else (MYLITE_OK, length (base64_lines 0 (base64_text bs))))"
proof -
  define e where "e = (length bs + 2) div 3 * 4"
  have e: "e \<noteq> 0" using assms by (cases bs) (auto simp: e_def)
  have enc: "length (base64_text bs) = e" "base64_text bs \<noteq> []" using e by (auto simp: e_def text_length length_0_conv [symmetric] simp del: length_0_conv)
  then have len: "length (base64_lines 0 (base64_text bs)) = e + (e - 1) div 76" by (simp add: lines_length)
  have nl: "(e - 1) div 76 \<le> SIZE_MAX - 1" if "e \<le> SIZE_MAX" using that by (simp add: SIZE_MAX_def)
  have big: "SIZE_MAX \<le> e" if "length bs > SIZE_MAX div 4 * 3"
  proof -
    have "13835058055282163712 \<le> length bs + 2" using that by (simp add: SIZE_MAX_def)
    then have "13835058055282163712 div 3 \<le> (length bs + 2) div 3" by (rule div_le_mono)
    then show ?thesis by (simp add: SIZE_MAX_def e_def)
  qed
  show ?thesis unfolding base64_encoded_output_size_def len e_def [symmetric] Let_def using assms big nl by (auto simp: SIZE_MAX_def)
qed

lemma encode_outcome:
  assumes "mylite_string_base64_encode malloc (Some bs) (length bs) = (rc, out, n)"
  shows "rc = MYLITE_OK \<and> (\<exists>b. out = Some b \<and> n < length b \<and> take n b = base64_lines 0 (base64_text bs) \<and> b ! n = 0) \<and>
      n = length (base64_lines 0 (base64_text bs)) \<and> n < SIZE_MAX \<or>
    rc = MYLITE_NOMEM \<and> out = None \<and>
      (malloc (length (base64_lines 0 (base64_text bs)) + 1) = None \<or> SIZE_MAX \<le> length (base64_lines 0 (base64_text bs)))"
proof (cases "bs = []")
  case True
  with assms show ?thesis by (auto simp: mylite_string_base64_encode_def base64_encode_empty_def block_def SIZE_MAX_def split: option.splits)
next
  case False
  define L where "L = base64_lines 0 (base64_text bs)"
  note size = encoded_size [OF False, folded L_def]
  show ?thesis
  proof (cases "SIZE_MAX \<le> length L \<or> malloc (length L + 1) = None")
    case True
    then have "mylite_string_base64_encode malloc (Some bs) (length bs) = (MYLITE_NOMEM, None, 0)"
      using False size by (cases "SIZE_MAX \<le> length L") (simp_all add: mylite_string_base64_encode_def)
    with assms True show ?thesis unfolding L_def [symmetric] by auto
  next
    case small: False
    then obtain fresh where fresh: "malloc (length L + 1) = Some fresh" by auto
    have len: "length (block (length L + 1) fresh) = length L + 1" by (simp add: block_def)
    have "\<exists>out' st'. base64_encode_loop bs (length bs) 0 (block (length L + 1) fresh) (length L) \<lparr>output_index = 0, line_width = 0\<rparr>
        = (MYLITE_OK, out', st') \<and> length out' = length L + 1 \<and> output_index st' = length L \<and> take (output_index st') out' = L"
      using encode_loop [of 0 bs "\<lparr>output_index = 0, line_width = 0\<rparr>" "length L" "block (length L + 1) fresh"] len by (simp add: L_def)
    then obtain out' st' where loop: "base64_encode_loop bs (length bs) 0 (block (length L + 1) fresh) (length L) \<lparr>output_index = 0, line_width = 0\<rparr>
        = (MYLITE_OK, out', st')" "length out' = length L + 1" "output_index st' = length L" "take (output_index st') out' = L"
      by (elim exE conjE) (rule that)
    then have "mylite_string_base64_encode malloc (Some bs) (length bs) = (MYLITE_OK, Some (out'[length L := 0]), length L)"
      using False size small fresh by (simp add: mylite_string_base64_encode_def)
    with assms have r: "rc = MYLITE_OK" "out = Some (out'[length L := 0])" "n = length L" by auto
    have "take n (out'[length L := 0]) = L" "n < length (out'[length L := 0])" "out'[length L := 0] ! n = 0" using loop(2,4) r(3) by (simp_all add: loop(3))
    with r small show ?thesis unfolding L_def [symmetric] by simp
  qed
qed

section \<open>Decoding\<close>

lemma alphabet_values:
  assumes "i < 64"
  shows "base64_char_value (alphabet ! i) = (MYLITE_OK, of_nat i)" "alphabet ! i \<noteq> padding_character"
    "\<not> base64_ignored_whitespace (alphabet ! i)"
proof -
  have len: "length alphabet = 64" by (simp add: alphabet_def)
  have "map base64_char_value alphabet = map (\<lambda>i. (MYLITE_OK, of_nat i)) [0..<64]"
    by (simp add: alphabet_def text_bytes_def base64_char_value_def upt_conv_Cons)
  then have "map base64_char_value alphabet ! i = map (\<lambda>i. (MYLITE_OK, of_nat i)) [0..<64] ! i" by (simp only:)
  with assms len show "base64_char_value (alphabet ! i) = (MYLITE_OK, of_nat i)" by simp
  have "list_all (\<lambda>c. c \<noteq> padding_character \<and> \<not> base64_ignored_whitespace c) alphabet"
    by (simp add: alphabet_def text_bytes_def padding_character_def base64_ignored_whitespace_def)
  with assms len show "alphabet ! i \<noteq> padding_character" "\<not> base64_ignored_whitespace (alphabet ! i)"
    by (simp_all add: list_all_length)
qed

lemma char_facts:
  "fst (base64_char_value (base64_char n k)) = MYLITE_OK" "base64_char n k \<noteq> padding_character"
  "\<not> base64_ignored_whitespace (base64_char n k)" "sextet (base64_char n k) = of_nat (base64_digit n k)"
proof -
  have "base64_digit n k < 64" by (simp add: base64_digit_def)
  from alphabet_values [OF this] show "fst (base64_char_value (base64_char n k)) = MYLITE_OK" "base64_char n k \<noteq> padding_character"
    "\<not> base64_ignored_whitespace (base64_char n k)" "sextet (base64_char n k) = of_nat (base64_digit n k)"
    by (simp_all add: base64_char_def sextet_def)
qed

lemma padding_facts: "\<not> base64_ignored_whitespace padding_character" "sextet padding_character = 0" "base64_ignored_whitespace 10"
  by (simp_all add: base64_ignored_whitespace_def padding_character_def sextet_def)

lemma text_not_space: "list_all (\<lambda>c. \<not> base64_ignored_whitespace c) (base64_text bs)"
  by (induction bs rule: base64_text.induct) (simp_all add: Let_def char_facts padding_facts)

lemma lines_filter:
  "list_all (\<lambda>c. \<not> base64_ignored_whitespace c) cs \<Longrightarrow> filter (\<lambda>c. \<not> base64_ignored_whitespace c) (base64_lines w cs) = cs"
  by (induction w cs rule: base64_lines.induct) (simp_all add: padding_facts)

lemma normalize_loop_filter:
  "k + length cs < length out \<Longrightarrow>
    \<exists>out'. base64_normalize_loop out k cs = (out', k + length (filter (\<lambda>c. \<not> base64_ignored_whitespace c) cs)) \<and> length out' = length out \<and>
      take (k + length (filter (\<lambda>c. \<not> base64_ignored_whitespace c) cs)) out' = take k out @ filter (\<lambda>c. \<not> base64_ignored_whitespace c) cs"
proof (induction cs arbitrary: out k)
  case (Cons c cs)
  show ?case
  proof (cases "base64_ignored_whitespace c")
    case True
    with Cons show ?thesis by simp
  next
    case False
    with Cons.IH [of "Suc k" "out[k := c]"] Cons.prems take_update [of k out c] show ?thesis by auto
  qed
qed simp

definition pad_size :: "bytes \<Rightarrow> nat" where
  "pad_size bs = (length bs + 2) div 3 * 3 - length bs"

lemma text_split:
  "\<exists>ys. base64_text bs = ys @ replicate (pad_size bs) padding_character \<and> pad_size bs \<le> 2 \<and>
     list_all (\<lambda>c. c \<noteq> padding_character \<and> fst (base64_char_value c) = MYLITE_OK) ys"
proof (induction bs rule: base64_text.induct)
  case 1
  then show ?case by (simp add: pad_size_def)
next
  case (2 a)
  show ?case
    by (intro exI [of _ "let n = group_number a 0 0 in [base64_char n 3, base64_char n 2]"])
      (simp add: pad_size_def Let_def char_facts numeral_2_eq_2)
next
  case (3 a b)
  show ?case
    by (intro exI [of _ "let n = group_number a b 0 in [base64_char n 3, base64_char n 2, base64_char n 1]"])
      (simp add: pad_size_def Let_def char_facts numeral_2_eq_2)
next
  case (4 a b c r)
  then obtain ys where ys: "base64_text r = ys @ replicate (pad_size r) padding_character" "pad_size r \<le> 2"
    "list_all (\<lambda>c. c \<noteq> padding_character \<and> fst (base64_char_value c) = MYLITE_OK) ys" by auto
  have pad: "pad_size (a # b # c # r) = pad_size r" using div_add_self2 [of 3 "length r + 2"] by (simp add: pad_size_def)
  show ?case unfolding pad using ys
    by (intro exI [of _ "(let n = group_number a b c in [base64_char n 3, base64_char n 2, base64_char n 1, base64_char n 0]) @ ys"])
      (simp add: Let_def char_facts)
qed

lemma validate_loop_pads:
  assumes "list_all (\<lambda>c. c \<noteq> padding_character \<and> fst (base64_char_value c) = MYLITE_OK) ys" "p \<le> 2" "i + length ys + p = n"
  shows "base64_validate_loop n i 0 (ys @ replicate p padding_character) = Some p"
  using assms
proof (induction ys arbitrary: i)
  case Nil
  then consider "p = 0" | "p = 1" | "p = 2" by linarith
  then show ?case using Nil by cases (simp_all add: numeral_2_eq_2)
qed simp


lemma decode_text:
  assumes "k + length bs = output_size" "output_size < length decoded"
  shows "length (base64_decode_valid_normalized (base64_text bs) decoded output_size k) = length decoded \<and>
    take output_size (base64_decode_valid_normalized (base64_text bs) decoded output_size k) = take k decoded @ bs"
  using assms
proof (induction bs arbitrary: k decoded rule: base64_text.induct)
  case 1
  then show ?case by simp
next
  case (2 a)
  define n where "n = group_number a 0 0"
  have bits: "push_bit 2 (sextet (base64_char n 3)) OR drop_bit 4 (sextet (base64_char n 2)) = a"
    using decode_bits(1) [of "\<lambda>k. sextet (base64_char n k)" a 0 0] by (simp add: char_facts n_def)
  show ?case unfolding base64_text.simps n_def [symmetric] Let_def
    using 2 take_update [of k decoded a] by (simp add: char_facts(2) bits)
next
  case (3 a b)
  define n where "n = group_number a b 0"
  have bits: "push_bit 2 (sextet (base64_char n 3)) OR drop_bit 4 (sextet (base64_char n 2)) = a"
      "push_bit 4 (sextet (base64_char n 2)) OR drop_bit 2 (sextet (base64_char n 1)) = b"
    using decode_bits(1,2) [of "\<lambda>k. sextet (base64_char n k)" a b 0] by (simp_all add: char_facts n_def)
  show ?case unfolding base64_text.simps n_def [symmetric] Let_def
    using 3 take_update [of k decoded a] take_update [of "Suc k" "decoded[k := a]" b] by (simp add: char_facts(2) bits bits [simplified])
next
  case (4 a b c r)
  define n where "n = group_number a b c"
  have bits: "push_bit 2 (sextet (base64_char n 3)) OR drop_bit 4 (sextet (base64_char n 2)) = a"
      "push_bit 4 (sextet (base64_char n 2)) OR drop_bit 2 (sextet (base64_char n 1)) = b"
      "push_bit 6 (sextet (base64_char n 1)) OR sextet (base64_char n 0) = c"
    using decode_bits [of "\<lambda>k. sextet (base64_char n k)" a b c] by (simp_all add: char_facts n_def)
  define decoded' where "decoded' = decoded[k := a, Suc k := b, Suc (Suc k) := c]"
  have t: "take (k + 3) decoded' = take k decoded @ [a, b, c]"
    using 4(2,3) take_update [of k decoded a] take_update [of "Suc k" "decoded[k := a]" b]
      take_update [of "Suc (Suc k)" "decoded[k := a, Suc k := b]" c] by (simp add: decoded'_def eval_nat_numeral)
  have "base64_decode_valid_normalized (base64_text (a # b # c # r)) decoded output_size k
      = base64_decode_valid_normalized (base64_text r) decoded' output_size (Suc (Suc (Suc k)))"
    unfolding base64_text.simps n_def [symmetric] Let_def using 4(2,3) by (simp add: char_facts(2) bits bits [simplified] decoded'_def)
  moreover have "k + 3 + length r = output_size" "output_size < length decoded'" using 4(2,3) by (simp_all add: decoded'_def)
  moreover have "Suc (Suc (Suc k)) = k + 3" by simp
  ultimately show ?case using 4(1) [of "k + 3" decoded'] t by (simp add: decoded'_def)
qed


lemma decoded_size: "length (base64_text bs) div 4 * 3 - pad_size bs = length bs"
  unfolding text_length pad_size_def by simp

lemma validate_text:
  assumes "take (length (base64_text bs)) normalized = base64_text bs" "length (base64_text bs) < SIZE_MAX" "bs \<noteq> []"
  shows "base64_validate_normalized normalized (length (base64_text bs)) = (MYLITE_OK, pad_size bs, True)"
proof -
  obtain ys where ys: "base64_text bs = ys @ replicate (pad_size bs) padding_character" "pad_size bs \<le> 2"
    "list_all (\<lambda>c. c \<noteq> padding_character \<and> fst (base64_char_value c) = MYLITE_OK) ys" using text_split by blast
  have "base64_validate_loop (length (base64_text bs)) 0 0 (base64_text bs) = Some (pad_size bs)"
    using validate_loop_pads [OF ys(3,2), of 0 "length (base64_text bs)"] ys(1) by simp
  moreover have "length (base64_text bs) mod 4 = 0" by (simp add: text_length)
  moreover have "\<not> length (base64_text bs) div 4 > SIZE_MAX div 3"
    using assms(2) div_le_mono [of "length (base64_text bs)" SIZE_MAX 4] by (simp add: SIZE_MAX_def)
  moreover have "\<not> length (base64_text bs) div 4 * 3 < pad_size bs" using decoded_size [of bs] assms(3) by (cases bs) auto
  ultimately show ?thesis using ys(2) assms(1) by (simp add: base64_validate_normalized_def)
qed

lemma decode_normalized_outcome:
  assumes "take (length (base64_text bs)) normalized = base64_text bs" "length (base64_text bs) < SIZE_MAX"
    "base64_decode_normalized malloc normalized (length (base64_text bs)) = (rc, out, n, valid)"
  shows "rc = MYLITE_OK \<and> valid \<and> n = length bs \<and> (\<exists>b. out = Some b \<and> n < length b \<and> take n b = bs \<and> b ! n = 0) \<or>
    rc = MYLITE_NOMEM \<and> \<not> valid \<and> out = None \<and> n = 0 \<and> malloc (length bs + 1) = None"
proof (cases "bs = []")
  case True
  with assms(3) show ?thesis by (auto simp: base64_decode_normalized_def base64_decode_empty_def block_def split: option.splits)
next
  case False
  have pos: "length (base64_text bs) \<noteq> 0" using False by (cases bs rule: base64_text.cases) (simp_all add: Let_def)
  note run = base64_decode_normalized_def validate_text [OF assms(1,2) False] decoded_size assms(1)
  show ?thesis
  proof (cases "malloc (length bs + 1)")
    case None
    then have "base64_decode_normalized malloc normalized (length (base64_text bs)) = (MYLITE_NOMEM, None, 0, False)"
      using pos by (simp add: run)
    with assms(3) None show ?thesis by simp
  next
    case (Some fresh)
    define d where "d = base64_decode_valid_normalized (base64_text bs) (block (length bs + 1) fresh) (length bs) 0"
    have "base64_decode_normalized malloc normalized (length (base64_text bs)) = (MYLITE_OK, Some (d[length bs := 0]), length bs, True)"
      using Some pos by (simp add: run d_def Let_def)
    moreover have "length d = length bs + 1" "take (length bs) d = bs"
      using decode_text [of 0 bs "length bs" "block (length bs + 1) fresh"] by (simp_all add: block_def d_def)
    ultimately show ?thesis using assms(3) by auto
  qed
qed

lemma decode_outcome:
  assumes "take n b = base64_lines 0 (base64_text bs)" "n = length (base64_lines 0 (base64_text bs))" "n < SIZE_MAX"
    "mylite_string_base64_decode malloc malloc' (Some b) n = (rc, out, k, valid)"
  shows "rc = MYLITE_OK \<and> valid \<and> k = length bs \<and> (\<exists>d. out = Some d \<and> k < length d \<and> take k d = bs \<and> d ! k = 0) \<or>
    rc = MYLITE_NOMEM \<and> \<not> valid \<and> out = None \<and> k = 0 \<and> (malloc (n + 1) = None \<or> malloc' (length bs + 1) = None)"
proof (cases "malloc (n + 1)")
  case None
  with assms(3,4) show ?thesis by (simp add: mylite_string_base64_decode_def)
next
  case (Some fresh)
  define L where "L = base64_lines 0 (base64_text bs)"
  have filt: "filter (\<lambda>c. \<not> base64_ignored_whitespace c) L = base64_text bs" unfolding L_def by (rule lines_filter [OF text_not_space])
  have "0 + length L < length (block (n + 1) fresh)" using assms(2) by (simp add: L_def block_def)
  from normalize_loop_filter [OF this] obtain z where z: "base64_normalize_loop (block (n + 1) fresh) 0 L = (z, length (base64_text bs))"
    "take (length (base64_text bs)) z = base64_text bs" unfolding filt by auto
  have small: "length (base64_text bs) < SIZE_MAX" using assms(2,3) length_filter_le [of "\<lambda>c. \<not> base64_ignored_whitespace c" L]
    unfolding filt by (simp add: L_def)
  have "mylite_string_base64_decode malloc malloc' (Some b) n =
      base64_decode_normalized malloc' (z[length (base64_text bs) := 0]) (length (base64_text bs))"
    using Some assms(3) z(1) assms(1) [folded L_def] by (simp add: mylite_string_base64_decode_def)
  from decode_normalized_outcome [OF _ small, of "z[length (base64_text bs) := 0]" malloc' rc out k valid] this assms(4) z(2)
  show ?thesis by auto
qed

section \<open>The round trip\<close>

text \<open>
  Property C14. Encoding any bytes gives their Base64 text in lines of 76 characters, ended by a NUL,
  and decoding that text gives the bytes back, ended by a NUL; the only failure of either direction
  is a refused allocation, or a text whose size has no representation.
\<close>

theorem base64_roundtrip:
  "case mylite_string_base64_encode malloc (Some bs) (length bs) of (rc, out, n) \<Rightarrow>
     rc = MYLITE_OK \<and> n = length (base64_lines 0 (base64_text bs)) \<and>
       (\<exists>b. out = Some b \<and> n < length b \<and> take n b = base64_lines 0 (base64_text bs) \<and> b ! n = 0) \<and>
       (case mylite_string_base64_decode malloc1 malloc2 out n of (rc', out', k, valid) \<Rightarrow>
          rc' = MYLITE_OK \<and> valid \<and> k = length bs \<and> (\<exists>d. out' = Some d \<and> k < length d \<and> take k d = bs \<and> d ! k = 0) \<or>
          rc' = MYLITE_NOMEM \<and> \<not> valid \<and> out' = None \<and> k = 0 \<and> (malloc1 (n + 1) = None \<or> malloc2 (length bs + 1) = None)) \<or>
     rc = MYLITE_NOMEM \<and> out = None \<and>
       (malloc (length (base64_lines 0 (base64_text bs)) + 1) = None \<or> SIZE_MAX \<le> length (base64_lines 0 (base64_text bs)))"
proof -
  obtain rc out n where enc: "mylite_string_base64_encode malloc (Some bs) (length bs) = (rc, out, n)" by (metis prod_cases3)
  obtain rc' out' k valid where dec: "mylite_string_base64_decode malloc1 malloc2 out n = (rc', out', k, valid)" by (metis prod_cases4)
  from encode_outcome [OF enc] show ?thesis
  proof (elim disjE conjE exE)
    fix b
    assume b: "rc = MYLITE_OK" "out = Some b" "n < length b" "take n b = base64_lines 0 (base64_text bs)" "b ! n = 0"
      "n = length (base64_lines 0 (base64_text bs))" "n < SIZE_MAX"
    note decode_outcome [OF b(4,6,7) dec [unfolded b(2)]]
    with b show ?thesis unfolding enc dec prod.case by blast
  qed (unfold enc prod.case, blast+)
qed

end
