(* ===== verification/Temporal_Arithmetic.thy ===== *)
theory Temporal_Arithmetic
  imports Period_Functions "HOL-Library.Signed_Division" "HOL-Library.Monad_Syntax"
begin

text \<open>
  Calendar arithmetic, \<^verbatim>\<open>runtime/mylite_temporal_arithmetic.c\<close>: parsing dates and datetimes, adding
  months, the number of a day and the date of a number, and checked 64-bit arithmetic. Signed
  64-bit values are integers; division and remainder are those of C, which truncate. The number of
  a day and the date of a number are computed on any 64-bit input without checks: they are option
  values here, and \<open>None\<close> when a signed operation leaves the 64-bit range, which is undefined in C.
  Adding months, too, computes the months of a year without a check; what is proved of it is for
  the years that parsing yields.
  Unsigned 32-bit values are integers that are reduced wherever the code stores one. Output
  pointers are never null.
\<close>

section \<open>Parts of a datetime\<close>

definition u32 :: "int \<Rightarrow> int" where
  "u32 x = x mod 4294967296"

definition int64 :: "int \<Rightarrow> bool" where
  "int64 x \<longleftrightarrow> INT64_MIN \<le> x \<and> x \<le> INT64_MAX"

text \<open>The result of a signed 64-bit operation, which is defined when it is in range.\<close>

definition i64 :: "int \<Rightarrow> int option" where
  "i64 x = (if int64 x then Some x else None)"

record mylite_temporal_datetime_parts =
  dt_year :: int
  dt_month :: int
  dt_day :: int
  dt_hour :: int
  dt_minute :: int
  dt_second :: int

record mylite_temporal_day_second =
  ds_days :: int
  ds_day_seconds :: int

definition no_datetime :: mylite_temporal_datetime_parts where
  "no_datetime = \<lparr>dt_year = 0, dt_month = 0, dt_day = 0, dt_hour = 0, dt_minute = 0, dt_second = 0\<rparr>"

section \<open>The calendar\<close>

definition date_year_is_leap :: "int \<Rightarrow> bool" where
  "date_year_is_leap y \<longleftrightarrow> y mod 400 = 0 \<or> y mod 4 = 0 \<and> y mod 100 \<noteq> 0"

definition month_days :: "int list" where
  "month_days = [31, 28, 31, 30, 31, 30, 31, 31, 30, 31, 30, 31]"

definition days_in_month :: "int \<Rightarrow> int \<Rightarrow> int" where
  "days_in_month y m =
     (if m < 1 \<or> m > 12 then 0
      else if m = 2 \<and> y \<ge> 0 \<and> y \<le> 4294967295 \<and> date_year_is_leap (u32 y) then 29
      else month_days ! nat (m - 1))"

definition date_year_month_day_valid :: "int \<Rightarrow> int \<Rightarrow> int \<Rightarrow> bool" where
  "date_year_month_day_valid y m d =
     (if y < 1000 \<or> y > 9999 \<or> m < 1 \<or> m > 12 \<or> d < 1 \<or> d > 31 then False else d \<le> days_in_month y m)"

definition datetime_time_components_valid :: "int \<Rightarrow> int \<Rightarrow> int \<Rightarrow> bool" where
  "datetime_time_components_valid h m s \<longleftrightarrow> h \<le> 23 \<and> m \<le> 59 \<and> s \<le> 59"

section \<open>Parsing\<close>

fun component_loop :: "int \<Rightarrow> string \<Rightarrow> int option" where
  "component_loop v [] = Some v"
| "component_loop v (c # cs) =
     (if of_char c < (48::int) \<or> of_char c > (57::int) then None
      else component_loop (u32 (u32 (v * 10) + u32 (of_char c - 48))) cs)"

definition date_component_text_to_u32 :: "string \<Rightarrow> nat \<Rightarrow> int option" where
  "date_component_text_to_u32 t n = (if n = 0 then None else component_loop 0 (take n t))"

definition date_text_has_canonical_shape :: "string option \<Rightarrow> nat \<Rightarrow> bool" where
  "date_text_has_canonical_shape txt text_length =
     (case txt of
        None \<Rightarrow> False
      | Some t \<Rightarrow> if text_length \<noteq> 10 then False else t ! 4 = CHR ''-'' \<and> t ! 7 = CHR ''-'')"

definition datetime_text_has_canonical_shape :: "string option \<Rightarrow> nat \<Rightarrow> bool" where
  "datetime_text_has_canonical_shape txt text_length =
     (case txt of
        None \<Rightarrow> False
      | Some t \<Rightarrow> if text_length \<noteq> 19 then False else t ! 10 = CHR '' '' \<and> t ! 13 = CHR '':'' \<and> t ! 16 = CHR '':'')"

text \<open>The value of a component, at an offset into the text.\<close>

definition component_at :: "string option \<Rightarrow> nat \<Rightarrow> nat \<Rightarrow> int option" where
  "component_at txt offset n = (case txt of None \<Rightarrow> None | Some t \<Rightarrow> date_component_text_to_u32 (drop offset t) n)"

definition date_text_is_canonical_valid :: "string option \<Rightarrow> nat \<Rightarrow> bool" where
  "date_text_is_canonical_valid txt text_length =
     (if \<not> date_text_has_canonical_shape txt text_length then False
      else
        case (component_at txt 0 4, component_at txt 5 2, component_at txt 8 2) of
          (Some y, Some m, Some d) \<Rightarrow> date_year_month_day_valid y m d
        | _ \<Rightarrow> False)"

definition datetime_text_is_canonical_valid :: "string option \<Rightarrow> nat \<Rightarrow> bool" where
  "datetime_text_is_canonical_valid txt text_length =
     (if \<not> datetime_text_has_canonical_shape txt text_length \<or> \<not> date_text_is_canonical_valid txt 10 then False
      else
        case (component_at txt 11 2, component_at txt 14 2, component_at txt 17 2) of
          (Some h, Some m, Some s) \<Rightarrow> datetime_time_components_valid h m s
        | _ \<Rightarrow> False)"

text \<open>The parts are only used when parsing succeeds.\<close>

definition mylite_temporal_arithmetic_parse_datetime_text ::
    "string option \<Rightarrow> nat \<Rightarrow> mylite_temporal_datetime_parts option" where
  "mylite_temporal_arithmetic_parse_datetime_text txt text_length =
     (if date_text_is_canonical_valid txt text_length then
        case (component_at txt 0 4, component_at txt 5 2, component_at txt 8 2) of
          (Some y, Some m, Some d) \<Rightarrow> Some (no_datetime\<lparr>dt_year := y, dt_month := m, dt_day := d\<rparr>)
        | _ \<Rightarrow> None
      else if \<not> datetime_text_is_canonical_valid txt text_length then None
      else
        case (component_at txt 0 4, component_at txt 5 2, component_at txt 8 2) of
          (Some y, Some m, Some d) \<Rightarrow>
            (case (component_at txt 11 2, component_at txt 14 2, component_at txt 17 2) of
               (Some h, Some mi, Some s) \<Rightarrow>
                 Some \<lparr>dt_year = y, dt_month = m, dt_day = d, dt_hour = h, dt_minute = mi, dt_second = s\<rparr>
             | _ \<Rightarrow> None)
        | _ \<Rightarrow> None)"

section \<open>Checked arithmetic\<close>

definition mylite_temporal_arithmetic_checked_add_int64 :: "int \<Rightarrow> int \<Rightarrow> int option" where
  "mylite_temporal_arithmetic_checked_add_int64 left right =
     (if right > 0 \<and> left > INT64_MAX - right \<or> right < 0 \<and> left < INT64_MIN - right then None
      else Some (left + right))"

definition mylite_temporal_arithmetic_checked_multiply_int64 :: "int \<Rightarrow> int \<Rightarrow> int option" where
  "mylite_temporal_arithmetic_checked_multiply_int64 left right =
     (if left = 0 \<or> right = 0 then Some 0
      else if left = -1 \<and> right = INT64_MIN then None
      else if right = -1 \<and> left = INT64_MIN then None
      else if left > 0 then
        if right > 0 \<and> left > INT64_MAX sdiv right \<or> right < 0 \<and> right < INT64_MIN sdiv left then None
        else Some (left * right)
      else if right > 0 \<and> left < INT64_MIN sdiv right \<or> right < 0 \<and> left < INT64_MAX sdiv right then None
      else Some (left * right))"

section \<open>Months and days\<close>

text \<open>Whether the result is a date, and the parts, which are written in either case.\<close>

definition mylite_temporal_arithmetic_add_calendar_months ::
    "mylite_temporal_datetime_parts \<Rightarrow> int \<Rightarrow> bool \<times> mylite_temporal_datetime_parts" where
  "mylite_temporal_arithmetic_add_calendar_months input interval_months =
     (case mylite_temporal_arithmetic_checked_add_int64 (dt_year input * 12 + dt_month input - 1) interval_months of
        None \<Rightarrow> (False, input)
      | Some zero_based_month \<Rightarrow>
          let y = zero_based_month sdiv 12;
              result_month = zero_based_month smod 12;
              (y, result_month) = (if result_month < 0 then (y - 1, result_month + 12) else (y, result_month));
              out = input\<lparr>dt_year := y, dt_month := u32 (result_month + 1)\<rparr>
          in if y < 1000 \<or> y > 9999 then (False, out)
             else
               let day_maximum = days_in_month y (dt_month out)
               in (True, if dt_day out > day_maximum then out\<lparr>dt_day := day_maximum\<rparr> else out))"

definition mylite_temporal_arithmetic_seconds_per_day :: int where
  "mylite_temporal_arithmetic_seconds_per_day = 24 * 3600"

definition mylite_temporal_arithmetic_days_from_datetime :: "mylite_temporal_datetime_parts \<Rightarrow> int option" where
  "mylite_temporal_arithmetic_days_from_datetime datetime =
     do {
       y \<leftarrow> i64 (dt_year datetime - (if dt_month datetime \<le> 2 then 1 else 0));
       dividend \<leftarrow> (if y \<ge> 0 then Some y else i64 (y - 399));
       let era = dividend sdiv 400;
       era_years \<leftarrow> i64 (era * 400);
       years \<leftarrow> i64 (y - era_years);
       let year_of_era = u32 years;
       let month_prime = (if dt_month datetime > 2 then u32 (dt_month datetime - 3) else u32 (dt_month datetime + 9));
       let day_of_year = u32 (u32 (153 * month_prime + 2) div 5 + dt_day datetime - 1);
       let day_of_era = u32 (year_of_era * 365 + year_of_era div 4 - year_of_era div 100 + day_of_year);
       era_days \<leftarrow> i64 (era * 146097);
       days \<leftarrow> i64 (era_days + day_of_era);
       i64 (days - 719468)
     }"

definition mylite_temporal_arithmetic_civil_from_days ::
    "int \<Rightarrow> mylite_temporal_datetime_parts \<Rightarrow> mylite_temporal_datetime_parts option" where
  "mylite_temporal_arithmetic_civil_from_days days out_datetime =
     do {
       days \<leftarrow> i64 (days + 719468);
       dividend \<leftarrow> (if days \<ge> 0 then Some days else i64 (days - 146096));
       let era = dividend sdiv 146097;
       era_days \<leftarrow> i64 (era * 146097);
       offset \<leftarrow> i64 (days - era_days);
       let day_of_era = u32 offset;
       let year_of_era = u32 (day_of_era - day_of_era div 1460 + day_of_era div 36524 - day_of_era div 146096) div 365;
       era_years \<leftarrow> i64 (era * 400);
       y \<leftarrow> i64 (year_of_era + era_years);
       let day_of_year = u32 (day_of_era - (365 * year_of_era + year_of_era div 4 - year_of_era div 100));
       let month_prime = u32 (5 * day_of_year + 2) div 153;
       let d = u32 (day_of_year - u32 (153 * month_prime + 2) div 5 + 1);
       let m = (if month_prime < 10 then u32 (month_prime + 3) else u32 (month_prime - 9));
       year \<leftarrow> i64 (y + (if m \<le> 2 then 1 else 0));
       Some (out_datetime\<lparr>dt_day := d, dt_month := m, dt_year := year\<rparr>)
     }"

definition mylite_temporal_arithmetic_floor_divmod_seconds :: "int \<Rightarrow> mylite_temporal_day_second" where
  "mylite_temporal_arithmetic_floor_divmod_seconds total_seconds =
     (let days = total_seconds sdiv mylite_temporal_arithmetic_seconds_per_day;
          day_seconds = total_seconds smod mylite_temporal_arithmetic_seconds_per_day
      in if day_seconds < 0
         then \<lparr>ds_days = days - 1, ds_day_seconds = day_seconds + mylite_temporal_arithmetic_seconds_per_day\<rparr>
         else \<lparr>ds_days = days, ds_day_seconds = day_seconds\<rparr>)"

end
