(* ===== verification/Calendar.thy ===== *)
theory Calendar
  imports Temporal_Arithmetic
begin

text \<open>
  The calendar arithmetic against the Gregorian calendar: the number of a day counts the days from
  1970-01-01, and the date of a number is its inverse. Years begin in March for the proof, as they
  do in the code, so that the leap day is the last day of a year.
\<close>

section \<open>The Gregorian calendar\<close>

definition month_length :: "int \<Rightarrow> int \<Rightarrow> int" where
  "month_length y m = (if m = 2 then if date_year_is_leap y then 29 else 28 else if m \<in> {4, 6, 9, 11} then 30 else 31)"

definition calendar_date :: "mylite_temporal_datetime_parts \<Rightarrow> bool" where
  "calendar_date t \<longleftrightarrow> 1 \<le> dt_month t \<and> dt_month t \<le> 12 \<and> 1 \<le> dt_day t \<and> dt_day t \<le> month_length (dt_year t) (dt_month t)"

definition next_date :: "mylite_temporal_datetime_parts \<Rightarrow> mylite_temporal_datetime_parts" where
  "next_date t =
     (if dt_day t < month_length (dt_year t) (dt_month t) then t\<lparr>dt_day := dt_day t + 1\<rparr>
      else if dt_month t < 12 then t\<lparr>dt_month := dt_month t + 1, dt_day := 1\<rparr>
      else t\<lparr>dt_year := dt_year t + 1, dt_month := 1, dt_day := 1\<rparr>)"

lemma u32_id [simp]: "0 \<le> x \<Longrightarrow> x < 4294967296 \<Longrightarrow> u32 x = x"
  by (simp add: u32_def)

lemma month_cases: "1 \<le> (m::int) \<Longrightarrow> m \<le> 12 \<Longrightarrow> m \<in> {1, 2, 3, 4, 5, 6, 7, 8, 9, 10, 11, 12}"
  by (simp, presburger)

lemma days_in_month_length:
  assumes "1 \<le> m" "m \<le> 12" "0 \<le> y" "y \<le> 4294967295"
  shows "days_in_month y m = month_length y m"
  using month_cases [OF assms(1,2)] assms(3,4) by (auto simp: days_in_month_def month_length_def month_days_def)

section \<open>Floor division\<close>

lemma floor_div_sdiv: "0 < k \<Longrightarrow> (if y \<ge> 0 then y else y - (k - 1)) sdiv k = y div (k :: int)"
proof (cases "y \<ge> 0")
  case False
  assume k: "0 < k"
  have "(k - 1) - y = k * (- (y div k)) + (k - 1 - y mod k)" using mult_div_mod_eq [of k y] unfolding mult_minus_right by linarith
  moreover have "0 \<le> k - 1 - y mod k" "k - 1 - y mod k < k" using k pos_mod_bound [OF k, of y] pos_mod_sign [OF k, of y] by simp_all
  ultimately have "((k - 1) - y) div k = - (y div k)" using int_div_pos_eq by blast
  with False k show ?thesis by (simp add: signed_divide_int_def abs_if algebra_simps)
qed (simp add: signed_divide_int_def sgn_if)

lemma int_mod_zero: "0 < x \<Longrightarrow> x \<le> n \<Longrightarrow> (x :: int) mod n = 0 \<longleftrightarrow> x = n"
  by (metis less_le mod_pos_pos_trivial mod_self order_less_le order_le_less)

section \<open>Years from March\<close>

definition year_start :: "int \<Rightarrow> int" where
  "year_start y = 365 * y + y div 4 - y div 100"

text \<open>The last day of a year that begins in March of year \<open>y\<close> of an era, counted from zero.\<close>

definition last_day :: "int \<Rightarrow> int" where
  "last_day y = (if date_year_is_leap (y + 1) then 365 else 364)"

lemma leap_era: "date_year_is_leap (400 * e + y) = date_year_is_leap y"
proof -
  have "(400 * e + y) mod 4 = y mod 4" "(400 * e + y) mod 100 = y mod 100" "(400 * e + y) mod 400 = y mod 400"
    using mod_mult_self4 [of 4 "100 * e" y] mod_mult_self4 [of 100 "4 * e" y] mod_mult_self4 [of 400 e y] by simp_all
  then show ?thesis by (simp add: date_year_is_leap_def)
qed

lemma year_parts:
  assumes "0 \<le> c" "c \<le> 3" "0 \<le> q" "q \<le> 24" "0 \<le> r" "r \<le> 3" "y = 100 * c + 4 * q + (r :: int)"
  shows "year_start y = 36524 * c + 1461 * q + 365 * r" "last_day y = (if r = 3 \<and> (q \<noteq> 24 \<or> c = 3) then 365 else 364)"
proof -
  have "y div 4 = 25 * c + q" using assms int_div_pos_eq [of y 4 "25 * c + q" r] by simp
  moreover have "y div 100 = c" using assms int_div_pos_eq [of y 100 c "4 * q + r"] by simp
  ultimately show "year_start y = 36524 * c + 1461 * q + 365 * r" using assms(7) by (simp add: year_start_def)
  have "(y + 1) mod 400 = 0 \<longleftrightarrow> c = 3 \<and> q = 24 \<and> r = 3" 
  proof -
    have "y + 1 = 400 \<longleftrightarrow> c = 3 \<and> q = 24 \<and> r = 3" using assms by presburger
    with assms int_mod_zero [of "y + 1" 400] show ?thesis by simp
  qed
  moreover have "(y + 1) mod 4 = 0 \<longleftrightarrow> r = 3"
    using assms int_mod_zero [of "r + 1" 4] mod_mult_self4 [of 4 "25 * c + q" "r + 1"] by (simp add: algebra_simps)
  moreover have "(y + 1) mod 100 = 0 \<longleftrightarrow> q = 24 \<and> r = 3"
  proof -
    have "4 * q + r + 1 = 100 \<longleftrightarrow> q = 24 \<and> r = 3" using assms(3-6) by presburger
    moreover have "(y + 1) mod 100 = (4 * q + r + 1) mod 100" using mod_mult_self4 [of 100 c "4 * q + r + 1"] assms(7) by (simp add: add.assoc)
    ultimately show ?thesis using assms(3-6) int_mod_zero [of "4 * q + r + 1" 100] by simp
  qed
  ultimately show "last_day y = (if r = 3 \<and> (q \<noteq> 24 \<or> c = 3) then 365 else 364)" by (auto simp: last_day_def date_year_is_leap_def)
qed

lemma year_split:
  assumes "0 \<le> y" "y < (400 :: int)"
  obtains c q r where "0 \<le> c" "c \<le> 3" "0 \<le> q" "q \<le> 24" "0 \<le> r" "r \<le> 3" "y = 100 * c + 4 * q + r"
proof (rule that [of "y div 100" "y mod 100 div 4" "y mod 100 mod 4"])
  show "0 \<le> y div 100" "y div 100 \<le> 3" using assms by simp_all
  show "0 \<le> y mod 100 div 4" "y mod 100 div 4 \<le> 24" using pos_mod_bound [of 100 y] by simp_all
  show "0 \<le> y mod 100 mod 4" "y mod 100 mod 4 \<le> 3" using pos_mod_bound [of 4 "y mod 100"] by simp_all
  show "y = 100 * (y div 100) + 4 * (y mod 100 div 4) + y mod 100 mod 4" by simp
qed

lemma year_of_day:
  assumes y: "0 \<le> y" "y < 400" and k: "0 \<le> k" "k \<le> last_day y"
  defines "n \<equiv> year_start y + k"
  shows "0 \<le> n" "n < 146097" "(n - n div 1460 + n div 36524 - n div 146096) div 365 = y"
proof -
  obtain c q r where p: "0 \<le> c" "c \<le> 3" "0 \<le> q" "q \<le> 24" "0 \<le> r" "r \<le> 3" "y = 100 * c + 4 * q + r" using year_split [OF y] by blast
  note yp = year_parts [OF p]
  have n: "n = 36524 * c + 1461 * q + 365 * r + k" by (simp add: n_def yp)
  have k': "k \<le> 364 \<or> k = 365 \<and> r = 3 \<and> (q \<noteq> 24 \<or> c = 3)" using k unfolding yp by (cases "r = 3 \<and> (q \<noteq> 24 \<or> c = 3)") auto
  show b: "0 \<le> n" "n < 146097" using n p k k' by auto
  have century: "n div 36524 - n div 146096 = c"
  proof (cases "n = 146096")
    case True
    with n p k' show ?thesis by auto
  next
    case False
    then have "n div 146096 = 0" using b by (simp add: div_pos_pos_trivial)
    moreover have "1461 * q + 365 * r + k < 36524" using n p k' False by auto
    then have "n div 36524 = c" using n p k int_div_pos_eq [of n 36524 c "1461 * q + 365 * r + k"] by simp
    ultimately show ?thesis by simp
  qed
  define m where "m = 24 * c + q + 365 * r + k"
  define e where "e = (if m \<ge> 1460 then 1 else 0 :: int)"
  have m: "n = 1460 * (25 * c + q) + m" "0 \<le> m" "m < 2920" using n p k k' by (auto simp: m_def)
  have "n div 1460 = 25 * c + q + e"
    using m int_div_pos_eq [of n 1460 "25 * c + q + e" "m - 1460 * e"] by (auto simp: e_def)
  then have num: "n - n div 1460 + n div 36524 - n div 146096 = 365 * y + (k - e)" using century n p(7) by simp
  have "0 \<le> k - e" "k - e < 365" using p k k' by (auto simp: e_def m_def)
  then show "(n - n div 1460 + n div 36524 - n div 146096) div 365 = y"
    using num int_div_pos_eq [of _ 365 y "k - e"] by simp
qed

lemma day_in_year:
  assumes "0 \<le> n" "n < (146097 :: int)"
  obtains y k where "0 \<le> y" "y < 400" "0 \<le> k" "k \<le> last_day y" "n = year_start y + k"
proof -
  define c where "c = min 3 (n div 36524)"
  define a where "a = n - 36524 * c"
  have "n - 36524 * (n div 36524) = n mod 36524" by (simp add: minus_mult_div_eq_mod)
  then have a: "0 \<le> a" "a \<le> 36524" "a = 36524 \<Longrightarrow> c = 3" "0 \<le> c" "c \<le> 3"
    using assms pos_mod_bound [of 36524 n] pos_mod_sign [of 36524 n] by (auto simp: a_def c_def min_def split: if_splits)
  define q where "q = a div 1461"
  define b where "b = a - 1461 * q"
  have b: "0 \<le> b" "b < 1461" "0 \<le> q" "q \<le> 24"
    using a minus_div_mult_eq_mod [of a 1461] pos_mod_bound [of 1461 a] pos_mod_sign [of 1461 a] by (auto simp: b_def q_def)
  define r where "r = min 3 (b div 365)"
  define k where "k = b - 365 * r"
  have "b - 365 * (b div 365) = b mod 365" by (simp add: minus_mult_div_eq_mod)
  then have r: "0 \<le> k" "k \<le> 365" "0 \<le> r" "r \<le> 3" "k = 365 \<Longrightarrow> r = 3"
    using b pos_mod_bound [of 365 b] pos_mod_sign [of 365 b] by (auto simp: k_def r_def min_def split: if_splits)
  have n: "n = 36524 * c + 1461 * q + 365 * r + k" by (simp add: k_def b_def a_def)
  have "k = 365 \<Longrightarrow> r = 3 \<and> (q \<noteq> 24 \<or> c = 3)" using r a b by (auto simp: k_def b_def)
  with r have "k \<le> (if r = 3 \<and> (q \<noteq> 24 \<or> c = 3) then 365 else 364)" by (cases "k = 365") auto
  note yp = year_parts [OF a(4,5) b(3,4) r(3,4) refl]
  show ?thesis
  proof (rule that)
    show "0 \<le> 100 * c + 4 * q + r" "100 * c + 4 * q + r < 400" using a b r by simp_all
    show "0 \<le> k" by (rule r)
    show "k \<le> last_day (100 * c + 4 * q + r)" "n = year_start (100 * c + 4 * q + r) + k" unfolding yp by fact+
  qed
qed


section \<open>Months from March\<close>

definition month_start :: "int \<Rightarrow> int" where
  "month_start mp = (153 * mp + 2) div 5"

definition march_month :: "int \<Rightarrow> int" where
  "march_month m = (if m > 2 then m - 3 else m + 9)"

definition march_year :: "int \<Rightarrow> int \<Rightarrow> int" where
  "march_year y m = y - (if m \<le> 2 then 1 else 0)"

lemma day_of_year_bound:
  assumes "1 \<le> m" "m \<le> 12" "1 \<le> d" "d \<le> month_length y m"
  shows "0 \<le> month_start (march_month m) + d - 1" "month_start (march_month m) + d - 1 \<le> last_day (march_year y m)"
    "(5 * (month_start (march_month m) + d - 1) + 2) div 153 = march_month m"
proof -
  have "last_day (march_year y m) \<ge> 364" by (simp add: last_day_def)
  moreover have "last_day (march_year y m) = 336 + month_length y m" if "m = 2"
    using that by (simp add: last_day_def march_year_def month_length_def)
  ultimately show "0 \<le> month_start (march_month m) + d - 1" "month_start (march_month m) + d - 1 \<le> last_day (march_year y m)"
    using month_cases [OF assms(1,2)] assms(3,4) by (auto simp: march_month_def month_start_def month_length_def)
  show "(5 * (month_start (march_month m) + d - 1) + 2) div 153 = march_month m"
    using month_cases [OF assms(1,2)] assms(3,4) by (auto simp: march_month_def month_start_def month_length_def split: if_splits)
qed

lemma month_of_day:
  assumes "0 \<le> k" "k \<le> last_day y"
  obtains m d where "1 \<le> m" "m \<le> 12" "1 \<le> d" "d \<le> month_length (y + (if m \<le> 2 then 1 else 0)) m" "k = month_start (march_month m) + d - 1"
proof -
  have k: "k \<le> 365" "k = 365 \<Longrightarrow> date_year_is_leap (y + 1)" using assms by (auto simp: last_day_def split: if_splits)
  note defs = march_month_def month_start_def month_length_def
  consider "k < 31" | "31 \<le> k \<and> k < 61" | "61 \<le> k \<and> k < 92" | "92 \<le> k \<and> k < 122" | "122 \<le> k \<and> k < 153" | "153 \<le> k \<and> k < 184"
    | "184 \<le> k \<and> k < 214" | "214 \<le> k \<and> k < 245" | "245 \<le> k \<and> k < 275" | "275 \<le> k \<and> k < 306" | "306 \<le> k \<and> k < 337" | "337 \<le> k"
    by linarith
  then show ?thesis
  proof cases
    case 1 with assms that [of 3 "k + 1"] show ?thesis by (simp add: defs)
  next
    case 2 with that [of 4 "k - 30"] show ?thesis by (simp add: defs)
  next
    case 3 with that [of 5 "k - 60"] show ?thesis by (simp add: defs)
  next
    case 4 with that [of 6 "k - 91"] show ?thesis by (simp add: defs)
  next
    case 5 with that [of 7 "k - 121"] show ?thesis by (simp add: defs)
  next
    case 6 with that [of 8 "k - 152"] show ?thesis by (simp add: defs)
  next
    case 7 with that [of 9 "k - 183"] show ?thesis by (simp add: defs)
  next
    case 8 with that [of 10 "k - 213"] show ?thesis by (simp add: defs)
  next
    case 9 with that [of 11 "k - 244"] show ?thesis by (simp add: defs)
  next
    case 10 with that [of 12 "k - 274"] show ?thesis by (simp add: defs)
  next
    case 11 with that [of 1 "k - 305"] show ?thesis by (simp add: defs)
  next
    case 12 with k that [of 2 "k - 336"] show ?thesis by (cases "k = 365") (simp_all add: defs)
  qed
qed

section \<open>The number of a day\<close>

text \<open>The number of a day, without bounds, and the numbers on which the code is defined.\<close>

definition day_number :: "mylite_temporal_datetime_parts \<Rightarrow> int" where
  "day_number t =
     (let y = march_year (dt_year t) (dt_month t)
      in 146097 * (y div 400) + year_start (y mod 400) + (month_start (march_month (dt_month t)) + dt_day t - 1) - 719468)"

definition defined_day :: "int \<Rightarrow> bool" where
  "defined_day n \<longleftrightarrow> INT64_MIN \<le> n \<and> n \<le> INT64_MAX - 719468"

lemma era_range:
  assumes "0 \<le> d" "d < 146097"
  shows "int64 (a * 146097 + d) \<and> int64 (a * 146097 + d - 719468) \<longleftrightarrow> defined_day (146097 * a + d - 719468)"
  by (auto simp: int64_def defined_day_def limit_simps)

lemma era_intermediates:
  assumes "defined_day (146097 * a + d - 719468)" "0 \<le> d" "d < 146097" "0 \<le> r" "r < 400"
  shows "int64 (400 * a + r)" "int64 (400 * a + r - 399)" "int64 (a * 400)" "int64 r" "int64 (a * 146097)" "int64 (400 * a + r + 1)"
  using assms by (simp_all add: int64_def defined_day_def limit_simps)

lemma bind_guard: "Option.bind (if P then Some x else None) f = (if P then f x else None)"
  by simp

lemma days_from_march:
  assumes "calendar_date t"
  shows "mylite_temporal_arithmetic_days_from_datetime t = (if defined_day (day_number t) then Some (day_number t) else None)"
proof -
  define y where "y = march_year (dt_year t) (dt_month t)"
  note t = assms(1) [unfolded calendar_date_def]
  define k where "k = month_start (march_month (dt_month t)) + dt_day t - 1"
  define d where "d = year_start (y mod 400) + k"
  have y: "y = dt_year t - (if dt_month t \<le> 2 then 1 else 0)" by (simp add: y_def march_year_def)
  have era: "(if y \<ge> 0 then y else y - 399) sdiv 400 = y div 400" using floor_div_sdiv [of 400 y] by (cases "0 \<le> y") simp_all
  have yoe: "y - y div 400 * 400 = y mod 400" "u32 (y mod 400) = y mod 400" "0 \<le> y mod 400" "y mod 400 < 400"
    using pos_mod_bound [of 400 y] pos_mod_sign [of 400 y] by (simp_all add: minus_div_mult_eq_mod)
  have mp: "(if dt_month t > 2 then u32 (dt_month t - 3) else u32 (dt_month t + 9)) = march_month (dt_month t)"
    "0 \<le> march_month (dt_month t)" "march_month (dt_month t) \<le> 11" using t by (auto simp: march_month_def)
  have k: "0 \<le> k" "k \<le> last_day y" using day_of_year_bound [of "dt_month t" "dt_day t" "dt_year t"] t by (simp_all add: k_def y_def)
  have "last_day y \<le> 365" by (simp add: last_day_def)
  have doy: "u32 (u32 (153 * march_month (dt_month t) + 2) div 5 + dt_day t - 1) = k"
    using k \<open>last_day y \<le> 365\<close> mp by (simp add: k_def month_start_def)
  have ly: "last_day y = last_day (y mod 400)"
    using leap_era [of "y div 400" "y mod 400 + 1"] by (simp add: last_day_def)
  have d: "0 \<le> d" "d < 146097" using year_of_day [OF yoe(3,4) k [unfolded ly]] by (simp_all add: d_def)
  have "y mod 400 * 365 + y mod 400 div 4 - y mod 400 div 100 + k = d" unfolding d_def year_start_def by linarith
  then have doe: "u32 (y mod 400 * 365 + y mod 400 div 4 - y mod 400 div 100 + k) = d" using d by simp
  have N: "day_number t = 146097 * (y div 400) + d - 719468" by (simp add: day_number_def Let_def y_def [symmetric] d_def k_def)
  note ei = era_intermediates [of "y div 400" d "y mod 400", folded N, OF _ d yoe(3,4)]
  have dividend: "(if y \<ge> 0 then Some y else i64 (y - 399)) =
      (if y \<ge> 0 \<or> int64 (y - 399) then Some (if y \<ge> 0 then y else y - 399) else None)" by (simp add: i64_def)
  have run: "mylite_temporal_arithmetic_days_from_datetime t =
      (if int64 y \<and> (y \<ge> 0 \<or> int64 (y - 399)) \<and> int64 (y div 400 * 400) \<and> int64 (y mod 400) \<and> int64 (y div 400 * 146097) \<and>
         int64 (y div 400 * 146097 + d) \<and> int64 (y div 400 * 146097 + d - 719468)
       then Some (y div 400 * 146097 + d - 719468) else None)"
    unfolding mylite_temporal_arithmetic_days_from_datetime_def Let_def y [symmetric] i64_def [of y] bind_guard
    unfolding dividend
    unfolding i64_def bind_guard era yoe mp(1) doy doe by (simp only: split: if_split) blast
  show ?thesis
  proof (cases "defined_day (day_number t)")
    case True
    have "400 * (y div 400) + y mod 400 = y" by simp
    with ei [OF True] era_range [OF d, of "y div 400", folded N] True N show ?thesis by (simp add: run)
  next
    case False
    with era_range [OF d, of "y div 400", folded N] show ?thesis by (auto simp: run)
  qed
qed

lemma days_of_parts:
  "dt_year s = dt_year t \<Longrightarrow> dt_month s = dt_month t \<Longrightarrow> dt_day s = dt_day t \<Longrightarrow> day_number s = day_number t"
  by (simp only: day_number_def)

lemma civil_from_march:
  assumes "0 \<le> y" "y < 400" and m: "1 \<le> m" "m \<le> 12" "1 \<le> d" "d \<le> month_length (y + (if m \<le> 2 then 1 else 0)) m"
    and days: "days + 719468 = 146097 * e + (year_start y + (month_start (march_month m) + d - 1))" and def: "defined_day days"
  shows "mylite_temporal_arithmetic_civil_from_days days t =
    Some (t\<lparr>dt_day := d, dt_month := m, dt_year := 400 * e + y + (if m \<le> 2 then 1 else 0)\<rparr>)"
proof -
  define k where "k = month_start (march_month m) + d - 1"
  define n where "n = year_start y + k"
  have my: "march_year (y + (if m \<le> 2 then 1 else 0)) m = y" by (simp add: march_year_def)
  note doy = day_of_year_bound [OF m, unfolded my, folded k_def]
  have "last_day y \<le> 365" by (simp add: last_day_def)
  note yoe = year_of_day [OF assms(1,2) doy(1,2), folded n_def]
  have N: "days + 719468 = 146097 * e + n" using days by (simp add: n_def k_def)
  then have "days = 146097 * e + n - 719468" by simp
  note ei = era_intermediates [OF def [unfolded this] yoe(1,2) assms(1,2)]
  have "(days + 719468) div 146097 = e" using N yoe int_div_pos_eq by blast
  then have era: "(if days + 719468 \<ge> 0 then days + 719468 else days + 719468 - 146096) sdiv 146097 = e"
    using floor_div_sdiv [of 146097 "days + 719468"] by (cases "0 \<le> days + 719468") simp_all
  have "int64 (days + 719468)" "days + 719468 < 0 \<Longrightarrow> int64 (days + 719468 - 146096)"
    using def by (simp_all add: int64_def defined_day_def limit_simps)
  then have shifted: "i64 (days + 719468) = Some (days + 719468)"
    "(if days + 719468 \<ge> 0 then Some (days + 719468) else i64 (days + 719468 - 146096)) =
      Some (if days + 719468 \<ge> 0 then days + 719468 else days + 719468 - 146096)" by (auto simp: i64_def)
  have off: "days + 719468 - e * 146097 = n" using N by simp
  have wide: "i64 (e * 146097) = Some (e * 146097)" "i64 n = Some n" "i64 (e * 400) = Some (e * 400)"
    "i64 (y + e * 400) = Some (y + e * 400)" "i64 (y + e * 400 + (if m \<le> 2 then 1 else 0)) = Some (y + e * 400 + (if m \<le> 2 then 1 else 0))"
    using ei yoe(1,2) by (simp_all add: i64_def int64_def limit_simps ac_simps)
  have doe: "u32 n = n" using yoe by simp
  have nn: "0 \<le> n - n div 1460 + n div 36524 - n div 146096" using yoe assms(1) by (metis div_pos_neg_trivial not_less pos_imp_zdiv_nonneg_iff zero_less_numeral)
  have "n div 1460 \<ge> 0" "n div 36524 \<le> n" "n div 146096 \<ge> 0" using yoe(1) by (simp_all add: pos_imp_zdiv_nonneg_iff int_div_le_self)
  then have "n - n div 1460 + n div 36524 - n div 146096 < 4294967296" using yoe(2) by linarith
  with nn yoe(3) have year: "u32 (n - n div 1460 + n div 36524 - n div 146096) div 365 = y" by simp
  have day: "u32 (n - (365 * y + y div 4 - y div 100)) = k" using doy \<open>last_day y \<le> 365\<close> by (simp add: n_def year_start_def)
  have mp: "0 \<le> march_month m" "march_month m \<le> 11" using m by (auto simp: march_month_def)
  have month: "u32 (5 * k + 2) div 153 = march_month m" using doy \<open>last_day y \<le> 365\<close> by simp
  have "u32 (153 * march_month m + 2) div 5 = month_start (march_month m)" using mp by (simp add: month_start_def)
  moreover have "d \<le> 31" using m(4) by (simp add: month_length_def split: if_splits)
  ultimately have dd: "u32 (k - u32 (153 * march_month m + 2) div 5 + 1) = d" using m(3) by (simp add: k_def)
  have mm: "(if march_month m < 10 then u32 (march_month m + 3) else u32 (march_month m - 9)) = m" using m(1,2) by (auto simp: march_month_def)
  show ?thesis
    unfolding mylite_temporal_arithmetic_civil_from_days_def Let_def shifted Option.bind.simps era wide off doe year day month dd mm
    by (simp add: ac_simps)
qed

lemma month_length_era: "month_length (400 * e + y) m = month_length y m"
  by (simp add: month_length_def leap_era)

lemma civil_of_days:
  assumes "calendar_date t" "defined_day (day_number t)"
  shows "mylite_temporal_arithmetic_civil_from_days (day_number t) s =
    Some (s\<lparr>dt_day := dt_day t, dt_month := dt_month t, dt_year := dt_year t\<rparr>)"
proof -
  define y where "y = march_year (dt_year t) (dt_month t)"
  have t: "1 \<le> dt_month t" "dt_month t \<le> 12" "1 \<le> dt_day t" "dt_day t \<le> month_length (dt_year t) (dt_month t)"
    using assms by (simp_all add: calendar_date_def)
  have year: "dt_year t = 400 * (y div 400) + (y mod 400 + (if dt_month t \<le> 2 then 1 else 0))" by (simp add: y_def march_year_def)
  have d: "dt_day t \<le> month_length (y mod 400 + (if dt_month t \<le> 2 then 1 else 0)) (dt_month t)"
    using t(4) unfolding year month_length_era .
  have "day_number t + 719468 =
      146097 * (y div 400) + (year_start (y mod 400) + (month_start (march_month (dt_month t)) + dt_day t - 1))"
    by (simp add: day_number_def Let_def y_def)
  from civil_from_march [OF pos_mod_sign pos_mod_bound t(1-3) d this assms(2), of s]
  have "mylite_temporal_arithmetic_civil_from_days (day_number t) s =
      Some (s\<lparr>dt_day := dt_day t, dt_month := dt_month t, dt_year := 400 * (y div 400) + y mod 400 + (if dt_month t \<le> 2 then 1 else 0)\<rparr>)"
    by (simp only: zero_less_numeral)
  then show ?thesis using year by (simp add: add.assoc)
qed

lemma civil_overflow: "INT64_MAX - 719468 < n \<Longrightarrow> mylite_temporal_arithmetic_civil_from_days n s = None"
proof -
  assume "INT64_MAX - 719468 < n"
  then have "i64 (n + 719468) = None" by (simp add: i64_def int64_def)
  then show ?thesis by (simp only: mylite_temporal_arithmetic_civil_from_days_def Option.bind.simps)
qed

lemma days_onto:
  obtains t where "calendar_date t" "day_number t = days"
proof -
  define n where "n = (days + 719468) mod 146097"
  define e where "e = (days + 719468) div 146097"
  have n: "0 \<le> n" "n < 146097" by (simp_all add: n_def)
  obtain y k where y: "0 \<le> y" "y < 400" "0 \<le> k" "k \<le> last_day y" "n = year_start y + k" using day_in_year [OF n] by blast
  obtain m d where m: "1 \<le> m" "m \<le> 12" "1 \<le> d" "d \<le> month_length (y + (if m \<le> 2 then 1 else 0)) m"
    "k = month_start (march_month m) + d - 1" using month_of_day [OF y(3,4)] by blast
  define z where "z = y + (if m \<le> 2 then 1 else 0)"
  define t where "t = no_datetime\<lparr>dt_year := 400 * e + z, dt_month := m, dt_day := d\<rparr>"
  have "month_length (dt_year t) (dt_month t) = month_length z m" by (simp add: t_def month_length_era)
  with m(1-3) m(4) [folded z_def] have c: "calendar_date t" unfolding calendar_date_def by (simp add: t_def)
  have "march_year (dt_year t) (dt_month t) = 400 * e + y" by (simp add: t_def march_year_def z_def)
  moreover have "(400 * e + y) div 400 = e" "(400 * e + y) mod 400 = y" using y by simp_all
  moreover have "146097 * e + n = days + 719468" by (simp add: n_def e_def)
  ultimately have "day_number t = days"
    using y(5) m(5) by (simp add: day_number_def Let_def t_def)
  with c show ?thesis by (rule that)
qed

text \<open>Within 25 thousand million million years of year 0 the code is defined.\<close>

lemma day_number_bounds:
  assumes "calendar_date t" "- 25000000000000000 \<le> dt_year t" "dt_year t \<le> 25000000000000000"
  shows "defined_day (day_number t)"
proof -
  define y where "y = march_year (dt_year t) (dt_month t)"
  define k where "k = month_start (march_month (dt_month t)) + dt_day t - 1"
  have k: "0 \<le> k" "k \<le> last_day y" "last_day y = last_day (y mod 400)"
    using day_of_year_bound [of "dt_month t" "dt_day t" "dt_year t"] assms(1) leap_era [of "y div 400" "y mod 400 + 1"]
    by (simp_all add: calendar_date_def k_def y_def last_day_def)
  from year_of_day [of "y mod 400" k] k have d: "0 \<le> year_start (y mod 400) + k" "year_start (y mod 400) + k < 146097" by simp_all
  have "- 25000000000000001 \<le> y" "y \<le> 25000000000000000" using assms(2,3) by (auto simp: y_def march_year_def)
  moreover have "y = 400 * (y div 400) + y mod 400" "0 \<le> y mod 400" "y mod 400 < 400" by simp_all
  ultimately have "- 62500000000001 \<le> y div 400" "y div 400 \<le> 62500000000000" by linarith+
  moreover have "day_number t = 146097 * (y div 400) + (year_start (y mod 400) + k) - 719468"
    by (simp add: day_number_def Let_def y_def k_def)
  ultimately show ?thesis using d unfolding defined_day_def limit_simps by linarith
qed

section \<open>The next day\<close>

lemma year_start_next:
  assumes "0 \<le> y" "y < 400"
  shows "year_start y + last_day y + 1 = (if y = 399 then 146097 else year_start (y + 1))"
proof -
  obtain c q r where p: "0 \<le> c" "c \<le> 3" "0 \<le> q" "q \<le> 24" "0 \<le> r" "r \<le> 3" "y = 100 * c + 4 * q + r" using year_split [OF assms] by blast
  note yp = year_parts [OF p]
  consider "r \<noteq> 3" | "r = 3" "q \<noteq> 24" | "r = 3" "q = 24" "c \<noteq> 3" | "r = 3" "q = 24" "c = 3" by blast
  then show ?thesis
  proof cases
    case 1
    with p year_parts(1) [of c q "r + 1" "y + 1"] show ?thesis unfolding yp by simp
  next
    case 2
    with p year_parts(1) [of c "q + 1" 0 "y + 1"] show ?thesis unfolding yp by simp
  next
    case 3
    with p year_parts(1) [of "c + 1" 0 0 "y + 1"] show ?thesis unfolding yp by simp
  next
    case 4
    with p show ?thesis unfolding yp by simp
  qed
qed

lemma march_year_next:
  "146097 * ((y + 1) div 400) + year_start ((y + 1) mod 400) = 146097 * (y div 400) + year_start (y mod 400) + last_day y + 1"
proof -
  have ly: "last_day y = last_day (y mod 400)"
    using leap_era [of "y div 400" "y mod 400 + 1"] by (simp add: last_day_def)
  have b: "0 \<le> y mod 400" "y mod 400 < 400" by simp_all
  have y: "y = 400 * (y div 400) + y mod 400" by simp
  show ?thesis
  proof (cases "y mod 400 = 399")
    case True
    then have "y + 1 = 400 * (y div 400) + 400" using mult_div_mod_eq [of 400 y] by (simp only:)
    then have "y + 1 = 400 * (y div 400 + 1) + 0" by (simp only: distrib_left mult_1_right add_0_right)
    then have "(y + 1) div 400 = y div 400 + 1" "(y + 1) mod 400 = 0"
      using int_div_pos_eq [of "y + 1" 400 "y div 400 + 1" 0] int_mod_pos_eq [of "y + 1" 400 "y div 400 + 1" 0] by simp_all
    moreover have "year_start 0 = 0" by (simp add: year_start_def)
    ultimately show ?thesis using year_start_next [OF b] True by (simp add: ly)
  next
    case False
    then have "y + 1 = 400 * (y div 400) + (y mod 400 + 1)" "0 \<le> y mod 400 + 1" "y mod 400 + 1 < 400" using b by simp_all
    then have "(y + 1) div 400 = y div 400" "(y + 1) mod 400 = y mod 400 + 1" by (blast intro: int_div_pos_eq int_mod_pos_eq)+
    with year_start_next [OF b] False show ?thesis by (simp add: ly)
  qed
qed

lemma next_date_days:
  assumes "calendar_date t"
  shows "calendar_date (next_date t)"
    "day_number (next_date t) = day_number t + 1"
proof -
  have t: "1 \<le> dt_month t" "dt_month t \<le> 12" "1 \<le> dt_day t" "dt_day t \<le> month_length (dt_year t) (dt_month t)"
    using assms by (simp_all add: calendar_date_def)
  have ml: "1 \<le> month_length y m" for y m by (simp add: month_length_def)
  show c: "calendar_date (next_date t)" using t ml by (simp add: next_date_def calendar_date_def)
  note days = day_number_def Let_def
  show "day_number (next_date t) = day_number t + 1"
  proof (cases "dt_day t < month_length (dt_year t) (dt_month t)")
    case True
    then show ?thesis unfolding days by (simp add: next_date_def)
  next
    case False
    then have last: "dt_day t = month_length (dt_year t) (dt_month t)" using t(4) by simp
    consider "dt_month t = 2" | "dt_month t = 12" | "dt_month t \<noteq> 2" "dt_month t < 12" using t(2) by linarith
    then show ?thesis
    proof cases
      case 1
      then have n: "dt_year (next_date t) = dt_year t" "dt_month (next_date t) = 3" "dt_day (next_date t) = 1" using False by (simp_all add: next_date_def)
      have "last_day (dt_year t - 1) = 336 + dt_day t" using last 1 by (simp add: last_day_def month_length_def)
      with march_year_next [of "dt_year t - 1"] show ?thesis unfolding days n by (simp add: 1 march_year_def march_month_def month_start_def)
    next
      case 2
      with False have n: "dt_year (next_date t) = dt_year t + 1" "dt_month (next_date t) = 1" "dt_day (next_date t) = 1" by (simp_all add: next_date_def)
      have "dt_day t = 31" using last 2 by (simp add: month_length_def)
      then show ?thesis unfolding days n by (simp add: 2 march_year_def march_month_def month_start_def)
    next
      case 3
      with False have n: "dt_year (next_date t) = dt_year t" "dt_month (next_date t) = dt_month t + 1" "dt_day (next_date t) = 1" by (simp_all add: next_date_def)
      have "march_year (dt_year t) (dt_month t + 1) = march_year (dt_year t) (dt_month t)" using 3 t by (simp add: march_year_def)
      moreover have "month_start (march_month (dt_month t + 1)) = month_start (march_month (dt_month t)) + month_length (dt_year t) (dt_month t)"
        using 3 t(1) month_cases [OF t(1,2)] by (auto simp: march_month_def month_start_def month_length_def)
      ultimately show ?thesis unfolding days n last by simp
    qed
  qed
qed

section \<open>The calendar is exact\<close>

text \<open>
  Property C13. The number of a day counts the days of the Gregorian calendar from 1970-01-01, as
  far as 64 bits allow: that day is 0, and when the code computes the number \<open>k\<close> of a date, the
  number of the next date is \<open>k + 1\<close> and the date of \<open>k\<close> is that date. The number is computed, and
  no signed operation overflows on the way, for every date within 25 thousand million million years
  of year 0. The date of a 64-bit number is computed without overflow exactly for the numbers that
  are at most INT64_MAX - 719468; it is a date of the calendar, has that number, and the time of
  day is kept. The numbers computed for dates are in that range, too: for the day after the last
  one the code overflows.
\<close>

theorem calendar_days_exact:
  assumes "int64 n"
  shows "mylite_temporal_arithmetic_days_from_datetime (no_datetime\<lparr>dt_year := 1970, dt_month := 1, dt_day := 1\<rparr>) = Some 0 \<and>
   (calendar_date t \<and> - 25000000000000000 \<le> dt_year t \<and> dt_year t \<le> 25000000000000000 \<longrightarrow>
      (\<exists>k. mylite_temporal_arithmetic_days_from_datetime t = Some k)) \<and>
   (\<forall>k. calendar_date t \<and> mylite_temporal_arithmetic_days_from_datetime t = Some k \<longrightarrow>
      INT64_MIN \<le> k \<and> k \<le> INT64_MAX - 719468 \<and> calendar_date (next_date t) \<and>
      mylite_temporal_arithmetic_days_from_datetime (next_date t) = (if k < INT64_MAX - 719468 then Some (k + 1) else None) \<and>
      mylite_temporal_arithmetic_civil_from_days k s =
        Some (s\<lparr>dt_year := dt_year t, dt_month := dt_month t, dt_day := dt_day t\<rparr>)) \<and>
   (if n \<le> INT64_MAX - 719468
    then \<exists>y m d. mylite_temporal_arithmetic_civil_from_days n s = Some (s\<lparr>dt_year := y, dt_month := m, dt_day := d\<rparr>) \<and>
      calendar_date (s\<lparr>dt_year := y, dt_month := m, dt_day := d\<rparr>) \<and>
      mylite_temporal_arithmetic_days_from_datetime (s\<lparr>dt_year := y, dt_month := m, dt_day := d\<rparr>) = Some n
    else mylite_temporal_arithmetic_civil_from_days n s = None)"
proof (intro conjI impI allI)
  show "mylite_temporal_arithmetic_days_from_datetime (no_datetime\<lparr>dt_year := 1970, dt_month := 1, dt_day := 1\<rparr>) = Some 0"
    by (simp add: mylite_temporal_arithmetic_days_from_datetime_def no_datetime_def u32_def signed_divide_int_def i64_def int64_def limit_simps)
  show "\<exists>k. mylite_temporal_arithmetic_days_from_datetime t = Some k"
    if "calendar_date t \<and> - 25000000000000000 \<le> dt_year t \<and> dt_year t \<le> 25000000000000000"
    using that by (simp add: days_from_march day_number_bounds)
next
  fix k
  assume "calendar_date t \<and> mylite_temporal_arithmetic_days_from_datetime t = Some k"
  then have t: "calendar_date t" and k: "defined_day k" "day_number t = k" by (auto simp: days_from_march split: if_splits)
  note n = next_date_days [OF t]
  show "INT64_MIN \<le> k" "k \<le> INT64_MAX - 719468" using k by (simp_all add: defined_day_def)
  show "calendar_date (next_date t)" by (rule n)
  have "defined_day (k + 1) \<longleftrightarrow> k < INT64_MAX - 719468" using k(1) unfolding defined_day_def by linarith
  with n k show "mylite_temporal_arithmetic_days_from_datetime (next_date t) = (if k < INT64_MAX - 719468 then Some (k + 1) else None)"
    by (simp add: days_from_march)
  from civil_of_days [OF t, of s] k
  show "mylite_temporal_arithmetic_civil_from_days k s = Some (s\<lparr>dt_year := dt_year t, dt_month := dt_month t, dt_day := dt_day t\<rparr>)"
    by simp
next
  obtain u where u: "calendar_date u" "day_number u = n" using days_onto .
  let ?c = "s\<lparr>dt_year := dt_year u, dt_month := dt_month u, dt_day := dt_day u\<rparr>"
  have c: "calendar_date ?c" "day_number ?c = n" using u days_of_parts [of ?c u] by (simp_all add: calendar_date_def)
  show "if n \<le> INT64_MAX - 719468
    then \<exists>y m d. mylite_temporal_arithmetic_civil_from_days n s = Some (s\<lparr>dt_year := y, dt_month := m, dt_day := d\<rparr>) \<and>
      calendar_date (s\<lparr>dt_year := y, dt_month := m, dt_day := d\<rparr>) \<and>
      mylite_temporal_arithmetic_days_from_datetime (s\<lparr>dt_year := y, dt_month := m, dt_day := d\<rparr>) = Some n
    else mylite_temporal_arithmetic_civil_from_days n s = None"
  proof (cases "n \<le> INT64_MAX - 719468")
    case True
    then have d: "defined_day n" using assms by (simp add: defined_day_def int64_def)
    have "mylite_temporal_arithmetic_civil_from_days n s = Some ?c" using civil_of_days [OF u(1), of s] u(2) d by simp
    moreover have "mylite_temporal_arithmetic_days_from_datetime ?c = Some n" using days_from_march [OF c(1)] c(2) d by simp
    ultimately show ?thesis using True c(1) by auto
  next
    case False
    then show ?thesis by (simp add: civil_overflow)
  qed
qed

theorem calendar_days_exact_witness:
  "let t = no_datetime\<lparr>dt_year := 2000, dt_month := 2, dt_day := 28\<rparr>
   in calendar_date t \<and> dt_day (next_date t) = 29 \<and>
      (\<exists>k. mylite_temporal_arithmetic_days_from_datetime t = Some k \<and>
        mylite_temporal_arithmetic_civil_from_days k no_datetime = Some t) \<and>
      mylite_temporal_arithmetic_civil_from_days INT64_MAX t = None"
proof -
  let ?t = "no_datetime\<lparr>dt_year := 2000, dt_month := 2, dt_day := 28\<rparr>"
  have t: "calendar_date ?t" "- 25000000000000000 \<le> dt_year ?t" "dt_year ?t \<le> 25000000000000000" "dt_day (next_date ?t) = 29"
    by (simp_all add: calendar_date_def next_date_def month_length_def date_year_is_leap_def)
  have m: "int64 INT64_MAX" "\<not> INT64_MAX \<le> INT64_MAX - 719468" by (simp_all add: int64_def limit_simps)
  have same: "no_datetime\<lparr>dt_year := dt_year ?t, dt_month := dt_month ?t, dt_day := dt_day ?t\<rparr> = ?t" by simp
  from calendar_days_exact [OF m(1), of ?t no_datetime, unfolded same] calendar_days_exact [OF m(1), of ?t ?t] t m(2)
  show ?thesis unfolding Let_def by (metis (no_types, lifting))
qed

end
