(* ===== verification/Temporal_Intervals.thy ===== *)
theory Temporal_Intervals
  imports Calendar
begin

text \<open>
  Checked arithmetic, intervals of months and the texts of dates: what the operations of
  \<^verbatim>\<open>runtime/mylite_temporal_arithmetic.c\<close> return on every input.
\<close>

section \<open>Checked arithmetic\<close>


lemma checked_add_exact:
  "int64 left \<Longrightarrow> int64 right \<Longrightarrow>
    mylite_temporal_arithmetic_checked_add_int64 left right = (if int64 (left + right) then Some (left + right) else None)"
  by (auto simp: mylite_temporal_arithmetic_checked_add_int64_def int64_def)

lemma sdiv_pos: "0 \<le> a \<Longrightarrow> 0 < b \<Longrightarrow> a sdiv b = a div (b :: int)"
  by (cases "a = 0") (simp_all add: signed_divide_int_def)

lemma sdiv_neg: "a < 0 \<Longrightarrow> 0 < b \<Longrightarrow> a sdiv b = - (- a div (b :: int))" "0 \<le> a \<Longrightarrow> b < 0 \<Longrightarrow> a sdiv b = - (a div (- b))"
  by (cases "a = 0"; simp add: signed_divide_int_def)+

lemma div_bound: "0 < (r::int) \<Longrightarrow> l \<le> m div r \<longleftrightarrow> l * r \<le> m"
proof -
  assume r: "0 < r"
  have m: "m = m div r * r + m mod r" "0 \<le> m mod r" "m mod r < r" using r by simp_all
  show ?thesis
  proof
    assume "l \<le> m div r"
    then have "l * r \<le> m div r * r" using r by (intro mult_right_mono) simp_all
    with m show "l * r \<le> m" by linarith
  next
    assume "l * r \<le> m"
    then have "l * r < (m div r + 1) * r" unfolding distrib_right mult_1_left using m by linarith
    with r show "l \<le> m div r" by simp
  qed
qed

lemma checked_multiply_exact:
  assumes "int64 left" "int64 right"
  shows "mylite_temporal_arithmetic_checked_multiply_int64 left right = (if int64 (left * right) then Some (left * right) else None)"
proof -
  have small: "\<not> INT64_MAX < left * right" if "left * right \<le> 0" using that by (simp add: INT64_MAX_def)
  have big: "\<not> left * right < INT64_MIN" if "0 \<le> left * right" using that by (simp add: INT64_MIN_def)
  note [simp] = mylite_temporal_arithmetic_checked_multiply_int64_def
  consider "left = 0 \<or> right = 0" | "left > 0" "right > 0" | "left > 0" "right < 0" | "left < 0" "right > 0" | "left < 0" "right < 0"
    by linarith
  then show ?thesis
  proof cases
    case 1
    then show ?thesis by (auto simp: int64_def limit_simps)
  next
    case 2
    have "left > INT64_MAX sdiv right \<longleftrightarrow> left * right > INT64_MAX"
      using 2 div_bound [of right left INT64_MAX] sdiv_pos [of INT64_MAX right] by (simp add: INT64_MAX_def not_le [symmetric])
    with 2 big show ?thesis by (auto simp: int64_def)
  next
    case 3
    have "right < INT64_MIN sdiv left \<longleftrightarrow> left * right < INT64_MIN"
      using 3 div_bound [of left "- right" "- INT64_MIN"] sdiv_neg(1) [of INT64_MIN left] by (simp add: INT64_MIN_def mult.commute) linarith
    with 3 small show ?thesis by (auto simp: int64_def mult_pos_neg order.strict_implies_order)
  next
    case 4
    have "left < INT64_MIN sdiv right \<longleftrightarrow> left * right < INT64_MIN"
      using 4 div_bound [of right "- left" "- INT64_MIN"] sdiv_neg(1) [of INT64_MIN right] by (simp add: INT64_MIN_def) linarith
    with 4 small show ?thesis by (auto simp: int64_def mult_neg_pos order.strict_implies_order)
  next
    case 5
    have "left < INT64_MAX sdiv right \<longleftrightarrow> left * right > INT64_MAX"
      using 5 div_bound [of "- right" "- left" INT64_MAX] sdiv_neg(2) [of INT64_MAX right] by (simp add: INT64_MAX_def) linarith
    moreover have "\<not> int64 (left * right)" if "left = -1 \<and> right = INT64_MIN \<or> right = -1 \<and> left = INT64_MIN"
      using that by (auto simp: int64_def limit_simps)
    ultimately show ?thesis using 5 big by (auto simp: int64_def mult_neg_neg order.strict_implies_order)
  qed
qed

lemma floor_divmod:
  assumes "0 < (k :: int)"
  shows "(if n smod k < 0 then n sdiv k - 1 else n sdiv k) = n div k" "(if n smod k < 0 then n smod k + k else n smod k) = n mod k"
proof -
  have e: "n = k * (n sdiv k) + n smod k" using sdiv_mult_smod_eq [of n k] by (simp add: mult.commute)
  have b: "- k < n smod k" "n smod k < k" using smod_int_range [of k n] assms by auto
  show "(if n smod k < 0 then n sdiv k - 1 else n sdiv k) = n div k" "(if n smod k < 0 then n smod k + k else n smod k) = n mod k"
    using e b int_div_pos_eq [of n k "n sdiv k - 1" "n smod k + k"] int_mod_pos_eq [of n k "n sdiv k - 1" "n smod k + k"]
      int_div_pos_eq [of n k "n sdiv k" "n smod k"] int_mod_pos_eq [of n k "n sdiv k" "n smod k"] by (auto simp: right_diff_distrib)
qed

lemma floor_divmod_seconds_exact:
  "mylite_temporal_arithmetic_floor_divmod_seconds n = \<lparr>ds_days = n div 86400, ds_day_seconds = n mod 86400\<rparr>"
  using floor_divmod [of 86400 n]
  by (auto simp: mylite_temporal_arithmetic_floor_divmod_seconds_def mylite_temporal_arithmetic_seconds_per_day_def Let_def split: if_splits)


section \<open>Intervals of months\<close>

text \<open>
  Property C32. Adding months to a date of the years 1000 to 9999: with the months counted from year 0,
  the result is the date in the month reached, on the same day or, where the month is too short, on
  its last day, with the time of day unchanged; it is a date of the calendar. The addition fails
  exactly when that month is outside the years 1000 to 9999.
\<close>

theorem add_calendar_months_outcome:
  assumes "calendar_date t" "1000 \<le> dt_year t" "dt_year t \<le> 9999" "int64 interval"
  defines "n \<equiv> dt_year t * 12 + dt_month t - 1 + interval"
  shows "case mylite_temporal_arithmetic_add_calendar_months t interval of (ok, u) \<Rightarrow>
    ok = (1000 \<le> n div 12 \<and> n div 12 \<le> 9999) \<and>
    (ok \<longrightarrow> calendar_date u \<and>
       u = t\<lparr>dt_year := n div 12, dt_month := n mod 12 + 1, dt_day := min (dt_day t) (month_length (n div 12) (n mod 12 + 1))\<rparr>)"
proof -
  have t: "1 \<le> dt_month t" "dt_month t \<le> 12" "1 \<le> dt_day t" using assms(1) by (simp_all add: calendar_date_def)
  have "int64 (dt_year t * 12 + dt_month t - 1)" using t assms(2,3) by (simp add: int64_def limit_simps)
  note add = checked_add_exact [OF this assms(4), folded n_def]
  have m: "0 \<le> n mod 12" "n mod 12 < 12" by simp_all
  then have mm: "u32 (n mod 12 + 1) = n mod 12 + 1" "1 \<le> n mod 12 + 1" "n mod 12 + 1 \<le> 12" by simp_all
  show ?thesis
  proof (cases "int64 n")
    case False
    then have "\<not> (1000 \<le> n div 12 \<and> n div 12 \<le> 9999)" using mult_div_mod_eq [of 12 n] m unfolding int64_def limit_simps by linarith
    with add False show ?thesis by (simp add: mylite_temporal_arithmetic_add_calendar_months_def)
  next
    case True
    define u where "u = t\<lparr>dt_year := n div 12, dt_month := n mod 12 + 1\<rparr>"
    have dm: "(let y = n sdiv 12; r = n smod 12 in if r < 0 then (y - 1, r + 12) else (y, r)) = (n div 12, n mod 12)"
      using floor_divmod [of 12 n] by (simp add: Let_def split: if_splits)
    have run: "mylite_temporal_arithmetic_add_calendar_months t interval =
        (if n div 12 < 1000 \<or> n div 12 > 9999 then (False, u)
         else (True, if dt_day t > days_in_month (n div 12) (n mod 12 + 1) then u\<lparr>dt_day := days_in_month (n div 12) (n mod 12 + 1)\<rparr> else u))"
      using dm True by (simp add: mylite_temporal_arithmetic_add_calendar_months_def add Let_def mm(1) u_def split: if_splits)
    show ?thesis
    proof (cases "1000 \<le> n div 12 \<and> n div 12 \<le> 9999")
      case False
      then show ?thesis by (auto simp: run)
    next
      case ok: True
      then have "days_in_month (n div 12) (n mod 12 + 1) = month_length (n div 12) (n mod 12 + 1)"
        using days_in_month_length [OF mm(2,3)] by simp
      with ok run have r: "mylite_temporal_arithmetic_add_calendar_months t interval =
          (True, u\<lparr>dt_day := min (dt_day t) (month_length (n div 12) (n mod 12 + 1))\<rparr>)" by (simp add: u_def min_def)
      have "1 \<le> month_length (n div 12) (n mod 12 + 1)" by (simp add: month_length_def)
      with ok t(3) mm(2,3) show ?thesis unfolding r by (simp add: u_def calendar_date_def)
    qed
  qed
qed

theorem add_calendar_months_outcome_witness:
  "fst (mylite_temporal_arithmetic_add_calendar_months (no_datetime\<lparr>dt_year := 2024, dt_month := 1, dt_day := 31\<rparr>) 13) \<and>
   dt_day (snd (mylite_temporal_arithmetic_add_calendar_months (no_datetime\<lparr>dt_year := 2024, dt_month := 1, dt_day := 31\<rparr>) 13)) = 28"
proof -
  have "calendar_date (no_datetime\<lparr>dt_year := 2024, dt_month := 1, dt_day := 31\<rparr>)" by (simp add: calendar_date_def month_length_def)
  from add_calendar_months_outcome [OF this, of 13] show ?thesis
    by (auto simp: int64_def limit_simps month_length_def date_year_is_leap_def split: prod.splits)
qed

section \<open>The texts of dates\<close>

fun fixed_digits :: "nat \<Rightarrow> int \<Rightarrow> string" where
  "fixed_digits 0 v = []"
| "fixed_digits (Suc n) v = fixed_digits n (v div 10) @ [char_of (nat (48 + v mod 10))]"

definition date_text :: "mylite_temporal_datetime_parts \<Rightarrow> string" where
  "date_text t = fixed_digits 4 (dt_year t) @ CHR ''-'' # fixed_digits 2 (dt_month t) @ CHR ''-'' # fixed_digits 2 (dt_day t)"

definition datetime_text :: "mylite_temporal_datetime_parts \<Rightarrow> string" where
  "datetime_text t =
     date_text t @ CHR '' '' # fixed_digits 2 (dt_hour t) @ CHR '':'' # fixed_digits 2 (dt_minute t) @ CHR '':'' # fixed_digits 2 (dt_second t)"

lemma component_loop_append: "component_loop v (xs @ ys) = Option.bind (component_loop v xs) (\<lambda>w. component_loop w ys)"
  by (induction v xs rule: component_loop.induct) simp_all

lemma digit_char:
  assumes "0 \<le> k" "k \<le> 9"
  shows "c = char_of (nat (48 + k)) \<longleftrightarrow> of_char c = 48 + (k :: int)"
proof
  assume "of_char c = 48 + k"
  then have "int (of_char c) = 48 + k" by (simp only: of_nat_of_char)
  then have "(of_char c :: nat) = nat (48 + k)" by (metis nat_int)
  then show "c = char_of (nat (48 + k))" by (metis char_of_char)
next
  assume "c = char_of (nat (48 + k))"
  then have "(of_char c :: nat) = nat (48 + k)" using assms by simp
  then have "int (of_char c) = 48 + k" using assms by simp
  then show "of_char c = 48 + k" by (simp only: of_nat_of_char)
qed

lemma component_loop_iff:
  "n \<le> 8 \<Longrightarrow> length cs = n \<Longrightarrow> component_loop 0 cs = Some v \<longleftrightarrow> 0 \<le> v \<and> v < 10 ^ n \<and> cs = fixed_digits n v"
proof (induction n arbitrary: cs v)
  case 0
  then show ?case by auto
next
  case (Suc n)
  then obtain ds c where cs: "cs = ds @ [c]" "length ds = n" by (metis length_Suc_conv_rev)
  have IH: "component_loop 0 ds = Some w \<longleftrightarrow> 0 \<le> w \<and> w < 10 ^ n \<and> ds = fixed_digits n w" for w using Suc cs by simp
  have "(10 :: int) ^ n \<le> 10 ^ 7" using Suc.prems(1) by (intro power_increasing) simp_all
  then have step: "u32 (u32 (w * 10) + u32 (k - 48)) = w * 10 + (k - 48)" if "0 \<le> w" "w < 10 ^ n" "48 \<le> k" "k \<le> 57" for w k using that by simp
  show ?case
  proof
    assume "component_loop 0 cs = Some v"
    then obtain w where w: "component_loop 0 ds = Some w" "48 \<le> (of_char c :: int)" "of_char c \<le> (57 :: int)"
      "v = u32 (u32 (w * 10) + u32 (of_char c - 48))" by (auto simp: cs component_loop_append bind_eq_Some_conv not_less split: if_splits)
    then have v: "v = w * 10 + (of_char c - 48)" "0 \<le> w" "w < 10 ^ n" "ds = fixed_digits n w" using step IH by auto
    then have "v div 10 = w" "v mod 10 = of_char c - 48" using w(2,3) by simp_all
    moreover have "c = char_of (nat (48 + (of_char c - 48)))" using digit_char [of "of_char c - 48" c] w(2,3) by simp
    ultimately show "0 \<le> v \<and> v < 10 ^ Suc n \<and> cs = fixed_digits (Suc n) v" using v w(2,3) by (auto simp: cs)
  next
    assume v: "0 \<le> v \<and> v < 10 ^ Suc n \<and> cs = fixed_digits (Suc n) v"
    then have d: "ds = fixed_digits n (v div 10)" "c = char_of (nat (48 + v mod 10))" by (simp_all add: cs)
    have k: "of_char c = 48 + v mod 10" using digit_char [of "v mod 10" c] d(2) by simp
    have "0 \<le> v div 10" "v div 10 < 10 ^ n" using v div_bound [of 10 "10 ^ n" v] by (auto simp: mult.commute)
    moreover have "\<not> v mod 10 < 0" "\<not> 9 < v mod 10" using pos_mod_bound [of 10 v] by simp_all
    ultimately have "component_loop 0 ds = Some (v div 10)" "component_loop (v div 10) [c] = Some v"
      using IH d(1) step [of "v div 10" "48 + v mod 10"] by (simp_all add: k)
    then show "component_loop 0 cs = Some v" by (simp add: cs component_loop_append)
  qed
qed


lemma component_at_iff:
  assumes "offset + n \<le> length t" "0 < n" "n \<le> 8"
  shows "component_at (Some t) offset n = Some v \<longleftrightarrow> 0 \<le> v \<and> v < 10 ^ n \<and> take n (drop offset t) = fixed_digits n v"
  using component_loop_iff [OF assms(3), of "take n (drop offset t)" v] assms by (simp add: component_at_def date_component_text_to_u32_def)

lemma take_cut:
  assumes "i + n < length t"
  shows "take (Suc (n + k)) (drop i t) = take n (drop i t) @ t ! (i + n) # take k (drop (Suc (i + n)) t)"
proof -
  have "drop i t = take n (drop i t) @ t ! (i + n) # drop (Suc (i + n)) t"
    using assms id_take_nth_drop [of n "drop i t"] by (simp add: add.commute)
  then have "take (Suc (n + k)) (drop i t) = take (Suc (n + k)) (take n (drop i t) @ t ! (i + n) # drop (Suc (i + n)) t)" by simp
  also have "\<dots> = take n (drop i t) @ t ! (i + n) # take k (drop (Suc (i + n)) t)" using assms by (simp add: Suc_diff_le min_def)
  finally show ?thesis .
qed

lemma fixed_digits_length: "length (fixed_digits n v) = n"
  by (induction n arbitrary: v) simp_all

lemma time_valid_iff:
  "datetime_time_components_valid h m s \<longleftrightarrow> h \<le> 23 \<and> m \<le> 59 \<and> s \<le> 59"
  by (simp add: datetime_time_components_valid_def)

lemma date_valid_iff:
  "date_year_month_day_valid y m d \<longleftrightarrow> 1000 \<le> y \<and> y \<le> 9999 \<and> 1 \<le> m \<and> m \<le> 12 \<and> 1 \<le> d \<and> d \<le> month_length y m"
proof -
  have "month_length y m \<le> 31" by (simp add: month_length_def)
  then show ?thesis using days_in_month_length [of m y] by (auto simp: date_year_month_day_valid_def)
qed

text \<open>The first ten characters of a text are a date.\<close>

definition date_prefix :: "string \<Rightarrow> int \<Rightarrow> int \<Rightarrow> int \<Rightarrow> bool" where
  "date_prefix t y m d \<longleftrightarrow>
     take 10 t = fixed_digits 4 y @ CHR ''-'' # fixed_digits 2 m @ CHR ''-'' # fixed_digits 2 d \<and>
     0 \<le> y \<and> y < 10000 \<and> 0 \<le> m \<and> m < 100 \<and> 0 \<le> d \<and> d < 100"

lemma date_components:
  assumes "10 \<le> length t"
  shows "t ! 4 = CHR ''-'' \<and> t ! 7 = CHR ''-'' \<and>
      component_at (Some t) 0 4 = Some y \<and> component_at (Some t) 5 2 = Some m \<and> component_at (Some t) 8 2 = Some d \<longleftrightarrow>
    date_prefix t y m d"
proof -
  define a b c where "a = take 4 t" and "b = take 2 (drop 5 t)" and "c = take 2 (drop 8 t)"
  have len: "length a = 4" "length b = 2" "length c = 2" using assms by (simp_all add: a_def b_def c_def)
  have "take 10 t = a @ t ! 4 # b @ t ! 7 # c"
    using assms take_cut [of 0 4 t 5] take_cut [of 5 2 t 2] by (simp add: a_def b_def c_def)
  then have "take 10 t = fixed_digits 4 y @ CHR ''-'' # fixed_digits 2 m @ CHR ''-'' # fixed_digits 2 d \<longleftrightarrow>
      a = fixed_digits 4 y \<and> t ! 4 = CHR ''-'' \<and> b = fixed_digits 2 m \<and> t ! 7 = CHR ''-'' \<and> c = fixed_digits 2 d"
    by (simp add: len fixed_digits_length)
  moreover have "component_at (Some t) 0 4 = Some y \<longleftrightarrow> 0 \<le> y \<and> y < 10000 \<and> a = fixed_digits 4 y"
    "component_at (Some t) 5 2 = Some m \<longleftrightarrow> 0 \<le> m \<and> m < 100 \<and> b = fixed_digits 2 m"
    "component_at (Some t) 8 2 = Some d \<longleftrightarrow> 0 \<le> d \<and> d < 100 \<and> c = fixed_digits 2 d"
    using assms by (simp_all add: component_at_iff a_def b_def c_def)
  ultimately show ?thesis unfolding date_prefix_def by blast
qed


text \<open>A text of nineteen characters ends with a time of day.\<close>

definition time_suffix :: "string \<Rightarrow> int \<Rightarrow> int \<Rightarrow> int \<Rightarrow> bool" where
  "time_suffix t h m s \<longleftrightarrow>
     drop 10 t = CHR '' '' # fixed_digits 2 h @ CHR '':'' # fixed_digits 2 m @ CHR '':'' # fixed_digits 2 s \<and>
     0 \<le> h \<and> h < 100 \<and> 0 \<le> m \<and> m < 100 \<and> 0 \<le> s \<and> s < 100"

lemma time_components:
  assumes "length t = 19"
  shows "t ! 10 = CHR '' '' \<and> t ! 13 = CHR '':'' \<and> t ! 16 = CHR '':'' \<and>
      component_at (Some t) 11 2 = Some h \<and> component_at (Some t) 14 2 = Some m \<and> component_at (Some t) 17 2 = Some s \<longleftrightarrow>
    time_suffix t h m s"
proof -
  define a b c where "a = take 2 (drop 11 t)" and "b = take 2 (drop 14 t)" and "c = take 2 (drop 17 t)"
  have len: "length a = 2" "length b = 2" "length c = 2" using assms by (simp_all add: a_def b_def c_def)
  have "drop 10 t = t ! 10 # a @ t ! 13 # b @ t ! 16 # c"
    using assms take_cut [of 10 0 t 8] take_cut [of 11 2 t 5] take_cut [of 14 2 t 2] by (simp add: a_def b_def c_def)
  then have "drop 10 t = CHR '' '' # fixed_digits 2 h @ CHR '':'' # fixed_digits 2 m @ CHR '':'' # fixed_digits 2 s \<longleftrightarrow>
      t ! 10 = CHR '' '' \<and> a = fixed_digits 2 h \<and> t ! 13 = CHR '':'' \<and> b = fixed_digits 2 m \<and> t ! 16 = CHR '':'' \<and> c = fixed_digits 2 s"
    by (simp add: len fixed_digits_length)
  moreover have "component_at (Some t) 11 2 = Some h \<longleftrightarrow> 0 \<le> h \<and> h < 100 \<and> a = fixed_digits 2 h"
    "component_at (Some t) 14 2 = Some m \<longleftrightarrow> 0 \<le> m \<and> m < 100 \<and> b = fixed_digits 2 m"
    "component_at (Some t) 17 2 = Some s \<longleftrightarrow> 0 \<le> s \<and> s < 100 \<and> c = fixed_digits 2 s"
    using assms by (simp_all add: component_at_iff a_def b_def c_def)
  ultimately show ?thesis unfolding time_suffix_def by blast
qed

lemma date_text_valid_iff:
  "10 \<le> length t \<Longrightarrow> date_text_is_canonical_valid (Some t) 10 \<longleftrightarrow> (\<exists>y m d. date_prefix t y m d \<and> date_year_month_day_valid y m d)"
  unfolding date_components [symmetric]
  by (auto simp: date_text_is_canonical_valid_def date_text_has_canonical_shape_def split: option.splits)

lemma date_parse:
  assumes "length t = 10"
  shows "mylite_temporal_arithmetic_parse_datetime_text (Some t) (length t) = Some p \<longleftrightarrow>
    (\<exists>y m d. date_prefix t y m d \<and> date_year_month_day_valid y m d \<and> p = no_datetime\<lparr>dt_year := y, dt_month := m, dt_day := d\<rparr>)"
proof (cases "date_text_is_canonical_valid (Some t) 10")
  case True
  then obtain y m d where d: "date_prefix t y m d" "date_year_month_day_valid y m d" using assms date_text_valid_iff [of t] by auto
  then have c: "component_at (Some t) 0 4 = Some y" "component_at (Some t) 5 2 = Some m" "component_at (Some t) 8 2 = Some d"
    using assms date_components [of t y m d] by simp_all
  have u: "y' = y \<and> m' = m \<and> d' = d" if "date_prefix t y' m' d'" for y' m' d' using that c assms date_components [of t y' m' d'] by simp
  have "mylite_temporal_arithmetic_parse_datetime_text (Some t) (length t) = Some (no_datetime\<lparr>dt_year := y, dt_month := m, dt_day := d\<rparr>)"
    using assms True c by (simp add: mylite_temporal_arithmetic_parse_datetime_text_def)
  then have run: "mylite_temporal_arithmetic_parse_datetime_text (Some t) (length t) = Some p \<longleftrightarrow>
      p = no_datetime\<lparr>dt_year := y, dt_month := m, dt_day := d\<rparr>" by auto
  show ?thesis unfolding run using d by (metis u)
next
  case False
  then have "mylite_temporal_arithmetic_parse_datetime_text (Some t) (length t) = None"
    using assms by (simp add: mylite_temporal_arithmetic_parse_datetime_text_def datetime_text_is_canonical_valid_def datetime_text_has_canonical_shape_def)
  with False assms date_text_valid_iff [of t] show ?thesis by auto
qed

lemma datetime_parse:
  assumes "length t = 19"
  shows "mylite_temporal_arithmetic_parse_datetime_text (Some t) (length t) = Some p \<longleftrightarrow>
    (\<exists>y m d h mi s. date_prefix t y m d \<and> date_year_month_day_valid y m d \<and> time_suffix t h mi s \<and> datetime_time_components_valid h mi s \<and>
      p = \<lparr>dt_year = y, dt_month = m, dt_day = d, dt_hour = h, dt_minute = mi, dt_second = s\<rparr>)"
proof -
  have n: "\<not> date_text_is_canonical_valid (Some t) 19" by (simp add: date_text_is_canonical_valid_def date_text_has_canonical_shape_def)
  have iff: "datetime_text_is_canonical_valid (Some t) 19 \<longleftrightarrow>
    (\<exists>y m d h mi s. date_prefix t y m d \<and> date_year_month_day_valid y m d \<and> time_suffix t h mi s \<and> datetime_time_components_valid h mi s)"
    unfolding time_components [OF assms, symmetric] using assms date_text_valid_iff [of t]
    by (auto simp: datetime_text_is_canonical_valid_def datetime_text_has_canonical_shape_def split: option.splits)
  show ?thesis
  proof (cases "datetime_text_is_canonical_valid (Some t) 19")
    case True
    then obtain y m d h mi s where d: "date_prefix t y m d" "date_year_month_day_valid y m d" "time_suffix t h mi s"
      "datetime_time_components_valid h mi s" using iff by auto
    then have c: "component_at (Some t) 0 4 = Some y" "component_at (Some t) 5 2 = Some m" "component_at (Some t) 8 2 = Some d"
      "component_at (Some t) 11 2 = Some h" "component_at (Some t) 14 2 = Some mi" "component_at (Some t) 17 2 = Some s"
      using assms date_components [of t y m d] time_components [OF assms, of h mi s] by simp_all
    have u: "y' = y \<and> m' = m \<and> d' = d" if "date_prefix t y' m' d'" for y' m' d' using that c assms date_components [of t y' m' d'] by simp
    have v: "h' = h \<and> m' = mi \<and> s' = s" if "time_suffix t h' m' s'" for h' m' s' using that c time_components [OF assms, of h' m' s'] by simp
    have "mylite_temporal_arithmetic_parse_datetime_text (Some t) (length t) =
        Some \<lparr>dt_year = y, dt_month = m, dt_day = d, dt_hour = h, dt_minute = mi, dt_second = s\<rparr>"
      using assms True n c by (simp add: mylite_temporal_arithmetic_parse_datetime_text_def)
    then have run: "mylite_temporal_arithmetic_parse_datetime_text (Some t) (length t) = Some p \<longleftrightarrow>
        p = \<lparr>dt_year = y, dt_month = m, dt_day = d, dt_hour = h, dt_minute = mi, dt_second = s\<rparr>" by auto
    show ?thesis unfolding run using d by (metis u v)
  next
    case False
    then have "mylite_temporal_arithmetic_parse_datetime_text (Some t) (length t) = None"
      using assms n by (simp add: mylite_temporal_arithmetic_parse_datetime_text_def)
    with False iff show ?thesis by auto
  qed
qed

text \<open>
  Property C31. Parsing accepts exactly the canonical texts of dates and datetimes, with four digits for
  the year and two for every other component, of the calendar dates of the years 1000 to 9999 and
  the times of a day, and returns their components; a date has midnight as its time.
\<close>

theorem parse_datetime_exact:
  "mylite_temporal_arithmetic_parse_datetime_text (Some t) (length t) = Some p \<longleftrightarrow>
     calendar_date p \<and> 1000 \<le> dt_year p \<and> dt_year p \<le> 9999 \<and>
     0 \<le> dt_hour p \<and> dt_hour p \<le> 23 \<and> 0 \<le> dt_minute p \<and> dt_minute p \<le> 59 \<and> 0 \<le> dt_second p \<and> dt_second p \<le> 59 \<and>
     (t = datetime_text p \<or> t = date_text p \<and> dt_hour p = 0 \<and> dt_minute p = 0 \<and> dt_second p = 0)"
proof -
  have len: "length (date_text p) = 10" "length (datetime_text p) = 19" by (simp_all add: date_text_def datetime_text_def fixed_digits_length)
  have ml: "month_length y m \<le> 31" for y m by (simp add: month_length_def)
  show ?thesis
  proof (cases "length t = 10")
    case True
    have "t \<noteq> datetime_text p" using len True by auto
    then show ?thesis unfolding date_parse [OF True] date_prefix_def date_valid_iff calendar_date_def
      using True ml [of "dt_year p" "dt_month p"] by (cases p) (auto simp: date_text_def no_datetime_def)
  next
    case nd: False
    show ?thesis
    proof (cases "length t = 19")
      case True
      have split: "t = datetime_text p \<longleftrightarrow> take 10 t = date_text p \<and> drop 10 t = drop 10 (datetime_text p)"
        using append_take_drop_id [of 10 t] append_take_drop_id [of 10 "datetime_text p"] len by (metis (no_types) append_eq_conv_conj datetime_text_def)
      have d: "drop 10 (datetime_text p) = CHR '' '' # fixed_digits 2 (dt_hour p) @ CHR '':'' # fixed_digits 2 (dt_minute p) @ CHR '':'' # fixed_digits 2 (dt_second p)"
        using len(1) by (simp add: datetime_text_def)
      have "t \<noteq> date_text p" using len True by auto
      then show ?thesis unfolding datetime_parse [OF True] date_prefix_def time_suffix_def date_valid_iff time_valid_iff calendar_date_def split d
        using ml [of "dt_year p" "dt_month p"] by (cases p) (auto simp: date_text_def)
    next
      case False
      then have "t \<noteq> datetime_text p" "t \<noteq> date_text p" using len nd by auto
      then show ?thesis using nd False by (simp add: mylite_temporal_arithmetic_parse_datetime_text_def date_text_is_canonical_valid_def
          date_text_has_canonical_shape_def datetime_text_is_canonical_valid_def datetime_text_has_canonical_shape_def)
    qed
  qed
qed

end
