(* ===== verification/Aes_Field.thy ===== *)
theory Aes_Field
  imports Typed_Values
begin

text \<open>
  The finite field of AES, the first part of \<^verbatim>\<open>runtime/mylite_aes.c\<close>.
\<close>

definition aes_xtime :: "byte \<Rightarrow> byte" where
  "aes_xtime v = push_bit 1 v XOR (if v AND 0x80 \<noteq> 0 then 0x1B else 0)"

definition aes_rotl :: "byte \<Rightarrow> nat \<Rightarrow> byte" where
  "aes_rotl v shift = push_bit shift v OR drop_bit (8 - shift) v"

lemma drop_bit_less: "right \<noteq> 0 \<Longrightarrow> unat (drop_bit 1 (right :: byte)) < unat right"
  unfolding unat_drop_bit_eq drop_bit_eq_div [where 'a = nat] using unat_gt_0 [of right] by simp

function gf_mul_loop :: "byte \<Rightarrow> byte \<Rightarrow> byte \<Rightarrow> byte" where
  "gf_mul_loop result left right =
     (if right \<noteq> 0 then
        gf_mul_loop (if right AND 1 \<noteq> 0 then result XOR left else result) (aes_xtime left) (drop_bit 1 right)
      else result)"
  by auto
termination
  by (relation "measure (\<lambda>(result, left, right). unat right)") (simp, unfold in_measure prod.case, rule drop_bit_less)

declare gf_mul_loop.simps [simp del]

definition aes_gf_mul :: "byte \<Rightarrow> byte \<Rightarrow> byte" where
  "aes_gf_mul left right = gf_mul_loop 0 left right"

function multiplicative_inverse_loop :: "byte \<Rightarrow> byte \<Rightarrow> nat \<Rightarrow> byte" where
  "multiplicative_inverse_loop result base exponent =
     (if exponent \<noteq> 0 then
        multiplicative_inverse_loop (if odd exponent then aes_gf_mul result base else result) (aes_gf_mul base base) (exponent div 2)
      else result)"
  by auto
termination
  by (relation "measure (\<lambda>(result, base, exponent). exponent)") simp_all

declare multiplicative_inverse_loop.simps [simp del]

definition aes_multiplicative_inverse :: "byte \<Rightarrow> byte" where
  "aes_multiplicative_inverse v = (if v = 0 then 0 else multiplicative_inverse_loop 1 v 254)"

definition aes_sbox_value :: "byte \<Rightarrow> byte" where
  "aes_sbox_value v =
     (let inverse = aes_multiplicative_inverse v
      in inverse XOR aes_rotl inverse 1 XOR aes_rotl inverse 2 XOR aes_rotl inverse 3 XOR aes_rotl inverse 4 XOR 0x63)"

section \<open>Multiplication\<close>

lemma high_bit: "v AND (0x80 :: byte) \<noteq> 0 \<longleftrightarrow> bit v 7"
  using and_exp_eq_0_iff_not_bit [of v 7] by simp

lemma low_bit: "v AND (1 :: byte) \<noteq> 0 \<longleftrightarrow> odd v"
  by (simp add: and_one_eq odd_iff_mod_2_eq_one)

lemma xtime_xor: "aes_xtime (a XOR b) = aes_xtime a XOR aes_xtime b"
  unfolding aes_xtime_def high_bit bit_xor_iff push_bit_xor by (simp add: xor.assoc xor.left_commute)

lemma xtime_zero: "aes_xtime 0 = 0"
  by (simp add: aes_xtime_def)

lemma byte_induct [case_names zero step]:
  assumes "P 0" "\<And>b. b \<noteq> (0 :: byte) \<Longrightarrow> P (drop_bit 1 b) \<Longrightarrow> P b"
  shows "P b"
proof (induction b rule: measure_induct_rule [of unat])
  case (less b)
  show ?case
  proof (cases "b = 0")
    case False
    then show ?thesis using less [OF drop_bit_less] assms(2) by blast
  qed (simp add: assms(1))
qed

lemma gf_mul_loop_result: "gf_mul_loop result a b = result XOR gf_mul_loop 0 a b"
proof (induction b arbitrary: result a rule: byte_induct)
  case (step b)
  show ?case unfolding gf_mul_loop.simps [of result a b] gf_mul_loop.simps [of 0 a b]
    using step(1) step(2) [of "result XOR a" "aes_xtime a"] step(2) [of a "aes_xtime a"] step(2) [of result "aes_xtime a"]
    by (cases "b AND 1 = 0") (simp_all add: xor.assoc)
qed (simp add: gf_mul_loop.simps [of _ _ 0])

lemma gf_mul_rec: "b \<noteq> 0 \<Longrightarrow> aes_gf_mul a b = (if odd b then a else 0) XOR aes_gf_mul (aes_xtime a) (drop_bit 1 b)"
  unfolding aes_gf_mul_def gf_mul_loop.simps [of 0 a b] low_bit
  using gf_mul_loop_result [of "if odd b then 0 XOR a else 0" "aes_xtime a" "drop_bit 1 b"] by simp

lemma gf_mul_zero: "aes_gf_mul a 0 = 0"
  by (simp add: aes_gf_mul_def gf_mul_loop.simps)

lemma gf_mul_xor: "aes_gf_mul (x XOR y) b = aes_gf_mul x b XOR aes_gf_mul y b"
proof (induction b arbitrary: x y rule: byte_induct)
  case (step b)
  then show ?case by (simp add: gf_mul_rec [OF step(1)] xtime_xor xor.assoc xor.left_commute del: drop_bit_Suc)
qed (simp add: gf_mul_zero)

lemma gf_mul_xtime: "aes_gf_mul (aes_xtime x) b = aes_xtime (aes_gf_mul x b)"
proof (induction b arbitrary: x rule: byte_induct)
  case (step b)
  then show ?case by (simp add: gf_mul_rec [OF step(1)] xtime_xor xtime_zero)
qed (simp add: gf_mul_zero xtime_zero)

lemma gf_mul_left_zero: "aes_gf_mul 0 b = 0"
  using gf_mul_xor [of 0 0 b] by simp

lemma gf_mul_swap: "aes_gf_mul (aes_gf_mul x a) c = aes_gf_mul (aes_gf_mul x c) a"
proof (induction a arbitrary: x rule: byte_induct)
  case (step a)
  then show ?case by (simp add: gf_mul_rec [OF step(1)] gf_mul_xor gf_mul_xtime gf_mul_left_zero)
qed (simp add: gf_mul_zero gf_mul_left_zero)


lemma xtime_power: "k < 7 \<Longrightarrow> aes_xtime (2 ^ k) = 2 ^ Suc k"
  unfolding aes_xtime_def high_bit by (simp add: bit_exp_iff push_bit_eq_mult)

lemma gf_mul_power: "k \<le> 8 \<Longrightarrow> unat b < 2 ^ (8 - k) \<Longrightarrow> aes_gf_mul (2 ^ k) b = push_bit k b"
proof (induction b arbitrary: k rule: byte_induct)
  case zero
  then show ?case by (simp add: gf_mul_zero)
next
  case (step b)
  have k: "k < 8" using step.prems step.hyps unat_gt_0 [of b] by (cases "k = 8") auto
  have half: "unat (drop_bit 1 b) < 2 ^ (8 - Suc k)"
  proof -
    have "8 - k = Suc (8 - Suc k)" using k by simp
    then have "(2 :: nat) ^ (8 - k) = 2 ^ (8 - Suc k) * 2" by (simp only: power_Suc2)
    then show ?thesis unfolding unat_drop_bit_eq drop_bit_eq_div [where 'a = nat]
      using step.prems(2) less_mult_imp_div_less [of "unat b" "2 ^ (8 - Suc k)" 2] by simp
  qed
  have bits: "(if odd b then 2 ^ k else 0) XOR push_bit (Suc k) (drop_bit 1 b) = push_bit k b"
  proof (rule bit_eqI)
    fix n
    consider "n < k" | "n = k" | m where "n = Suc (k + m)" by (metis less_imp_Suc_add linorder_neqE_nat)
    then show "bit ((if odd b then 2 ^ k else 0) XOR push_bit (Suc k) (drop_bit 1 b)) n = bit (push_bit k b) n"
      by cases (auto simp: bit_xor_iff bit_push_bit_iff bit_drop_bit_eq bit_exp_iff bit_0 simp del: push_bit_Suc)
  qed
  show ?case
  proof (cases "k = 7")
    case True
    with step.prems(2) have "drop_bit 1 b = 0" using half by (simp add: unat_eq_0)
    then show ?thesis using bits step.hyps by (simp add: gf_mul_rec gf_mul_zero)
  next
    case False
    then have "aes_gf_mul (2 ^ Suc k) (drop_bit 1 b) = push_bit (Suc k) (drop_bit 1 b)" using step.IH [OF _ half] k by simp
    with bits show ?thesis using False k xtime_power [of k] by (simp add: gf_mul_rec [OF step.hyps] del: power_Suc)
  qed
qed

lemma gf_mul_one: "aes_gf_mul 1 b = b"
  using gf_mul_power [of 0 b] unsigned_less [of b] by simp

lemma gf_mul_commute: "aes_gf_mul a b = aes_gf_mul b a"
  using gf_mul_swap [of 1 a b] by (simp add: gf_mul_one)

lemma gf_mul_assoc: "aes_gf_mul (aes_gf_mul a b) c = aes_gf_mul a (aes_gf_mul b c)"
  using gf_mul_swap [of b c a] by (simp add: gf_mul_commute)

interpretation gf: comm_monoid aes_gf_mul 1
  by unfold_locales (fact gf_mul_assoc, fact gf_mul_commute, subst gf_mul_commute, fact gf_mul_one)

section \<open>Inverses\<close>

primrec gf_power :: "byte \<Rightarrow> nat \<Rightarrow> byte" where
  "gf_power v 0 = 1"
| "gf_power v (Suc n) = aes_gf_mul v (gf_power v n)"

lemma gf_power_add: "gf_power v (m + n) = aes_gf_mul (gf_power v m) (gf_power v n)"
  by (induction m) (simp_all add: gf.assoc)

lemma gf_power_mult: "gf_power v (m * n) = gf_power (gf_power v m) n"
  by (induction n) (simp_all add: gf_power_add)

lemma gf_power_one: "gf_power 1 n = 1"
  by (induction n) simp_all

lemma inverse_loop_power: "multiplicative_inverse_loop result base e = aes_gf_mul result (gf_power base e)"
proof (induction result base e rule: multiplicative_inverse_loop.induct)
  case (1 result base e)
  have sq: "gf_power (aes_gf_mul base base) n = gf_power base (2 * n)" for n
    using gf_power_mult [of base 2 n] by (simp add: numeral_2_eq_2)
  show ?case
  proof (cases "e = 0")
    case False
    have even: "gf_power base e = gf_power base (2 * (e div 2))" if "even e" using that by simp
    have odd: "gf_power base e = aes_gf_mul base (gf_power base (2 * (e div 2)))" if "odd e"
      using that gf_power.simps(2) [of base "2 * (e div 2)"] by simp
    show ?thesis
    proof (cases "odd e")
      case True
      then show ?thesis using 1 [OF False] False unfolding multiplicative_inverse_loop.simps [of result base e] odd [OF True] sq
        by (simp only: if_True not_False_eq_True gf.assoc)
    next
      case even': False
      then have ev: "even e" by simp
      show ?thesis using 1 [OF False] False even' unfolding multiplicative_inverse_loop.simps [of result base e] even [OF ev] sq
        by (simp only: if_False if_True not_False_eq_True not_True_eq_False)
    qed
  qed (simp add: multiplicative_inverse_loop.simps)
qed


lemmas gf_compute = aes_gf_mul_def gf_mul_loop.simps aes_xtime_def

lemma powers_of_three: "gf_power 3 15 = 53" "gf_power 3 51 = 12" "gf_power 3 85 = 189" "gf_power 3 255 = 1"
proof -
  have double: "gf_power 3 (n + n) = aes_gf_mul (gf_power 3 n) (gf_power 3 n)" for n by (rule gf_power_add)
  have 1: "gf_power 3 1 = 3" by simp
  have 2: "gf_power 3 2 = 5" 
  proof -
    have "gf_power 3 2 = aes_gf_mul 3 3" using double [of 1] unfolding 1 by (simp only: one_add_one)
    also have "\<dots> = 5" by (simp add: gf_compute)
    finally show ?thesis .
  qed
  have 4: "gf_power 3 4 = 17" using double [of 2] unfolding 2 by (simp add: gf_compute)
  have 8: "gf_power 3 8 = 26" using double [of 4] unfolding 4 by (simp add: gf_compute)
  have 16: "gf_power 3 16 = 95" using double [of 8] unfolding 8 by (simp add: gf_compute)
  have 32: "gf_power 3 32 = 229" using double [of 16] unfolding 16 by (simp add: gf_compute)
  have 64: "gf_power 3 64 = 76" using double [of 32] unfolding 32 by (simp add: gf_compute)
  have 3: "gf_power 3 3 = 15" using gf_power_add [of 3 2 1] unfolding 1 2 by (simp add: gf_compute)
  have 12: "gf_power 3 12 = aes_gf_mul 26 17" using gf_power_add [of 3 8 4] unfolding 4 8 by simp
  show 15: "gf_power 3 15 = 53" using gf_power_add [of 3 12 3] unfolding 12 3 by (simp add: gf_compute)
  have 48: "gf_power 3 48 = aes_gf_mul 229 95" using gf_power_add [of 3 32 16] unfolding 32 16 by simp
  show 51: "gf_power 3 51 = 12" using gf_power_add [of 3 48 3] unfolding 48 3 by (simp add: gf_compute)
  have 80: "gf_power 3 80 = aes_gf_mul 76 95" using gf_power_add [of 3 64 16] unfolding 64 16 by simp
  have 5: "gf_power 3 5 = aes_gf_mul 17 3" using gf_power_add [of 3 4 1] unfolding 4 1 by simp
  show 85: "gf_power 3 85 = 189" using gf_power_add [of 3 80 5] unfolding 80 5 by (simp add: gf_compute)
  have 170: "gf_power 3 170 = 188" using double [of 85] unfolding 85 by (simp add: gf_compute)
  show "gf_power 3 255 = 1" using gf_power_add [of 3 170 85] unfolding 170 85 by (simp add: gf_compute)
qed

lemma gf_power_gcd:
  assumes "gf_power v m = 1" "gf_power v n = 1" "0 < m"
  shows "gf_power v (gcd m n) = 1"
proof -
  obtain x y where "m * x = n * y + gcd m n" using bezout_nat [of m n] assms(3) by auto
  then have "gf_power v (m * x) = aes_gf_mul (gf_power v (n * y)) (gf_power v (gcd m n))" by (simp only: gf_power_add)
  then show ?thesis by (simp add: gf_power_mult assms gf_power_one)
qed

lemma divisors_255: "list_all (\<lambda>g. 255 mod g \<noteq> 0 \<or> 85 mod g = 0 \<or> 51 mod g = 0 \<or> 15 mod g = (0 :: nat)) [3..<255]"
  by (simp add: upt_conv_Cons)

lemma order_of_three:
  assumes "gf_power 3 i = 1" "0 < i"
  shows "255 \<le> i"
proof (rule ccontr)
  assume "\<not> 255 \<le> i"
  define g where "g = gcd i 255"
  have one: "gf_power 3 g = 1" unfolding g_def using gf_power_gcd [OF assms(1) powers_of_three(4) assms(2)] .
  have "g \<le> i" "0 < g" "255 mod g = 0" unfolding g_def using assms(2) by (simp_all add: gcd_le1_nat)
  then have "85 mod g = 0 \<or> 51 mod g = 0 \<or> 15 mod g = 0" 
  proof (cases "g < 3")
    case True
    with \<open>0 < g\<close> consider "g = 1" | "g = 2" by linarith
    then show ?thesis using \<open>255 mod g = 0\<close> by cases simp_all
  next
    case False
    then have "g \<in> set [3..<255]" using \<open>g \<le> i\<close> \<open>\<not> 255 \<le> i\<close> unfolding set_upt atLeastLessThan_iff by linarith
    from bspec [OF divisors_255 [unfolded list_all_iff] this] \<open>255 mod g = 0\<close> show ?thesis by (elim disjE) simp_all
  qed
  moreover have one_if: "gf_power 3 n = 1" if "n mod g = 0" for n
    using that gf_power_mult [of 3 g "n div g"] one gf_power_one by (metis mult_div_mod_eq add.right_neutral)
  ultimately show False using one_if [of 85] one_if [of 51] one_if [of 15] unfolding powers_of_three by (elim disjE) simp_all
qed

lemma power_cancel: "gf_power 3 i = gf_power 3 j \<Longrightarrow> i \<le> j \<Longrightarrow> i < 255 \<Longrightarrow> gf_power 3 (j - i) = 1"
proof -
  assume a: "gf_power 3 i = gf_power 3 j" "i \<le> j" "i < 255"
  have inv: "aes_gf_mul (gf_power 3 (255 - i)) (gf_power 3 i) = 1"
    using gf_power_add [of 3 "255 - i" i] powers_of_three(4) a(3) by simp
  have "gf_power 3 (j - i) = aes_gf_mul (gf_power 3 (j - i)) (aes_gf_mul (gf_power 3 (255 - i)) (gf_power 3 i))" by (simp add: inv)
  also have "\<dots> = aes_gf_mul (gf_power 3 (255 - i)) (aes_gf_mul (gf_power 3 (j - i)) (gf_power 3 i))" by (simp only: gf.left_commute)
  also have "aes_gf_mul (gf_power 3 (j - i)) (gf_power 3 i) = gf_power 3 i" using gf_power_add [of 3 "j - i" i] a(1,2) by simp
  finally show ?thesis by (simp add: inv)
qed

lemma powers_distinct: "inj_on (gf_power 3) {0..<255}"
proof (rule linorder_inj_onI)
  fix i j :: nat assume "i < j" "i \<in> {0..<255}" "j \<in> {0..<255}"
  then show "gf_power 3 i \<noteq> gf_power 3 j" using power_cancel [of i j] order_of_three [of "j - i"] by auto
qed auto

lemma nonzero_power: "(v :: byte) \<noteq> 0 \<Longrightarrow> \<exists>i < 255. v = gf_power 3 i"
proof -
  assume v: "v \<noteq> 0"
  have nz: "gf_power 3 i \<noteq> 0" if "i < 255" for i
    using gf_power_add [of 3 "255 - i" i] powers_of_three(4) that by (auto simp: gf_mul_zero)
  have "card (gf_power 3 ` {0..<255}) = 255" using card_image [OF powers_distinct] by simp
  moreover have "card (UNIV - {0 :: byte}) = 255" by (simp add: card_Diff_singleton card_word)
  moreover have "gf_power 3 ` {0..<255} \<subseteq> UNIV - {0}" using nz by auto
  ultimately have "gf_power 3 ` {0..<255} = UNIV - {0}" by (intro card_subset_eq) simp_all
  with v have "v \<in> gf_power 3 ` {0..<255}" by simp
  then show ?thesis by auto
qed

lemma multiplicative_inverse: "v \<noteq> 0 \<Longrightarrow> aes_gf_mul v (aes_multiplicative_inverse v) = 1"
proof -
  assume v: "v \<noteq> 0"
  then obtain i where i: "v = gf_power 3 i" using nonzero_power by blast
  have "aes_gf_mul v (aes_multiplicative_inverse v) = gf_power v (Suc 254)"
    unfolding aes_multiplicative_inverse_def inverse_loop_power using v by (simp only: if_False gf_power.simps(2) gf.left_neutral)
  also have "Suc 254 = 255" by simp
  also have "gf_power v 255 = gf_power (gf_power 3 255) i" unfolding i gf_power_mult [symmetric] by (simp only: mult.commute)
  also have "\<dots> = 1" by (simp only: powers_of_three(4) gf_power_one)
  finally show ?thesis .
qed

lemma multiplicative_inverse_inj: "aes_multiplicative_inverse v = aes_multiplicative_inverse w \<Longrightarrow> v = w"
proof -
  assume e: "aes_multiplicative_inverse v = aes_multiplicative_inverse w"
  have z: "aes_multiplicative_inverse x = 0 \<longleftrightarrow> x = 0" for x
  proof
    assume "aes_multiplicative_inverse x = 0"
    then show "x = 0" using multiplicative_inverse [of x] by (auto simp: gf_mul_zero)
  qed (simp add: aes_multiplicative_inverse_def)
  show "v = w"
  proof (cases "v = 0 \<or> w = 0")
    case True
    with e z show ?thesis by metis
  next
    case False
    have "v = aes_gf_mul v (aes_gf_mul w (aes_multiplicative_inverse w))" using False by (simp add: multiplicative_inverse)
    also have "\<dots> = aes_gf_mul w (aes_gf_mul v (aes_multiplicative_inverse v))" by (simp only: e gf.left_commute)
    finally show ?thesis using False by (simp add: multiplicative_inverse)
  qed
qed

section \<open>The affine map\<close>

lemma bit_rotl: "0 < s \<Longrightarrow> s < 8 \<Longrightarrow> bit (aes_rotl v s) n \<longleftrightarrow> n < 8 \<and> bit v ((n + (8 - s)) mod 8)"
proof -
  assume s: "0 < s" "s < 8"
  show ?thesis
  proof (cases "n < 8")
    case True
    have "(n + (8 - s)) mod 8 = (if s \<le> n then n - s else n + (8 - s))"
    proof (cases "s \<le> n")
      case le: True
      then have "n + (8 - s) = 8 + (n - s)" using s by simp
      then have "(n + (8 - s)) mod 8 = n - s" using True by (simp only: mod_add_self1) simp
      with le show ?thesis by simp
    qed (use s True in simp)
    moreover have "\<not> bit v (n + (8 - s))" if "s \<le> n" using that s bit_imp_le_length [of v "n + (8 - s)"] by auto
    ultimately show ?thesis using True by (auto simp: aes_rotl_def bit_or_iff bit_push_bit_iff bit_drop_bit_eq add.commute)
  next
    case False
    then show ?thesis using bit_imp_le_length [of "aes_rotl v s" n] by auto
  qed
qed

definition affine :: "byte \<Rightarrow> byte" where
  "affine v = v XOR aes_rotl v 1 XOR aes_rotl v 2 XOR aes_rotl v 3 XOR aes_rotl v 4"

lemma affine_inverse: "aes_rotl (affine v) 1 XOR aes_rotl (affine v) 3 XOR aes_rotl (affine v) 6 = v"
proof (rule bit_eqI)
  fix n :: nat assume "possible_bit TYPE(byte) n"
  then have "n < 8" by simp
  then consider "n = 0" | "n = 1" | "n = 2" | "n = 3" | "n = 4" | "n = 5" | "n = 6" | "n = 7" by fastforce
  then show "bit (aes_rotl (affine v) 1 XOR aes_rotl (affine v) 3 XOR aes_rotl (affine v) 6) n = bit v n"
    by cases (simp add: bit_xor_iff bit_rotl affine_def; (simp add: numeral_eq_Suc)?; argo?)+
qed

lemma sbox_inj: "aes_sbox_value v = aes_sbox_value w \<Longrightarrow> v = w"
proof -
  have s: "aes_sbox_value x = affine (aes_multiplicative_inverse x) XOR 0x63" for x by (simp add: aes_sbox_value_def affine_def Let_def xor.assoc)
  assume "aes_sbox_value v = aes_sbox_value w"
  then have "affine (aes_multiplicative_inverse v) = affine (aes_multiplicative_inverse w)" unfolding s
    by (metis xor.assoc xor_self_eq xor.right_neutral)
  then have "aes_multiplicative_inverse v = aes_multiplicative_inverse w" by (metis affine_inverse)
  then show "v = w" by (rule multiplicative_inverse_inj)
qed

end
