(* ===== verification/Aes_Cipher.thy ===== *)
theory Aes_Cipher
  imports Aes_Field
begin

text \<open>
  AES_ENCRYPT and AES_DECRYPT, the second part of \<^verbatim>\<open>runtime/mylite_aes.c\<close>: the block cipher with a
  key of 128 bits, padding, and the SQL callback. Arrays are lists of bytes; the contents of arrays
  on the stack before they are written are a function that the operations take. A loop that
  changes each element of an array from that element alone is a map over the indices.
\<close>

section \<open>Tables and keys\<close>

record aes_sboxes =
  direct :: bytes
  inverse_table :: bytes

definition aes_generate_sboxes :: "aes_sboxes \<Rightarrow> aes_sboxes" where
  "aes_generate_sboxes out_sboxes =
     foldl (\<lambda>s v. let substituted = aes_sbox_value (of_nat v)
               in s\<lparr>direct := (direct s)[v := substituted], inverse_table := (inverse_table s)[unat substituted := of_nat v]\<rparr>)
       out_sboxes [0..<256]"

definition aes_fold_mysql_key :: "bytes \<Rightarrow> nat \<Rightarrow> bytes" where
  "aes_fold_mysql_key key key_size =
     foldl (\<lambda>out_key i. out_key[i mod 16 := out_key ! (i mod 16) XOR key ! i]) (replicate 16 0) [0..<key_size]"

function expand_key_loop :: "aes_sboxes \<Rightarrow> byte \<Rightarrow> nat \<Rightarrow> bytes \<Rightarrow> bytes" where
  "expand_key_loop sboxes rcon generated round_keys =
     (if generated < 176 then
        let temp = take 4 (drop (generated - 4) round_keys);
            (temp, rcon) =
              (if generated mod 16 = 0 then
                 ([direct sboxes ! unat (temp ! 1) XOR rcon, direct sboxes ! unat (temp ! 2), direct sboxes ! unat (temp ! 3),
                   direct sboxes ! unat (temp ! 0)], aes_xtime rcon)
               else (temp, rcon));
            round_keys = foldl (\<lambda>keys i. keys[generated + i := keys ! (generated + i - 16) XOR temp ! i]) round_keys [0..<4]
        in expand_key_loop sboxes rcon (generated + 4) round_keys
      else round_keys)"
  by pat_completeness auto
termination
  by (relation "measure (\<lambda>(sboxes, rcon, generated, round_keys). 176 - generated)") auto

declare expand_key_loop.simps [simp del]

definition aes_expand_key :: "bytes \<Rightarrow> aes_sboxes \<Rightarrow> bytes \<Rightarrow> bytes" where
  "aes_expand_key key sboxes round_keys = expand_key_loop sboxes 1 16 (take 16 key @ drop 16 round_keys)"

definition aes_round_key :: "bytes \<Rightarrow> nat \<Rightarrow> bytes" where
  "aes_round_key round_keys rnd = drop (rnd * 16) round_keys"

section \<open>The transformations of a block\<close>

definition aes_add_round_key :: "bytes \<Rightarrow> bytes \<Rightarrow> bytes" where
  "aes_add_round_key state round_key = map (\<lambda>i. state ! i XOR round_key ! i) [0..<16]"

definition aes_sub_bytes :: "bytes \<Rightarrow> bytes \<Rightarrow> bytes" where
  "aes_sub_bytes state sbox = map (\<lambda>i. sbox ! unat (state ! i)) [0..<16]"

definition aes_inv_sub_bytes :: "bytes \<Rightarrow> bytes \<Rightarrow> bytes" where
  "aes_inv_sub_bytes state inverse_sbox = map (\<lambda>i. inverse_sbox ! unat (state ! i)) [0..<16]"

definition aes_shift_rows :: "bytes \<Rightarrow> bytes" where
  "aes_shift_rows state =
     foldl (\<lambda>st row. foldl (\<lambda>st column. st[row + 4 * column := state ! (row + 4 * ((column + row) mod 4))]) st [0..<4]) state [0..<4]"

definition aes_inv_shift_rows :: "bytes \<Rightarrow> bytes" where
  "aes_inv_shift_rows state =
     foldl (\<lambda>st row. foldl (\<lambda>st column. st[row + 4 * column := state ! (row + 4 * ((column + 4 - row) mod 4))]) st [0..<4]) state [0..<4]"

definition aes_mix_columns :: "bytes \<Rightarrow> bytes" where
  "aes_mix_columns state =
     foldl (\<lambda>st column.
         let col = column * 4; a0 = st ! col; a1 = st ! (col + 1); a2 = st ! (col + 2); a3 = st ! (col + 3)
         in st[col := aes_gf_mul a0 2 XOR aes_gf_mul a1 3 XOR a2 XOR a3,
               col + 1 := a0 XOR aes_gf_mul a1 2 XOR aes_gf_mul a2 3 XOR a3,
               col + 2 := a0 XOR a1 XOR aes_gf_mul a2 2 XOR aes_gf_mul a3 3,
               col + 3 := aes_gf_mul a0 3 XOR a1 XOR a2 XOR aes_gf_mul a3 2]) state [0..<4]"

definition aes_inv_mix_columns :: "bytes \<Rightarrow> bytes" where
  "aes_inv_mix_columns state =
     foldl (\<lambda>st column.
         let col = column * 4; a0 = st ! col; a1 = st ! (col + 1); a2 = st ! (col + 2); a3 = st ! (col + 3)
         in st[col := aes_gf_mul a0 14 XOR aes_gf_mul a1 11 XOR aes_gf_mul a2 13 XOR aes_gf_mul a3 9,
               col + 1 := aes_gf_mul a0 9 XOR aes_gf_mul a1 14 XOR aes_gf_mul a2 11 XOR aes_gf_mul a3 13,
               col + 2 := aes_gf_mul a0 13 XOR aes_gf_mul a1 9 XOR aes_gf_mul a2 14 XOR aes_gf_mul a3 11,
               col + 3 := aes_gf_mul a0 11 XOR aes_gf_mul a1 13 XOR aes_gf_mul a2 9 XOR aes_gf_mul a3 14]) state [0..<4]"

section \<open>Blocks\<close>

definition aes_encrypt_block :: "bytes \<Rightarrow> bytes \<Rightarrow> aes_sboxes \<Rightarrow> bytes" where
  "aes_encrypt_block input round_keys sboxes =
     (let state = take 16 input;
          state = aes_add_round_key state (aes_round_key round_keys 0);
          state = foldl (\<lambda>state rnd.
              aes_add_round_key (aes_mix_columns (aes_shift_rows (aes_sub_bytes state (direct sboxes)))) (aes_round_key round_keys rnd))
            state [1..<10];
          state = aes_sub_bytes state (direct sboxes);
          state = aes_shift_rows state
      in aes_add_round_key state (aes_round_key round_keys 10))"

definition aes_decrypt_block :: "bytes \<Rightarrow> bytes \<Rightarrow> aes_sboxes \<Rightarrow> bytes" where
  "aes_decrypt_block input round_keys sboxes =
     (let state = take 16 input;
          state = aes_add_round_key state (aes_round_key round_keys 10);
          state = foldl (\<lambda>state rnd.
              aes_inv_mix_columns (aes_add_round_key (aes_inv_sub_bytes (aes_inv_shift_rows state) (inverse_table sboxes)) (aes_round_key round_keys rnd)))
            state (rev [1..<10]);
          state = aes_inv_shift_rows state;
          state = aes_inv_sub_bytes state (inverse_table sboxes)
      in aes_add_round_key state (aes_round_key round_keys 0))"

section \<open>Texts\<close>

text \<open>The loops over the blocks of the text; encryption works in place.\<close>

function encrypt_loop :: "bytes \<Rightarrow> aes_sboxes \<Rightarrow> nat \<Rightarrow> bytes \<Rightarrow> nat \<Rightarrow> bytes" where
  "encrypt_loop round_keys sboxes output_size out offset =
     (if offset < output_size then
        encrypt_loop round_keys sboxes output_size
          (take offset out @ aes_encrypt_block (drop offset out) round_keys sboxes @ drop (offset + 16) out) (offset + 16)
      else out)"
  by pat_completeness auto
termination
  by (relation "measure (\<lambda>(round_keys, sboxes, output_size, out, offset). output_size - offset)") auto

function decrypt_loop :: "bytes \<Rightarrow> aes_sboxes \<Rightarrow> bytes \<Rightarrow> nat \<Rightarrow> bytes \<Rightarrow> nat \<Rightarrow> bytes" where
  "decrypt_loop round_keys sboxes input input_size out offset =
     (if offset < input_size then
        decrypt_loop round_keys sboxes input input_size
          (take offset out @ aes_decrypt_block (drop offset input) round_keys sboxes @ drop (offset + 16) out) (offset + 16)
      else out)"
  by pat_completeness auto
termination
  by (relation "measure (\<lambda>(round_keys, sboxes, input, input_size, out, offset). input_size - offset)") auto

declare encrypt_loop.simps [simp del] decrypt_loop.simps [simp del]

text \<open>The tables and the round keys, which both directions make first.\<close>

definition aes_tables :: "(nat \<Rightarrow> byte) \<Rightarrow> bytes option \<Rightarrow> nat \<Rightarrow> bytes \<times> aes_sboxes" where
  "aes_tables fresh key key_size =
     (let sboxes = aes_generate_sboxes \<lparr>direct = block 256 fresh, inverse_table = block 256 fresh\<rparr>;
          folded_key = aes_fold_mysql_key (case key of None \<Rightarrow> [] | Some k \<Rightarrow> k) key_size
      in (aes_expand_key folded_key sboxes (block 176 fresh), sboxes))"

text \<open>Status, block, size and the warning about a long key.\<close>

definition mylite_aes_encrypt_default ::
    "malloc \<Rightarrow> (nat \<Rightarrow> byte) \<Rightarrow> bytes option \<Rightarrow> nat \<Rightarrow> bytes option \<Rightarrow> nat \<Rightarrow> int \<times> bytes option \<times> nat \<times> bool" where
  "mylite_aes_encrypt_default malloc fresh input input_size key key_size =
     (if (input = None \<and> input_size \<noteq> 0) \<or> (key = None \<and> key_size \<noteq> 0) then (MYLITE_MISUSE, None, 0, False)
      else
        let long_key_warning = key_size > 16; padding = 16 - input_size mod 16
        in if input_size > SIZE_MAX - padding then (MYLITE_NOMEM, None, 0, long_key_warning)
           else
             case malloc (input_size + padding) of
               None \<Rightarrow> (MYLITE_NOMEM, None, 0, long_key_warning)
             | Some _ \<Rightarrow>
                 let out = take input_size (case input of None \<Rightarrow> [] | Some b \<Rightarrow> b) @ replicate padding (of_nat padding);
                     (round_keys, sboxes) = aes_tables fresh key key_size
                 in (MYLITE_OK, Some (encrypt_loop round_keys sboxes (input_size + padding) out 0), input_size + padding, long_key_warning))"

definition aes_valid_padding :: "bytes \<Rightarrow> nat \<Rightarrow> nat option" where
  "aes_valid_padding bs byte_count =
     (if byte_count = 0 then None
      else
        let padding = bs ! (byte_count - 1)
        in if padding = 0 \<or> padding > 16 \<or> unat padding > byte_count then None
           else if list_all (\<lambda>i. bs ! i = padding) [byte_count - unat padding..<byte_count] then Some (byte_count - unat padding)
           else None)"

text \<open>Status, block, size, whether the text is invalid, and the warning about a long key.\<close>

definition mylite_aes_decrypt_default ::
    "malloc \<Rightarrow> (nat \<Rightarrow> byte) \<Rightarrow> bytes option \<Rightarrow> nat \<Rightarrow> bytes option \<Rightarrow> nat \<Rightarrow> int \<times> bytes option \<times> nat \<times> bool \<times> bool" where
  "mylite_aes_decrypt_default malloc fresh input input_size key key_size =
     (if (input = None \<and> input_size \<noteq> 0) \<or> (key = None \<and> key_size \<noteq> 0) then (MYLITE_MISUSE, None, 0, False, False)
      else
        let long_key_warning = key_size > 16
        in if input_size = 0 \<or> input_size mod 16 \<noteq> 0 then (MYLITE_OK, None, 0, True, long_key_warning)
           else
             case malloc input_size of
               None \<Rightarrow> (MYLITE_NOMEM, None, 0, False, long_key_warning)
             | Some fresh_block \<Rightarrow>
                 let (round_keys, sboxes) = aes_tables fresh key key_size;
                     out = decrypt_loop round_keys sboxes (the input) input_size (block input_size fresh_block) 0
                 in case aes_valid_padding out input_size of
                      None \<Rightarrow> (MYLITE_OK, None, 0, True, long_key_warning)
                    | Some unpadded_size \<Rightarrow> (MYLITE_OK, Some out, unpadded_size, False, long_key_warning))"

section \<open>The SQL functions\<close>

datatype aes_sqlite_operation = AES_SQLITE_ENCRYPT | AES_SQLITE_DECRYPT

datatype aes_result =
    AesBlob bytes
  | AesNull
  | AesError string
  | AesNomem
  | AesTooBig

definition aes_sqlite_callback ::
    "malloc \<Rightarrow> (nat \<Rightarrow> byte) \<Rightarrow> aes_sqlite_operation option \<Rightarrow> typed_value list \<Rightarrow> aes_result" where
  "aes_sqlite_callback malloc fresh operation argv =
     (case (operation, argv) of
        (Some op, [v, k]) \<Rightarrow>
          if value_type v = SQLITE_NULL \<or> value_type k = SQLITE_NULL then AesNull
          else
            let (rc, out, output_size, invalid) =
                  (case op of
                     AES_SQLITE_ENCRYPT \<Rightarrow>
                       (let (rc, out, output_size, _) =
                              mylite_aes_encrypt_default malloc fresh (value_text v) (nat (value_bytes v)) (value_text k) (nat (value_bytes k))
                        in (rc, out, output_size, False))
                   | AES_SQLITE_DECRYPT \<Rightarrow>
                       (let (rc, out, output_size, invalid, _) =
                              mylite_aes_decrypt_default malloc fresh (value_text v) (nat (value_bytes v)) (value_text k) (nat (value_bytes k))
                        in (rc, out, output_size, invalid)))
            in if rc = MYLITE_NOMEM then AesNomem
               else if rc \<noteq> MYLITE_OK then AesError ''MyLite AES function failed''
               else if invalid then AesNull
               else if int output_size > INT32_MAX then AesTooBig
               else AesBlob (take output_size (the out))
      | _ \<Rightarrow> AesError ''invalid MyLite AES callback'')"

text \<open>What a registration refers to: the callback, and the operation as its application data.\<close>

datatype aes_callback = AesCallback | AesOperation aes_sqlite_operation

definition aes_registration :: "string \<Rightarrow> aes_sqlite_operation \<Rightarrow> aes_callback function_registration" where
  "aes_registration name operation =
     (scalar_registration name 2 (SQLITE_UTF8 OR SQLITE_DIRECTONLY OR SQLITE_INNOCUOUS OR SQLITE_DETERMINISTIC) AesCallback)
       \<lparr>application_data := Some (AesOperation operation)\<rparr>"

definition aes_registrations :: "aes_callback function_registration list" where
  "aes_registrations =
     [aes_registration ''_mylite_aes_encrypt'' AES_SQLITE_ENCRYPT, aes_registration ''_mylite_aes_decrypt'' AES_SQLITE_DECRYPT]"

definition mylite_sqlite_register_aes_functions :: "('w, aes_callback) sqlite_create \<Rightarrow> bool \<Rightarrow> 'w \<Rightarrow> int \<times> 'w" where
  "mylite_sqlite_register_aes_functions create sqlite w =
     mylite_sqlite_register_functions create sqlite w (Some aes_registrations) (length aes_registrations)"

end
