(* ===== verification/Aes_Roundtrip.thy ===== *)
theory Aes_Roundtrip
  imports Aes_Cipher
begin

text \<open>
  Decryption undoes encryption: every transformation of a block has its inverse, the rounds undo
  each other in reverse order, and the padding is found again.
\<close>

section \<open>The tables\<close>

lemma byte_of_nat_inj: "i < 256 \<Longrightarrow> j < 256 \<Longrightarrow> (of_nat i :: byte) = of_nat j \<Longrightarrow> i = j"
proof -
  assume e: "i < 256" "j < 256" "(of_nat i :: byte) = of_nat j"
  have "unat (of_nat k :: byte) = k" if "k < 256" for k using that by (simp add: unat_of_nat)
  with e show "i = j" by metis
qed

definition sbox_step :: "aes_sboxes \<Rightarrow> nat \<Rightarrow> aes_sboxes" where
  "sbox_step s v =
     (let substituted = aes_sbox_value (of_nat v)
      in s\<lparr>direct := (direct s)[v := substituted], inverse_table := (inverse_table s)[unat substituted := of_nat v]\<rparr>)"

lemma generate_steps: "aes_generate_sboxes s = foldl sbox_step s [0..<256]"
  unfolding aes_generate_sboxes_def by (intro arg_cong [where f = "\<lambda>f. foldl f s [0..<256]"] ext) (simp add: sbox_step_def)

definition sbox_prefix :: "aes_sboxes \<Rightarrow> nat \<Rightarrow> bool" where
  "sbox_prefix r n \<longleftrightarrow> length (direct r) = 256 \<and> length (inverse_table r) = 256 \<and>
     (\<forall>v < n. direct r ! v = aes_sbox_value (of_nat v) \<and> inverse_table r ! unat (aes_sbox_value (of_nat v)) = of_nat v)"

lemma sbox_step_prefix:
  assumes "sbox_prefix r n" "n < 256"
  shows "sbox_prefix (sbox_step r n) (Suc n)"
proof -
  have lt: "unat (x :: byte) < 256" for x using unsigned_less [of x] by simp
  have ne: "unat (aes_sbox_value (of_nat n)) \<noteq> unat (aes_sbox_value (of_nat v))" if "v < n" for v
  proof
    assume "unat (aes_sbox_value (of_nat n)) = unat (aes_sbox_value (of_nat v))"
    then have "(of_nat n :: byte) = of_nat v" by (rule sbox_inj [OF unsigned_word_eqI])
    from byte_of_nat_inj [OF _ _ this] show False using that assms(2) by linarith
  qed
  show ?thesis unfolding sbox_prefix_def
  proof (intro conjI allI impI)
    fix v assume v: "v < Suc n"
    show "direct (sbox_step r n) ! v = aes_sbox_value (of_nat v)"
      using v assms by (cases "v = n") (simp_all add: sbox_step_def sbox_prefix_def Let_def)
    show "inverse_table (sbox_step r n) ! unat (aes_sbox_value (of_nat v)) = of_nat v"
      using v assms lt ne [of v] by (cases "v = n") (simp_all add: sbox_step_def sbox_prefix_def Let_def)
  qed (use assms in \<open>simp_all add: sbox_step_def sbox_prefix_def Let_def\<close>)
qed

lemma generate_prefix:
  assumes "length (direct s) = 256" "length (inverse_table s) = 256"
  shows "n \<le> 256 \<Longrightarrow> sbox_prefix (foldl sbox_step s [0..<n]) n"
proof (induction n)
  case 0
  then show ?case using assms by (simp add: sbox_prefix_def)
next
  case (Suc n)
  then show ?case using sbox_step_prefix [of "foldl sbox_step s [0..<n]" n] by simp
qed

lemma generate_sboxes:
  assumes "length (direct s) = 256" "length (inverse_table s) = 256"
  shows "inverse_table (aes_generate_sboxes s) ! unat (direct (aes_generate_sboxes s) ! unat b) = b"
proof -
  define r where "r = aes_generate_sboxes s"
  have "unat b < 256" using unsigned_less [of b] by simp
  with generate_prefix [OF assms order_refl, folded generate_steps r_def]
  have "direct r ! unat b = aes_sbox_value (of_nat (unat b))" "inverse_table r ! unat (aes_sbox_value (of_nat (unat b))) = of_nat (unat b)"
    unfolding sbox_prefix_def by blast+
  then show ?thesis unfolding r_def [symmetric] by simp
qed

section \<open>Transformations\<close>

lemma explicit16: "length s = 16 \<Longrightarrow>
    s = [s ! 0, s ! 1, s ! 2, s ! 3, s ! 4, s ! 5, s ! 6, s ! 7, s ! 8, s ! 9, s ! 10, s ! 11, s ! 12, s ! 13, s ! 14, s ! 15]"
  using map_nth [of s] by (simp add: upt_conv_Cons eval_nat_numeral)

lemma list16_cases:
  assumes "length s = 16"
  obtains a b c d e f g h i j k l m n p q where "s = [a, b, c, d, e, f, g, h, i, j, k, l, m, n, p, q]"
  using explicit16 [OF assms] by blast

lemma xor_cancel: "a XOR (a XOR b) = (b :: byte)"
  by (simp flip: xor.assoc)

lemma add_round_key_twice:
  assumes "length s = 16"
  shows "aes_add_round_key (aes_add_round_key s k) k = s"
proof -
  have "aes_add_round_key (aes_add_round_key s k) k = map ((!) s) [0..<16]"
    by (simp add: aes_add_round_key_def xor.assoc)
  then show ?thesis using map_nth [of s] assms by simp
qed

lemma sub_bytes_inverse:
  assumes "length s = 16" "\<And>b. tab ! unat (sbox ! unat b) = b"
  shows "aes_inv_sub_bytes (aes_sub_bytes s sbox) tab = s"
proof -
  have "aes_inv_sub_bytes (aes_sub_bytes s sbox) tab = map ((!) s) [0..<16]"
    by (simp add: aes_sub_bytes_def aes_inv_sub_bytes_def assms(2))
  then show ?thesis using map_nth [of s] assms(1) by simp
qed

lemma shift_rows_inverse:
  assumes "length s = 16"
  shows "aes_inv_shift_rows (aes_shift_rows s) = s"
  by (rule list16_cases [OF assms]) (simp add: aes_shift_rows_def aes_inv_shift_rows_def upt_conv_Cons)

lemma gf_constants:
  "aes_gf_mul a 2 = aes_xtime a" "aes_gf_mul a 3 = a XOR aes_xtime a"
  "aes_gf_mul a 9 = a XOR aes_xtime (aes_xtime (aes_xtime a))"
  "aes_gf_mul a 11 = a XOR aes_xtime a XOR aes_xtime (aes_xtime (aes_xtime a))"
  "aes_gf_mul a 13 = a XOR aes_xtime (aes_xtime a) XOR aes_xtime (aes_xtime (aes_xtime a))"
  "aes_gf_mul a 14 = aes_xtime a XOR aes_xtime (aes_xtime a) XOR aes_xtime (aes_xtime (aes_xtime a))"
  by (simp_all add: aes_gf_mul_def gf_mul_loop.simps xor.assoc)

lemma mix_column_inverse:
  fixes a0 a1 a2 a3 :: byte
  defines "b0 \<equiv> aes_gf_mul a0 2 XOR aes_gf_mul a1 3 XOR a2 XOR a3"
    and "b1 \<equiv> a0 XOR aes_gf_mul a1 2 XOR aes_gf_mul a2 3 XOR a3"
    and "b2 \<equiv> a0 XOR a1 XOR aes_gf_mul a2 2 XOR aes_gf_mul a3 3"
    and "b3 \<equiv> aes_gf_mul a0 3 XOR a1 XOR a2 XOR aes_gf_mul a3 2"
  shows "aes_gf_mul b0 14 XOR aes_gf_mul b1 11 XOR aes_gf_mul b2 13 XOR aes_gf_mul b3 9 = a0"
    "aes_gf_mul b0 9 XOR aes_gf_mul b1 14 XOR aes_gf_mul b2 11 XOR aes_gf_mul b3 13 = a1"
    "aes_gf_mul b0 13 XOR aes_gf_mul b1 9 XOR aes_gf_mul b2 14 XOR aes_gf_mul b3 11 = a2"
    "aes_gf_mul b0 11 XOR aes_gf_mul b1 13 XOR aes_gf_mul b2 9 XOR aes_gf_mul b3 14 = a3"
  unfolding b0_def b1_def b2_def b3_def gf_constants xtime_xor
  by (simp_all add: xor.assoc xor.commute xor.left_commute xor_cancel)

lemma mix_columns_inverse:
  assumes "length s = 16"
  shows "aes_inv_mix_columns (aes_mix_columns s) = s"
  by (rule list16_cases [OF assms])
    (simp add: aes_mix_columns_def aes_inv_mix_columns_def Let_def upt_conv_Cons mix_column_inverse)


section \<open>Blocks\<close>

lemma transformation_lengths [simp]:
  "length (aes_add_round_key s k) = 16" "length (aes_sub_bytes s t) = 16"
  "length (aes_shift_rows s) = length s" "length (aes_mix_columns s) = length s"
  by (simp_all add: aes_add_round_key_def aes_sub_bytes_def aes_shift_rows_def aes_mix_columns_def upt_conv_Cons Let_def)

definition sboxes_ok :: "aes_sboxes \<Rightarrow> bool" where
  "sboxes_ok sboxes \<longleftrightarrow> (\<forall>b. inverse_table sboxes ! unat (direct sboxes ! unat b) = b)"

lemma rounds_inverse:
  assumes "sboxes_ok sboxes" "length state = 16"
  shows "foldl (\<lambda>state rnd.
      aes_inv_mix_columns (aes_add_round_key (aes_inv_sub_bytes (aes_inv_shift_rows state) (inverse_table sboxes)) (aes_round_key keys rnd)))
      (aes_shift_rows (aes_sub_bytes (foldl (\<lambda>state rnd.
        aes_add_round_key (aes_mix_columns (aes_shift_rows (aes_sub_bytes state (direct sboxes)))) (aes_round_key keys rnd)) state rs) (direct sboxes)))
      (rev rs) = aes_shift_rows (aes_sub_bytes state (direct sboxes))"
  using assms(2)
proof (induction rs arbitrary: state)
  case (Cons r rs)
  have sub: "aes_inv_sub_bytes (aes_sub_bytes s (direct sboxes)) (inverse_table sboxes) = s" if "length s = 16" for s
    using sub_bytes_inverse [OF that] assms(1) by (simp add: sboxes_ok_def)
  show ?case using Cons.IH by (simp add: shift_rows_inverse mix_columns_inverse add_round_key_twice sub)
qed simp

lemma decrypt_encrypt_block:
  assumes "sboxes_ok sboxes" "16 \<le> length input"
  shows "aes_decrypt_block (aes_encrypt_block input keys sboxes @ rest) keys sboxes = take 16 input"
proof -
  define state where "state = aes_add_round_key (take 16 input) (aes_round_key keys 0)"
  define last where "last = foldl (\<lambda>state rnd.
      aes_add_round_key (aes_mix_columns (aes_shift_rows (aes_sub_bytes state (direct sboxes)))) (aes_round_key keys rnd)) state [1..<10]"
  have len: "length state = 16" by (simp add: state_def)
  have "aes_encrypt_block input keys sboxes = aes_add_round_key (aes_shift_rows (aes_sub_bytes last (direct sboxes))) (aes_round_key keys 10)"
    by (simp only: aes_encrypt_block_def Let_def state_def last_def)
  then have "aes_add_round_key (take 16 (aes_encrypt_block input keys sboxes @ rest)) (aes_round_key keys 10)
      = aes_shift_rows (aes_sub_bytes last (direct sboxes))" by (simp add: add_round_key_twice)
  note first = this
  have "aes_inv_sub_bytes (aes_sub_bytes state (direct sboxes)) (inverse_table sboxes) = state"
    using sub_bytes_inverse [OF len] assms(1) by (simp add: sboxes_ok_def)
  then have final: "aes_inv_sub_bytes (aes_inv_shift_rows (aes_shift_rows (aes_sub_bytes state (direct sboxes)))) (inverse_table sboxes) = state"
    by (simp add: shift_rows_inverse)
  show ?thesis unfolding aes_decrypt_block_def Let_def first last_def rounds_inverse [OF assms(1) len] final
    using assms(2) by (simp add: state_def add_round_key_twice)
qed

lemma encrypt_block_length [simp]: "length (aes_encrypt_block input keys sboxes) = 16"
  "length (aes_decrypt_block input keys sboxes) = 16"
  by (simp_all add: aes_encrypt_block_def aes_decrypt_block_def Let_def)


section \<open>Texts\<close>

function map_blocks :: "(bytes \<Rightarrow> bytes) \<Rightarrow> bytes \<Rightarrow> bytes" where
  "map_blocks f xs = (if xs = [] then [] else f xs @ map_blocks f (drop 16 xs))"
  by auto
termination by (relation "measure (length \<circ> snd)") auto

declare map_blocks.simps [simp del]

lemma encrypt_loop_blocks:
  "length out = n \<Longrightarrow> n = offset + 16 * k \<Longrightarrow>
    encrypt_loop keys sboxes n out offset = take offset out @ map_blocks (\<lambda>b. aes_encrypt_block b keys sboxes) (drop offset out)"
proof (induction k arbitrary: offset out)
  case 0
  then show ?case by (simp add: encrypt_loop.simps map_blocks.simps)
next
  case (Suc k)
  define out' where "out' = take offset out @ aes_encrypt_block (drop offset out) keys sboxes @ drop (offset + 16) out"
  have len: "length out' = n" using Suc.prems by (simp add: out'_def)
  have parts: "take (offset + 16) out' = take offset out @ aes_encrypt_block (drop offset out) keys sboxes" "drop (offset + 16) out' = drop (offset + 16) out"
    using Suc.prems by (simp_all add: out'_def)
  have "encrypt_loop keys sboxes n out offset = encrypt_loop keys sboxes n out' (offset + 16)"
    using Suc.prems by (subst encrypt_loop.simps) (simp add: out'_def)
  also have "\<dots> = take (offset + 16) out' @ map_blocks (\<lambda>b. aes_encrypt_block b keys sboxes) (drop (offset + 16) out')"
    using Suc.IH [OF len] Suc.prems by simp
  finally show ?case using Suc.prems unfolding parts by (simp add: map_blocks.simps [of _ "drop offset out"] add.commute)
qed

lemma decrypt_loop_blocks:
  "length out = n \<Longrightarrow> length input = n \<Longrightarrow> n = offset + 16 * k \<Longrightarrow>
    decrypt_loop keys sboxes input n out offset = take offset out @ map_blocks (\<lambda>b. aes_decrypt_block b keys sboxes) (drop offset input)"
proof (induction k arbitrary: offset out)
  case 0
  then show ?case by (simp add: decrypt_loop.simps map_blocks.simps)
next
  case (Suc k)
  define out' where "out' = take offset out @ aes_decrypt_block (drop offset input) keys sboxes @ drop (offset + 16) out"
  have len: "length out' = n" using Suc.prems by (simp add: out'_def)
  have parts: "take (offset + 16) out' = take offset out @ aes_decrypt_block (drop offset input) keys sboxes" using Suc.prems by (simp add: out'_def)
  have "decrypt_loop keys sboxes input n out offset = decrypt_loop keys sboxes input n out' (offset + 16)"
    using Suc.prems by (subst decrypt_loop.simps) (simp add: out'_def)
  also have "\<dots> = take (offset + 16) out' @ map_blocks (\<lambda>b. aes_decrypt_block b keys sboxes) (drop (offset + 16) input)"
    using Suc.IH [OF len] Suc.prems by simp
  finally show ?case using Suc.prems unfolding parts by (simp add: map_blocks.simps [of _ "drop offset input"] add.commute)
qed

lemma blocks_inverse:
  assumes "sboxes_ok sboxes"
  shows "length xs = 16 * k \<Longrightarrow>
    map_blocks (\<lambda>b. aes_decrypt_block b keys sboxes) (map_blocks (\<lambda>b. aes_encrypt_block b keys sboxes) xs) = xs \<and>
    length (map_blocks (\<lambda>b. aes_encrypt_block b keys sboxes) xs) = length xs"
proof (induction k arbitrary: xs)
  case 0
  then show ?case by (simp add: map_blocks.simps)
next
  case (Suc k)
  define rest where "rest = map_blocks (\<lambda>b. aes_encrypt_block b keys sboxes) (drop 16 xs)"
  have IH: "map_blocks (\<lambda>b. aes_decrypt_block b keys sboxes) rest = drop 16 xs" "length rest = length (drop 16 xs)"
    using Suc.IH [of "drop 16 xs"] Suc.prems by (simp_all add: rest_def)
  have e: "map_blocks (\<lambda>b. aes_encrypt_block b keys sboxes) xs = aes_encrypt_block xs keys sboxes @ rest"
    using Suc.prems by (simp add: map_blocks.simps [of _ xs] rest_def) auto
  have "aes_encrypt_block xs keys sboxes \<noteq> []" using encrypt_block_length(1) [of xs keys sboxes] by force
  then have "map_blocks (\<lambda>b. aes_decrypt_block b keys sboxes) (aes_encrypt_block xs keys sboxes @ rest) = take 16 xs @ drop 16 xs"
    using decrypt_encrypt_block [OF assms, of xs keys rest] Suc.prems IH(1)
    by (subst map_blocks.simps) (simp del: append_take_drop_id)
  then show ?case using IH(2) Suc.prems unfolding e by simp
qed

section \<open>Padding\<close>

lemma padding_found:
  assumes "1 \<le> p" "p \<le> 16"
  shows "aes_valid_padding (bs @ replicate p (of_nat p)) (length bs + p) = Some (length bs)"
proof -
  have u: "unat (of_nat p :: byte) = p" using assms by (simp add: unat_of_nat)
  have nz: "(of_nat p :: byte) \<noteq> 0" using u assms by (metis not_one_le_zero unsigned_0)
  have le: "\<not> (of_nat p :: byte) > 16" using u assms by (simp add: word_less_nat_alt not_less)
  have last: "(bs @ replicate p (of_nat p :: byte)) ! (length bs + p - 1) = of_nat p"
  proof -
    have "\<not> length bs + p - 1 < length bs" "length bs + p - 1 - length bs < p" using assms(1) by linarith+
    then show ?thesis unfolding nth_append by simp
  qed
  have all: "list_all (\<lambda>i. (bs @ replicate p (of_nat p :: byte)) ! i = of_nat p) [length bs..<length bs + p]" by (auto simp: list_all_iff nth_append)
  show ?thesis unfolding aes_valid_padding_def Let_def last u using assms nz le all by simp
qed


section \<open>The tables and keys do not depend on the stack\<close>

lemma generate_unique:
  assumes "length (direct s) = 256" "length (inverse_table s) = 256" "length (direct t) = 256" "length (inverse_table t) = 256"
  shows "aes_generate_sboxes s = aes_generate_sboxes t"
proof -
  define r q where "r = aes_generate_sboxes s" and "q = aes_generate_sboxes t"
  have r: "sbox_prefix r 256" "sbox_prefix q 256"
    unfolding r_def q_def generate_steps using generate_prefix assms by blast+
  have "direct r = direct q" using r unfolding sbox_prefix_def by (intro nth_equalityI) simp_all
  moreover have "inverse_table r = inverse_table q"
  proof (rule nth_equalityI)
    show "length (inverse_table r) = length (inverse_table q)" using r by (simp add: sbox_prefix_def)
    fix u assume "u < length (inverse_table r)"
    then have u: "u < 256" using r by (simp add: sbox_prefix_def)
    have "surj aes_sbox_value" by (rule finite_UNIV_inj_surj) (auto intro: injI sbox_inj)
    then obtain b where b: "aes_sbox_value b = of_nat u" by (metis surjD)
    have v: "unat b < 256" "of_nat (unat b) = b" using unsigned_less [of b] by simp_all
    have "unat (aes_sbox_value b) = u" unfolding b using u by (simp add: unat_of_nat)
    with r v show "inverse_table r ! u = inverse_table q ! u" unfolding sbox_prefix_def by metis
  qed
  ultimately have "r = q" by (intro aes_sboxes.equality) simp_all
  then show ?thesis by (simp add: r_def q_def)
qed

lemma take_four:
  assumes "g + 4 \<le> length xs"
  shows "take (g + 4) (xs[g := a, Suc g := b, Suc (Suc g) := c, Suc (Suc (Suc g)) := d]) = take g xs @ [a, b, c, d]"
  using assms take_update [of g xs a] take_update [of "Suc g" "xs[g := a]" b] take_update [of "Suc (Suc g)" "xs[g := a, Suc g := b]" c]
    take_update [of "Suc (Suc (Suc g))" "xs[g := a, Suc g := b, Suc (Suc g) := c]" d]
  by (simp add: eval_nat_numeral)

lemma expand_step:
  assumes "16 \<le> g" "g + 4 \<le> length keys"
  shows "take (g + 4) (foldl (\<lambda>keys i. keys[g + i := keys ! (g + i - 16) XOR temp ! i]) keys [0..<4]) =
    take g keys @ [take g keys ! (g - 16) XOR temp ! 0, take g keys ! (g - 15) XOR temp ! 1, take g keys ! (g - 14) XOR temp ! 2,
      take g keys ! (g - 13) XOR temp ! 3]"
proof -
  have "foldl (\<lambda>keys i. keys[g + i := keys ! (g + i - 16) XOR temp ! i]) keys [0..<4] =
    keys[g := keys ! (g - 16) XOR temp ! 0, Suc g := keys ! (g - 15) XOR temp ! 1, Suc (Suc g) := keys ! (g - 14) XOR temp ! 2,
      Suc (Suc (Suc g)) := keys ! (g - 13) XOR temp ! 3]"
    using assms by (simp add: upt_conv_Cons eval_nat_numeral)
  then show ?thesis using assms take_four [OF assms(2)] by simp
qed


lemma expand_step_length: "length (foldl (\<lambda>keys i. keys[g + i := keys ! (g + i - 16) XOR temp ! i]) keys is) = length keys"
  by (induction "is" arbitrary: keys) simp_all

lemma expand_loop_unique:
  "16 \<le> g \<Longrightarrow> g + 4 * k = 176 \<Longrightarrow> length xs = 176 \<Longrightarrow> length ys = 176 \<Longrightarrow> take g xs = take g ys \<Longrightarrow>
    expand_key_loop sboxes rcon g xs = expand_key_loop sboxes rcon g ys"
proof (induction k arbitrary: g xs ys rcon)
  case 0
  then show ?case by (simp add: expand_key_loop.simps)
next
  case (Suc k)
  define nxt where "nxt keys = (let temp = take 4 (drop (g - 4) keys) in
      if g mod 16 = 0 then
        ([direct sboxes ! unat (temp ! 1) XOR rcon, direct sboxes ! unat (temp ! 2), direct sboxes ! unat (temp ! 3),
          direct sboxes ! unat (temp ! 0)], aes_xtime rcon)
      else (temp, rcon))" for keys
  define step where "step keys temp = foldl (\<lambda>keys i. keys[g + i := keys ! (g + i - 16) XOR temp ! i]) keys [0..<4]" for keys temp :: bytes
  have run: "expand_key_loop sboxes rcon g keys = expand_key_loop sboxes (snd (nxt keys)) (g + 4) (step keys (fst (nxt keys)))" for keys
    using Suc.prems(2) by (subst expand_key_loop.simps) (simp add: nxt_def step_def Let_def case_prod_beta)
  have d: "take 4 (drop (g - 4) keys) = drop (g - 4) (take g keys)" for keys :: bytes using Suc.prems(1) by (simp add: drop_take)
  have n: "nxt xs = nxt ys" unfolding nxt_def d Suc.prems(5) ..
  have "take (g + 4) (step xs (fst (nxt ys))) = take (g + 4) (step ys (fst (nxt ys)))"
  proof -
    have le: "g + 4 \<le> length xs" "g + 4 \<le> length ys" using Suc.prems by simp_all
    show ?thesis unfolding step_def expand_step [OF Suc.prems(1) le(1)] expand_step [OF Suc.prems(1) le(2)] Suc.prems(5) ..
  qed
  then have "expand_key_loop sboxes (snd (nxt ys)) (g + 4) (step xs (fst (nxt ys))) = expand_key_loop sboxes (snd (nxt ys)) (g + 4) (step ys (fst (nxt ys)))"
    using Suc.prems by (intro Suc.IH) (simp_all add: step_def expand_step_length)
  then show ?case unfolding run n .
qed

lemma fold_key_length: "length (aes_fold_mysql_key key n) = 16"
  unfolding aes_fold_mysql_key_def by (induction n) simp_all

lemma tables_unique: "aes_tables fresh key n = aes_tables fresh' key n"
proof -
  have "aes_generate_sboxes \<lparr>direct = block 256 fresh, inverse_table = block 256 fresh\<rparr>
      = aes_generate_sboxes \<lparr>direct = block 256 fresh', inverse_table = block 256 fresh'\<rparr>" by (rule generate_unique) simp_all
  moreover have "aes_expand_key k sboxes (block 176 fresh) = aes_expand_key k sboxes (block 176 fresh')" if "length k = 16" for k sboxes
    unfolding aes_expand_key_def using that by (intro expand_loop_unique [where k = 40]) simp_all
  ultimately show ?thesis by (simp add: aes_tables_def Let_def fold_key_length)
qed

lemma tables_ok: "sboxes_ok (snd (aes_tables fresh key n))"
  using generate_sboxes [of "\<lparr>direct = block 256 fresh, inverse_table = block 256 fresh\<rparr>"] by (simp add: aes_tables_def Let_def sboxes_ok_def)

section \<open>The round trip\<close>

text \<open>
  Property C12. Encrypting any text with any key gives a text of whole blocks, longer than the plain
  text by 1 to 16 bytes, and decrypting it with the same key gives the plain text back, whatever
  the memory of either call holds before; either direction fails only when an allocation is
  refused, or the size of the text has no representation.
\<close>

theorem aes_roundtrip:
  "case mylite_aes_encrypt_default malloc fresh (Some input) (length input) (Some key) (length key) of (rc, out, n, long_key) \<Rightarrow>
     long_key = (length key > 16) \<and>
     (rc = MYLITE_OK \<and> n = length input + (16 - length input mod 16) \<and> (\<exists>b. out = Some b \<and> length b = n) \<and>
       (case mylite_aes_decrypt_default malloc' fresh' out n (Some key) (length key) of (rc', out', n', invalid, long_key') \<Rightarrow>
          \<not> invalid \<and> long_key' = long_key \<and>
          (rc' = MYLITE_OK \<and> n' = length input \<and> (\<exists>b. out' = Some b \<and> take n' b = input) \<or>
           rc' = MYLITE_NOMEM \<and> out' = None \<and> malloc' n = None)) \<or>
      rc = MYLITE_NOMEM \<and> out = None \<and>
        (malloc (length input + (16 - length input mod 16)) = None \<or> length input > SIZE_MAX - (16 - length input mod 16)))"
proof -
  define p where "p = 16 - length input mod 16"
  have p: "1 \<le> p" "p \<le> 16" using mod_less_divisor [of 16 "length input"] unfolding p_def by linarith+
  have "length input + p = 16 * (length input div 16 + 1)" unfolding p_def by presburger
  then obtain k where k: "length input + p = 16 * k" by blast
  show ?thesis
  proof (cases "length input > SIZE_MAX - p \<or> malloc (length input + p) = None")
    case True
    then have "mylite_aes_encrypt_default malloc fresh (Some input) (length input) (Some key) (length key) = (MYLITE_NOMEM, None, 0, length key > 16)"
      unfolding mylite_aes_encrypt_default_def Let_def p_def [symmetric] by auto
    with True show ?thesis unfolding p_def [symmetric] by auto
  next
    case False
    obtain keys sboxes where tables: "\<And>fresh. aes_tables fresh (Some key) (length key) = (keys, sboxes)" using tables_unique by (metis surj_pair)
    have ok: "sboxes_ok sboxes" using tables_ok [of fresh "Some key" "length key"] by (simp add: tables)
    define plain where "plain = input @ replicate p (of_nat p :: byte)"
    define cipher where "cipher = map_blocks (\<lambda>b. aes_encrypt_block b keys sboxes) plain"
    have len: "length plain = 16 * k" using k by (simp add: plain_def)
    note inverse = blocks_inverse [OF ok len, of keys, folded cipher_def]
    have "encrypt_loop keys sboxes (length input + p) plain 0 = cipher"
      using encrypt_loop_blocks [of plain "length input + p" 0 k keys sboxes] len k by (simp add: cipher_def)
    then have enc: "mylite_aes_encrypt_default malloc fresh (Some input) (length input) (Some key) (length key)
        = (MYLITE_OK, Some cipher, length input + p, length key > 16)"
      using False unfolding mylite_aes_encrypt_default_def Let_def p_def [symmetric] tables by (auto simp: plain_def)
    have size: "length input + p \<noteq> 0" "(length input + p) mod 16 = 0" using p k by simp_all
    have dec: "mylite_aes_decrypt_default malloc' fresh' (Some cipher) (length input + p) (Some key) (length key) =
        (case malloc' (length input + p) of None \<Rightarrow> (MYLITE_NOMEM, None, 0, False, length key > 16)
         | Some _ \<Rightarrow> (MYLITE_OK, Some plain, length input, False, length key > 16))"
    proof (cases "malloc' (length input + p)")
      case (Some f)
      have "decrypt_loop keys sboxes cipher (length input + p) (block (length input + p) f) 0 = plain"
        using decrypt_loop_blocks [of "block (length input + p) f" "length input + p" cipher 0 k keys sboxes] inverse len k by simp
      then show ?thesis using Some size padding_found [OF p, of input] 
        unfolding mylite_aes_decrypt_default_def Let_def tables by (simp add: plain_def)
    qed (use size in \<open>simp add: mylite_aes_decrypt_default_def Let_def\<close>)
    show ?thesis unfolding enc p_def [symmetric] prod.case dec using inverse len k by (cases "malloc' (length input + p)") (simp_all add: plain_def)
  qed
qed

end
