(* ===== verification/Spec2Isabelle.thy ===== *)
theory Spec2Isabelle
  imports File_Commit File_Open Lock_Functions Like_Match String_Pool Statement_Transaction Period_Functions
    Keyword_Lookup Digest_Words Json_Machine Base64_Roundtrip
    Temporal_Intervals Aes_Roundtrip
begin

text \<open>
  A verification development of MyLite, an embedded drop-in for MySQL over a bundled SQLite.

  \<^bold>\<open>The program.\<close> A client passes MySQL statements to \<^verbatim>\<open>libmylite\<close>. The lexer and the parser
  (\<^verbatim>\<open>src/packages/libmylite/src/sql\<close>) turn a statement into a tree; the runtime
  (\<^verbatim>\<open>src/packages/libmylite/src/runtime\<close>) plans and executes it as SQLite statements, keeps the
  MySQL metadata in catalog tables of the same database, wraps every statement in a SQLite
  transaction, records errors and warnings in a diagnostics area, and registers the MySQL
  functions with SQLite; the storage layer (\<^verbatim>\<open>src/packages/libmylite/src/storage\<close>) keeps the
  database in one \<^verbatim>\<open>.mylite\<close> file: a preamble of 4096 bytes with a magic number, a format version
  and a lifecycle state, followed by an ordinary SQLite database that SQLite reads through a VFS
  which shifts offsets past the preamble and around SQLite's lock page.

  \<^bold>\<open>Storage.\<close>
  \<^item> \<open>File_Format\<close> (\<^verbatim>\<open>mylite_file_format.c\<close>): the preamble as a list of bytes; the decoder
    accepts exactly the canonical preambles and inverts the encoder.
  \<^item> \<open>Offset_Vfs\<close> (\<^verbatim>\<open>mylite_offset_vfs.c\<close>): offset and size translation and every I/O method,
    with the fault hooks; the method table of the wrapped file is a record of functions. The
    translation is an order isomorphism onto the usable offsets.
  \<^item> \<open>Byte_File\<close>: the contract of a file as the locale \<open>byte_file\<close>, an array of bytes that is
    read, written, truncated and measured; \<open>Framed_File\<close> shows that the offset VFS over a file
    with this contract satisfies it again (a refinement, by interpretation), and that the
    preamble survives every operation, failures and torn writes included.
  \<^item> \<open>Vfs_Lifecycle\<close> (the second half of \<^verbatim>\<open>mylite_offset_vfs.c\<close>): opening, creating, validating,
    committing, aborting, closing and deleting; \<open>File_Commit\<close> has the outcome of each and that
    a file never reads as committed without a commit, over every sequence of operations.
  \<^item> \<open>File_Open\<close> (\<^verbatim>\<open>mylite_file_open.c\<close>): VFS registration and opening a payload; \<open>sqlite_handles\<close>
    is what SQLite documents of opening and closing connections.

  \<^bold>\<open>Runtime services.\<close>
  \<^item> \<open>Diagnostics\<close> (\<^verbatim>\<open>mylite_diagnostics.c\<close>): the diagnostics area as a record; its invariant
    over every sequence of operations, copying, allocation failures.
  \<^item> \<open>Named_Locks\<close>, \<open>Lock_Service\<close>, \<open>Lock_Functions\<close> (\<^verbatim>\<open>mylite_named_locks.c\<close>): the registry
    of user-level locks, the waiting loop of GET_LOCK and the SQL callbacks; \<open>lock_service\<close> is the
    contract of a lock registry, mutual exclusion is proved from it over every interleaving.
  \<^item> \<open>Registration\<close>, \<open>Sqlite_Values\<close> (\<^verbatim>\<open>mylite_sqlite_registration.c\<close>): tables of SQL functions;
    arguments and results of callbacks.
  \<^item> \<open>Like_Match\<close> (\<^verbatim>\<open>mylite_like.c\<close>): the LIKE matcher with its single retry point decides the
    recursive meaning of the pattern.
  \<^item> \<open>Period_Functions\<close> (\<^verbatim>\<open>mylite_period_functions.c\<close>): PERIOD_ADD and PERIOD_DIFF on 64-bit
    integers, with every overflow check; results in the years 0 to 99 are read as other months.
  \<^item> \<open>String_Base64\<close>, \<open>Base64_Roundtrip\<close> (\<^verbatim>\<open>mylite_string_base64.c\<close>): TO_BASE64 and
    FROM_BASE64 with their buffers and allocation failures; the text is the digits in base 64 of
    the numbers that three bytes make, in lines of 76 characters, and decoding it returns the bytes.
  \<^item> \<open>Aes_Field\<close>, \<open>Aes_Cipher\<close>, \<open>Aes_Roundtrip\<close> (\<^verbatim>\<open>mylite_aes.c\<close>): AES_ENCRYPT and
    AES_DECRYPT. Multiplication of bytes is a commutative monoid (by interpretation of the
    library's locale) in which 3 has order 255, so the computed S-box is a permutation; every
    transformation of a block has its inverse, and decryption undoes encryption.
  \<^item> \<open>Temporal_Arithmetic\<close>, \<open>Calendar\<close>, \<open>Temporal_Intervals\<close> (\<^verbatim>\<open>mylite_temporal_arithmetic.c\<close>):
    dates and intervals; the day numbers count the days of the Gregorian calendar on exactly the
    64-bit values on which no signed operation overflows, parsing accepts
    exactly the canonical texts, and checked arithmetic is exact. \<open>Typed_Values\<close> has the memory
    and the typed arguments that the functions on binary strings use.
  \<^item> \<open>Json_Validate\<close>, \<open>Json_Grammar\<close>, \<open>Json_Machine\<close> (\<^verbatim>\<open>mylite_json_validate.c\<close> and the
    reader of \<^verbatim>\<open>mylite_json_dom.c\<close>): the validator, a machine with a stack of states, and the
    grammar of JSON as inductive predicates with a bound on nesting; each state of the machine
    has a language, and the validator decides the grammar with 100 levels.
  \<^item> \<open>String_Table\<close>, \<open>String_Pool\<close> (\<^verbatim>\<open>mylite_catalog_string_pool.c\<close>): the interning pool of
    the catalog, a hash table with linear probing per generation; addresses are keys of an
    explicit heap, so that the stability of interned pointers can be stated.

  \<^bold>\<open>Statements and the catalog.\<close>
  \<^item> \<open>Statement_Cache\<close> (\<^verbatim>\<open>mylite_execution_sqlite_internal.c\<close>): the cache of prepared SQLite
    statements over an abstract SQLite; \<open>sqlite_statements\<close> is the contract of the statement
    functions of SQLite, \<open>Sqlite_Transactions\<close> extends it with savepoints and transactions
    (\<open>sqlite_transactions\<close>).
  \<^item> \<open>Catalog_Sqlite\<close>, \<open>Catalog_State\<close> (\<^verbatim>\<open>mylite_catalog_sqlite.c\<close>, \<^verbatim>\<open>mylite_catalog_state.c\<close>):
    checked reads and binds on the catalog state row (\<open>catalog_rows\<close>), synchronisation, catalog
    mutations and generation changes (\<open>catalog_store\<close>): each advances every generation by one or
    changes nothing. With SQLite's data version (\<open>data_versions\<close>) synchronisation always ends at
    the stored generation, also when it is not read.
  \<^item> \<open>Statement_Transaction\<close> (\<^verbatim>\<open>mylite_execution_statement_transaction.c\<close>): begin, commit and
    rollback of the transaction around a statement with the emergency path
    (\<open>statement_transactions\<close>); what reads, preparations and planning begin on every branch.
  \<^item> \<open>Sqlite_Table\<close>: a small transactional store that satisfies all these contracts at once; the
    locales are interpreted on it together with the model's own operations, which shows that
    the contracts on SQLite can be met.

  \<^bold>\<open>SQL text.\<close>
  \<^item> \<open>Sql_Keywords\<close>, \<open>Keyword_Lookup\<close> (\<^verbatim>\<open>mylite_lexer.c\<close>): the keyword table and the tables
    derived from it by hand; the optimised lookup equals a search of the table, which shows
    that the 905 entries and the derived ranges, masks and indexes agree.
  \<^item> \<open>Sql_Lexer\<close>, \<open>Lexer_Tokens\<close> (\<^verbatim>\<open>mylite_lexer.c\<close>): the lexer with all its scanners; every
    call makes progress, the tokens tile the input, operators are matched greedily.
  \<^item> \<open>Dynamic_String\<close> (\<^verbatim>\<open>mylite_dynamic_string.c\<close>): the growing string with allocation
    failures.
  \<^item> \<open>Identifier_Quoting\<close> (\<^verbatim>\<open>mylite_execution_text_internal.c\<close>): quoting, lexing and copying an
    identifier returns it.
  \<^item> \<open>Statement_Digest\<close>, \<open>Digest_Words\<close> (\<^verbatim>\<open>mylite_statement_digest.c\<close>): the normalised text of
    a statement, lexer and dynamic string together; the text is the words of the tokens, which
    functions on the token list give, and does not depend on the values of literals.

  \<open>MyLite_Prelude\<close> has the types, status codes, limits and buffer lemmas all of them use.

  \<^bold>\<open>Conventions.\<close> A C struct is a record, an enum a datatype, an array a list; unsigned integers
  that wrap are words, sizes and counts are \<open>nat\<close> and signed values \<open>int\<close>, shown to stay in range
  where the code relies on it; where unchecked signed arithmetic may overflow, which is undefined,
  the function returns an option and \<open>None\<close> stands for it. A pointer that may be NULL is an option. Effects are explicit
  state: an operation returns its status and the new state. An allocation asks the environment:
  a list of answers, or a function that may fail. Names are those of the source; a loop of
  a function has the name of the function or of what it does with the suffix \<open>_loop\<close>.

  \<^bold>\<open>Loops and fuel.\<close> Loops are recursive functions with a proved measure. Three have fuel because
  the source loop is not bounded by its data alone: GET_LOCK waits on the clock (its property
  shows that the fuel of the timeout is enough for it to return), the LIKE matcher is given the
  sum of a pattern and value measure (its property is about every input, so the fuel always
  suffices), and a client that collects tokens needs one call more than there are bytes (shown to
  be enough). The loops of the statement digest end because the lexer does, and those of the JSON
  validator because the reader advances or the stack shrinks; they are partial functions, and
  their properties show that they return on every input.

  \<^bold>\<open>Parameters.\<close> SQLite is third-party code and appears as a record of functions with the contracts
  above, which state documented behaviour: what preparing, stepping, resetting and finalizing do
  to the set of statements, what BEGIN, SAVEPOINT, RELEASE, ROLLBACK and COMMIT do to the
  visible contents, that a connection with unfinished statements stays open when it is closed, that
  the data version differs after another connection has changed the database and not otherwise, what a VFS method
  does to a file. The integrity check of the catalog and the
  descriptor caches are parameters of the catalog operations, and the parser is a parameter of the
  statement digest: any function that gives a status and the token of the error. Profiling builds are not modelled.

  \<^bold>\<open>Not modelled.\<close> The parser is generated from a Lemon grammar and its builders only allocate
  nodes. Planning and execution lower statements to SQL text and are very large; their correctness
  is that of the SQL they emit. The information schema, performance schema, sys tables and system
  variables are static tables. Of JSON only the validation is modelled: the tree of a document, its
  normal form, the paths and the SQL functions on them are linked nodes that are allocated and
  rewritten in place. Of the temporal functions the calendar arithmetic is modelled, not the
  formatting and the callbacks over it. The spatial and regular-expression functions are
  floating-point code and a large matcher that have not been modelled. The PHP extensions bind to
  the Zend engine; benchmarks and tools measure.
\<close>

end
